(* ===== verification/Prelude.thy ===== *)
theory Prelude
  imports Complex_Main "HOL-Library.AList" "HOL-Library.Sublist" "HOL-Library.Multiset"
begin

text \<open>
  What the component theories share: the names of the model's basic types, Python's exceptions
  as values, Python's dictionaries as insertion-ordered association lists, the pieces of
  \<^verbatim>\<open>str\<close> and \<^verbatim>\<open>int\<close> the copier uses (printing and parsing integers,
  prefix, suffix and substring tests, splitting at a separator), and a small algebra of results
  (\<open>error + value\<close>) for code that may raise.

  Python integers are \<open>int\<close>; identifiers that the broker or the database assigns (accounts,
  positions, orders, organisations) are integers too. Prices and other floats are finite, so they
  are modelled by the rational they denote (theory Rounding has the arithmetic).
\<close>

named_theorems dict_simps \<open>lookup and key facts of insertion-ordered dictionaries\<close>
named_theorems frame_simps \<open>what an operation leaves unchanged\<close>
named_theorems inv_intros \<open>operations that keep a component's invariant\<close>

type_synonym ident = int
type_synonym price = rat
type_synonym millis = int

section \<open>Exceptions and results\<close>

text \<open>
  The exceptions the modelled code raises or catches. \<open>DecimalError\<close> stands for the
  \<^verbatim>\<open>decimal\<close> signals a division by zero raises, the two \<open>Violation\<close>s for the
  database's constraint errors; a message the source builds is carried, one a library builds is not.
\<close>

datatype py_exc =
    ValueError string
  | RuntimeError string
  | MappingNotFound string
  | DecimalError
  | ZeroDivisionError
  | IndexError
  | UniqueViolation string
  | ForeignKeyViolation ident
  | CheckViolation string
  | ProtocolError string

type_synonym 'a res = "py_exc + 'a"

text \<open>Sequencing of two computations that may raise, and a loop that stops at the first error.\<close>

definition res_bind :: "'a res \<Rightarrow> ('a \<Rightarrow> 'b res) \<Rightarrow> 'b res" where
  "res_bind r f = (case r of Inl e \<Rightarrow> Inl e | Inr x \<Rightarrow> f x)"

lemma res_bind_simps [simp]:
  "res_bind (Inl e) f = Inl e" "res_bind (Inr x) f = f x"
  by (simp_all add: res_bind_def)

lemma res_bind_Inr_iff: "res_bind r f = Inr y \<longleftrightarrow> (\<exists>x. r = Inr x \<and> f x = Inr y)"
  by (cases r) auto

fun map_res :: "('a \<Rightarrow> 'b res) \<Rightarrow> 'a list \<Rightarrow> 'b list res" where
  "map_res f [] = Inr []"
| "map_res f (x # xs) = res_bind (f x) (\<lambda>y. res_bind (map_res f xs) (\<lambda>ys. Inr (y # ys)))"

lemma map_res_Inr_iff:
  "map_res f xs = Inr ys \<longleftrightarrow> list_all2 (\<lambda>x y. f x = Inr y) xs ys"
  by (induction xs arbitrary: ys) (auto simp: res_bind_Inr_iff list_all2_Cons1)

lemma map_res_set:
  "map_res f xs = Inr ys \<Longrightarrow> y \<in> set ys \<Longrightarrow> \<exists>x \<in> set xs. f x = Inr y"
  by (fastforce simp: map_res_Inr_iff list_all2_conv_all_nth in_set_conv_nth)

lemma map_res_length: "map_res f xs = Inr ys \<Longrightarrow> length ys = length xs"
  by (auto simp: map_res_Inr_iff dest: list_all2_lengthD)

lemma map_res_total: "(\<And>x. x \<in> set xs \<Longrightarrow> f x = Inr (g x)) \<Longrightarrow> map_res f xs = Inr (map g xs)"
  by (induction xs) auto

lemma map_res_ok: "(\<And>x. x \<in> set xs \<Longrightarrow> \<exists>y. f x = Inr y) \<Longrightarrow> \<exists>ys. map_res f xs = Inr ys"
  by (induction xs) fastforce+

section \<open>Dictionaries\<close>

text \<open>
  A Python dict keeps the insertion order of its keys: assigning to a present key replaces the
  value in place, assigning to a new key appends. That is \<^const>\<open>AList.update\<close> on an association
  list; \<^verbatim>\<open>d.get\<close> is \<^const>\<open>map_of\<close> and \<^verbatim>\<open>d.pop\<close> is \<^const>\<open>AList.delete\<close>.
  A dict comprehension, and a dict built by a loop, is \<open>dict_of\<close>: a later entry for the same key
  wins.
\<close>

type_synonym ('k, 'v) dict = "('k \<times> 'v) list"

definition dict_of :: "('k \<times> 'v) list \<Rightarrow> ('k, 'v) dict" where
  "dict_of xs = fold (\<lambda>kv d. AList.update (fst kv) (snd kv) d) xs []"

lemma map_of_fold_update:
  "map_of (fold (\<lambda>kv d. AList.update (fst kv) (snd kv) d) xs d) = map_of d ++ map_of (rev xs)"
  by (induction xs arbitrary: d) (auto simp: update_conv' map_add_def fun_eq_iff split: option.splits)

lemma map_of_dict_of [dict_simps]: "map_of (dict_of xs) = map_of (rev xs)"
  by (simp add: dict_of_def map_of_fold_update)

lemma set_keys_fold_update:
  "fst ` set (fold (\<lambda>kv d. AList.update (fst kv) (snd kv) d) xs d) = fst ` set d \<union> fst ` set xs"
  by (induction xs arbitrary: d) (auto simp: dom_update simp flip: dom_map_of_conv_image_fst
        simp: update_conv')

lemma dict_of_keys [dict_simps]: "fst ` set (dict_of xs) = fst ` set xs"
  by (simp add: dict_of_def set_keys_fold_update)

lemma distinct_fold_update:
  "distinct (map fst d) \<Longrightarrow>
   distinct (map fst (fold (\<lambda>kv d. AList.update (fst kv) (snd kv) d) xs d))"
  by (induction xs arbitrary: d) (auto simp: distinct_update)

lemma dict_of_distinct [simp, intro]: "distinct (map fst (dict_of xs))"
  by (simp add: dict_of_def distinct_fold_update)

lemma dict_of_distinct_id: "distinct (map fst xs) \<Longrightarrow> dict_of xs = xs"
proof -
  have new: "k \<notin> fst ` set d \<Longrightarrow> AList.update k v d = d @ [(k, v)]" for k v and d :: "('a \<times> 'b) list"
    by (induction d) auto
  have "distinct (map fst (d @ xs)) \<Longrightarrow>
      fold (\<lambda>kv d. AList.update (fst kv) (snd kv) d) xs d = d @ xs" for d
  proof (induction xs arbitrary: d)
    case (Cons x xs)
    then show ?case by (auto simp: new)
  qed simp
  from this [of "[]"] show "distinct (map fst xs) \<Longrightarrow> dict_of xs = xs"
    by (simp add: dict_of_def)
qed

lemma map_of_dict_of_SomeD: "map_of (dict_of xs) k = Some v \<Longrightarrow> (k, v) \<in> set xs"
  by (auto simp: map_of_dict_of dest: map_of_SomeD)

section \<open>Lists\<close>

lemma subseq_distinct: "subseq xs ys \<Longrightarrow> distinct ys \<Longrightarrow> distinct xs"
  by (auto simp: subseq_conv_nths)

lemma find_SomeD: "find P xs = Some x \<Longrightarrow> P x \<and> x \<in> set xs"
  by (induction xs) (auto split: if_splits)

section \<open>Steps that respect a frame\<close>

text \<open>
  What a batch of operations may do to the state is a reflexive and transitive relation; a loop
  whose every step stays inside it stays inside it as a whole.
\<close>

locale frame_order =
  fixes inside :: "'s \<Rightarrow> 's \<Rightarrow> bool"
  assumes inside_refl: "inside s s"
    and inside_trans: "inside s t \<Longrightarrow> inside t u \<Longrightarrow> inside s u"
begin

lemma inside_fold: "(\<And>x s. x \<in> set xs \<Longrightarrow> inside s (f x s)) \<Longrightarrow> inside s (fold f xs s)"
proof (induction xs arbitrary: s)
  case (Cons x xs)
  have "inside s (f x s)" "inside (f x s) (fold f xs (f x s))"
    using Cons by simp_all
  then show ?case using inside_trans by simp
qed (simp add: inside_refl)

end

section \<open>Strings\<close>

definition startswith :: "string \<Rightarrow> string \<Rightarrow> bool" where
  "startswith s p = prefix p s"

definition endswith :: "string \<Rightarrow> string \<Rightarrow> bool" where
  "endswith s p = suffix p s"

text \<open>\<^verbatim>\<open>p in s\<close> on strings: \<open>p\<close> occurs somewhere in \<open>s\<close>.\<close>

fun contains :: "string \<Rightarrow> string \<Rightarrow> bool" where
  "contains [] p = (p = [])"
| "contains (c # s) p = (prefix p (c # s) \<or> contains s p)"

lemma contains_append: "contains (xs @ p @ ys) p"
proof (induction xs)
  case Nil
  have "prefix p (p @ ys)" by simp
  then show ?case by (cases "p @ ys") (simp_all del: prefixI)
qed auto

subsection \<open>Printing integers\<close>

definition digit_char :: "nat \<Rightarrow> char" where
  "digit_char d = char_of (48 + d)"

fun str_nat :: "nat \<Rightarrow> string" where
  "str_nat n = (if n < 10 then [digit_char n] else str_nat (n div 10) @ [digit_char (n mod 10)])"

declare str_nat.simps [simp del]

definition str_int :: "int \<Rightarrow> string" where
  "str_int i = (if i < 0 then CHR ''-'' # str_nat (nat (- i)) else str_nat (nat i))"

subsection \<open>Parsing integers\<close>

text \<open>
  \<^verbatim>\<open>int(text)\<close> for ASCII text: surrounding whitespace is dropped, a sign is optional,
  digits may be separated by single underscores; anything else raises \<^verbatim>\<open>ValueError\<close>
  (here \<open>None\<close>).
\<close>

definition is_digit :: "char \<Rightarrow> bool" where
  "is_digit c = (48 \<le> (of_char c :: nat) \<and> (of_char c :: nat) \<le> 57)"

definition digit_val :: "char \<Rightarrow> nat" where
  "digit_val c = of_char c - 48"

fun int_digits :: "nat \<Rightarrow> bool \<Rightarrow> string \<Rightarrow> nat option" where
  "int_digits acc p [] = (if p then Some acc else None)"
| "int_digits acc p (c # cs) =
     (if is_digit c then int_digits (acc * 10 + digit_val c) True cs
      else if c = CHR ''_'' \<and> p then int_digits acc False cs else None)"

definition upper_char :: "char \<Rightarrow> char" where
  "upper_char c = (let n = (of_char c :: nat) in if 97 \<le> n \<and> n \<le> 122 then char_of (n - 32) else c)"

definition is_space :: "char \<Rightarrow> bool" where
  "is_space c = ((of_char c :: nat) \<in> {9, 10, 11, 12, 13, 28, 29, 30, 31, 32})"

definition py_strip :: "string \<Rightarrow> string" where
  "py_strip s = rev (dropWhile is_space (rev (dropWhile is_space s)))"

definition py_int :: "string \<Rightarrow> int option" where
  "py_int s =
     (case py_strip s of
        [] \<Rightarrow> None
      | c # cs \<Rightarrow>
          if c = CHR ''-'' then map_option (\<lambda>n. - int n) (int_digits 0 False cs)
          else if c = CHR ''+'' then map_option int (int_digits 0 False cs)
          else map_option int (int_digits 0 False (c # cs)))"

lemma digit_char_props:
  assumes "d < 10"
  shows "is_digit (digit_char d)" "digit_val (digit_char d) = d"
    "\<not> is_space (digit_char d)" "digit_char d \<noteq> CHR ''-''" "digit_char d \<noteq> CHR ''+''"
    "digit_char d \<noteq> CHR ''.''" "digit_char d \<noteq> CHR '':''"
proof -
  have c: "of_char (digit_char d) = (48 + d :: nat)"
    using assms by (simp add: digit_char_def)
  show "is_digit (digit_char d)" using assms by (simp add: is_digit_def c)
  show "digit_val (digit_char d) = d" by (simp add: digit_val_def c)
  show "\<not> is_space (digit_char d)" using assms by (simp add: is_space_def c)
  show "digit_char d \<noteq> CHR ''-''" "digit_char d \<noteq> CHR ''+''"
    "digit_char d \<noteq> CHR ''.''" "digit_char d \<noteq> CHR '':''"
    using assms c by (auto dest: arg_cong [where f = "of_char :: char \<Rightarrow> nat"])
qed

lemma str_nat_digits: "c \<in> set (str_nat n) \<Longrightarrow> \<exists>d < 10. c = digit_char d"
proof (induction n rule: str_nat.induct)
  case (1 n)
  show ?case
  proof (cases "n < 10")
    case True
    with "1.prems" show ?thesis by (auto simp: str_nat.simps [of n])
  next
    case False
    with "1.prems" have "c \<in> set (str_nat (n div 10)) \<or> c = digit_char (n mod 10)"
      by (auto simp: str_nat.simps [of n])
    then show ?thesis using "1.IH" [OF False] by (auto intro: exI [of _ "n mod 10"])
  qed
qed

lemma str_nat_nonempty [simp]: "str_nat n \<noteq> []"
  by (subst str_nat.simps) simp

lemma int_digits_append_digit:
  "int_digits acc p xs = Some n \<Longrightarrow> d < 10 \<Longrightarrow>
   int_digits acc p (xs @ [digit_char d]) = Some (n * 10 + d)"
  by (induction xs arbitrary: acc p) (auto simp: digit_char_props split: if_splits)

lemma int_digits_str_nat: "int_digits 0 False (str_nat n) = Some n"
proof (induction n rule: str_nat.induct)
  case (1 n)
  show ?case
  proof (cases "n < 10")
    case True
    then show ?thesis by (simp add: str_nat.simps [of n] digit_char_props)
  next
    case False
    from "1.IH" [OF False] have "int_digits 0 False (str_nat (n div 10) @ [digit_char (n mod 10)])
        = Some (n div 10 * 10 + n mod 10)"
      by (rule int_digits_append_digit) simp
    with False show ?thesis by (simp add: str_nat.simps [of n])
  qed
qed

lemma dropWhile_no_space: "(\<forall>c \<in> set s. \<not> is_space c) \<Longrightarrow> dropWhile is_space s = s"
  by (cases s) auto

lemma py_strip_id: "(\<forall>c \<in> set s. \<not> is_space c) \<Longrightarrow> py_strip s = s"
  by (simp add: py_strip_def dropWhile_no_space)

lemma str_int_chars:
  "c \<in> set (str_int i) \<Longrightarrow> c = CHR ''-'' \<or> (\<exists>d < 10. c = digit_char d)"
  by (auto simp: str_int_def dest: str_nat_digits split: if_splits)

lemma str_int_no_space: "c \<in> set (str_int i) \<Longrightarrow> \<not> is_space c"
  using str_int_chars [of c i] digit_char_props(3) by (auto simp: is_space_def [of "CHR ''-''"])

text \<open>Printing an integer and parsing it back is the identity.\<close>

lemma py_int_str_int [simp]: "py_int (str_int i) = Some i"
proof -
  have s: "py_strip (str_int i) = str_int i"
    by (rule py_strip_id) (auto dest: str_int_no_space)
  show ?thesis
  proof (cases "i < 0")
    case True
    then show ?thesis
      using s by (simp add: py_int_def str_int_def int_digits_str_nat)
  next
    case False
    obtain c cs where cs: "str_nat (nat i) = c # cs"
      using str_nat_nonempty by (cases "str_nat (nat i)") auto
    then have "\<exists>d < 10. c = digit_char d" using str_nat_digits [of c "nat i"] by simp
    then have "c \<noteq> CHR ''-''" "c \<noteq> CHR ''+''" by (auto simp: digit_char_props)
    with False s cs show ?thesis
      using int_digits_str_nat [of "nat i"] by (simp add: py_int_def str_int_def)
  qed
qed

lemma str_int_inject [simp]: "str_int i = str_int j \<longleftrightarrow> i = j"
  by (metis option.inject py_int_str_int)

subsection \<open>Quoting\<close>

text \<open>
  \<^verbatim>\<open>repr\<close> of a string, as the \<^verbatim>\<open>!r\<close> conversions of the source's messages
  print it: single quotes unless the text holds a single quote and no double quote, with the
  backslash, the quote and the control characters escaped.
\<close>

definition hex_char :: "nat \<Rightarrow> char" where
  "hex_char n = ''0123456789abcdef'' ! n"

definition repr_char :: "char \<Rightarrow> char \<Rightarrow> string" where
  "repr_char q c =
     (let n = (of_char c :: nat) in
      if c = q \<or> n = 92 then [CHR 0x5C, c]
      else if n = 9 then [CHR 0x5C, CHR ''t'']
      else if n = 10 then [CHR 0x5C, CHR ''n'']
      else if n = 13 then [CHR 0x5C, CHR ''r'']
      else if n < 32 \<or> n = 127 then [CHR 0x5C, CHR ''x'', hex_char (n div 16), hex_char (n mod 16)]
      else [c])"

definition py_repr :: "string \<Rightarrow> string" where
  "py_repr s =
     (let q = (if CHR 0x27 \<in> set s \<and> CHR 0x22 \<notin> set s then CHR 0x22 else CHR 0x27)
      in [q] @ concat (map (repr_char q) s) @ [q])"

subsection \<open>Splitting at a separator\<close>

text \<open>\<^verbatim>\<open>s.split(sep, 1)[0]\<close> for a one-character separator.\<close>

definition split_head :: "char \<Rightarrow> string \<Rightarrow> string" where
  "split_head sep s = takeWhile (\<lambda>c. c \<noteq> sep) s"

lemma split_head_append:
  "sep \<notin> set xs \<Longrightarrow> split_head sep (xs @ sep # ys) = xs"
  by (induction xs) (auto simp: split_head_def)

lemma str_int_no_dot: "CHR ''.'' \<notin> set (str_int i)"
  by (auto dest!: str_int_chars simp: digit_char_props dest: sym)

lemma str_int_no_colon: "CHR '':'' \<notin> set (str_int i)"
  by (auto dest!: str_int_chars simp: digit_char_props dest: sym)

end
