(* ===== verification/Rounding.thy ===== *)
theory Rounding
  imports Prelude
begin

text \<open>
  The two number formats of the program, as correctly rounded arithmetic on the rationals:
  \<^item> Python's \<^verbatim>\<open>decimal.Decimal\<close> in its default context: every operation rounds the
    exact result to 28 significant decimal digits, ties to even (\<open>dec\<close>);
  \<^item> Python's \<^verbatim>\<open>float\<close>, an IEEE double: every operation rounds the exact result to
    53 significant bits, ties to even (\<open>fl\<close>). Prices, volumes and money stay far from the
    format's overflow and subnormal ranges, so those are not represented.
  Both are instances of \<open>round_sig b p\<close>, rounding to \<open>p\<close> digits in base \<open>b\<close>. The lemmas give
  what the components need of it: the error bound, exactness on representable values,
  monotonicity and sign symmetry. The locale \<open>rounding\<close> states those laws as an interface and is
  interpreted on \<open>dec\<close> and \<open>fl\<close>.
\<close>

section \<open>Rounding to an integer\<close>

text \<open>Python's \<^verbatim>\<open>round(x)\<close>: to nearest, ties to the even neighbour.\<close>

definition round_half_even :: "rat \<Rightarrow> int" where
  "round_half_even x =
     (let f = \<lfloor>x\<rfloor>; d = x - of_int f in
      if d < 1/2 then f else if d > 1/2 then f + 1 else if even f then f else f + 1)"

text \<open>\<^verbatim>\<open>ROUND_HALF_UP\<close> of the decimal module: to nearest, ties away from zero.\<close>

definition round_half_up :: "rat \<Rightarrow> int" where
  "round_half_up x = (if 0 \<le> x then \<lfloor>x + 1/2\<rfloor> else - \<lfloor>- x + 1/2\<rfloor>)"

text \<open>\<^verbatim>\<open>int(x)\<close>: truncation towards zero.\<close>

definition py_trunc :: "rat \<Rightarrow> int" where
  "py_trunc x = (if 0 \<le> x then \<lfloor>x\<rfloor> else - \<lfloor>- x\<rfloor>)"

lemma round_half_even_error: "\<bar>of_int (round_half_even x) - x\<bar> \<le> 1/2"
proof -
  have "of_int \<lfloor>x\<rfloor> \<le> x" "x < of_int \<lfloor>x\<rfloor> + 1" by linarith+
  then show ?thesis by (auto simp: round_half_even_def Let_def abs_le_iff)
qed

lemma round_half_even_unique: "\<bar>of_int k - x\<bar> < 1/2 \<Longrightarrow> round_half_even x = k"
proof -
  assume k: "\<bar>of_int k - x\<bar> < 1/2"
  have "\<bar>of_int (round_half_even x) - of_int k :: rat\<bar> < 1"
    using k round_half_even_error [of x] by linarith
  then show ?thesis by linarith
qed

lemma round_half_even_int [simp]: "round_half_even (of_int k) = k"
  by (rule round_half_even_unique) simp

lemma round_half_even_0 [simp]: "round_half_even 0 = 0"
  using round_half_even_int [of 0] by simp

lemma round_half_even_mono:
  assumes "x \<le> y" shows "round_half_even x \<le> round_half_even y"
proof (rule ccontr)
  assume less: "\<not> round_half_even x \<le> round_half_even y"
  then have "(of_int (round_half_even y) :: rat) + 1 \<le> of_int (round_half_even x)" by linarith
  then have eq: "x = y" "of_int (round_half_even x) = x + 1/2"
    using round_half_even_error [of x] round_half_even_error [of y] assms by linarith+
  with less show False by simp
qed

lemma round_half_even_minus: "round_half_even (- x) = - round_half_even x"
proof (cases "x = of_int \<lfloor>x\<rfloor>")
  case True
  then have "round_half_even (- x) = round_half_even (of_int (- \<lfloor>x\<rfloor>))" by simp
  also have "\<dots> = - round_half_even x" using True round_half_even_int [of "\<lfloor>x\<rfloor>"]
    by (metis round_half_even_int)
  finally show ?thesis .
next
  case False
  have "\<lfloor>- x\<rfloor> = - \<lfloor>x\<rfloor> - 1"
    using False by linarith
  then show ?thesis
    by (auto simp: round_half_even_def Let_def)
qed

lemma round_half_even_nonneg: "0 \<le> x \<Longrightarrow> 0 \<le> round_half_even x"
  using round_half_even_mono [of 0 x] by simp

lemma round_half_up_error: "\<bar>of_int (round_half_up x) - x\<bar> \<le> 1/2"
proof (cases "0 \<le> x")
  case True
  then show ?thesis unfolding round_half_up_def abs_le_iff by simp linarith
next
  case False
  then show ?thesis unfolding round_half_up_def abs_le_iff by simp linarith
qed

lemma round_half_up_unique: "\<bar>of_int k - x\<bar> < 1/2 \<Longrightarrow> round_half_up x = k"
  using round_half_up_error [of x] by linarith

lemma round_half_up_mono: "x \<le> y \<Longrightarrow> round_half_up x \<le> round_half_up y"
proof (cases "0 \<le> x \<or> \<not> 0 \<le> y")
  case True
  moreover assume "x \<le> y"
  ultimately show ?thesis
    by (auto simp: round_half_up_def intro: floor_mono)
next
  case False
  then have "0 \<le> \<lfloor>- x + 1/2\<rfloor>" "0 \<le> \<lfloor>y + 1/2\<rfloor>" by linarith+
  with False show ?thesis unfolding round_half_up_def by simp linarith
qed

lemma py_trunc_nonneg: "0 \<le> x \<Longrightarrow> 0 \<le> py_trunc x"
  by (simp add: py_trunc_def)

section \<open>Significant digits\<close>

text \<open>The number of base-\<open>b\<close> digits of a natural number.\<close>

fun ndigits :: "nat \<Rightarrow> nat \<Rightarrow> nat" where
  "ndigits b n = (if n = 0 \<or> b < 2 then 0 else Suc (ndigits b (n div b)))"

declare ndigits.simps [simp del]

lemma ndigits_bounds:
  assumes "2 \<le> b" "0 < n"
  shows "0 < ndigits b n" "b ^ (ndigits b n - 1) \<le> n" "n < b ^ ndigits b n"
proof -
  have "0 < n \<longrightarrow> 0 < ndigits b n \<and> b ^ (ndigits b n - 1) \<le> n \<and> n < b ^ ndigits b n"
    using assms(1)
  proof (induction b n rule: ndigits.induct)
    case (1 b n)
    show ?case
    proof (cases "n div b = 0")
      case True
      then have "n < b" using "1.prems" by (simp add: div_eq_0_iff)
      then show ?thesis using True "1.prems"
        by (auto simp: ndigits.simps [of b n] ndigits.simps [of b 0])
    next
      case False
      then have n: "0 < n" by (cases n) auto
      from False n "1.prems" have IH: "0 < ndigits b (n div b)"
        "b ^ (ndigits b (n div b) - 1) \<le> n div b" "n div b < b ^ ndigits b (n div b)"
        using "1.IH" by auto
      have e: "ndigits b n = Suc (ndigits b (n div b))"
        using n "1.prems" by (simp add: ndigits.simps [of b n])
      have "b ^ ndigits b (n div b) = b * b ^ (ndigits b (n div b) - 1)"
        using IH(1) by (cases "ndigits b (n div b)") auto
      also have "\<dots> \<le> b * (n div b)" using IH(2) by simp
      also have "\<dots> \<le> n" by simp
      finally have lo: "b ^ ndigits b (n div b) \<le> n" .
      have "n < b * (n div b + 1)"
        using "1.prems" by (metis Suc_eq_plus1 dividend_less_times_div mult_Suc_right add.commute less_le_trans zero_less_numeral)
      also have "\<dots> \<le> b * b ^ ndigits b (n div b)" using IH(3) by (intro mult_le_mono2) simp
      finally show ?thesis using lo e by simp
    qed
  qed
  then show "0 < ndigits b n" "b ^ (ndigits b n - 1) \<le> n" "n < b ^ ndigits b n"
    using assms by auto
qed

lemma ndigits_rat_bounds:
  assumes "2 \<le> b" "0 < k"
  shows "0 < ndigits b (nat k)"
    "of_nat b ^ (ndigits b (nat k) - 1) \<le> rat_of_int k"
    "rat_of_int k < of_nat b ^ ndigits b (nat k)"
proof -
  note B = ndigits_bounds [OF assms(1), of "nat k"]
  have k: "rat_of_int k = of_nat (nat k)" using assms(2) by simp
  from B assms(2) show "0 < ndigits b (nat k)" by simp
  have "b ^ (ndigits b (nat k) - 1) \<le> nat k" "nat k < b ^ ndigits b (nat k)"
    using B assms(2) by simp_all
  then have "of_nat (b ^ (ndigits b (nat k) - 1)) \<le> rat_of_nat (nat k)"
    "rat_of_nat (nat k) < of_nat (b ^ ndigits b (nat k))"
    by (simp_all only: of_nat_le_iff of_nat_less_iff)
  then show "of_nat b ^ (ndigits b (nat k) - 1) \<le> rat_of_int k"
    "rat_of_int k < of_nat b ^ ndigits b (nat k)"
    by (simp_all only: k of_nat_power)
qed

abbreviation scale :: "nat \<Rightarrow> int \<Rightarrow> rat" where
  "scale b e \<equiv> rat_of_nat b powi e"

text \<open>
  The exponent \<open>e\<close> at which \<open>x\<close> has exactly \<open>p\<close> digits before the point:
  \<open>b\<^sup>p\<^sup>-\<^sup>1 \<le> \<bar>x\<bar> / b\<^sup>e < b\<^sup>p\<close>. It is estimated from the digit counts of the fraction's numerator
  and denominator and corrected by one.
\<close>

definition sig_exp :: "nat \<Rightarrow> nat \<Rightarrow> rat \<Rightarrow> int" where
  "sig_exp b p x =
     (let (n, d) = quotient_of x;
          e = int (ndigits b (nat \<bar>n\<bar>)) - int (ndigits b (nat d)) - int p
      in if scale b (int p + e) \<le> \<bar>x\<bar> then e + 1 else e)"

text \<open>\<open>x\<close> rounded to \<open>p\<close> significant base-\<open>b\<close> digits, ties to even.\<close>

definition round_sig :: "nat \<Rightarrow> nat \<Rightarrow> rat \<Rightarrow> rat" where
  "round_sig b p x =
     (if x = 0 then 0
      else let e = sig_exp b p x in of_int (round_half_even (x / scale b e)) * scale b e)"

lemma scale_pos: "2 \<le> b \<Longrightarrow> 0 < scale b e"
  by (simp add: zero_less_power_int)

lemma scale_add: "2 \<le> b \<Longrightarrow> scale b (e + f) = scale b e * scale b f"
  by (subst power_int_add) auto

lemma scale_mono: "2 \<le> b \<Longrightarrow> e \<le> f \<Longrightarrow> scale b e \<le> scale b f"
  by (rule power_int_increasing) auto

lemma scale_less_iff: "2 \<le> b \<Longrightarrow> scale b e < scale b f \<longleftrightarrow> e < f"
  by (metis leD linorder_not_le power_int_strict_increasing scale_mono of_nat_1 of_nat_less_iff
      less_le_trans one_less_numeral_iff semiring_norm(76))

lemma scale_nat: "scale b (int k) = of_nat b ^ k"
  by simp

lemma sig_exp_bounds:
  assumes b: "2 \<le> b" and x: "x \<noteq> 0"
  shows "scale b (int p - 1 + sig_exp b p x) \<le> \<bar>x\<bar>" "\<bar>x\<bar> < scale b (int p + sig_exp b p x)"
proof -
  obtain n d where q: "quotient_of x = (n, d)" by (cases "quotient_of x")
  have d: "0 < d" and xq: "x = of_int n / of_int d"
    using quotient_of_denom_pos [OF q] quotient_of_div [OF q] by auto
  have n: "n \<noteq> 0" using x xq by auto
  define ln ld where "ln = ndigits b (nat \<bar>n\<bar>)" and "ld = ndigits b (nat d)"
  have N: "0 < ln" "of_nat b ^ (ln - 1) \<le> (of_int \<bar>n\<bar> :: rat)" "of_int \<bar>n\<bar> < (of_nat b ^ ln :: rat)"
    unfolding ln_def using n by (intro ndigits_rat_bounds [OF b]; simp)+
  have D: "0 < ld" "of_nat b ^ (ld - 1) \<le> (of_int d :: rat)" "of_int d < (of_nat b ^ ld :: rat)"
    unfolding ld_def using d by (intro ndigits_rat_bounds [OF b]; simp)+
  have ax: "\<bar>x\<bar> = of_int \<bar>n\<bar> / of_int d" using d by (simp add: xq)
  have hi: "\<bar>x\<bar> < scale b (int ln - int ld + 1)"
  proof -
    have "\<bar>x\<bar> < of_nat b ^ ln / of_nat b ^ (ld - 1)"
      unfolding ax
    proof (rule frac_less)
      show "0 < rat_of_nat b ^ (ld - 1)" using b by simp
    qed (use N D in auto)
    also have "\<dots> = scale b (int ln - int (ld - 1))"
      using b by (subst power_int_diff) auto
    also have "int ln - int (ld - 1) = int ln - int ld + 1" using D(1) by simp
    finally show ?thesis .
  qed
  have lo: "scale b (int ln - int ld - 1) < \<bar>x\<bar>"
  proof -
    have "int ln - int ld - 1 = int (ln - 1) - int ld" using N(1) by simp
    then have "scale b (int ln - int ld - 1) = scale b (int (ln - 1) - int ld)"
      by (rule arg_cong)
    also have "\<dots> = of_nat b ^ (ln - 1) / of_nat b ^ ld"
      using b by (subst power_int_diff) auto
    also have "\<dots> < of_int \<bar>n\<bar> / of_int d"
    proof (rule frac_less2)
      show "0 < rat_of_nat b ^ (ln - 1)" using b by simp
      show "0 < rat_of_int d" using d by simp
    qed (use N D in auto)
    also have "\<dots> = \<bar>x\<bar>" by (simp add: ax)
    finally show ?thesis .
  qed
  define e where "e = int ln - int ld - int p"
  have "sig_exp b p x = (if scale b (int p + e) \<le> \<bar>x\<bar> then e + 1 else e)"
    by (simp add: sig_exp_def q e_def ln_def ld_def)
  then show "scale b (int p - 1 + sig_exp b p x) \<le> \<bar>x\<bar>" "\<bar>x\<bar> < scale b (int p + sig_exp b p x)"
    using hi lo by (auto simp: e_def algebra_simps split: if_splits)
qed

lemma sig_exp_unique:
  assumes "2 \<le> b" "scale b (int p - 1 + e) \<le> \<bar>x\<bar>" "\<bar>x\<bar> < scale b (int p + e)"
  shows "sig_exp b p x = e"
proof -
  have "0 < \<bar>x\<bar>" using assms(1,2) scale_pos [of b "int p - 1 + e"] by linarith
  then have x: "x \<noteq> 0" by simp
  note s = sig_exp_bounds [OF assms(1) x, of p]
  have "scale b (int p - 1 + e) < scale b (int p + sig_exp b p x)"
    "scale b (int p - 1 + sig_exp b p x) < scale b (int p + e)"
    using s assms by linarith+
  then show ?thesis using assms(1) by (auto simp: scale_less_iff)
qed

lemma sig_exp_mono:
  assumes "2 \<le> b" "0 < \<bar>x\<bar>" "\<bar>x\<bar> \<le> \<bar>y\<bar>"
  shows "sig_exp b p x \<le> sig_exp b p y"
proof -
  have "x \<noteq> 0" "y \<noteq> 0" using assms by auto
  then have "scale b (int p - 1 + sig_exp b p x) < scale b (int p + sig_exp b p y)"
    using sig_exp_bounds [OF assms(1), of x p] sig_exp_bounds [OF assms(1), of y p] assms(3)
    by linarith
  then show ?thesis using assms(1) by (auto simp: scale_less_iff)
qed

lemma sig_exp_minus [simp]: "sig_exp b p (- x) = sig_exp b p x"
  by (auto simp: sig_exp_def Let_def rat_uminus_code split: prod.splits)

section \<open>The rounding laws\<close>

lemma round_sig_0 [simp]: "round_sig b p 0 = 0"
  by (simp add: round_sig_def)

lemma round_sig_minus: "round_sig b p (- x) = - round_sig b p x"
  by (simp add: round_sig_def Let_def round_half_even_minus)

lemma round_sig_ulp_error:
  assumes "2 \<le> b" "x \<noteq> 0"
  shows "\<bar>round_sig b p x - x\<bar> \<le> scale b (sig_exp b p x) / 2"
proof -
  let ?s = "scale b (sig_exp b p x)"
  have s: "0 < ?s" using assms scale_pos by blast
  have "round_sig b p x - x = (of_int (round_half_even (x / ?s)) - x / ?s) * ?s"
    using assms s by (simp add: round_sig_def Let_def left_diff_distrib)
  then have "\<bar>round_sig b p x - x\<bar> = \<bar>of_int (round_half_even (x / ?s)) - x / ?s\<bar> * ?s"
    using s by (simp add: abs_mult)
  also have "\<dots> \<le> 1/2 * ?s"
    using round_half_even_error s by (intro mult_right_mono) auto
  finally show ?thesis by simp
qed

lemma round_sig_error:
  assumes "2 \<le> b"
  shows "\<bar>round_sig b p x - x\<bar> \<le> scale b (1 - int p) / 2 * \<bar>x\<bar>"
proof (cases "x = 0")
  case False
  let ?e = "sig_exp b p x"
  have "scale b ?e = scale b (1 - int p) * scale b (int p - 1 + ?e)"
    by (simp add: assms flip: scale_add)
  also have "\<dots> \<le> scale b (1 - int p) * \<bar>x\<bar>"
    using sig_exp_bounds [OF assms False, of p] scale_pos [OF assms, of "1 - int p"]
    by (intro mult_left_mono) auto
  finally show ?thesis using round_sig_ulp_error [OF assms False, of p] by simp
qed simp

lemma round_sig_exact:
  assumes b: "2 \<le> b" and m: "\<bar>m\<bar> < int b ^ p"
  shows "round_sig b p (of_int m * scale b k) = of_int m * scale b k"
proof (cases "m = 0")
  case False
  let ?x = "of_int m * scale b k"
  let ?e = "sig_exp b p ?x"
  have x: "?x \<noteq> 0" using False b by auto
  have "\<bar>?x\<bar> = of_int \<bar>m\<bar> * scale b k" by (simp add: abs_mult)
  also have "\<dots> < of_nat b ^ p * scale b k"
  proof -
    have "rat_of_int \<bar>m\<bar> < of_int (int b ^ p)" using m by (simp only: of_int_less_iff)
    then show ?thesis using scale_pos [OF b, of k] by (intro mult_strict_right_mono) auto
  qed
  also have "\<dots> = scale b (int p + k)" using b by (simp add: scale_add)
  finally have "scale b (int p - 1 + ?e) < scale b (int p + k)"
    using sig_exp_bounds(1) [OF b x, of p] by linarith
  then have e: "?e \<le> k" using b by (simp add: scale_less_iff)
  have "scale b k = scale b (k - ?e) * scale b ?e" by (simp add: b flip: scale_add)
  also have "scale b (k - ?e) = of_int (int b ^ nat (k - ?e))"
    using e scale_nat [of b "nat (k - ?e)"] by simp
  finally have k: "scale b k = of_int (int b ^ nat (k - ?e)) * scale b ?e" .
  have "?x / scale b ?e = of_int m * (scale b k / scale b ?e)" by simp
  also have "scale b k / scale b ?e = of_int (int b ^ nat (k - ?e))"
    by (subst k) (use scale_pos [OF b, of ?e] in auto)
  finally have "?x / scale b ?e = of_int (m * int b ^ nat (k - ?e))" by simp
  then have "of_int (round_half_even (?x / scale b ?e)) = ?x / scale b ?e"
    by (simp only: round_half_even_int)
  then show ?thesis using x b by (simp add: round_sig_def Let_def)
qed simp

lemma round_sig_mono_pos:
  assumes b: "2 \<le> b" and p: "0 < p" and xy: "0 < x" "x \<le> y"
  shows "round_sig b p x \<le> round_sig b p y"
proof (cases "sig_exp b p x = sig_exp b p y")
  case True
  let ?s = "scale b (sig_exp b p y)"
  have "round_half_even (x / ?s) \<le> round_half_even (y / ?s)"
    using xy scale_pos [OF b, of "sig_exp b p y"] by (intro round_half_even_mono divide_right_mono) auto
  with True xy show ?thesis
    using scale_pos [OF b, of "sig_exp b p y"]
    by (simp add: round_sig_def Let_def mult_right_mono)
next
  case False
  let ?ex = "sig_exp b p x" and ?ey = "sig_exp b p y"
  have less: "?ex < ?ey" using sig_exp_mono [OF b, of x y p] xy False by simp
  have x: "x \<noteq> 0" and y: "y \<noteq> 0" using xy by auto
  have "x / scale b ?ex \<le> of_int (int b ^ p)"
    using sig_exp_bounds(2) [OF b x, of p] xy scale_pos [OF b, of ?ex] b
    by (simp add: divide_le_eq scale_add)
  then have "round_half_even (x / scale b ?ex) \<le> int b ^ p"
    using round_half_even_mono round_half_even_int by metis
  then have "rat_of_int (round_half_even (x / scale b ?ex)) \<le> of_int (int b ^ p)"
    by (simp only: of_int_le_iff)
  then have "round_sig b p x \<le> of_nat b ^ p * scale b ?ex"
    using x scale_pos [OF b, of ?ex] by (simp add: round_sig_def Let_def mult_right_mono)
  also have "\<dots> = scale b (int p + ?ex)" using b by (simp add: scale_add)
  also have "\<dots> \<le> scale b (int p - 1 + ?ey)" using b less by (intro scale_mono) auto
  also have "\<dots> = scale b (int p - 1) * scale b ?ey" using b by (simp add: scale_add)
  also have "scale b (int p - 1) = of_int (int b ^ (p - 1))"
    using p scale_nat [of b "p - 1"] by simp
  also have "\<dots> * scale b ?ey \<le> round_sig b p y"
  proof -
    have "of_int (int b ^ (p - 1)) = scale b (int p - 1)"
      using p scale_nat [of b "p - 1"] by simp
    then have "of_int (int b ^ (p - 1)) \<le> y / scale b ?ey"
      using sig_exp_bounds(1) [OF b y, of p] xy scale_pos [OF b, of ?ey] b
      by (simp add: le_divide_eq scale_add)
    then have "int b ^ (p - 1) \<le> round_half_even (y / scale b ?ey)"
      using round_half_even_mono round_half_even_int by metis
    then have "rat_of_int (int b ^ (p - 1)) \<le> of_int (round_half_even (y / scale b ?ey))"
      by (simp only: of_int_le_iff)
    then show ?thesis
      using y scale_pos [OF b, of ?ey] by (simp add: round_sig_def Let_def mult_right_mono)
  qed
  finally show ?thesis .
qed

lemma round_sig_nonneg: "2 \<le> b \<Longrightarrow> 0 \<le> x \<Longrightarrow> 0 \<le> round_sig b p x"
  by (auto simp: round_sig_def Let_def scale_pos less_imp_le round_half_even_nonneg)

lemma round_sig_mono:
  assumes "2 \<le> b" "0 < p" "x \<le> y"
  shows "round_sig b p x \<le> round_sig b p y"
proof -
  consider "0 < x" | "x \<le> 0" "0 \<le> y" | "y < 0" using assms(3) by linarith
  then show ?thesis
  proof cases
    case 1
    then show ?thesis using assms by (intro round_sig_mono_pos) auto
  next
    case 2
    then show ?thesis
      using round_sig_nonneg [OF assms(1), of "- x" p] round_sig_nonneg [OF assms(1), of y p]
      by (simp add: round_sig_minus)
  next
    case 3
    then have "round_sig b p (- y) \<le> round_sig b p (- x)"
      using assms by (intro round_sig_mono_pos) auto
    then show ?thesis by (simp add: round_sig_minus)
  qed
qed

section \<open>The interface: a rounding of relative error at most \<open>u\<close>\<close>

locale rounding =
  fixes rnd :: "rat \<Rightarrow> rat" and u :: rat
  assumes rnd_error: "\<bar>rnd x - x\<bar> \<le> u * \<bar>x\<bar>"
    and rnd_mono: "x \<le> y \<Longrightarrow> rnd x \<le> rnd y"
    and rnd_minus: "rnd (- x) = - rnd x"
    and u_pos: "0 < u" and u_less: "u < 1"
begin

lemma rnd_0 [simp]: "rnd 0 = 0"
  using rnd_error [of 0] by simp

lemma rnd_nonneg: "0 \<le> x \<Longrightarrow> 0 \<le> rnd x"
  using rnd_mono [of 0 x] by simp

lemma rnd_pos: "0 < x \<Longrightarrow> 0 < rnd x"
proof -
  assume x: "0 < x"
  then have "u * x < x" using u_less by simp
  moreover have "\<bar>rnd x - x\<bar> \<le> u * x" using rnd_error [of x] x by simp
  ultimately show "0 < rnd x" by linarith
qed

lemma rnd_neg: "x < 0 \<Longrightarrow> rnd x < 0"
  using rnd_pos [of "- x"] by (simp add: rnd_minus)

lemma rnd_pos_iff [simp]: "0 < rnd x \<longleftrightarrow> 0 < x"
  by (metis linorder_neqE_linordered_idom order_less_asym rnd_0 rnd_neg rnd_pos)

lemma rnd_eq_0_iff [simp]: "rnd x = 0 \<longleftrightarrow> x = 0"
  by (metis linorder_neqE_linordered_idom less_irrefl rnd_0 rnd_neg rnd_pos)

text \<open>Two roundings in a row, the usual case of a product or quotient fed into another.\<close>

lemma rnd_scaled_error:
  assumes "\<bar>y - x\<bar> \<le> v * \<bar>x\<bar>"
  shows "\<bar>rnd (c * y) - c * x\<bar> \<le> (u + v + u * v) * \<bar>c * x\<bar>"
proof -
  have d: "\<bar>c * y - c * x\<bar> \<le> v * \<bar>c * x\<bar>"
  proof -
    have "\<bar>c * y - c * x\<bar> = \<bar>c\<bar> * \<bar>y - x\<bar>" by (simp add: abs_mult flip: right_diff_distrib)
    also have "\<dots> \<le> \<bar>c\<bar> * (v * \<bar>x\<bar>)" using assms by (intro mult_left_mono) auto
    finally show ?thesis by (simp add: abs_mult algebra_simps)
  qed
  then have "\<bar>c * y\<bar> \<le> (1 + v) * \<bar>c * x\<bar>" unfolding distrib_right by linarith
  then have "u * \<bar>c * y\<bar> \<le> u * ((1 + v) * \<bar>c * x\<bar>)" using u_pos by (intro mult_left_mono) auto
  with rnd_error [of "c * y"] d have "\<bar>rnd (c * y) - c * x\<bar> \<le> u * ((1 + v) * \<bar>c * x\<bar>) + v * \<bar>c * x\<bar>"
    by linarith
  also have "\<dots> = (u + v + u * v) * \<bar>c * x\<bar>" by algebra
  finally show ?thesis .
qed

end

text \<open>Decimal and float, and their unit roundoffs.\<close>

definition dec :: "rat \<Rightarrow> rat" where
  "dec x = round_sig 10 28 x"

definition fl :: "rat \<Rightarrow> rat" where
  "fl x = round_sig 2 53 x"

interpretation dec: rounding dec "1 / (2 * 10 ^ 27)"
proof
  fix x y :: rat
  show "\<bar>dec x - x\<bar> \<le> 1 / (2 * 10 ^ 27) * \<bar>x\<bar>"
    using round_sig_error [of 10 28 x] by (simp add: dec_def)
  show "x \<le> y \<Longrightarrow> dec x \<le> dec y" by (simp add: dec_def round_sig_mono)
  show "dec (- x) = - dec x" by (simp add: dec_def round_sig_minus)
qed simp_all

interpretation fl: rounding fl "1 / 2 ^ 53"
proof
  fix x y :: rat
  show "\<bar>fl x - x\<bar> \<le> 1 / 2 ^ 53 * \<bar>x\<bar>"
    using round_sig_error [of 2 53 x] by (simp add: fl_def)
  show "x \<le> y \<Longrightarrow> fl x \<le> fl y" by (simp add: fl_def round_sig_mono)
  show "fl (- x) = - fl x" by (simp add: fl_def round_sig_minus)
qed simp_all

lemma dec_int [simp]: "\<bar>m\<bar> < 10 ^ 28 \<Longrightarrow> dec (of_int m) = of_int m"
  using round_sig_exact [of 10 m 28 0] by (simp add: dec_def)

lemma fl_int [simp]: "\<bar>m\<bar> < 2 ^ 53 \<Longrightarrow> fl (of_int m) = of_int m"
  using round_sig_exact [of 2 m 53 0] by (simp add: fl_def)

end
