(* ===== verification/Domain_Models.thy ===== *)
theory Domain_Models
  imports Rounding
begin

text \<open>
  The vocabulary of the copier (\<^verbatim>\<open>copier/domain/models.py\<close>): symbols and slave
  configurations as records, the normalized master events and the slave intents as datatypes
  with one constructor per dataclass, and the read-only view of the mapping table the decision
  core consults (\<^verbatim>\<open>MappingState\<close>) as an interface with two operations.
\<close>

datatype side = BUY | SELL

datatype pending_type = LIMIT | STOP

definition MANUAL_ORDER_LABEL :: string where
  "MANUAL_ORDER_LABEL = ''manual''"

text \<open>The enum values, \<^verbatim>\<open>Side.BUY.value\<close> and its kin.\<close>

fun side_value :: "side \<Rightarrow> string" where
  "side_value BUY = ''BUY''"
| "side_value SELL = ''SELL''"

record symbol_info =
  si_symbol_id :: ident
  si_name :: string
  si_digits :: int
  si_lot_size :: int
  si_min_volume :: int
  si_step_volume :: int

record slave_config =
  sc_account_id :: ident
  sc_enabled :: bool
  sc_multiplier :: rat
  sc_symbols :: "(string, symbol_info) dict"

section \<open>Master events\<close>

datatype master_event =
    MasterPositionOpened (ev_position_id: ident) (ev_symbol_name: string) (ev_side: side)
      (ev_volume: int) (ev_lot_size: int) (ev_stop_loss: "price option")
      (ev_take_profit: "price option") (ev_entry_price: "price option")
  | MasterPositionClosed (ev_position_id: ident) (ev_symbol_name: string)
      (ev_closed_volume: int) (ev_remaining_volume: int)
  | MasterPositionSLTPAmended (ev_position_id: ident) (ev_stop_loss: "price option")
      (ev_take_profit: "price option")
  | MasterPendingPlaced (ev_order_id: ident) (ev_symbol_name: string) (ev_side: side)
      (ev_order_type: pending_type) (ev_volume: int) (ev_lot_size: int) (ev_price: price)
      (ev_stop_loss: "price option") (ev_take_profit: "price option")
      (ev_expiry_ts_ms: "int option")
  | MasterPendingReplaced (ev_order_id: ident) (ev_symbol_name: string) (ev_lot_size: int)
      (ev_order_type: pending_type) (ev_volume: int) (ev_price: price)
      (ev_stop_loss: "price option") (ev_take_profit: "price option")
  | MasterPendingCancelled (ev_order_id: ident)
  | MasterPendingFilled (ev_order_id: ident) (ev_position_id: ident)
  | MasterRejected (ev_reason: string)

section \<open>The mapping state the decision core reads\<close>

record position_entry =
  pe_slave_account_id :: ident
  pe_slave_position_id :: ident
  pe_slave_volume :: int

record order_entry =
  oe_slave_account_id :: ident
  oe_slave_order_id :: ident

record mapping_state =
  position_entries_of :: "ident \<Rightarrow> position_entry list"
  order_entries_of :: "ident \<Rightarrow> order_entry list"

section \<open>Slave intents\<close>

datatype slave_intent =
    OpenMarket (in_account: ident) (in_master_position: ident) (in_symbol_id: ident) (in_side: side)
      (in_volume: int) (in_stop_loss: "price option") (in_take_profit: "price option")
      (in_label: string) (in_symbol_name: string) (in_entry_price: "price option")
  | ClosePosition (in_account: ident) (in_position: ident) (in_volume: int)
      (in_master_position_opt: "ident option")
  | AmendPositionSLTP (in_account: ident) (in_position: ident) (in_stop_loss: "price option")
      (in_take_profit: "price option")
  | PlacePending (in_account: ident) (in_master_order: ident) (in_symbol_id: ident) (in_side: side)
      (in_order_type: pending_type) (in_volume: int) (in_price: price)
      (in_stop_loss: "price option") (in_take_profit: "price option")
      (in_expiry_ts_ms: "int option") (in_label: string) (in_symbol_name: string)
  | AmendPending (in_account: ident) (in_order: ident) (in_order_type: pending_type)
      (in_volume: int) (in_price: price) (in_stop_loss: "price option")
      (in_take_profit: "price option")
  | CancelPending (in_account: ident) (in_order: ident)
  | LinkPendingFill (in_account: ident) (in_master_order: ident) (in_master_position: ident)
  | Alert (in_account_opt: "ident option") (in_message: string)

text \<open>
  \<^verbatim>\<open>getattr(intent, 'slave_account_id', None)\<close>: every intent names the slave it is for;
  only an alert may name none.
\<close>

fun slave_account_of :: "slave_intent \<Rightarrow> ident option" where
  "slave_account_of (Alert a _) = a"
| "slave_account_of i = Some (in_account i)"

fun is_alert :: "slave_intent \<Rightarrow> bool" where
  "is_alert (Alert _ _) = True"
| "is_alert _ = False"

fun is_link :: "slave_intent \<Rightarrow> bool" where
  "is_link (LinkPendingFill _ _ _) = True"
| "is_link _ = False"

end
