(* ===== verification/Repo_State.thy ===== *)
theory Repo_State
  imports Domain_Models "HOL-Library.Product_Lexorder"
begin

text \<open>
  The database the copier keeps its state in (\<^verbatim>\<open>copier/db/repo.py\<close>), as one record
  of tables: rows are lists in insertion order, NULL is \<open>None\<close>. An SQL UPDATE is
  \<open>update_where\<close>, its row count \<open>matching\<close>. This theory also holds the operations that are not
  about mappings: the event log, organisation settings and account status.

  Timestamps are integers (microseconds for \<^verbatim>\<open>TIMESTAMPTZ\<close> columns); where a statement
  uses \<^verbatim>\<open>now()\<close> the operation takes the time as an argument. Row ids come from a counter
  that advances with every inserted row (a PostgreSQL sequence may leave gaps; only their order
  is used). Column widths (BIGINT) are not represented.
\<close>

section \<open>Values of event payloads\<close>

text \<open>
  A payload is the JSON object the source builds. \<open>JExc e\<close> is the text
  \<^verbatim>\<open>f"{type(e).__name__}: {e}"\<close> (or \<^verbatim>\<open>str(e)\<close>) of an exception.
\<close>

datatype json =
    JNull | JBool bool | JInt int | JNum rat | JStr string | JExc py_exc
  | JList "json list" | JObj "(string \<times> json) list"

type_synonym payload = "(string \<times> json) list"

definition jint :: "int option \<Rightarrow> json" where
  "jint x = (case x of None \<Rightarrow> JNull | Some i \<Rightarrow> JInt i)"

definition jnum :: "rat option \<Rightarrow> json" where
  "jnum x = (case x of None \<Rightarrow> JNull | Some r \<Rightarrow> JNum r)"

definition jstr :: "string option \<Rightarrow> json" where
  "jstr x = (case x of None \<Rightarrow> JNull | Some s \<Rightarrow> JStr s)"

section \<open>Tables\<close>

datatype mapping_status = Pending | Active | Closed | Failed

record mapping_row =
  m_id :: ident
  m_master_position :: "ident option"
  m_master_order :: "ident option"
  m_slave_account :: ident
  m_slave_position :: "ident option"
  m_slave_order :: "ident option"
  m_volume :: "int option"
  m_coid :: "string option"
  m_org :: ident
  m_status :: mapping_status
  m_error :: "string option"
  m_fill_price :: "price option"
  m_symbol :: "string option"
  m_master_fill_price :: "price option"
  m_master_exec_ts :: "int option"
  m_created_at :: int
  m_updated_at :: int

datatype account_role = master | slave | ignored

datatype account_status = OK | Paused | Degraded

datatype platform = ctrader | mt5

record account_row =
  a_account_id :: ident
  a_org_id :: ident
  a_connection_id :: "ident option"
  a_trader_login :: ident
  a_is_live :: bool
  a_role :: account_role
  a_enabled :: bool
  a_multiplier :: rat
  a_status :: account_status
  a_last_error :: "json option"
  a_platform :: platform

record org_row =
  o_org_id :: ident
  o_name :: string
  o_copying_enabled :: bool
  o_dry_run :: bool
  o_settings_version :: int

record event_row =
  e_category :: string
  e_severity :: string
  e_payload :: payload
  e_account :: "ident option"
  e_latency_ms :: "int option"
  e_org :: "ident option"
  e_actor :: "string option"

record risk_rule =
  rr_org_id :: ident
  rr_symbol :: string
  rr_stop_points :: "price option"
  rr_target_points :: "price option"
  rr_trailing_enabled :: bool
  rr_trail_start_points :: "price option"
  rr_trail_step_points :: "price option"

record trailing_row =
  tr_account_id :: ident
  tr_position_id :: ident
  tr_best_price :: price
  tr_current_stop :: price
  tr_updated_at :: "int option"

datatype command_status = Queued | Sent | Done | CmdFailed

record command_row =
  c_id :: ident
  c_account :: ident
  c_org :: ident
  c_kind :: string
  c_payload :: payload
  c_coid :: "string option"
  c_status :: command_status
  c_result :: "payload option"
  c_attempts :: int
  c_created_at :: int
  c_sent_at :: "int option"
  c_done_at :: "int option"

record db =
  db_mappings :: "mapping_row list"
  db_next_mapping :: ident
  db_accounts :: "account_row list"
  db_orgs :: "org_row list"
  db_events :: "event_row list"
  db_dismissals :: "(ident \<times> string) list"
  db_commands :: "command_row list"
  db_next_command :: ident
  db_risk_rules :: "risk_rule list"
  db_trailing :: "trailing_row list"

definition empty_db :: db where
  "empty_db = \<lparr>db_mappings = [], db_next_mapping = 1, db_accounts = [], db_orgs = [],
     db_events = [], db_dismissals = [], db_commands = [], db_next_command = 1,
     db_risk_rules = [], db_trailing = []\<rparr>"

section \<open>SQL's UPDATE\<close>

definition update_where :: "('r \<Rightarrow> bool) \<Rightarrow> ('r \<Rightarrow> 'r) \<Rightarrow> 'r list \<Rightarrow> 'r list" where
  "update_where P f rows = map (\<lambda>r. if P r then f r else r) rows"

definition matching :: "('r \<Rightarrow> bool) \<Rightarrow> 'r list \<Rightarrow> nat" where
  "matching P rows = length (filter P rows)"

lemma matching_0_iff [simp]: "matching P rows = 0 \<longleftrightarrow> (\<forall>r \<in> set rows. \<not> P r)"
  by (auto simp: matching_def filter_empty_conv)

lemma update_where_none: "matching P rows = 0 \<Longrightarrow> update_where P f rows = rows"
  by (auto simp: update_where_def intro: map_idI)

lemma length_update_where [simp]: "length (update_where P f rows) = length rows"
  by (simp add: update_where_def)

lemma update_where_map:
  "(\<And>r. P r \<Longrightarrow> g (f r) = g r) \<Longrightarrow> map g (update_where P f rows) = map g rows"
  by (simp add: update_where_def)

lemma update_where_filter_frame:
  "(\<And>r. P r \<Longrightarrow> \<not> Q r \<and> \<not> Q (f r)) \<Longrightarrow> filter Q (update_where P f rows) = filter Q rows"
  by (induction rows) (auto simp: update_where_def)

lemma find_update_where:
  "(\<And>r. P r \<Longrightarrow> P (f r)) \<Longrightarrow> find P (update_where P f rows) = map_option f (find P rows)"
  by (induction rows) (auto simp: update_where_def)

lemma set_update_where: "set (update_where P f rows) = (\<lambda>r. if P r then f r else r) ` set rows"
  by (simp add: update_where_def)

section \<open>The event log\<close>

definition log_event ::
  "string \<Rightarrow> string \<Rightarrow> payload \<Rightarrow> ident option \<Rightarrow> int option \<Rightarrow> ident option \<Rightarrow> string option \<Rightarrow> db \<Rightarrow> db" where
  "log_event category severity p account latency org actor s =
     s\<lparr>db_events := db_events s @
        [\<lparr>e_category = category, e_severity = severity, e_payload = p, e_account = account,
          e_latency_ms = latency, e_org = org, e_actor = actor\<rparr>]\<rparr>"

lemma log_event_frame [simp, frame_simps]:
  "db_mappings (log_event c sv p a l g act s) = db_mappings s"
  "db_next_mapping (log_event c sv p a l g act s) = db_next_mapping s"
  "db_accounts (log_event c sv p a l g act s) = db_accounts s"
  "db_orgs (log_event c sv p a l g act s) = db_orgs s"
  "db_dismissals (log_event c sv p a l g act s) = db_dismissals s"
  "db_commands (log_event c sv p a l g act s) = db_commands s"
  "db_next_command (log_event c sv p a l g act s) = db_next_command s"
  "db_risk_rules (log_event c sv p a l g act s) = db_risk_rules s"
  "db_trailing (log_event c sv p a l g act s) = db_trailing s"
  by (simp_all add: log_event_def)

section \<open>Organisations\<close>

text \<open>\<^verbatim>\<open>get_org\<close> raises when the organisation does not exist.\<close>

definition get_org :: "ident \<Rightarrow> db \<Rightarrow> org_row res" where
  "get_org org_id s =
     (case find (\<lambda>r. o_org_id r = org_id) (db_orgs s) of
        None \<Rightarrow> Inl (RuntimeError (''org '' @ str_int org_id @ '' not found''))
      | Some r \<Rightarrow> Inr r)"

text \<open>
  Settings writes; the trigger of migration 009 bumps \<open>settings_version\<close> on every update of an
  organisation's row.
\<close>

definition set_org_setting :: "ident \<Rightarrow> string \<Rightarrow> bool \<Rightarrow> db \<Rightarrow> db res" where
  "set_org_setting org_id name v s =
     (if name \<noteq> ''copying_enabled'' \<and> name \<noteq> ''dry_run''
      then Inl (ValueError (''Unknown org setting: '' @ name))
      else Inr (s\<lparr>db_orgs := update_where (\<lambda>r. o_org_id r = org_id)
             (\<lambda>r. (if name = ''copying_enabled'' then r\<lparr>o_copying_enabled := v\<rparr>
                   else r\<lparr>o_dry_run := v\<rparr>)\<lparr>o_settings_version := o_settings_version r + 1\<rparr>)
             (db_orgs s)\<rparr>))"

definition get_org_settings_version :: "ident \<Rightarrow> db \<Rightarrow> int res" where
  "get_org_settings_version org_id s =
     (case find (\<lambda>r. o_org_id r = org_id) (db_orgs s) of
        None \<Rightarrow> Inl (ValueError (''Unknown org: '' @ str_int org_id))
      | Some r \<Rightarrow> Inr (o_settings_version r))"

definition restore_copying_if_unchanged :: "ident \<Rightarrow> int \<Rightarrow> db \<Rightarrow> bool \<times> db" where
  "restore_copying_if_unchanged org_id expected_version s =
     (let P = (\<lambda>r. o_org_id r = org_id \<and> o_settings_version r = expected_version)
      in (matching P (db_orgs s) = 1,
          s\<lparr>db_orgs := update_where P
             (\<lambda>r. r\<lparr>o_copying_enabled := True, o_settings_version := o_settings_version r + 1\<rparr>)
             (db_orgs s)\<rparr>))"

section \<open>Accounts\<close>

definition org_for_account :: "ident \<Rightarrow> db \<Rightarrow> ident option" where
  "org_for_account account_id s =
     map_option a_org_id (find (\<lambda>r. a_account_id r = account_id) (db_accounts s))"

definition set_account_status :: "ident \<Rightarrow> account_status \<Rightarrow> json option \<Rightarrow> db \<Rightarrow> db" where
  "set_account_status account_id status last_error s =
     s\<lparr>db_accounts := update_where (\<lambda>r. a_account_id r = account_id)
         (\<lambda>r. r\<lparr>a_status := status, a_last_error := last_error\<rparr>) (db_accounts s)\<rparr>"

definition clear_degraded :: "ident \<Rightarrow> db \<Rightarrow> bool \<times> db" where
  "clear_degraded account_id s =
     (let P = (\<lambda>r. a_account_id r = account_id \<and> a_status r = Degraded)
      in (0 < matching P (db_accounts s),
          s\<lparr>db_accounts := update_where P (\<lambda>r. r\<lparr>a_status := OK, a_last_error := None\<rparr>)
             (db_accounts s)\<rparr>))"

text \<open>
  The upsert of a discovered account: an existing row is updated only when it belongs to the
  discovering organisation; the result says whether a row was written. New rows take the
  table's defaults.
\<close>

definition upsert_account :: "ident \<Rightarrow> ident \<Rightarrow> ident \<Rightarrow> ident \<Rightarrow> bool \<Rightarrow> db \<Rightarrow> bool \<times> db" where
  "upsert_account account_id connection_id org_id trader_login is_live s =
     (case find (\<lambda>r. a_account_id r = account_id) (db_accounts s) of
        None \<Rightarrow> (True, s\<lparr>db_accounts := db_accounts s @
          [\<lparr>a_account_id = account_id, a_org_id = org_id, a_connection_id = Some connection_id,
            a_trader_login = trader_login, a_is_live = is_live, a_role = ignored, a_enabled = True,
            a_multiplier = 1, a_status = OK, a_last_error = None, a_platform = ctrader\<rparr>]\<rparr>)
      | Some r \<Rightarrow>
          if a_org_id r = org_id
          then (True, s\<lparr>db_accounts := update_where (\<lambda>r. a_account_id r = account_id)
                 (\<lambda>r. r\<lparr>a_connection_id := Some connection_id, a_trader_login := trader_login,
                        a_is_live := is_live\<rparr>) (db_accounts s)\<rparr>)
          else (False, s))"

lemma set_account_status_frame [simp, frame_simps]:
  "db_mappings (set_account_status a st e s) = db_mappings s"
  "db_next_mapping (set_account_status a st e s) = db_next_mapping s"
  "db_orgs (set_account_status a st e s) = db_orgs s"
  "db_events (set_account_status a st e s) = db_events s"
  "db_dismissals (set_account_status a st e s) = db_dismissals s"
  "db_commands (set_account_status a st e s) = db_commands s"
  "db_next_command (set_account_status a st e s) = db_next_command s"
  "db_risk_rules (set_account_status a st e s) = db_risk_rules s"
  "db_trailing (set_account_status a st e s) = db_trailing s"
  "map a_account_id (db_accounts (set_account_status a st e s)) = map a_account_id (db_accounts s)"
  "map a_org_id (db_accounts (set_account_status a st e s)) = map a_org_id (db_accounts s)"
  by (simp_all add: set_account_status_def update_where_map)

lemma clear_degraded_frame [simp, frame_simps]:
  "db_mappings (snd (clear_degraded a s)) = db_mappings s"
  "db_next_mapping (snd (clear_degraded a s)) = db_next_mapping s"
  "db_orgs (snd (clear_degraded a s)) = db_orgs s"
  "db_events (snd (clear_degraded a s)) = db_events s"
  "db_commands (snd (clear_degraded a s)) = db_commands s"
  "db_next_command (snd (clear_degraded a s)) = db_next_command s"
  by (simp_all add: clear_degraded_def Let_def)

text \<open>Clearing a degraded account touches neither a paused nor an already healthy one.\<close>

lemma clear_degraded_status:
  "db_accounts (snd (clear_degraded a s)) =
     map (\<lambda>r. if a_account_id r = a \<and> a_status r = Degraded
              then r\<lparr>a_status := OK, a_last_error := None\<rparr> else r) (db_accounts s)"
  by (simp add: clear_degraded_def Let_def update_where_def)

lemma clear_degraded_idle: "fst (clear_degraded a s) = False \<Longrightarrow> snd (clear_degraded a s) = s"
  by (auto simp: clear_degraded_def Let_def update_where_none)

text \<open>
  The compare-and-set: the restore takes effect exactly when no settings write intervened, and
  any write invalidates the version that was read before it.
\<close>

lemma set_org_setting_version:
  assumes "set_org_setting g n v s = Inr s'" and "get_org_settings_version g s = Inr k"
  shows "get_org_settings_version g s' = Inr (k + 1)"
  using assms
  by (auto simp: set_org_setting_def get_org_settings_version_def find_update_where
      split: if_splits option.splits)

end
