(* ===== verification/Mt5_Wire.thy ===== *)
theory Mt5_Wire
  imports Domain_Models Repo_State
begin

text \<open>
  The vocabulary of the MT5 bridge (\<^verbatim>\<open>copier/mt5/protocol.py\<close>): the reports a terminal
  sends as records, and the two conversions between the terminal's lots (floats) and the copier's
  centilots (integers). The conversions are inverse on every volume a terminal can hold, so no
  volume drifts by travelling through the bridge.
\<close>

definition CENTILOTS :: int where "CENTILOTS = 100"

record hello_symbol =
  hs_name :: string
  hs_digits :: int
  hs_contract_size :: rat
  hs_volume_min :: rat
  hs_volume_step :: rat
  hs_volume_max :: rat
  hs_trade_mode :: int

record hello_report =
  hr_ea_version :: string
  hr_ea_build :: int
  hr_login :: ident
  hr_broker :: string
  hr_server :: string
  hr_currency :: string
  hr_hedging :: bool
  hr_trade_mode :: string
  hr_leverage :: int
  hr_symbols :: "hello_symbol list"
  hr_chunk :: int
  hr_chunks :: int

record report_position =
  rp_ticket :: ident
  rp_symbol :: string
  rp_side :: string
  rp_volume :: int
  rp_open_price :: price
  rp_stop_loss :: "price option"
  rp_take_profit :: "price option"
  rp_current_price :: "price option"
  rp_pnl :: rat
  rp_swap :: rat
  rp_comment :: string
  rp_magic :: int
  rp_opened_at_ms :: millis

record report_order =
  ro_ticket :: ident
  ro_symbol :: string
  ro_order_type :: string
  ro_volume :: int
  ro_price :: price
  ro_stop_loss :: "price option"
  ro_take_profit :: "price option"
  ro_comment :: string
  ro_magic :: int

record report_deal =
  rd_ticket :: ident
  rd_position :: ident
  rd_order :: ident
  rd_symbol :: string
  rd_deal_type :: string
  rd_entry :: string
  rd_volume :: int
  rd_price :: price
  rd_profit :: rat
  rd_swap :: rat
  rd_commission :: rat
  rd_time_ms :: millis
  rd_comment :: string
  rd_magic :: int

record ack =
  ak_command_id :: ident
  ak_ok :: bool
  ak_retcode :: int
  ak_message :: string
  ak_position :: "ident option"
  ak_deal :: "ident option"
  ak_order :: "ident option"
  ak_price :: "price option"
  ak_volume :: "int option"

record sync_report =
  sr_seq :: int
  sr_ts_ms :: millis
  sr_balance :: rat
  sr_equity :: rat
  sr_margin :: rat
  sr_margin_free :: rat
  sr_positions :: "report_position list"
  sr_orders :: "report_order list"
  sr_deals :: "report_deal list"
  sr_acks :: "ack list"

record command =
  cmd_id :: ident
  cmd_kind :: string
  cmd_payload :: payload
  cmd_client_order_id :: "string option"

section \<open>Lots and centilots\<close>

text \<open>
  \<^verbatim>\<open>int(round(x * 100))\<close>: the product is rounded to a float, then to the nearest
  integer, ties to even. \<^verbatim>\<open>round(v / 100, 2)\<close>: the correctly rounded quotient, rounded
  to two decimals and back to the nearest float.
\<close>

definition centilots :: "rat \<Rightarrow> int" where
  "centilots lots_value = round_half_even (fl (lots_value * of_int CENTILOTS))"

definition py_round2 :: "rat \<Rightarrow> rat" where
  "py_round2 x = fl (of_int (round_half_even (x * 100)) / 100)"

definition lots :: "int \<Rightarrow> rat" where
  "lots volume = py_round2 (fl (of_int volume / of_int CENTILOTS))"

lemma scaled_back:
  assumes "\<bar>v\<bar> \<le> 2 ^ 50"
  shows "\<bar>fl (of_int v / 100) * 100 - of_int v\<bar> \<le> 1 / 8"
proof -
  have v: "\<bar>rat_of_int v\<bar> \<le> 2 ^ 50"
    using assms by (metis of_int_abs of_int_le_iff of_int_numeral of_int_power)
  have "\<bar>fl (of_int v / 100) - of_int v / 100\<bar> \<le> 1 / 2 ^ 53 * \<bar>of_int v / 100\<bar>"
    by (rule fl.rnd_error)
  then have "\<bar>fl (of_int v / 100) - of_int v / 100\<bar> * 100 \<le> 1 / 2 ^ 53 * \<bar>rat_of_int v\<bar>"
    by simp
  also have "\<dots> \<le> 1 / 2 ^ 53 * 2 ^ 50" using v by (intro mult_left_mono) auto
  finally have "\<bar>(fl (of_int v / 100) - of_int v / 100) * 100\<bar> \<le> 1 / 8"
    unfolding abs_mult by simp
  then show ?thesis by (simp add: left_diff_distrib)
qed

lemma lots_eq: "\<bar>v\<bar> \<le> 2 ^ 50 \<Longrightarrow> lots v = fl (of_int v / 100)"
  using scaled_back [of v] round_half_even_unique [of v "fl (of_int v / 100) * 100"]
  by (simp add: lots_def py_round2_def CENTILOTS_def abs_minus_commute)

text \<open>
  Volumes survive the bridge: converting centilots to lots, as the terminal gets them, and back
  gives the same number of centilots, for every volume up to ten trillion lots.
\<close>

lemma centilots_lots_roundtrip:
  assumes "\<bar>v\<bar> \<le> 2 ^ 50"
  shows "centilots (lots v) = v"
proof -
  let ?x = "fl (of_int v / 100) * 100"
  have x: "\<bar>?x - of_int v\<bar> \<le> 1 / 8" by (rule scaled_back [OF assms])
  have "\<bar>rat_of_int v\<bar> \<le> 2 ^ 50"
    using assms by (metis of_int_abs of_int_le_iff of_int_numeral of_int_power)
  moreover have "\<bar>?x\<bar> \<le> \<bar>?x - of_int v\<bar> + \<bar>rat_of_int v\<bar>" by arith
  ultimately have "\<bar>?x\<bar> \<le> 1 / 8 + 2 ^ 50" using x by linarith
  also have "\<dots> \<le> 2 ^ 51" by simp
  finally have "\<bar>?x\<bar> \<le> 2 ^ 51" .
  then have "1 / 2 ^ 53 * \<bar>?x\<bar> \<le> 1 / 2 ^ 53 * 2 ^ 51" by (intro mult_left_mono) auto
  with fl.rnd_error [of ?x] have "\<bar>fl ?x - ?x\<bar> \<le> 1 / 4" by simp
  with x have "\<bar>of_int v - fl ?x\<bar> < 1 / 2" by linarith
  from round_half_even_unique [OF this] show ?thesis
    using assms by (simp add: lots_eq centilots_def CENTILOTS_def)
qed

end
