(* ===== verification/Client_Orders.thy ===== *)
theory Client_Orders
  imports Domain_Models
begin

text \<open>
  Client order ids: how a copy is named so that the execution that comes back can be tied to its
  mapping (\<^verbatim>\<open>client_order_id_for\<close> in \<^verbatim>\<open>copier/engine/dispatch.py\<close>), and how
  the master position is read back from it (\<^verbatim>\<open>master_position_of\<close> in
  \<^verbatim>\<open>copier/engine/service.py\<close>).
\<close>

fun client_order_id_for :: "slave_intent \<Rightarrow> string option" where
  "client_order_id_for (OpenMarket a p _ _ _ _ _ _ _ _) = Some (''cm'' @ str_int p @ ''.'' @ str_int a)"
| "client_order_id_for (PlacePending a q _ _ _ _ _ _ _ _ _ _) = Some (''co'' @ str_int q @ ''.'' @ str_int a)"
| "client_order_id_for _ = None"

definition master_position_of :: "string option \<Rightarrow> ident option" where
  "master_position_of client_order_id =
     (case client_order_id of
        None \<Rightarrow> None
      | Some c \<Rightarrow> if \<not> startswith c ''cm'' then None else py_int (split_head CHR ''.'' (drop 2 c)))"

text \<open>\<^verbatim>\<open>type(intent).__name__\<close>.\<close>

fun intent_type :: "slave_intent \<Rightarrow> string" where
  "intent_type (OpenMarket _ _ _ _ _ _ _ _ _ _) = ''OpenMarket''"
| "intent_type (ClosePosition _ _ _ _) = ''ClosePosition''"
| "intent_type (AmendPositionSLTP _ _ _ _) = ''AmendPositionSLTP''"
| "intent_type (PlacePending _ _ _ _ _ _ _ _ _ _ _ _) = ''PlacePending''"
| "intent_type (AmendPending _ _ _ _ _ _ _) = ''AmendPending''"
| "intent_type (CancelPending _ _) = ''CancelPending''"
| "intent_type (LinkPendingFill _ _ _) = ''LinkPendingFill''"
| "intent_type (Alert _ _) = ''Alert''"

lemma master_position_of_coid [simp]:
  "master_position_of (Some (CHR ''c'' # CHR ''m'' # str_int p @ CHR ''.'' # rest)) = Some p"
  using str_int_no_dot [of p] by (simp add: master_position_of_def startswith_def split_head_append)

lemma startswith_coid [simp]:
  "startswith (CHR ''c'' # CHR ''m'' # xs) ''cm''" "startswith (CHR ''c'' # CHR ''o'' # xs) ''co''"
  "\<not> startswith (CHR ''c'' # CHR ''o'' # xs) ''cm''"
  by (simp_all add: startswith_def)

text \<open>A client order id names its kind, its master id and its slave: no two copies share one.\<close>

lemma coid_split:
  assumes "str_int p @ CHR ''.'' # xs = str_int q @ CHR ''.'' # ys"
  shows "p = q \<and> xs = ys"
proof -
  have "split_head CHR ''.'' (str_int p @ CHR ''.'' # xs) = str_int p"
    "split_head CHR ''.'' (str_int q @ CHR ''.'' # ys) = str_int q"
    using str_int_no_dot by (simp_all add: split_head_append)
  with assms have "str_int p = str_int q" by simp
  with assms show ?thesis using str_int_inject by auto
qed

text \<open>
  The client order id of a market copy identifies it: the master position is read back from it
  exactly, and two copies share a client order id only when they copy the same master position to
  the same slave account.
\<close>

lemma client_order_id_identifies:
  "master_position_of (client_order_id_for (OpenMarket a p i s v sl tp l n e)) = Some p \<and>
   (client_order_id_for (OpenMarket a p i s v sl tp l n e) =
      client_order_id_for (OpenMarket a' p' i' s' v' sl' tp' l' n' e') \<longleftrightarrow> a = a' \<and> p = p')"
  using coid_split [of p "str_int a" p' "str_int a'"] str_int_inject by auto

end
