(* ===== verification/Repo_Mappings.thy ===== *)
theory Repo_Mappings
  imports Repo_State
begin

text \<open>
  The mapping table (\<^verbatim>\<open>copier/db/repo.py\<close>, "mappings" and "netting followers"): one
  row ties a master position or pending order to one slave's copy of it. Every operation is one
  SQL statement of the source, with its WHERE clause, its NULL semantics and its
  \<^verbatim>\<open>MappingNotFound\<close> when no row matched.
\<close>

section \<open>Operations\<close>

definition new_mapping :: "ident \<Rightarrow> ident \<Rightarrow> ident \<Rightarrow> int \<Rightarrow> mapping_row" where
  "new_mapping row_id account_id org_id now =
     \<lparr>m_id = row_id, m_master_position = None, m_master_order = None, m_slave_account = account_id,
      m_slave_position = None, m_slave_order = None, m_volume = None, m_coid = None,
      m_org = org_id, m_status = Pending, m_error = None, m_fill_price = None, m_symbol = None,
      m_master_fill_price = None, m_master_exec_ts = None, m_created_at = now, m_updated_at = now\<rparr>"

text \<open>
  The foreign keys of an inserted row: the slave account and the organisation must exist.
  \<^verbatim>\<open>client_order_id\<close> is UNIQUE; a NULL never conflicts.
\<close>

definition insert_mapping :: "mapping_row \<Rightarrow> db \<Rightarrow> db res" where
  "insert_mapping r s =
     (if m_coid r \<noteq> None \<and> m_coid r \<in> m_coid ` set (db_mappings s)
      then Inl (UniqueViolation (the (m_coid r)))
      else if m_slave_account r \<notin> a_account_id ` set (db_accounts s)
      then Inl (ForeignKeyViolation (m_slave_account r))
      else if m_org r \<notin> o_org_id ` set (db_orgs s) then Inl (ForeignKeyViolation (m_org r))
      else Inr (s\<lparr>db_mappings := db_mappings s @ [r], db_next_mapping := db_next_mapping s + 1\<rparr>))"

text \<open>\<^verbatim>\<open>ON CONFLICT (client_order_id) DO NOTHING\<close>: an increase keeps the one row.\<close>

definition create_position_mapping ::
  "ident \<Rightarrow> ident \<Rightarrow> string \<Rightarrow> ident \<Rightarrow> string option \<Rightarrow> int \<Rightarrow> db \<Rightarrow> db res" where
  "create_position_mapping master_position_id slave_account_id client_order_id org_id symbol now s =
     (if Some client_order_id \<in> m_coid ` set (db_mappings s) then Inr s
      else insert_mapping ((new_mapping (db_next_mapping s) slave_account_id org_id now)
             \<lparr>m_master_position := Some master_position_id, m_coid := Some client_order_id,
              m_symbol := symbol\<rparr>) s)"

definition create_order_mapping ::
  "ident \<Rightarrow> ident \<Rightarrow> string \<Rightarrow> ident \<Rightarrow> string option \<Rightarrow> int \<Rightarrow> db \<Rightarrow> db res" where
  "create_order_mapping master_order_id slave_account_id client_order_id org_id symbol now s =
     insert_mapping ((new_mapping (db_next_mapping s) slave_account_id org_id now)
        \<lparr>m_master_order := Some master_order_id, m_coid := Some client_order_id,
         m_symbol := symbol\<rparr>) s"

definition adopt_position_mapping ::
  "ident \<Rightarrow> ident \<Rightarrow> ident \<Rightarrow> int \<Rightarrow> ident \<Rightarrow> int \<Rightarrow> db \<Rightarrow> db res" where
  "adopt_position_mapping master_position_id slave_account_id slave_position_id slave_volume
       org_id now s =
     insert_mapping ((new_mapping (db_next_mapping s) slave_account_id org_id now)
        \<lparr>m_master_position := Some master_position_id, m_slave_position := Some slave_position_id,
         m_volume := Some slave_volume, m_status := Active\<rparr>) s"

text \<open>An UPDATE that raises \<^verbatim>\<open>MappingNotFound\<close> when it matched no row.\<close>

definition update_mappings ::
  "(mapping_row \<Rightarrow> bool) \<Rightarrow> (mapping_row \<Rightarrow> mapping_row) \<Rightarrow> string \<Rightarrow> db \<Rightarrow> db res" where
  "update_mappings P f msg s =
     (if matching P (db_mappings s) = 0 then Inl (MappingNotFound msg)
      else Inr (s\<lparr>db_mappings := update_where P f (db_mappings s)\<rparr>))"

definition coid_not_found :: "string \<Rightarrow> ident \<Rightarrow> string" where
  "coid_not_found coid account_id =
     ''No mapping found with client_order_id='' @ coid @ '' for slave_account_id='' @ str_int account_id"

definition order_not_found :: "ident \<Rightarrow> ident \<Rightarrow> string" where
  "order_not_found account_id order_id =
     ''No active order mapping found: slave_account_id='' @ str_int account_id
       @ '', slave_order_id='' @ str_int order_id"

definition coalesce :: "'a option \<Rightarrow> 'a option \<Rightarrow> 'a option" where
  "coalesce x y = (case x of None \<Rightarrow> y | Some _ \<Rightarrow> x)"

definition record_master_fill :: "ident \<Rightarrow> ident \<Rightarrow> price option \<Rightarrow> int option \<Rightarrow> int \<Rightarrow> db \<Rightarrow> db" where
  "record_master_fill org_id master_position_id fill_price exec_ts now s =
     (if fill_price = None \<and> exec_ts = None then s
      else s\<lparr>db_mappings := update_where
             (\<lambda>r. m_master_position r = Some master_position_id \<and> m_org r = org_id)
             (\<lambda>r. r\<lparr>m_master_fill_price := coalesce fill_price (m_master_fill_price r),
                    m_master_exec_ts := coalesce exec_ts (m_master_exec_ts r),
                    m_updated_at := now\<rparr>)
             (db_mappings s)\<rparr>)"

definition activate_position_mapping ::
  "ident \<Rightarrow> string \<Rightarrow> ident \<Rightarrow> int \<Rightarrow> price option \<Rightarrow> int \<Rightarrow> db \<Rightarrow> db res" where
  "activate_position_mapping slave_account_id client_order_id slave_position_id slave_volume
       fill_price now s =
     update_mappings
       (\<lambda>r. m_coid r = Some client_order_id \<and> m_slave_account r = slave_account_id)
       (\<lambda>r. r\<lparr>m_slave_position := Some slave_position_id,
              m_volume := Some ((case m_volume r of None \<Rightarrow> 0 | Some v \<Rightarrow> v) + slave_volume),
              m_fill_price := coalesce (m_fill_price r) fill_price,
              m_status := Active, m_updated_at := now\<rparr>)
       (coid_not_found client_order_id slave_account_id) s"

text \<open>
  \<^verbatim>\<open>GREATEST(NULL, 0)\<close> is 0 and a CASE condition that is NULL takes its ELSE branch. A
  given client order id is the only predicate beside the account.
\<close>

definition reduce_position_mapping ::
  "ident \<Rightarrow> ident \<Rightarrow> int \<Rightarrow> string option \<Rightarrow> int \<Rightarrow> db \<Rightarrow> db" where
  "reduce_position_mapping slave_account_id slave_position_id closed_volume client_order_id now s =
     s\<lparr>db_mappings := update_where
         (\<lambda>r. m_slave_account r = slave_account_id \<and> m_status r = Active \<and>
              (case client_order_id of
                 None \<Rightarrow> m_slave_position r = Some slave_position_id
               | Some c \<Rightarrow> m_coid r = Some c))
         (\<lambda>r. r\<lparr>m_volume := Some (case m_volume r of None \<Rightarrow> 0 | Some v \<Rightarrow> max (v - closed_volume) 0),
                m_status := (case m_volume r of None \<Rightarrow> Active
                             | Some v \<Rightarrow> if v - closed_volume \<le> 0 then Closed else Active),
                m_updated_at := now\<rparr>)
         (db_mappings s)\<rparr>"

definition fail_mapping :: "ident \<Rightarrow> string \<Rightarrow> string \<Rightarrow> int \<Rightarrow> db \<Rightarrow> db res" where
  "fail_mapping slave_account_id client_order_id err now s =
     update_mappings
       (\<lambda>r. m_coid r = Some client_order_id \<and> m_slave_account r = slave_account_id)
       (\<lambda>r. r\<lparr>m_status := Failed, m_error := Some err, m_updated_at := now\<rparr>)
       (coid_not_found client_order_id slave_account_id) s"

definition activate_order_mapping :: "ident \<Rightarrow> string \<Rightarrow> ident \<Rightarrow> int \<Rightarrow> db \<Rightarrow> db res" where
  "activate_order_mapping slave_account_id client_order_id slave_order_id now s =
     update_mappings
       (\<lambda>r. m_coid r = Some client_order_id \<and> m_slave_account r = slave_account_id)
       (\<lambda>r. r\<lparr>m_slave_order := Some slave_order_id, m_status := Active, m_updated_at := now\<rparr>)
       (coid_not_found client_order_id slave_account_id) s"

definition close_order_mapping :: "ident \<Rightarrow> ident \<Rightarrow> int \<Rightarrow> db \<Rightarrow> db res" where
  "close_order_mapping slave_account_id slave_order_id now s =
     update_mappings
       (\<lambda>r. m_slave_account r = slave_account_id \<and> m_slave_order r = Some slave_order_id
            \<and> m_status r = Active)
       (\<lambda>r. r\<lparr>m_status := Closed, m_updated_at := now\<rparr>)
       (order_not_found slave_account_id slave_order_id) s"

definition link_pending_fill :: "ident \<Rightarrow> ident \<Rightarrow> ident \<Rightarrow> int \<Rightarrow> db \<Rightarrow> db res" where
  "link_pending_fill master_order_id slave_account_id master_position_id now s =
     update_mappings
       (\<lambda>r. m_master_order r = Some master_order_id \<and> m_slave_account r = slave_account_id
            \<and> m_status r = Active)
       (\<lambda>r. r\<lparr>m_master_position := Some master_position_id, m_updated_at := now\<rparr>)
       (''No active order mapping found: master_order_id='' @ str_int master_order_id
          @ '', slave_account_id='' @ str_int slave_account_id) s"

definition activate_pending_fill ::
  "ident \<Rightarrow> ident \<Rightarrow> ident \<Rightarrow> int \<Rightarrow> price option \<Rightarrow> int \<Rightarrow> db \<Rightarrow> db res" where
  "activate_pending_fill slave_account_id slave_order_id slave_position_id slave_volume fill_price
       now s =
     update_mappings
       (\<lambda>r. m_slave_account r = slave_account_id \<and> m_slave_order r = Some slave_order_id
            \<and> m_status r = Active)
       (\<lambda>r. r\<lparr>m_slave_position := Some slave_position_id, m_volume := Some slave_volume,
              m_fill_price := coalesce (m_fill_price r) fill_price,
              m_status := Active, m_updated_at := now\<rparr>)
       (order_not_found slave_account_id slave_order_id) s"

definition mapping_rows :: "ident option \<Rightarrow> db \<Rightarrow> mapping_row list" where
  "mapping_rows org_id s =
     (case org_id of None \<Rightarrow> db_mappings s | Some g \<Rightarrow> filter (\<lambda>r. m_org r = g) (db_mappings s))"

text \<open>
  The \<^verbatim>\<open>MappingState\<close> view. An active row with a slave position always has a volume, and
  an active order row always has its slave order (the invariant below), so the NULL cases of
  the two projections never arise.
\<close>

definition position_entries :: "ident \<Rightarrow> db \<Rightarrow> position_entry list" where
  "position_entries master_position_id s =
     List.map_filter (\<lambda>r.
       if m_master_position r = Some master_position_id \<and> m_status r = Active
       then (case (m_slave_position r, m_volume r) of
               (Some p, Some v) \<Rightarrow> Some \<lparr>pe_slave_account_id = m_slave_account r,
                                       pe_slave_position_id = p, pe_slave_volume = v\<rparr>
             | _ \<Rightarrow> None)
       else None) (db_mappings s)"

definition order_entries :: "ident \<Rightarrow> db \<Rightarrow> order_entry list" where
  "order_entries master_order_id s =
     List.map_filter (\<lambda>r.
       if m_master_order r = Some master_order_id \<and> m_status r = Active
       then (case m_slave_order r of
               Some q \<Rightarrow> Some \<lparr>oe_slave_account_id = m_slave_account r, oe_slave_order_id = q\<rparr>
             | None \<Rightarrow> None)
       else None) (db_mappings s)"

definition mapping_view :: "db \<Rightarrow> mapping_state" where
  "mapping_view s = \<lparr>position_entries_of = (\<lambda>p. position_entries p s),
                     order_entries_of = (\<lambda>q. order_entries q s)\<rparr>"

subsection \<open>Netting followers: the oldest copy first\<close>

record touched_row =
  t_id :: ident
  t_coid :: "string option"
  t_master_position :: "ident option"
  t_closed_volume :: int
  t_volume :: int
  t_status :: mapping_status

definition held_volume :: "mapping_row \<Rightarrow> int" where
  "held_volume r = (case m_volume r of None \<Rightarrow> 0 | Some v \<Rightarrow> v)"

fun fifo_walk :: "int \<Rightarrow> mapping_row list \<Rightarrow> touched_row list" where
  "fifo_walk remaining [] = []"
| "fifo_walk remaining (r # rs) =
     (if remaining \<le> 0 then []
      else if held_volume r \<le> 0 then fifo_walk remaining rs
      else let take = min (held_volume r) remaining; left = held_volume r - take in
        \<lparr>t_id = m_id r, t_coid = m_coid r, t_master_position = m_master_position r,
         t_closed_volume = take, t_volume = left,
         t_status = (if left \<le> 0 then Closed else Active)\<rparr>
        # fifo_walk (remaining - take) rs)"

definition fifo_rows :: "ident \<Rightarrow> ident \<Rightarrow> db \<Rightarrow> mapping_row list" where
  "fifo_rows slave_account_id slave_position_id s =
     sort_key (\<lambda>r. (m_created_at r, m_id r))
       (filter (\<lambda>r. m_slave_account r = slave_account_id \<and> m_slave_position r = Some slave_position_id
                    \<and> m_status r = Active) (db_mappings s))"

definition apply_touched :: "int \<Rightarrow> touched_row list \<Rightarrow> mapping_row list \<Rightarrow> mapping_row list" where
  "apply_touched now touched rows =
     fold (\<lambda>t. update_where (\<lambda>r. m_id r = t_id t)
            (\<lambda>r. r\<lparr>m_volume := Some (t_volume t), m_status := t_status t, m_updated_at := now\<rparr>))
       touched rows"

definition reduce_position_mappings_fifo ::
  "ident \<Rightarrow> ident \<Rightarrow> int \<Rightarrow> int \<Rightarrow> db \<Rightarrow> touched_row list \<times> db" where
  "reduce_position_mappings_fifo slave_account_id slave_position_id closed_volume now s =
     (let touched = fifo_walk closed_volume (fifo_rows slave_account_id slave_position_id s)
      in (touched, s\<lparr>db_mappings := apply_touched now touched (db_mappings s)\<rparr>))"

section \<open>What an operation leaves alone\<close>

definition same_tables :: "db \<Rightarrow> db \<Rightarrow> bool" where
  "same_tables s t \<longleftrightarrow> t = s\<lparr>db_mappings := db_mappings t, db_next_mapping := db_next_mapping t\<rparr>"

lemma same_tables_refl [simp, intro!]: "same_tables s s"
  by (simp add: same_tables_def)

lemma same_tables_fields:
  assumes "same_tables s t"
  shows "db_accounts t = db_accounts s" "db_orgs t = db_orgs s" "db_events t = db_events s"
    "db_dismissals t = db_dismissals s" "db_commands t = db_commands s"
    "db_next_command t = db_next_command s" "db_risk_rules t = db_risk_rules s"
    "db_trailing t = db_trailing s"
  using assms unfolding same_tables_def by (cases s; cases t; simp)+

lemma insert_mapping_same: "insert_mapping r s = Inr s' \<Longrightarrow> same_tables s s'"
  by (auto simp: insert_mapping_def same_tables_def split: if_splits)

lemma update_mappings_same: "update_mappings P f msg s = Inr s' \<Longrightarrow> same_tables s s'"
  by (auto simp: update_mappings_def same_tables_def split: if_splits)

lemma create_position_mapping_same:
  "create_position_mapping p a c g y now s = Inr s' \<Longrightarrow> same_tables s s'"
  by (auto simp: create_position_mapping_def dest: insert_mapping_same split: if_splits)

lemma mapping_ops_same:
  "create_order_mapping q a c g y now s = Inr s' \<Longrightarrow> same_tables s s'"
  "adopt_position_mapping p a sp v g now s = Inr s' \<Longrightarrow> same_tables s s'"
  "activate_position_mapping a c sp v fp now s = Inr s' \<Longrightarrow> same_tables s s'"
  "fail_mapping a c err now s = Inr s' \<Longrightarrow> same_tables s s'"
  "activate_order_mapping a c so now s = Inr s' \<Longrightarrow> same_tables s s'"
  "close_order_mapping a so now s = Inr s' \<Longrightarrow> same_tables s s'"
  "link_pending_fill q a p now s = Inr s' \<Longrightarrow> same_tables s s'"
  "activate_pending_fill a so sp v fp now s = Inr s' \<Longrightarrow> same_tables s s'"
  by (auto simp: create_order_mapping_def adopt_position_mapping_def activate_position_mapping_def
      fail_mapping_def activate_order_mapping_def close_order_mapping_def link_pending_fill_def
      activate_pending_fill_def dest: insert_mapping_same update_mappings_same)

lemma mapping_total_ops_same [simp]:
  "same_tables s (record_master_fill g p fp ts now s)"
  "same_tables s (reduce_position_mapping a sp v c now s)"
  "same_tables s (snd (reduce_position_mappings_fifo a sp v now s))"
  by (simp_all add: record_master_fill_def reduce_position_mapping_def
      reduce_position_mappings_fifo_def same_tables_def Let_def)

section \<open>The invariant of the table\<close>

text \<open>
  A row copies either a master position (client order id \<open>cm\<dots>\<close>, or none when it was adopted) or a
  master pending order (client order id \<open>co\<dots>\<close>). An active row knows what it stands for on the
  slave: a position row its position, an order row its order; a row with a slave position also has
  its volume. Row ids and client order ids are unique.
\<close>

definition row_ok :: "mapping_row \<Rightarrow> bool" where
  "row_ok r \<longleftrightarrow>
     (if m_master_order r = None
      then m_master_position r \<noteq> None \<and> (\<forall>c. m_coid r = Some c \<longrightarrow> startswith c ''cm'')
      else (\<exists>c. m_coid r = Some c \<and> startswith c ''co'')) \<and>
     (m_slave_position r \<noteq> None \<longrightarrow> m_volume r \<noteq> None) \<and>
     (m_status r = Active \<longrightarrow>
        (if m_master_order r = None then m_slave_position r \<noteq> None else m_slave_order r \<noteq> None))"

definition mapping_inv :: "db \<Rightarrow> bool" where
  "mapping_inv s \<longleftrightarrow>
     distinct (map m_id (db_mappings s)) \<and>
     (\<forall>r \<in> set (db_mappings s). m_id r < db_next_mapping s \<and> row_ok r) \<and>
     distinct (filter (\<lambda>c. c \<noteq> None) (map m_coid (db_mappings s)))"

lemma cm_not_co: "startswith c ''cm'' \<Longrightarrow> startswith c ''co'' \<Longrightarrow> False"
  by (auto simp: startswith_def prefix_def)

lemma mapping_inv_empty: "mapping_inv empty_db"
  by (simp add: mapping_inv_def empty_db_def)

lemma mapping_inv_cong:
  "db_mappings t = db_mappings s \<Longrightarrow> db_next_mapping t = db_next_mapping s \<Longrightarrow>
   mapping_inv t = mapping_inv s"
  by (simp add: mapping_inv_def)

lemma mapping_inv_log [simp]: "mapping_inv (log_event c sv p a l g act s) = mapping_inv s"
  by (rule mapping_inv_cong) simp_all

lemma mapping_inv_status [simp]: "mapping_inv (set_account_status a st e s) = mapping_inv s"
  by (rule mapping_inv_cong) simp_all

lemma insert_mapping_inv:
  assumes "insert_mapping r s = Inr s'" "mapping_inv s" "row_ok r" "m_id r = db_next_mapping s"
  shows "mapping_inv s'"
  using assms by (fastforce simp: insert_mapping_def mapping_inv_def split: if_splits)

text \<open>The shape of every UPDATE: it keeps ids and client order ids and keeps rows well-formed.\<close>

lemma update_where_inv:
  assumes "mapping_inv s"
    and "\<And>r. r \<in> set (db_mappings s) \<Longrightarrow> P r \<Longrightarrow> row_ok r \<Longrightarrow> row_ok (f r)"
    and "\<And>r. m_id (f r) = m_id r" "\<And>r. m_coid (f r) = m_coid r"
  shows "mapping_inv (s\<lparr>db_mappings := update_where P f (db_mappings s)\<rparr>)"
proof -
  have "map m_id (update_where P f (db_mappings s)) = map m_id (db_mappings s)"
    "map m_coid (update_where P f (db_mappings s)) = map m_coid (db_mappings s)"
    using assms(3,4) by (auto intro: update_where_map)
  then show ?thesis
    using assms by (auto simp: mapping_inv_def set_update_where)
qed

lemma update_mappings_inv:
  assumes "update_mappings P f msg s = Inr s'" "mapping_inv s"
    and "\<And>r. r \<in> set (db_mappings s) \<Longrightarrow> P r \<Longrightarrow> row_ok r \<Longrightarrow> row_ok (f r)"
    and "\<And>r. m_id (f r) = m_id r" "\<And>r. m_coid (f r) = m_coid r"
  shows "mapping_inv s'"
  using assms update_where_inv [OF assms(2-5)]
  by (auto simp: update_mappings_def split: if_splits)

lemma create_position_mapping_inv [inv_intros]:
  assumes "create_position_mapping p a c g y now s = Inr s'" "mapping_inv s" "startswith c ''cm''"
  shows "mapping_inv s'"
  using assms
  by (auto simp: create_position_mapping_def row_ok_def new_mapping_def
      elim!: insert_mapping_inv split: if_splits)

lemma create_order_mapping_inv [inv_intros]:
  assumes "create_order_mapping q a c g y now s = Inr s'" "mapping_inv s" "startswith c ''co''"
  shows "mapping_inv s'"
  using assms
  by (auto simp: create_order_mapping_def row_ok_def new_mapping_def elim!: insert_mapping_inv)

lemma adopt_position_mapping_inv [inv_intros]:
  assumes "adopt_position_mapping p a sp v g now s = Inr s'" "mapping_inv s"
  shows "mapping_inv s'"
  using assms
  by (auto simp: adopt_position_mapping_def row_ok_def new_mapping_def elim!: insert_mapping_inv)

lemma activate_position_mapping_inv [inv_intros]:
  assumes "activate_position_mapping a c sp v fp now s = Inr s'" "mapping_inv s"
    "startswith c ''cm''"
  shows "mapping_inv s'"
  using assms(1,2) unfolding activate_position_mapping_def
  by (rule update_mappings_inv) (use assms(3) cm_not_co in \<open>auto simp: row_ok_def split: if_splits\<close>)

lemma fail_mapping_inv [inv_intros]:
  assumes "fail_mapping a c err now s = Inr s'" "mapping_inv s"
  shows "mapping_inv s'"
  using assms unfolding fail_mapping_def
  by (rule update_mappings_inv) (auto simp: row_ok_def)

lemma activate_order_mapping_inv [inv_intros]:
  assumes "activate_order_mapping a c so now s = Inr s'" "mapping_inv s" "startswith c ''co''"
  shows "mapping_inv s'"
  using assms(1,2) unfolding activate_order_mapping_def
  by (rule update_mappings_inv)
    (use assms(3) cm_not_co in \<open>auto simp: row_ok_def split: if_splits\<close>)

lemma close_order_mapping_inv [inv_intros]:
  assumes "close_order_mapping a so now s = Inr s'" "mapping_inv s"
  shows "mapping_inv s'"
  using assms unfolding close_order_mapping_def
  by (rule update_mappings_inv) (auto simp: row_ok_def)

lemma link_pending_fill_inv [inv_intros]:
  assumes "link_pending_fill q a p now s = Inr s'" "mapping_inv s"
  shows "mapping_inv s'"
  using assms unfolding link_pending_fill_def
  by (rule update_mappings_inv) (auto simp: row_ok_def split: if_splits)

lemma activate_pending_fill_inv [inv_intros]:
  assumes "activate_pending_fill a so sp v fp now s = Inr s'" "mapping_inv s"
  shows "mapping_inv s'"
  using assms unfolding activate_pending_fill_def
  by (rule update_mappings_inv) (auto simp: row_ok_def split: if_splits)

lemma record_master_fill_inv [inv_intros, intro]:
  "mapping_inv s \<Longrightarrow> mapping_inv (record_master_fill g p fp ts now s)"
  unfolding record_master_fill_def by (auto intro!: update_where_inv simp: row_ok_def split: if_splits)

lemma reduce_position_mapping_inv [inv_intros, intro]:
  "mapping_inv s \<Longrightarrow> mapping_inv (reduce_position_mapping a sp v c now s)"
  unfolding reduce_position_mapping_def
  by (rule update_where_inv) (auto simp: row_ok_def split: if_splits option.splits)

subsection \<open>The FIFO walk\<close>

text \<open>Every touched row is one of the walked rows, reduced by what was taken from it.\<close>

definition touches :: "mapping_row \<Rightarrow> touched_row \<Rightarrow> bool" where
  "touches r t \<longleftrightarrow> t_id t = m_id r \<and> t_coid t = m_coid r \<and> t_master_position t = m_master_position r
     \<and> 0 < t_closed_volume t \<and> t_closed_volume t \<le> held_volume r
     \<and> t_volume t = held_volume r - t_closed_volume t
     \<and> t_status t = (if t_volume t = 0 then Closed else Active)"

lemma fifo_walk_sound: "t \<in> set (fifo_walk n rs) \<Longrightarrow> \<exists>r \<in> set rs. touches r t"
proof (induction rs arbitrary: n)
  case (Cons r rs)
  show ?case
  proof (cases "0 < n \<and> 0 < held_volume r")
    case True
    with Cons.prems have "touches r t \<or> t \<in> set (fifo_walk (n - min (held_volume r) n) rs)"
      by (auto simp: Let_def touches_def)
    then show ?thesis using Cons.IH by auto
  next
    case False
    then show ?thesis using Cons by (auto split: if_splits)
  qed
qed simp

lemma fifo_walk_total:
  "sum_list (map t_closed_volume (fifo_walk n rs))
     = min (max n 0) (sum_list (map (\<lambda>r. max (held_volume r) 0) rs))"
proof (induction rs arbitrary: n)
  case (Cons r rs)
  have "0 \<le> sum_list (map (\<lambda>r. max (held_volume r) 0) rs)" by (intro sum_list_nonneg) auto
  with Cons.IH [of n] Cons.IH [of "n - min (held_volume r) n"] show ?case
    by (simp add: Let_def) (auto simp: min_def)
qed simp

text \<open>Oldest first: only the last touched row may keep a volume.\<close>

lemma fifo_walk_oldest_first:
  "t \<in> set (butlast (fifo_walk n rs)) \<Longrightarrow> t_volume t = 0 \<and> t_status t = Closed"
proof (induction rs arbitrary: n)
  case (Cons r rs)
  show ?case
  proof (cases "0 < n \<and> 0 < held_volume r")
    case True
    let ?rest = "fifo_walk (n - min (held_volume r) n) rs"
    have "?rest \<noteq> [] \<Longrightarrow> held_volume r \<le> n"
      by (cases rs) (auto split: if_splits)
    then show ?thesis
      using True Cons.prems Cons.IH [of "n - min (held_volume r) n"]
      by (cases "?rest = []") (auto simp: Let_def)
  next
    case False
    then show ?thesis using Cons.prems Cons.IH [of n] by (simp split: if_splits)
  qed
qed simp

lemma fifo_walk_subseq: "subseq (map t_id (fifo_walk n rs)) (map m_id rs)"
  by (induction rs arbitrary: n) (auto simp: Let_def)

lemma apply_touched_Cons [simp]:
  "apply_touched now [] rows = rows"
  "apply_touched now (t # ts) rows = apply_touched now ts
     (update_where (\<lambda>r. m_id r = t_id t)
       (\<lambda>r. r\<lparr>m_volume := Some (t_volume t), m_status := t_status t, m_updated_at := now\<rparr>) rows)"
  by (simp_all add: apply_touched_def)

text \<open>With distinct touched ids the walk is one pass over the table.\<close>

lemma apply_touched_pass:
  assumes "distinct (map t_id ts)"
  shows "apply_touched now ts rows =
    map (\<lambda>r. case find (\<lambda>t. t_id t = m_id r) ts of
           None \<Rightarrow> r
         | Some t \<Rightarrow> r\<lparr>m_volume := Some (t_volume t), m_status := t_status t, m_updated_at := now\<rparr>) rows"
  using assms
proof (induction ts arbitrary: rows)
  case (Cons t ts)
  have "\<forall>u \<in> set ts. t_id u \<noteq> t_id t"
    using Cons.prems by (simp add: image_iff) metis
  then have new: "find (\<lambda>u. t_id u = t_id t) ts = None" by (simp add: find_None_iff)
  show ?case
    using Cons new by (auto simp: update_where_def split: option.splits)
qed simp

lemma fifo_rows_distinct:
  assumes "mapping_inv s"
  shows "distinct (map m_id (fifo_rows a p s))"
proof -
  let ?rows = "filter (\<lambda>r. m_slave_account r = a \<and> m_slave_position r = Some p
      \<and> m_status r = Active) (db_mappings s)"
  have "mset (map m_id (fifo_rows a p s)) = mset (map m_id ?rows)"
    by (simp add: fifo_rows_def)
  then have "distinct (map m_id (fifo_rows a p s)) = distinct (map m_id ?rows)"
    by (rule mset_eq_imp_distinct_iff)
  then show ?thesis using assms by (simp add: mapping_inv_def distinct_map_filter)
qed

lemma fifo_touched_distinct:
  "mapping_inv s \<Longrightarrow> distinct (map t_id (fifo_walk n (fifo_rows a p s)))"
  using fifo_walk_subseq fifo_rows_distinct by (metis subseq_distinct)

end
