(* ===== verification/Mt5_Outbox.thy ===== *)
theory Mt5_Outbox
  imports Mt5_Wire Client_Orders Repo_Mappings
begin

text \<open>
  The command outbox (\<^verbatim>\<open>copier/mt5/outbox.py\<close>) and the command table under it
  (\<^verbatim>\<open>mt5_commands\<close> in \<^verbatim>\<open>copier/db/repo.py\<close>). A terminal cannot be
  called, so what it shall do is queued, collected by its next poll (queued to sent) and settled by
  its acknowledgement (done or failed).

  Clock readings are float seconds, database times integer microseconds; \<open>ts_of\<close> and \<open>ts_seconds\<close>
  are Python's conversions between them for times after the epoch. Where a statement takes the
  database's own \<^verbatim>\<open>now()\<close> the operation has it as the argument \<open>db_now\<close>.
\<close>

definition OPEN_COMMAND_TTL_S :: rat where "OPEN_COMMAND_TTL_S = 30"
definition REDELIVER_AFTER_S :: rat where "REDELIVER_AFTER_S = 10"
definition MAX_ATTEMPTS :: int where "MAX_ATTEMPTS = 3"
definition NO_ACK_MESSAGE :: string where "NO_ACK_MESSAGE = ''no ack from terminal''"
definition OFFLINE_MESSAGE :: string where "OFFLINE_MESSAGE = ''terminal offline''"
definition CLOSE_SUFFIX :: string where "CLOSE_SUFFIX = '':close''"

definition ts_of :: "rat \<Rightarrow> int" where
  "ts_of now = (let i = \<lfloor>now\<rfloor> in i * 1000000 + round_half_even (fl ((now - of_int i) * 1000000)))"

definition ts_seconds :: "int \<Rightarrow> rat" where
  "ts_seconds us = fl (of_int us / 1000000)"

section \<open>The command table\<close>

definition COMMAND_KINDS :: "string list" where
  "COMMAND_KINDS = [''open'', ''close'', ''amend'', ''place_pending'', ''amend_pending'', ''cancel_pending'']"

definition enqueue_mt5_command ::
  "ident \<Rightarrow> ident \<Rightarrow> string \<Rightarrow> payload \<Rightarrow> string option \<Rightarrow> int \<Rightarrow> db \<Rightarrow> (ident \<times> db) res" where
  "enqueue_mt5_command account_id org_id kind p client_order_id db_now s =
     (if kind \<notin> set COMMAND_KINDS then Inl (CheckViolation kind)
      else if account_id \<notin> a_account_id ` set (db_accounts s) then Inl (ForeignKeyViolation account_id)
      else if org_id \<notin> o_org_id ` set (db_orgs s) then Inl (ForeignKeyViolation org_id)
      else let cid = db_next_command s in
        Inr (cid, s\<lparr>db_commands := db_commands s @
              [\<lparr>c_id = cid, c_account = account_id, c_org = org_id, c_kind = kind, c_payload = p,
                c_coid = client_order_id, c_status = Queued, c_result = None, c_attempts = 0,
                c_created_at = db_now, c_sent_at = None, c_done_at = None\<rparr>],
              db_next_command := cid + 1\<rparr>))"

definition is_open :: "command_row \<Rightarrow> bool" where
  "is_open c \<longleftrightarrow> c_status c = Queued \<or> c_status c = Sent"

definition mt5_commands_open :: "ident \<Rightarrow> db \<Rightarrow> command_row list" where
  "mt5_commands_open account_id s =
     sort_key c_id (filter (\<lambda>c. c_account c = account_id \<and> is_open c) (db_commands s))"

definition mark_mt5_commands_sent :: "ident list \<Rightarrow> int \<Rightarrow> db \<Rightarrow> db" where
  "mark_mt5_commands_sent ids sent_at s =
     (if ids = [] then s
      else s\<lparr>db_commands := update_where (\<lambda>c. c_id c \<in> set ids)
             (\<lambda>c. c\<lparr>c_status := Sent, c_sent_at := Some sent_at, c_attempts := c_attempts c + 1\<rparr>)
             (db_commands s)\<rparr>)"

definition settles :: "ident \<Rightarrow> ident option \<Rightarrow> command_row \<Rightarrow> bool" where
  "settles command_id account_id c \<longleftrightarrow>
     c_id c = command_id \<and> is_open c \<and> (case account_id of None \<Rightarrow> True | Some a \<Rightarrow> c_account c = a)"

definition complete_mt5_command ::
  "ident \<Rightarrow> bool \<Rightarrow> payload \<Rightarrow> int \<Rightarrow> ident option \<Rightarrow> db \<Rightarrow> command_row option \<times> db" where
  "complete_mt5_command command_id ok result done_at account_id s =
     (find (settles command_id account_id) (db_commands s),
      s\<lparr>db_commands := update_where (settles command_id account_id)
          (\<lambda>c. c\<lparr>c_status := (if ok then Done else CmdFailed), c_result := Some result,
                 c_done_at := Some done_at\<rparr>) (db_commands s)\<rparr>)"

definition unacked_result :: "string \<Rightarrow> payload" where
  "unacked_result msg =
     [(''ok'', JBool False), (''retcode'', JInt 0), (''message'', JStr msg), (''position'', JNull),
      (''deal'', JNull), (''order'', JNull), (''price'', JNull), (''lots'', JNull)]"

definition stale_open :: "ident \<Rightarrow> int \<Rightarrow> command_row \<Rightarrow> bool" where
  "stale_open account_id older_than c \<longleftrightarrow>
     c_account c = account_id \<and> (c_kind c = ''open'' \<or> c_kind c = ''place_pending'') \<and> is_open c
     \<and> c_created_at c < older_than
     \<and> (case c_coid c of None \<Rightarrow> True | Some coid \<Rightarrow> \<not> endswith coid CLOSE_SUFFIX)"

definition fail_stale_mt5_opens :: "ident \<Rightarrow> int \<Rightarrow> int \<Rightarrow> db \<Rightarrow> ident list \<times> db" where
  "fail_stale_mt5_opens account_id older_than db_now s =
     (let rows = filter (stale_open account_id older_than) (db_commands s);
          coids = filter (\<lambda>c. c \<noteq> []) (List.map_filter c_coid rows);
          s1 = s\<lparr>db_commands := update_where (stale_open account_id older_than)
                 (\<lambda>c. c\<lparr>c_status := CmdFailed, c_result := Some (unacked_result OFFLINE_MESSAGE),
                        c_done_at := Some db_now\<rparr>) (db_commands s)\<rparr>
      in (map c_id rows,
          s1\<lparr>db_mappings := update_where
               (\<lambda>r. m_slave_account r = account_id \<and> (\<exists>c \<in> set coids. m_coid r = Some c)
                    \<and> m_status r = Pending)
               (\<lambda>r. r\<lparr>m_status := Failed, m_error := Some OFFLINE_MESSAGE, m_updated_at := db_now\<rparr>)
               (db_mappings s1)\<rparr>))"

definition mt5_open_payload :: "string \<Rightarrow> db \<Rightarrow> payload option" where
  "mt5_open_payload client_order_id s =
     (case sort_key c_id (filter (\<lambda>c. c_coid c = Some client_order_id \<and> c_kind c = ''open'') (db_commands s)) of
        [] \<Rightarrow> None | c # _ \<Rightarrow> Some (c_payload c))"

definition mapping_side :: "string \<Rightarrow> db \<Rightarrow> string option" where
  "mapping_side client_order_id s =
     (case map_of (case mt5_open_payload client_order_id s of None \<Rightarrow> [] | Some p \<Rightarrow> p) ''side'' of
        Some (JStr side) \<Rightarrow> if side = ''BUY'' \<or> side = ''SELL'' then Some side else None
      | _ \<Rightarrow> None)"

section \<open>Commands for intents\<close>

text \<open>Payload prices: 0 means none.\<close>

definition payload_price :: "price option \<Rightarrow> json" where
  "payload_price v = JNum (case v of None \<Rightarrow> 0 | Some p \<Rightarrow> p)"

fun command_for_intent :: "slave_intent \<Rightarrow> string \<Rightarrow> (string \<times> payload) res" where
  "command_for_intent (OpenMarket a p i sd v sl tp label n e) broker_symbol =
     Inr (''open'', [(''symbol'', JStr broker_symbol), (''side'', JStr (side_value sd)),
       (''lots'', JNum (lots v)), (''sl'', payload_price sl), (''tp'', payload_price tp),
       (''comment'', JStr label)])"
| "command_for_intent (ClosePosition a q v m) broker_symbol =
     Inr (''close'', [(''position'', JInt q), (''lots'', JNum (lots v))])"
| "command_for_intent (AmendPositionSLTP a q sl tp) broker_symbol =
     Inr (''amend'', [(''position'', JInt q), (''sl'', payload_price sl), (''tp'', payload_price tp)])"
| "command_for_intent (PlacePending a q i sd t v pr sl tp ex label n) broker_symbol =
     Inr (''place_pending'', [(''symbol'', JStr broker_symbol),
       (''type'', JStr (side_value sd @ ''_'' @ (if t = LIMIT then ''LIMIT'' else ''STOP''))),
       (''lots'', JNum (lots v)), (''price'', JNum pr), (''sl'', payload_price sl),
       (''tp'', payload_price tp),
       (''expiry_ms'', JInt (case ex of None \<Rightarrow> 0 | Some t \<Rightarrow> t)), (''comment'', JStr label)])"
| "command_for_intent (AmendPending a q t v pr sl tp) broker_symbol =
     Inr (''amend_pending'', [(''order'', JInt q), (''lots'', JNum (lots v)), (''price'', JNum pr),
       (''sl'', payload_price sl), (''tp'', payload_price tp)])"
| "command_for_intent (CancelPending a q) broker_symbol = Inr (''cancel_pending'', [(''order'', JInt q)])"
| "command_for_intent i broker_symbol =
     Inl (ValueError (''no MT5 command for intent '' @ intent_type i))"

definition unsided_detail :: string where
  "unsided_detail = ''no open command records this copy's side; closing the net position by volume instead, which reduces the copies oldest-first''"

definition log_unsided :: "ident \<Rightarrow> string \<Rightarrow> ident \<Rightarrow> int \<Rightarrow> ident \<Rightarrow> db \<Rightarrow> db" where
  "log_unsided account_id coid position_id volume org_id s =
     log_event ''slave_action'' ''warning''
       [(''action'', JStr ''mt5_netting_close_unsided''), (''client_order_id'', JStr coid),
        (''position'', JInt position_id), (''volume'', JInt volume), (''detail'', JStr unsided_detail)]
       (Some account_id) None (Some org_id) None s"

text \<open>
  An operation that raises after it wrote something keeps what it wrote: such operations return the
  result and the state apart. \<open>settle\<close> adapts one that writes nothing when it raises.
\<close>

definition settle :: "('a \<times> 's) res \<Rightarrow> 's \<Rightarrow> 'a res \<times> 's" where
  "settle r s = (case r of Inl e \<Rightarrow> (Inl e, s) | Inr (x, s') \<Rightarrow> (Inr x, s'))"

text \<open>
  A netting follower's close of one copy. \<open>Inr None\<close>: no open command tells the side, the caller
  falls back to a plain close.
\<close>

definition enqueue_netting_close ::
  "ident \<Rightarrow> ident \<Rightarrow> int \<Rightarrow> ident \<Rightarrow> ident \<Rightarrow> int \<Rightarrow> db \<Rightarrow> ident option res \<times> db" where
  "enqueue_netting_close account_id position_id volume master_position_id org_id db_now s =
     (let coid = ''cm'' @ str_int master_position_id @ ''.'' @ str_int account_id;
          p = (case mt5_open_payload coid s of None \<Rightarrow> [] | Some p \<Rightarrow> p);
          symbol = (case map_of p ''symbol'' of Some (JStr y) \<Rightarrow> y | _ \<Rightarrow> [])
      in case mapping_side coid s of
           Some side \<Rightarrow>
             if symbol \<noteq> []
             then map_prod (map_sum id Some) id (settle (enqueue_mt5_command account_id org_id ''open''
                  [(''symbol'', JStr symbol), (''side'', JStr (if side = ''BUY'' then ''SELL'' else ''BUY'')),
                   (''lots'', JNum (lots volume)), (''sl'', JNum 0), (''tp'', JNum 0),
                   (''comment'', JStr (''close:m'' @ str_int master_position_id))]
                  (Some (coid @ CLOSE_SUFFIX)) db_now s) s)
             else (Inr None, log_unsided account_id coid position_id volume org_id s)
         | None \<Rightarrow> (Inr None, log_unsided account_id coid position_id volume org_id s))"

text \<open>
  \<open>margin_mode\<close> is the registry's callback, \<open>None\<close> when the process has no MT5 registry.
\<close>

definition is_netting :: "(ident \<Rightarrow> string option) option \<Rightarrow> ident \<Rightarrow> bool" where
  "is_netting margin_mode account_id =
     (case margin_mode of None \<Rightarrow> False | Some f \<Rightarrow> f account_id = Some ''netting'')"

definition enqueue_plain :: "slave_intent \<Rightarrow> ident \<Rightarrow> ident \<Rightarrow> string \<Rightarrow> int \<Rightarrow> db \<Rightarrow> ident res \<times> db" where
  "enqueue_plain intent account_id org_id broker_symbol db_now s =
     settle (res_bind (command_for_intent intent broker_symbol) (\<lambda>(kind, p).
       enqueue_mt5_command account_id org_id kind p (client_order_id_for intent) db_now s)) s"

text \<open>Only an alert may name no account, and it raises before the account is used.\<close>

definition enqueue_intent ::
  "(ident \<Rightarrow> string option) option \<Rightarrow> slave_intent \<Rightarrow> ident \<Rightarrow> string \<Rightarrow> int \<Rightarrow> db \<Rightarrow> ident res \<times> db" where
  "enqueue_intent margin_mode intent org_id broker_symbol db_now s =
     (case intent of
        ClosePosition a q v (Some m) \<Rightarrow>
          if is_netting margin_mode a
          then (case enqueue_netting_close a q v m org_id db_now s of
                  (Inl e, s1) \<Rightarrow> (Inl e, s1)
                | (Inr (Some cid), s1) \<Rightarrow> (Inr cid, s1)
                | (Inr None, s1) \<Rightarrow> enqueue_plain intent a org_id broker_symbol db_now s1)
          else enqueue_plain intent a org_id broker_symbol db_now s
      | _ \<Rightarrow> enqueue_plain intent (case slave_account_of intent of Some a \<Rightarrow> a | None \<Rightarrow> 0)
               org_id broker_symbol db_now s)"

section \<open>Delivery\<close>

definition give_up :: "ident \<Rightarrow> command_row \<Rightarrow> rat \<Rightarrow> int \<Rightarrow> db \<Rightarrow> db" where
  "give_up account_id c now db_now s =
     (let s1 = snd (complete_mt5_command (c_id c) False (unacked_result NO_ACK_MESSAGE) (ts_of now)
                      (Some account_id) s);
          s2 = (case c_coid c of
                  None \<Rightarrow> s1
                | Some coid \<Rightarrow> if coid = [] then s1
                    else (case fail_mapping account_id coid NO_ACK_MESSAGE db_now s1 of
                            Inl _ \<Rightarrow> s1 | Inr s' \<Rightarrow> s'))
      in log_event ''slave_action'' ''error''
           [(''action'', JStr ''mt5_command_unacked''), (''command_id'', JInt (c_id c)),
            (''kind'', JStr (c_kind c)), (''attempts'', JInt (c_attempts c)),
            (''error'', JStr NO_ACK_MESSAGE)]
           (Some account_id) None (Some (c_org c)) None s2)"

text \<open>A sent command is left alone until \<open>REDELIVER_AFTER_S\<close> have passed without an ack.\<close>

definition awaiting_ack :: "rat \<Rightarrow> command_row \<Rightarrow> bool" where
  "awaiting_ack now c \<longleftrightarrow> c_status c = Sent \<and>
     fl (now - (case c_sent_at c of Some t \<Rightarrow> ts_seconds t | None \<Rightarrow> now)) < REDELIVER_AFTER_S"

definition exhausted :: "command_row \<Rightarrow> bool" where
  "exhausted c \<longleftrightarrow> c_status c = Sent \<and> MAX_ATTEMPTS \<le> c_attempts c"

fun deliver_rows :: "ident \<Rightarrow> rat \<Rightarrow> int \<Rightarrow> command_row list \<Rightarrow> db \<Rightarrow> command_row list \<times> db" where
  "deliver_rows account_id now db_now [] s = ([], s)"
| "deliver_rows account_id now db_now (c # cs) s =
     (if awaiting_ack now c then deliver_rows account_id now db_now cs s
      else if exhausted c then deliver_rows account_id now db_now cs (give_up account_id c now db_now s)
      else let (out, s') = deliver_rows account_id now db_now cs s in (c # out, s'))"

definition command_of_row :: "command_row \<Rightarrow> command" where
  "command_of_row c = \<lparr>cmd_id = c_id c, cmd_kind = c_kind c, cmd_payload = c_payload c,
     cmd_client_order_id = c_coid c\<rparr>"

definition log_expired :: "ident \<Rightarrow> ident \<Rightarrow> db \<Rightarrow> db" where
  "log_expired account_id command_id s =
     log_event ''slave_action'' ''warning''
       [(''action'', JStr ''mt5_command_expired''), (''command_id'', JInt command_id),
        (''reason'', JStr OFFLINE_MESSAGE),
        (''detail'', JStr ''market copy not delivered within 30s; a copy placed that late is a different trade'')]
       (Some account_id) None None None s"

definition deliverable :: "ident \<Rightarrow> rat \<Rightarrow> int \<Rightarrow> db \<Rightarrow> command list \<times> db" where
  "deliverable account_id now db_now s =
     (let (expired, s1) = fail_stale_mt5_opens account_id (ts_of (fl (now - OPEN_COMMAND_TTL_S))) db_now s;
          s2 = fold (log_expired account_id) expired s1;
          (rows, s3) = deliver_rows account_id now db_now (mt5_commands_open account_id s2) s2
      in (map command_of_row rows, mark_mt5_commands_sent (map c_id rows) (ts_of now) s3))"

section \<open>Acknowledgements\<close>

record ack_outcome =
  ao_command_id :: ident
  ao_kind :: string
  ao_client_order_id :: "string option"
  ao_ok :: bool
  ao_message :: string
  ao_position :: "ident option"
  ao_order :: "ident option"
  ao_price :: "price option"
  ao_volume :: "int option"
  ao_deal :: "ident option"

definition payload_int :: "payload \<Rightarrow> string \<Rightarrow> int option" where
  "payload_int p k = (case map_of p k of Some (JInt i) \<Rightarrow> Some i | _ \<Rightarrow> None)"

definition payload_num :: "payload \<Rightarrow> string \<Rightarrow> rat option" where
  "payload_num p k = (case map_of p k of Some (JNum x) \<Rightarrow> Some x | Some (JInt i) \<Rightarrow> Some (of_int i) | _ \<Rightarrow> None)"

definition ack_result :: "ack \<Rightarrow> payload" where
  "ack_result k =
     [(''ok'', JBool (ak_ok k)), (''retcode'', JInt (ak_retcode k)), (''message'', JStr (ak_message k)),
      (''position'', jint (ak_position k)), (''deal'', jint (ak_deal k)), (''order'', jint (ak_order k)),
      (''price'', jnum (ak_price k)), (''lots'', jnum (map_option lots (ak_volume k)))]"

text \<open>The outcome of an ack that settled row \<open>c\<close>; tickets and volume fall back to the payload.\<close>

definition ack_outcome_of :: "ack \<Rightarrow> command_row \<Rightarrow> ack_outcome" where
  "ack_outcome_of k c =
     (let is_close = (c_kind c = ''open'' \<and>
            (case c_coid c of None \<Rightarrow> False | Some coid \<Rightarrow> endswith coid CLOSE_SUFFIX))
      in \<lparr>ao_command_id = c_id c,
          ao_kind = (if is_close then ''close'' else c_kind c),
          ao_client_order_id =
            (if is_close then map_option (\<lambda>coid. take (length coid - length CLOSE_SUFFIX) coid) (c_coid c)
             else c_coid c),
          ao_ok = ak_ok k, ao_message = ak_message k,
          ao_position = (case ak_position k of Some p \<Rightarrow> Some p | None \<Rightarrow> payload_int (c_payload c) ''position''),
          ao_order = (case ak_order k of Some q \<Rightarrow> Some q | None \<Rightarrow> payload_int (c_payload c) ''order''),
          ao_price = ak_price k,
          ao_volume = (case ak_volume k of
              Some v \<Rightarrow> Some v
            | None \<Rightarrow> (case payload_num (c_payload c) ''lots'' of
                None \<Rightarrow> None
              | Some x \<Rightarrow> if x = 0 then None else Some (round_half_even (fl (x * 100))))),
          ao_deal = ak_deal k\<rparr>)"

fun apply_acks :: "ident \<Rightarrow> rat \<Rightarrow> ack list \<Rightarrow> db \<Rightarrow> ack_outcome list \<times> db" where
  "apply_acks account_id now [] s = ([], s)"
| "apply_acks account_id now (k # ks) s =
     (let (row, s1) = complete_mt5_command (ak_command_id k) (ak_ok k) (ack_result k) (ts_of now)
                        (Some account_id) s;
          (out, s2) = apply_acks account_id now ks s1
      in case row of None \<Rightarrow> (out, s2) | Some c \<Rightarrow> (ack_outcome_of k c # out, s2))"

definition pending_count :: "ident \<Rightarrow> db \<Rightarrow> nat" where
  "pending_count account_id s = length (mt5_commands_open account_id s)"

end
