(* ===== verification/Outbox_Laws.thy ===== *)
theory Outbox_Laws
  imports Mt5_Outbox
begin

text \<open>
  What the outbox guarantees: a command only ever moves forward (queued, sent, settled), a settled
  command is frozen, commands are handed out in the order they were queued and at most
  \<^const>\<open>MAX_ATTEMPTS\<close> times, and a repeated acknowledgement changes nothing.
\<close>

section \<open>How a row may change\<close>

text \<open>Everything but the delivery mark either leaves a row alone or settles an open one.\<close>

definition progress :: "command_row \<Rightarrow> command_row \<Rightarrow> bool" where
  "progress c d \<longleftrightarrow> d = c \<or> (is_open c \<and> \<not> is_open d \<and> c_id d = c_id c \<and> c_account d = c_account c \<and>
     c_kind d = c_kind c \<and> c_payload d = c_payload c \<and> c_coid d = c_coid c \<and> c_attempts d = c_attempts c)"

lemma progress_refl [simp]: "progress c c"
  by (simp add: progress_def)

lemma progress_trans: "progress c d \<Longrightarrow> progress d e \<Longrightarrow> progress c e"
  by (auto simp: progress_def)

lemma progress_id: "progress c d \<Longrightarrow> c_id d = c_id c \<and> c_attempts d = c_attempts c \<and> c_account d = c_account c"
  by (auto simp: progress_def)

abbreviation rows_progress :: "db \<Rightarrow> db \<Rightarrow> bool" where
  "rows_progress s t \<equiv> list_all2 progress (db_commands s) (db_commands t)"

lemma rows_progress_refl [simp]: "rows_progress s s"
  by (simp add: list.rel_refl)

lemma rows_progress_trans: "rows_progress s t \<Longrightarrow> rows_progress t u \<Longrightarrow> rows_progress s u"
  using list_all2_trans [of progress progress progress] progress_trans by blast

lemma rows_progress_ids: "rows_progress s t \<Longrightarrow> map c_id (db_commands t) = map c_id (db_commands s)"
  by (auto simp: list_all2_conv_all_nth progress_id intro!: nth_equalityI)

lemma rows_progress_from:
  "list_all2 progress cs ds \<Longrightarrow> d \<in> set ds \<Longrightarrow> \<exists>c \<in> set cs. progress c d"
  by (induction rule: list_all2_induct) auto

lemma update_where_progress:
  "(\<And>c. P c \<Longrightarrow> progress c (f c)) \<Longrightarrow> list_all2 progress rows (update_where P f rows)"
  by (induction rows) (auto simp: update_where_def)

lemma complete_progress: "rows_progress s (snd (complete_mt5_command i ok res t a s))"
  by (auto simp: complete_mt5_command_def settles_def progress_def is_open_def
      intro!: update_where_progress)

lemma fail_stale_progress: "rows_progress s (snd (fail_stale_mt5_opens a t n s))"
  by (auto simp: fail_stale_mt5_opens_def Let_def stale_open_def progress_def is_open_def
      intro!: update_where_progress)

lemma fail_mapping_commands: "fail_mapping a c e n s = Inr t \<Longrightarrow> db_commands t = db_commands s \<and> db_next_command t = db_next_command s"
  using mapping_ops_same(4) same_tables_fields(5,6) by blast

lemma give_up_commands:
  "db_commands (give_up a c now n s) =
     db_commands (snd (complete_mt5_command (c_id c) False (unacked_result NO_ACK_MESSAGE) (ts_of now) (Some a) s))"
  "db_next_command (give_up a c now n s) = db_next_command s"
  by (auto simp: give_up_def Let_def complete_mt5_command_def dest: fail_mapping_commands
      split: option.splits sum.splits)

lemma give_up_progress: "rows_progress s (give_up a c now n s)"
  by (simp add: give_up_commands complete_progress)

lemma fold_log_expired [simp]:
  "db_commands (fold (log_expired a) is s) = db_commands s"
  "db_next_command (fold (log_expired a) is s) = db_next_command s"
  by (induction "is" arbitrary: s) (simp_all add: log_expired_def)

lemma deliver_rows_out:
  "fst (deliver_rows a now n cs s) = filter (\<lambda>c. \<not> awaiting_ack now c \<and> \<not> exhausted c) cs"
  by (induction cs arbitrary: s) (auto simp: case_prod_unfold Let_def)

lemma deliver_rows_progress: "rows_progress s (snd (deliver_rows a now n cs s))"
proof (induction cs arbitrary: s)
  case (Cons c cs)
  show ?case
    using Cons.IH [of s] rows_progress_trans [OF give_up_progress Cons.IH, of s a c now n]
    by (simp add: case_prod_unfold Let_def)
qed simp

text \<open>Giving up on a command touches no other command.\<close>

lemma complete_other:
  "c \<in> set (db_commands s) \<Longrightarrow> c_id c \<noteq> i \<Longrightarrow>
   c \<in> set (db_commands (snd (complete_mt5_command i ok res t a s)))"
  by (force simp: complete_mt5_command_def set_update_where settles_def)

lemma deliver_rows_other:
  "c \<in> set (db_commands s) \<Longrightarrow> c_id c \<notin> c_id ` {d \<in> set cs. exhausted d} \<Longrightarrow>
   c \<in> set (db_commands (snd (deliver_rows a now n cs s)))"
proof (induction cs arbitrary: s)
  case (Cons d cs)
  have "c \<in> set (db_commands (give_up a d now n s))" if "exhausted d"
    using Cons.prems that by (auto simp: give_up_commands intro!: complete_other)
  then show ?case using Cons by (auto simp: case_prod_unfold Let_def)
qed simp

lemma deliver_rows_next [simp]: "db_next_command (snd (deliver_rows a now n cs s)) = db_next_command s"
  by (induction cs arbitrary: s) (auto simp: case_prod_unfold Let_def give_up_commands)

section \<open>The invariant of the command table\<close>

definition command_ok :: "command_row \<Rightarrow> bool" where
  "command_ok c \<longleftrightarrow> 0 \<le> c_attempts c \<and> c_attempts c \<le> MAX_ATTEMPTS \<and> (c_status c = Queued \<longrightarrow> c_attempts c = 0)"

definition command_inv :: "db \<Rightarrow> bool" where
  "command_inv s \<longleftrightarrow> distinct (map c_id (db_commands s)) \<and>
     (\<forall>c \<in> set (db_commands s). c_id c < db_next_command s \<and> command_ok c)"

lemma progress_ok: "progress c d \<Longrightarrow> command_ok c \<Longrightarrow> command_ok d"
  by (auto simp: progress_def command_ok_def is_open_def)

lemma command_inv_progress [inv_intros]:
  assumes "command_inv s" "rows_progress s t" "db_next_command t = db_next_command s"
  shows "command_inv t"
  unfolding command_inv_def
proof (intro conjI ballI)
  show "distinct (map c_id (db_commands t))"
    using assms rows_progress_ids [OF assms(2)] by (simp add: command_inv_def)
  fix d assume "d \<in> set (db_commands t)"
  then obtain c where "c \<in> set (db_commands s)" "progress c d"
    using rows_progress_from [OF assms(2)] by blast
  then show "c_id d < db_next_command t" "command_ok d"
    using assms by (auto simp: command_inv_def dest: progress_ok progress_id)
qed

lemma command_inv_enqueue [inv_intros]:
  "enqueue_mt5_command a g k p c n s = Inr (i, t) \<Longrightarrow> command_inv s \<Longrightarrow> command_inv t"
  by (fastforce simp: enqueue_mt5_command_def command_inv_def command_ok_def MAX_ATTEMPTS_def Let_def
      split: if_splits)

text \<open>
  A poll, taken apart: after the stale and the exhausted commands are settled (state \<open>u\<close>), the rows
  handed out are open rows of the account with attempts to spare, in the order of their ids.
\<close>

lemma deliverable_parts:
  assumes "command_inv s" "deliverable a now n s = (out, t)"
  obtains u rows where "rows_progress s u" "db_next_command u = db_next_command s"
    "set rows \<subseteq> set (db_commands u)" "distinct (map c_id rows)" "sorted (map c_id rows)"
    "\<And>c. c \<in> set rows \<Longrightarrow> c_account c = a \<and> is_open c \<and> \<not> awaiting_ack now c \<and> \<not> exhausted c"
    "out = map command_of_row rows" "t = mark_mt5_commands_sent (map c_id rows) (ts_of now) u"
proof -
  let ?f = "fail_stale_mt5_opens a (ts_of (fl (now - OPEN_COMMAND_TTL_S))) n s"
  define s2 where "s2 = fold (log_expired a) (fst ?f) (snd ?f)"
  define opn where "opn = mt5_commands_open a s2"
  define rows where "rows = filter (\<lambda>c. \<not> awaiting_ack now c \<and> \<not> exhausted c) opn"
  define u where "u = snd (deliver_rows a now n opn s2)"
  have p2: "rows_progress s s2" using fail_stale_progress by (simp add: s2_def)
  have next2: "db_next_command s2 = db_next_command s"
    by (simp add: s2_def fail_stale_mt5_opens_def Let_def)
  have inv2: "command_inv s2" using command_inv_progress [OF assms(1) p2 next2] .
  have opn: "c \<in> set opn \<longleftrightarrow> c \<in> set (db_commands s2) \<and> c_account c = a \<and> is_open c" for c
    by (auto simp: opn_def mt5_commands_open_def)
  have dist: "distinct (map c_id opn)"
  proof -
    have "mset (map c_id opn) = mset (map c_id (filter (\<lambda>c. c_account c = a \<and> is_open c) (db_commands s2)))"
      by (simp add: opn_def mt5_commands_open_def)
    then show ?thesis
      using inv2 mset_eq_imp_distinct_iff by (metis command_inv_def distinct_map_filter)
  qed
  show thesis
  proof (rule that [of u rows])
    show "rows_progress s u" using rows_progress_trans [OF p2 deliver_rows_progress] by (simp add: u_def)
    show "db_next_command u = db_next_command s" by (simp add: u_def next2)
    show "set rows \<subseteq> set (db_commands u)"
    proof
      fix c assume c: "c \<in> set rows"
      then have "c_id c \<notin> c_id ` {d \<in> set opn. exhausted d}"
        using dist by (auto simp: rows_def distinct_map inj_on_def)
      with c show "c \<in> set (db_commands u)"
        by (auto simp: u_def rows_def opn intro!: deliver_rows_other)
    qed
    show "distinct (map c_id rows)" "sorted (map c_id rows)"
      using dist by (auto simp: rows_def opn_def mt5_commands_open_def distinct_map_filter
          intro!: sorted_filter)
    show "out = map command_of_row rows" "t = mark_mt5_commands_sent (map c_id rows) (ts_of now) u"
      using assms(2) deliver_rows_out [of a now n opn s2]
      by (auto simp: deliverable_def case_prod_unfold Let_def rows_def opn_def s2_def u_def)
  qed (auto simp: rows_def opn)
qed

text \<open>The delivery mark: one attempt more for exactly the rows handed out.\<close>

lemma mark_sent_rows:
  assumes "c \<in> set (db_commands (mark_mt5_commands_sent ids ts u))"
  obtains d where "d \<in> set (db_commands u)" "c_id c = c_id d"
    "c_attempts c = c_attempts d + (if c_id d \<in> set ids then 1 else 0)"
    "if c_id d \<in> set ids then c_status c = Sent else c = d"
  using assms by (auto simp: mark_mt5_commands_sent_def set_update_where split: if_splits)

lemma mark_sent_marks:
  assumes "r \<in> set (db_commands u)" "c_id r \<in> set ids"
  shows "\<exists>c \<in> set (db_commands (mark_mt5_commands_sent ids ts u)). c_id c = c_id r \<and> c_status c = Sent"
proof -
  have "ids \<noteq> []" using assms(2) by auto
  then have "r\<lparr>c_status := Sent, c_sent_at := Some ts, c_attempts := c_attempts r + 1\<rparr>
      \<in> set (db_commands (mark_mt5_commands_sent ids ts u))"
    using assms by (simp add: mark_mt5_commands_sent_def set_update_where)
  then show ?thesis by (intro bexI) simp_all
qed

lemma mark_sent_frame:
  "map c_id (db_commands (mark_mt5_commands_sent ids ts u)) = map c_id (db_commands u)"
  "db_next_command (mark_mt5_commands_sent ids ts u) = db_next_command u"
  by (simp_all add: mark_mt5_commands_sent_def update_where_map)

lemma deliverable_inv [inv_intros]:
  assumes "command_inv s" "deliverable a now n s = (out, t)"
  shows "command_inv t"
proof -
  from deliverable_parts [OF assms] obtain u rows where u: "rows_progress s u"
    "db_next_command u = db_next_command s" "set rows \<subseteq> set (db_commands u)"
    "\<And>c. c \<in> set rows \<Longrightarrow> c_account c = a \<and> is_open c \<and> \<not> awaiting_ack now c \<and> \<not> exhausted c"
    "t = mark_mt5_commands_sent (map c_id rows) (ts_of now) u" by metis
  have inv: "command_inv u" using command_inv_progress [OF assms(1) u(1,2)] .
  have "command_ok c \<and> c_id c < db_next_command u" if "c \<in> set (db_commands t)" for c
  proof -
    from that obtain d where d: "d \<in> set (db_commands u)" "c_id c = c_id d"
      "c_attempts c = c_attempts d + (if c_id d \<in> set (map c_id rows) then 1 else 0)"
      "if c_id d \<in> set (map c_id rows) then c_status c = Sent else c = d"
      unfolding u(5) by (rule mark_sent_rows)
    have ok: "command_ok d" "c_id d < db_next_command u" using inv d(1) by (auto simp: command_inv_def)
    show ?thesis
    proof (cases "c_id d \<in> set (map c_id rows)")
      case True
      then obtain e where e: "e \<in> set rows" "c_id e = c_id d" by auto
      then have "e = d" using u(3) d(1) inv by (auto simp: command_inv_def distinct_map inj_on_def)
      with u(4) [OF e(1)] ok d True show ?thesis
        by (auto simp: command_ok_def is_open_def exhausted_def MAX_ATTEMPTS_def)
    qed (use d ok in auto)
  qed
  then show ?thesis using inv by (simp add: command_inv_def mark_sent_frame u(5))
qed

lemma apply_acks_progress: "rows_progress s (snd (apply_acks a now ks s))"
proof (induction ks arbitrary: s)
  case (Cons k ks)
  show ?case
    using rows_progress_trans [OF complete_progress Cons.IH]
    by (auto simp: case_prod_unfold Let_def split: option.splits)
qed simp

lemma apply_acks_next [simp]: "db_next_command (snd (apply_acks a now ks s)) = db_next_command s"
  by (induction ks arbitrary: s) (auto simp: case_prod_unfold Let_def complete_mt5_command_def split: option.splits)

section \<open>Runs of the outbox\<close>

text \<open>
  A run from one state to another, with the ids of the commands handed to terminals in between. The
  rest of the copier interleaves freely, as long as it leaves the command table alone.
\<close>

inductive outbox_run :: "db \<Rightarrow> ident list \<Rightarrow> db \<Rightarrow> bool" where
  start: "outbox_run s [] s"
| enqueue: "outbox_run s ds t \<Longrightarrow> enqueue_mt5_command a g k p c n t = Inr (i, u) \<Longrightarrow> outbox_run s ds u"
| poll: "outbox_run s ds t \<Longrightarrow> deliverable a now n t = (out, u) \<Longrightarrow> outbox_run s (ds @ map cmd_id out) u"
| acks: "outbox_run s ds t \<Longrightarrow> apply_acks a now ks t = (outs, u) \<Longrightarrow> outbox_run s ds u"
| other: "outbox_run s ds t \<Longrightarrow> db_commands u = db_commands t \<Longrightarrow>
    db_next_command u = db_next_command t \<Longrightarrow> outbox_run s ds u"

text \<open>Along a run the attempts of a row count its deliveries.\<close>

definition counts_deliveries :: "ident list \<Rightarrow> db \<Rightarrow> bool" where
  "counts_deliveries ds s \<longleftrightarrow> command_inv s \<and> set ds \<subseteq> c_id ` set (db_commands s) \<and>
     (\<forall>c \<in> set (db_commands s). int (count_list ds (c_id c)) = c_attempts c)"

lemma counts_progress:
  assumes "counts_deliveries ds s" "rows_progress s t" "db_next_command t = db_next_command s"
  shows "counts_deliveries ds t"
proof -
  have "c_id ` set (db_commands t) = c_id ` set (db_commands s)"
    using rows_progress_ids [OF assms(2)] by (metis set_map)
  moreover have "int (count_list ds (c_id d)) = c_attempts d" if "d \<in> set (db_commands t)" for d
    using rows_progress_from [OF assms(2) that] assms(1) progress_id
    by (auto simp: counts_deliveries_def)
  ultimately show ?thesis
    using assms command_inv_progress [OF _ assms(2,3)] by (simp add: counts_deliveries_def)
qed

lemma counts_enqueue:
  assumes "counts_deliveries ds s" "enqueue_mt5_command a g k p c n s = Inr (i, t)"
  shows "counts_deliveries ds t"
proof -
  have "db_next_command s \<notin> set ds"
    using assms(1) by (force simp: counts_deliveries_def command_inv_def)
  then show ?thesis
    using assms command_inv_enqueue [OF assms(2)]
    by (auto simp: counts_deliveries_def enqueue_mt5_command_def Let_def count_list_0_iff split: if_splits)
qed

lemma counts_poll:
  assumes "counts_deliveries ds s" "deliverable a now n s = (out, t)"
  shows "counts_deliveries (ds @ map cmd_id out) t"
proof -
  have inv: "command_inv s" using assms(1) by (simp add: counts_deliveries_def)
  from deliverable_parts [OF inv assms(2)] obtain u rows where u: "rows_progress s u"
    "db_next_command u = db_next_command s" "set rows \<subseteq> set (db_commands u)" "distinct (map c_id rows)"
    "out = map command_of_row rows" "t = mark_mt5_commands_sent (map c_id rows) (ts_of now) u" by metis
  have cu: "counts_deliveries ds u" using counts_progress [OF assms(1) u(1,2)] .
  have ids: "map cmd_id out = map c_id rows" by (simp add: u(5) command_of_row_def)
  have once: "int (count_list (map c_id rows) i) = (if i \<in> set (map c_id rows) then 1 else 0)" for i
    using u(4) by (induction rows) (auto simp: count_list_0_iff)
  have "int (count_list (ds @ map cmd_id out) (c_id c)) = c_attempts c" if "c \<in> set (db_commands t)" for c
  proof -
    from that obtain d where "d \<in> set (db_commands u)" "c_id c = c_id d"
      "c_attempts c = c_attempts d + (if c_id d \<in> set (map c_id rows) then 1 else 0)"
      unfolding u(6) by (rule mark_sent_rows)
    then show ?thesis using cu once by (simp add: counts_deliveries_def ids)
  qed
  moreover have "c_id ` set (db_commands t) = c_id ` set (db_commands u)"
    unfolding u(6) using mark_sent_frame(1) by (metis set_map)
  ultimately show ?thesis
    using cu u(3) deliverable_inv [OF inv assms(2)] by (auto simp: counts_deliveries_def ids)
qed

lemma run_counts: "outbox_run s ds t \<Longrightarrow> db_commands s = [] \<Longrightarrow> counts_deliveries ds t"
proof (induction rule: outbox_run.induct)
  case (start s)
  then show ?case by (simp add: counts_deliveries_def command_inv_def)
next
  case (acks s ds t a now ks outs u)
  then show ?case
    using counts_progress [of ds t u] apply_acks_progress [of t a now ks] apply_acks_next [of a now ks t]
    by simp
next
  case (other s ds t u)
  then show ?case by (simp add: counts_deliveries_def command_inv_def)
qed (blast intro: counts_enqueue counts_poll)+

text \<open>
  C16. No command reaches a terminal more than three times: in every run of the outbox from an empty
  command table, however enqueues, polls, acknowledgements and the rest of the copier interleave,
  each command id is handed out at most \<^const>\<open>MAX_ATTEMPTS\<close> times.
\<close>

theorem outbox_delivers_at_most_three_times:
  assumes "outbox_run s ds t" "db_commands s = []"
  shows "int (count_list ds i) \<le> MAX_ATTEMPTS"
proof (cases "i \<in> set ds")
  case True
  with run_counts [OF assms] show ?thesis
    by (auto simp: counts_deliveries_def command_inv_def command_ok_def)
qed (simp add: count_list_0_iff MAX_ATTEMPTS_def)

definition witness_db :: db where
  "witness_db = empty_db\<lparr>db_accounts := [\<lparr>a_account_id = 7, a_org_id = 2, a_connection_id = None,
      a_trader_login = 0, a_is_live = False, a_role = slave, a_enabled = True, a_multiplier = 1,
      a_status = OK, a_last_error = None, a_platform = mt5\<rparr>],
    db_orgs := [\<lparr>o_org_id = 2, o_name = ''org'', o_copying_enabled = True, o_dry_run = False,
      o_settings_version = 1\<rparr>]\<rparr>"

theorem outbox_delivers_at_most_three_times_witness:
  "\<exists>ds t. outbox_run witness_db ds t \<and> ds = [1] \<and> int (count_list ds 1) \<le> MAX_ATTEMPTS"
proof -
  obtain u c where u: "enqueue_mt5_command 7 2 ''close'' [] None 0 witness_db = Inr (1, u)"
    and rows: "db_commands u = [c]"
    and c: "c_id c = 1" "c_account c = 7" "c_kind c = ''close''" "c_status c = Queued"
    by (simp add: enqueue_mt5_command_def COMMAND_KINDS_def witness_db_def empty_db_def Let_def)
  obtain out t where t: "deliverable 7 0 0 u = (out, t)" by (cases "deliverable 7 0 0 u")
  have "db_commands (snd (fail_stale_mt5_opens 7 x 0 u)) = [c]" for x
    using rows c by (simp add: fail_stale_mt5_opens_def update_where_def stale_open_def Let_def)
  then have "mt5_commands_open 7 (fold (log_expired 7) is (snd (fail_stale_mt5_opens 7 x 0 u))) = [c]" for "is" x
    using c by (simp add: mt5_commands_open_def is_open_def)
  then have "out = map command_of_row (filter (\<lambda>c. \<not> awaiting_ack 0 c \<and> \<not> exhausted c) [c])"
    using t unfolding deliverable_def case_prod_unfold Let_def deliver_rows_out by simp
  then have "map cmd_id out = [1]"
    using c by (simp add: awaiting_ack_def exhausted_def command_of_row_def)
  then have run: "outbox_run witness_db [1] t"
    using outbox_run.poll [OF outbox_run.enqueue [OF outbox_run.start u] t] by simp
  from outbox_delivers_at_most_three_times [OF run, of 1] run show ?thesis
    by (auto simp: witness_db_def empty_db_def)
qed

section \<open>Acknowledgements\<close>

lemma settles_progress: "progress c d \<Longrightarrow> settles i a d \<Longrightarrow> settles i a c"
  by (auto simp: progress_def settles_def)

lemma no_settles_progress:
  "rows_progress s t \<Longrightarrow> \<forall>c \<in> set (db_commands s). \<not> settles i a c \<Longrightarrow>
   \<forall>c \<in> set (db_commands t). \<not> settles i a c"
  using rows_progress_from settles_progress by blast

lemma complete_settled: "\<forall>c \<in> set (db_commands (snd (complete_mt5_command i ok res t a s))). \<not> settles i a c"
proof -
  have "\<not> settles i a (c\<lparr>c_status := st, c_result := Some res, c_done_at := Some t\<rparr>)"
    if "st = Done \<or> st = CmdFailed" for c :: command_row and st
    using that by (auto simp: settles_def is_open_def)
  then show ?thesis by (auto simp: complete_mt5_command_def set_update_where)
qed

lemma complete_none:
  "\<forall>c \<in> set (db_commands s). \<not> settles i a c \<Longrightarrow> complete_mt5_command i ok res t a s = (None, s)"
  by (auto simp: complete_mt5_command_def find_None_iff update_where_none)

lemma apply_acks_none:
  "\<forall>k \<in> set ks. \<forall>c \<in> set (db_commands s). \<not> settles (ak_command_id k) (Some a) c \<Longrightarrow>
   apply_acks a now ks s = ([], s)"
  by (induction ks) (simp_all add: complete_none)

lemma apply_acks_settled:
  "k \<in> set ks \<Longrightarrow> c \<in> set (db_commands (snd (apply_acks a now ks s))) \<Longrightarrow>
   \<not> settles (ak_command_id k) (Some a) c"
proof (induction ks arbitrary: s)
  case (Cons l ks)
  let ?s1 = "snd (complete_mt5_command (ak_command_id l) (ak_ok l) (ack_result l) (ts_of now) (Some a) s)"
  have tl: "c \<in> set (db_commands (snd (apply_acks a now ks ?s1)))"
    using Cons.prems(2) by (auto simp: case_prod_unfold Let_def split: option.splits)
  show ?case
  proof (cases "k \<in> set ks")
    case True
    then show ?thesis using Cons.IH tl by blast
  next
    case False
    then have "k = l" using Cons.prems(1) by simp
    then show ?thesis
      using no_settles_progress [OF apply_acks_progress complete_settled] tl by blast
  qed
qed simp

text \<open>
  Re-acknowledging is harmless: applying a batch of acknowledgements a second time, at any later
  time, yields no outcome and changes nothing.
\<close>

lemma outbox_acks_idempotent:
  assumes "apply_acks a now ks s = (out, t)"
  shows "apply_acks a later ks t = ([], t)"
  by (rule apply_acks_none) (use apply_acks_settled [of _ ks _ a now s] assms in auto)

text \<open>
  A poll hands out commands oldest first, never a settled one and never another account's: the
  delivered ids are strictly increasing, and each is an open command of the polling account before
  the poll and is marked sent by it.
\<close>

lemma outbox_poll_in_order:
  assumes "command_inv s" "deliverable a now n s = (out, t)"
  shows "sorted_wrt (<) (map cmd_id out) \<and>
    (\<forall>i \<in> set (map cmd_id out). (\<exists>c \<in> set (db_commands s). c_id c = i \<and> c_account c = a \<and> is_open c) \<and>
       (\<exists>c \<in> set (db_commands t). c_id c = i \<and> c_status c = Sent))"
proof -
  from deliverable_parts [OF assms] obtain u rows where u: "rows_progress s u"
    "set rows \<subseteq> set (db_commands u)" "distinct (map c_id rows)" "sorted (map c_id rows)"
    "\<And>c. c \<in> set rows \<Longrightarrow> c_account c = a \<and> is_open c \<and> \<not> awaiting_ack now c \<and> \<not> exhausted c"
    "out = map command_of_row rows" "t = mark_mt5_commands_sent (map c_id rows) (ts_of now) u" by metis
  have ids: "map cmd_id out = map c_id rows" by (simp add: u(6) command_of_row_def)
  have "\<exists>c \<in> set (db_commands s). c_id c = c_id r \<and> c_account c = a \<and> is_open c" if r: "r \<in> set rows" for r
  proof -
    obtain c where "c \<in> set (db_commands s)" "progress c r"
      using rows_progress_from [OF u(1)] u(2) r by blast
    with u(5) [OF r] show ?thesis by (auto simp: progress_def)
  qed
  moreover have "\<exists>c \<in> set (db_commands t). c_id c = c_id r \<and> c_status c = Sent" if "r \<in> set rows" for r
    unfolding u(7) using that u(2) by (intro mark_sent_marks) auto
  ultimately show ?thesis
    using u(3,4) by (auto simp: ids strict_sorted_iff)
qed

end
