(* ===== verification/Normalize.thy ===== *)
theory Normalize
  imports Domain_Models
begin

text \<open>
  From a cTrader execution event to a master event
  (\<^verbatim>\<open>copier/engine/normalize.py\<close>). The protobuf message is a record of the fields the
  copier reads: an optional field that is tested with \<^verbatim>\<open>HasField\<close> is an option, one
  that is read without a test is its value (the protobuf default 0 or the empty string when
  unset). The protobuf enums keep the names the source compares with; every other member is
  the last constructor, which carries its name.
\<close>

section \<open>Execution events\<close>

datatype exec_type =
    ORDER_ACCEPTED | ORDER_FILLED | ORDER_REPLACED | ORDER_CANCELLED | ORDER_EXPIRED
  | ORDER_REJECTED | ORDER_PARTIAL_FILL | Other_Execution string

fun exec_type_name :: "exec_type \<Rightarrow> string" where
  "exec_type_name ORDER_ACCEPTED = ''ORDER_ACCEPTED''"
| "exec_type_name ORDER_FILLED = ''ORDER_FILLED''"
| "exec_type_name ORDER_REPLACED = ''ORDER_REPLACED''"
| "exec_type_name ORDER_CANCELLED = ''ORDER_CANCELLED''"
| "exec_type_name ORDER_EXPIRED = ''ORDER_EXPIRED''"
| "exec_type_name ORDER_REJECTED = ''ORDER_REJECTED''"
| "exec_type_name ORDER_PARTIAL_FILL = ''ORDER_PARTIAL_FILL''"
| "exec_type_name (Other_Execution n) = n"

datatype order_type =
    MARKET | MARKET_RANGE | LIMIT_ORDER | STOP_ORDER | STOP_LOSS_TAKE_PROFIT | Other_Order string

fun order_type_name :: "order_type \<Rightarrow> string" where
  "order_type_name MARKET = ''MARKET''"
| "order_type_name MARKET_RANGE = ''MARKET_RANGE''"
| "order_type_name LIMIT_ORDER = ''LIMIT''"
| "order_type_name STOP_ORDER = ''STOP''"
| "order_type_name STOP_LOSS_TAKE_PROFIT = ''STOP_LOSS_TAKE_PROFIT''"
| "order_type_name (Other_Order n) = n"

datatype trade_side = Trade_BUY | Trade_SELL | Other_Side int

record proto_order =
  po_order_id :: ident
  po_order_type :: order_type
  po_client_order_id :: "string option"
  po_symbol_id :: ident
  po_trade_side :: trade_side
  po_volume :: int
  po_label :: string
  po_limit_price :: price
  po_stop_price :: price
  po_stop_loss :: price
  po_take_profit :: price
  po_expiration :: "int option"

record proto_deal =
  pd_position_id :: ident
  pd_filled_volume :: int
  pd_execution_price :: "price option"
  pd_execution_ts :: int
  pd_closed_volume :: "int option"

record proto_position =
  pp_position_id :: ident
  pp_volume :: int
  pp_stop_loss :: "price option"
  pp_take_profit :: "price option"
  pp_price :: "price option"

record exec_event =
  x_type :: exec_type
  x_error_code :: string
  x_order :: proto_order
  x_deal :: proto_deal
  x_position :: proto_position

section \<open>Normalisation\<close>

fun proto_side_to_side :: "trade_side \<Rightarrow> side res" where
  "proto_side_to_side Trade_BUY = Inr BUY"
| "proto_side_to_side Trade_SELL = Inr SELL"
| "proto_side_to_side (Other_Side n) = Inl (ValueError (''Unknown trade side: '' @ str_int n))"

definition extract_float_if_nonzero :: "price \<Rightarrow> price option" where
  "extract_float_if_nonzero v = (if v \<noteq> 0 then Some v else None)"

definition pending_kind :: "order_type \<Rightarrow> pending_type" where
  "pending_kind t = (if t = LIMIT_ORDER then LIMIT else STOP)"

definition pending_price :: "proto_order \<Rightarrow> price" where
  "pending_price q = (if po_order_type q = LIMIT_ORDER then po_limit_price q else po_stop_price q)"

definition normalize_fill :: "exec_event \<Rightarrow> symbol_info \<Rightarrow> master_event option res" where
  "normalize_fill evt info =
     (case pd_closed_volume (x_deal evt) of
        Some closed_volume \<Rightarrow>
          Inr (Some (MasterPositionClosed (pd_position_id (x_deal evt)) (si_name info) closed_volume
            (pp_volume (x_position evt))))
      | None \<Rightarrow>
          if po_order_type (x_order evt) = LIMIT_ORDER \<or> po_order_type (x_order evt) = STOP_ORDER
          then Inr (Some (MasterPendingFilled (po_order_id (x_order evt)) (pd_position_id (x_deal evt))))
          else if po_order_type (x_order evt) = MARKET \<or> po_order_type (x_order evt) = MARKET_RANGE
          then res_bind (proto_side_to_side (po_trade_side (x_order evt))) (\<lambda>sd.
            Inr (Some (MasterPositionOpened (pd_position_id (x_deal evt)) (si_name info) sd
              (pd_filled_volume (x_deal evt)) (si_lot_size info)
              (pp_stop_loss (x_position evt)) (pp_take_profit (x_position evt))
              (case pp_price (x_position evt) of
                 Some p \<Rightarrow> Some p
               | None \<Rightarrow> pd_execution_price (x_deal evt)))))
          else Inr None)"

definition normalize_accepted :: "proto_order \<Rightarrow> symbol_info \<Rightarrow> master_event option res" where
  "normalize_accepted q info =
     (if po_order_type q = LIMIT_ORDER \<or> po_order_type q = STOP_ORDER
      then res_bind (proto_side_to_side (po_trade_side q)) (\<lambda>sd.
        Inr (Some (MasterPendingPlaced (po_order_id q) (si_name info) sd
          (pending_kind (po_order_type q)) (po_volume q) (si_lot_size info) (pending_price q)
          (extract_float_if_nonzero (po_stop_loss q)) (extract_float_if_nonzero (po_take_profit q))
          (po_expiration q))))
      else Inr None)"

definition normalize_replaced :: "proto_order \<Rightarrow> symbol_info \<Rightarrow> master_event option" where
  "normalize_replaced q info =
     (if po_order_type q = LIMIT_ORDER \<or> po_order_type q = STOP_ORDER
      then Some (MasterPendingReplaced (po_order_id q) (si_name info) (si_lot_size info)
        (pending_kind (po_order_type q)) (po_volume q) (pending_price q)
        (extract_float_if_nonzero (po_stop_loss q)) (extract_float_if_nonzero (po_take_profit q)))
      else None)"

definition normalize :: "exec_event \<Rightarrow> (ident, symbol_info) dict \<Rightarrow> master_event option res" where
  "normalize evt symbols_by_id =
     (if x_type evt = ORDER_REJECTED
      then Inr (Some (MasterRejected (if x_error_code evt \<noteq> [] then x_error_code evt
                                      else exec_type_name (x_type evt))))
      else case map_of symbols_by_id (po_symbol_id (x_order evt)) of
        None \<Rightarrow> Inr None
      | Some info \<Rightarrow>
          if po_order_type (x_order evt) = STOP_LOSS_TAKE_PROFIT
          then Inr (if x_type evt = ORDER_ACCEPTED \<or> x_type evt = ORDER_REPLACED
                       \<or> x_type evt = ORDER_CANCELLED
                    then Some (MasterPositionSLTPAmended (pp_position_id (x_position evt))
                      (pp_stop_loss (x_position evt)) (pp_take_profit (x_position evt)))
                    else None)
          else if x_type evt = ORDER_FILLED \<or> x_type evt = ORDER_PARTIAL_FILL
          then normalize_fill evt info
          else if x_type evt = ORDER_ACCEPTED then normalize_accepted (x_order evt) info
          else if x_type evt = ORDER_REPLACED then Inr (normalize_replaced (x_order evt) info)
          else if x_type evt = ORDER_CANCELLED \<or> x_type evt = ORDER_EXPIRED
          then Inr (if po_order_type (x_order evt) = LIMIT_ORDER \<or> po_order_type (x_order evt) = STOP_ORDER
                    then Some (MasterPendingCancelled (po_order_id (x_order evt))) else None)
          else Inr None)"

section \<open>Which events are replicated\<close>

definition is_fill :: "exec_event \<Rightarrow> bool" where
  "is_fill evt \<longleftrightarrow> x_type evt = ORDER_FILLED \<or> x_type evt = ORDER_PARTIAL_FILL"

lemmas normalize_defs = normalize_def normalize_fill_def normalize_accepted_def normalize_replaced_def
  is_fill_def

text \<open>
  A position is reported opened exactly for the fills that open one: a fill of a market or
  market-range order of a known symbol that closes nothing. The event then carries the deal's
  position and volume and the position's protection; the entry price is the position's when the
  broker gives it.
\<close>

lemma normalize_opened_iff:
  "normalize evt symbols = Inr (Some (MasterPositionOpened p n sd v lot sl tp ep)) \<longleftrightarrow>
   (\<exists>info. map_of symbols (po_symbol_id (x_order evt)) = Some info \<and> is_fill evt \<and>
     po_order_type (x_order evt) \<in> {MARKET, MARKET_RANGE} \<and> pd_closed_volume (x_deal evt) = None \<and>
     proto_side_to_side (po_trade_side (x_order evt)) = Inr sd \<and> p = pd_position_id (x_deal evt) \<and>
     n = si_name info \<and> lot = si_lot_size info \<and> v = pd_filled_volume (x_deal evt) \<and>
     sl = pp_stop_loss (x_position evt) \<and> tp = pp_take_profit (x_position evt) \<and>
     ep = (case pp_price (x_position evt) of Some q \<Rightarrow> Some q | None \<Rightarrow> pd_execution_price (x_deal evt)))"
  by (auto simp: normalize_defs res_bind_Inr_iff split: option.splits if_splits)

text \<open>
  A close is reported exactly for the fills that close: a fill with close details, of any order
  that is not the position's own protection, of a known symbol; it carries the closed volume of the
  deal and what the position has left.
\<close>

lemma normalize_closed_iff:
  "normalize evt symbols = Inr (Some (MasterPositionClosed p n c r)) \<longleftrightarrow>
   (\<exists>info. map_of symbols (po_symbol_id (x_order evt)) = Some info \<and> is_fill evt \<and>
     po_order_type (x_order evt) \<noteq> STOP_LOSS_TAKE_PROFIT \<and> pd_closed_volume (x_deal evt) = Some c \<and>
     p = pd_position_id (x_deal evt) \<and> n = si_name info \<and> r = pp_volume (x_position evt))"
  by (auto simp: normalize_defs res_bind_Inr_iff split: option.splits if_splits)

text \<open>
  Normalisation raises only for an order whose trade side is neither buy nor sell: with a
  known side every event is classified, and a rejection is always reported, whatever its symbol.
\<close>

lemma normalize_total:
  assumes "po_trade_side (x_order evt) \<in> {Trade_BUY, Trade_SELL}"
  shows "\<exists>r. normalize evt symbols = Inr r \<and>
    (x_type evt = ORDER_REJECTED \<longleftrightarrow> (\<exists>reason. r = Some (MasterRejected reason)))"
  using assms by (auto simp: normalize_defs split: option.splits if_splits)

definition witness_event :: exec_event where
  "witness_event = \<lparr>x_type = ORDER_FILLED, x_error_code = [],
     x_order = \<lparr>po_order_id = 1, po_order_type = MARKET, po_client_order_id = None, po_symbol_id = 3,
       po_trade_side = Trade_SELL, po_volume = 100000, po_label = [], po_limit_price = 0,
       po_stop_price = 0, po_stop_loss = 0, po_take_profit = 0, po_expiration = None\<rparr>,
     x_deal = \<lparr>pd_position_id = 41, pd_filled_volume = 100000, pd_execution_price = Some (11 / 10),
       pd_execution_ts = 0, pd_closed_volume = None\<rparr>,
     x_position = \<lparr>pp_position_id = 41, pp_volume = 100000, pp_stop_loss = None,
       pp_take_profit = None, pp_price = None\<rparr>\<rparr>"

end
