(* ===== verification/Dispatch.thy ===== *)
theory Dispatch
  imports Mt5_Outbox Normalize
begin

text \<open>
  The intent dispatcher (\<^verbatim>\<open>copier/engine/dispatch.py\<close>): building the broker request
  for an intent, the per-organisation gates, and the retry ladder of a send. The wire is
  asynchronous: dispatching hands a request to the throttle, which is recorded as a send task; what
  happens to the task afterwards is the step relation at the end of the theory.

  The protobuf requests are a datatype with one constructor per message type, optional fields as
  options. The side table that ties dropped protection to a request object
  (\<^verbatim>\<open>_DROPPED_PROTECTION\<close>) is the third component of what \<open>build_request\<close> returns.
\<close>

section \<open>Requests\<close>

record new_order_req =
  no_account :: ident
  no_symbol_id :: ident
  no_order_type :: order_type
  no_trade_side :: side
  no_volume :: int
  no_limit_price :: "price option"
  no_stop_price :: "price option"
  no_expiration :: "int option"
  no_stop_loss :: "price option"
  no_take_profit :: "price option"
  no_label :: string
  no_client_order_id :: string
  no_relative_stop_loss :: "int option"
  no_relative_take_profit :: "int option"

datatype request =
    NewOrderReq new_order_req
  | ClosePositionReq ident ident int
  | AmendPositionSLTPReq ident ident "price option" "price option"
  | AmendOrderReq ident ident int "price option" "price option" "price option" "price option"
  | CancelOrderReq ident ident

definition RELATIVE_PRICE_SCALE :: int where "RELATIVE_PRICE_SCALE = 100000"

definition protection_distance :: "price \<Rightarrow> price option \<Rightarrow> bool \<Rightarrow> int option" where
  "protection_distance entry_price target protective_below =
     (case target of
        None \<Rightarrow> None
      | Some t \<Rightarrow>
          let gap = (if protective_below then fl (entry_price - t) else fl (t - entry_price)) in
          if gap \<le> 0 then None
          else let units = round_half_even (fl (gap * of_int RELATIVE_PRICE_SCALE))
               in if 1 \<le> units then Some units else None)"

definition relative_protection ::
  "side \<Rightarrow> price option \<Rightarrow> price option \<Rightarrow> price option \<Rightarrow> int option \<times> int option" where
  "relative_protection side entry_price stop_loss take_profit =
     (case entry_price of
        None \<Rightarrow> (None, None)
      | Some entry \<Rightarrow>
          if entry \<le> 0 then (None, None)
          else (protection_distance entry stop_loss (side = BUY),
                protection_distance entry take_profit (side \<noteq> BUY)))"

definition dropped_protection ::
  "price option \<Rightarrow> price option \<Rightarrow> int option \<Rightarrow> int option \<Rightarrow> string list" where
  "dropped_protection stop_loss take_profit sl_rel tp_rel =
     (if stop_loss \<noteq> None \<and> sl_rel = None then [''stop loss''] else [])
     @ (if take_profit \<noteq> None \<and> tp_rel = None then [''take profit''] else [])"

text \<open>\<^verbatim>\<open>str(type(intent))\<close>.\<close>

definition intent_class :: "slave_intent \<Rightarrow> string" where
  "intent_class i = ''<class '' @ [CHR 0x27] @ ''copier.domain.models.'' @ intent_type i @ [CHR 0x27] @ ''>''"

fun build_request :: "slave_intent \<Rightarrow> (ident \<times> request \<times> string list) res" where
  "build_request (OpenMarket a p i sd v sl tp label n e) =
     (let (sl_rel, tp_rel) = relative_protection sd e sl tp in
      Inr (a, NewOrderReq \<lparr>no_account = a, no_symbol_id = i, no_order_type = MARKET, no_trade_side = sd,
          no_volume = v, no_limit_price = None, no_stop_price = None, no_expiration = None,
          no_stop_loss = None, no_take_profit = None, no_label = label,
          no_client_order_id = ''cm'' @ str_int p @ ''.'' @ str_int a,
          no_relative_stop_loss = sl_rel, no_relative_take_profit = tp_rel\<rparr>,
        dropped_protection sl tp sl_rel tp_rel))"
| "build_request (ClosePosition a q v m) = Inr (a, ClosePositionReq a q v, [])"
| "build_request (AmendPositionSLTP a q sl tp) = Inr (a, AmendPositionSLTPReq a q sl tp, [])"
| "build_request (PlacePending a q i sd t v pr sl tp ex label n) =
     Inr (a, NewOrderReq \<lparr>no_account = a, no_symbol_id = i,
          no_order_type = (if t = LIMIT then LIMIT_ORDER else STOP_ORDER), no_trade_side = sd,
          no_volume = v, no_limit_price = (if t = LIMIT then Some pr else None),
          no_stop_price = (if t = STOP then Some pr else None), no_expiration = ex,
          no_stop_loss = sl, no_take_profit = tp, no_label = label,
          no_client_order_id = ''co'' @ str_int q @ ''.'' @ str_int a,
          no_relative_stop_loss = None, no_relative_take_profit = None\<rparr>, [])"
| "build_request (AmendPending a q t v pr sl tp) =
     Inr (a, AmendOrderReq a q v (if t = LIMIT then Some pr else None) (if t = STOP then Some pr else None) sl tp, [])"
| "build_request (CancelPending a q) = Inr (a, CancelOrderReq a q, [])"
| "build_request i = Inl (ValueError (''Unknown intent type: '' @ intent_class i))"

text \<open>Every field that is set, by name; enums by their names.\<close>

definition opt_field :: "string \<Rightarrow> ('a \<Rightarrow> json) \<Rightarrow> 'a option \<Rightarrow> payload" where
  "opt_field k f v = (case v of None \<Rightarrow> [] | Some x \<Rightarrow> [(k, f x)])"

fun request_summary :: "request \<Rightarrow> payload" where
  "request_summary (NewOrderReq q) =
     [(''message_type'', JStr ''ProtoOANewOrderReq''), (''ctidTraderAccountId'', JInt (no_account q)),
      (''symbolId'', JInt (no_symbol_id q)), (''orderType'', JStr (order_type_name (no_order_type q))),
      (''tradeSide'', JStr (side_value (no_trade_side q))), (''volume'', JInt (no_volume q))]
     @ opt_field ''limitPrice'' JNum (no_limit_price q) @ opt_field ''stopPrice'' JNum (no_stop_price q)
     @ opt_field ''expirationTimestamp'' JInt (no_expiration q)
     @ opt_field ''stopLoss'' JNum (no_stop_loss q) @ opt_field ''takeProfit'' JNum (no_take_profit q)
     @ [(''label'', JStr (no_label q))]
     @ (if no_client_order_id q = [] then [] else [(''clientOrderId'', JStr (no_client_order_id q))])
     @ opt_field ''relativeStopLoss'' JInt (no_relative_stop_loss q)
     @ opt_field ''relativeTakeProfit'' JInt (no_relative_take_profit q)"
| "request_summary (ClosePositionReq a q v) =
     [(''message_type'', JStr ''ProtoOAClosePositionReq''), (''ctidTraderAccountId'', JInt a),
      (''positionId'', JInt q), (''volume'', JInt v)]"
| "request_summary (AmendPositionSLTPReq a q sl tp) =
     [(''message_type'', JStr ''ProtoOAAmendPositionSLTPReq''), (''ctidTraderAccountId'', JInt a),
      (''positionId'', JInt q)] @ opt_field ''stopLoss'' JNum sl @ opt_field ''takeProfit'' JNum tp"
| "request_summary (AmendOrderReq a q v lp stp sl tp) =
     [(''message_type'', JStr ''ProtoOAAmendOrderReq''), (''ctidTraderAccountId'', JInt a),
      (''orderId'', JInt q), (''volume'', JInt v)]
     @ opt_field ''limitPrice'' JNum lp @ opt_field ''stopPrice'' JNum stp
     @ opt_field ''stopLoss'' JNum sl @ opt_field ''takeProfit'' JNum tp"
| "request_summary (CancelOrderReq a q) =
     [(''message_type'', JStr ''ProtoOACancelOrderReq''), (''ctidTraderAccountId'', JInt a),
      (''orderId'', JInt q)]"

section \<open>The dispatcher\<close>

record send_task =
  st_account :: ident
  st_request :: request
  st_attempt :: nat

record engine =
  eng_db :: db
  eng_tasks :: "send_task list"

text \<open>
  What the dispatcher is constructed with: the callback that tells an MT5 account's symbols (both it
  and the outbox may be absent) and the outbox's margin mode callback.
\<close>

record dispatch_env =
  de_mt5_targets :: "(ident \<Rightarrow> (ident, string) dict option) option"
  de_mt5_outbox :: bool
  de_margin_mode :: "(ident \<Rightarrow> string option) option"

text \<open>\<open>with_db\<close> runs a database operation inside the engine's state.\<close>

definition with_db :: "(db \<Rightarrow> db) \<Rightarrow> engine \<Rightarrow> engine" where
  "with_db f e = e\<lparr>eng_db := f (eng_db e)\<rparr>"

definition handle_alert :: "slave_intent \<Rightarrow> ident \<Rightarrow> db \<Rightarrow> db" where
  "handle_alert intent org_id =
     log_event ''slave_action'' ''warning'' [(''message'', JStr (in_message intent))]
       (in_account_opt intent) None (Some org_id) None"

definition handle_link_pending_fill :: "slave_intent \<Rightarrow> ident \<Rightarrow> int \<Rightarrow> db \<Rightarrow> db" where
  "handle_link_pending_fill intent org_id now s =
     (case link_pending_fill (in_master_order intent) (in_account intent) (in_master_position intent) now s of
        Inr s' \<Rightarrow> log_event ''slave_action'' ''info''
          [(''action'', JStr ''link_pending_fill''), (''master_order_id'', JInt (in_master_order intent)),
           (''master_position_id'', JInt (in_master_position intent))]
          (Some (in_account intent)) None (Some org_id) None s'
      | Inl e \<Rightarrow> log_event ''slave_action'' ''error''
          [(''action'', JStr ''link_pending_fill''), (''error'', JExc e)]
          (Some (in_account intent)) None (Some org_id) None s)"

text \<open>\<^verbatim>\<open>intent.symbol_name or None\<close>.\<close>

definition symbol_or_none :: "string \<Rightarrow> string option" where
  "symbol_or_none n = (if n = [] then None else Some n)"

definition create_mapping :: "slave_intent \<Rightarrow> ident \<Rightarrow> ident \<Rightarrow> int \<Rightarrow> db \<Rightarrow> db res" where
  "create_mapping intent account_id org_id now s =
     (case intent of
        OpenMarket _ p _ _ _ _ _ _ n _ \<Rightarrow>
          create_position_mapping p account_id (the (client_order_id_for intent)) org_id (symbol_or_none n) now s
      | PlacePending _ q _ _ _ _ _ _ _ _ _ n \<Rightarrow>
          create_order_mapping q account_id (the (client_order_id_for intent)) org_id (symbol_or_none n) now s
      | _ \<Rightarrow> Inr s)"

definition handle_kill_switch :: "slave_intent \<Rightarrow> ident \<Rightarrow> db \<Rightarrow> db" where
  "handle_kill_switch intent org_id =
     log_event ''slave_action'' ''info''
       [(''skipped'', JStr ''kill_switch''), (''intent_type'', JStr (intent_type intent))]
       (slave_account_of intent) None (Some org_id) None"

definition warn_dropped_protection :: "slave_intent \<Rightarrow> string list \<Rightarrow> ident \<Rightarrow> ident \<Rightarrow> db \<Rightarrow> db" where
  "warn_dropped_protection intent dropped account_id org_id s =
     (if dropped = [] then s
      else log_event ''slave_action'' ''warning''
        [(''action'', JStr ''protection_dropped''), (''master_position_id'', JInt (in_master_position intent)),
         (''dropped'', JList (map JStr dropped)), (''stop_loss'', jnum (in_stop_loss intent)),
         (''take_profit'', jnum (in_take_profit intent)), (''entry_price'', jnum (in_entry_price intent)),
         (''detail'', JStr ''copy placed WITHOUT this protection: the level could not be expressed as a distance from the fill'')]
        (Some account_id) None (Some org_id) None s)"

definition handle_dry_run :: "slave_intent \<Rightarrow> ident \<Rightarrow> int \<Rightarrow> db \<Rightarrow> db res" where
  "handle_dry_run intent org_id now s =
     res_bind (build_request intent) (\<lambda>(account_id, req, dropped).
       res_bind (create_mapping intent account_id org_id now s) (\<lambda>s1.
         Inr (log_event ''slave_action'' ''info''
           [(''dry_run'', JBool True), (''would_send'', JObj (request_summary req)),
            (''note'', JStr ''mapping stays pending, cleaned by resync'')]
           (Some account_id) None (Some org_id) None
           (warn_dropped_protection intent dropped account_id org_id s1))))"

definition log_unmatched_symbol :: "slave_intent \<Rightarrow> ident \<Rightarrow> ident \<Rightarrow> db \<Rightarrow> db" where
  "log_unmatched_symbol intent account_id org_id =
     log_event ''slave_action'' ''warning''
       [(''action'', JStr ''mt5_symbol_unmatched''), (''symbol'', JStr (in_symbol_name intent)),
        (''message'', JStr (''cannot copy to MT5 account '' @ str_int account_id
           @ '': no broker symbol is mapped to '' @ py_repr (in_symbol_name intent)
           @ ''; set the mapping in the account's Details panel''))]
       (Some account_id) None (Some org_id) None"

text \<open>
  The queueing half of \<^verbatim>\<open>_enqueue_for_mt5\<close>, once the broker symbol is known: the mapping,
  the command, the event.
\<close>

definition queue_for_mt5 ::
  "dispatch_env \<Rightarrow> slave_intent \<Rightarrow> ident \<Rightarrow> ident \<Rightarrow> string \<Rightarrow> int \<Rightarrow> db \<Rightarrow> unit res \<times> db" where
  "queue_for_mt5 env intent account_id org_id broker_symbol now s =
     (case create_mapping intent account_id org_id now s of
        Inl e \<Rightarrow> (Inl e, s)
      | Inr s1 \<Rightarrow>
          (case enqueue_intent (de_margin_mode env) intent org_id broker_symbol now s1 of
             (Inl e, s2) \<Rightarrow> (Inl e, s2)
           | (Inr command_id, s2) \<Rightarrow> (Inr (), log_event ''slave_action'' ''info''
               [(''action'', JStr ''mt5_command_queued''), (''command_id'', JInt command_id),
                (''intent_type'', JStr (intent_type intent))]
               (Some account_id) None (Some org_id) None s2)))"

fun needs_symbol :: "slave_intent \<Rightarrow> bool" where
  "needs_symbol (OpenMarket _ _ _ _ _ _ _ _ _ _) = True"
| "needs_symbol (PlacePending _ _ _ _ _ _ _ _ _ _ _ _) = True"
| "needs_symbol _ = False"

definition mt5_targets :: "dispatch_env \<Rightarrow> slave_intent \<Rightarrow> (ident \<times> (ident, string) dict) option" where
  "mt5_targets env intent =
     (case (de_mt5_targets env, slave_account_of intent) of
        (Some targets_of, Some a) \<Rightarrow> if de_mt5_outbox env then map_option (Pair a) (targets_of a) else None
      | _ \<Rightarrow> None)"

text \<open>
  \<open>None\<close>: not an MT5 account, the caller goes on; \<open>Some\<close>: handled here, with what it raised if it
  did. An open whose symbol the account does not map is logged and dropped.
\<close>

definition enqueue_for_mt5 ::
  "dispatch_env \<Rightarrow> slave_intent \<Rightarrow> ident \<Rightarrow> int \<Rightarrow> db \<Rightarrow> (unit res \<times> db) option" where
  "enqueue_for_mt5 env intent org_id now s =
     (case mt5_targets env intent of
        None \<Rightarrow> None
      | Some (account_id, targets) \<Rightarrow>
          Some (case (if needs_symbol intent then map_of targets (in_symbol_id intent) else Some []) of
                  None \<Rightarrow> (Inr (), log_unmatched_symbol intent account_id org_id s)
                | Some broker_symbol \<Rightarrow> queue_for_mt5 env intent account_id org_id broker_symbol now s))"

definition start_send :: "ident \<Rightarrow> request \<Rightarrow> engine \<Rightarrow> engine" where
  "start_send account_id req e =
     e\<lparr>eng_tasks := eng_tasks e @ [\<lparr>st_account = account_id, st_request = req, st_attempt = 0\<rparr>]\<rparr>"

definition handle_live_send ::
  "dispatch_env \<Rightarrow> slave_intent \<Rightarrow> ident \<Rightarrow> int \<Rightarrow> engine \<Rightarrow> unit res \<times> engine" where
  "handle_live_send env intent org_id now e =
     (case enqueue_for_mt5 env intent org_id now (eng_db e) of
        Some (r, s) \<Rightarrow> (r, e\<lparr>eng_db := s\<rparr>)
      | None \<Rightarrow>
          (case build_request intent of
             Inl x \<Rightarrow> (Inl x, e)
           | Inr (account_id, req, dropped) \<Rightarrow>
               (case create_mapping intent account_id org_id now (eng_db e) of
                  Inl x \<Rightarrow> (Inl x, e)
                | Inr s \<Rightarrow> (Inr (), start_send account_id req
                    (e\<lparr>eng_db := warn_dropped_protection intent dropped account_id org_id s\<rparr>)))))"

text \<open>The \<^verbatim>\<open>except\<close> clause of the loop: log, and mark the account degraded.\<close>

definition intent_failed :: "slave_intent \<Rightarrow> ident \<Rightarrow> py_exc \<Rightarrow> db \<Rightarrow> db" where
  "intent_failed intent org_id x s =
     (let s1 = log_event ''slave_action'' ''error''
            [(''action'', JStr ''intent_processing_failed''), (''intent_type'', JStr (intent_type intent)),
             (''error'', JExc x)] (slave_account_of intent) None (Some org_id) None s
      in case slave_account_of intent of
           None \<Rightarrow> s1
         | Some a \<Rightarrow> set_account_status a Degraded (Some (JExc x)) s1)"

definition dispatch_intent ::
  "dispatch_env \<Rightarrow> org_row \<Rightarrow> ident \<Rightarrow> int \<Rightarrow> slave_intent \<Rightarrow> engine \<Rightarrow> engine" where
  "dispatch_intent env org org_id now intent e =
     (let (r, e1) =
        (if is_alert intent then (Inr (), with_db (handle_alert intent org_id) e)
         else if is_link intent then (Inr (), with_db (handle_link_pending_fill intent org_id now) e)
         else if \<not> o_copying_enabled org then (Inr (), with_db (handle_kill_switch intent org_id) e)
         else if o_dry_run org
         then (case handle_dry_run intent org_id now (eng_db e) of
                 Inl x \<Rightarrow> (Inl x, e) | Inr s \<Rightarrow> (Inr (), e\<lparr>eng_db := s\<rparr>))
         else handle_live_send env intent org_id now e)
      in case r of Inr _ \<Rightarrow> e1 | Inl x \<Rightarrow> with_db (intent_failed intent org_id x) e1)"

text \<open>
  \<^verbatim>\<open>dispatch\<close>: the organisation is read once; then every intent is processed. The
  database's clock may move between two intents; the model takes one reading for the batch.
\<close>

definition dispatch ::
  "dispatch_env \<Rightarrow> slave_intent list \<Rightarrow> ident \<Rightarrow> int \<Rightarrow> engine \<Rightarrow> unit res \<times> engine" where
  "dispatch env intents org_id now e =
     (case get_org org_id (eng_db e) of
        Inl x \<Rightarrow> (Inl x, e)
      | Inr org \<Rightarrow> (Inr (), fold (dispatch_intent env org org_id now) intents e))"

section \<open>Sending\<close>

definition RETRY_DELAYS :: "rat list" where "RETRY_DELAYS = [1, 2, 4]"

text \<open>
  What became of a call of \<^verbatim>\<open>send_for_account\<close>: it returned; it raised
  \<^verbatim>\<open>SendNotAttempted\<close>, so nothing left this process; or it failed in a way that leaves
  open whether the broker has the request.
\<close>

datatype send_outcome = SendOk | SendNotAttempted string | SendAmbiguous string

definition on_send_success :: "ident \<Rightarrow> db \<Rightarrow> db" where
  "on_send_success account_id s =
     (let (cleared, s1) = clear_degraded account_id s
      in if cleared
         then log_event ''slave_action'' ''info''
                [(''action'', JStr ''degraded_cleared''), (''reason'', JStr ''successful send'')]
                (Some account_id) None None None s1
         else s1)"

definition on_send_failure :: "send_task \<Rightarrow> send_outcome \<Rightarrow> engine \<Rightarrow> engine" where
  "on_send_failure t outcome e =
     (case outcome of
        SendNotAttempted msg \<Rightarrow>
          if st_attempt t < 3
          then e\<lparr>eng_tasks := eng_tasks e @ [t\<lparr>st_attempt := st_attempt t + 1\<rparr>]\<rparr>
          else with_db (\<lambda>s. log_event ''slave_action'' ''error''
                 [(''action'', JStr ''send_failed_degraded''), (''attempt'', JInt (int (st_attempt t) + 1)),
                  (''error'', JStr msg), (''request_summary'', JObj (request_summary (st_request t)))]
                 (Some (st_account t)) None None None
                 (set_account_status (st_account t) Degraded (Some (JStr msg)) s)) e
      | SendAmbiguous msg \<Rightarrow> with_db (\<lambda>s. log_event ''slave_action'' ''error''
                 [(''action'', JStr ''send_failed_ambiguous_no_retry''), (''error'', JStr msg),
                  (''request_summary'', JObj (request_summary (st_request t)))]
                 (Some (st_account t)) None None None
                 (set_account_status (st_account t) Degraded (Some (JStr msg)) s)) e
      | SendOk \<Rightarrow> e)"

text \<open>One send task runs to its outcome.\<close>

definition run_task :: "send_task \<Rightarrow> send_outcome \<Rightarrow> engine \<Rightarrow> engine" where
  "run_task t outcome e =
     (if outcome = SendOk then with_db (on_send_success (st_account t)) e else on_send_failure t outcome e)"

end
