(* ===== verification/Reconcile.thy ===== *)
theory Reconcile
  imports Dispatch "HOL-Library.List_Lexorder" "HOL-Library.Char_ord"
begin

text \<open>
  Drift detection and its remedies (\<^verbatim>\<open>copier/engine/reconcile.py\<close>): the six checks of
  \<^verbatim>\<open>compute_drift\<close>, each a definition of its own, and the reconciler with its state
  (current drift, dismissed ids, last broker snapshots). The broker is asked through a callback
  \<open>fetch\<close> that gives an account's snapshot; the dismissal table belongs to the database.

  A drift id is the digest of the parts that identify the condition; the digest function
  (the first 12 hex digits of MD5) is the parameter \<open>digest\<close>. Nothing below depends on it being
  collision free unless it says so.
\<close>

definition STALE_PENDING_AFTER_S :: rat where "STALE_PENDING_AFTER_S = 300"

record position_snapshot =
  ps_position_id :: ident
  ps_symbol_id :: ident
  ps_side :: side
  ps_volume :: int
  ps_price :: price
  ps_label :: string
  ps_stop_loss :: "price option"
  ps_take_profit :: "price option"

record order_snapshot =
  os_order_id :: ident
  os_symbol_id :: ident
  os_volume :: int
  os_label :: string
  os_side :: "side option"
  os_order_type :: "string option"
  os_price :: "price option"
  os_stop_loss :: "price option"
  os_take_profit :: "price option"

record drift_item =
  di_id :: string
  di_kind :: string
  di_account_id :: "ident option"
  di_position_id :: "ident option"
  di_order_id :: "ident option"
  di_detail :: string
  di_volume :: "int option"

type_synonym digest = "string \<Rightarrow> string"
type_synonym positions = "(ident, position_snapshot list) dict"

section \<open>Python's truth of an optional id, and its text\<close>

definition truthy :: "int option \<Rightarrow> bool" where
  "truthy x = (case x of None \<Rightarrow> False | Some i \<Rightarrow> i \<noteq> 0)"

definition str_opt :: "int option \<Rightarrow> string" where
  "str_opt x = (case x of None \<Rightarrow> ''None'' | Some i \<Rightarrow> str_int i)"

definition str_opt_string :: "string option \<Rightarrow> string" where
  "str_opt_string x = (case x of None \<Rightarrow> ''None'' | Some s \<Rightarrow> s)"

fun join :: "string \<Rightarrow> string list \<Rightarrow> string" where
  "join sep [] = []"
| "join sep [x] = x"
| "join sep (x # y # ys) = x @ sep @ join sep (y # ys)"

definition stable_id :: "digest \<Rightarrow> string list \<Rightarrow> string" where
  "stable_id digest parts = digest (join ''|'' parts)"

definition signed_volume :: "int \<Rightarrow> string" where
  "signed_volume volume =
     (if volume = 0 then ''flat''
      else (if 0 < volume then ''BUY'' else ''SELL'') @ '' '' @ str_int \<bar>volume\<bar>)"

text \<open>\<^verbatim>\<open>int(label[6:])\<close> of a copy's label.\<close>

definition extract_master_id_from_label :: "string \<Rightarrow> ident option" where
  "extract_master_id_from_label label =
     (if startswith label ''copy:m'' then py_int (drop 6 label) else None)"

section \<open>Indexes\<close>

definition active_with_position :: "mapping_row \<Rightarrow> bool" where
  "active_with_position m \<longleftrightarrow> m_status m = Active \<and> truthy (m_slave_position m)"

definition mappings_by_slave_pos :: "mapping_row list \<Rightarrow> (ident \<times> ident, mapping_row) dict" where
  "mappings_by_slave_pos mappings =
     dict_of (map (\<lambda>m. ((m_slave_account m, the (m_slave_position m)), m))
       (filter active_with_position mappings))"

definition master_mapped :: "mapping_row list \<Rightarrow> ident \<Rightarrow> bool" where
  "master_mapped mappings p \<longleftrightarrow>
     (\<exists>m \<in> set mappings. m_status m = Active \<and> truthy (m_master_position m) \<and> m_master_position m = Some p)"

definition position_at :: "positions \<Rightarrow> ident \<Rightarrow> ident \<Rightarrow> position_snapshot option" where
  "position_at slave_positions account_id position_id =
     (case map_of slave_positions account_id of
        None \<Rightarrow> None
      | Some ps \<Rightarrow> map_of (dict_of (map (\<lambda>p. (ps_position_id p, p)) ps)) position_id)"

definition master_open :: "position_snapshot list \<Rightarrow> ident option \<Rightarrow> bool" where
  "master_open master_positions p \<longleftrightarrow> p \<in> Some ` ps_position_id ` set master_positions"

definition side_of :: "(string, string option) dict \<Rightarrow> mapping_row \<Rightarrow> string option" where
  "side_of sides m =
     (case m_coid m of None \<Rightarrow> None | Some c \<Rightarrow> (case map_of sides c of Some (Some x) \<Rightarrow> Some x | _ \<Rightarrow> None))"

text \<open>The copies inside one net ticket of a netting follower, and the tickets check 6 can compare.\<close>

definition net_rows :: "ident list \<Rightarrow> mapping_row list \<Rightarrow> mapping_row list" where
  "net_rows netting mappings =
     filter (\<lambda>m. active_with_position m \<and> m_slave_account m \<in> set netting) mappings"

definition net_group :: "ident list \<Rightarrow> mapping_row list \<Rightarrow> ident \<times> ident \<Rightarrow> mapping_row list" where
  "net_group netting mappings key =
     filter (\<lambda>m. (m_slave_account m, the (m_slave_position m)) = key) (net_rows netting mappings)"

definition compared :: "ident list \<Rightarrow> (string, string option) dict \<Rightarrow> mapping_row list \<Rightarrow> (ident \<times> ident) list" where
  "compared netting sides mappings =
     filter (\<lambda>key. list_all (\<lambda>m. side_of sides m = Some ''BUY'' \<or> side_of sides m = Some ''SELL'')
                     (net_group netting mappings key))
       (remdups (map (\<lambda>m. (m_slave_account m, the (m_slave_position m))) (net_rows netting mappings)))"

section \<open>The six checks\<close>

definition orphan_item :: "digest \<Rightarrow> ident \<Rightarrow> ident \<Rightarrow> string \<Rightarrow> drift_item" where
  "orphan_item digest account_id position_id detail =
     \<lparr>di_id = stable_id digest [''orphan_slave_position'', str_int account_id, str_int position_id],
      di_kind = ''orphan_slave_position'', di_account_id = Some account_id,
      di_position_id = Some position_id, di_order_id = None, di_detail = detail, di_volume = None\<rparr>"

definition check_orphan ::
  "digest \<Rightarrow> position_snapshot list \<Rightarrow> mapping_row list \<Rightarrow> ident \<Rightarrow> position_snapshot \<Rightarrow> drift_item list" where
  "check_orphan digest master_positions mappings account_id pos =
     (if \<not> startswith (ps_label pos) ''copy:'' then []
      else case map_of (mappings_by_slave_pos mappings) (account_id, ps_position_id pos) of
        None \<Rightarrow> [orphan_item digest account_id (ps_position_id pos) ''Labeled copy:* but no active mapping'']
      | Some m \<Rightarrow>
          if master_open master_positions (m_master_position m) then []
          else [orphan_item digest account_id (ps_position_id pos)
                 (''Mapping exists but master position '' @ str_opt (m_master_position m) @ '' is gone'')])"

definition orphan_slave_positions ::
  "digest \<Rightarrow> position_snapshot list \<Rightarrow> positions \<Rightarrow> mapping_row list \<Rightarrow> ident list \<Rightarrow> drift_item list" where
  "orphan_slave_positions digest master_positions slave_positions mappings enabled =
     concat (map (\<lambda>(account_id, ps).
         if account_id \<in> set enabled
         then concat (map (check_orphan digest master_positions mappings account_id) ps) else [])
       slave_positions)"

definition check_missing ::
  "digest \<Rightarrow> position_snapshot list \<Rightarrow> positions \<Rightarrow> (ident \<times> ident) list \<Rightarrow> ident list \<Rightarrow> mapping_row \<Rightarrow>
   drift_item list" where
  "check_missing digest master_positions slave_positions cmp enabled m =
     (if m_status m = Active \<and> m_slave_account m \<noteq> 0 \<and> truthy (m_slave_position m)
         \<and> m_slave_account m \<in> set enabled
         \<and> (m_slave_account m, the (m_slave_position m)) \<notin> set cmp
         \<and> master_open master_positions (m_master_position m)
         \<and> position_at slave_positions (m_slave_account m) (the (m_slave_position m)) = None
      then [\<lparr>di_id = stable_id digest [''missing_slave_copy'', str_int (m_slave_account m),
                        str_opt (m_slave_position m)],
             di_kind = ''missing_slave_copy'', di_account_id = Some (m_slave_account m),
             di_position_id = m_slave_position m, di_order_id = None,
             di_detail = ''Active mapping but slave position '' @ str_opt (m_slave_position m) @ '' vanished'',
             di_volume = None\<rparr>]
      else [])"

definition unmapped_master_positions ::
  "digest \<Rightarrow> position_snapshot list \<Rightarrow> mapping_row list \<Rightarrow> drift_item list" where
  "unmapped_master_positions digest master_positions mappings =
     map (\<lambda>p. \<lparr>di_id = stable_id digest [''unmapped_master_position'', str_int (ps_position_id p)],
               di_kind = ''unmapped_master_position'', di_account_id = None,
               di_position_id = Some (ps_position_id p), di_order_id = None,
               di_detail = ''Master position '' @ str_int (ps_position_id p) @ '' opened while copier was down'',
               di_volume = None\<rparr>)
       (filter (\<lambda>p. \<not> master_mapped mappings (ps_position_id p)) master_positions)"

text \<open>
  Check 4 looks for a position whose label contains the order's label as a substring, so a position
  of order 12 also counts for order 1.
\<close>

definition order_has_position :: "positions \<Rightarrow> mapping_row \<Rightarrow> bool" where
  "order_has_position slave_positions m =
     list_ex (\<lambda>pos. contains (ps_label pos) (''copy:o'' @ str_opt (m_master_order m)))
       (case map_of slave_positions (m_slave_account m) of None \<Rightarrow> [] | Some ps \<Rightarrow> ps)"

definition check_unfilled :: "digest \<Rightarrow> positions \<Rightarrow> ident list \<Rightarrow> mapping_row \<Rightarrow> drift_item list" where
  "check_unfilled digest slave_positions enabled m =
     (if m_status m = Active \<and> m_slave_account m \<noteq> 0 \<and> truthy (m_slave_order m)
         \<and> truthy (m_master_position m) \<and> m_slave_account m \<in> set enabled
         \<and> \<not> order_has_position slave_positions m
      then [\<lparr>di_id = stable_id digest [''unfilled_slave_order'', str_int (m_slave_account m),
                        str_opt (m_slave_order m)],
             di_kind = ''unfilled_slave_order'', di_account_id = Some (m_slave_account m),
             di_position_id = None, di_order_id = m_slave_order m,
             di_detail = ''Order mapping linked to master fill but no slave position materialized'',
             di_volume = None\<rparr>]
      else [])"

definition age_s :: "int \<Rightarrow> mapping_row \<Rightarrow> rat" where
  "age_s now m = fl (of_int (now - m_created_at m) / 1000000)"

definition check_stale :: "digest \<Rightarrow> ident list \<Rightarrow> int \<Rightarrow> rat \<Rightarrow> mapping_row \<Rightarrow> drift_item list" where
  "check_stale digest enabled now stale_pending_after_s m =
     (if m_status m = Pending \<and> m_slave_account m \<in> set enabled \<and> stale_pending_after_s \<le> age_s now m
      then [\<lparr>di_id = stable_id digest [''stale_pending_copy'', str_int (m_slave_account m),
                        str_opt_string (m_coid m)],
             di_kind = ''stale_pending_copy'', di_account_id = Some (m_slave_account m),
             di_position_id = m_master_position m, di_order_id = m_master_order m,
             di_detail = ''Copy for master ''
               @ (if truthy (m_master_position m) then ''position '' @ str_opt (m_master_position m)
                  else ''order '' @ str_opt (m_master_order m))
               @ '' has been pending for '' @ str_int (py_trunc (age_s now m))
               @ ''s and never activated (client_order_id='' @ str_opt_string (m_coid m)
               @ ''); the slave may be carrying no exposure for it'',
             di_volume = None\<rparr>]
      else [])"

definition expected_net :: "(string, string option) dict \<Rightarrow> mapping_row list \<Rightarrow> int" where
  "expected_net sides rows =
     sum_list (map (\<lambda>m. held_volume m * (if side_of sides m = Some ''BUY'' then 1 else - 1)) rows)"

definition actual_net :: "positions \<Rightarrow> ident \<Rightarrow> ident \<Rightarrow> int" where
  "actual_net slave_positions account_id ticket =
     (case position_at slave_positions account_id ticket of
        None \<Rightarrow> 0
      | Some pos \<Rightarrow> ps_volume pos * (if ps_side pos = BUY then 1 else - 1))"

definition check_net ::
  "digest \<Rightarrow> positions \<Rightarrow> ident list \<Rightarrow> ident list \<Rightarrow> (string, string option) dict \<Rightarrow> mapping_row list \<Rightarrow>
   ident \<times> ident \<Rightarrow> drift_item list" where
  "check_net digest slave_positions enabled netting sides mappings key =
     (let account_id = fst key; ticket = snd key;
          rows = net_group netting mappings key;
          want_signed = expected_net sides rows;
          have_signed = actual_net slave_positions account_id ticket;
          direction = (if 0 < (if want_signed \<noteq> 0 then want_signed else have_signed) then 1 else - 1);
          short = \<bar>want_signed\<bar> - have_signed * direction
      in if account_id \<notin> set enabled \<or> have_signed = want_signed then []
         else [\<lparr>di_id = stable_id digest [''net_volume'', str_int account_id, str_int ticket],
                di_kind = (if 0 < short then ''missing_slave_copy'' else ''orphan_slave_position''),
                di_account_id = Some account_id, di_position_id = Some ticket, di_order_id = None,
                di_detail = ''Netting position '' @ str_int ticket @ '' holds '' @ signed_volume have_signed
                  @ '' but its '' @ str_nat (length rows) @ '' active cop''
                  @ (if length rows = 1 then ''y'' else ''ies'') @ '' sum to '' @ signed_volume want_signed
                  @ '' ('' @ (if 0 < short then ''short'' else ''excess'') @ '' '' @ str_int \<bar>short\<bar>
                  @ '' centilots)'',
                di_volume = Some \<bar>short\<bar>\<rparr>])"

text \<open>
  \<^verbatim>\<open>compute_drift\<close>: the orders it is given play no part, as in the source; enabled and
  netting ids are sets there, lists here.
\<close>

definition drift_items ::
  "digest \<Rightarrow> position_snapshot list \<Rightarrow> positions \<Rightarrow> mapping_row list \<Rightarrow> ident list \<Rightarrow> int \<Rightarrow> rat \<Rightarrow> bool \<Rightarrow>
   ident list \<Rightarrow> (string, string option) dict \<Rightarrow> drift_item list" where
  "drift_items digest master_positions slave_positions mappings enabled now stale_pending_after_s dry_run
       netting sides =
     (let cmp = compared netting sides mappings in
      orphan_slave_positions digest master_positions slave_positions mappings enabled
      @ concat (map (check_missing digest master_positions slave_positions cmp enabled) mappings)
      @ unmapped_master_positions digest master_positions mappings
      @ concat (map (check_unfilled digest slave_positions enabled) mappings)
      @ (if dry_run then [] else concat (map (check_stale digest enabled now stale_pending_after_s) mappings))
      @ concat (map (check_net digest slave_positions enabled netting sides mappings) (sort cmp)))"

definition compute_drift ::
  "digest \<Rightarrow> position_snapshot list \<Rightarrow> positions \<Rightarrow> mapping_row list \<Rightarrow> ident list \<Rightarrow> int \<Rightarrow> rat \<Rightarrow> bool \<Rightarrow>
   ident list \<Rightarrow> (string, string option) dict \<Rightarrow> drift_item list" where
  "compute_drift digest master_positions slave_positions mappings enabled now stale_pending_after_s dry_run
       netting sides =
     sort_key di_id (drift_items digest master_positions slave_positions mappings enabled now
       stale_pending_after_s dry_run netting sides)"

section \<open>Dismissals in the database\<close>

definition load_drift_dismissals :: "ident \<Rightarrow> db \<Rightarrow> string list" where
  "load_drift_dismissals org_id s = map snd (filter (\<lambda>(g, _). g = org_id) (db_dismissals s))"

definition save_drift_dismissal :: "ident \<Rightarrow> string \<Rightarrow> db \<Rightarrow> db" where
  "save_drift_dismissal org_id drift_id s =
     (if (org_id, drift_id) \<in> set (db_dismissals s) then s
      else s\<lparr>db_dismissals := db_dismissals s @ [(org_id, drift_id)]\<rparr>)"

definition prune_drift_dismissals :: "ident \<Rightarrow> string list \<Rightarrow> db \<Rightarrow> db" where
  "prune_drift_dismissals org_id keep s =
     s\<lparr>db_dismissals := filter (\<lambda>(g, i). \<not> (g = org_id \<and> i \<notin> set keep)) (db_dismissals s)\<rparr>"

section \<open>Broker snapshots\<close>

text \<open>
  The reconcile response: positions and orders with the fields the extraction reads (0 stands for an
  unset number). \<open>None\<close> is an answer without positions, an error message of the broker.
\<close>

record reconcile_position =
  rq_position_id :: ident
  rq_symbol_id :: ident
  rq_trade_side :: trade_side
  rq_volume :: int
  rq_price :: price
  rq_label :: string
  rq_stop_loss :: price
  rq_take_profit :: price

record reconcile_order =
  rq_order_id :: ident
  rq_order_symbol_id :: ident
  rq_order_volume :: int
  rq_order_label :: string
  rq_order_trade_side :: trade_side
  rq_order_type :: "order_type option"
  rq_limit_price :: price
  rq_stop_price :: price

definition trigger_price :: "reconcile_order \<Rightarrow> price option" where
  "trigger_price q =
     (if rq_limit_price q \<noteq> 0 then Some (rq_limit_price q)
      else if rq_stop_price q \<noteq> 0 then Some (rq_stop_price q) else None)"

definition order_type_name_opt :: "order_type option \<Rightarrow> string option" where
  "order_type_name_opt t = map_option order_type_name t"

definition extract_snapshot ::
  "(reconcile_position list \<times> reconcile_order list) option \<Rightarrow>
   position_snapshot list \<times> order_snapshot list" where
  "extract_snapshot res =
     (case res of
        None \<Rightarrow> ([], [])
      | Some (ps, qs) \<Rightarrow>
          (map (\<lambda>p. \<lparr>ps_position_id = rq_position_id p, ps_symbol_id = rq_symbol_id p,
              ps_side = (if rq_trade_side p = Trade_BUY then BUY else SELL), ps_volume = rq_volume p,
              ps_price = rq_price p, ps_label = rq_label p,
              ps_stop_loss = (if rq_stop_loss p \<noteq> 0 then Some (rq_stop_loss p) else None),
              ps_take_profit = (if rq_take_profit p \<noteq> 0 then Some (rq_take_profit p) else None)\<rparr>) ps,
           map (\<lambda>q. \<lparr>os_order_id = rq_order_id q, os_symbol_id = rq_order_symbol_id q,
              os_volume = rq_order_volume q, os_label = rq_order_label q,
              os_side = Some (if rq_order_trade_side q = Trade_BUY then BUY else SELL),
              os_order_type = order_type_name_opt (rq_order_type q), os_price = trigger_price q,
              os_stop_loss = None, os_take_profit = None\<rparr>) qs))"

text \<open>
  The two sources of a snapshot: the MT5 registry when it claims the account, else the account's
  client, whose request may fail.
\<close>

type_synonym snapshot = "position_snapshot list \<times> order_snapshot list"

definition fetch_snapshot ::
  "(ident \<Rightarrow> snapshot option) option \<Rightarrow>
   (ident \<Rightarrow> (reconcile_position list \<times> reconcile_order list) option res) \<Rightarrow> ident \<Rightarrow> snapshot res" where
  "fetch_snapshot snapshot_provider send account_id =
     (case (case snapshot_provider of None \<Rightarrow> None | Some f \<Rightarrow> f account_id) of
        Some snap \<Rightarrow> Inr snap
      | None \<Rightarrow> res_bind (send account_id) (\<lambda>r. Inr (extract_snapshot r)))"

section \<open>The reconciler\<close>

record reconciler =
  rec_master_account_id :: ident
  rec_org_id :: ident
  rec_current :: "drift_item list"
  rec_slave_positions :: positions
  rec_master_positions :: "position_snapshot list"
  rec_master_orders :: "order_snapshot list"
  rec_dismissed :: "string list"

definition reconciler_init :: "ident \<Rightarrow> ident \<Rightarrow> db \<Rightarrow> reconciler" where
  "reconciler_init master_account_id org_id s =
     \<lparr>rec_master_account_id = master_account_id, rec_org_id = org_id, rec_current = [],
      rec_slave_positions = [], rec_master_positions = [], rec_master_orders = [],
      rec_dismissed = load_drift_dismissals org_id s\<rparr>"

definition apply_dismissals ::
  "drift_item list \<Rightarrow> reconciler \<Rightarrow> db \<Rightarrow> drift_item list \<times> reconciler \<times> db" where
  "apply_dismissals items rec s =
     (let kept = filter (\<lambda>i. i \<in> di_id ` set items) (rec_dismissed rec);
          s' = (if length kept \<noteq> length (rec_dismissed rec)
                then prune_drift_dismissals (rec_org_id rec) kept s else s)
      in (filter (\<lambda>item. di_id item \<notin> set kept) items, rec\<lparr>rec_dismissed := kept\<rparr>, s'))"

definition log_drift :: "ident \<Rightarrow> drift_item \<Rightarrow> db \<Rightarrow> db" where
  "log_drift org_id item =
     log_event ''drift'' ''warning''
       [(''drift_kind'', JStr (di_kind item)), (''position_id'', jint (di_position_id item)),
        (''order_id'', jint (di_order_id item)), (''detail'', JStr (di_detail item))]
       (di_account_id item) None (Some org_id) None"

definition enabled_slave_ids :: "ident \<Rightarrow> db \<Rightarrow> ident list" where
  "enabled_slave_ids org_id s =
     map a_account_id (filter (\<lambda>a. a_org_id a = org_id \<and> a_role a = slave \<and> a_enabled a) (db_accounts s))"

definition mapping_sides :: "ident list \<Rightarrow> mapping_row list \<Rightarrow> db \<Rightarrow> (string, string option) dict" where
  "mapping_sides netting mappings s =
     dict_of (List.map_filter (\<lambda>m.
       case m_coid m of
         None \<Rightarrow> None
       | Some c \<Rightarrow> if m_status m = Active \<and> c \<noteq> [] \<and> m_slave_account m \<in> set netting
                   then Some (c, mapping_side c s) else None) mappings)"

text \<open>
  The part of \<^verbatim>\<open>run\<close> after the snapshots are in: compute, suppress what was dismissed,
  log what is new.
\<close>

definition conclude_run ::
  "digest \<Rightarrow> (unit \<Rightarrow> ident list) option \<Rightarrow> int \<Rightarrow> ident list \<Rightarrow> reconciler \<Rightarrow> db \<Rightarrow>
   drift_item list \<times> reconciler \<times> db" where
  "conclude_run digest netting_slaves now enabled rec s =
     (let mappings = mapping_rows (Some (rec_org_id rec)) s;
          dry_run = (case get_org (rec_org_id rec) s of Inl _ \<Rightarrow> False | Inr org \<Rightarrow> o_dry_run org);
          netting = (case netting_slaves of None \<Rightarrow> []
                     | Some f \<Rightarrow> filter (\<lambda>a. a \<in> set enabled) (f ()));
          items = compute_drift digest (rec_master_positions rec) (rec_slave_positions rec) mappings enabled
                    now STALE_PENDING_AFTER_S dry_run netting (mapping_sides netting mappings s);
          (shown, rec1, s1) = apply_dismissals items rec s;
          known = di_id ` set (rec_current rec);
          s2 = fold (log_drift (rec_org_id rec)) (filter (\<lambda>i. di_id i \<notin> known) shown) s1
      in (shown, rec1\<lparr>rec_current := shown\<rparr>, s2))"

definition run_reconcile ::
  "digest \<Rightarrow> (ident \<Rightarrow> snapshot res) \<Rightarrow> (unit \<Rightarrow> ident list) option \<Rightarrow> int \<Rightarrow> reconciler \<Rightarrow> db \<Rightarrow>
   drift_item list res \<times> reconciler \<times> db" where
  "run_reconcile digest fetch netting_slaves now rec s =
     (let enabled = enabled_slave_ids (rec_org_id rec) s in
      case fetch (rec_master_account_id rec) of
        Inl e \<Rightarrow> (Inl e, rec, s)
      | Inr (mps, mos) \<Rightarrow>
          let rec1 = rec\<lparr>rec_master_positions := mps, rec_master_orders := mos\<rparr> in
          (case map_res (\<lambda>a. res_bind (fetch a) (\<lambda>(ps, qs). Inr (a, ps))) enabled of
             Inl e \<Rightarrow> (Inl e, rec1, s)
           | Inr slave_positions \<Rightarrow>
               let (items, rec2, s2) = conclude_run digest netting_slaves now enabled
                     (rec1\<lparr>rec_slave_positions := slave_positions\<rparr>) s
               in (Inr items, rec2, s2)))"

section \<open>Remedies\<close>

definition find_current_item :: "string \<Rightarrow> reconciler \<Rightarrow> drift_item option" where
  "find_current_item item_id rec = find (\<lambda>i. di_id i = item_id) (rec_current rec)"

definition lookup_slave_volume :: "ident \<Rightarrow> ident \<Rightarrow> reconciler \<Rightarrow> db \<Rightarrow> int option" where
  "lookup_slave_volume account_id position_id rec s =
     (case position_at (rec_slave_positions rec) account_id position_id of
        Some pos \<Rightarrow> Some (ps_volume pos)
      | None \<Rightarrow>
          (case find (\<lambda>m. m_slave_account m = account_id \<and> m_slave_position m = Some position_id
                         \<and> m_status m = Active) (mapping_rows (Some (rec_org_id rec)) s) of
             None \<Rightarrow> None | Some m \<Rightarrow> m_volume m))"

text \<open>The checks \<^verbatim>\<open>close_orphan\<close> and \<^verbatim>\<open>adopt\<close> share.\<close>

definition orphan_target :: "string \<Rightarrow> reconciler \<Rightarrow> (drift_item \<times> ident \<times> ident) res" where
  "orphan_target item_id rec =
     (case find_current_item item_id rec of
        None \<Rightarrow> Inl (ValueError (''Drift item '' @ item_id @ '' not found''))
      | Some item \<Rightarrow>
          if di_kind item \<noteq> ''orphan_slave_position''
          then Inl (ValueError (''Item '' @ item_id @ '' is not an orphan_slave_position''))
          else if \<not> truthy (di_account_id item) \<or> \<not> truthy (di_position_id item)
          then Inl (ValueError (''Item '' @ item_id @ '' missing account_id or position_id''))
          else Inr (item, the (di_account_id item), the (di_position_id item)))"

definition no_volume :: "ident \<Rightarrow> py_exc" where
  "no_volume position_id = ValueError (''Could not determine volume for position '' @ str_int position_id)"

definition close_orphan ::
  "dispatch_env \<Rightarrow> string \<Rightarrow> int \<Rightarrow> reconciler \<Rightarrow> engine \<Rightarrow> unit res \<times> engine" where
  "close_orphan env item_id now rec e =
     (case orphan_target item_id rec of
        Inl x \<Rightarrow> (Inl x, e)
      | Inr (item, account_id, position_id) \<Rightarrow>
          let volume = (if truthy (di_volume item) then di_volume item
                        else lookup_slave_volume account_id position_id rec (eng_db e))
          in if \<not> truthy volume then (Inl (no_volume position_id), e)
             else dispatch env [ClosePosition account_id position_id (the volume) None] (rec_org_id rec) now e)"

definition adopt :: "string \<Rightarrow> ident \<Rightarrow> int \<Rightarrow> reconciler \<Rightarrow> db \<Rightarrow> db res" where
  "adopt item_id master_position_id now rec s =
     res_bind (orphan_target item_id rec) (\<lambda>(item, account_id, position_id).
       let volume = lookup_slave_volume account_id position_id rec s
       in if \<not> truthy volume then Inl (no_volume position_id)
          else adopt_position_mapping master_position_id account_id position_id (the volume)
                 (rec_org_id rec) now s)"

definition dismiss :: "string \<Rightarrow> reconciler \<Rightarrow> db \<Rightarrow> (reconciler \<times> db) res" where
  "dismiss item_id rec s =
     (case find_current_item item_id rec of
        None \<Rightarrow> Inl (ValueError (''Drift item '' @ item_id @ '' not found''))
      | Some item \<Rightarrow>
          Inr (rec\<lparr>rec_dismissed := (if item_id \<in> set (rec_dismissed rec) then rec_dismissed rec
                                     else rec_dismissed rec @ [item_id]),
                   rec_current := filter (\<lambda>i. di_id i \<noteq> item_id) (rec_current rec)\<rparr>,
               save_drift_dismissal (rec_org_id rec) item_id
                 (log_event ''drift'' ''info''
                   [(''action'', JStr ''dismissed''), (''drift_kind'', JStr (di_kind item)),
                    (''position_id'', jint (di_position_id item)), (''order_id'', jint (di_order_id item)),
                    (''detail'', JStr (di_detail item))]
                   (di_account_id item) None (Some (rec_org_id rec)) None s)))"

end
