(* ===== verification/Mapping_Laws.thy ===== *)
theory Mapping_Laws
  imports Repo_Mappings
begin

text \<open>
  Laws of the mapping table. First ownership: an operation on behalf of one slave account leaves
  every other account's rows alone, and no operation moves a row between organisations. Then
  volumes: what a copy's row records is what was filled less what was closed (the locale
  \<open>volume_ledger\<close>, interpreted on the table's operations), and the FIFO reduction of a netting
  follower conserves volume.
\<close>

section \<open>Ownership\<close>

definition rows_of_others :: "ident \<Rightarrow> db \<Rightarrow> mapping_row list" where
  "rows_of_others account_id s = filter (\<lambda>r. m_slave_account r \<noteq> account_id) (db_mappings s)"

lemma rows_of_others_cong: "db_mappings t = db_mappings s \<Longrightarrow> rows_of_others a t = rows_of_others a s"
  by (simp add: rows_of_others_def)

lemma update_mappings_others:
  assumes "update_mappings P f msg s = Inr s'"
    and "\<And>r. P r \<Longrightarrow> m_slave_account r = a" "\<And>r. m_slave_account (f r) = m_slave_account r"
  shows "rows_of_others a s' = rows_of_others a s"
  using assms
  by (auto simp: update_mappings_def rows_of_others_def split: if_splits
      intro!: update_where_filter_frame)

lemma insert_mapping_others:
  "insert_mapping r s = Inr s' \<Longrightarrow> m_slave_account r = a \<Longrightarrow> rows_of_others a s' = rows_of_others a s"
  by (auto simp: insert_mapping_def rows_of_others_def split: if_splits)

lemma mapping_ops_others:
  "create_position_mapping p a c g y now s = Inr s' \<Longrightarrow> rows_of_others a s' = rows_of_others a s"
  "create_order_mapping q a c g y now s = Inr s' \<Longrightarrow> rows_of_others a s' = rows_of_others a s"
  "adopt_position_mapping p a sp v g now s = Inr s' \<Longrightarrow> rows_of_others a s' = rows_of_others a s"
  "activate_position_mapping a c sp v fp now s = Inr s' \<Longrightarrow> rows_of_others a s' = rows_of_others a s"
  "fail_mapping a c err now s = Inr s' \<Longrightarrow> rows_of_others a s' = rows_of_others a s"
  "activate_order_mapping a c so now s = Inr s' \<Longrightarrow> rows_of_others a s' = rows_of_others a s"
  "close_order_mapping a so now s = Inr s' \<Longrightarrow> rows_of_others a s' = rows_of_others a s"
  "link_pending_fill q a p now s = Inr s' \<Longrightarrow> rows_of_others a s' = rows_of_others a s"
  "activate_pending_fill a so sp v fp now s = Inr s' \<Longrightarrow> rows_of_others a s' = rows_of_others a s"
  unfolding create_position_mapping_def create_order_mapping_def adopt_position_mapping_def
    activate_position_mapping_def fail_mapping_def activate_order_mapping_def
    close_order_mapping_def link_pending_fill_def activate_pending_fill_def new_mapping_def
  by (auto split: if_splits elim!: insert_mapping_others update_mappings_others)

lemma reduce_others: "rows_of_others a (reduce_position_mapping a sp v c now s) = rows_of_others a s"
  unfolding rows_of_others_def reduce_position_mapping_def
  by (auto intro!: update_where_filter_frame)

section \<open>One copy's volume\<close>

locale volume_ledger =
  fixes inv :: "'s \<Rightarrow> bool" and vol :: "'s \<Rightarrow> int"
    and fill :: "int \<Rightarrow> 's \<Rightarrow> 's" and close :: "int \<Rightarrow> 's \<Rightarrow> 's"
  assumes vol_nonneg: "inv s \<Longrightarrow> 0 \<le> vol s"
    and fill_vol: "inv s \<Longrightarrow> 0 \<le> v \<Longrightarrow> vol (fill v s) = vol s + v"
    and fill_inv: "inv s \<Longrightarrow> 0 \<le> v \<Longrightarrow> inv (fill v s)"
    and close_vol: "inv s \<Longrightarrow> 0 \<le> v \<Longrightarrow> vol (close v s) = max (vol s - v) 0"
    and close_inv: "inv s \<Longrightarrow> 0 \<le> v \<Longrightarrow> inv (close v s)"
begin

text \<open>A history of fills (positive) and closes (negative), oldest first.\<close>

primrec play :: "int list \<Rightarrow> 's \<Rightarrow> 's" where
  "play [] s = s"
| "play (v # vs) s = play vs (if 0 \<le> v then fill v s else close (- v) s)"

lemma play_inv: "inv s \<Longrightarrow> inv (play vs s)"
  by (induction vs arbitrary: s) (simp_all add: fill_inv close_inv)

lemma play_step: "inv s \<Longrightarrow> vol (if 0 \<le> v then fill v s else close (- v) s) = max (vol s + v) 0"
  using vol_nonneg [of s] by (simp add: fill_vol close_vol)

text \<open>As long as no close exceeds what is held, the recorded volume is the running sum.\<close>

lemma play_net:
  assumes "inv s" and "\<And>k. k \<le> length vs \<Longrightarrow> 0 \<le> vol s + sum_list (take k vs)"
  shows "vol (play vs s) = vol s + sum_list vs"
  using assms
proof (induction vs arbitrary: s)
  case (Cons v vs)
  let ?s = "if 0 \<le> v then fill v s else close (- v) s"
  have i: "inv ?s" using Cons.prems(1) by (simp add: fill_inv close_inv)
  have "0 \<le> vol s + v" using Cons.prems(2) [of 1] by simp
  then have v: "vol ?s = vol s + v" using play_step [OF Cons.prems(1), of v] by simp
  have "0 \<le> vol ?s + sum_list (take k vs)" if "k \<le> length vs" for k
    using Cons.prems(2) [of "Suc k"] that unfolding v by simp
  then have "vol (play vs ?s) = vol ?s + sum_list vs" by (rule Cons.IH [OF i])
  then show ?case unfolding play.simps v by simp
qed simp

lemma play_nonneg: "inv s \<Longrightarrow> 0 \<le> vol (play vs s)"
  using play_inv vol_nonneg by blast

end

text \<open>
  The row of one copy, found by its client order id and its slave account, and what the slave's
  executions do to it.
\<close>

definition copy_row :: "ident \<Rightarrow> string \<Rightarrow> db \<Rightarrow> mapping_row option" where
  "copy_row account_id coid s =
     find (\<lambda>r. m_coid r = Some coid \<and> m_slave_account r = account_id) (db_mappings s)"

definition copy_volume :: "ident \<Rightarrow> string \<Rightarrow> db \<Rightarrow> int" where
  "copy_volume account_id coid s =
     (case copy_row account_id coid s of None \<Rightarrow> 0 | Some r \<Rightarrow> held_volume r)"

definition copy_inv :: "ident \<Rightarrow> string \<Rightarrow> db \<Rightarrow> bool" where
  "copy_inv account_id coid s \<longleftrightarrow>
     (\<exists>r. copy_row account_id coid s = Some r \<and> 0 \<le> held_volume r \<and> m_status r \<noteq> Failed \<and>
          (m_status r \<noteq> Active \<longrightarrow> held_volume r = 0))"

definition slave_filled ::
  "ident \<Rightarrow> string \<Rightarrow> ident \<Rightarrow> price option \<Rightarrow> int \<Rightarrow> int \<Rightarrow> db \<Rightarrow> db" where
  "slave_filled account_id coid position_id fill_price now volume s =
     (case activate_position_mapping account_id coid position_id volume fill_price now s of
        Inl _ \<Rightarrow> s | Inr s' \<Rightarrow> s')"

definition slave_closed :: "ident \<Rightarrow> string \<Rightarrow> ident \<Rightarrow> int \<Rightarrow> int \<Rightarrow> db \<Rightarrow> db" where
  "slave_closed account_id coid position_id now volume s =
     reduce_position_mapping account_id position_id volume (Some coid) now s"

lemma copy_row_matching:
  "copy_row a c s = Some r \<Longrightarrow>
   matching (\<lambda>r. m_coid r = Some c \<and> m_slave_account r = a) (db_mappings s) \<noteq> 0"
  unfolding copy_row_def by (drule find_SomeD) auto

lemma copy_row_filled:
  assumes "copy_row a c s = Some r"
  shows "copy_row a c (slave_filled a c p fp now v s) = Some (r\<lparr>m_slave_position := Some p,
     m_volume := Some (held_volume r + v), m_fill_price := coalesce (m_fill_price r) fp,
     m_status := Active, m_updated_at := now\<rparr>)"
  using assms copy_row_matching [OF assms]
  by (simp add: slave_filled_def activate_position_mapping_def update_mappings_def copy_row_def
      find_update_where held_volume_def del: matching_0_iff)

lemma copy_row_closed:
  assumes "copy_row a c s = Some r"
  shows "copy_row a c (slave_closed a c p now v s) = Some
    (if m_status r = Active
     then r\<lparr>m_volume := Some (case m_volume r of None \<Rightarrow> 0 | Some w \<Rightarrow> max (w - v) 0),
            m_status := (case m_volume r of None \<Rightarrow> Active | Some w \<Rightarrow> if w - v \<le> 0 then Closed else Active),
            m_updated_at := now\<rparr>
     else r)"
proof -
  have "find Q (update_where P f rows) = map_option (\<lambda>r. if P r then f r else r) (find Q rows)"
    if "\<And>r. Q (f r) = Q r" for P Q and f :: "mapping_row \<Rightarrow> mapping_row" and rows
    using that by (induction rows) (auto simp: update_where_def)
  then show ?thesis
    using assms find_SomeD [OF assms [unfolded copy_row_def]]
    by (auto simp: slave_closed_def reduce_position_mapping_def copy_row_def)
qed

interpretation copy: volume_ledger "copy_inv a c" "copy_volume a c"
    "slave_filled a c p fp now" "slave_closed a c p now"
  for a c p fp now
proof
  fix s v
  assume i: "copy_inv a c s"
  then obtain r where r: "copy_row a c s = Some r" "0 \<le> held_volume r" "m_status r \<noteq> Failed"
    "m_status r \<noteq> Active \<Longrightarrow> held_volume r = 0"
    by (auto simp: copy_inv_def)
  show "0 \<le> copy_volume a c s" using r by (simp add: copy_volume_def)
  assume v: "(0::int) \<le> v"
  note filled = copy_row_filled [OF r(1), of p fp now v] and closed = copy_row_closed [OF r(1), of p now v]
  show "copy_volume a c (slave_filled a c p fp now v s) = copy_volume a c s + v"
    using r filled by (simp add: copy_volume_def held_volume_def)
  show "copy_inv a c (slave_filled a c p fp now v s)"
    using r filled v by (simp add: copy_inv_def held_volume_def)
  show "copy_volume a c (slave_closed a c p now v s) = max (copy_volume a c s - v) 0"
    using r closed v by (auto simp: copy_volume_def held_volume_def split: option.splits)
  show "copy_inv a c (slave_closed a c p now v s)"
    using r closed v by (auto simp: copy_inv_def held_volume_def split: option.splits)
qed

section \<open>Netting followers: FIFO reduction\<close>

text \<open>A touched id belongs to exactly one row of the table: the row the walk saw.\<close>

lemma touched_row_of:
  assumes "mapping_inv s" "r \<in> set (db_mappings s)"
    "find (\<lambda>t. t_id t = m_id r) (fifo_walk n (fifo_rows a p s)) = Some t"
  shows "touches r t \<and> r \<in> set (fifo_rows a p s)"
proof -
  from find_SomeD [OF assms(3)] have t: "t_id t = m_id r" "t \<in> set (fifo_walk n (fifo_rows a p s))"
    by auto
  from fifo_walk_sound [OF t(2)] obtain q where q: "q \<in> set (fifo_rows a p s)" "touches q t" by auto
  then have "q \<in> set (db_mappings s)" "m_id q = m_id r"
    using t by (auto simp: fifo_rows_def touches_def)
  then have "q = r" using assms(1,2) by (auto simp: mapping_inv_def distinct_map inj_on_def)
  with q show ?thesis by simp
qed

lemma reduce_fifo_inv [inv_intros, intro]:
  assumes "mapping_inv s"
  shows "mapping_inv (snd (reduce_position_mappings_fifo a p n now s))"
proof -
  let ?ts = "fifo_walk n (fifo_rows a p s)"
  define f where "f r = (case find (\<lambda>t. t_id t = m_id r) ?ts of None \<Rightarrow> r
     | Some t \<Rightarrow> r\<lparr>m_volume := Some (t_volume t), m_status := t_status t, m_updated_at := now\<rparr>)" for r :: mapping_row
  have rows: "db_mappings (snd (reduce_position_mappings_fifo a p n now s)) = map f (db_mappings s)"
    using apply_touched_pass [OF fifo_touched_distinct [OF assms]]
    by (simp add: reduce_position_mappings_fifo_def Let_def f_def)
  have keep: "m_id (f r) = m_id r" "m_coid (f r) = m_coid r" for r
    by (auto simp: f_def split: option.splits)
  have ok: "row_ok (f r)" if "r \<in> set (db_mappings s)" for r
  proof (cases "find (\<lambda>t. t_id t = m_id r) ?ts")
    case None
    then show ?thesis using assms that by (simp add: f_def mapping_inv_def)
  next
    case (Some t)
    from touched_row_of [OF assms that Some] have "m_status r = Active"
      by (simp add: fifo_rows_def)
    with Some show ?thesis using assms that by (auto simp: f_def mapping_inv_def row_ok_def)
  qed
  have "map m_id (map f (db_mappings s)) = map m_id (db_mappings s)"
    "map m_coid (map f (db_mappings s)) = map m_coid (db_mappings s)" by (simp_all add: keep comp_def)
  then show ?thesis
    using assms ok unfolding mapping_inv_def rows
    by (auto simp: keep reduce_position_mappings_fifo_def Let_def simp del: map_map)
qed

text \<open>The volume an account's active rows attribute to one broker ticket.\<close>

definition ticket_volume :: "ident \<Rightarrow> ident \<Rightarrow> db \<Rightarrow> int" where
  "ticket_volume account_id position_id s =
     sum_list (map held_volume (filter (\<lambda>r. m_slave_account r = account_id
       \<and> m_slave_position r = Some position_id \<and> m_status r = Active) (db_mappings s)))"

lemma ticket_volume_fifo_rows: "ticket_volume a p s = sum_list (map held_volume (fifo_rows a p s))"
proof -
  have "mset (map held_volume (fifo_rows a p s)) = mset (map held_volume (filter (\<lambda>r. m_slave_account r = a
       \<and> m_slave_position r = Some p \<and> m_status r = Active) (db_mappings s)))"
    by (simp add: fifo_rows_def)
  from arg_cong [OF this, of sum_mset] show ?thesis
    by (simp add: ticket_volume_def sum_mset_sum_list del: mset_map)
qed

text \<open>Summed over distinct rows, what was taken from each is what the walk closed in total.\<close>

lemma sum_taken:
  assumes "distinct (map m_id rows)" "distinct (map t_id ts)"
    and "t_id ` set ts \<subseteq> m_id ` set rows"
  shows "(\<Sum>r\<leftarrow>rows. case find (\<lambda>t. t_id t = m_id r) ts of None \<Rightarrow> 0 | Some t \<Rightarrow> t_closed_volume t)
         = sum_list (map t_closed_volume ts)"
  using assms(2,3)
proof (induction ts)
  case Nil
  then show ?case by (induction rows) auto
next
  case (Cons t ts)
  let ?g = "\<lambda>ts r. case find (\<lambda>t. t_id t = m_id r) ts of None \<Rightarrow> 0 | Some t \<Rightarrow> t_closed_volume t"
  obtain q where q: "q \<in> set rows" "m_id q = t_id t" using Cons.prems(2) by fastforce
  have other: "find (\<lambda>u. t_id u = t_id t) ts = None"
    using Cons.prems(1) by (auto simp: find_None_iff image_iff)
  have "?g (t # ts) r = ?g ts r + (if r = q then t_closed_volume t else 0)" if "r \<in> set rows" for r
    using q other assms(1) that by (auto simp: distinct_map inj_on_def)
  then have "(\<Sum>r\<leftarrow>rows. ?g (t # ts) r) = (\<Sum>r\<leftarrow>rows. ?g ts r + (if r = q then t_closed_volume t else 0))"
    by (metis (no_types, lifting) map_eq_conv)
  also have "\<dots> = (\<Sum>r\<leftarrow>rows. ?g ts r) + (\<Sum>r\<leftarrow>rows. if r = q then t_closed_volume t else 0)"
    by (simp add: sum_list_addf)
  also have "(\<Sum>r\<leftarrow>rows. if r = q then t_closed_volume t else 0) = t_closed_volume t"
    using q(1) assms(1)
    by (subst sum_list_distinct_conv_sum_set) (auto simp: distinct_map)
  finally show ?case using Cons by simp
qed

lemma touched_ids:
  "t_id ` set (fifo_walk n (fifo_rows a p s)) \<subseteq> m_id ` set (fifo_rows a p s)"
  by (auto simp: touches_def dest!: fifo_walk_sound)

text \<open>What a touched row still holds, active or not, is what it held less what was taken.\<close>

lemma fifo_ticket_volume:
  assumes "mapping_inv s"
  shows "ticket_volume a p (snd (reduce_position_mappings_fifo a p n now s))
     = ticket_volume a p s - sum_list (map t_closed_volume (fifo_walk n (fifo_rows a p s)))"
proof -
  let ?ts = "fifo_walk n (fifo_rows a p s)"
  let ?P = "\<lambda>r. m_slave_account r = a \<and> m_slave_position r = Some p \<and> m_status r = Active"
  let ?f = "\<lambda>r. case find (\<lambda>t. t_id t = m_id r) ?ts of None \<Rightarrow> r
     | Some t \<Rightarrow> r\<lparr>m_volume := Some (t_volume t), m_status := t_status t, m_updated_at := now\<rparr>"
  let ?g = "\<lambda>r. case find (\<lambda>t. t_id t = m_id r) ?ts of None \<Rightarrow> 0 | Some t \<Rightarrow> t_closed_volume t"
  have row: "(if ?P (?f r) then held_volume (?f r) else 0) = (if ?P r then held_volume r - ?g r else 0)"
    if "r \<in> set (db_mappings s)" for r
  proof (cases "find (\<lambda>t. t_id t = m_id r) ?ts")
    case (Some t)
    with touched_row_of [OF assms that Some] show ?thesis
      by (auto simp: touches_def fifo_rows_def held_volume_def)
  qed simp
  have if_sum: "sum_list (map h (filter ?P rows)) = (\<Sum>r\<leftarrow>rows. if ?P r then h r else 0)"
    for h :: "mapping_row \<Rightarrow> int" and rows by (induction rows) auto
  have "ticket_volume a p (snd (reduce_position_mappings_fifo a p n now s))
      = (\<Sum>r\<leftarrow>db_mappings s. if ?P (?f r) then held_volume (?f r) else 0)"
    using apply_touched_pass [OF fifo_touched_distinct [OF assms]]
    by (simp add: ticket_volume_def if_sum reduce_position_mappings_fifo_def Let_def comp_def)
  also have "\<dots> = (\<Sum>r\<leftarrow>filter ?P (db_mappings s). held_volume r - ?g r)"
    unfolding if_sum using row by (intro arg_cong [where f = sum_list] map_cong) auto
  also have "\<dots> = ticket_volume a p s - (\<Sum>r\<leftarrow>filter ?P (db_mappings s). ?g r)"
    by (simp add: ticket_volume_def sum_list_subtractf)
  also have "(\<Sum>r\<leftarrow>filter ?P (db_mappings s). ?g r) = sum_list (map t_closed_volume ?ts)"
    using assms fifo_touched_distinct [OF assms] touched_ids [of n a p s]
    by (intro sum_taken) (auto simp: mapping_inv_def distinct_map_filter fifo_rows_def)
  finally show ?thesis .
qed

lemma held_sum:
  assumes "\<forall>r \<in> set (db_mappings s). 0 \<le> held_volume r"
  shows "sum_list (map (\<lambda>r. max (held_volume r) 0) (fifo_rows a p s)) = ticket_volume a p s"
proof -
  have "map (\<lambda>r. max (held_volume r) 0) (fifo_rows a p s) = map held_volume (fifo_rows a p s)"
    using assms by (auto simp: fifo_rows_def)
  then show ?thesis unfolding ticket_volume_fifo_rows by (rule arg_cong)
qed



end
