(* ===== verification/Dispatch_Laws.thy ===== *)
theory Dispatch_Laws
  imports Dispatch Mapping_Laws
begin

text \<open>
  What the dispatcher guarantees: the gates (kill switch and dry run) keep every request off the
  wire, one intent's failure never stops the rest of its batch, requests and commands go only to the
  accounts the intents name, the mapping table stays well-formed, and the retry ladder never sends a
  request again once it may have reached the broker.
\<close>

section \<open>Frames\<close>

lemma with_db_simps [simp]:
  "eng_db (with_db f e) = f (eng_db e)" "eng_tasks (with_db f e) = eng_tasks e"
  by (simp_all add: with_db_def)

lemma create_mapping_same: "create_mapping i a g now s = Inr t \<Longrightarrow> same_tables s t"
  by (cases i) (auto simp: create_mapping_def dest: create_position_mapping_same mapping_ops_same)

lemma create_mapping_inv [inv_intros]:
  "create_mapping i a g now s = Inr t \<Longrightarrow> mapping_inv s \<Longrightarrow> mapping_inv t"
  by (cases i) (auto simp: create_mapping_def elim!: create_position_mapping_inv create_order_mapping_inv)

lemma warn_dropped_frame [simp, frame_simps]:
  "db_mappings (warn_dropped_protection i d a g s) = db_mappings s"
  "db_next_mapping (warn_dropped_protection i d a g s) = db_next_mapping s"
  "db_accounts (warn_dropped_protection i d a g s) = db_accounts s"
  "db_orgs (warn_dropped_protection i d a g s) = db_orgs s"
  "db_commands (warn_dropped_protection i d a g s) = db_commands s"
  by (simp_all add: warn_dropped_protection_def)

lemma intent_failed_frame [simp, frame_simps]:
  "db_mappings (intent_failed i g x s) = db_mappings s"
  "db_next_mapping (intent_failed i g x s) = db_next_mapping s"
  "db_orgs (intent_failed i g x s) = db_orgs s"
  "db_commands (intent_failed i g x s) = db_commands s"
  by (simp_all add: intent_failed_def Let_def split: option.splits)

lemma handle_frame [simp, frame_simps]:
  "db_mappings (handle_alert i g s) = db_mappings s" "db_orgs (handle_alert i g s) = db_orgs s"
  "db_next_mapping (handle_alert i g s) = db_next_mapping s"
  "db_commands (handle_alert i g s) = db_commands s"
  "db_mappings (handle_kill_switch i g s) = db_mappings s" "db_orgs (handle_kill_switch i g s) = db_orgs s"
  "db_next_mapping (handle_kill_switch i g s) = db_next_mapping s"
  "db_commands (handle_kill_switch i g s) = db_commands s"
  by (simp_all add: handle_alert_def handle_kill_switch_def)

lemma handle_link_frame [simp, frame_simps]:
  "db_orgs (handle_link_pending_fill i g now s) = db_orgs s"
  "db_commands (handle_link_pending_fill i g now s) = db_commands s"
  by (auto simp: handle_link_pending_fill_def split: sum.splits
      dest!: mapping_ops_same(7) dest: same_tables_fields)

lemma handle_link_inv [inv_intros]:
  "mapping_inv s \<Longrightarrow> mapping_inv (handle_link_pending_fill i g now s)"
  by (auto simp: handle_link_pending_fill_def split: sum.splits elim: link_pending_fill_inv)

lemma mapping_inv_frames [simp]:
  "mapping_inv (warn_dropped_protection i d a g s) = mapping_inv s"
  "mapping_inv (intent_failed i g x s) = mapping_inv s"
  "mapping_inv (handle_alert i g s) = mapping_inv s"
  "mapping_inv (handle_kill_switch i g s) = mapping_inv s"
  by (rule mapping_inv_cong; simp)+

lemma handle_dry_run_frame:
  assumes "handle_dry_run i g now s = Inr t"
  shows "db_commands t = db_commands s" "db_orgs t = db_orgs s"
  using assms
  by (auto simp: handle_dry_run_def res_bind_Inr_iff dest!: create_mapping_same dest: same_tables_fields)

lemma handle_dry_run_inv [inv_intros]:
  "handle_dry_run i g now s = Inr t \<Longrightarrow> mapping_inv s \<Longrightarrow> mapping_inv t"
  by (auto simp: handle_dry_run_def res_bind_Inr_iff intro: create_mapping_inv)

text \<open>The MT5 queue: what it changes of the database are commands and events.\<close>

definition queue_frame :: "db \<Rightarrow> db \<Rightarrow> bool" where
  "queue_frame s t \<longleftrightarrow> db_mappings t = db_mappings s \<and> db_next_mapping t = db_next_mapping s \<and>
     db_orgs t = db_orgs s \<and> db_accounts t = db_accounts s"

lemma enqueue_command_frame: "queue_frame s (snd (settle (enqueue_mt5_command a g k p c now s) s))"
  by (simp add: enqueue_mt5_command_def settle_def queue_frame_def Let_def)

lemma enqueue_plain_frame: "queue_frame s (snd (enqueue_plain i a g sy now s))"
proof (cases "command_for_intent i sy")
  case (Inl x)
  then show ?thesis by (simp add: enqueue_plain_def settle_def queue_frame_def)
next
  case (Inr kp)
  then show ?thesis
    using enqueue_command_frame by (cases kp) (simp add: enqueue_plain_def)
qed

lemma enqueue_netting_frame: "queue_frame s (snd (enqueue_netting_close a q v m g now s))"
  unfolding enqueue_netting_close_def Let_def
  using enqueue_command_frame
  by (auto simp: log_unsided_def queue_frame_def split: option.splits)

lemma enqueue_intent_cases:
  obtains a where "enqueue_intent mm i g sy now s = enqueue_plain i a g sy now s" "slave_account_of i = Some a \<or> is_alert i"
  | a q v m where "i = ClosePosition a q v (Some m)"
      "enqueue_intent mm i g sy now s =
         (case enqueue_netting_close a q v m g now s of
            (Inl e, s1) \<Rightarrow> (Inl e, s1)
          | (Inr (Some cid), s1) \<Rightarrow> (Inr cid, s1)
          | (Inr None, s1) \<Rightarrow> enqueue_plain i a g sy now s1)"
proof (cases "\<exists>a q v m. i = ClosePosition a q v (Some m) \<and> is_netting mm a")
  case True
  then show ?thesis using that(2) by (auto simp: enqueue_intent_def)
next
  case False
  then show ?thesis
    using that(1) by (cases i; fastforce simp: enqueue_intent_def split: option.splits)
qed

lemma enqueue_intent_frame: "queue_frame s (snd (enqueue_intent mm i g sy now s))"
proof (rule enqueue_intent_cases [of mm i g sy now s])
  fix a q v m
  assume "enqueue_intent mm i g sy now s =
         (case enqueue_netting_close a q v m g now s of
            (Inl e, s1) \<Rightarrow> (Inl e, s1)
          | (Inr (Some cid), s1) \<Rightarrow> (Inr cid, s1)
          | (Inr None, s1) \<Rightarrow> enqueue_plain i a g sy now s1)"
  then show ?thesis
    using enqueue_netting_frame [of s a q v m g now] enqueue_plain_frame [of "snd (enqueue_netting_close a q v m g now s)" i a g sy now]
    by (auto simp: queue_frame_def split: prod.splits sum.splits option.splits)
qed (simp add: enqueue_plain_frame)

lemma queue_frame_inv: "queue_frame s t \<Longrightarrow> mapping_inv t = mapping_inv s"
  by (intro mapping_inv_cong) (simp_all add: queue_frame_def)

text \<open>The MT5 branch of a live send: at most the mapping of a fresh copy is added.\<close>

definition mapping_step :: "db \<Rightarrow> db \<Rightarrow> bool" where
  "mapping_step s t \<longleftrightarrow> db_orgs t = db_orgs s \<and> (mapping_inv s \<longrightarrow> mapping_inv t)"

lemma mapping_step_refl [simp]: "mapping_step s s"
  by (simp add: mapping_step_def)

lemma mapping_step_trans: "mapping_step s t \<Longrightarrow> mapping_step t u \<Longrightarrow> mapping_step s u"
  by (simp add: mapping_step_def)

lemma mapping_step_create: "create_mapping i a g now s = Inr t \<Longrightarrow> mapping_step s t"
  using same_tables_fields(2) [OF create_mapping_same] create_mapping_inv by (auto simp: mapping_step_def)

lemma mapping_step_queue: "queue_frame s t \<Longrightarrow> mapping_step s t"
  using queue_frame_inv [of s t] by (simp add: mapping_step_def queue_frame_def)

lemma mapping_step_log [simp]: "mapping_step s (log_event c sv p a l g act t) = mapping_step s t"
  by (simp add: mapping_step_def)

lemma queue_for_mt5_step: "mapping_step s (snd (queue_for_mt5 env i a g sy now s))"
proof (cases "create_mapping i a g now s")
  case (Inr s1)
  have "mapping_step s (snd (enqueue_intent (de_margin_mode env) i g sy now s1))"
    using mapping_step_trans [OF mapping_step_create [OF Inr] mapping_step_queue [OF enqueue_intent_frame]] .
  then show ?thesis
    using Inr by (auto simp: queue_for_mt5_def split: prod.splits sum.splits)
qed (simp add: queue_for_mt5_def)

lemma enqueue_for_mt5_step: "enqueue_for_mt5 env i g now s = Some (r, t) \<Longrightarrow> mapping_step s t"
  using queue_for_mt5_step [of s env i _ g _ now]
  by (auto simp: enqueue_for_mt5_def log_unmatched_symbol_def split: option.splits if_splits)
    (metis snd_conv)+

lemma handle_live_send_step: "mapping_step (eng_db e) (eng_db (snd (handle_live_send env i g now e)))"
  by (auto simp: handle_live_send_def start_send_def mapping_step_def split: option.splits sum.splits
      dest!: enqueue_for_mt5_step mapping_step_create)

lemma handle_link_step: "mapping_step s (handle_link_pending_fill i g now s)"
  by (simp add: mapping_step_def handle_link_inv)

lemma dispatch_intent_step: "mapping_step (eng_db e) (eng_db (dispatch_intent env org g now i e))"
  using handle_live_send_step [of e env i g now] handle_link_step [of "eng_db e" i g now]
  by (auto simp: dispatch_intent_def mapping_step_def Let_def split: sum.splits prod.splits
      dest: handle_dry_run_frame handle_dry_run_inv)

interpretation estep: frame_order "\<lambda>e e'. mapping_step (eng_db e) (eng_db e')"
  by unfold_locales (simp, rule mapping_step_trans)

lemma fold_dispatch_step: "mapping_step (eng_db e) (eng_db (fold (dispatch_intent env org g now) is e))"
  using dispatch_intent_step by (rule estep.inside_fold)

section \<open>Gates\<close>

lemma dispatch_ok: "get_org g (eng_db e) = Inr org \<Longrightarrow>
  dispatch env is g now e = (Inr (), fold (dispatch_intent env org g now) is e)"
  by (simp add: dispatch_def)

lemma gated_intent:
  assumes "\<not> o_copying_enabled org \<or> o_dry_run org"
  shows "eng_tasks (dispatch_intent env org g now i e) = eng_tasks e"
    "db_commands (eng_db (dispatch_intent env org g now i e)) = db_commands (eng_db e)"
  using assms
  by (auto simp: dispatch_intent_def Let_def split: sum.splits dest: handle_dry_run_frame)

lemma gated_fold:
  assumes "\<not> o_copying_enabled org \<or> o_dry_run org"
  shows "eng_tasks (fold (dispatch_intent env org g now) is e) = eng_tasks e"
    "db_commands (eng_db (fold (dispatch_intent env org g now) is e)) = db_commands (eng_db e)"
  by (induction "is" arbitrary: e) (simp_all add: gated_intent [OF assms])

lemma killed_mappings:
  assumes "\<not> o_copying_enabled org" "\<forall>i \<in> set is. \<not> is_link i"
  shows "db_mappings (eng_db (fold (dispatch_intent env org g now) is e)) = db_mappings (eng_db e)"
  using assms(2)
proof (induction "is" arbitrary: e)
  case (Cons i "is")
  have "db_mappings (eng_db (dispatch_intent env org g now i e)) = db_mappings (eng_db e)"
    using Cons.prems assms(1) by (auto simp: dispatch_intent_def Let_def)
  then show ?case using Cons by simp
qed simp

text \<open>A gated organisation to apply the theorems to.\<close>

definition witness_engine :: "bool \<Rightarrow> bool \<Rightarrow> engine" where
  "witness_engine copying dry = \<lparr>eng_db = empty_db\<lparr>db_orgs := [\<lparr>o_org_id = 2, o_name = ''org'',
     o_copying_enabled = copying, o_dry_run = dry, o_settings_version = 1\<rparr>],
     db_accounts := [\<lparr>a_account_id = 7, a_org_id = 2, a_connection_id = None,
      a_trader_login = 0, a_is_live = False, a_role = slave, a_enabled = True, a_multiplier = 1,
      a_status = OK, a_last_error = None, a_platform = ctrader\<rparr>]\<rparr>, eng_tasks = []\<rparr>"

definition witness_env :: dispatch_env where
  "witness_env = \<lparr>de_mt5_targets = None, de_mt5_outbox = False, de_margin_mode = None\<rparr>"



text \<open>How a mapping row may change in a dry run: a fresh row is pending, an old one keeps its status.\<close>

lemma dry_create:
  assumes "create_mapping i a g now s = Inr t" "r \<in> set (db_mappings t)"
  shows "m_status r = Pending \<or> r \<in> set (db_mappings s)"
  using assms by (cases i) (auto simp: create_mapping_def create_position_mapping_def
      create_order_mapping_def insert_mapping_def new_mapping_def split: if_splits)

lemma dry_intent:
  assumes "o_copying_enabled org" "o_dry_run org"
    and "r \<in> set (db_mappings (eng_db (dispatch_intent env org g now i e)))"
  shows "m_status r = Pending \<or> (\<exists>q \<in> set (db_mappings (eng_db e)). m_id q = m_id r \<and> m_status q = m_status r)"
proof (cases "is_link i")
  case True
  then show ?thesis
    using assms by (cases i) (auto simp: dispatch_intent_def Let_def handle_link_pending_fill_def
        link_pending_fill_def update_mappings_def set_update_where split: if_splits)
next
  case False
  then show ?thesis
    using assms by (auto simp: dispatch_intent_def Let_def handle_dry_run_def res_bind_def
        split: sum.splits if_splits prod.splits dest!: dry_create)
qed

text \<open>
  A dry run reaches no broker: with copying enabled and dry run on, dispatching sends no request
  and queues no terminal command, and every mapping row it leaves is either pending or was there
  before with the same status.
\<close>

lemma dry_run_sends_nothing:
  assumes "get_org g (eng_db e) = Inr org" "o_copying_enabled org" "o_dry_run org"
    and "dispatch env is g now e = (r, e')"
  shows "r = Inr () \<and> eng_tasks e' = eng_tasks e \<and> db_commands (eng_db e') = db_commands (eng_db e) \<and>
    (\<forall>m \<in> set (db_mappings (eng_db e')). m_status m = Pending \<or>
       (\<exists>q \<in> set (db_mappings (eng_db e)). m_id q = m_id m \<and> m_status q = m_status m))"
proof -
  have rows: "\<forall>m \<in> set (db_mappings (eng_db (fold (dispatch_intent env org g now) is e))). m_status m = Pending \<or>
       (\<exists>q \<in> set (db_mappings (eng_db e)). m_id q = m_id m \<and> m_status q = m_status m)"
  proof (induction "is" arbitrary: e)
    case (Cons i "is")
    show ?case using Cons.IH [of "dispatch_intent env org g now i e"] dry_intent [OF assms(2,3), of _ env g now i e]
      by fastforce
  qed auto
  show ?thesis
    using assms gated_fold [of org env g now "is" e] rows by (auto simp: dispatch_ok)
qed

section \<open>Batches\<close>

lemma fold_dispatch_orgs: "db_orgs (eng_db (fold (dispatch_intent env org g now) is e)) = db_orgs (eng_db e)"
  using fold_dispatch_step by (simp add: mapping_step_def)

text \<open>
  One intent's failure never stops the others: for an organisation that exists, dispatch always
  completes, and dispatching a batch is dispatching its parts one after the other, whatever the
  first part raised inside.
\<close>

lemma dispatch_append:
  assumes "get_org g (eng_db e) = Inr org"
  shows "fst (dispatch env (xs @ ys) g now e) = Inr () \<and>
    dispatch env (xs @ ys) g now e = dispatch env ys g now (snd (dispatch env xs g now e))"
proof -
  have "get_org g (eng_db (fold (dispatch_intent env org g now) xs e)) = Inr org"
    using assms fold_dispatch_orgs [of env org g now xs e] by (simp add: get_org_def)
  then show ?thesis using assms by (simp add: dispatch_ok)
qed

text \<open>
  Dispatching keeps the mapping table well-formed: unique row ids and client order ids, active
  rows that know their slave position or order.
\<close>

lemma dispatch_keeps_mapping_inv:
  assumes "mapping_inv (eng_db e)"
  shows "mapping_inv (eng_db (snd (dispatch env is g now e)))"
  using assms fold_dispatch_step [of e env _ g now "is"]
  by (simp add: dispatch_def mapping_step_def split: sum.splits)

definition task_of :: "slave_intent \<Rightarrow> send_task \<Rightarrow> bool" where
  "task_of i t \<longleftrightarrow> st_attempt t = 0 \<and> slave_account_of i = Some (st_account t) \<and>
     (\<exists>dropped. build_request i = Inr (st_account t, st_request t, dropped))"

lemma build_request_account:
  "build_request i = Inr (a, req, d) \<Longrightarrow> slave_account_of i = Some a"
  by (cases i) (auto simp: split: prod.splits)

lemma dispatch_intent_tasks:
  "\<exists>new. eng_tasks (dispatch_intent env org g now i e) = eng_tasks e @ new \<and> length new \<le> 1 \<and>
     (\<forall>t \<in> set new. task_of i t)"
  by (auto simp: dispatch_intent_def handle_live_send_def start_send_def Let_def task_of_def
      split: sum.splits option.splits dest: build_request_account)

lemma dispatch_tasks:
  assumes "dispatch env is g now e = (r, e')"
  shows "\<exists>new. eng_tasks e' = eng_tasks e @ new \<and> length new \<le> length is \<and>
    (\<forall>t \<in> set new. \<exists>i \<in> set is. task_of i t)"
proof -
  have "\<exists>new. eng_tasks (fold (dispatch_intent env org g now) is e) = eng_tasks e @ new \<and>
      length new \<le> length is \<and> (\<forall>t \<in> set new. \<exists>i \<in> set is. task_of i t)" for org
  proof (induction "is" arbitrary: e)
    case (Cons i "is")
    obtain n1 where "eng_tasks (dispatch_intent env org g now i e) = eng_tasks e @ n1" "length n1 \<le> 1"
      "\<forall>t \<in> set n1. task_of i t" using dispatch_intent_tasks by blast
    moreover obtain n2 where "eng_tasks (fold (dispatch_intent env org g now) is (dispatch_intent env org g now i e))
        = eng_tasks (dispatch_intent env org g now i e) @ n2" "length n2 \<le> length is"
      "\<forall>t \<in> set n2. \<exists>i \<in> set is. task_of i t" using Cons.IH by blast
    ultimately show ?case by (intro exI [of _ "n1 @ n2"]) auto
  qed simp
  then show ?thesis using assms by (auto simp: dispatch_def split: sum.splits)
qed

text \<open>
  Requests go only where the intents say: what a dispatch hands to the throttle is a sequence of
  requests, at most one per intent, each being exactly the request built from an intent of the batch
  and addressed to the account that intent names.
\<close>

lemma dispatch_sends_only_intents:
  assumes "dispatch env is g now e = (r, e')"
  shows "\<exists>new. eng_tasks e' = eng_tasks e @ new \<and> length new \<le> length is \<and>
    (\<forall>t \<in> set new. \<exists>i \<in> set is. task_of i t)"
  using assms by (rule dispatch_tasks)

section \<open>The retry ladder\<close>

text \<open>
  Send tasks run in any order; each run of a task is one call of \<^verbatim>\<open>send_for_account\<close>.
  \<open>wire\<close> lists the calls after which the broker may have the request (all but
  \<^verbatim>\<open>SendNotAttempted\<close>), \<open>dropped\<close> the tasks given up unsent, \<open>n\<close> counts the calls.
\<close>

definition task_key :: "send_task \<Rightarrow> ident \<times> request" where
  "task_key t = (st_account t, st_request t)"

fun refused :: "send_outcome \<Rightarrow> bool" where
  "refused (SendNotAttempted _) = True"
| "refused _ = False"

inductive sends :: "engine \<Rightarrow> nat \<Rightarrow> (ident \<times> request) list \<Rightarrow> (ident \<times> request) list \<Rightarrow> engine \<Rightarrow> bool" where
  idle: "sends e 0 [] [] e"
| call: "sends e n wire dropped e1 \<Longrightarrow> eng_tasks e1 = xs @ t # ys \<Longrightarrow>
    sends e (Suc n) (wire @ (if refused oc then [] else [task_key t]))
      (dropped @ (if refused oc \<and> \<not> st_attempt t < 3 then [task_key t] else []))
      (run_task t oc (e1\<lparr>eng_tasks := xs @ ys\<rparr>))"

lemma run_task_tasks:
  "eng_tasks (run_task t oc e) = eng_tasks e @
     (if refused oc \<and> st_attempt t < 3 then [t\<lparr>st_attempt := st_attempt t + 1\<rparr>] else [])"
  by (cases oc) (simp_all add: run_task_def on_send_failure_def)

text \<open>
  A request is sent at most once and never lost: along any run of the retry ladder, in any order
  and with any outcomes, the requests that may have reached the broker, those given up unsent, and
  those still waiting are together exactly the requests that were dispatched.
\<close>

lemma ladder_conserves_requests:
  assumes "sends e n wire dropped e'"
  shows "mset wire + mset dropped + image_mset task_key (mset (eng_tasks e'))
     = image_mset task_key (mset (eng_tasks e))"
  using assms
proof (induction rule: sends.induct)
  case (call e n wire dropped e1 xs t ys oc)
  show ?case using call.IH call.hyps(2) by (simp add: run_task_tasks task_key_def)
qed simp

definition witness_ladder :: engine where
  "witness_ladder = start_send 7 (CancelOrderReq 7 5) (witness_engine True False)"

lemma witness_ladder_run:
  "\<exists>e'. sends witness_ladder 2 [(7, CancelOrderReq 7 5)] [] e' \<and> eng_tasks e' = []"
proof -
  let ?t = "\<lparr>st_account = 7, st_request = CancelOrderReq 7 5, st_attempt = 0\<rparr>"
  have t: "eng_tasks witness_ladder = [] @ ?t # []"
    by (simp add: witness_ladder_def start_send_def witness_engine_def)
  define e1 where "e1 = run_task ?t (SendNotAttempted ''down'') (witness_ladder\<lparr>eng_tasks := [] @ []\<rparr>)"
  have e1: "sends witness_ladder 1 [] [] e1"
    using sends.call [OF sends.idle t, of "SendNotAttempted ''down''"] by (simp add: e1_def)
  have t1: "eng_tasks e1 = [] @ ?t\<lparr>st_attempt := 1\<rparr> # []" by (simp add: e1_def run_task_tasks)
  define e2 where "e2 = run_task (?t\<lparr>st_attempt := 1\<rparr>) SendOk (e1\<lparr>eng_tasks := [] @ []\<rparr>)"
  have "sends witness_ladder 2 [(7, CancelOrderReq 7 5)] [] e2"
    using sends.call [OF e1 t1, of SendOk] by (simp add: task_key_def e2_def numeral_2_eq_2)
  moreover have "eng_tasks e2 = []" by (simp add: e2_def run_task_tasks)
  ultimately show ?thesis by blast
qed

definition attempts_left :: "engine \<Rightarrow> nat" where
  "attempts_left e = (\<Sum>t\<leftarrow>eng_tasks e. 4 - st_attempt t)"

lemma sends_attempts:
  assumes "sends e n wire dropped e'" "\<forall>t \<in> set (eng_tasks e). st_attempt t \<le> 3"
  shows "n + attempts_left e' \<le> attempts_left e \<and> (\<forall>t \<in> set (eng_tasks e'). st_attempt t \<le> 3)"
  using assms
proof (induction rule: sends.induct)
  case (call e n wire dropped e1 xs t ys oc)
  then show ?case by (auto simp: attempts_left_def run_task_tasks)
qed simp

text \<open>
  The ladder is finite: a request is attempted at most four times in all, so a run of the ladder
  from \<open>k\<close> freshly dispatched requests makes at most \<open>4 * k\<close> send calls, and no task ever waits with
  more than three failed attempts.
\<close>

lemma ladder_at_most_four_attempts:
  assumes "sends e n wire dropped e'" "\<forall>t \<in> set (eng_tasks e). st_attempt t = 0"
  shows "n \<le> 4 * length (eng_tasks e) \<and> (\<forall>t \<in> set (eng_tasks e'). st_attempt t \<le> 3)"
proof -
  have "attempts_left e = (\<Sum>t\<leftarrow>eng_tasks e. 4)"
    using assms(2) unfolding attempts_left_def by (intro arg_cong [where f = sum_list] map_cong) auto
  then have "attempts_left e = 4 * length (eng_tasks e)" by (simp add: sum_list_triv)
  then show ?thesis using sends_attempts [OF assms(1)] assms(2) by auto
qed

section \<open>Protection distances\<close>

lemma protection_units_error:
  assumes "\<bar>d\<bar> \<le> 1000000"
  shows "\<bar>of_int (round_half_even (fl (fl d * of_int RELATIVE_PRICE_SCALE))) - d * 100000\<bar> \<le> 1"
proof -
  let ?u = "1 / 2 ^ 53 :: rat"
  have "\<bar>fl (100000 * fl d) - 100000 * d\<bar> \<le> (?u + ?u + ?u * ?u) * \<bar>100000 * d\<bar>"
    by (rule fl.rnd_scaled_error [OF fl.rnd_error])
  also have "\<dots> \<le> (?u + ?u + ?u * ?u) * (100000 * 1000000)"
    using assms by (intro mult_left_mono) (auto simp: abs_mult)
  also have "\<dots> \<le> 1 / 2" by simp
  finally have "\<bar>fl (fl d * 100000) - d * 100000\<bar> \<le> 1 / 2" by (simp add: mult.commute)
  then show ?thesis
    using round_half_even_error [of "fl (fl d * 100000)"]
    unfolding RELATIVE_PRICE_SCALE_def of_int_numeral by linarith
qed

text \<open>
  A copy's protection is never placed on the wrong side and never at the fill: a stop distance is
  given only when the stop lies below a buy's entry (above a sell's), a target distance only when the
  target lies on the opposite side; each is at least one wire unit and within one unit of the true
  distance in hundred-thousandths (for levels within a million price units of the entry).
\<close>

lemma relative_protection_sound:
  assumes "relative_protection sd (Some entry) (Some sl) (Some tp) = (rsl, rtp)"
    and "\<bar>entry - sl\<bar> \<le> 1000000" "\<bar>entry - tp\<bar> \<le> 1000000"
  shows "let dir = (if sd = BUY then 1 else - 1) in
    (\<forall>u. rsl = Some u \<longrightarrow> 0 < dir * (entry - sl) \<and> 1 \<le> u \<and> \<bar>of_int u - dir * (entry - sl) * 100000\<bar> \<le> 1) \<and>
    (\<forall>u. rtp = Some u \<longrightarrow> 0 < dir * (tp - entry) \<and> 1 \<le> u \<and> \<bar>of_int u - dir * (tp - entry) * 100000\<bar> \<le> 1)"
proof -
  have dist: "0 < d \<and> 1 \<le> u \<and> \<bar>of_int u - d * 100000\<bar> \<le> 1"
    if "protection_distance entry (Some t) below = Some u" "\<bar>entry - t\<bar> \<le> 1000000"
      "d = (if below then entry - t else t - entry)" for t below u d
    using that protection_units_error [of d]
    by (auto simp: protection_distance_def Let_def not_le split: if_splits)
  show ?thesis
    using assms dist [of sl _ _ "if sd = BUY then entry - sl else sl - entry"]
      dist [of tp _ _ "if sd = BUY then tp - entry else entry - tp"]
    by (cases sd) (auto simp: relative_protection_def split: if_splits)
qed

end
