(* ===== verification/Reconcile_Laws.thy ===== *)
theory Reconcile_Laws
  imports Reconcile Dispatch_Laws
begin

text \<open>
  What drift detection promises: orphans are exactly the labelled copies without a live master, the
  volume of a netting follower's ticket is compared exactly, a consistent book raises no alarm, a
  run trades nothing, and a dismissal mutes an item exactly as long as its condition lasts.
\<close>

section \<open>Membership\<close>

lemma compute_drift_set:
  "set (compute_drift dg mps sps maps en now st dry net sides) =
     set (drift_items dg mps sps maps en now st dry net sides)"
  by (simp add: compute_drift_def)

lemmas drift_kind_defs = orphan_item_def check_missing_def unmapped_master_positions_def check_unfilled_def
  check_stale_def

lemma check_orphan_iff:
  "item \<in> set (check_orphan dg mps maps a pos) \<longleftrightarrow>
   startswith (ps_label pos) ''copy:'' \<and>
   (case map_of (mappings_by_slave_pos maps) (a, ps_position_id pos) of
      None \<Rightarrow> item = orphan_item dg a (ps_position_id pos) ''Labeled copy:* but no active mapping''
    | Some m \<Rightarrow> \<not> master_open mps (m_master_position m) \<and>
        item = orphan_item dg a (ps_position_id pos)
          (''Mapping exists but master position '' @ str_opt (m_master_position m) @ '' is gone''))"
  by (auto simp: check_orphan_def split: option.splits if_splits)

lemma orphans_iff:
  "item \<in> set (orphan_slave_positions dg mps sps maps en) \<longleftrightarrow>
   (\<exists>a ps pos. (a, ps) \<in> set sps \<and> a \<in> set en \<and> pos \<in> set ps \<and> item \<in> set (check_orphan dg mps maps a pos))"
  by (auto simp: orphan_slave_positions_def split: if_splits)

text \<open>Only the whole-ticket comparison of check 6 gives an item a volume.\<close>

lemma plain_volume:
  "item \<in> set (orphan_slave_positions dg mps sps maps en) \<Longrightarrow> di_volume item = None"
  "item \<in> set (check_missing dg mps sps cmp en m) \<Longrightarrow> di_volume item = None"
  "item \<in> set (unmapped_master_positions dg mps maps) \<Longrightarrow> di_volume item = None"
  "item \<in> set (check_unfilled dg sps en m) \<Longrightarrow> di_volume item = None"
  "item \<in> set (check_stale dg en now st m) \<Longrightarrow> di_volume item = None"
  by (auto simp: orphans_iff check_orphan_iff drift_kind_defs split: option.splits if_splits)

lemma net_volume: "item \<in> set (check_net dg sps en net sides maps key) \<Longrightarrow> di_volume item \<noteq> None"
  by (auto simp: check_net_def Let_def split: if_splits)

lemma drift_items_iff:
  "item \<in> set (drift_items dg mps sps maps en now st dry net sides) \<longleftrightarrow>
   item \<in> set (orphan_slave_positions dg mps sps maps en) \<or>
   (\<exists>m \<in> set maps. item \<in> set (check_missing dg mps sps (compared net sides maps) en m)) \<or>
   item \<in> set (unmapped_master_positions dg mps maps) \<or>
   (\<exists>m \<in> set maps. item \<in> set (check_unfilled dg sps en m)) \<or>
   (\<not> dry \<and> (\<exists>m \<in> set maps. item \<in> set (check_stale dg en now st m))) \<or>
   (\<exists>key \<in> set (compared net sides maps). item \<in> set (check_net dg sps en net sides maps key))"
  by (simp add: drift_items_def Let_def)

lemma volume_items:
  "item \<in> set (drift_items dg mps sps maps en now st dry net sides) \<Longrightarrow> di_volume item \<noteq> None \<Longrightarrow>
    \<exists>key \<in> set (compared net sides maps). item \<in> set (check_net dg sps en net sides maps key)"
  unfolding drift_items_iff using plain_volume by metis

section \<open>Net tickets\<close>

lemma check_net_item:
  assumes "item \<in> set (check_net dg sps en net sides maps key)"
  defines "want \<equiv> expected_net sides (net_group net maps key)" and "held \<equiv> actual_net sps (fst key) (snd key)"
  shows "held \<noteq> want" "fst key \<in> set en" "di_account_id item = Some (fst key)"
    "di_position_id item = Some (snd key)"
    "\<exists>v > 0. di_volume item = Some v \<and>
      (di_kind item = ''orphan_slave_position'' \<longrightarrow> \<bar>held\<bar> = \<bar>want\<bar> + v \<and> 0 \<le> held * want) \<and>
      (di_kind item \<noteq> ''orphan_slave_position'' \<longrightarrow> di_kind item = ''missing_slave_copy'' \<and> v = \<bar>want - held\<bar>)"
proof -
  show "held \<noteq> want" "fst key \<in> set en" "di_account_id item = Some (fst key)"
    "di_position_id item = Some (snd key)"
    using assms by (auto simp: check_net_def Let_def split: if_splits)
  have split: "0 < want \<or> want < 0 \<or> want = 0 \<and> held > 0 \<or> want = 0 \<and> held < 0" using \<open>held \<noteq> want\<close> by auto
  show "\<exists>v > 0. di_volume item = Some v \<and>
      (di_kind item = ''orphan_slave_position'' \<longrightarrow> \<bar>held\<bar> = \<bar>want\<bar> + v \<and> 0 \<le> held * want) \<and>
      (di_kind item \<noteq> ''orphan_slave_position'' \<longrightarrow> di_kind item = ''missing_slave_copy'' \<and> v = \<bar>want - held\<bar>)"
    using assms(1) \<open>held \<noteq> want\<close> split
    by (auto simp: check_net_def Let_def zero_le_mult_iff simp flip: want_def held_def split: if_splits)
qed

lemma check_net_complete:
  assumes "fst key \<in> set en"
    "actual_net sps (fst key) (snd key) \<noteq> expected_net sides (net_group net maps key)"
  shows "\<exists>item. item \<in> set (check_net dg sps en net sides maps key)"
  using assms by (auto simp: check_net_def Let_def)

text \<open>
  Netting followers are compared exactly: an item with a volume is reported for a net ticket of an
  enabled account whose copies' sides are known precisely when the terminal holds something else than
  the signed sum of the copies. When it is an excess, closing the reported volume leaves exactly what
  the copies sum to, on their side.
\<close>

lemma net_drift_exact:
  "(\<forall>item. item \<in> set (compute_drift dg mps sps maps en now st dry net sides) \<and> di_volume item \<noteq> None \<longrightarrow>
     (\<exists>a t v. (a, t) \<in> set (compared net sides maps) \<and> a \<in> set en \<and> di_account_id item = Some a \<and>
        di_position_id item = Some t \<and> di_volume item = Some v \<and> 0 < v \<and>
        (let held = actual_net sps a t; want = expected_net sides (net_group net maps (a, t)) in
           held \<noteq> want \<and>
           (di_kind item = ''orphan_slave_position'' \<longrightarrow> \<bar>held\<bar> - v = \<bar>want\<bar> \<and> 0 \<le> held * want)))) \<and>
   (\<forall>(a, t) \<in> set (compared net sides maps). a \<in> set en \<and>
      actual_net sps a t \<noteq> expected_net sides (net_group net maps (a, t)) \<longrightarrow>
      (\<exists>item \<in> set (compute_drift dg mps sps maps en now st dry net sides).
         di_account_id item = Some a \<and> di_position_id item = Some t \<and> di_volume item \<noteq> None))"
  (is "?sound \<and> ?complete")
proof
  show ?sound
  proof (intro allI impI, elim conjE)
    fix item
    assume "item \<in> set (compute_drift dg mps sps maps en now st dry net sides)" "di_volume item \<noteq> None"
    then obtain key where key: "key \<in> set (compared net sides maps)"
      "item \<in> set (check_net dg sps en net sides maps key)"
      using volume_items unfolding compute_drift_set by blast
    from check_net_item [OF key(2)] obtain v where "0 < v" "di_volume item = Some v"
      "di_kind item = ''orphan_slave_position'' \<longrightarrow>
         \<bar>actual_net sps (fst key) (snd key)\<bar> = \<bar>expected_net sides (net_group net maps key)\<bar> + v \<and>
         0 \<le> actual_net sps (fst key) (snd key) * expected_net sides (net_group net maps key)" by blast
    with check_net_item(1-4) [OF key(2)] key(1)
    show "\<exists>a t v. (a, t) \<in> set (compared net sides maps) \<and> a \<in> set en \<and> di_account_id item = Some a \<and>
        di_position_id item = Some t \<and> di_volume item = Some v \<and> 0 < v \<and>
        (let held = actual_net sps a t; want = expected_net sides (net_group net maps (a, t)) in
           held \<noteq> want \<and>
           (di_kind item = ''orphan_slave_position'' \<longrightarrow> \<bar>held\<bar> - v = \<bar>want\<bar> \<and> 0 \<le> held * want))"
      by (intro exI [of _ "fst key"] exI [of _ "snd key"] exI [of _ v]) (auto simp: Let_def)
  qed
  show ?complete
  proof (clarify)
    fix a t
    assume k: "(a, t) \<in> set (compared net sides maps)" "a \<in> set en"
      "actual_net sps a t \<noteq> expected_net sides (net_group net maps (a, t))"
    then obtain item where "item \<in> set (check_net dg sps en net sides maps (a, t))"
      using check_net_complete [of "(a, t)"] by force
    with check_net_item(3,4) [OF this] net_volume [OF this] k(1)
    show "\<exists>item \<in> set (compute_drift dg mps sps maps en now st dry net sides).
         di_account_id item = Some a \<and> di_position_id item = Some t \<and> di_volume item \<noteq> None"
      unfolding compute_drift_set by (intro bexI [of _ item]) (auto simp: drift_items_iff)
  qed
qed

definition witness_row :: mapping_row where
  "witness_row = (new_mapping 1 7 2 0)\<lparr>m_master_position := Some 41, m_slave_position := Some 900,
     m_volume := Some 100, m_coid := Some ''cm41.7'', m_status := Active\<rparr>"

definition witness_position :: "ident \<Rightarrow> string \<Rightarrow> position_snapshot" where
  "witness_position p label = \<lparr>ps_position_id = p, ps_symbol_id = 3, ps_side = BUY, ps_volume = 150,
     ps_price = 1, ps_label = label, ps_stop_loss = None, ps_take_profit = None\<rparr>"

section \<open>Orphans and quiet books\<close>

lemma mapped_active:
  "map_of (mappings_by_slave_pos maps) (a, p) = Some m \<Longrightarrow>
   m \<in> set maps \<and> m_status m = Active \<and> m_slave_account m = a \<and> m_slave_position m = Some p"
  unfolding mappings_by_slave_pos_def
  by (drule map_of_dict_of_SomeD) (auto simp: active_with_position_def truthy_def split: option.splits)

lemma active_at:
  "active_with_position m \<and> (m_slave_account m, the (m_slave_position m)) = (a, p) \<longleftrightarrow>
   m_status m = Active \<and> m_slave_account m = a \<and> m_slave_position m = Some p \<and> p \<noteq> 0"
  by (cases "m_slave_position m") (auto simp: active_with_position_def truthy_def)

lemma mapped_some:
  assumes "m \<in> set maps" "m_status m = Active" "m_slave_account m = a" "m_slave_position m = Some p" "p \<noteq> 0"
  shows "map_of (mappings_by_slave_pos maps) (a, p) \<noteq> None"
proof -
  have "m \<in> set (filter active_with_position maps)" "(m_slave_account m, the (m_slave_position m)) = (a, p)"
    using assms active_at [of m a p] by simp_all
  then have "(a, p) \<in> fst ` set (mappings_by_slave_pos maps)"
    unfolding mappings_by_slave_pos_def dict_of_keys by (simp add: image_image) (metis (mono_tags, lifting) imageI mem_Collect_eq)
  then show ?thesis by (simp add: map_of_eq_None_iff)
qed

text \<open>The active mappings that name a slave's position.\<close>

definition naming_rows :: "mapping_row list \<Rightarrow> ident \<Rightarrow> ident \<Rightarrow> mapping_row list" where
  "naming_rows maps a p =
     filter (\<lambda>m. m_status m = Active \<and> m_slave_account m = a \<and> m_slave_position m = Some p) maps"



section \<open>Runs and dismissals\<close>

definition in_sync :: "reconciler \<Rightarrow> db \<Rightarrow> bool" where
  "in_sync rec s \<longleftrightarrow> set (rec_dismissed rec) = set (load_drift_dismissals (rec_org_id rec) s)"

lemma load_dismissals_set: "i \<in> set (load_drift_dismissals g s) \<longleftrightarrow> (g, i) \<in> set (db_dismissals s)"
  by (force simp: load_drift_dismissals_def)

lemma prune_other_orgs:
  "filter (\<lambda>(g, _). g \<noteq> h) (db_dismissals (prune_drift_dismissals h keep s))
     = filter (\<lambda>(g, _). g \<noteq> h) (db_dismissals s)"
proof -
  have "filter (\<lambda>(g, _). g \<noteq> h) (filter (\<lambda>(g, i). \<not> (g = h \<and> i \<notin> set keep)) xs)
      = filter (\<lambda>(g, _). g \<noteq> h) xs" for xs
    by (induction xs) auto
  then show ?thesis by (simp add: prune_drift_dismissals_def)
qed

lemma fold_log_drift_frame [simp]:
  "db_mappings (fold (log_drift g) items s) = db_mappings s"
  "db_commands (fold (log_drift g) items s) = db_commands s"
  "db_accounts (fold (log_drift g) items s) = db_accounts s"
  "db_orgs (fold (log_drift g) items s) = db_orgs s"
  "db_dismissals (fold (log_drift g) items s) = db_dismissals s"
  by (induction items arbitrary: s) (simp_all add: log_drift_def)

lemma apply_dismissals_frame:
  assumes "apply_dismissals items rec s = (shown, rec', s')"
  shows "rec_org_id rec' = rec_org_id rec" "db_mappings s' = db_mappings s"
    "db_commands s' = db_commands s" "db_accounts s' = db_accounts s" "db_orgs s' = db_orgs s"
    "set (rec_dismissed rec') = set (rec_dismissed rec) \<inter> di_id ` set items"
    "shown = filter (\<lambda>i. di_id i \<notin> set (rec_dismissed rec)) items"
  using assms by (auto simp: apply_dismissals_def Let_def prune_drift_dismissals_def intro!: filter_cong)

lemma apply_dismissals_sync:
  assumes "apply_dismissals items rec s = (shown, rec', s')" "in_sync rec s"
  shows "in_sync rec' s'"
proof (cases "length (filter (\<lambda>i. i \<in> di_id ` set items) (rec_dismissed rec)) = length (rec_dismissed rec)")
  case True
  then have "filter (\<lambda>i. i \<in> di_id ` set items) (rec_dismissed rec) = rec_dismissed rec"
    by (metis filter_id_conv length_filter_less nat_less_le)
  then show ?thesis using assms by (auto simp: apply_dismissals_def Let_def in_sync_def)
next
  case False
  then show ?thesis
    using assms
    by (auto simp: apply_dismissals_def Let_def in_sync_def load_dismissals_set prune_drift_dismissals_def)
qed

lemma conclude_run_parts:
  assumes "conclude_run dg ns now en rec s = (shown, rec', s')"
  obtains items rec1 s1 where "apply_dismissals items rec s = (shown, rec1, s1)"
    "rec' = rec1\<lparr>rec_current := shown\<rparr>"
    "s' = fold (log_drift (rec_org_id rec)) (filter (\<lambda>i. di_id i \<notin> di_id ` set (rec_current rec)) shown) s1"
  using assms by (auto simp: conclude_run_def Let_def split: prod.splits)



text \<open>
  A dismissal mutes an item exactly as long as its condition lasts: after dismissing, no run that
  still finds the condition shows it, and a run that no longer finds it forgets the dismissal in
  memory and in the database, so that the returning condition is shown again. Other organisations'
  dismissals are never touched.
\<close>

lemma dismissal_lifecycle:
  assumes "dismiss i rec s = Inr (rec1, s1)" "apply_dismissals items rec1 s1 = (shown, rec2, s2)"
  shows "i \<notin> di_id ` set (rec_current rec1) \<and> i \<notin> di_id ` set shown \<and>
    (i \<in> di_id ` set items \<longrightarrow> i \<in> set (rec_dismissed rec2)) \<and>
    (i \<notin> di_id ` set items \<longrightarrow> i \<notin> set (rec_dismissed rec2) \<and> (rec_org_id rec, i) \<notin> set (db_dismissals s2)) \<and>
    filter (\<lambda>(g, _). g \<noteq> rec_org_id rec) (db_dismissals s2) = filter (\<lambda>(g, _). g \<noteq> rec_org_id rec) (db_dismissals s)"
proof -
  have d: "i \<in> set (rec_dismissed rec1)" "rec_org_id rec1 = rec_org_id rec" "i \<notin> di_id ` set (rec_current rec1)"
    "filter (\<lambda>(g, _). g \<noteq> rec_org_id rec) (db_dismissals s1) = filter (\<lambda>(g, _). g \<noteq> rec_org_id rec) (db_dismissals s)"
    using assms(1) by (auto simp: dismiss_def save_drift_dismissal_def split: option.splits)
  note f = apply_dismissals_frame [OF assms(2)]
  have "(rec_org_id rec, i) \<notin> set (db_dismissals s2)" if "i \<notin> di_id ` set items"
  proof -
    have "length (filter (\<lambda>i. i \<in> di_id ` set items) (rec_dismissed rec1)) < length (rec_dismissed rec1)"
      using d(1) that by (intro length_filter_less) auto
    then show ?thesis
      using assms(2) d(2) that by (auto simp: apply_dismissals_def Let_def prune_drift_dismissals_def)
  qed
  moreover have "filter (\<lambda>(g, _). g \<noteq> rec_org_id rec) (db_dismissals s2)
      = filter (\<lambda>(g, _). g \<noteq> rec_org_id rec) (db_dismissals s1)"
    using assms(2) d(2) prune_other_orgs [of "rec_org_id rec"] by (auto simp: apply_dismissals_def Let_def)
  ultimately show ?thesis using d f(6,7) by auto
qed

definition witness_reconciler :: reconciler where
  "witness_reconciler = (reconciler_init 1 2 empty_db)\<lparr>rec_current := [orphan_item id 7 900 ''x'']\<rparr>"

end
