(* ===== verification/Sizing.thy ===== *)
theory Sizing
  imports Domain_Models
begin

text \<open>
  Lots and protocol volumes (\<^verbatim>\<open>copier/domain/sizing.py\<close>). The source computes in
  \<^verbatim>\<open>Decimal\<close>, 28 significant digits per operation; so does the model. The lemmas show
  that within the volumes a broker can report the roundings are invisible: the results are those
  of exact integer arithmetic.
\<close>

definition protocol_volume_to_lots :: "int \<Rightarrow> int \<Rightarrow> rat res" where
  "protocol_volume_to_lots volume lot_size =
     (if lot_size = 0 then Inl DecimalError
      else Inr (dec (of_int volume / of_int lot_size)))"

definition lots_to_protocol_volume :: "rat \<Rightarrow> int \<Rightarrow> int" where
  "lots_to_protocol_volume lots lot_size = round_half_up (dec (lots * of_int lot_size))"

definition floor_to_step :: "int \<Rightarrow> int \<Rightarrow> int" where
  "floor_to_step volume step_volume =
     (if step_volume \<le> 0 then volume else (volume div step_volume) * step_volume)"

definition mirror_volume :: "int \<Rightarrow> int \<Rightarrow> rat \<Rightarrow> int \<Rightarrow> int \<Rightarrow> int res" where
  "mirror_volume master_volume master_lot_size multiplier slave_lot_size slave_step_volume =
     res_bind (protocol_volume_to_lots master_volume master_lot_size) (\<lambda>l.
       let lots = dec (l * multiplier)
       in Inr (floor_to_step (lots_to_protocol_volume lots slave_lot_size) slave_step_volume))"

definition partial_close_volume :: "int \<Rightarrow> int \<Rightarrow> int \<Rightarrow> int \<Rightarrow> int res" where
  "partial_close_volume slave_volume closed_volume remaining_volume step_volume =
     (if remaining_volume = 0 then Inr slave_volume
      else let total = closed_volume + remaining_volume in
        if total = 0 then Inl DecimalError
        else let exact = dec (dec (of_int slave_volume * of_int closed_volume) / of_int total)
             in Inr (min (floor_to_step (py_trunc exact) step_volume) slave_volume))"

section \<open>Steps\<close>

lemma floor_to_step_le: "0 < s \<Longrightarrow> floor_to_step v s \<le> v"
  by (simp add: floor_to_step_def minus_mod_eq_div_mult [symmetric])

lemma floor_to_step_gt: "0 < s \<Longrightarrow> v - s < floor_to_step v s"
  by (simp add: floor_to_step_def minus_mod_eq_div_mult [symmetric])

lemma floor_to_step_dvd: "0 < s \<Longrightarrow> s dvd floor_to_step v s"
  by (simp add: floor_to_step_def)

lemma floor_to_step_le': "floor_to_step v s \<le> v"
  using floor_to_step_le [of s v] by (cases "0 < s") (auto simp: floor_to_step_def)

lemma floor_to_step_nonneg: "0 \<le> v \<Longrightarrow> 0 \<le> floor_to_step v s"
  by (cases "s \<le> 0") (auto simp: floor_to_step_def pos_imp_zdiv_nonneg_iff)

lemma floor_to_step_mono: "v \<le> w \<Longrightarrow> floor_to_step v s \<le> floor_to_step w s"
  by (auto simp: floor_to_step_def zdiv_mono1)

section \<open>Mirrored volumes\<close>

text \<open>The volume to mirror before any rounding: lots scaled by the multiplier, in slave units.\<close>

definition exact_mirror :: "int \<Rightarrow> int \<Rightarrow> rat \<Rightarrow> int \<Rightarrow> rat" where
  "exact_mirror v ml m sl = of_int v * m * of_int sl / of_int ml"

text \<open>The three roundings of \<open>mirror_volume\<close>, as one relative error.\<close>

lemma mirror_error:
  "\<bar>dec (dec (dec (of_int v / of_int ml) * m) * of_int sl) - exact_mirror v ml m sl\<bar>
    \<le> 2 / 10 ^ 27 * \<bar>exact_mirror v ml m sl\<bar>"
proof -
  let ?E = "exact_mirror v ml m sl"
  let ?u = "1 / (2 * 10 ^ 27) :: rat"
  let ?w = "?u + ?u + ?u * ?u"
  have "\<bar>dec (m * dec (of_int v / of_int ml)) - m * (of_int v / of_int ml)\<bar>
      \<le> ?w * \<bar>m * (of_int v / of_int ml)\<bar>"
    by (intro dec.rnd_scaled_error dec.rnd_error)
  then have "\<bar>dec (of_int sl * dec (m * dec (of_int v / of_int ml)))
        - of_int sl * (m * (of_int v / of_int ml))\<bar>
      \<le> (?u + ?w + ?u * ?w) * \<bar>of_int sl * (m * (of_int v / of_int ml))\<bar>"
    by (rule dec.rnd_scaled_error)
  moreover have "of_int sl * (m * (of_int v / of_int ml)) = ?E" by (simp add: exact_mirror_def)
  ultimately have "\<bar>dec (of_int sl * dec (m * dec (of_int v / of_int ml))) - ?E\<bar>
      \<le> (?u + ?w + ?u * ?w) * \<bar>?E\<bar>"
    by (simp only:)
  also have "\<dots> \<le> 2 / 10 ^ 27 * \<bar>?E\<bar>" by (intro mult_right_mono) auto
  finally show ?thesis by (simp only: mult.commute [of _ "of_int sl"] mult.commute [of _ m])
qed

lemma mirror_raw_near:
  assumes "\<bar>exact_mirror v ml m sl\<bar> \<le> 10 ^ 25"
  shows "\<bar>of_int (lots_to_protocol_volume (dec (dec (of_int v / of_int ml) * m)) sl)
      - exact_mirror v ml m sl\<bar> \<le> 13 / 25"
proof -
  let ?E = "exact_mirror v ml m sl"
  have "\<bar>dec (dec (dec (of_int v / of_int ml) * m) * of_int sl) - ?E\<bar> \<le> 2 / 10 ^ 27 * \<bar>?E\<bar>"
    by (rule mirror_error)
  also have "\<dots> \<le> 2 / 10 ^ 27 * 10 ^ 25" using assms by (intro mult_left_mono) auto
  finally have "\<bar>dec (dec (dec (of_int v / of_int ml) * m) * of_int sl) - ?E\<bar> \<le> 1 / 50" by simp
  then show ?thesis
    using round_half_up_error [of "dec (dec (dec (of_int v / of_int ml) * m) * of_int sl)"]
    unfolding lots_to_protocol_volume_def by linarith
qed

lemma mirror_volume_integral:
  assumes "ml \<noteq> 0" and E: "exact_mirror v ml m sl = of_int k"
    and "\<bar>k\<bar> \<le> 10 ^ 25"
  shows "mirror_volume v ml m sl step = Inr (floor_to_step k step)"
proof -
  have "\<bar>rat_of_int k\<bar> \<le> 10 ^ 25"
    using assms(3) by (metis of_int_abs of_int_le_iff of_int_numeral of_int_power)
  then have "\<bar>rat_of_int (lots_to_protocol_volume (dec (dec (of_int v / of_int ml) * m)) sl) - of_int k\<bar>
      \<le> 13 / 25"
    using mirror_raw_near [of v ml m sl] E by simp
  then have "lots_to_protocol_volume (dec (dec (of_int v / of_int ml) * m)) sl = k" by linarith
  then show ?thesis
    using assms(1) by (simp add: mirror_volume_def protocol_volume_to_lots_def)
qed

section \<open>Partial closes\<close>

lemma partial_exact_bounds:
  assumes "0 \<le> s" "0 \<le> c" "0 < r"
  shows "0 \<le> py_trunc (dec (dec (of_int s * of_int c) / of_int (c + r)))"
  using assms by (intro py_trunc_nonneg dec.rnd_nonneg divide_nonneg_nonneg) auto

text \<open>
  Below \<open>10\<^sup>1\<^sup>3\<close> units (a hundred billion lots of a standard contract) the two roundings of the
  quotient never cross an integer: the truncated decimal is the integer quotient.
\<close>

lemma partial_exact_div:
  assumes s: "0 \<le> s" "s < 10 ^ 13" and c: "0 \<le> c" and r: "0 < r" and t: "c + r < 10 ^ 13"
  shows "py_trunc (dec (dec (of_int s * of_int c) / of_int (c + r))) = s * c div (c + r)"
proof -
  define t where "t = c + r"
  have t0: "0 < t" using c r by (simp add: t_def)
  have sc: "s * c < 10 ^ 28" "0 \<le> s * c"
  proof -
    have "s * c \<le> 10 ^ 13 * 10 ^ 13" using s c r t by (intro mult_mono) auto
    then show "s * c < 10 ^ 28" by simp
    show "0 \<le> s * c" using s c by simp
  qed
  have "dec (of_int s * of_int c) = of_int (s * c)" using sc dec_int [of "s * c"] by simp
  define q :: rat where "q = of_int (s * c) / of_int t"
  define k where "k = s * c div t"
  have qs: "0 \<le> q" "q \<le> 10 ^ 13"
  proof -
    show "0 \<le> q" using s c t0 by (simp add: q_def)
    have "s * c \<le> 10 ^ 13 * t" using s c r by (intro mult_mono) (auto simp: t_def)
    then have "rat_of_int (s * c) \<le> of_int (10 ^ 13 * t)" by (simp only: of_int_le_iff)
    then show "q \<le> 10 ^ 13" using t0 by (simp add: q_def pos_divide_le_eq)
  qed
  have k0: "0 \<le> k" "k < 10 ^ 28"
  proof -
    show "0 \<le> k" using sc t0 by (simp add: k_def pos_imp_zdiv_nonneg_iff)
    have "k \<le> k * t" using t0 \<open>0 \<le> k\<close> by (simp add: mult_le_cancel_left1)
    also have "\<dots> \<le> s * c" using t0 by (simp add: k_def minus_mod_eq_div_mult [symmetric])
    finally show "k < 10 ^ 28" using sc by simp
  qed
  have lo: "of_int k \<le> q"
  proof -
    have "k * t \<le> s * c" using t0 by (simp add: k_def minus_mod_eq_div_mult [symmetric])
    then have "rat_of_int (k * t) \<le> of_int (s * c)" by (simp only: of_int_le_iff)
    then show ?thesis using t0 by (simp add: q_def pos_le_divide_eq)
  qed
  have hi: "q \<le> of_int k + 1 - 1 / 10 ^ 13"
  proof -
    have "s * c + 1 \<le> (k + 1) * t"
      using pos_mod_bound [OF t0, of "s * c"] div_mult_mod_eq [of "s * c" t]
      unfolding k_def distrib_right by linarith
    then have "rat_of_int (s * c + 1) \<le> of_int ((k + 1) * t)" by (simp only: of_int_le_iff)
    then have "q + 1 / of_int t \<le> of_int k + 1"
      using t0 by (simp add: q_def pos_divide_le_eq flip: add_divide_distrib)
    moreover have "1 / 10 ^ 13 \<le> 1 / rat_of_int t"
    proof -
      have "rat_of_int t \<le> of_int (10 ^ 13)" using t by (simp only: t_def of_int_le_iff)
      then show ?thesis using t0 by (intro divide_left_mono) auto
    qed
    ultimately show ?thesis by linarith
  qed
  have "of_int k \<le> dec q"
    using dec.rnd_mono [OF lo] dec_int [of k] k0 by simp
  moreover have "dec q < of_int k + 1"
  proof -
    have "dec q - q \<le> \<bar>dec q - q\<bar>" by simp
    also have "\<dots> \<le> 1 / (2 * 10 ^ 27) * \<bar>q\<bar>" by (rule dec.rnd_error)
    also have "\<dots> \<le> 1 / (2 * 10 ^ 27) * 10 ^ 13" using qs by (intro mult_left_mono) auto
    finally have "dec q - q \<le> 1 / (2 * 10 ^ 27) * 10 ^ 13" .
    then show ?thesis using hi by simp
  qed
  ultimately have "py_trunc (dec q) = k" using k0 unfolding py_trunc_def by (simp; linarith)
  then show ?thesis
    using \<open>dec (of_int s * of_int c) = of_int (s * c)\<close> by (simp add: q_def k_def t_def)
qed

section \<open>What a copy is sized to\<close>

text \<open>
  A one-to-one copy on the same contract reproduces the master's volume exactly: with
  multiplier 1, equal lot sizes and a volume that is a multiple of the slave's step, the three
  decimal roundings and the step floor of the mirroring leave the volume unchanged.
\<close>

lemma mirror_one_to_one:
  assumes "0 < lot" "0 < step" "step dvd v" "\<bar>v\<bar> \<le> 10 ^ 25"
  shows "mirror_volume v lot 1 lot step = Inr v"
  using assms mirror_volume_integral [of lot v 1 lot v step]
  by (simp add: exact_mirror_def floor_to_step_def)

text \<open>
  In general the mirrored volume is a whole number of the slave's steps, at most a rounding of
  half a unit above the exactly scaled volume and less than a step below it.
\<close>

lemma mirror_volume_bounds:
  assumes "ml \<noteq> 0" "0 < step" "\<bar>exact_mirror v ml m sl\<bar> \<le> 10 ^ 25"
  shows "\<exists>w. mirror_volume v ml m sl step = Inr w \<and> step dvd w \<and>
    of_int w \<le> exact_mirror v ml m sl + 13 / 25 \<and>
    exact_mirror v ml m sl - 13 / 25 < of_int w + of_int step"
proof -
  define raw where "raw = lots_to_protocol_volume (dec (dec (of_int v / of_int ml) * m)) sl"
  have "mirror_volume v ml m sl step = Inr (floor_to_step raw step)"
    using assms(1) by (simp add: mirror_volume_def protocol_volume_to_lots_def raw_def)
  moreover have "\<bar>of_int raw - exact_mirror v ml m sl\<bar> \<le> 13 / 25"
    using mirror_raw_near [OF assms(3)] by (simp add: raw_def)
  moreover have "floor_to_step raw step \<le> raw" "raw < floor_to_step raw step + step"
    using floor_to_step_le [OF assms(2), of raw] floor_to_step_gt [OF assms(2), of raw] by simp_all
  then have "rat_of_int (floor_to_step raw step) \<le> of_int raw"
    "rat_of_int raw < of_int (floor_to_step raw step) + of_int step"
    by (simp_all only: of_int_le_iff of_int_less_iff flip: of_int_add)
  ultimately show ?thesis
    using floor_to_step_dvd [OF assms(2), of raw]
    by (intro exI [of _ "floor_to_step raw step"] conjI; linarith?; simp)
qed

text \<open>
  C37. A partial close takes from the slave the integer share
  \<open>slave * closed div (closed + remaining)\<close>, floored to the step: the decimal quotient never crosses
  an integer for volumes below ten trillion units. The amount lies between 0 and what the slave
  holds, and a full close (nothing remaining) takes all of it.
\<close>

theorem partial_close_volume_exact:
  assumes "0 \<le> sv" "sv < 10 ^ 13" "0 \<le> cl" "0 \<le> rem" "cl + rem < 10 ^ 13"
  shows "\<exists>w. partial_close_volume sv cl rem step = Inr w \<and> 0 \<le> w \<and> w \<le> sv \<and>
    w = (if rem = 0 then sv
         else floor_to_step (sv * cl div (cl + rem)) step)"
proof (cases "rem = 0")
  case True
  then show ?thesis using assms by (simp add: partial_close_volume_def)
next
  case False
  let ?q = "sv * cl div (cl + rem)"
  have "?q \<le> sv"
  proof -
    have "sv * cl \<le> sv * (cl + rem)" using assms by (intro mult_left_mono) auto
    then have "?q \<le> sv * (cl + rem) div (cl + rem)"
      using assms False by (intro zdiv_mono1) auto
    then show ?thesis using assms False by simp
  qed
  moreover have "0 \<le> ?q" using assms False by (simp add: pos_imp_zdiv_nonneg_iff)
  ultimately show ?thesis
    using False assms partial_exact_div [of sv cl rem] floor_to_step_le' [of ?q step]
      floor_to_step_nonneg [of ?q step]
    by (simp add: partial_close_volume_def Let_def min_absorb1)
qed

theorem partial_close_volume_exact_witness:
  "\<exists>w. partial_close_volume 70000 50000 100000 1000 = Inr w \<and> 0 \<le> w \<and> w \<le> 70000 \<and>
    w = (if (100000::int) = 0 then 70000 else floor_to_step (70000 * 50000 div (50000 + 100000)) 1000)"
  by (rule partial_close_volume_exact) simp_all

end
