(* ===== verification/Decision.thy ===== *)
theory Decision
  imports Sizing
begin

text \<open>
  The replication decision core (\<^verbatim>\<open>copier/domain/decision.py\<close>): a pure function from a
  master event, the mapping state and the slave configurations to the list of slave intents. One
  definition per function of the source; a \<^verbatim>\<open>for\<close> loop that appends to
  \<^verbatim>\<open>out\<close> is a \<open>map_res\<close> over what it iterates, its result in order.
  \<^verbatim>\<open>enabled.keys() - covered\<close> is a set difference, whose iteration order Python leaves
  open; the model takes the order of the dict.
\<close>

definition enabled_slaves :: "slave_config list \<Rightarrow> slave_config list" where
  "enabled_slaves slaves = filter sc_enabled slaves"

definition by_id :: "slave_config list \<Rightarrow> (ident, slave_config) dict" where
  "by_id slaves = dict_of (map (\<lambda>s. (sc_account_id s, s)) (enabled_slaves slaves))"

text \<open>One alert per enabled slave that no mapped copy covered.\<close>

definition uncovered_alerts :: "(ident, slave_config) dict \<Rightarrow> ident list \<Rightarrow> string \<Rightarrow> slave_intent list" where
  "uncovered_alerts enabled covered msg =
     map (\<lambda>a. Alert (Some a) msg) (filter (\<lambda>a. a \<notin> set covered) (map fst enabled))"

definition position_opened :: "master_event \<Rightarrow> slave_config list \<Rightarrow> slave_intent list res" where
  "position_opened e slaves = map_res (\<lambda>s.
     case map_of (sc_symbols s) (ev_symbol_name e) of
       None \<Rightarrow> Inr (Alert (Some (sc_account_id s))
         (''cannot copy position '' @ str_int (ev_position_id e) @ '': symbol ''
            @ py_repr (ev_symbol_name e) @ '' not available''))
     | Some sy \<Rightarrow>
         res_bind (mirror_volume (ev_volume e) (ev_lot_size e) (sc_multiplier s)
                     (si_lot_size sy) (si_step_volume sy)) (\<lambda>vol.
           Inr (if vol = 0
                then Alert (Some (sc_account_id s))
                  (''cannot copy position '' @ str_int (ev_position_id e)
                     @ '': mirrored volume rounds to 0'')
                else OpenMarket (sc_account_id s) (ev_position_id e) (si_symbol_id sy) (ev_side e) vol
                  (ev_stop_loss e) (ev_take_profit e) (''copy:m'' @ str_int (ev_position_id e))
                  (ev_symbol_name e) (ev_entry_price e))))
     (enabled_slaves slaves)"

definition entry_close :: "master_event \<Rightarrow> slave_config \<Rightarrow> position_entry \<Rightarrow> slave_intent res" where
  "entry_close e s entry =
     (let step = (case map_of (sc_symbols s) (ev_symbol_name e) of
                    Some sy \<Rightarrow> si_step_volume sy | None \<Rightarrow> 1)
      in res_bind (partial_close_volume (pe_slave_volume entry) (ev_closed_volume e)
                     (ev_remaining_volume e) step) (\<lambda>vol.
           Inr (if vol = 0
                then Alert (Some (sc_account_id s))
                  (''partial close of position '' @ str_int (ev_position_id e) @ '' rounds to 0 on slave'')
                else ClosePosition (sc_account_id s) (pe_slave_position_id entry) vol
                  (Some (ev_position_id e)))))"

text \<open>
  The entries of enabled slaves, each with its slave: what the loops over the mapping entries
  keep after their \<^verbatim>\<open>continue\<close>.
\<close>

definition live_entries ::
  "(ident, slave_config) dict \<Rightarrow> ('e \<Rightarrow> ident) \<Rightarrow> 'e list \<Rightarrow> (slave_config \<times> 'e) list" where
  "live_entries enabled account_of entries =
     List.map_filter (\<lambda>x. map_option (\<lambda>s. (s, x)) (map_of enabled (account_of x))) entries"

definition position_closed ::
  "master_event \<Rightarrow> mapping_state \<Rightarrow> slave_config list \<Rightarrow> slave_intent list res" where
  "position_closed e mappings slaves =
     (let enabled = by_id slaves;
          live = live_entries enabled pe_slave_account_id (position_entries_of mappings (ev_position_id e))
      in res_bind (map_res (\<lambda>(s, entry). entry_close e s entry) live) (\<lambda>out.
           Inr (out @ uncovered_alerts enabled (map (pe_slave_account_id \<circ> snd) live)
             (''master closed position '' @ str_int (ev_position_id e) @ '' but slave has no mapped copy''))))"

definition position_sltp ::
  "master_event \<Rightarrow> mapping_state \<Rightarrow> slave_config list \<Rightarrow> slave_intent list res" where
  "position_sltp e mappings slaves =
     (let enabled = by_id slaves;
          live = live_entries enabled pe_slave_account_id (position_entries_of mappings (ev_position_id e))
      in Inr (map (\<lambda>(_, entry). AmendPositionSLTP (pe_slave_account_id entry)
                     (pe_slave_position_id entry) (ev_stop_loss e) (ev_take_profit e)) live
              @ uncovered_alerts enabled (map (pe_slave_account_id \<circ> snd) live)
                 (''SL/TP change on master position '' @ str_int (ev_position_id e)
                    @ '' but slave has no mapped copy'')))"

subsection \<open>Pending orders\<close>

definition pending_placed :: "master_event \<Rightarrow> slave_config list \<Rightarrow> slave_intent list res" where
  "pending_placed e slaves = map_res (\<lambda>s.
     case map_of (sc_symbols s) (ev_symbol_name e) of
       None \<Rightarrow> Inr (Alert (Some (sc_account_id s))
         (''cannot copy order '' @ str_int (ev_order_id e) @ '': symbol ''
            @ py_repr (ev_symbol_name e) @ '' not available''))
     | Some sy \<Rightarrow>
         res_bind (mirror_volume (ev_volume e) (ev_lot_size e) (sc_multiplier s)
                     (si_lot_size sy) (si_step_volume sy)) (\<lambda>vol.
           Inr (if vol = 0
                then Alert (Some (sc_account_id s))
                  (''cannot copy order '' @ str_int (ev_order_id e) @ '': mirrored volume rounds to 0'')
                else PlacePending (sc_account_id s) (ev_order_id e) (si_symbol_id sy) (ev_side e)
                  (ev_order_type e) vol (ev_price e) (ev_stop_loss e) (ev_take_profit e)
                  (ev_expiry_ts_ms e) (''copy:o'' @ str_int (ev_order_id e)) (ev_symbol_name e))))
     (enabled_slaves slaves)"

definition entry_replace :: "master_event \<Rightarrow> slave_config \<Rightarrow> order_entry \<Rightarrow> slave_intent res" where
  "entry_replace e s entry =
     (case map_of (sc_symbols s) (ev_symbol_name e) of
        None \<Rightarrow> Inr (Alert (Some (sc_account_id s))
          (''cannot amend order copy of '' @ str_int (ev_order_id e) @ '': symbol missing''))
      | Some sy \<Rightarrow>
          res_bind (mirror_volume (ev_volume e) (ev_lot_size e) (sc_multiplier s)
                      (si_lot_size sy) (si_step_volume sy)) (\<lambda>vol.
            Inr (if vol = 0
                 then Alert (Some (sc_account_id s))
                   (''cannot amend order '' @ str_int (ev_order_id e) @ '': mirrored volume rounds to 0'')
                 else AmendPending (sc_account_id s) (oe_slave_order_id entry) (ev_order_type e) vol
                   (ev_price e) (ev_stop_loss e) (ev_take_profit e))))"

definition decide_pending ::
  "master_event \<Rightarrow> mapping_state \<Rightarrow> slave_config list \<Rightarrow> slave_intent list res" where
  "decide_pending e mappings slaves =
     (let enabled = by_id slaves;
          live = (\<lambda>order_id. live_entries enabled oe_slave_account_id (order_entries_of mappings order_id));
          rest = (\<lambda>order_id. uncovered_alerts enabled (map (oe_slave_account_id \<circ> snd) (live order_id)))
      in case e of
        MasterPendingPlaced _ _ _ _ _ _ _ _ _ _ \<Rightarrow> pending_placed e slaves
      | MasterPendingReplaced order_id _ _ _ _ _ _ _ \<Rightarrow>
          res_bind (map_res (\<lambda>(s, entry). entry_replace e s entry) (live order_id)) (\<lambda>out.
            Inr (out @ rest order_id
              (''master replaced order '' @ str_int order_id @ '' but slave has no mapped order'')))
      | MasterPendingCancelled order_id \<Rightarrow>
          Inr (map (\<lambda>(_, entry). CancelPending (oe_slave_account_id entry) (oe_slave_order_id entry))
                 (live order_id)
               @ rest order_id
                 (''master cancelled order '' @ str_int order_id @ '' but slave has no mapped order''))
      | MasterPendingFilled order_id position_id \<Rightarrow>
          Inr (map (\<lambda>(_, entry). LinkPendingFill (oe_slave_account_id entry) order_id position_id)
                 (live order_id)
               @ rest order_id
                 (''master order '' @ str_int order_id @ '' filled but slave has no mapped order''))
      | _ \<Rightarrow> Inr [])"

definition decide :: "master_event \<Rightarrow> mapping_state \<Rightarrow> slave_config list \<Rightarrow> slave_intent list res" where
  "decide event mappings slaves =
     (case event of
        MasterPositionOpened _ _ _ _ _ _ _ _ \<Rightarrow> position_opened event slaves
      | MasterPositionClosed _ _ _ _ \<Rightarrow> position_closed event mappings slaves
      | MasterPositionSLTPAmended _ _ _ \<Rightarrow> position_sltp event mappings slaves
      | MasterRejected _ \<Rightarrow> Inr []
      | _ \<Rightarrow> decide_pending event mappings slaves)"

section \<open>Who the intents are for\<close>

lemma by_id_SomeD:
  "map_of (by_id slaves) a = Some s \<Longrightarrow> s \<in> set slaves \<and> sc_enabled s \<and> sc_account_id s = a"
  unfolding by_id_def by (drule map_of_dict_of_SomeD) (auto simp: enabled_slaves_def)

lemma by_id_keys: "fst ` set (by_id slaves) = sc_account_id ` set (enabled_slaves slaves)"
  by (force simp: by_id_def dict_of_keys)

lemma live_entries_set:
  "(s, x) \<in> set (live_entries en f xs) \<longleftrightarrow> x \<in> set xs \<and> map_of en (f x) = Some s"
  by (force simp: live_entries_def map_filter_def split: if_splits)

lemma live_entries_account:
  "(s, x) \<in> set (live_entries (by_id slaves) f xs) \<Longrightarrow>
   sc_account_id s = f x \<and> s \<in> set slaves \<and> sc_enabled s"
  by (auto simp: live_entries_set dest: by_id_SomeD)

text \<open>The accounts the enabled slaves have: each is covered by a live entry or by an alert.\<close>

definition enabled_accounts :: "slave_config list \<Rightarrow> ident set" where
  "enabled_accounts slaves = sc_account_id ` set (enabled_slaves slaves)"

lemma covered_or_alerted:
  "(\<lambda>(s, x). Some (f x)) ` set (live_entries (by_id slaves) f xs) \<union>
   slave_account_of ` set (uncovered_alerts (by_id slaves) (map (f \<circ> snd) (live_entries (by_id slaves) f xs)) msg)
   = Some ` enabled_accounts slaves"
proof -
  let ?L = "live_entries (by_id slaves) f xs"
  have "(\<lambda>(s, x). f x) ` set ?L \<subseteq> enabled_accounts slaves"
    using live_entries_account [of _ _ slaves f xs] by (force simp: enabled_accounts_def enabled_slaves_def)
  moreover have "(\<lambda>(s, x). f x) ` set ?L = set (map (f \<circ> snd) ?L)" by force
  moreover have "slave_account_of ` set (uncovered_alerts (by_id slaves) cov msg)
      = Some ` (enabled_accounts slaves - set cov)" for cov
    by (force simp: uncovered_alerts_def enabled_accounts_def simp flip: by_id_keys)
  moreover have "(\<lambda>(s, x). Some (f x)) ` set ?L = Some ` ((\<lambda>(s, x). f x) ` set ?L)" by force
  ultimately show ?thesis by (simp flip: image_Un add: Un_absorb1 del: set_map)
qed

text \<open>A loop whose every step emits one intent for the account it looks at.\<close>

lemma map_res_accounts:
  assumes "map_res g xs = Inr ys" "\<And>x y. x \<in> set xs \<Longrightarrow> g x = Inr y \<Longrightarrow> slave_account_of y = h x"
  shows "slave_account_of ` set ys = h ` set xs"
proof -
  have "map slave_account_of ys = map h xs"
    using assms by (induction xs arbitrary: ys) (auto simp: res_bind_Inr_iff)
  from arg_cong [OF this, of set] show ?thesis by simp
qed

lemma entry_close_account: "entry_close e s x = Inr i \<Longrightarrow> slave_account_of i = Some (sc_account_id s)"
  by (auto simp: entry_close_def Let_def res_bind_Inr_iff)

lemma entry_replace_account: "entry_replace e s x = Inr i \<Longrightarrow> slave_account_of i = Some (sc_account_id s)"
  by (auto simp: entry_replace_def res_bind_Inr_iff split: option.splits)

lemma position_opened_accounts:
  "position_opened e slaves = Inr out \<Longrightarrow> slave_account_of ` set out = Some ` enabled_accounts slaves"
  unfolding position_opened_def
  by (drule map_res_accounts [where h = "Some \<circ> sc_account_id"])
    (auto simp: res_bind_Inr_iff enabled_slaves_def enabled_accounts_def image_comp split: option.splits)

lemma pending_placed_accounts:
  "pending_placed e slaves = Inr out \<Longrightarrow> slave_account_of ` set out = Some ` enabled_accounts slaves"
  unfolding pending_placed_def
  by (drule map_res_accounts [where h = "Some \<circ> sc_account_id"])
    (auto simp: res_bind_Inr_iff enabled_slaves_def enabled_accounts_def image_comp split: option.splits)

lemma live_loop_accounts:
  assumes "map_res g (live_entries (by_id slaves) f xs) = Inr out"
    and "\<And>s x i. g (s, x) = Inr i \<Longrightarrow> slave_account_of i = Some (sc_account_id s)"
  shows "slave_account_of ` set (out @ uncovered_alerts (by_id slaves)
      (map (f \<circ> snd) (live_entries (by_id slaves) f xs)) msg) = Some ` enabled_accounts slaves"
proof -
  have "slave_account_of ` set out = (\<lambda>(s, x). Some (f x)) ` set (live_entries (by_id slaves) f xs)"
    by (rule map_res_accounts [OF assms(1)]) (auto dest!: assms(2) live_entries_account)
  then show ?thesis using covered_or_alerted [of f slaves xs msg] by (simp add: image_Un)
qed

lemma live_map_accounts:
  assumes "\<And>s x. slave_account_of (g (s, x)) = Some (f x)"
  shows "slave_account_of ` set (map g (live_entries (by_id slaves) f xs) @ uncovered_alerts (by_id slaves)
      (map (f \<circ> snd) (live_entries (by_id slaves) f xs)) msg) = Some ` enabled_accounts slaves"
proof -
  have "slave_account_of (g x) = Some (f (snd x))" for x using assms by (cases x) simp
  then show ?thesis
    using covered_or_alerted [of f slaves xs msg] by (simp add: image_Un image_comp case_prod_unfold)
qed

lemma decide_pending_accounts:
  assumes "decide_pending e mappings slaves = Inr out"
    "e = MasterPendingPlaced q n d t v l p sl tp x \<or> e = MasterPendingReplaced q n l t v p sl tp
     \<or> e = MasterPendingCancelled q \<or> e = MasterPendingFilled q m"
  shows "slave_account_of ` set out = Some ` enabled_accounts slaves"
  using assms(2)
proof (elim disjE)
  assume "e = MasterPendingReplaced q n l t v p sl tp"
  with assms(1) show ?thesis
    by (auto simp: decide_pending_def Let_def res_bind_Inr_iff simp del: set_append append_assoc
        dest: entry_replace_account intro!: live_loop_accounts)
next
  assume "e = MasterPendingCancelled q"
  with assms(1) show ?thesis
    by (auto simp: decide_pending_def Let_def simp del: set_append append_assoc intro!: live_map_accounts)
next
  assume "e = MasterPendingFilled q m"
  with assms(1) show ?thesis
    by (auto simp: decide_pending_def Let_def simp del: set_append append_assoc intro!: live_map_accounts)
qed (use assms(1) in \<open>simp add: decide_pending_def Let_def pending_placed_accounts\<close>)

lemma decide_accounts:
  assumes "decide event mappings slaves = Inr out" "\<And>reason. event \<noteq> MasterRejected reason"
  shows "slave_account_of ` set out = Some ` enabled_accounts slaves"
proof (cases event)
  case (MasterPositionClosed p n c r)
  with assms(1) show ?thesis
    by (auto simp: decide_def position_closed_def Let_def res_bind_Inr_iff
        simp del: set_append append_assoc dest: entry_close_account intro!: live_loop_accounts)
next
  case (MasterPositionSLTPAmended p sl tp)
  with assms(1) show ?thesis
    by (auto simp: decide_def position_sltp_def Let_def simp del: set_append append_assoc
        intro!: live_map_accounts)
qed (use assms decide_pending_accounts position_opened_accounts in
      \<open>(simp add: decide_def; fastforce?)+\<close>)

section \<open>What the decision core promises\<close>

text \<open>A follower and a mapped copy to apply the theorems to.\<close>

definition witness_slave :: slave_config where
  "witness_slave = \<lparr>sc_account_id = 7, sc_enabled = True, sc_multiplier = 1,
     sc_symbols = [(''EURUSD'', \<lparr>si_symbol_id = 3, si_name = ''EURUSD'', si_digits = 5,
       si_lot_size = 10000000, si_min_volume = 100000, si_step_volume = 100000\<rparr>)]\<rparr>"

definition witness_mappings :: mapping_state where
  "witness_mappings = \<lparr>position_entries_of = (\<lambda>p. if p = 41
       then [\<lparr>pe_slave_account_id = 7, pe_slave_position_id = 900, pe_slave_volume = 300000\<rparr>] else []),
     order_entries_of = (\<lambda>_. [])\<rparr>"



text \<open>
  Deciding never raises on events a broker can send: a positive contract size, and a close that
  closed or left something. The decision is total there.
\<close>

lemma decide_total:
  assumes "case event of
      MasterPositionOpened _ _ _ _ lot _ _ _ \<Rightarrow> lot \<noteq> 0
    | MasterPositionClosed _ _ c r \<Rightarrow> r = 0 \<or> c + r \<noteq> 0
    | MasterPendingPlaced _ _ _ _ _ lot _ _ _ _ \<Rightarrow> lot \<noteq> 0
    | MasterPendingReplaced _ _ lot _ _ _ _ _ \<Rightarrow> lot \<noteq> 0
    | _ \<Rightarrow> True"
  shows "\<exists>out. decide event mappings slaves = Inr out"
proof -
  have mirror: "\<exists>w. mirror_volume v lot m sl st = Inr w" if "lot \<noteq> 0" for v lot m sl st
    using that by (simp add: mirror_volume_def protocol_volume_to_lots_def Let_def)
  have opened: "\<exists>out. position_opened event slaves = Inr out" if "ev_lot_size event \<noteq> 0"
    unfolding position_opened_def using mirror [OF that]
    by (intro map_res_ok) (auto split: option.splits simp: res_bind_Inr_iff)
  have placed: "\<exists>out. pending_placed event slaves = Inr out" if "ev_lot_size event \<noteq> 0"
    unfolding pending_placed_def using mirror [OF that]
    by (intro map_res_ok) (auto split: option.splits simp: res_bind_Inr_iff)
  have closed: "\<exists>y. entry_close event s x = Inr y"
    if "ev_remaining_volume event = 0 \<or> ev_closed_volume event + ev_remaining_volume event \<noteq> 0" for s x
    using that by (auto simp: entry_close_def partial_close_volume_def Let_def)
  have replaced: "\<exists>y. entry_replace event s x = Inr y" if "ev_lot_size event \<noteq> 0" for s x
    using mirror [OF that] by (auto simp: entry_replace_def res_bind_Inr_iff split: option.splits)
  show ?thesis
  proof (cases event)
    case (MasterPositionClosed p n c r)
    have "\<exists>out. map_res (\<lambda>(s, entry). entry_close event s entry) xs = Inr out" for xs
      using closed assms MasterPositionClosed by (intro map_res_ok) auto
    then show ?thesis
      using MasterPositionClosed by (auto simp: decide_def position_closed_def Let_def res_bind_Inr_iff)
  next
    case (MasterPendingReplaced q n lot t v pr sl tp)
    have "\<exists>out. map_res (\<lambda>(s, entry). entry_replace event s entry) xs = Inr out" for xs
      using replaced assms MasterPendingReplaced by (intro map_res_ok) auto
    then show ?thesis
      using MasterPendingReplaced by (auto simp: decide_def decide_pending_def Let_def res_bind_Inr_iff)
  qed (use assms opened placed in
        \<open>auto simp: decide_def decide_pending_def position_sltp_def Let_def\<close>)
qed

text \<open>Closing for good closes each mapped copy for the whole volume its mapping records.\<close>

lemma full_close_intents:
  assumes "decide (MasterPositionClosed p name c 0) mappings slaves = Inr out"
  shows "filter (\<lambda>i. \<not> is_alert i) out =
    map (\<lambda>x. ClosePosition (pe_slave_account_id x) (pe_slave_position_id x) (pe_slave_volume x) (Some p))
      (filter (\<lambda>x. pe_slave_account_id x \<in> enabled_accounts slaves \<and> pe_slave_volume x \<noteq> 0)
        (position_entries_of mappings p))"
proof -
  let ?live = "live_entries (by_id slaves) pe_slave_account_id (position_entries_of mappings p)"
  let ?e = "MasterPositionClosed p name c 0"
  have alerts: "filter (\<lambda>i. \<not> is_alert i) (uncovered_alerts en cov msg) = []" for en cov msg
    by (auto simp: uncovered_alerts_def filter_empty_conv)
  obtain cs where cs: "map_res (\<lambda>(s, entry). entry_close ?e s entry) ?live = Inr cs"
    and out: "filter (\<lambda>i. \<not> is_alert i) out = filter (\<lambda>i. \<not> is_alert i) cs"
    using assms alerts by (auto simp: decide_def position_closed_def Let_def res_bind_Inr_iff)
  have en: "pe_slave_account_id x \<in> enabled_accounts slaves \<longleftrightarrow>
      (\<exists>s. map_of (by_id slaves) (pe_slave_account_id x) = Some s)" for x
    unfolding enabled_accounts_def by_id_keys [symmetric]
    by (metis dom_map_of_conv_image_fst domIff not_Some_eq)
  have "filter (\<lambda>i. \<not> is_alert i) cs =
      map (\<lambda>x. ClosePosition (pe_slave_account_id x) (pe_slave_position_id x) (pe_slave_volume x) (Some p))
        (filter (\<lambda>x. pe_slave_account_id x \<in> enabled_accounts slaves \<and> pe_slave_volume x \<noteq> 0) xs)"
    if "map_res (\<lambda>(s, entry). entry_close ?e s entry) (live_entries (by_id slaves) pe_slave_account_id xs) = Inr cs"
    for xs cs
    using that
  proof (induction xs arbitrary: cs)
    case Nil
    then show ?case by (simp add: live_entries_def map_filter_def)
  next
    case (Cons x xs)
    show ?case
    proof (cases "map_of (by_id slaves) (pe_slave_account_id x)")
      case None
      with Cons en [of x] show ?thesis by (simp add: live_entries_def map_filter_simps)
    next
      case (Some s)
      from by_id_SomeD [OF this] have "sc_account_id s = pe_slave_account_id x" by simp
      with Some Cons en [of x] show ?thesis
        by (auto simp: live_entries_def map_filter_simps res_bind_Inr_iff entry_close_def
            partial_close_volume_def)
    qed
  qed
  with cs out show ?thesis by simp
qed

text \<open>
  A close never asks a slave for more than its copy holds: every close intent is for a mapped
  copy of that account, for a positive volume of at most the recorded one.
\<close>

lemma decide_close_within_copy:
  assumes "decide (MasterPositionClosed p name c r) mappings slaves = Inr out"
    and "ClosePosition a q v m \<in> set out"
    and "0 \<le> c" "0 \<le> r" "\<forall>x \<in> set (position_entries_of mappings p). 0 \<le> pe_slave_volume x"
  shows "\<exists>x \<in> set (position_entries_of mappings p). pe_slave_account_id x = a \<and>
    pe_slave_position_id x = q \<and> 0 < v \<and> v \<le> pe_slave_volume x \<and> m = Some p"
proof -
  let ?e = "MasterPositionClosed p name c r"
  let ?live = "live_entries (by_id slaves) pe_slave_account_id (position_entries_of mappings p)"
  obtain cs where cs: "map_res (\<lambda>(s, entry). entry_close ?e s entry) ?live = Inr cs"
    "ClosePosition a q v m \<in> set cs"
    using assms(1,2) by (auto simp: decide_def position_closed_def Let_def res_bind_Inr_iff uncovered_alerts_def)
  from map_res_set [OF cs] obtain s x where x: "(s, x) \<in> set ?live"
    "entry_close ?e s x = Inr (ClosePosition a q v m)" by auto
  from x(2) obtain st where st: "partial_close_volume (pe_slave_volume x) c r st = Inr v"
    and eq: "v \<noteq> 0" "a = sc_account_id s" "q = pe_slave_position_id x" "m = Some p"
    by (auto simp: entry_close_def Let_def res_bind_Inr_iff split: if_splits)
  have pos: "0 \<le> pe_slave_volume x" "x \<in> set (position_entries_of mappings p)"
    using x(1) assms(5) by (auto simp: live_entries_set)
  have "0 \<le> v \<and> v \<le> pe_slave_volume x"
    using st pos assms(3,4) partial_exact_bounds [of "pe_slave_volume x" c r] floor_to_step_nonneg
    by (auto simp: partial_close_volume_def Let_def split: if_splits)
  with eq pos live_entries_account [OF x(1)] show ?thesis by auto
qed

text \<open>
  A one-to-one follower is sent exactly the master's trade: an enabled slave with multiplier 1,
  the same contract size and a step dividing the master's volume gets a market order of that volume,
  side, stop loss and take profit, labelled with the master position.
\<close>

lemma decide_open_one_to_one:
  assumes "decide (MasterPositionOpened p name sd v lot sl tp ep) mappings slaves = Inr out"
    and "s \<in> set slaves" "sc_enabled s" "sc_multiplier s = 1"
    and "map_of (sc_symbols s) name = Some sy" "si_lot_size sy = lot" "0 < lot"
    and "0 < si_step_volume sy" "si_step_volume sy dvd v" "v \<noteq> 0" "\<bar>v\<bar> \<le> 10 ^ 25"
  shows "OpenMarket (sc_account_id s) p (si_symbol_id sy) sd v sl tp (''copy:m'' @ str_int p) name ep
    \<in> set out"
proof -
  let ?E = "exact_mirror v lot 1 lot"
  have "mirror_volume v lot 1 lot (si_step_volume sy) = Inr v"
    using assms mirror_volume_integral [of lot v 1 lot v "si_step_volume sy"]
    by (simp add: exact_mirror_def floor_to_step_def)
  moreover have "s \<in> set (enabled_slaves slaves)" using assms by (simp add: enabled_slaves_def)
  moreover have "\<exists>y \<in> set ys. f x = Inr y" if "map_res f xs = Inr ys" "x \<in> set xs"
    for f :: "slave_config \<Rightarrow> slave_intent res" and xs ys x
    using that by (induction xs arbitrary: ys) (auto simp: res_bind_Inr_iff)
  ultimately show ?thesis
    using assms by (fastforce simp: decide_def position_opened_def)
qed

end
