(* ===== verification/Routing.thy ===== *)
theory Routing
  imports Repo_State
begin

text \<open>
  Which organisation an account belongs to, each organisation's master and its slave fleet
  (\<^verbatim>\<open>copier/engine/routing.py\<close>), and the short-lived cache in front of it. The two
  loaders are arguments, as in the source: the symbol cache and the symbol aliases of an account.
\<close>

record org_routing =
  org_by_account :: "(ident, ident) dict"
  master_by_org :: "(ident, ident) dict"
  slaves_by_org :: "(ident, slave_config list) dict"
  platform_by_account :: "(ident, platform) dict"

definition mt5_symbols_by_canonical ::
  "(string, symbol_info) dict \<Rightarrow> (string, string) dict \<Rightarrow> (string, symbol_info) dict" where
  "mt5_symbols_by_canonical symbols aliases =
     fold (\<lambda>(canonical, broker_name) out.
       case map_of symbols broker_name of
         None \<Rightarrow> out
       | Some info \<Rightarrow> AList.update canonical info out) aliases symbols"

definition slave_config_of ::
  "(ident \<Rightarrow> (string, symbol_info) dict) \<Rightarrow> (ident \<Rightarrow> (string, string) dict) option \<Rightarrow>
   account_row \<Rightarrow> slave_config" where
  "slave_config_of symbol_loader alias_loader a =
     \<lparr>sc_account_id = a_account_id a,
      sc_enabled = (a_enabled a \<and> a_status a \<noteq> Paused),
      sc_multiplier = a_multiplier a,
      sc_symbols =
        (let symbols = symbol_loader (a_account_id a) in
         case alias_loader of
           Some load \<Rightarrow> if a_platform a = mt5
                        then mt5_symbols_by_canonical symbols (load (a_account_id a)) else symbols
         | None \<Rightarrow> symbols)\<rparr>"

text \<open>\<^verbatim>\<open>d.setdefault(k, []).append(v)\<close>.\<close>

definition dict_append :: "'k \<Rightarrow> 'v \<Rightarrow> ('k, 'v list) dict \<Rightarrow> ('k, 'v list) dict" where
  "dict_append k v d =
     AList.update k ((case map_of d k of None \<Rightarrow> [] | Some vs \<Rightarrow> vs) @ [v]) d"

definition route_account ::
  "(ident \<Rightarrow> (string, symbol_info) dict) \<Rightarrow> (ident \<Rightarrow> (string, string) dict) option \<Rightarrow>
   account_row \<Rightarrow> org_routing \<Rightarrow> org_routing" where
  "route_account symbol_loader alias_loader a r =
     (let r' = r\<lparr>org_by_account := AList.update (a_account_id a) (a_org_id a) (org_by_account r),
                platform_by_account := AList.update (a_account_id a) (a_platform a) (platform_by_account r)\<rparr>
      in case a_role a of
           master \<Rightarrow> r'\<lparr>master_by_org := AList.update (a_org_id a) (a_account_id a) (master_by_org r)\<rparr>
         | slave \<Rightarrow> r'\<lparr>slaves_by_org :=
             dict_append (a_org_id a) (slave_config_of symbol_loader alias_loader a) (slaves_by_org r)\<rparr>
         | ignored \<Rightarrow> r')"

definition build_routing ::
  "account_row list \<Rightarrow> (ident \<Rightarrow> (string, symbol_info) dict) \<Rightarrow>
   (ident \<Rightarrow> (string, string) dict) option \<Rightarrow> org_routing" where
  "build_routing accounts symbol_loader alias_loader =
     fold (route_account symbol_loader alias_loader) accounts
       \<lparr>org_by_account = [], master_by_org = [], slaves_by_org = [], platform_by_account = []\<rparr>"

text \<open>\<^verbatim>\<open>routing.slaves_by_org.get(org_id, [])\<close>.\<close>

definition slaves_of :: "org_routing \<Rightarrow> ident \<Rightarrow> slave_config list" where
  "slaves_of r org_id = (case map_of (slaves_by_org r) org_id of None \<Rightarrow> [] | Some ss \<Rightarrow> ss)"

section \<open>The cache\<close>

record routing_cache =
  rc_snapshot :: "org_routing option"
  rc_expires :: rat
  rc_ttl :: rat

definition cache_init :: "rat \<Rightarrow> routing_cache" where
  "cache_init ttl_s = \<lparr>rc_snapshot = None, rc_expires = 0, rc_ttl = ttl_s\<rparr>"

definition cache_stale :: "rat \<Rightarrow> routing_cache \<Rightarrow> bool" where
  "cache_stale now c \<longleftrightarrow>
     rc_snapshot c = None \<or> rc_expires c \<le> now \<or> now < fl (rc_expires c - rc_ttl c)"

text \<open>
  A call reads the clock, and once more after a rebuild; \<open>built\<close> is what \<^verbatim>\<open>self._build()\<close>
  returns at that moment.
\<close>

definition cache_call :: "rat \<Rightarrow> rat \<Rightarrow> org_routing \<Rightarrow> routing_cache \<Rightarrow> org_routing \<times> routing_cache" where
  "cache_call now after built c =
     (if cache_stale now c
      then (built, c\<lparr>rc_snapshot := Some built, rc_expires := fl (after + rc_ttl c)\<rparr>)
      else (the (rc_snapshot c), c))"

definition cache_invalidate :: "routing_cache \<Rightarrow> routing_cache" where
  "cache_invalidate c = c\<lparr>rc_snapshot := None\<rparr>"

section \<open>Routing and the accounts table\<close>

lemma dict_append_lookup [dict_simps]:
  "map_of (dict_append k v d) k' =
     (if k' = k then Some ((case map_of d k of None \<Rightarrow> [] | Some vs \<Rightarrow> vs) @ [v]) else map_of d k')"
  by (auto simp: dict_append_def update_conv')

lemma route_fold:
  fixes sl al
  defines "R \<equiv> fold (route_account sl al)"
  shows "map_of (org_by_account (R accounts r)) =
      map_of (org_by_account r) ++ map_of (map (\<lambda>a. (a_account_id a, a_org_id a)) (rev accounts))"
    and "slaves_of (R accounts r) g = slaves_of r g @
      map (slave_config_of sl al) (filter (\<lambda>a. a_role a = slave \<and> a_org_id a = g) accounts)"
    and "map_of (master_by_org (R accounts r)) =
      map_of (master_by_org r) ++
      map_of (map (\<lambda>a. (a_org_id a, a_account_id a)) (rev (filter (\<lambda>a. a_role a = master) accounts)))"
proof -
  have org: "org_by_account (route_account sl al a r)
      = AList.update (a_account_id a) (a_org_id a) (org_by_account r)" for a r
    by (auto simp: route_account_def Let_def split: account_role.splits)
  have slaves: "slaves_of (route_account sl al a r) g = slaves_of r g @
      map (slave_config_of sl al) (filter (\<lambda>a. a_role a = slave \<and> a_org_id a = g) [a])" for a r
    by (auto simp: route_account_def Let_def slaves_of_def dict_append_lookup
        split: account_role.splits option.splits)
  have mast: "map_of (master_by_org (route_account sl al a r)) = map_of (master_by_org r) ++
      map_of (map (\<lambda>a. (a_org_id a, a_account_id a)) (rev (filter (\<lambda>a. a_role a = master) [a])))" for a r
    by (auto simp: route_account_def Let_def update_conv' map_add_def fun_eq_iff
        split: account_role.splits)
  show "map_of (org_by_account (R accounts r)) =
      map_of (org_by_account r) ++ map_of (map (\<lambda>a. (a_account_id a, a_org_id a)) (rev accounts))"
    unfolding R_def
    by (induction accounts arbitrary: r)
      (auto simp: org update_conv' map_add_def fun_eq_iff split: option.splits)
  show "slaves_of (R accounts r) g = slaves_of r g @
      map (slave_config_of sl al) (filter (\<lambda>a. a_role a = slave \<and> a_org_id a = g) accounts)"
    unfolding R_def by (induction accounts arbitrary: r) (auto simp: slaves)
  show "map_of (master_by_org (R accounts r)) =
      map_of (master_by_org r) ++
      map_of (map (\<lambda>a. (a_org_id a, a_account_id a)) (rev (filter (\<lambda>a. a_role a = master) accounts)))"
    unfolding R_def
    by (induction accounts arbitrary: r) (simp_all add: mast map_add_assoc)
qed

text \<open>The fleet of an organisation, in table order.\<close>

lemma build_routing_slaves:
  "slaves_of (build_routing accounts sl al) g =
     map (slave_config_of sl al) (filter (\<lambda>a. a_role a = slave \<and> a_org_id a = g) accounts)"
  using route_fold(2) [of sl al accounts _ g] by (simp add: build_routing_def slaves_of_def)

lemma build_routing_org:
  assumes "distinct (map a_account_id accounts)"
  shows "map_of (org_by_account (build_routing accounts sl al)) a = Some g \<longleftrightarrow>
    (\<exists>r \<in> set accounts. a_account_id r = a \<and> a_org_id r = g)"
proof -
  have "distinct (map fst (map (\<lambda>a. (a_account_id a, a_org_id a)) (rev accounts)))"
    using assms by (simp add: comp_def distinct_rev rev_map [symmetric])
  then show ?thesis
    using route_fold(1) [of sl al accounts] by (force simp: build_routing_def)
qed

text \<open>
  Routing never mixes organisations: a slave configuration that routing lists under an
  organisation is that of a slave account of this organisation (the one the account is routed to),
  it is enabled exactly when the account is enabled and not paused, and its multiplier is the
  account's.
\<close>

lemma routing_isolation:
  assumes "distinct (map a_account_id accounts)"
    and "s \<in> set (slaves_of (build_routing accounts sl al) g)"
  shows "map_of (org_by_account (build_routing accounts sl al)) (sc_account_id s) = Some g \<and>
    (\<exists>a \<in> set accounts. a_account_id a = sc_account_id s \<and> a_role a = slave \<and> a_org_id a = g \<and>
       sc_enabled s = (a_enabled a \<and> a_status a \<noteq> Paused) \<and> sc_multiplier s = a_multiplier a)"
  using assms(2) unfolding build_routing_slaves build_routing_org [OF assms(1)]
  by (auto simp: slave_config_of_def Let_def)

text \<open>
  The cache serves what was built at most its time to live ago: after a rebuild that finished at
  clock reading \<open>after\<close>, a later call returns that snapshot exactly while the clock is inside the
  window from the build to \<open>ttl\<close> seconds past it, and rebuilds otherwise (also when the clock
  jumped behind the window). After an invalidation the next call rebuilds.
\<close>

lemma routing_cache_fresh:
  assumes "cache_stale now c"
  shows "let c1 = snd (cache_call now after built c); e = fl (after + rc_ttl c) in
    fst (cache_call now2 after2 built2 c1) =
      (if fl (e - rc_ttl c) \<le> now2 \<and> now2 < e then built else built2) \<and>
    fst (cache_call now2 after2 built2 (cache_invalidate c1)) = built2"
  using assms by (auto simp: cache_call_def cache_stale_def cache_invalidate_def Let_def)

end
