(* ===== verification/Trailing.thy ===== *)
theory Trailing
  imports Domain_Models
begin

text \<open>
  The trailing-stop ratchet (\<^verbatim>\<open>copier/domain/trailing.py\<close>). Every float operation of the
  source is one rounded operation of the model. A stop only ever tightens, and where it ends up
  does not depend on how many ticks the price took to its best level.
\<close>

definition trail_favourable :: "string \<Rightarrow> price \<Rightarrow> price \<Rightarrow> price" where
  "trail_favourable side entry_price best_price =
     (if side = ''BUY'' then fl (best_price - entry_price) else fl (entry_price - best_price))"

definition trail_distance :: "price \<Rightarrow> price \<Rightarrow> price \<Rightarrow> price" where
  "trail_distance favourable start step =
     (let steps = \<lfloor>fl (fl (favourable - start) / step)\<rfloor>
      in fl (fl (start - step) + fl (fl (of_int steps) * step)))"

definition compute_trailed_stop ::
  "string \<Rightarrow> price \<Rightarrow> price \<Rightarrow> price \<Rightarrow> price \<Rightarrow> price \<Rightarrow> price res" where
  "compute_trailed_stop side entry_price best_price trail_start_points trail_step_points current_stop =
     (let favourable = trail_favourable side entry_price best_price in
      if favourable < trail_start_points then Inr current_stop
      else if trail_step_points = 0 then Inl ZeroDivisionError
      else let distance = trail_distance favourable trail_start_points trail_step_points in
        if side = ''BUY'' then Inr (max (fl (entry_price + distance)) current_stop)
        else Inr (min (fl (entry_price - distance)) current_stop))"

section \<open>Monotonicity\<close>

lemma trail_distance_mono:
  assumes "f \<le> g" "0 < step"
  shows "trail_distance f start step \<le> trail_distance g start step"
proof -
  have "\<lfloor>fl (fl (f - start) / step)\<rfloor> \<le> \<lfloor>fl (fl (g - start) / step)\<rfloor>"
    using assms by (intro floor_mono fl.rnd_mono divide_right_mono) auto
  then show ?thesis
    using assms unfolding trail_distance_def Let_def
    by (intro fl.rnd_mono add_left_mono mult_right_mono) auto
qed

text \<open>A short position is a long one with every price negated.\<close>

lemma trailed_stop_mirror:
  assumes "side \<noteq> ''BUY''"
  shows "compute_trailed_stop side e b start step c =
    map_sum id uminus (compute_trailed_stop ''BUY'' (- e) (- b) start step (- c))"
  using assms fl.rnd_minus [of "e - trail_distance (fl (e - b)) start step"]
  by (auto simp: compute_trailed_stop_def trail_favourable_def Let_def min_def max_def)

lemma trailed_stop_total: "step \<noteq> 0 \<Longrightarrow> \<exists>x. compute_trailed_stop side e b start step c = Inr x"
  by (auto simp: compute_trailed_stop_def Let_def)

text \<open>Once the better price has been seen, having seen a worse one before changes nothing.\<close>

lemma trailed_stop_absorb_buy:
  assumes "0 < step" "b1 \<le> b2" "compute_trailed_stop ''BUY'' e b1 start step c = Inr c1"
  shows "compute_trailed_stop ''BUY'' e b2 start step c1 = compute_trailed_stop ''BUY'' e b2 start step c"
proof -
  let ?f1 = "fl (b1 - e)" and ?f2 = "fl (b2 - e)"
  have f: "?f1 \<le> ?f2" using assms(2) by (intro fl.rnd_mono) simp
  have "fl (e + trail_distance ?f1 start step) \<le> fl (e + trail_distance ?f2 start step)"
    using trail_distance_mono [OF f assms(1)] by (intro fl.rnd_mono) simp
  then show ?thesis
    using assms f by (auto simp: compute_trailed_stop_def trail_favourable_def Let_def split: if_splits)
qed

lemma trailed_stop_absorb:
  assumes "0 < step" "if side = ''BUY'' then b1 \<le> b2 else b2 \<le> b1"
    "compute_trailed_stop side e b1 start step c = Inr c1"
  shows "compute_trailed_stop side e b2 start step c1 = compute_trailed_stop side e b2 start step c"
proof (cases "side = ''BUY''")
  case True
  with assms trailed_stop_absorb_buy [of step b1 b2] show ?thesis by simp
next
  case False
  with assms(3) have "compute_trailed_stop ''BUY'' (- e) (- b1) start step (- c) = Inr (- c1)"
    by (auto simp: trailed_stop_mirror [OF False] map_sum_def split: sum.splits)
  with assms False trailed_stop_absorb_buy [of step "- b1" "- b2"] show ?thesis
    by (simp add: trailed_stop_mirror)
qed

text \<open>The stop after a sequence of ticks, each with the best price seen so far.\<close>

fun trail_ticks :: "string \<Rightarrow> price \<Rightarrow> price \<Rightarrow> price \<Rightarrow> price list \<Rightarrow> price \<Rightarrow> price res" where
  "trail_ticks side e start step [] c = Inr c"
| "trail_ticks side e start step (b # bs) c =
     res_bind (compute_trailed_stop side e b start step c) (trail_ticks side e start step bs)"

text \<open>
  The trailing stop is a ratchet: for a long position the computed stop is never below the
  current one, for a short position never above it, whatever the prices and however floats round.
\<close>

lemma trailing_ratchet:
  assumes "compute_trailed_stop side e b start step c = Inr x"
  shows "if side = ''BUY'' then c \<le> x else x \<le> c"
  using assms by (auto simp: compute_trailed_stop_def Let_def split: if_splits)

text \<open>
  The stop depends only on the best price reached, not on the ticks in between: feeding a
  series of ever better prices one by one (a positive step) gives the stop that the last price
  alone gives.
\<close>

lemma trailing_path_independent:
  assumes "0 < step" "sorted_wrt (if side = ''BUY'' then (\<le>) else (\<ge>)) (bs @ [b])"
  shows "trail_ticks side e start step (bs @ [b]) c = compute_trailed_stop side e b start step c"
  using assms(2)
proof (induction bs arbitrary: c)
  case Nil
  then show ?case by (simp add: res_bind_def split: sum.splits)
next
  case (Cons x bs)
  obtain c1 where c1: "compute_trailed_stop side e x start step c = Inr c1"
    using trailed_stop_total [of step] assms(1) by force
  have "if side = ''BUY'' then x \<le> b else b \<le> x" using Cons.prems by (auto split: if_splits)
  from trailed_stop_absorb [OF assms(1) this c1] show ?case
    using Cons c1 by (auto split: if_splits)
qed

end
