(* ===== verification/Service.thy ===== *)
theory Service
  imports Dispatch Decision Routing Trailing
begin

text \<open>
  The copier service (\<^verbatim>\<open>copier/engine/service.py\<close>): execution events of a master are
  normalized, decided and dispatched; those of a slave update its mappings. The state holds the
  engine (database and send tasks), the remembered protection of the masters' positions, and what
  the service set in motion elsewhere: scheduled pending-fill checks, captured executions, amends of
  a master's own position, and notifications.

  A handler returns what it raised, if anything, next to the state as it was then. The routing
  snapshot, the masters' symbol maps, the clock readings and the callbacks the application wires in
  are arguments. Two things the source only logs to its own log file on failure (a raising
  callback, a raising capture) leave no trace in the model.
\<close>

definition PENDING_FILL_ALERT_S :: rat where "PENDING_FILL_ALERT_S = 30"
definition MAX_REMEMBERED_PROTECTION :: nat where "MAX_REMEMBERED_PROTECTION = 2000"

record slave_fill =
  sf_account_id :: ident
  sf_client_order_id :: "string option"
  sf_position_id :: ident
  sf_filled_volume :: int
  sf_fill_price :: "price option"
  sf_closed_volume :: "int option"
  sf_label :: string
  sf_order_id :: "ident option"
  sf_stop_loss :: "price option"
  sf_take_profit :: "price option"

text \<open>\<^verbatim>\<open>math.isclose(a, b, rel_tol=0.0, abs_tol=1e-7)\<close>, both unset counting as equal.\<close>

definition same_level :: "price option \<Rightarrow> price option \<Rightarrow> bool" where
  "same_level a b =
     (case (a, b) of
        (None, None) \<Rightarrow> True
      | (Some x, Some y) \<Rightarrow> x = y \<or> \<bar>fl (y - x)\<bar> \<le> fl (1 / 10000000)
      | _ \<Rightarrow> False)"

record service =
  sv_engine :: engine
  sv_protection :: "(ident, price option \<times> price option) dict"
  sv_checks :: "(ident \<times> ident \<times> ident) list"
  sv_captures :: "(ident \<times> ident \<times> exec_event \<times> bool) list"
  sv_amends :: "(ident \<times> ident \<times> price option \<times> price option) list"
  sv_notified :: "ident list"

record service_env =
  se_dispatch :: dispatch_env
  se_master_amend :: bool

definition sv_db :: "service \<Rightarrow> db" where
  "sv_db s = eng_db (sv_engine s)"

definition on_db :: "(db \<Rightarrow> db) \<Rightarrow> service \<Rightarrow> service" where
  "on_db f s = s\<lparr>sv_engine := with_db f (sv_engine s)\<rparr>"

section \<open>Protection memory\<close>

definition remember_levels ::
  "ident \<Rightarrow> price option \<Rightarrow> price option \<Rightarrow> (ident, price option \<times> price option) dict \<Rightarrow>
   (ident, price option \<times> price option) dict" where
  "remember_levels p sl tp d =
     (if sl = None \<and> tp = None then AList.delete p d
      else let d' = (if map_of d p = None \<and> MAX_REMEMBERED_PROTECTION \<le> length d
                     then AList.delete (fst (hd d)) d else d)
           in AList.update p (sl, tp) d')"

definition remember_master_protection ::
  "master_event \<Rightarrow> (ident, price option \<times> price option) dict \<Rightarrow> (ident, price option \<times> price option) dict" where
  "remember_master_protection ev d =
     (case ev of
        MasterPositionClosed p _ _ _ \<Rightarrow> AList.delete p d
      | MasterPositionOpened p _ _ _ _ sl tp _ \<Rightarrow> remember_levels p sl tp d
      | MasterPositionSLTPAmended p sl tp \<Rightarrow> remember_levels p sl tp d
      | _ \<Rightarrow> d)"

definition protect_new_copy ::
  "service_env \<Rightarrow> ident \<Rightarrow> string \<Rightarrow> ident \<Rightarrow> ident \<Rightarrow> price option \<times> price option \<Rightarrow> int \<Rightarrow> service \<Rightarrow> service" where
  "protect_new_copy env account_id client_order_id slave_position_id org_id current now s =
     (case master_position_of (Some client_order_id) of
        None \<Rightarrow> s
      | Some p \<Rightarrow>
          (case map_of (sv_protection s) p of
             None \<Rightarrow> s
           | Some (sl, tp) \<Rightarrow>
               if same_level sl (fst current) \<and> same_level tp (snd current) then s
               else s\<lparr>sv_engine := snd (dispatch (se_dispatch env)
                       [AmendPositionSLTP account_id slave_position_id sl tp] org_id now (sv_engine s))\<rparr>))"

section \<open>Captures and notifications\<close>

text \<open>
  A captured execution is queued for the batch writer, which builds and stores its row; the model
  keeps the event itself.
\<close>

definition submit_execution :: "ident \<Rightarrow> ident \<Rightarrow> exec_event \<Rightarrow> bool \<Rightarrow> service \<Rightarrow> service" where
  "submit_execution org_id account_id evt is_master s =
     s\<lparr>sv_captures := sv_captures s @ [(org_id, account_id, evt, is_master)]\<rparr>"

definition notify_positions_changed :: "ident \<Rightarrow> service \<Rightarrow> service" where
  "notify_positions_changed org_id s = s\<lparr>sv_notified := sv_notified s @ [org_id]\<rparr>"

section \<open>The risk engine\<close>

definition load_risk_rule :: "ident \<Rightarrow> string \<Rightarrow> db \<Rightarrow> risk_rule option" where
  "load_risk_rule org_id symbol s =
     find (\<lambda>r. rr_org_id r = org_id \<and> rr_symbol r = symbol) (db_risk_rules s)"

definition upsert_trailing_state :: "ident \<Rightarrow> ident \<Rightarrow> price \<Rightarrow> price \<Rightarrow> int \<Rightarrow> db \<Rightarrow> db" where
  "upsert_trailing_state account_id position_id best_price current_stop now s =
     (let P = (\<lambda>t. tr_account_id t = account_id \<and> tr_position_id t = position_id) in
      if matching P (db_trailing s) = 0
      then s\<lparr>db_trailing := db_trailing s @ [\<lparr>tr_account_id = account_id, tr_position_id = position_id,
               tr_best_price = best_price, tr_current_stop = current_stop, tr_updated_at = Some now\<rparr>]\<rparr>
      else s\<lparr>db_trailing := update_where P (\<lambda>t. t\<lparr>tr_best_price := best_price,
               tr_current_stop := current_stop, tr_updated_at := Some now\<rparr>) (db_trailing s)\<rparr>)"

definition load_trailing_state :: "ident \<Rightarrow> ident \<Rightarrow> db \<Rightarrow> trailing_row option" where
  "load_trailing_state account_id position_id s =
     find (\<lambda>t. tr_account_id t = account_id \<and> tr_position_id t = position_id) (db_trailing s)"

definition delete_trailing_state :: "ident \<Rightarrow> ident \<Rightarrow> db \<Rightarrow> db" where
  "delete_trailing_state account_id position_id s =
     s\<lparr>db_trailing := filter (\<lambda>t. \<not> (tr_account_id t = account_id \<and> tr_position_id t = position_id)) (db_trailing s)\<rparr>"

text \<open>The default level: \<open>points\<close> away from the entry, against the side for a stop.\<close>

definition default_level :: "price option \<Rightarrow> price \<Rightarrow> rat \<Rightarrow> price option \<Rightarrow> price option" where
  "default_level given entry sign points =
     (case (given, points) of (None, Some p) \<Rightarrow> Some (fl (entry + sign * p)) | _ \<Rightarrow> given)"

definition apply_risk_engine :: "service_env \<Rightarrow> ident \<Rightarrow> ident \<Rightarrow> master_event \<Rightarrow> int \<Rightarrow> service \<Rightarrow> service" where
  "apply_risk_engine env org_id master_account_id ev now s =
     (case ev of
        MasterPositionClosed p _ _ r \<Rightarrow>
          if r = 0 then on_db (delete_trailing_state master_account_id p) s else s
      | MasterPositionOpened p name sd _ _ sl tp (Some entry) \<Rightarrow>
          (case load_risk_rule org_id name (sv_db s) of
             None \<Rightarrow> s
           | Some rule \<Rightarrow>
               let sign = (if sd = BUY then 1 else - 1);
                   stop_loss = default_level sl entry (- sign) (rr_stop_points rule);
                   take_profit = default_level tp entry sign (rr_target_points rule);
                   s1 = (if (stop_loss, take_profit) \<noteq> (sl, tp) \<and> se_master_amend env
                         then s\<lparr>sv_amends := sv_amends s @ [(master_account_id, p, stop_loss, take_profit)]\<rparr>
                         else s)
               in case (rr_trailing_enabled rule, stop_loss) of
                    (True, Some stop) \<Rightarrow> on_db (upsert_trailing_state master_account_id p entry stop now) s1
                  | _ \<Rightarrow> s1)
      | _ \<Rightarrow> s)"

section \<open>Master events\<close>

fun event_type :: "master_event \<Rightarrow> string" where
  "event_type (MasterPositionOpened _ _ _ _ _ _ _ _) = ''MasterPositionOpened''"
| "event_type (MasterPositionClosed _ _ _ _) = ''MasterPositionClosed''"
| "event_type (MasterPositionSLTPAmended _ _ _) = ''MasterPositionSLTPAmended''"
| "event_type (MasterPendingPlaced _ _ _ _ _ _ _ _ _ _) = ''MasterPendingPlaced''"
| "event_type (MasterPendingReplaced _ _ _ _ _ _ _ _) = ''MasterPendingReplaced''"
| "event_type (MasterPendingCancelled _) = ''MasterPendingCancelled''"
| "event_type (MasterPendingFilled _ _) = ''MasterPendingFilled''"
| "event_type (MasterRejected _) = ''MasterRejected''"

definition audit_master_event :: "ident \<Rightarrow> ident \<Rightarrow> payload \<Rightarrow> int \<Rightarrow> service \<Rightarrow> service" where
  "audit_master_event org_id master_account_id p latency_ms =
     on_db (log_event ''master_event'' ''info'' p (Some master_account_id) (Some latency_ms) (Some org_id) None)"

text \<open>The audit row is written in the \<^verbatim>\<open>finally\<close>, whatever deciding or dispatching raised.\<close>

definition decide_dispatch_audit ::
  "service_env \<Rightarrow> org_routing \<Rightarrow> ident \<Rightarrow> ident \<Rightarrow> master_event \<Rightarrow> payload \<Rightarrow> int \<Rightarrow> int \<Rightarrow> service \<Rightarrow>
   unit res \<times> service" where
  "decide_dispatch_audit env routing org_id master_account_id ev p latency_ms now s =
     (let s1 = s\<lparr>sv_protection := remember_master_protection ev (sv_protection s)\<rparr>;
          (r, s2) =
            (case decide ev (mapping_view (sv_db s1)) (slaves_of routing org_id) of
               Inl x \<Rightarrow> (Inl x, s1)
             | Inr [] \<Rightarrow> (Inr (), s1)
             | Inr intents \<Rightarrow>
                 let (r, e) = dispatch (se_dispatch env) intents org_id now (sv_engine s1)
                 in (r, s1\<lparr>sv_engine := e\<rparr>))
      in (r, audit_master_event org_id master_account_id p latency_ms s2))"

definition after_master_event :: "service_env \<Rightarrow> ident \<Rightarrow> ident \<Rightarrow> master_event \<Rightarrow> int \<Rightarrow> service \<Rightarrow> service" where
  "after_master_event env org_id master_account_id ev now s =
     (let s1 = (case ev of
                  MasterPendingFilled q p \<Rightarrow> s\<lparr>sv_checks := sv_checks s @ [(org_id, q, p)]\<rparr>
                | _ \<Rightarrow> s)
      in notify_positions_changed org_id (apply_risk_engine env org_id master_account_id ev now s1))"

text \<open>\<^verbatim>\<open>evt.deal.executionTimestamp or None\<close>.\<close>

definition ts_or_none :: "int \<Rightarrow> int option" where
  "ts_or_none t = (if t = 0 then None else Some t)"

definition stamp_master_fill :: "ident \<Rightarrow> exec_event \<Rightarrow> int \<Rightarrow> service \<Rightarrow> service" where
  "stamp_master_fill org_id evt now s =
     (if pd_execution_price (x_deal evt) \<noteq> None \<and> pd_position_id (x_deal evt) \<noteq> 0
      then on_db (record_master_fill org_id (pd_position_id (x_deal evt)) (pd_execution_price (x_deal evt))
             (ts_or_none (pd_execution_ts (x_deal evt))) now) s
      else s)"

definition handle_master_event ::
  "service_env \<Rightarrow> org_routing \<Rightarrow> (ident, (ident, symbol_info) dict) dict \<Rightarrow> ident \<Rightarrow> ident \<Rightarrow> exec_event \<Rightarrow>
   int \<Rightarrow> int \<Rightarrow> service \<Rightarrow> unit res \<times> service" where
  "handle_master_event env routing symbols_by_org org_id master_account_id evt latency_ms now s =
     (case normalize evt (case map_of symbols_by_org org_id of None \<Rightarrow> [] | Some d \<Rightarrow> d) of
        Inl x \<Rightarrow> (Inl x, s)
      | Inr None \<Rightarrow>
          (Inr (), submit_execution org_id master_account_id evt True
            (audit_master_event org_id master_account_id
              [(''execution_type'', JStr (exec_type_name (x_type evt))), (''normalized'', JNull),
               (''order_type'', JStr (order_type_name (po_order_type (x_order evt)))),
               (''symbol_id'', JInt (po_symbol_id (x_order evt)))] latency_ms s))
      | Inr (Some ev) \<Rightarrow>
          (case decide_dispatch_audit env routing org_id master_account_id ev
                  [(''execution_type'', JStr (exec_type_name (x_type evt))), (''normalized'', JStr (event_type ev))]
                  latency_ms now s of
             (Inl x, s1) \<Rightarrow> (Inl x, s1)
           | (Inr _, s1) \<Rightarrow> (Inr (), after_master_event env org_id master_account_id ev now
               (stamp_master_fill org_id evt now (submit_execution org_id master_account_id evt True s1)))))"

definition act_on_master_event ::
  "service_env \<Rightarrow> org_routing \<Rightarrow> ident \<Rightarrow> ident \<Rightarrow> master_event \<Rightarrow> string \<Rightarrow> int \<Rightarrow> int \<Rightarrow> service \<Rightarrow>
   unit res \<times> service" where
  "act_on_master_event env routing org_id master_account_id ev src latency_ms now s =
     (case decide_dispatch_audit env routing org_id master_account_id ev
             [(''source'', JStr src), (''normalized'', JStr (event_type ev))] latency_ms now s of
        (Inl x, s1) \<Rightarrow> (Inl x, s1)
      | (Inr _, s1) \<Rightarrow> (Inr (), after_master_event env org_id master_account_id ev now s1))"

text \<open>The scheduled check of a filled pending order, run \<open>PENDING_FILL_ALERT_S\<close> later.\<close>

definition alert_unlinked :: "ident \<Rightarrow> ident \<Rightarrow> ident \<Rightarrow> db \<Rightarrow> db" where
  "alert_unlinked org_id position_id account_id =
     log_event ''slave_action'' ''warning''
       [(''action'', JStr ''pending_fill_alert''), (''master_position_id'', JInt position_id),
        (''slave_account_id'', JInt account_id),
        (''message'', JStr (''Slave '' @ str_int account_id @ '' order filled but position not yet linked''))]
       (Some account_id) None (Some org_id) None"

definition check_pending_fills :: "org_routing \<Rightarrow> ident \<times> ident \<times> ident \<Rightarrow> db \<Rightarrow> db" where
  "check_pending_fills routing task s =
     (let (org_id, order_id, position_id) = task;
          unlinked = filter (\<lambda>entry.
            map_of (org_by_account routing) (oe_slave_account_id entry) = Some org_id \<and>
            oe_slave_account_id entry \<notin> pe_slave_account_id ` set (position_entries position_id s))
            (order_entries order_id s)
      in fold (\<lambda>entry. alert_unlinked org_id position_id (oe_slave_account_id entry)) unlinked s)"

section \<open>Slave events\<close>

definition coid_is :: "string \<Rightarrow> string option \<Rightarrow> bool" where
  "coid_is prefx c = (case c of None \<Rightarrow> False | Some x \<Rightarrow> startswith x prefx)"

definition log_slave :: "string \<Rightarrow> ident \<Rightarrow> ident \<Rightarrow> payload \<Rightarrow> service \<Rightarrow> service" where
  "log_slave severity account_id org_id p =
     on_db (log_event ''slave_action'' severity p (Some account_id) None (Some org_id) None)"

text \<open>A fill that closed: pinned to one copy when it names a \<open>cm\<dots>\<close> client order id.\<close>

definition slave_fill_closed :: "ident \<Rightarrow> slave_fill \<Rightarrow> int \<Rightarrow> int \<Rightarrow> service \<Rightarrow> service" where
  "slave_fill_closed org_id fill closed_volume now s =
     (let coid = (if coid_is ''cm'' (sf_client_order_id fill) then sf_client_order_id fill else None)
      in log_slave ''info'' (sf_account_id fill) org_id
           ([(''action'', JStr ''position_closed''), (''slave_position_id'', JInt (sf_position_id fill)),
             (''closed_volume'', JInt closed_volume)]
            @ (case coid of None \<Rightarrow> [] | Some c \<Rightarrow> [(''client_order_id'', JStr c)]))
           (on_db (reduce_position_mapping (sf_account_id fill) (sf_position_id fill) closed_volume coid now) s))"

definition slave_fill_opened :: "service_env \<Rightarrow> ident \<Rightarrow> slave_fill \<Rightarrow> string \<Rightarrow> int \<Rightarrow> service \<Rightarrow> service" where
  "slave_fill_opened env org_id fill coid now s =
     (case activate_position_mapping (sf_account_id fill) coid (sf_position_id fill) (sf_filled_volume fill)
             (sf_fill_price fill) now (sv_db s) of
        Inr d \<Rightarrow>
          protect_new_copy env (sf_account_id fill) coid (sf_position_id fill) org_id
            (sf_stop_loss fill, sf_take_profit fill) now
            (log_slave ''info'' (sf_account_id fill) org_id
              [(''action'', JStr ''position_filled''), (''client_order_id'', JStr coid),
               (''slave_position_id'', JInt (sf_position_id fill)),
               (''filled_volume'', JInt (sf_filled_volume fill)), (''fill_price'', jnum (sf_fill_price fill))]
              (on_db (\<lambda>_. d) s))
      | Inl _ \<Rightarrow>
          log_slave ''warning'' (sf_account_id fill) org_id
            [(''action'', JStr ''unknown_fill''), (''client_order_id'', JStr coid),
             (''reason'', JStr ''No matching position mapping'')] s)"

definition slave_fill_pending :: "ident \<Rightarrow> slave_fill \<Rightarrow> int \<Rightarrow> service \<Rightarrow> service" where
  "slave_fill_pending org_id fill now s =
     (let filled = (case sf_order_id fill of
                      None \<Rightarrow> Inl (MappingNotFound (order_not_found (sf_account_id fill) 0))
                    | Some q \<Rightarrow> activate_pending_fill (sf_account_id fill) q (sf_position_id fill)
                        (sf_filled_volume fill) (sf_fill_price fill) now (sv_db s))
      in case filled of
           Inr d \<Rightarrow>
             log_slave ''info'' (sf_account_id fill) org_id
               [(''action'', JStr ''pending_fill''), (''client_order_id'', jstr (sf_client_order_id fill)),
                (''slave_order_id'', jint (sf_order_id fill)), (''slave_position_id'', JInt (sf_position_id fill)),
                (''filled_volume'', JInt (sf_filled_volume fill)), (''fill_price'', jnum (sf_fill_price fill))]
               (on_db (\<lambda>_. d) s)
         | Inl _ \<Rightarrow>
             if sf_label fill = MANUAL_ORDER_LABEL
             then log_slave ''info'' (sf_account_id fill) org_id
               [(''action'', JStr ''manual_fill''), (''slave_order_id'', jint (sf_order_id fill)),
                (''slave_position_id'', JInt (sf_position_id fill)),
                (''filled_volume'', JInt (sf_filled_volume fill)), (''fill_price'', jnum (sf_fill_price fill))] s
             else log_slave ''warning'' (sf_account_id fill) org_id
               [(''action'', JStr ''unmatched_slave_fill''), (''slave_order_id'', jint (sf_order_id fill)),
                (''slave_position_id'', JInt (sf_position_id fill)),
                (''client_order_id'', jstr (sf_client_order_id fill)),
                (''reason'', JStr ''No matching position or order mapping'')] s)"

definition handle_slave_fill :: "service_env \<Rightarrow> ident \<Rightarrow> slave_fill \<Rightarrow> int \<Rightarrow> service \<Rightarrow> service" where
  "handle_slave_fill env org_id fill now s =
     (case sf_closed_volume fill of
        Some v \<Rightarrow> slave_fill_closed org_id fill v now s
      | None \<Rightarrow>
          if coid_is ''cm'' (sf_client_order_id fill)
          then slave_fill_opened env org_id fill (the (sf_client_order_id fill)) now s
          else slave_fill_pending org_id fill now s)"

text \<open>A cTrader fill in platform-neutral terms.\<close>

definition fill_of_event :: "ident \<Rightarrow> exec_event \<Rightarrow> slave_fill" where
  "fill_of_event account_id evt =
     \<lparr>sf_account_id = account_id, sf_client_order_id = po_client_order_id (x_order evt),
      sf_position_id = pd_position_id (x_deal evt), sf_filled_volume = pd_filled_volume (x_deal evt),
      sf_fill_price = pd_execution_price (x_deal evt), sf_closed_volume = pd_closed_volume (x_deal evt),
      sf_label = po_label (x_order evt), sf_order_id = Some (po_order_id (x_order evt)),
      sf_stop_loss = None, sf_take_profit = None\<rparr>"

definition handle_slave_order_accepted :: "ident \<Rightarrow> ident \<Rightarrow> string option \<Rightarrow> ident \<Rightarrow> int \<Rightarrow> service \<Rightarrow> service" where
  "handle_slave_order_accepted org_id account_id client_order_id slave_order_id now s =
     (if \<not> coid_is ''co'' client_order_id then s
      else case activate_order_mapping account_id (the client_order_id) slave_order_id now (sv_db s) of
        Inr d \<Rightarrow> log_slave ''info'' account_id org_id
          [(''action'', JStr ''order_accepted''), (''client_order_id'', jstr client_order_id),
           (''slave_order_id'', JInt slave_order_id)] (on_db (\<lambda>_. d) s)
      | Inl _ \<Rightarrow> log_slave ''warning'' account_id org_id
          [(''action'', JStr ''order_accepted_no_mapping''), (''client_order_id'', jstr client_order_id)] s)"

definition handle_slave_order_cancelled :: "ident \<Rightarrow> ident \<Rightarrow> ident \<Rightarrow> int \<Rightarrow> service \<Rightarrow> service" where
  "handle_slave_order_cancelled org_id account_id slave_order_id now s =
     (case close_order_mapping account_id slave_order_id now (sv_db s) of
        Inr d \<Rightarrow> log_slave ''info'' account_id org_id
          [(''action'', JStr ''order_cancelled''), (''slave_order_id'', JInt slave_order_id)] (on_db (\<lambda>_. d) s)
      | Inl _ \<Rightarrow> log_slave ''warning'' account_id org_id
          [(''action'', JStr ''order_cancel_no_mapping''), (''slave_order_id'', JInt slave_order_id),
           (''reason'', JStr ''Order mapping not found or already closed'')] s)"

definition handle_slave_rejection ::
  "ident \<Rightarrow> ident \<Rightarrow> string option \<Rightarrow> string \<Rightarrow> string option \<Rightarrow> int \<Rightarrow> service \<Rightarrow> service" where
  "handle_slave_rejection org_id account_id client_order_id reason error_code now s =
     (let s1 = (case client_order_id of
                  None \<Rightarrow> s
                | Some c \<Rightarrow> if c = [] then s
                    else (case fail_mapping account_id c reason now (sv_db s) of
                            Inr d \<Rightarrow> on_db (\<lambda>_. d) s | Inl _ \<Rightarrow> s))
      in log_slave ''error'' account_id org_id
           [(''action'', JStr ''order_rejected''), (''client_order_id'', jstr client_order_id),
            (''error_code'', jstr error_code), (''error'', JStr reason)] s1)"

definition is_enabled_slave :: "org_routing \<Rightarrow> ident \<Rightarrow> ident \<Rightarrow> bool" where
  "is_enabled_slave routing org_id account_id =
     list_ex (\<lambda>c. sc_account_id c = account_id \<and> sc_enabled c) (slaves_of routing org_id)"

definition handle_slave_event ::
  "service_env \<Rightarrow> org_routing \<Rightarrow> ident \<Rightarrow> ident \<Rightarrow> exec_event \<Rightarrow> int \<Rightarrow> service \<Rightarrow> service" where
  "handle_slave_event env routing org_id account_id evt now s =
     (if \<not> is_enabled_slave routing org_id account_id
      then on_db (log_event ''drift'' ''info''
             [(''action'', JStr ''event_from_unknown_or_disabled_slave''), (''account_id'', JInt account_id),
              (''execution_type'', JStr (exec_type_name (x_type evt)))]
             (Some account_id) None (Some org_id) None) s
      else let s1 = submit_execution org_id account_id evt False s in
        if x_type evt = ORDER_FILLED \<or> x_type evt = ORDER_PARTIAL_FILL
        then notify_positions_changed org_id (handle_slave_fill env org_id (fill_of_event account_id evt) now s1)
        else if x_type evt = ORDER_ACCEPTED
        then notify_positions_changed org_id (handle_slave_order_accepted org_id account_id
               (po_client_order_id (x_order evt)) (po_order_id (x_order evt)) now s1)
        else if x_type evt = ORDER_CANCELLED
        then notify_positions_changed org_id
               (handle_slave_order_cancelled org_id account_id (po_order_id (x_order evt)) now s1)
        else if x_type evt = ORDER_REJECTED
        then let error_code = (if x_error_code evt \<noteq> [] then x_error_code evt else ''UNKNOWN'')
             in notify_positions_changed org_id (handle_slave_rejection org_id account_id
                  (po_client_order_id (x_order evt)) (''Order rejected: '' @ error_code) (Some error_code) now s1)
        else log_slave ''info'' account_id org_id
               [(''action'', JStr ''unclassified_slave_event''),
                (''execution_type'', JStr (exec_type_name (x_type evt)))] s1)"

section \<open>The entry point\<close>

definition handle_execution ::
  "service_env \<Rightarrow> org_routing \<Rightarrow> (ident, (ident, symbol_info) dict) dict \<Rightarrow> ident \<Rightarrow> exec_event \<Rightarrow> int \<Rightarrow> int \<Rightarrow>
   service \<Rightarrow> service" where
  "handle_execution env routing symbols_by_org account_id evt latency_ms now s =
     (case map_of (org_by_account routing) account_id of
        None \<Rightarrow> on_db (log_event ''drift'' ''info''
          [(''action'', JStr ''event_from_unknown_account''), (''account_id'', JInt account_id),
           (''execution_type'', JStr (exec_type_name (x_type evt)))]
          (Some account_id) None None None) s
      | Some org_id \<Rightarrow>
          if map_of (master_by_org routing) org_id = Some account_id
          then (case handle_master_event env routing symbols_by_org org_id account_id evt latency_ms now s of
                  (Inr _, s1) \<Rightarrow> s1
                | (Inl x, s1) \<Rightarrow> on_db (log_event ''connection'' ''error''
                    [(''action'', JStr ''event_processing_failed''), (''account_id'', JInt account_id),
                     (''error'', JExc x), (''error_type'', JExc x)] None None (Some org_id) None) s1)
          else handle_slave_event env routing org_id account_id evt now s)"

end
