(* ===== verification/Isolation.thy ===== *)
theory Isolation
  imports Dispatch_Laws Service
begin

text \<open>
  Organisations do not reach into each other. The reach of an operation is a set of accounts and an
  organisation: the mapping rows of other accounts in other organisations stay as they are, and new
  terminal commands are for those accounts, on behalf of that organisation. Every step of the
  dispatcher and of the service stays inside the reach of the organisation it works for.
\<close>

section \<open>Reach\<close>

definition foreign :: "ident set \<Rightarrow> ident \<Rightarrow> db \<Rightarrow> mapping_row list" where
  "foreign accounts org_id s =
     filter (\<lambda>r. m_slave_account r \<notin> accounts \<and> m_org r \<noteq> org_id) (db_mappings s)"

text \<open>Queued rows with new numbers, in the order they were queued.\<close>

definition numbered :: "db \<Rightarrow> db \<Rightarrow> command_row list \<Rightarrow> bool" where
  "numbered s t new \<longleftrightarrow> db_next_command s \<le> db_next_command t \<and> distinct (map c_id new) \<and>
     (\<forall>c \<in> set new. db_next_command s \<le> c_id c \<and> c_id c < db_next_command t \<and> c_status c = Queued \<and> c_attempts c = 0)"

lemma numbered_append:
  assumes "numbered s t new" "numbered t u later" shows "numbered s u (new @ later)"
  using assms by (fastforce simp: numbered_def)

definition reach :: "ident set \<Rightarrow> ident \<Rightarrow> db \<Rightarrow> db \<Rightarrow> bool" where
  "reach A g s t \<longleftrightarrow> foreign A g t = foreign A g s \<and>
     (\<exists>new. db_commands t = db_commands s @ new \<and> (\<forall>c \<in> set new. c_account c \<in> A \<and> c_org c = g) \<and> numbered s t new)"

lemma reach_refl [simp]: "reach A g s s"
  by (simp add: reach_def numbered_def)

lemma reach_trans:
  assumes "reach A g s t" "reach A g t u" shows "reach A g s u"
proof -
  from assms obtain new later where "db_commands t = db_commands s @ new" "\<forall>c \<in> set new. c_account c \<in> A \<and> c_org c = g"
    "numbered s t new" "db_commands u = db_commands t @ later" "\<forall>c \<in> set later. c_account c \<in> A \<and> c_org c = g" "numbered t u later"
    by (auto simp: reach_def)
  then have "db_commands u = db_commands s @ (new @ later) \<and> (\<forall>c \<in> set (new @ later). c_account c \<in> A \<and> c_org c = g) \<and>
      numbered s u (new @ later)" using numbered_append by auto
  with assms show ?thesis unfolding reach_def by metis
qed

interpretation reach: frame_order "reach A g" for A g
  by unfold_locales (simp, rule reach_trans)

interpretation reach_engine: frame_order "\<lambda>e e'. reach A g (eng_db e) (eng_db e')" for A g
  by unfold_locales (simp, rule reach_trans)

lemma foreign_others:
  assumes "rows_of_others a t = rows_of_others a s" "a \<in> A"
  shows "foreign A g t = foreign A g s"
proof -
  have "foreign A g u = filter (\<lambda>r. m_slave_account r \<notin> A \<and> m_org r \<noteq> g) (rows_of_others a u)" for u
    using assms(2) by (auto simp: foreign_def rows_of_others_def intro!: filter_cong)
  then show ?thesis using assms(1) by simp
qed

lemma reach_others:
  "rows_of_others a t = rows_of_others a s \<Longrightarrow> a \<in> A \<Longrightarrow> db_commands t = db_commands s \<Longrightarrow>
   db_next_command t = db_next_command s \<Longrightarrow> reach A g s t"
  using foreign_others [of a t s A g] by (simp add: reach_def numbered_def)

lemma reach_same:
  "db_mappings t = db_mappings s \<Longrightarrow> db_commands t = db_commands s \<Longrightarrow> db_next_command t = db_next_command s \<Longrightarrow>
   reach A g s t"
  by (simp add: reach_def foreign_def numbered_def)

lemma reach_log [simp]: "reach A g s (log_event c sv p a l g' act t) = reach A g s t"
  by (simp add: reach_def foreign_def numbered_def)

lemma create_mapping_others: "create_mapping i a g now s = Inr t \<Longrightarrow> rows_of_others a t = rows_of_others a s"
  by (cases i) (auto simp: create_mapping_def dest: mapping_ops_others)

lemma reach_create:
  assumes "create_mapping i a g' now s = Inr t" "a \<in> A"
  shows "reach A g s t"
  using create_mapping_others [OF assms(1)] assms(2) same_tables_fields(5,6) [OF create_mapping_same [OF assms(1)]]
  by (rule reach_others)

lemma reach_enqueue:
  assumes "a \<in> A" shows "reach A g s (snd (settle (enqueue_mt5_command a g k p c now s) s))"
  using assms by (simp add: enqueue_mt5_command_def settle_def reach_def foreign_def numbered_def Let_def)

lemma reach_enqueue_plain:
  assumes "a \<in> A" shows "reach A g s (snd (enqueue_plain i a g sy now s))"
proof (cases "command_for_intent i sy")
  case (Inr kp)
  then show ?thesis using reach_enqueue [OF assms] by (cases kp) (simp add: enqueue_plain_def)
qed (simp add: enqueue_plain_def settle_def)

lemma reach_enqueue_netting:
  assumes "a \<in> A" shows "reach A g s (snd (enqueue_netting_close a q v m g now s))"
  unfolding enqueue_netting_close_def Let_def
  using reach_enqueue [OF assms] by (auto simp: log_unsided_def split: option.splits)

lemma reach_enqueue_intent:
  assumes "slave_account_of i = Some a" "a \<in> A"
  shows "reach A g s (snd (enqueue_intent mm i g sy now s))"
proof (rule enqueue_intent_cases [of mm i g sy now s])
  fix b
  assume "enqueue_intent mm i g sy now s = enqueue_plain i b g sy now s" "slave_account_of i = Some b \<or> is_alert i"
  moreover have "\<exists>x. command_for_intent i sy = Inl x" if "is_alert i" using that by (cases i) auto
  ultimately show ?thesis
    using assms reach_enqueue_plain by (auto simp: enqueue_plain_def settle_def)
next
  fix b q v m
  assume i: "i = ClosePosition b q v (Some m)"
    and eq: "enqueue_intent mm i g sy now s =
         (case enqueue_netting_close b q v m g now s of
            (Inl e, s1) \<Rightarrow> (Inl e, s1)
          | (Inr (Some cid), s1) \<Rightarrow> (Inr cid, s1)
          | (Inr None, s1) \<Rightarrow> enqueue_plain i b g sy now s1)"
  have b: "b \<in> A" using i assms by simp
  let ?s1 = "snd (enqueue_netting_close b q v m g now s)"
  have "reach A g s ?s1" "reach A g ?s1 (snd (enqueue_plain i b g sy now ?s1))"
    using reach_enqueue_netting [OF b] reach_enqueue_plain [OF b] by blast+
  then show ?thesis
    unfolding eq using reach_trans by (auto split: prod.splits sum.splits option.splits)
qed

lemma reach_queue_for_mt5:
  assumes "slave_account_of i = Some a" "a \<in> A"
  shows "reach A g s (snd (queue_for_mt5 env i a g sy now s))"
proof (cases "create_mapping i a g now s")
  case (Inr s1)
  have "reach A g s (snd (enqueue_intent (de_margin_mode env) i g sy now s1))"
    using reach_trans [OF reach_create [OF Inr assms(2)] reach_enqueue_intent [OF assms]] .
  then show ?thesis using Inr by (auto simp: queue_for_mt5_def split: prod.splits sum.splits)
qed (simp add: queue_for_mt5_def)

lemma mt5_targets_account: "mt5_targets env i = Some (a, ts) \<Longrightarrow> slave_account_of i = Some a"
  by (auto simp: mt5_targets_def split: option.splits if_splits)

lemma reach_enqueue_for_mt5:
  assumes "enqueue_for_mt5 env i g now s = Some (r, t)" "\<And>a. slave_account_of i = Some a \<Longrightarrow> a \<in> A"
  shows "reach A g s t"
proof -
  obtain a ts where a: "mt5_targets env i = Some (a, ts)" "slave_account_of i = Some a" "a \<in> A"
    using assms by (auto simp: enqueue_for_mt5_def split: option.splits dest: mt5_targets_account)
  then show ?thesis
    using assms(1) reach_queue_for_mt5 [OF a(2,3), of g s env _ now]
    by (auto simp: enqueue_for_mt5_def log_unmatched_symbol_def split: option.splits if_splits)
      (metis snd_conv)+
qed

lemma reach_intent_failed: "reach A g s (intent_failed i g' x t) = reach A g s t"
  by (simp add: reach_def foreign_def numbered_def intent_failed_def Let_def split: option.split)

lemma reach_warn: "reach A g s (warn_dropped_protection i d a g' t) = reach A g s t"
  by (simp add: reach_def foreign_def numbered_def warn_dropped_protection_def)

lemma reach_link:
  "is_link i \<Longrightarrow> in_account i \<in> A \<Longrightarrow> reach A g s (handle_link_pending_fill i g' now s)"
  by (auto simp: handle_link_pending_fill_def split: sum.splits
      intro!: reach_others dest: mapping_ops_others(8) mapping_ops_same(7) same_tables_fields(5,6))

lemma reach_dry_run:
  assumes "handle_dry_run i g' now s = Inr t" "\<And>a. slave_account_of i = Some a \<Longrightarrow> a \<in> A"
  shows "reach A g s t"
proof -
  obtain a req d u where "slave_account_of i = Some a" "create_mapping i a g' now s = Inr u"
    and t: "reach A g s t = reach A g s u"
    using assms(1) by (auto simp: handle_dry_run_def res_bind_Inr_iff reach_warn dest!: build_request_account)
  then show ?thesis using assms(2) reach_create unfolding t by blast
qed

lemma reach_live_send:
  assumes "\<And>a. slave_account_of i = Some a \<Longrightarrow> a \<in> A"
  shows "reach A g (eng_db e) (eng_db (snd (handle_live_send env i g now e)))"
  using assms
  by (auto simp: handle_live_send_def start_send_def reach_warn split: option.splits sum.splits
      dest!: build_request_account intro!: reach_create elim!: reach_enqueue_for_mt5)

lemma reach_dispatch_intent:
  assumes "\<And>a. slave_account_of i = Some a \<Longrightarrow> a \<in> A"
  shows "reach A g (eng_db e) (eng_db (dispatch_intent env org g now i e))"
proof -
  have link: "reach A g (eng_db e) (handle_link_pending_fill i g now (eng_db e))" if "is_link i"
    using that assms by (cases i) (auto intro!: reach_link)
  have live: "reach A g (eng_db e) (eng_db e')" if "handle_live_send env i g now e = (r, e')" for r e'
    using reach_live_send [of i A g e env now] assms that by simp
  show ?thesis
    using link live reach_dry_run [of i g now "eng_db e" _ A g] assms
    by (auto simp: dispatch_intent_def Let_def reach_intent_failed handle_alert_def handle_kill_switch_def
        split: sum.splits prod.splits)
qed

lemma reach_dispatch:
  assumes "\<And>i a. i \<in> set is \<Longrightarrow> slave_account_of i = Some a \<Longrightarrow> a \<in> A"
  shows "reach A g (eng_db e) (eng_db (snd (dispatch env is g now e)))"
proof -
  have "reach A g (eng_db e) (eng_db (fold (dispatch_intent env org g now) is e))" for org
    by (rule reach_engine.inside_fold) (use assms in \<open>auto intro!: reach_dispatch_intent\<close>)
  then show ?thesis by (simp add: dispatch_def split: sum.splits)
qed

end
