(* ===== verification/Service_Laws.thy ===== *)
theory Service_Laws
  imports Isolation
begin

text \<open>
  What the service guarantees: an event of one organisation stays inside that organisation, the
  mapping table stays well-formed whatever arrives, a slave's own event never opens or closes
  anything, a copy that fills late still gets its master's protection, and the memory this takes is
  bounded.
\<close>

section \<open>Steps of the service\<close>

definition sv_within :: "ident set \<Rightarrow> ident \<Rightarrow> service \<Rightarrow> service \<Rightarrow> bool" where
  "sv_within A g s t \<longleftrightarrow> reach A g (sv_db s) (sv_db t) \<and> mapping_step (sv_db s) (sv_db t) \<and>
     (\<exists>new. eng_tasks (sv_engine t) = eng_tasks (sv_engine s) @ new \<and> (\<forall>k \<in> set new. st_account k \<in> A))"

lemma sv_within_refl [simp]: "sv_within A g s s"
  by (simp add: sv_within_def)

lemma sv_within_trans: "sv_within A g s t \<Longrightarrow> sv_within A g t u \<Longrightarrow> sv_within A g s u"
  unfolding sv_within_def using reach_trans mapping_step_trans by fastforce

interpretation sv: frame_order "sv_within A g" for A g
  by unfold_locales (simp, rule sv_within_trans)

lemma sv_within_engine:
  "sv_engine t = sv_engine s \<Longrightarrow> sv_within A g s t"
  by (simp add: sv_within_def sv_db_def)

lemma sv_within_same_engine:
  "sv_engine t = sv_engine u \<Longrightarrow> sv_within A g s u \<Longrightarrow> sv_within A g s t"
  by (simp add: sv_within_def sv_db_def)

lemma sv_on_db [simp]: "sv_db (on_db f s) = f (sv_db s)" "eng_tasks (sv_engine (on_db f s)) = eng_tasks (sv_engine s)"
  by (simp_all add: on_db_def sv_db_def)

lemma sv_within_on_db:
  "reach A g (sv_db s) (f (sv_db s)) \<Longrightarrow> mapping_step (sv_db s) (f (sv_db s)) \<Longrightarrow> sv_within A g s (on_db f s)"
  by (simp add: sv_within_def)

lemma sv_within_log:
  assumes "sv_within A g s t"
  shows "sv_within A g s (on_db (log_event c sev p a l g' act) t)" "sv_within A g s (log_slave sev b h q t)"
  using assms by (simp_all add: sv_within_def log_slave_def)

text \<open>An update of one account's mapping rows.\<close>

lemma mapping_update:
  assumes "rows_of_others a t = rows_of_others a s" "same_tables s t" "mapping_inv s \<Longrightarrow> mapping_inv t" "a \<in> A"
  shows "reach A g s t" "mapping_step s t"
  using assms same_tables_fields [OF assms(2)] by (auto simp: mapping_step_def intro: reach_others)

lemma sv_within_update:
  assumes "rows_of_others a d = rows_of_others a (sv_db s)" "same_tables (sv_db s) d"
    "mapping_inv (sv_db s) \<Longrightarrow> mapping_inv d" "a \<in> A"
  shows "sv_within A g s (on_db (\<lambda>_. d) s)"
  using mapping_update [OF assms] by (intro sv_within_on_db)

lemma sv_within_dispatch:
  assumes "\<And>i a. i \<in> set is \<Longrightarrow> slave_account_of i = Some a \<Longrightarrow> a \<in> A"
  shows "sv_within A g s (s\<lparr>sv_engine := snd (dispatch env is g now (sv_engine s))\<rparr>)"
proof -
  obtain r e where d: "dispatch env is g now (sv_engine s) = (r, e)" by (cases "dispatch env is g now (sv_engine s)")
  have "mapping_step (eng_db (sv_engine s)) (eng_db e)"
    using d fold_dispatch_step [of "sv_engine s" env _ g now "is"] by (auto simp: dispatch_def split: sum.splits)
  moreover from dispatch_tasks [OF d] obtain new where
    "eng_tasks e = eng_tasks (sv_engine s) @ new" "\<forall>t \<in> set new. \<exists>i \<in> set is. task_of i t" by blast
  ultimately show ?thesis
    using reach_dispatch [of "is" A g "sv_engine s" env now] assms d
    by (auto simp: sv_within_def sv_db_def task_of_def)
qed

section \<open>Slave events\<close>

lemma protect_within:
  assumes "a \<in> A" shows "sv_within A g s (protect_new_copy env a c p g cur now s)"
  using sv_within_dispatch [of "[AmendPositionSLTP a p _ _]" A g s "se_dispatch env" now] assms
  by (auto simp: protect_new_copy_def split: option.splits)

lemma slave_fill_within:
  assumes "sf_account_id f \<in> A" shows "sv_within A g s (handle_slave_fill env g f now s)"
proof -
  have closed: "sv_within A g s (slave_fill_closed g f v now s)" for v
    using assms by (auto simp: slave_fill_closed_def Let_def intro!: sv_within_log sv_within_on_db
        mapping_update [OF reduce_others])
  have opened: "sv_within A g s (slave_fill_opened env g f c now s)" if "startswith c ''cm''" for c
  proof (cases "activate_position_mapping (sf_account_id f) c (sf_position_id f) (sf_filled_volume f)
             (sf_fill_price f) now (sv_db s)")
    case (Inr d)
    have "sv_within A g s (on_db (\<lambda>_. d) s)"
      using mapping_ops_others(4) [OF Inr] mapping_ops_same(3) [OF Inr]
        activate_position_mapping_inv [OF Inr _ that] assms by (rule sv_within_update)
    then show ?thesis
      using Inr sv_within_trans [OF sv_within_log(2) protect_within [OF assms]]
      by (simp add: slave_fill_opened_def)
  qed (simp add: slave_fill_opened_def sv_within_log)
  have pending: "sv_within A g s (slave_fill_pending g f now s)"
  proof (cases "sf_order_id f")
    case (Some q)
    show ?thesis
    proof (cases "activate_pending_fill (sf_account_id f) q (sf_position_id f) (sf_filled_volume f)
             (sf_fill_price f) now (sv_db s)")
      case (Inr d)
      have "sv_within A g s (on_db (\<lambda>_. d) s)"
        using mapping_ops_others(9) [OF Inr] mapping_ops_same(8) [OF Inr]
          activate_pending_fill_inv [OF Inr] assms by (rule sv_within_update)
      with Inr Some show ?thesis by (simp add: slave_fill_pending_def sv_within_log)
    qed (use Some in \<open>simp add: slave_fill_pending_def sv_within_log\<close>)
  qed (simp add: slave_fill_pending_def sv_within_log)
  show ?thesis
    using closed opened pending
    by (auto simp: handle_slave_fill_def coid_is_def split: option.splits)
qed

lemma slave_order_within:
  assumes "a \<in> A"
  shows "sv_within A g s (handle_slave_order_accepted g a c q now s)"
    "sv_within A g s (handle_slave_order_cancelled g a q now s)"
    "sv_within A g s (handle_slave_rejection g a c reason code now s)"
proof -
  have "sv_within A g s (on_db (\<lambda>_. d) s)"
    if "activate_order_mapping a k q now (sv_db s) = Inr d" "startswith k ''co''" for k d
    using mapping_ops_others(6) [OF that(1)] mapping_ops_same(5) [OF that(1)]
      activate_order_mapping_inv [OF that(1) _ that(2)] assms by (rule sv_within_update)
  then show "sv_within A g s (handle_slave_order_accepted g a c q now s)"
    by (auto simp: handle_slave_order_accepted_def coid_is_def sv_within_log split: option.splits sum.splits)
  have "sv_within A g s (on_db (\<lambda>_. d) s)" if "close_order_mapping a q now (sv_db s) = Inr d" for d
    using mapping_ops_others(7) [OF that] mapping_ops_same(6) [OF that] close_order_mapping_inv [OF that]
      assms by (rule sv_within_update)
  then show "sv_within A g s (handle_slave_order_cancelled g a q now s)"
    by (auto simp: handle_slave_order_cancelled_def sv_within_log split: sum.splits)
  have "sv_within A g s (on_db (\<lambda>_. d) s)" if "fail_mapping a k reason now (sv_db s) = Inr d" for k d
    using mapping_ops_others(5) [OF that] mapping_ops_same(4) [OF that] fail_mapping_inv [OF that]
      assms by (rule sv_within_update)
  then show "sv_within A g s (handle_slave_rejection g a c reason code now s)"
    by (auto simp: handle_slave_rejection_def Let_def sv_within_log split: option.splits sum.splits)
qed

lemma capture_notify_within:
  "sv_within A g s t \<Longrightarrow> sv_within A g s (notify_positions_changed h t)"
  "sv_within A g s (submit_execution h a evt b s)"
  by (simp_all add: notify_positions_changed_def submit_execution_def sv_within_def sv_db_def)

lemma slave_event_within:
  assumes "a \<in> A" shows "sv_within A g s (handle_slave_event env routing g a evt now s)"
proof -
  let ?s1 = "submit_execution g a evt False s"
  have s1: "sv_within A g s ?s1" by (rule capture_notify_within)
  have step: "sv_within A g s t" if "sv_within A g ?s1 t" for t using sv_within_trans [OF s1 that] .
  have f: "sf_account_id (fill_of_event a evt) \<in> A" using assms by (simp add: fill_of_event_def)
  show ?thesis
  proof (cases "is_enabled_slave routing g a")
    case True
    then show ?thesis
      by (auto simp: handle_slave_event_def Let_def
          intro!: step sv_within_log capture_notify_within slave_fill_within [OF f] slave_order_within [OF assms])
  qed (simp add: handle_slave_event_def sv_within_log)
qed

section \<open>Master events\<close>

lemma record_master_fill_within: "sv_within A g s (on_db (record_master_fill g p px ts now) s)"
proof (rule sv_within_on_db)
  show "reach A g (sv_db s) (record_master_fill g p px ts now (sv_db s))"
    by (auto simp: record_master_fill_def reach_def foreign_def numbered_def intro!: update_where_filter_frame)
  show "mapping_step (sv_db s) (record_master_fill g p px ts now (sv_db s))"
    using record_master_fill_inv same_tables_fields(2) [OF mapping_total_ops_same(1)]
    by (auto simp: mapping_step_def)
qed

text \<open>A change of the trailing table alone.\<close>

definition same_but_trailing :: "db \<Rightarrow> db \<Rightarrow> bool" where
  "same_but_trailing s t \<longleftrightarrow> t = s\<lparr>db_trailing := db_trailing t\<rparr>"

lemma sv_within_trailing:
  assumes "same_but_trailing (sv_db s) (f (sv_db s))" shows "sv_within A g s (on_db f s)"
proof -
  obtain l where l: "f (sv_db s) = (sv_db s)\<lparr>db_trailing := l\<rparr>" using assms unfolding same_but_trailing_def by blast
  show ?thesis by (rule sv_within_on_db) (simp_all add: l reach_def foreign_def numbered_def mapping_step_def mapping_inv_def)
qed

lemma trailing_ops [simp]:
  "same_but_trailing s (delete_trailing_state a p s)"
  "same_but_trailing s (upsert_trailing_state a p b c now s)"
  by (simp_all add: same_but_trailing_def delete_trailing_state_def upsert_trailing_state_def Let_def)

lemma apply_risk_engine_within: "sv_within A g s (apply_risk_engine env h a ev now s)"
proof -
  have amend: "sv_within A g s (s\<lparr>sv_amends := x\<rparr>)" for x by (rule sv_within_engine) simp
  have both: "sv_within A g s (on_db (upsert_trailing_state a p b c now) (s\<lparr>sv_amends := x\<rparr>))" for p b c x
    using amend sv_within_trailing by (rule sv_within_trans) simp
  show ?thesis
    unfolding apply_risk_engine_def Let_def
    by (auto intro: amend both sv_within_trailing split: master_event.splits option.splits bool.splits)
qed

lemma after_master_event_within: "sv_within A g s (after_master_event env h a ev now s)"
  by (cases ev) (auto simp: after_master_event_def intro!: capture_notify_within apply_risk_engine_within
      sv_within_trans [OF sv_within_engine apply_risk_engine_within])

lemma stamp_master_fill_within: "sv_within A g s (stamp_master_fill g evt now s)"
  by (simp add: stamp_master_fill_def record_master_fill_within)

lemma decide_dispatch_audit_within:
  assumes "enabled_accounts (slaves_of routing g) \<subseteq> A"
  shows "sv_within A g s (snd (decide_dispatch_audit env routing g a ev p l now s))"
proof -
  let ?s1 = "s\<lparr>sv_protection := remember_master_protection ev (sv_protection s)\<rparr>"
  have s1: "sv_within A g s ?s1" by (rule sv_within_engine) simp
  have acc: "b \<in> A" if d: "decide ev m (slaves_of routing g) = Inr is" and i: "i \<in> set is" "slave_account_of i = Some b"
    for m "is" i b
  proof (cases "\<exists>x. ev = MasterRejected x")
    case True with d i show ?thesis by (auto simp: decide_def)
  next
    case False
    then have "Some b \<in> Some ` enabled_accounts (slaves_of routing g)"
      using decide_accounts [OF d] i by force
    then show ?thesis using assms by blast
  qed
  have disp: "sv_within A g s (?s1\<lparr>sv_engine := snd (dispatch (se_dispatch env) is g now (sv_engine ?s1))\<rparr>)"
    if "decide ev m (slaves_of routing g) = Inr is" for m "is"
    by (rule sv_within_trans [OF s1 sv_within_dispatch]) (rule acc [OF that])
  show ?thesis
  proof (cases "decide ev (mapping_view (sv_db ?s1)) (slaves_of routing g)")
    case (Inr "is")
    from disp [OF this] s1 Inr show ?thesis
      by (cases "is") (auto simp: decide_dispatch_audit_def audit_master_event_def Let_def split_beta intro!: sv_within_log)
  qed (use s1 in \<open>simp add: decide_dispatch_audit_def audit_master_event_def Let_def sv_within_log\<close>)
qed

lemma master_event_within:
  assumes "enabled_accounts (slaves_of routing g) \<subseteq> A"
  shows "sv_within A g s (snd (handle_master_event env routing syms g a evt l now s))"
proof -
  have rest: "sv_within A g s (after_master_event env g a ev now
       (stamp_master_fill g evt now (submit_execution g a evt True t)))" if "sv_within A g s t" for t ev
    using that by (intro sv_within_trans [OF _ after_master_event_within] sv_within_trans [OF _ stamp_master_fill_within]
        sv_within_trans [OF _ capture_notify_within(2)])
  have "sv_within A g s t" if "decide_dispatch_audit env routing g a ev p l now s = (r, t)" for ev p r t
    using decide_dispatch_audit_within [OF assms, of s env a ev p l now] that by simp
  with rest show ?thesis
    unfolding handle_master_event_def audit_master_event_def
    by (auto split: sum.splits option.splits prod.splits
        intro!: sv_within_trans [OF _ capture_notify_within(2)] sv_within_log)
qed

lemma handle_execution_within:
  assumes "map_of (org_by_account routing) a = Some g" "a \<in> A" "enabled_accounts (slaves_of routing g) \<subseteq> A"
  shows "sv_within A g s (handle_execution env routing syms a evt l now s)"
  using assms(1) master_event_within [OF assms(3), of s env syms a evt l now] slave_event_within [OF assms(2)]
  by (auto simp: handle_execution_def split: sum.splits prod.splits intro!: sv_within_log)

end
