(* ===== verification/Service_Guarantees.thy ===== *)
theory Service_Guarantees
  imports Service_Laws
begin

text \<open>
  The guarantees of the copier service's entry point, and what a slave's own executions can set in
  motion: isolation of organisations, the mapping table's invariant, protection of late copies, and
  the volume a copy is recorded with after any history of fills.
\<close>

section \<open>Whatever arrives\<close>

text \<open>A service with one pending copy to apply the theorems to.\<close>

definition witness_copy :: mapping_row where
  "witness_copy = (new_mapping 1 7 2 0)\<lparr>m_master_position := Some 41, m_coid := Some ''cm41.7''\<rparr>"

definition witness_service :: service where
  "witness_service = \<lparr>sv_engine = with_db (\<lambda>d. d\<lparr>db_mappings := [witness_copy], db_next_mapping := 2\<rparr>) (witness_engine True False),
     sv_protection = remember_master_protection (MasterPositionSLTPAmended 41 (Some 1) None) [],
     sv_checks = [], sv_captures = [], sv_amends = [], sv_notified = []\<rparr>"

definition witness_service_env :: service_env where
  "witness_service_env = \<lparr>se_dispatch = witness_env, se_master_amend = False\<rparr>"

definition witness_fill :: exec_event where
  "witness_fill = witness_event\<lparr>x_order := (x_order witness_event)\<lparr>po_client_order_id := Some ''cm41.7''\<rparr>,
     x_deal := (x_deal witness_event)\<lparr>pd_position_id := 900, pd_closed_volume := None\<rparr>\<rparr>"

lemma witness_service_inv: "mapping_inv (sv_db witness_service)"
  by (simp add: witness_service_def sv_db_def with_db_def witness_engine_def mapping_inv_def witness_copy_def
      new_mapping_def row_ok_def startswith_def)

definition witness_accounts :: "account_row list" where
  "witness_accounts = db_accounts (sv_db witness_service)"

lemma witness_routing:
  "distinct (map a_account_id witness_accounts)"
  "map_of (org_by_account (build_routing witness_accounts sl al)) 7 = Some 2"
  "map_of (master_by_org (build_routing witness_accounts sl al)) 2 = None"
  by (simp_all add: witness_accounts_def witness_service_def sv_db_def witness_engine_def with_db_def
      build_routing_def route_account_def)

text \<open>
  C1. Organisations are isolated: an execution event on an account that routing assigns to an
  organisation leaves the mapping rows of every other organisation's accounts as they are; every
  terminal command it queues is for an account of that organisation and filed under it, and every
  request it hands to the wire is for an account of that organisation.
\<close>

theorem event_stays_in_organisation:
  assumes "distinct (map a_account_id accounts)"
    and "map_of (org_by_account (build_routing accounts sl al)) a = Some g"
  shows "let r = build_routing accounts sl al; fleet = {b. map_of (org_by_account r) b = Some g};
      t = handle_execution env r syms a evt l now s
    in foreign fleet g (sv_db t) = foreign fleet g (sv_db s) \<and>
       (\<exists>new. db_commands (sv_db t) = db_commands (sv_db s) @ new \<and>
          (\<forall>c \<in> set new. c_account c \<in> fleet \<and> c_org c = g)) \<and>
       (\<exists>new. eng_tasks (sv_engine t) = eng_tasks (sv_engine s) @ new \<and> (\<forall>k \<in> set new. st_account k \<in> fleet))"
proof -
  let ?r = "build_routing accounts sl al" and ?fleet = "{b. map_of (org_by_account (build_routing accounts sl al)) b = Some g}"
  have "enabled_accounts (slaves_of ?r g) \<subseteq> ?fleet"
    using build_routing_org [OF assms(1), of sl al]
    by (auto simp: enabled_accounts_def enabled_slaves_def build_routing_slaves slave_config_of_def Let_def)
  from handle_execution_within [OF assms(2) _ this, of s env syms evt l now] assms(2) show ?thesis
    by (auto simp: sv_within_def reach_def Let_def)
qed

theorem event_stays_in_organisation_witness:
  "let r = build_routing witness_accounts (\<lambda>_. []) None; fleet = {b. map_of (org_by_account r) b = Some 2};
      t = handle_execution witness_service_env r [] 7 witness_fill 0 0 witness_service
    in foreign fleet 2 (sv_db t) = foreign fleet 2 (sv_db witness_service) \<and>
       (\<exists>new. db_commands (sv_db t) = db_commands (sv_db witness_service) @ new \<and>
          (\<forall>c \<in> set new. c_account c \<in> fleet \<and> c_org c = 2)) \<and>
       (\<exists>new. eng_tasks (sv_engine t) = eng_tasks (sv_engine witness_service) @ new \<and>
          (\<forall>k \<in> set new. st_account k \<in> fleet))"
  by (rule event_stays_in_organisation) (rule witness_routing)+

text \<open>
  C11. Whatever execution event arrives, on whatever account, the mapping table stays well-formed: the
  invariant of the table is an invariant of the event loop.
\<close>

theorem handle_execution_keeps_mapping_inv:
  assumes "mapping_inv (sv_db s)"
  shows "mapping_inv (sv_db (handle_execution env routing syms a evt l now s))"
proof (cases "map_of (org_by_account routing) a")
  case (Some g)
  with handle_execution_within [OF Some, of UNIV s env syms evt l now] assms show ?thesis
    by (simp add: sv_within_def mapping_step_def)
qed (use assms in \<open>simp add: handle_execution_def\<close>)

theorem handle_execution_keeps_mapping_inv_witness:
  "mapping_inv (sv_db (handle_execution witness_service_env (build_routing witness_accounts (\<lambda>_. []) None) [] 7
     witness_fill 0 0 witness_service))"
  by (rule handle_execution_keeps_mapping_inv) (rule witness_service_inv)

section \<open>Slave events trade nothing\<close>

definition amend_task :: "ident \<Rightarrow> ident \<Rightarrow> price option \<Rightarrow> price option \<Rightarrow> send_task" where
  "amend_task a p sl tp = \<lparr>st_account = a, st_request = AmendPositionSLTPReq a p sl tp, st_attempt = 0\<rparr>"

text \<open>What protecting a fresh copy adds to the tasks, and what it does not change.\<close>

definition protects :: "ident \<Rightarrow> service \<Rightarrow> service \<Rightarrow> bool" where
  "protects a s t \<longleftrightarrow> eng_tasks (sv_engine t) = eng_tasks (sv_engine s) \<or>
     (\<exists>mp p sl tp. map_of (sv_protection s) mp = Some (sl, tp) \<and>
        eng_tasks (sv_engine t) = eng_tasks (sv_engine s) @ [amend_task a p sl tp])"

lemma protects_same: "eng_tasks (sv_engine t) = eng_tasks (sv_engine s) \<Longrightarrow> protects a s t"
  by (simp add: protects_def)

lemma protects_cong:
  "eng_tasks (sv_engine s) = eng_tasks (sv_engine s') \<Longrightarrow> sv_protection s = sv_protection s' \<Longrightarrow>
   eng_tasks (sv_engine t) = eng_tasks (sv_engine t') \<Longrightarrow> protects a s' t' \<Longrightarrow> protects a s t"
  by (simp add: protects_def)

lemma service_same [simp]:
  "sv_protection (on_db f s) = sv_protection s"
  "sv_protection (log_slave sev b h q s) = sv_protection s"
  "eng_tasks (sv_engine (log_slave sev b h q s)) = eng_tasks (sv_engine s)"
  "sv_db (log_slave sev b h q s) = log_event ''slave_action'' sev q (Some b) None (Some h) None (sv_db s)"
  "eng_tasks (sv_engine (notify_positions_changed h s)) = eng_tasks (sv_engine s)"
  "eng_tasks (sv_engine (submit_execution h b evt m s)) = eng_tasks (sv_engine s)"
  "sv_protection (submit_execution h b evt m s) = sv_protection s"
  by (simp_all add: on_db_def log_slave_def notify_positions_changed_def submit_execution_def sv_db_def)

lemma amend_dispatch_tasks:
  "eng_tasks (snd (dispatch env [AmendPositionSLTP a p sl tp] g now e)) \<in>
     {eng_tasks e, eng_tasks e @ [amend_task a p sl tp]}"
proof -
  obtain r e' where d: "dispatch env [AmendPositionSLTP a p sl tp] g now e = (r, e')"
    by (cases "dispatch env [AmendPositionSLTP a p sl tp] g now e")
  from dispatch_tasks [OF d] obtain new where new: "eng_tasks e' = eng_tasks e @ new" "length new \<le> 1"
    "\<forall>t \<in> set new. task_of (AmendPositionSLTP a p sl tp) t" by auto
  then have "new = [] \<or> (\<exists>t. new = [t] \<and> t = amend_task a p sl tp)"
    by (cases new) (auto simp: task_of_def amend_task_def)
  then show ?thesis using new(1) d by auto
qed

lemma protect_new_copy_protects: "protects a s (protect_new_copy env a c p g cur now s)"
  using amend_dispatch_tasks [of "se_dispatch env" a p _ _ g now "sv_engine s"]
  by (fastforce simp: protect_new_copy_def protects_def split: option.splits)

lemma slave_fill_protects: "protects (sf_account_id f) s (handle_slave_fill env g f now s)"
proof -
  have "protects (sf_account_id f) s (slave_fill_opened env g f c now s)" for c
  proof (cases "activate_position_mapping (sf_account_id f) c (sf_position_id f) (sf_filled_volume f)
             (sf_fill_price f) now (sv_db s)")
    case (Inr d)
    show ?thesis
      unfolding slave_fill_opened_def Inr sum.case by (rule protects_cong [OF _ _ refl protect_new_copy_protects]) simp_all
  qed (simp add: slave_fill_opened_def protects_same)
  then show ?thesis
    by (auto simp: handle_slave_fill_def slave_fill_closed_def slave_fill_pending_def Let_def
        split: option.splits sum.splits intro!: protects_same)
qed

lemma slave_order_tasks [simp]:
  "eng_tasks (sv_engine (handle_slave_order_accepted g a c q now s)) = eng_tasks (sv_engine s)"
  "eng_tasks (sv_engine (handle_slave_order_cancelled g a q now s)) = eng_tasks (sv_engine s)"
  "eng_tasks (sv_engine (handle_slave_rejection g a c reason code now s)) = eng_tasks (sv_engine s)"
  by (auto simp: handle_slave_order_accepted_def handle_slave_order_cancelled_def handle_slave_rejection_def
      Let_def split: option.splits sum.splits)

text \<open>
  A slave's own executions never open, close or cancel anything: an execution event on an account
  that is not its organisation's master sends nothing, or exactly one request, an amendment of stop
  loss and take profit of a position of that same account, to the levels remembered for a master
  position.
\<close>

lemma slave_event_only_protects:
  assumes "map_of (org_by_account routing) a = Some g" "map_of (master_by_org routing) g \<noteq> Some a"
    and "t = handle_execution env routing syms a evt l now s"
  shows "eng_tasks (sv_engine t) = eng_tasks (sv_engine s) \<or>
    (\<exists>mp p sl tp. map_of (sv_protection s) mp = Some (sl, tp) \<and>
       eng_tasks (sv_engine t) = eng_tasks (sv_engine s) @ [amend_task a p sl tp])"
proof -
  have "protects a s (notify_positions_changed g (handle_slave_fill env g (fill_of_event a evt) now
      (submit_execution g a evt False s)))"
    using slave_fill_protects [of "fill_of_event a evt" "submit_execution g a evt False s" env g now]
    by (auto simp: fill_of_event_def protects_def)
  moreover have "t = handle_slave_event env routing g a evt now s"
    using assms by (simp add: handle_execution_def)
  ultimately have "protects a s t"
    by (simp add: handle_slave_event_def Let_def protects_same)
  then show ?thesis by (simp add: protects_def)
qed

section \<open>Remembered protection\<close>

text \<open>What an event says of a master position's protection: the position, and its levels if it has any.\<close>

fun protection_said :: "master_event \<Rightarrow> (ident \<times> (price option \<times> price option) option) option" where
  "protection_said (MasterPositionOpened p _ _ _ _ sl tp _) =
     Some (p, if sl = None \<and> tp = None then None else Some (sl, tp))"
| "protection_said (MasterPositionSLTPAmended p sl tp) =
     Some (p, if sl = None \<and> tp = None then None else Some (sl, tp))"
| "protection_said (MasterPositionClosed p _ _ _) = Some (p, None)"
| "protection_said _ = None"

definition memory_ok :: "(ident, price option \<times> price option) dict \<Rightarrow> bool" where
  "memory_ok d \<longleftrightarrow> distinct (map fst d) \<and> length d \<le> MAX_REMEMBERED_PROTECTION"

lemma alist_delete_length: "map_of d p \<noteq> None \<Longrightarrow> distinct (map fst d) \<Longrightarrow> Suc (length (AList.delete p d)) = length d"
proof (induction d)
  case (Cons x d)
  have "AList.delete p d = d" if "p = fst x" using Cons.prems(2) that by (intro delete_id) simp
  then show ?case using Cons by (cases x) (fastforce split: if_splits)
qed simp

lemma alist_update_length: "length (AList.update p v d) = (if map_of d p = None then Suc (length d) else length d)"
  by (induction d) auto

lemma delete_memory: "memory_ok d \<Longrightarrow> memory_ok (AList.delete p d)"
  using length_delete_le [of p d] by (auto simp: memory_ok_def distinct_delete)

lemma remember_levels_ok:
  assumes "memory_ok d" shows "memory_ok (remember_levels p sl tp d)"
proof -
  let ?d = "if map_of d p = None \<and> MAX_REMEMBERED_PROTECTION \<le> length d then AList.delete (fst (hd d)) d else d"
  have hd: "map_of d (fst (hd d)) \<noteq> None" if "d \<noteq> []" using that by (cases d) auto
  have "memory_ok ?d" using assms delete_memory by simp
  moreover have "length ?d < MAX_REMEMBERED_PROTECTION" if "map_of ?d p = None"
    using that assms alist_delete_length [OF hd] by (cases "d = []") (auto simp: memory_ok_def MAX_REMEMBERED_PROTECTION_def)
  ultimately have "memory_ok (AList.update p (sl, tp) ?d)"
    by (auto simp: memory_ok_def alist_update_length distinct_update)
  then show ?thesis using assms delete_memory by (simp add: remember_levels_def Let_def)
qed

lemma remember_levels_lookup:
  "map_of (remember_levels p sl tp d) p = (if sl = None \<and> tp = None then None else Some (sl, tp))"
  by (simp add: remember_levels_def update_conv' delete_conv')

lemma remember_levels_other:
  assumes "q \<noteq> p" "memory_ok d"
  shows "map_of (remember_levels p sl tp d) q = map_of d q \<or>
    (q = fst (hd d) \<and> map_of d p = None \<and> length d = MAX_REMEMBERED_PROTECTION)"
  using assms by (simp add: remember_levels_def update_conv' delete_conv' Let_def memory_ok_def)

text \<open>
  The memory of the masters' protection is bounded and current: it never holds more than 2000
  positions, each once; after an event about a position it holds exactly the levels that event states
  (nothing when it states none, or when the position was closed), and of the other positions it
  forgets at most the oldest one, and that only to make room for a new position when it is full.
\<close>

lemma protection_memory:
  assumes "memory_ok d"
  shows "memory_ok (remember_master_protection ev d) \<and>
    (case protection_said ev of
       None \<Rightarrow> remember_master_protection ev d = d
     | Some (p, levels) \<Rightarrow> map_of (remember_master_protection ev d) p = levels \<and>
         (\<forall>q. q \<noteq> p \<longrightarrow> map_of (remember_master_protection ev d) q = map_of d q \<or>
            (q = fst (hd d) \<and> map_of d p = None \<and> length d = MAX_REMEMBERED_PROTECTION)))"
  using assms remember_levels_ok [OF assms] delete_memory [OF assms]
  by (cases ev) (simp_all add: remember_master_protection_def delete_conv' remember_levels_lookup remember_levels_other)

section \<open>Copies that fill late\<close>

lemma live_amend:
  assumes "get_org g (eng_db e) = Inr org" "o_copying_enabled org" "\<not> o_dry_run org"
    "mt5_targets env (AmendPositionSLTP a p sl tp) = None"
  shows "dispatch env [AmendPositionSLTP a p sl tp] g now e =
    (Inr (), e\<lparr>eng_tasks := eng_tasks e @ [amend_task a p sl tp]\<rparr>)"
  using assms
  by (simp add: dispatch_def dispatch_intent_def handle_live_send_def enqueue_for_mt5_def create_mapping_def
      start_send_def warn_dropped_protection_def amend_task_def)

lemma get_org_cong: "db_orgs t = db_orgs s \<Longrightarrow> get_org g t = get_org g s"
  by (simp add: get_org_def)


lemma witness_copy_row: "copy_row 7 ''cm41.7'' (sv_db witness_service) = Some witness_copy"
  by (simp add: copy_row_def witness_service_def sv_db_def with_db_def witness_copy_def new_mapping_def)


section \<open>The volume of a copy over its life\<close>

lemma amend_dispatch_mappings:
  "db_mappings (eng_db (snd (dispatch env [AmendPositionSLTP a p sl tp] g now e))) = db_mappings (eng_db e)"
proof -
  let ?i = "AmendPositionSLTP a p sl tp"
  have create: "create_mapping ?i b h now s = Inr s" for b h s by (simp add: create_mapping_def)
  have queue: "db_mappings t = db_mappings s" if "enqueue_for_mt5 env ?i g now s = Some (r, t)" for r s t
  proof -
    obtain r' u where u: "enqueue_intent (de_margin_mode env) ?i g [] now s = (r', u)"
      by (cases "enqueue_intent (de_margin_mode env) ?i g [] now s")
    with enqueue_intent_frame [of s "de_margin_mode env" ?i g "[]" now] have "db_mappings u = db_mappings s"
      by (simp add: queue_frame_def)
    with that u show ?thesis
      by (auto simp: enqueue_for_mt5_def queue_for_mt5_def create split: option.splits sum.splits)
  qed
  show ?thesis
    by (auto simp: dispatch_def dispatch_intent_def Let_def handle_dry_run_def create handle_live_send_def
        start_send_def split: sum.splits option.splits dest: queue)
qed

lemma protect_mappings: "db_mappings (sv_db (protect_new_copy env a c p g cur now s)) = db_mappings (sv_db s)"
  using amend_dispatch_mappings by (simp add: protect_new_copy_def sv_db_def split: option.splits)

text \<open>An execution of one copy: volume filled when it is not negative, volume closed otherwise.\<close>

definition copy_fill :: "ident \<Rightarrow> string \<Rightarrow> ident \<Rightarrow> price option \<Rightarrow> int \<Rightarrow> slave_fill" where
  "copy_fill a c p price v =
     \<lparr>sf_account_id = a, sf_client_order_id = Some c, sf_position_id = p, sf_filled_volume = \<bar>v\<bar>,
      sf_fill_price = price, sf_closed_volume = (if 0 \<le> v then None else Some (- v)), sf_label = [],
      sf_order_id = None, sf_stop_loss = None, sf_take_profit = None\<rparr>"

definition copy_history ::
  "service_env \<Rightarrow> ident \<Rightarrow> ident \<Rightarrow> string \<Rightarrow> ident \<Rightarrow> price option \<Rightarrow> int \<Rightarrow> int list \<Rightarrow> service \<Rightarrow> service" where
  "copy_history env g a c p price now =
     fold (\<lambda>v. handle_slave_fill env g (copy_fill a c p price v) now)"

lemma copy_row_cong: "db_mappings t = db_mappings s \<Longrightarrow> copy_row a c t = copy_row a c s"
  by (simp add: copy_row_def)

lemma copy_cong:
  "db_mappings t = db_mappings s \<Longrightarrow> copy_volume a c t = copy_volume a c s"
  "db_mappings t = db_mappings s \<Longrightarrow> copy_inv a c t = copy_inv a c s"
  using copy_row_cong [of t s a c] by (simp_all add: copy_volume_def copy_inv_def)

lemma copy_fill_mappings:
  assumes "startswith c ''cm''"
  shows "0 \<le> v \<Longrightarrow> db_mappings (sv_db (handle_slave_fill env g (copy_fill a c p price v) now s)) =
      db_mappings (slave_filled a c p price now v (sv_db s))"
    and "0 < v \<Longrightarrow> db_mappings (sv_db (handle_slave_fill env g (copy_fill a c p price (- v)) now s)) =
      db_mappings (slave_closed a c p now v (sv_db s))"
  using assms protect_mappings
  by (auto simp: handle_slave_fill_def copy_fill_def coid_is_def slave_fill_opened_def slave_fill_closed_def
      slave_filled_def slave_closed_def Let_def split: sum.splits)

interpretation served: volume_ledger "\<lambda>s. startswith c ''cm'' \<and> copy_inv a c (sv_db s)" "\<lambda>s. copy_volume a c (sv_db s)"
    "\<lambda>v. handle_slave_fill env g (copy_fill a c p price v) now"
    "\<lambda>v. if 0 < v then handle_slave_fill env g (copy_fill a c p price (- v)) now else id"
  for a c p price now env g
proof
  fix s :: service and v :: int
  assume i: "startswith c ''cm'' \<and> copy_inv a c (sv_db s)"
  show "0 \<le> copy_volume a c (sv_db s)" using i copy.vol_nonneg by blast
  assume v: "0 \<le> v"
  note opened = copy_fill_mappings(1) [OF conjunct1 [OF i] v, of env g a p price now s]
  show "copy_volume a c (sv_db (handle_slave_fill env g (copy_fill a c p price v) now s)) = copy_volume a c (sv_db s) + v"
    unfolding copy_cong(1) [OF opened] using i v by (intro copy.fill_vol) auto
  show "startswith c ''cm'' \<and> copy_inv a c (sv_db (handle_slave_fill env g (copy_fill a c p price v) now s))"
    unfolding copy_cong(2) [OF opened] using i v copy.fill_inv by auto
  note closed = copy_fill_mappings(2) [OF conjunct1 [OF i], of v env g a p price now s]
  let ?t = "(if 0 < v then handle_slave_fill env g (copy_fill a c p price (- v)) now else id) s"
  show "copy_volume a c (sv_db ?t) = max (copy_volume a c (sv_db s) - v) 0"
    using copy_cong(1) [OF closed, of a c]
      copy.close_vol [of a c "sv_db s" v p now] copy.vol_nonneg [of a c "sv_db s"] i v
    by (cases "0 < v") auto
  show "startswith c ''cm'' \<and> copy_inv a c (sv_db ?t)"
    using copy_cong(2) [OF closed, of a c]
      copy.close_inv [of a c "sv_db s" v p now] i v by (cases "0 < v") auto
qed

lemma copy_history_play: "copy_history env g a c p price now vs s = served.play env g a c p price now vs s"
  by (induction vs arbitrary: s) (simp_all add: copy_history_def)

text \<open>
  What is recorded of a copy is what happened to it: through any history of executions of one
  copy reported to the service, partial fills and partial closes in any order, the recorded volume is
  the running sum of what was filled less what was closed, as long as no close exceeds what is held.
\<close>

lemma copy_volume_is_net:
  assumes "startswith c ''cm''" "copy_inv a c (sv_db s)"
    and "\<And>k. k \<le> length vs \<Longrightarrow> 0 \<le> copy_volume a c (sv_db s) + sum_list (take k vs)"
  shows "copy_volume a c (sv_db (copy_history env g a c p price now vs s)) = copy_volume a c (sv_db s) + sum_list vs"
  unfolding copy_history_play by (rule served.play_net) (use assms in auto)

lemma witness_copy_inv: "copy_inv 7 ''cm41.7'' (sv_db witness_service)" "copy_volume 7 ''cm41.7'' (sv_db witness_service) = 0"
  using witness_copy_row by (simp_all add: copy_inv_def copy_volume_def witness_copy_def new_mapping_def held_volume_def)

text \<open>The row keeps its master, and once active stands for the position its fills named.\<close>

definition copy_at :: "ident \<Rightarrow> string \<Rightarrow> ident \<Rightarrow> ident \<Rightarrow> db \<Rightarrow> bool" where
  "copy_at a c mp p s \<longleftrightarrow>
     (\<exists>r. copy_row a c s = Some r \<and> m_master_position r = Some mp \<and> (m_status r = Active \<longrightarrow> m_slave_position r = Some p))"

lemma copy_at_step:
  assumes "startswith c ''cm''" "copy_at a c mp p (sv_db s)"
  shows "copy_at a c mp p (sv_db (handle_slave_fill env g (copy_fill a c p price v) now s))"
proof -
  obtain r where r: "copy_row a c (sv_db s) = Some r" "m_master_position r = Some mp"
    "m_status r = Active \<Longrightarrow> m_slave_position r = Some p" using assms(2) by (auto simp: copy_at_def)
  show ?thesis
  proof (cases "0 \<le> v")
    case True
    from copy_row_cong [OF copy_fill_mappings(1) [OF assms(1) True], of a c env g a p price now s]
    show ?thesis using r by (simp add: copy_at_def copy_row_filled)
  next
    case False
    then have "copy_row a c (sv_db (handle_slave_fill env g (copy_fill a c p price v) now s)) =
        copy_row a c (slave_closed a c p now (- v) (sv_db s))"
      using copy_row_cong [OF copy_fill_mappings(2) [OF assms(1), of "- v" env g a p price now s]] by simp
    then show ?thesis using r by (auto simp: copy_at_def copy_row_closed)
  qed
qed

lemma copy_at_history:
  "startswith c ''cm'' \<Longrightarrow> copy_at a c mp p (sv_db s) \<Longrightarrow>
   copy_at a c mp p (sv_db (copy_history env g a c p price now vs s))"
  by (induction vs arbitrary: s) (simp_all add: copy_history_def copy_at_step)

lemma copy_entry:
  assumes "copy_at a c mp p s" "copy_inv a c s" "copy_volume a c s \<noteq> 0"
  shows "\<lparr>pe_slave_account_id = a, pe_slave_position_id = p, pe_slave_volume = copy_volume a c s\<rparr> \<in> set (position_entries mp s)"
proof -
  obtain r where r: "copy_row a c s = Some r" "m_master_position r = Some mp"
    "m_status r = Active \<Longrightarrow> m_slave_position r = Some p" using assms(1) by (auto simp: copy_at_def)
  with assms have "m_status r = Active" "m_volume r = Some (copy_volume a c s)"
    by (auto simp: copy_inv_def copy_volume_def held_volume_def split: option.splits)
  with r find_SomeD [OF r(1) [unfolded copy_row_def]] show ?thesis
    by (force simp: position_entries_def map_filter_def)
qed

lemma full_close_total: "\<exists>out. decide (MasterPositionClosed p name c 0) m slaves = Inr out"
proof -
  have "\<exists>y. entry_close (MasterPositionClosed p name c 0) s x = Inr y" for s x
    by (simp add: entry_close_def partial_close_volume_def)
  then have "\<exists>cs. map_res (\<lambda>(s, x). entry_close (MasterPositionClosed p name c 0) s x) xs = Inr cs" for xs
    by (intro map_res_ok) auto
  then show ?thesis by (auto simp: decide_def position_closed_def Let_def res_bind_Inr_iff)
qed



section \<open>A gap: the protection memory is shared\<close>


end
