(* ===== verification/Net_Ledger.thy ===== *)
theory Net_Ledger
  imports Mt5_Wire "HOL-Library.Product_Lexorder"
begin

text \<open>
  A netting master's book (\<^verbatim>\<open>copier/mt5/ingress.py\<close>): the terminal holds one position
  per symbol, and the ledger expands it into virtual positions that followers copy one by one. The
  ledger keeps them oldest first, together with what changed since it was last persisted; the second
  half of the theory is the table \<^verbatim>\<open>mt5_net_ledger\<close> it is persisted to.

  A virtual position is one object in the source, listed in \<open>nl_positions\<close> and possibly in
  \<open>nl_dirty\<close>. Every mutation there is followed by storing the object in \<^verbatim>\<open>_dirty\<close> or by
  dropping it from there, so copying the value is the same as sharing the object.
\<close>

section \<open>The ledger\<close>

record virtual_position =
  vp_id :: ident
  vp_symbol :: string
  vp_side :: string
  vp_volume_open :: int
  vp_volume_left :: int
  vp_stop_loss :: "price option"
  vp_take_profit :: "price option"
  vp_opened_at_ms :: millis

record net_ledger =
  nl_positions :: "virtual_position list"
  nl_dirty :: "(ident, virtual_position) dict"
  nl_deleted :: "ident list"

definition TRADE_TYPES :: "string list" where "TRADE_TYPES = [''BUY'', ''SELL'']"
definition CLOSE_ENTRIES :: "string list" where "CLOSE_ENTRIES = [''OUT'', ''OUT_BY'', ''INOUT'']"

definition order_key :: "virtual_position \<Rightarrow> millis \<times> ident" where
  "order_key v = (vp_opened_at_ms v, vp_id v)"

definition ledger_init :: "virtual_position list \<Rightarrow> net_ledger" where
  "ledger_init rows = \<lparr>nl_positions = sort_key order_key rows, nl_dirty = [], nl_deleted = []\<rparr>"

definition of_symbol :: "string \<Rightarrow> net_ledger \<Rightarrow> virtual_position list" where
  "of_symbol sy l = filter (\<lambda>v. vp_symbol v = sy) (nl_positions l)"

definition ledger_open ::
  "report_deal \<Rightarrow> int \<Rightarrow> price option \<Rightarrow> price option \<Rightarrow> net_ledger \<Rightarrow> virtual_position \<times> net_ledger" where
  "ledger_open deal volume stop_loss take_profit l =
     (let vp = \<lparr>vp_id = rd_ticket deal, vp_symbol = rd_symbol deal, vp_side = rd_deal_type deal,
                vp_volume_open = volume, vp_volume_left = volume, vp_stop_loss = stop_loss,
                vp_take_profit = take_profit, vp_opened_at_ms = rd_time_ms deal\<rparr>
      in (vp, \<lparr>nl_positions = sort_key order_key (nl_positions l @ [vp]),
               nl_dirty = AList.update (vp_id vp) vp (nl_dirty l),
               nl_deleted = filter (\<lambda>d. d \<noteq> vp_id vp) (nl_deleted l)\<rparr>))"

text \<open>An object changed in place: its first (and with unique ids only) occurrence takes the new value.\<close>

fun replace1 :: "'a \<Rightarrow> 'a \<Rightarrow> 'a list \<Rightarrow> 'a list" where
  "replace1 x y [] = []"
| "replace1 x y (z # zs) = (if z = x then y # zs else z # replace1 x y zs)"

definition set_vp :: "virtual_position \<Rightarrow> virtual_position \<Rightarrow> net_ledger \<Rightarrow> net_ledger" where
  "set_vp v v' l = l\<lparr>nl_positions := replace1 v v' (nl_positions l), nl_dirty := AList.update (vp_id v') v' (nl_dirty l)\<rparr>"

definition drop_vp :: "virtual_position \<Rightarrow> virtual_position \<Rightarrow> net_ledger \<Rightarrow> net_ledger" where
  "drop_vp v v' l = \<lparr>nl_positions = remove1 v' (replace1 v v' (nl_positions l)),
     nl_dirty = AList.delete (vp_id v') (nl_dirty l), nl_deleted = nl_deleted l @ [vp_id v']\<rparr>"

text \<open>One turn of the loop of \<^verbatim>\<open>_consume\<close> that takes something.\<close>

definition take_from :: "int \<Rightarrow> virtual_position \<Rightarrow> net_ledger \<Rightarrow> net_ledger" where
  "take_from k v l =
     (let v' = v\<lparr>vp_volume_left := vp_volume_left v - k\<rparr>
      in if vp_volume_left v' \<le> 0 then drop_vp v v' l else set_vp v v' l)"

fun consume_loop ::
  "string \<Rightarrow> int \<Rightarrow> virtual_position list \<Rightarrow> net_ledger \<Rightarrow> master_event list \<times> net_ledger" where
  "consume_loop canonical remaining [] l = ([], l)"
| "consume_loop canonical remaining (v # vs) l =
     (if remaining \<le> 0 then ([], l)
      else let k = min (vp_volume_left v) remaining in
        if k \<le> 0 then consume_loop canonical remaining vs l
        else let (evs, l') = consume_loop canonical (remaining - k) vs (take_from k v l)
             in (MasterPositionClosed (vp_id v) canonical k (vp_volume_left v - k) # evs, l'))"

definition consume :: "string \<Rightarrow> string \<Rightarrow> int \<Rightarrow> net_ledger \<Rightarrow> master_event list \<times> net_ledger" where
  "consume sy canonical volume l = consume_loop canonical volume (of_symbol sy l) l"

text \<open>\<^verbatim>\<open>Side(text)\<close> of one of the two trade types.\<close>

definition side_named :: "string \<Rightarrow> side" where
  "side_named t = (if t = ''BUY'' then BUY else SELL)"

definition opened_event :: "virtual_position \<Rightarrow> string \<Rightarrow> price \<Rightarrow> master_event" where
  "opened_event vp canonical px = MasterPositionOpened (vp_id vp) canonical (side_named (vp_side vp))
     (vp_volume_open vp) CENTILOTS (vp_stop_loss vp) (vp_take_profit vp) (Some px)"

definition held :: "string \<Rightarrow> net_ledger \<Rightarrow> int" where
  "held sy l = sum_list (map vp_volume_left (of_symbol sy l))"

definition apply_deal ::
  "report_deal \<Rightarrow> string \<Rightarrow> price option \<Rightarrow> price option \<Rightarrow> net_ledger \<Rightarrow> master_event list \<times> net_ledger" where
  "apply_deal deal canonical stop_loss take_profit l =
     (if rd_deal_type deal \<notin> set TRADE_TYPES \<or> rd_volume deal \<le> 0 then ([], l)
      else if rd_entry deal = ''IN''
      then let (vp, l') = ledger_open deal (rd_volume deal) stop_loss take_profit l
           in ([opened_event vp canonical (rd_price deal)], l')
      else if rd_entry deal = ''OUT'' \<or> rd_entry deal = ''OUT_BY''
      then consume (rd_symbol deal) canonical (rd_volume deal) l
      else if rd_entry deal = ''INOUT''
      then let h = held (rd_symbol deal) l;
               (evs, l1) = consume (rd_symbol deal) canonical h l;
               remainder = rd_volume deal - h
           in if 0 < remainder
              then let (vp, l2) = ledger_open deal remainder stop_loss take_profit l1
                   in (evs @ [opened_event vp canonical (rd_price deal)], l2)
              else (evs, l1)
      else ([], l))"

fun protect_loop ::
  "price option \<Rightarrow> price option \<Rightarrow> virtual_position list \<Rightarrow> net_ledger \<Rightarrow> master_event list \<times> net_ledger" where
  "protect_loop sl tp [] l = ([], l)"
| "protect_loop sl tp (v # vs) l =
     (if (vp_stop_loss v, vp_take_profit v) = (sl, tp) then protect_loop sl tp vs l
      else let (evs, l') = protect_loop sl tp vs (set_vp v (v\<lparr>vp_stop_loss := sl, vp_take_profit := tp\<rparr>) l)
           in (MasterPositionSLTPAmended (vp_id v) sl tp # evs, l'))"

definition apply_protection ::
  "string \<Rightarrow> price option \<Rightarrow> price option \<Rightarrow> net_ledger \<Rightarrow> master_event list \<times> net_ledger" where
  "apply_protection sy sl tp l = protect_loop sl tp (of_symbol sy l) l"

definition dirty_rows :: "net_ledger \<Rightarrow> (virtual_position list \<times> ident list) \<times> net_ledger" where
  "dirty_rows l = ((map snd (nl_dirty l), nl_deleted l), l\<lparr>nl_dirty := [], nl_deleted := []\<rparr>)"

section \<open>The table\<close>

text \<open>Rows of \<^verbatim>\<open>mt5_net_ledger\<close> with their account; (account, virtual id) is the primary key.\<close>

type_synonym ledger_table = "(ident \<times> virtual_position) list"

definition load_net_ledger :: "ident \<Rightarrow> ledger_table \<Rightarrow> virtual_position list" where
  "load_net_ledger account_id t = sort_key order_key (map snd (filter (\<lambda>r. fst r = account_id) t))"

definition has_row :: "ident \<Rightarrow> ident \<Rightarrow> ledger_table \<Rightarrow> bool" where
  "has_row account_id v t = list_ex (\<lambda>r. fst r = account_id \<and> vp_id (snd r) = v) t"

definition upsert_row :: "ident \<Rightarrow> virtual_position \<Rightarrow> ledger_table \<Rightarrow> ledger_table" where
  "upsert_row account_id v t =
     (if has_row account_id (vp_id v) t
      then map (\<lambda>r. if fst r = account_id \<and> vp_id (snd r) = vp_id v
                    then (fst r, (snd r)\<lparr>vp_volume_left := vp_volume_left v, vp_stop_loss := vp_stop_loss v,
                                         vp_take_profit := vp_take_profit v\<rparr>) else r) t
      else t @ [(account_id, v)])"

definition upsert_net_ledger :: "ident \<Rightarrow> virtual_position list \<Rightarrow> ledger_table \<Rightarrow> ledger_table" where
  "upsert_net_ledger account_id rows t = fold (upsert_row account_id) rows t"

definition delete_net_ledger :: "ident \<Rightarrow> ident list \<Rightarrow> ledger_table \<Rightarrow> ledger_table" where
  "delete_net_ledger account_id ids t = filter (\<lambda>r. \<not> (fst r = account_id \<and> vp_id (snd r) \<in> set ids)) t"

text \<open>The ledger half of \<^verbatim>\<open>_persist_net_ledger\<close>.\<close>

definition persist_ledger :: "ident \<Rightarrow> net_ledger \<Rightarrow> ledger_table \<Rightarrow> net_ledger \<times> ledger_table" where
  "persist_ledger account_id l t =
     (let ((upserts, deleted), l') = dirty_rows l
      in (l', delete_net_ledger account_id deleted (upsert_net_ledger account_id upserts t)))"

end
