(* ===== verification/Simulation.thy ===== *)
theory Simulation
  imports Prelude
begin

text \<open>
  Functional refinement, stated once: a component with an invariant, seen through an abstraction
  function, follows an abstract specification on every input its guard admits. The client's result
  is about whole runs.
\<close>

locale simulation =
  fixes inv :: "'s \<Rightarrow> bool" and abs :: "'s \<Rightarrow> 'a" and guard :: "'i \<Rightarrow> 's \<Rightarrow> bool"
    and step :: "'i \<Rightarrow> 's \<Rightarrow> 's" and spec :: "'i \<Rightarrow> 'a \<Rightarrow> 'a"
  assumes step_inv: "inv s \<Longrightarrow> guard i s \<Longrightarrow> inv (step i s)"
    and step_abs: "inv s \<Longrightarrow> guard i s \<Longrightarrow> abs (step i s) = spec i (abs s)"
begin

primrec admitted :: "'i list \<Rightarrow> 's \<Rightarrow> bool" where
  "admitted [] s = True"
| "admitted (i # is) s = (guard i s \<and> admitted is (step i s))"

lemma run:
  assumes "inv s" "admitted is s"
  shows "inv (fold step is s) \<and> abs (fold step is s) = fold spec is (abs s)"
  using assms
proof (induction "is" arbitrary: s)
  case (Cons i "is")
  then have "inv (step i s)" "abs (step i s) = spec i (abs s)" by (simp_all add: step_inv step_abs)
  with Cons show ?case by simp
qed simp

lemma run_inv: "inv s \<Longrightarrow> admitted is s \<Longrightarrow> inv (fold step is s)"
  using run by blast

lemma run_abs: "inv s \<Longrightarrow> admitted is s \<Longrightarrow> abs (fold step is s) = fold spec is (abs s)"
  using run by blast

end

section \<open>Invariants of a machine that only grows\<close>

text \<open>
  Some invariants hold only while the state is within bounds. When the states of a run only grow and the
  bound is inherited by smaller states, bounding the last state bounds the whole run.
\<close>

locale bounded_machine = frame_order inside for inside :: "'s \<Rightarrow> 's \<Rightarrow> bool" +
  fixes step :: "'s \<Rightarrow> 's \<Rightarrow> bool" and inv room :: "'s \<Rightarrow> bool"
  assumes step_inside: "step s t \<Longrightarrow> inside s t"
    and room_back: "room t \<Longrightarrow> inside s t \<Longrightarrow> room s"
    and step_keeps: "step s t \<Longrightarrow> inv s \<Longrightarrow> room t \<Longrightarrow> inv t"
begin

lemma run_inside: "step\<^sup>*\<^sup>* s t \<Longrightarrow> inside s t"
  by (induction rule: rtranclp_induct) (auto intro: inside_refl inside_trans step_inside)

lemma run_keeps:
  assumes "step\<^sup>*\<^sup>* s t" "inv s" "room t"
  shows "inv t"
  using assms(1,3)
proof (induction rule: rtranclp_induct)
  case base
  show ?case by (rule assms(2))
next
  case (step t u)
  have "room t" by (rule room_back [OF step.prems step_inside [OF step.hyps(2)]])
  from step_keeps [OF step.hyps(2) step.IH [OF this] step.prems] show ?case .
qed

end

end
