(* ===== verification/Net_Ledger_Laws.thy ===== *)
theory Net_Ledger_Laws
  imports Net_Ledger Simulation
begin

text \<open>
  Laws of the net ledger. Every operation is a sequence of three kinds of step (open a virtual
  position, change one, drop one); the step relation carries the invariant, the bookkeeping of what
  is still to be persisted, and through it the two results: a restart rebuilds exactly the ledger,
  and the virtual positions of a symbol always sum to the terminal's net position.
\<close>

section \<open>Virtual positions by id\<close>

definition vp_at :: "virtual_position list \<Rightarrow> ident \<Rightarrow> virtual_position option" where
  "vp_at vs = map_of (map (\<lambda>v. (vp_id v, v)) vs)"

lemma vp_at_Some: "distinct (map vp_id vs) \<Longrightarrow> vp_at vs i = Some v \<longleftrightarrow> v \<in> set vs \<and> vp_id v = i"
  unfolding vp_at_def by (subst map_of_eq_Some_iff) (auto simp: comp_def)

lemma vp_at_None: "vp_at vs i = None \<longleftrightarrow> i \<notin> vp_id ` set vs"
  unfolding vp_at_def map_of_eq_None_iff by (auto simp: image_iff)

lemma vp_at_simps [simp]:
  "vp_at [] = Map.empty" "vp_at (v # vs) = (vp_at vs)(vp_id v \<mapsto> v)"
  by (simp_all add: vp_at_def)

lemma vp_at_map:
  "vp_id v' = k \<Longrightarrow> vp_at (map (\<lambda>w. if vp_id w = k then v' else w) vs) i =
     (if i = k then (if k \<in> vp_id ` set vs then Some v' else None) else vp_at vs i)"
  by (induction vs) auto

lemma vp_at_filter: "vp_at (filter (\<lambda>w. vp_id w \<noteq> k) vs) = (vp_at vs)(k := None)"
  by (induction vs) (auto simp: fun_upd_twist)

lemma vp_at_snoc:
  assumes "vp_id v \<notin> vp_id ` set vs" shows "vp_at (vs @ [v]) = (vp_at vs)(vp_id v \<mapsto> v)"
  using assms by (induction vs) (auto simp: fun_upd_twist)

lemma vp_at_unique:
  assumes "distinct (map vp_id xs)" "distinct (map vp_id ys)"
  shows "set xs = set ys \<longleftrightarrow> vp_at xs = vp_at ys"
proof
  assume "vp_at xs = vp_at ys"
  then show "set xs = set ys" using vp_at_Some [OF assms(1)] vp_at_Some [OF assms(2)] by (metis subsetI subset_antisym)
next
  assume "set xs = set ys"
  then show "vp_at xs = vp_at ys"
    using assms unfolding vp_at_def by (intro map_of_inject_set [THEN iffD2]) (auto simp: comp_def)
qed

lemma replace1_map:
  assumes "distinct (map f xs)" "x \<in> set xs"
  shows "replace1 x y xs = map (\<lambda>z. if f z = f x then y else z) xs"
  using assms
proof (induction xs)
  case (Cons z zs)
  show ?case
  proof (cases "z = x")
    case True
    then have "f x \<notin> f ` set zs" using Cons.prems(1) by simp
    then have "\<forall>w \<in> set zs. f w \<noteq> f x" by (metis image_eqI)
    then show ?thesis using True by (auto intro!: map_idI [symmetric])
  next
    case False
    then have "f z \<noteq> f x" using Cons.prems(1,2) by (metis distinct.simps(2) image_eqI list.simps(9) set_ConsD set_map)
    then show ?thesis using False Cons by simp
  qed
qed simp

lemma remove1_replace1:
  assumes "distinct (map f xs)" "x \<in> set xs" "f y = f x"
  shows "remove1 y (replace1 x y xs) = filter (\<lambda>z. f z \<noteq> f x) xs"
  using assms
proof (induction xs)
  case (Cons z zs)
  show ?case
  proof (cases "z = x")
    case True
    then have "f x \<notin> f ` set zs" using Cons.prems(1) by simp
    then have "\<forall>w \<in> set zs. f w \<noteq> f x" by (metis image_eqI)
    then show ?thesis using True by (auto intro!: filter_True [symmetric])
  next
    case False
    then have "f z \<noteq> f x" using Cons.prems(1,2) by (metis distinct.simps(2) image_eqI list.simps(9) set_ConsD set_map)
    moreover from this have "z \<noteq> y" using Cons.prems(3) by auto
    ultimately show ?thesis using False Cons by simp
  qed
qed simp

section \<open>Steps\<close>

text \<open>The columns that never change once a virtual position exists.\<close>

definition same_origin :: "virtual_position \<Rightarrow> virtual_position \<Rightarrow> bool" where
  "same_origin v w \<longleftrightarrow> vp_id v = vp_id w \<and> vp_symbol v = vp_symbol w \<and> vp_side v = vp_side w \<and>
     vp_volume_open v = vp_volume_open w \<and> vp_opened_at_ms v = vp_opened_at_ms w"

lemma same_origin_trans: "same_origin u v \<Longrightarrow> same_origin v w \<Longrightarrow> same_origin u w"
  by (simp add: same_origin_def)

lemma same_origin_merge:
  "same_origin v r \<Longrightarrow> r\<lparr>vp_volume_left := vp_volume_left v, vp_stop_loss := vp_stop_loss v, vp_take_profit := vp_take_profit v\<rparr> = v"
  by (cases r; cases v) (simp add: same_origin_def)

text \<open>\<open>known\<close> are the ids the table already holds: a deal ticket is never reused.\<close>

inductive ledger_step :: "ident set \<Rightarrow> net_ledger \<Rightarrow> net_ledger \<Rightarrow> bool" for known where
  Open: "rd_ticket d \<notin> vp_id ` set (nl_positions l) \<Longrightarrow> rd_ticket d \<notin> known \<Longrightarrow> 0 < n \<Longrightarrow>
     ledger_step known l (snd (ledger_open d n sl tp l))"
| Change: "v \<in> set (nl_positions l) \<Longrightarrow> same_origin v' v \<Longrightarrow> 0 < vp_volume_left v' \<Longrightarrow> ledger_step known l (set_vp v v' l)"
| Drop: "v \<in> set (nl_positions l) \<Longrightarrow> same_origin v' v \<Longrightarrow> ledger_step known l (drop_vp v v' l)"

inductive_cases ledger_step_cases: "ledger_step known l l'"

abbreviation ledger_steps :: "ident set \<Rightarrow> net_ledger \<Rightarrow> net_ledger \<Rightarrow> bool" where
  "ledger_steps known \<equiv> (ledger_step known)\<^sup>*\<^sup>*"

definition ledger_ok :: "net_ledger \<Rightarrow> bool" where
  "ledger_ok l \<longleftrightarrow> distinct (map vp_id (nl_positions l)) \<and> sorted (map order_key (nl_positions l)) \<and>
     (\<forall>v \<in> set (nl_positions l). 0 < vp_volume_left v)"

text \<open>What the three steps do to the positions, seen by id.\<close>

lemma set_vp_positions:
  assumes "ledger_ok l" "v \<in> set (nl_positions l)" "same_origin v' v"
  shows "nl_positions (set_vp v v' l) = map (\<lambda>w. if vp_id w = vp_id v then v' else w) (nl_positions l)"
    "vp_at (nl_positions (set_vp v v' l)) = (vp_at (nl_positions l))(vp_id v \<mapsto> v')"
proof -
  have d: "distinct (map vp_id (nl_positions l))" using assms(1) by (simp add: ledger_ok_def)
  show p: "nl_positions (set_vp v v' l) = map (\<lambda>w. if vp_id w = vp_id v then v' else w) (nl_positions l)"
    using replace1_map [OF d assms(2)] by (simp add: set_vp_def)
  have id: "vp_id v' = vp_id v" using assms(3) by (simp add: same_origin_def)
  show "vp_at (nl_positions (set_vp v v' l)) = (vp_at (nl_positions l))(vp_id v \<mapsto> v')"
    unfolding p by (rule ext) (use assms(2) vp_at_map [OF id] in simp)
qed

lemma drop_vp_positions:
  assumes "ledger_ok l" "v \<in> set (nl_positions l)" "same_origin v' v"
  shows "nl_positions (drop_vp v v' l) = filter (\<lambda>w. vp_id w \<noteq> vp_id v) (nl_positions l)"
    "vp_at (nl_positions (drop_vp v v' l)) = (vp_at (nl_positions l))(vp_id v := None)"
proof -
  have d: "distinct (map vp_id (nl_positions l))" using assms(1) by (simp add: ledger_ok_def)
  show p: "nl_positions (drop_vp v v' l) = filter (\<lambda>w. vp_id w \<noteq> vp_id v) (nl_positions l)"
    using remove1_replace1 [OF d assms(2)] assms(3) by (simp add: drop_vp_def same_origin_def)
  show "vp_at (nl_positions (drop_vp v v' l)) = (vp_at (nl_positions l))(vp_id v := None)"
    unfolding p by (rule vp_at_filter)
qed

lemma open_positions:
  assumes "ledger_ok l" "rd_ticket d \<notin> vp_id ` set (nl_positions l)" "ledger_open d n sl tp l = (vp, l')"
  shows "mset (nl_positions l') = add_mset vp (mset (nl_positions l))" "vp_id vp = rd_ticket d"
    "vp_at (nl_positions l') = (vp_at (nl_positions l))(rd_ticket d \<mapsto> vp)"
    "distinct (map vp_id (nl_positions l'))" "sorted (map order_key (nl_positions l'))"
proof -
  have p: "nl_positions l' = sort_key order_key (nl_positions l @ [vp])" and id: "vp_id vp = rd_ticket d"
    using assms(3) by (auto simp: ledger_open_def Let_def)
  show "vp_id vp = rd_ticket d" by (rule id)
  show m: "mset (nl_positions l') = add_mset vp (mset (nl_positions l))" by (simp add: p)
  have d0: "distinct (map vp_id (nl_positions l @ [vp]))" using assms id by (auto simp: ledger_ok_def)
  have "mset (map vp_id (nl_positions l')) = mset (map vp_id (nl_positions l @ [vp]))" using m by simp
  then show d': "distinct (map vp_id (nl_positions l'))" using d0 mset_eq_imp_distinct_iff by blast
  show "sorted (map order_key (nl_positions l'))" by (simp add: p)
  have "vp_at (nl_positions l') = vp_at (nl_positions l @ [vp])"
    using vp_at_unique [OF d' d0] by (simp add: p)
  also have "\<dots> = (vp_at (nl_positions l))(rd_ticket d \<mapsto> vp)"
    using vp_at_snoc [of vp "nl_positions l"] assms(2) id by simp
  finally show "vp_at (nl_positions l') = (vp_at (nl_positions l))(rd_ticket d \<mapsto> vp)" .
qed

lemma ledger_step_ok [inv_intros]:
  assumes "ledger_step known l l'" "ledger_ok l"
  shows "ledger_ok l'"
  using assms(1)
proof cases
  case (Open d n sl tp)
  obtain vp where o: "ledger_open d n sl tp l = (vp, l')" using Open(1) by (cases "ledger_open d n sl tp l") auto
  have "vp_volume_left vp = n" using o by (auto simp: ledger_open_def Let_def)
  moreover have "set (nl_positions l') = insert vp (set (nl_positions l))"
    using open_positions(1) [OF assms(2) Open(2) o] by (metis set_mset_add_mset_insert set_mset_mset)
  ultimately show ?thesis
    using open_positions(4,5) [OF assms(2) Open(2) o] assms(2) Open(4) by (auto simp: ledger_ok_def)
next
  case (Change v v')
  have keys: "map vp_id (nl_positions l') = map vp_id (nl_positions l)" "map order_key (nl_positions l') = map order_key (nl_positions l)"
    unfolding Change(1) set_vp_positions(1) [OF assms(2) Change(2,3)] using Change assms(2)
    by (auto simp: same_origin_def order_key_def ledger_ok_def distinct_map inj_on_def)
  then show ?thesis
    using assms(2) Change set_vp_positions(1) [OF assms(2) Change(2,3)] unfolding ledger_ok_def keys by auto
next
  case (Drop v v')
  then show ?thesis
    using assms(2) drop_vp_positions(1) [OF assms(2) Drop(2,3)]
    by (simp add: ledger_ok_def distinct_map_filter sorted_filter)
qed

lemma ledger_steps_ok: "ledger_steps known l l' \<Longrightarrow> ledger_ok l \<Longrightarrow> ledger_ok l'"
  by (induction rule: rtranclp_induct) (auto intro: ledger_step_ok)

section \<open>What is still to be persisted\<close>

text \<open>
  The table's rows, less the deleted ones, overridden by the dirty ones, are the ledger; and a row
  agrees with its virtual position on the columns an upsert does not write.
\<close>

definition synced :: "virtual_position list \<Rightarrow> net_ledger \<Rightarrow> bool" where
  "synced rows l \<longleftrightarrow>
     vp_at (nl_positions l) = (vp_at rows |` (- set (nl_deleted l))) ++ map_of (nl_dirty l) \<and>
     dom (map_of (nl_dirty l)) \<inter> set (nl_deleted l) = {} \<and> distinct (map fst (nl_dirty l)) \<and>
     (\<forall>i v r. vp_at (nl_positions l) i = Some v \<longrightarrow> vp_at rows i = Some r \<longrightarrow> same_origin v r)"

lemma synced_deleted: "synced rows l \<Longrightarrow> i \<in> set (nl_deleted l) \<Longrightarrow> vp_at (nl_positions l) i = None"
proof -
  assume s: "synced rows l" and i: "i \<in> set (nl_deleted l)"
  then have "map_of (nl_dirty l) i = None" by (auto simp: synced_def)
  with s i show "vp_at (nl_positions l) i = None" by (simp add: synced_def map_add_def)
qed

lemma vp_at_mem: "ledger_ok l \<Longrightarrow> v \<in> set (nl_positions l) \<Longrightarrow> vp_at (nl_positions l) (vp_id v) = Some v"
  by (simp add: vp_at_Some ledger_ok_def)

lemma ledger_step_synced:
  assumes "ledger_step (vp_id ` set rows) l l'" "ledger_ok l" "synced rows l"
  shows "synced rows l'"
  using assms(1)
proof cases
  case (Open d n sl tp)
  obtain vp where o: "ledger_open d n sl tp l = (vp, l')" using Open(1) by (cases "ledger_open d n sl tp l") auto
  note p = open_positions(2,3) [OF assms(2) Open(2) o]
  have l': "nl_dirty l' = AList.update (rd_ticket d) vp (nl_dirty l)" "nl_deleted l' = filter (\<lambda>i. i \<noteq> rd_ticket d) (nl_deleted l)"
    using o by (auto simp: ledger_open_def Let_def)
  have "vp_at rows (rd_ticket d) = None" using Open(3) vp_at_None by blast
  then show ?thesis
    using assms(3) unfolding synced_def p l'
    by (auto simp: update_conv' distinct_update map_add_def restrict_map_def fun_eq_iff split: if_splits option.splits)
next
  case (Change v v')
  note p = set_vp_positions(2) [OF assms(2) Change(2,3)]
  have id: "vp_id v' = vp_id v" using Change(3) by (simp add: same_origin_def)
  have l': "nl_dirty l' = AList.update (vp_id v) v' (nl_dirty l)" "nl_deleted l' = nl_deleted l"
    unfolding Change(1) by (simp_all add: set_vp_def id)
  note at = vp_at_mem [OF assms(2) Change(2)]
  have "vp_id v \<notin> set (nl_deleted l)" using synced_deleted [OF assms(3)] at by auto
  moreover have "same_origin v' r" if "vp_at rows (vp_id v) = Some r" for r
    using that at assms(3) same_origin_trans [OF Change(3)] by (auto simp: synced_def)
  ultimately show ?thesis
    using assms(3) unfolding synced_def Change(1) [symmetric] p [folded Change(1)] l'
    by (auto simp: update_conv' distinct_update split: if_splits)
next
  case (Drop v v')
  note p = drop_vp_positions(2) [OF assms(2) Drop(2,3)]
  have id: "vp_id v' = vp_id v" using Drop(3) by (simp add: same_origin_def)
  have l': "nl_dirty l' = AList.delete (vp_id v) (nl_dirty l)" "nl_deleted l' = nl_deleted l @ [vp_id v]"
    unfolding Drop(1) by (simp_all add: drop_vp_def id)
  show ?thesis
    using assms(3) unfolding synced_def p [folded Drop(1)] l'
    by (auto simp: delete_conv' distinct_delete map_add_def restrict_map_def fun_eq_iff split: if_splits option.splits)
qed

lemma ledger_steps_synced:
  assumes "ledger_steps (vp_id ` set rows) l l'" "ledger_ok l" "synced rows l"
  shows "ledger_ok l' \<and> synced rows l'"
  using assms by (induction rule: rtranclp_induct) (auto intro: ledger_step_ok ledger_step_synced)

lemma synced_init:
  assumes "distinct (map vp_id rows)" "\<forall>v \<in> set rows. 0 < vp_volume_left v"
  shows "ledger_ok (ledger_init rows)" "synced rows (ledger_init rows)"
proof -
  have "mset (map vp_id (sort_key order_key rows)) = mset (map vp_id rows)" by simp
  then have d: "distinct (map vp_id (sort_key order_key rows))" using assms(1) mset_eq_imp_distinct_iff by blast
  show "ledger_ok (ledger_init rows)" using assms(2) d by (simp add: ledger_ok_def ledger_init_def)
  have "vp_at (sort_key order_key rows) = vp_at rows" using vp_at_unique [OF d assms(1)] by simp
  then show "synced rows (ledger_init rows)" by (auto simp: synced_def ledger_init_def same_origin_def)
qed

section \<open>Persisting\<close>

definition rows_of :: "ident \<Rightarrow> ledger_table \<Rightarrow> virtual_position list" where
  "rows_of a t = map snd (filter (\<lambda>r. fst r = a) t)"

lemma has_row_iff: "has_row a i t \<longleftrightarrow> i \<in> vp_id ` set (rows_of a t)"
  by (induction t) (auto simp: has_row_def rows_of_def)

lemma rows_of_map:
  "rows_of a (map (\<lambda>r. if fst r = a \<and> P (snd r) then (fst r, m (snd r)) else r) t) =
     map (\<lambda>r. if P r then m r else r) (rows_of a t)"
  by (induction t) (auto simp: rows_of_def)

lemma upsert_row_at:
  assumes "\<And>r. vp_at (rows_of a t) (vp_id v) = Some r \<Longrightarrow> same_origin v r"
  shows "vp_at (rows_of a (upsert_row a v t)) = (vp_at (rows_of a t))(vp_id v \<mapsto> v)"
proof (cases "has_row a (vp_id v) t")
  case True
  then have mem: "vp_id v \<in> vp_id ` set (rows_of a t)" by (simp add: has_row_iff)
  let ?m = "\<lambda>r. r\<lparr>vp_volume_left := vp_volume_left v, vp_stop_loss := vp_stop_loss v, vp_take_profit := vp_take_profit v\<rparr>"
  have rows: "rows_of a (upsert_row a v t) = map (\<lambda>r. if vp_id r = vp_id v then ?m r else r) (rows_of a t)"
    using True rows_of_map [where P = "\<lambda>r. vp_id r = vp_id v" and m = ?m] by (simp add: upsert_row_def)
  have "vp_at (map (\<lambda>r. if vp_id r = vp_id v then ?m r else r) vs) i =
      (if i = vp_id v then map_option ?m (vp_at vs i) else vp_at vs i)" for vs i
    by (induction vs) auto
  moreover obtain r where "vp_at (rows_of a t) (vp_id v) = Some r" using mem vp_at_None by (metis not_Some_eq)
  ultimately show ?thesis unfolding rows using assms same_origin_merge by (auto simp: fun_eq_iff)
next
  case False
  then have "vp_id v \<notin> vp_id ` set (rows_of a t)" by (simp add: has_row_iff)
  then show ?thesis using False vp_at_snoc [of v "rows_of a t"] by (simp add: upsert_row_def rows_of_def)
qed

lemma upsert_row_ids:
  "distinct (map vp_id (rows_of a t)) \<Longrightarrow> distinct (map vp_id (rows_of a (upsert_row a v t)))"
proof (cases "has_row a (vp_id v) t")
  case True
  then have "map vp_id (rows_of a (upsert_row a v t)) = map vp_id (rows_of a t)"
    using rows_of_map [where P = "\<lambda>r. vp_id r = vp_id v" and m = "\<lambda>r. r\<lparr>vp_volume_left := vp_volume_left v,
      vp_stop_loss := vp_stop_loss v, vp_take_profit := vp_take_profit v\<rparr>"] by (simp add: upsert_row_def)
  then show "distinct (map vp_id (rows_of a t)) \<Longrightarrow> distinct (map vp_id (rows_of a (upsert_row a v t)))" by simp
next
  case False
  then have "vp_id v \<notin> vp_id ` set (rows_of a t)" by (simp add: has_row_iff)
  then show "distinct (map vp_id (rows_of a t)) \<Longrightarrow> distinct (map vp_id (rows_of a (upsert_row a v t)))"
    using False by (simp add: upsert_row_def rows_of_def image_image)
qed

lemma upsert_all_at:
  assumes "distinct (map fst d)" "\<And>i v. (i, v) \<in> set d \<Longrightarrow> vp_id v = i"
    "\<And>i v r. (i, v) \<in> set d \<Longrightarrow> vp_at (rows_of a t) i = Some r \<Longrightarrow> same_origin v r"
    "distinct (map vp_id (rows_of a t))"
  shows "vp_at (rows_of a (upsert_net_ledger a (map snd d) t)) = vp_at (rows_of a t) ++ map_of d \<and>
    distinct (map vp_id (rows_of a (upsert_net_ledger a (map snd d) t)))"
  using assms
proof (induction d arbitrary: t)
  case Nil
  then show ?case by (simp add: upsert_net_ledger_def)
next
  case (Cons iv d)
  obtain i v where iv: "iv = (i, v)" by (cases iv)
  have id: "vp_id v = i" using Cons.prems(2) iv by simp
  have at: "vp_at (rows_of a (upsert_row a v t)) = (vp_at (rows_of a t))(i \<mapsto> v)"
    unfolding id [symmetric] by (rule upsert_row_at) (use Cons.prems(3) iv id in auto)
  have notin: "i \<notin> fst ` set d" using Cons.prems(1) iv by simp
  have "vp_at (rows_of a (upsert_net_ledger a (map snd d) (upsert_row a v t))) = vp_at (rows_of a (upsert_row a v t)) ++ map_of d \<and>
    distinct (map vp_id (rows_of a (upsert_net_ledger a (map snd d) (upsert_row a v t))))"
  proof (rule Cons.IH)
    show "same_origin w r" if "(j, w) \<in> set d" "vp_at (rows_of a (upsert_row a v t)) j = Some r" for j w r
      using that Cons.prems(3) notin at by (auto simp: image_iff split: if_splits)
    show "distinct (map vp_id (rows_of a (upsert_row a v t)))" using Cons.prems(4) by (rule upsert_row_ids)
    show "distinct (map fst d)" using Cons.prems(1) by simp
    show "vp_id w = j" if "(j, w) \<in> set d" for j w using Cons.prems(2) that by simp
  qed
  moreover have "map_of d i = None" using notin by (simp add: map_of_eq_None_iff)
  ultimately show ?case
    using iv at by (auto simp: upsert_net_ledger_def map_add_def fun_eq_iff split: option.splits)
qed

lemma rows_delete: "rows_of a (delete_net_ledger a ids t) = filter (\<lambda>v. vp_id v \<notin> set ids) (rows_of a t)"
  unfolding rows_of_def delete_net_ledger_def by (induction t) auto

lemma vp_at_filter_set: "vp_at (filter (\<lambda>v. vp_id v \<notin> S) vs) = vp_at vs |` (- S)"
  by (induction vs) (auto simp: restrict_map_def fun_eq_iff)

lemma sorted_keys_unique:
  assumes "distinct (map vp_id xs)" "distinct (map vp_id ys)" "set xs = set ys"
    "sorted (map order_key xs)" "sorted (map order_key ys)"
  shows "xs = ys"
proof -
  have inj: "inj_on order_key (set ys)"
    using assms(2) by (auto simp: inj_on_def order_key_def distinct_map)
  have "distinct (map order_key xs)" "distinct (map order_key ys)"
    using assms(1-3) inj by (auto simp: distinct_map)
  then have "map order_key xs = map order_key ys"
    using assms(3-5) by (intro sorted_distinct_set_unique) auto
  then show ?thesis using inj assms(3) by (simp add: map_inj_on)
qed

lemma persist_positions:
  assumes "ledger_ok l" "synced (rows_of a t) l" "distinct (map vp_id (rows_of a t))"
    "persist_ledger a l t = (l', t')"
  shows "set (rows_of a t') = set (nl_positions l)" "distinct (map vp_id (rows_of a t'))"
    "nl_positions l' = nl_positions l"
proof -
  let ?up = "upsert_net_ledger a (map snd (nl_dirty l)) t"
  have t': "t' = delete_net_ledger a (nl_deleted l) ?up" and l': "nl_positions l' = nl_positions l"
    using assms(4) by (auto simp: persist_ledger_def dirty_rows_def)
  show "nl_positions l' = nl_positions l" by (rule l')
  have d: "distinct (map fst (nl_dirty l))" using assms(2) by (simp add: synced_def)
  have dirty: "vp_at (nl_positions l) i = Some v" if "(i, v) \<in> set (nl_dirty l)" for i v
    using that assms(2) map_of_eq_Some_iff [OF d] by (simp add: synced_def)
  have up: "vp_at (rows_of a ?up) = vp_at (rows_of a t) ++ map_of (nl_dirty l) \<and> distinct (map vp_id (rows_of a ?up))"
  proof (rule upsert_all_at [OF d])
    show "vp_id v = i" if "(i, v) \<in> set (nl_dirty l)" for i v
      using dirty [OF that] assms(1) by (simp add: vp_at_Some ledger_ok_def)
    show "same_origin v r" if "(i, v) \<in> set (nl_dirty l)" "vp_at (rows_of a t) i = Some r" for i v r
      using dirty [OF that(1)] that(2) assms(2) by (simp add: synced_def)
  qed (use assms in auto)
  then show d': "distinct (map vp_id (rows_of a t'))" unfolding t' rows_delete by (simp add: distinct_map_filter)
  have "vp_at (rows_of a t') = vp_at (nl_positions l)"
  proof
    fix i
    have "map_of (nl_dirty l) i = None" if "i \<in> set (nl_deleted l)" using assms(2) that by (auto simp: synced_def)
    then show "vp_at (rows_of a t') i = vp_at (nl_positions l) i"
      unfolding t' rows_delete vp_at_filter_set using up assms(2)
      by (cases "map_of (nl_dirty l) i") (auto simp: synced_def map_add_def restrict_map_def)
  qed
  then show "set (rows_of a t') = set (nl_positions l)"
    using vp_at_unique [OF d'] assms(1) by (simp add: ledger_ok_def)
qed

section \<open>The operations are steps\<close>

lemma take_from_step:
  assumes "v \<in> set (nl_positions l)" "k \<le> vp_volume_left v"
  shows "ledger_step known l (take_from k v l)"
  using assms by (auto simp: take_from_def Let_def same_origin_def intro!: ledger_step.intros)

text \<open>A virtual position the loop has still to visit is untouched by the turns before.\<close>

lemma step_keeps_others:
  assumes "ledger_ok l" "v \<in> set (nl_positions l)" "same_origin v' v" "w \<in> set (nl_positions l)" "vp_id w \<noteq> vp_id v"
  shows "w \<in> set (nl_positions (set_vp v v' l))" "w \<in> set (nl_positions (drop_vp v v' l))"
  using assms(4,5) unfolding set_vp_positions(1) [OF assms(1-3)] drop_vp_positions(1) [OF assms(1-3)] by force+

lemma take_from_keeps:
  assumes "ledger_ok l" "v \<in> set (nl_positions l)" "w \<in> set (nl_positions l)" "vp_id w \<noteq> vp_id v"
  shows "w \<in> set (nl_positions (take_from k v l))"
  using step_keeps_others [OF assms(1,2) _ assms(3,4), of "v\<lparr>vp_volume_left := vp_volume_left v - k\<rparr>"]
  by (simp add: take_from_def Let_def same_origin_def)

lemma key_of_rest: "distinct (map f (v # vs)) \<Longrightarrow> w \<in> set vs \<Longrightarrow> f w \<noteq> f v"
  by (metis distinct.simps(2) image_eqI list.simps(9) set_map)

lemma consume_loop_steps:
  assumes "ledger_ok l" "set vs \<subseteq> set (nl_positions l)" "distinct (map vp_id vs)"
  shows "ledger_steps known l (snd (consume_loop c n vs l))"
  using assms
proof (induction vs arbitrary: n l)
  case (Cons v vs)
  let ?k = "min (vp_volume_left v) n"
  show ?case
  proof (cases "n \<le> 0 \<or> ?k \<le> 0")
    case True
    then show ?thesis using Cons by (auto simp: Let_def)
  next
    case False
    have step: "ledger_step known l (take_from ?k v l)" using Cons.prems by (intro take_from_step) auto
    have "set vs \<subseteq> set (nl_positions (take_from ?k v l))"
    proof
      fix w assume w: "w \<in> set vs"
      with Cons.prems(3) have "vp_id w \<noteq> vp_id v" by (rule key_of_rest)
      then show "w \<in> set (nl_positions (take_from ?k v l))"
        using Cons.prems(1,2) w by (intro take_from_keeps) auto
    qed
    then have "ledger_steps known (take_from ?k v l) (snd (consume_loop c (n - ?k) vs (take_from ?k v l)))"
      using Cons.prems(3) by (intro Cons.IH ledger_step_ok [OF step Cons.prems(1)]) auto
    with step have "ledger_steps known l (snd (consume_loop c (n - ?k) vs (take_from ?k v l)))"
      by (rule converse_rtranclp_into_rtranclp)
    then show ?thesis using False by (simp add: Let_def split_beta)
  qed
qed simp

lemma of_symbol_props:
  assumes "ledger_ok l"
  shows "set (of_symbol sy l) \<subseteq> set (nl_positions l)" "distinct (map vp_id (of_symbol sy l))"
  using assms by (auto simp: of_symbol_def ledger_ok_def distinct_map_filter)

lemma consume_steps: "ledger_ok l \<Longrightarrow> ledger_steps known l (snd (consume sy c n l))"
  unfolding consume_def by (intro consume_loop_steps of_symbol_props)

lemma open_step:
  "rd_ticket d \<notin> vp_id ` set (nl_positions l) \<Longrightarrow> rd_ticket d \<notin> known \<Longrightarrow> 0 < n \<Longrightarrow>
   ledger_steps known l (snd (ledger_open d n sl tp l))"
  by (rule r_into_rtranclp) (rule ledger_step.Open)

text \<open>No step brings an id back.\<close>

lemma step_ids:
  assumes "ledger_step known l l'" "ledger_ok l" "i \<in> vp_id ` set (nl_positions l')"
  shows "i \<in> vp_id ` set (nl_positions l) \<or> i \<notin> known"
proof -
  have at: "vp_at (nl_positions l') i \<noteq> None" using assms(3) by (simp add: vp_at_None)
  from assms(1) have "vp_at (nl_positions l) i \<noteq> None \<or> i \<notin> known"
  proof cases
    case (Open d n sl tp)
    then obtain vp where o: "ledger_open d n sl tp l = (vp, l')" by (cases "ledger_open d n sl tp l") auto
    from open_positions(3) [OF assms(2) Open(2) o] at Open(3) show ?thesis by (auto split: if_splits)
  next
    case (Change v v')
    with at set_vp_positions(2) [OF assms(2) Change(2,3)] vp_at_mem [OF assms(2) Change(2)]
    show ?thesis by (auto split: if_splits)
  next
    case (Drop v v')
    with at drop_vp_positions(2) [OF assms(2) Drop(2,3)] show ?thesis by (auto split: if_splits)
  qed
  then show ?thesis by (simp add: vp_at_None)
qed

lemma consume_ids:
  assumes "ledger_ok l" "i \<notin> vp_id ` set (nl_positions l)"
  shows "i \<notin> vp_id ` set (nl_positions (snd (consume sy c n l)))"
proof -
  have "ledger_steps {i} l (snd (consume sy c n l))" using assms(1) by (rule consume_steps)
  then have "ledger_ok (snd (consume sy c n l)) \<and> i \<notin> vp_id ` set (nl_positions (snd (consume sy c n l)))"
  proof (induction rule: rtranclp_induct)
    case (step l1 l2)
    then show ?case using step_ids [OF step.hyps(2), of i] ledger_step_ok [OF step.hyps(2)] by auto
  qed (use assms in simp)
  then show ?thesis ..
qed

lemma apply_deal_steps:
  assumes "ledger_ok l" "rd_ticket d \<notin> vp_id ` set (nl_positions l)" "rd_ticket d \<notin> known"
  shows "ledger_steps known l (snd (apply_deal d c sl tp l))"
proof -
  let ?l1 = "snd (consume (rd_symbol d) c (held (rd_symbol d) l) l)"
  have c: "ledger_steps known l ?l1" using assms(1) by (rule consume_steps)
  have "ledger_steps known l (snd (ledger_open d n sl tp ?l1))" if "0 < n" for n
    using c open_step [OF consume_ids [OF assms(1,2)] assms(3) that] by (rule rtranclp_trans)
  with c show ?thesis
    using open_step [OF assms(2,3)] consume_steps [OF assms(1)]
    by (simp add: apply_deal_def Let_def split_beta)
qed

lemma protect_loop_steps:
  assumes "ledger_ok l" "set vs \<subseteq> set (nl_positions l)" "distinct (map vp_id vs)"
  shows "ledger_steps known l (snd (protect_loop sl tp vs l))"
  using assms
proof (induction vs arbitrary: l)
  case (Cons v vs)
  let ?v = "v\<lparr>vp_stop_loss := sl, vp_take_profit := tp\<rparr>"
  have o: "same_origin ?v v" by (simp add: same_origin_def)
  have mem: "v \<in> set (nl_positions l)" using Cons.prems(2) by simp
  then have step: "ledger_step known l (set_vp v ?v l)"
    using o Cons.prems(1) by (intro ledger_step.Change) (auto simp: ledger_ok_def)
  have "set vs \<subseteq> set (nl_positions (set_vp v ?v l))"
    using step_keeps_others(1) [OF Cons.prems(1) mem o] Cons.prems(2) key_of_rest [OF Cons.prems(3)] by auto
  then have "ledger_steps known (set_vp v ?v l) (snd (protect_loop sl tp vs (set_vp v ?v l)))"
    using Cons.prems(3) by (intro Cons.IH ledger_step_ok [OF step Cons.prems(1)]) auto
  with step have "ledger_steps known l (snd (protect_loop sl tp vs (set_vp v ?v l)))"
    by (rule converse_rtranclp_into_rtranclp)
  moreover have "ledger_steps known l (snd (protect_loop sl tp vs l))" using Cons by auto
  ultimately show ?case by (simp add: split_beta)
qed simp

lemma apply_protection_steps: "ledger_ok l \<Longrightarrow> ledger_steps known l (snd (apply_protection sy sl tp l))"
  unfolding apply_protection_def by (intro protect_loop_steps of_symbol_props)

section \<open>A restart keeps the ledger\<close>

datatype ledger_input =
    Deal report_deal string "price option" "price option"
  | Protect string "price option" "price option"

fun ledger_apply :: "ledger_input \<Rightarrow> net_ledger \<Rightarrow> net_ledger" where
  "ledger_apply (Deal d c sl tp) l = snd (apply_deal d c sl tp l)"
| "ledger_apply (Protect sy sl tp) l = snd (apply_protection sy sl tp l)"

fun tickets :: "ledger_input list \<Rightarrow> ident list" where
  "tickets [] = []"
| "tickets (Deal d c sl tp # is) = rd_ticket d # tickets is"
| "tickets (Protect sy sl tp # is) = tickets is"

lemma ledger_steps_ids:
  assumes "ledger_steps known l l'" "ledger_ok l" "vp_id ` set (nl_positions l) \<inter> R = {}" "R \<subseteq> known"
  shows "vp_id ` set (nl_positions l') \<inter> R = {}"
  using assms(1)
proof (induction rule: rtranclp_induct)
  case (step l1 l2)
  have "ledger_ok l1" using ledger_steps_ok [OF step.hyps(1) assms(2)] .
  then show ?case using step_ids [OF step.hyps(2)] step.IH assms(4) by blast
qed (rule assms(3))

lemma ledger_step_mono: "ledger_step known l l' \<Longrightarrow> known' \<subseteq> known \<Longrightarrow> ledger_step known' l l'"
  by (cases rule: ledger_step.cases) (auto intro: ledger_step.intros)

lemma ledger_steps_mono:
  "ledger_steps known l l' \<Longrightarrow> known' \<subseteq> known \<Longrightarrow> ledger_steps known' l l'"
  by (induction rule: rtranclp_induct) (auto intro: rtranclp.rtrancl_into_rtrancl ledger_step_mono)

lemma ledger_apply_steps:
  assumes "ledger_ok l" "vp_id ` set (nl_positions l) \<inter> set (tickets is) = {}" "distinct (tickets is)"
    "set (tickets is) \<inter> known = {}"
  shows "ledger_steps known l (fold ledger_apply is l)"
  using assms
proof (induction "is" arbitrary: l)
  case (Cons i "is")
  have sub: "set (tickets is) \<subseteq> set (tickets (i # is))" "distinct (tickets is)"
    using Cons.prems(3) by (cases i; auto)+
  have first: "ledger_steps (known \<union> set (tickets is)) l (ledger_apply i l)"
  proof (cases i)
    case (Deal d c sl tp)
    then show ?thesis using Cons.prems by (auto intro!: apply_deal_steps)
  next
    case (Protect sy sl tp)
    then show ?thesis using Cons.prems(1) by (simp add: apply_protection_steps)
  qed
  have "vp_id ` set (nl_positions l) \<inter> set (tickets is) = {}" using Cons.prems(2) sub(1) by blast
  then have "vp_id ` set (nl_positions (ledger_apply i l)) \<inter> set (tickets is) = {}"
    by (rule ledger_steps_ids [OF first Cons.prems(1)]) simp
  moreover have "set (tickets is) \<inter> known = {}" using Cons.prems(4) sub(1) by blast
  ultimately have "ledger_steps known (ledger_apply i l) (fold ledger_apply is (ledger_apply i l))"
    using sub(2) by (intro Cons.IH ledger_steps_ok [OF first Cons.prems(1)])
  with ledger_steps_mono [OF first, of known] show ?case by (simp add: rtranclp_trans)
qed simp

lemma load_rows: "load_net_ledger a t = sort_key order_key (rows_of a t)"
  by (simp add: load_net_ledger_def rows_of_def)

lemma ledger_rows_of_others: "b \<noteq> a \<Longrightarrow> rows_of b (snd (persist_ledger a l t)) = rows_of b t"
proof -
  assume b: "b \<noteq> a"
  have up: "rows_of b (upsert_row a v t) = rows_of b t" for v t
    using b rows_of_map [of b] by (auto simp: upsert_row_def rows_of_def filter_map comp_def intro!: arg_cong [where f = "map snd"] map_cong filter_cong)
  have "rows_of b (fold (upsert_row a) vs t) = rows_of b t" for vs t by (induction vs arbitrary: t) (simp_all add: up)
  moreover have "rows_of b (delete_net_ledger a ids t) = rows_of b t" for ids t
    using b by (induction t) (auto simp: rows_of_def delete_net_ledger_def)
  ultimately show ?thesis by (simp add: persist_ledger_def dirty_rows_def upsert_net_ledger_def)
qed

text \<open>
  C29. A restart keeps a netting master's book: start from the ledger the table holds, apply any
  sequence of deals (each with a ticket not seen before) and protection changes, and persist what the
  ledger reports as changed; then the ledger rebuilt from the table has exactly the same virtual
  positions in the same order, every other account's rows are as they were, and the table is again
  in the state this theorem starts from.
\<close>

theorem restart_keeps_ledger:
  assumes "distinct (map vp_id (rows_of a t))" "\<forall>v \<in> set (rows_of a t). 0 < vp_volume_left v"
    and "distinct (tickets is)" "set (tickets is) \<inter> vp_id ` set (rows_of a t) = {}"
    and "l = fold ledger_apply is (ledger_init (load_net_ledger a t))" "persist_ledger a l t = (l', t')"
  shows "nl_positions (ledger_init (load_net_ledger a t')) = nl_positions l \<and> nl_positions l' = nl_positions l \<and>
    distinct (map vp_id (rows_of a t')) \<and> (\<forall>v \<in> set (rows_of a t'). 0 < vp_volume_left v) \<and>
    (\<forall>b. b \<noteq> a \<longrightarrow> rows_of b t' = rows_of b t)"
proof -
  let ?rows = "rows_of a t" and ?l0 = "ledger_init (load_net_ledger a t)"
  have idem: "sort_key order_key (sort_key order_key vs) = sort_key order_key vs" for vs
    by (rule sort_key_id_if_sorted) simp
  have l0: "?l0 = ledger_init ?rows" by (simp add: load_rows ledger_init_def idem)
  note init = synced_init [OF assms(1,2), folded l0]
  have "vp_id ` set (nl_positions ?l0) = vp_id ` set ?rows" unfolding l0 by (simp add: ledger_init_def)
  then have "ledger_steps (vp_id ` set ?rows) ?l0 l"
    unfolding assms(5) using assms(3,4) by (intro ledger_apply_steps init) auto
  from ledger_steps_synced [OF this init] have l: "ledger_ok l" "synced ?rows l" by auto
  note p = persist_positions [OF l assms(1,6)]
  have "nl_positions (ledger_init (load_net_ledger a t')) = sort_key order_key (rows_of a t')"
    by (simp add: ledger_init_def load_rows idem)
  also have "\<dots> = nl_positions l"
  proof (rule sorted_keys_unique)
    have "mset (map vp_id (sort_key order_key (rows_of a t'))) = mset (map vp_id (rows_of a t'))" by simp
    then show "distinct (map vp_id (sort_key order_key (rows_of a t')))" using p(2) mset_eq_imp_distinct_iff by blast
  qed (use l p in \<open>auto simp: ledger_ok_def\<close>)
  finally show ?thesis
    using p l ledger_rows_of_others [of _ a l t] assms(6) by (auto simp: ledger_ok_def)
qed

text \<open>A netting master that holds two slices of gold, is hit by an opposite deal and reversed.\<close>

definition witness_deal :: "ident \<Rightarrow> string \<Rightarrow> string \<Rightarrow> int \<Rightarrow> report_deal" where
  "witness_deal i ty entry v = \<lparr>rd_ticket = i, rd_position = 1, rd_order = 0, rd_symbol = ''XAUUSD'', rd_deal_type = ty,
     rd_entry = entry, rd_volume = v, rd_price = 2000, rd_profit = 0, rd_swap = 0, rd_commission = 0, rd_time_ms = i,
     rd_comment = [], rd_magic = 0\<rparr>"

definition witness_inputs :: "ledger_input list" where
  "witness_inputs = [Deal (witness_deal 11 ''BUY'' ''IN'' 30) ''XAUUSD'' None None,
     Deal (witness_deal 12 ''BUY'' ''IN'' 20) ''XAUUSD'' None None, Protect ''XAUUSD'' (Some 1990) None,
     Deal (witness_deal 13 ''SELL'' ''OUT'' 40) ''XAUUSD'' None None]"

theorem restart_keeps_ledger_witness:
  "let l = fold ledger_apply witness_inputs (ledger_init (load_net_ledger 5 []));
     (l', t') = persist_ledger 5 l []
   in nl_positions (ledger_init (load_net_ledger 5 t')) = nl_positions l \<and> map vp_volume_left (nl_positions l) = [10]"
proof -
  obtain l' t' where p: "persist_ledger 5 (fold ledger_apply witness_inputs (ledger_init (load_net_ledger 5 []))) [] = (l', t')"
    by (cases "persist_ledger 5 (fold ledger_apply witness_inputs (ledger_init (load_net_ledger 5 []))) []")
  have "map vp_volume_left (nl_positions (fold ledger_apply witness_inputs (ledger_init (load_net_ledger 5 [])))) = [10]"
    by code_simp
  with restart_keeps_ledger [OF _ _ _ _ refl p] p show ?thesis
    by (simp add: rows_of_def witness_inputs_def witness_deal_def)
qed

section \<open>The virtual positions sum to the net position\<close>

definition sign_of :: "string \<Rightarrow> int" where
  "sign_of t = (if t = ''BUY'' then 1 else - 1)"

text \<open>A quantity summed over the ledger, for a summand linear in what is left.\<close>

definition weigh :: "(virtual_position \<Rightarrow> int) \<Rightarrow> net_ledger \<Rightarrow> int" where
  "weigh c l = (\<Sum>v\<leftarrow>nl_positions l. c v * vp_volume_left v)"

definition origin_only :: "(virtual_position \<Rightarrow> int) \<Rightarrow> bool" where
  "origin_only c \<longleftrightarrow> (\<forall>v w. same_origin v w \<longrightarrow> c v = c w)"

definition net_coeff :: "string \<Rightarrow> virtual_position \<Rightarrow> int" where
  "net_coeff sy v = (if vp_symbol v = sy then sign_of (vp_side v) else 0)"

definition held_coeff :: "string \<Rightarrow> virtual_position \<Rightarrow> int" where
  "held_coeff sy v = (if vp_symbol v = sy then 1 else 0)"

lemma coeffs_origin [simp]: "origin_only (net_coeff sy)" "origin_only (held_coeff sy)"
  by (auto simp: origin_only_def net_coeff_def held_coeff_def same_origin_def)

definition net_of :: "net_ledger \<Rightarrow> string \<Rightarrow> int" where
  "net_of l sy = (\<Sum>v\<leftarrow>of_symbol sy l. sign_of (vp_side v) * vp_volume_left v)"

lemma net_of_weigh: "net_of l sy = weigh (net_coeff sy) l" and held_weigh: "held sy l = weigh (held_coeff sy) l"
proof -
  have "(\<Sum>v\<leftarrow>filter (\<lambda>v. vp_symbol v = sy) vs. sign_of (vp_side v) * vp_volume_left v) =
      (\<Sum>v\<leftarrow>vs. net_coeff sy v * vp_volume_left v)"
    "sum_list (map vp_volume_left (filter (\<lambda>v. vp_symbol v = sy) vs)) = (\<Sum>v\<leftarrow>vs. held_coeff sy v * vp_volume_left v)" for vs
    by (induction vs) (simp_all add: net_coeff_def held_coeff_def)
  then show "net_of l sy = weigh (net_coeff sy) l" "held sy l = weigh (held_coeff sy) l"
    by (simp_all add: net_of_def held_def of_symbol_def weigh_def)
qed

lemma sum_update:
  assumes "distinct (map vp_id vs)" "v \<in> set vs"
  shows "(\<Sum>w\<leftarrow>map (\<lambda>w. if vp_id w = vp_id v then v' else w) vs. (f w :: int)) = (\<Sum>w\<leftarrow>vs. f w) - f v + f v'"
    and "(\<Sum>w\<leftarrow>filter (\<lambda>w. vp_id w \<noteq> vp_id v) vs. f w) = (\<Sum>w\<leftarrow>vs. f w) - f v"
proof -
  have "(\<Sum>w\<leftarrow>map (\<lambda>w. if vp_id w = vp_id v then v' else w) vs. f w) = (\<Sum>w\<leftarrow>vs. f w) - f v + f v' \<and>
    (\<Sum>w\<leftarrow>filter (\<lambda>w. vp_id w \<noteq> vp_id v) vs. f w) = (\<Sum>w\<leftarrow>vs. f w) - f v"
    using assms
  proof (induction vs)
    case (Cons u vs)
    show ?case
    proof (cases "u = v")
      case True
      have "vp_id w \<noteq> vp_id v" if "w \<in> set vs" for w using key_of_rest [OF Cons.prems(1) that] True by simp
      then have "map (\<lambda>w. if vp_id w = vp_id v then v' else w) vs = vs" "filter (\<lambda>w. vp_id w \<noteq> vp_id v) vs = vs"
        by (auto intro: map_idI filter_True)
      then show ?thesis using True by simp
    next
      case False
      then have "v \<in> set vs" using Cons.prems(2) by simp
      moreover from this have "vp_id u \<noteq> vp_id v" using key_of_rest [OF Cons.prems(1)] by metis
      ultimately show ?thesis using Cons by simp
    qed
  qed simp
  then show "(\<Sum>w\<leftarrow>map (\<lambda>w. if vp_id w = vp_id v then v' else w) vs. f w) = (\<Sum>w\<leftarrow>vs. f w) - f v + f v'"
    "(\<Sum>w\<leftarrow>filter (\<lambda>w. vp_id w \<noteq> vp_id v) vs. f w) = (\<Sum>w\<leftarrow>vs. f w) - f v" by auto
qed

lemma weigh_steps:
  assumes "ledger_ok l" "v \<in> set (nl_positions l)" "same_origin v' v"
  shows "weigh c (set_vp v v' l) = weigh c l - c v * vp_volume_left v + c v' * vp_volume_left v'"
    "weigh c (drop_vp v v' l) = weigh c l - c v * vp_volume_left v"
proof -
  have d: "distinct (map vp_id (nl_positions l))" using assms(1) by (simp add: ledger_ok_def)
  show "weigh c (set_vp v v' l) = weigh c l - c v * vp_volume_left v + c v' * vp_volume_left v'"
    "weigh c (drop_vp v v' l) = weigh c l - c v * vp_volume_left v"
    unfolding weigh_def set_vp_positions(1) [OF assms] drop_vp_positions(1) [OF assms] by (rule sum_update [OF d assms(2)])+
qed

lemma take_from_weigh:
  assumes "ledger_ok l" "v \<in> set (nl_positions l)" "k \<le> vp_volume_left v" "origin_only c"
  shows "weigh c (take_from k v l) = weigh c l - c v * k"
proof -
  let ?v = "v\<lparr>vp_volume_left := vp_volume_left v - k\<rparr>"
  have o: "same_origin ?v v" by (simp add: same_origin_def)
  have c: "c ?v = c v" using assms(4) o unfolding origin_only_def by blast
  show ?thesis
  proof (cases "vp_volume_left v = k")
    case True
    then show ?thesis using weigh_steps(2) [OF assms(1,2) o] by (simp add: take_from_def)
  next
    case False
    then show ?thesis using weigh_steps(1) [OF assms(1,2) o, of c] assms(3) c by (simp add: take_from_def algebra_simps)
  qed
qed

lemma open_weigh:
  assumes "ledger_open d n sl tp l = (vp, l')"
  shows "weigh c l' = weigh c l + c vp * n"
proof -
  have "mset (nl_positions l') = add_mset vp (mset (nl_positions l))" "vp_volume_left vp = n"
    using assms by (auto simp: ledger_open_def Let_def)
  then show ?thesis
    by (simp add: weigh_def sum_mset_sum_list [symmetric] del: sum_mset_sum_list)
qed

lemma consume_loop_weigh:
  assumes "ledger_ok l" "set vs \<subseteq> set (nl_positions l)" "distinct (map vp_id vs)" "origin_only c" "\<forall>v \<in> set vs. c v = C"
  shows "weigh c (snd (consume_loop canon n vs l)) = weigh c l - C * min (max n 0) (\<Sum>v\<leftarrow>vs. vp_volume_left v)"
  using assms
proof (induction vs arbitrary: n l)
  case (Cons v vs)
  let ?k = "min (vp_volume_left v) n"
  have pos: "0 < vp_volume_left v" "0 \<le> (\<Sum>w\<leftarrow>vs. vp_volume_left w)"
    using Cons.prems(1,2) by (fastforce simp: ledger_ok_def intro: sum_list_nonneg)+
  show ?case
  proof (cases "n \<le> 0")
    case False
    have mem: "v \<in> set (nl_positions l)" using Cons.prems(2) by simp
    have step: "ledger_step {} l (take_from ?k v l)" using mem by (intro take_from_step) auto
    have "set vs \<subseteq> set (nl_positions (take_from ?k v l))"
      using take_from_keeps [OF Cons.prems(1) mem] Cons.prems(2) key_of_rest [OF Cons.prems(3)] by auto
    then have "weigh c (snd (consume_loop canon (n - ?k) vs (take_from ?k v l))) =
        weigh c (take_from ?k v l) - C * min (max (n - ?k) 0) (\<Sum>w\<leftarrow>vs. vp_volume_left w)"
      using Cons.prems(3-5) by (intro Cons.IH ledger_step_ok [OF step Cons.prems(1)]) auto
    moreover have "weigh c (take_from ?k v l) = weigh c l - C * ?k"
      using take_from_weigh [OF Cons.prems(1) mem _ Cons.prems(4), of ?k] Cons.prems(5) by simp
    moreover have "?k + min (max (n - ?k) 0) (\<Sum>w\<leftarrow>vs. vp_volume_left w) = min (max n 0) (\<Sum>w\<leftarrow>v # vs. vp_volume_left w)"
      using pos False by (auto simp: min_def max_def)
    moreover have "snd (consume_loop canon n (v # vs) l) = snd (consume_loop canon (n - ?k) vs (take_from ?k v l))"
      using pos False by (simp add: Let_def split_beta)
    ultimately show ?thesis by (metis (no_types, lifting) diff_diff_eq distrib_left)
  qed (use pos in simp)
qed simp

lemma consume_weigh:
  assumes "ledger_ok l" "origin_only c" "\<forall>v \<in> set (of_symbol sy l). c v = C"
  shows "weigh c (snd (consume sy canon n l)) = weigh c l - C * min (max n 0) (held sy l)"
  unfolding consume_def held_def using consume_loop_weigh [OF assms(1) of_symbol_props [OF assms(1)] assms(2,3)] by simp

text \<open>Without opening, every virtual position left is an old one with some volume taken.\<close>

lemma step_origin:
  assumes "ledger_step UNIV l l'" "ledger_ok l" "w \<in> set (nl_positions l')"
  shows "\<exists>v \<in> set (nl_positions l). same_origin w v"
  using assms(1)
proof cases
  case (Change v v')
  then show ?thesis
    using assms(3) set_vp_positions(1) [OF assms(2) Change(2,3)] by (auto simp: same_origin_def split: if_splits)
next
  case (Drop v v')
  then show ?thesis using assms(3) drop_vp_positions(1) [OF assms(2) Drop(2,3)] by (auto simp: same_origin_def)
qed simp

lemma steps_origin:
  assumes "ledger_steps UNIV l l'" "ledger_ok l"
  shows "\<forall>w \<in> set (nl_positions l'). \<exists>v \<in> set (nl_positions l). same_origin w v"
  using assms(1)
proof (induction rule: rtranclp_induct)
  case (step l1 l2)
  then show ?case
    using step_origin [OF step.hyps(2) ledger_steps_ok [OF step.hyps(1) assms(2)]] same_origin_trans by blast
qed (auto simp: same_origin_def)

definition one_sided :: "net_ledger \<Rightarrow> bool" where
  "one_sided l \<longleftrightarrow> (\<forall>v \<in> set (nl_positions l). vp_side v \<in> set TRADE_TYPES \<and>
     (\<forall>w \<in> set (nl_positions l). vp_symbol v = vp_symbol w \<longrightarrow> vp_side v = vp_side w))"

definition book_ok :: "net_ledger \<Rightarrow> bool" where
  "book_ok l \<longleftrightarrow> ledger_ok l \<and> one_sided l"

lemma consume_book:
  assumes "book_ok l" shows "book_ok (snd (consume sy c n l))"
proof -
  have s: "ledger_steps UNIV l (snd (consume sy c n l))" using assms by (auto simp: book_ok_def intro: consume_steps)
  then have "\<forall>w \<in> set (nl_positions (snd (consume sy c n l))). \<exists>v \<in> set (nl_positions l). same_origin w v"
    using assms by (intro steps_origin) (auto simp: book_ok_def)
  with assms have "one_sided (snd (consume sy c n l))"
    unfolding book_ok_def one_sided_def same_origin_def by metis
  then show ?thesis using ledger_steps_ok [OF s] assms by (simp add: book_ok_def)
qed

text \<open>The side of a symbol's virtual positions is the side of its net position.\<close>

lemma net_side:
  assumes "book_ok l" "v \<in> set (of_symbol sy l)"
  shows "net_of l sy = sign_of (vp_side v) * held sy l" "0 < held sy l"
    "\<forall>w \<in> set (of_symbol sy l). vp_side w = vp_side v"
proof -
  show same: "\<forall>w \<in> set (of_symbol sy l). vp_side w = vp_side v"
    using assms by (auto simp: book_ok_def one_sided_def of_symbol_def)
  have "(\<Sum>w\<leftarrow>vs. sign_of (vp_side w) * vp_volume_left w) = sign_of (vp_side v) * sum_list (map vp_volume_left vs)"
    if "\<forall>w \<in> set vs. vp_side w = vp_side v" for vs using that by (induction vs) (auto simp: algebra_simps)
  from this [OF same] show "net_of l sy = sign_of (vp_side v) * held sy l" by (simp add: net_of_def held_def)
  have "\<forall>w \<in> set (of_symbol sy l). 0 < vp_volume_left w"
    using assms(1) by (auto simp: book_ok_def ledger_ok_def of_symbol_def)
  then have "vp_volume_left v \<le> held sy l" "0 < vp_volume_left v"
    using assms(2) member_le_sum_list [of "vp_volume_left v" "map vp_volume_left (of_symbol sy l)"]
    by (fastforce simp: held_def)+
  then show "0 < held sy l" by simp
qed

lemma held_zero: "book_ok l \<Longrightarrow> held sy l = 0 \<longleftrightarrow> of_symbol sy l = []"
  using net_side(2) [of l "hd (of_symbol sy l)" sy] by (cases "of_symbol sy l") (auto simp: held_def)

lemma open_fields:
  assumes "ledger_open d n sl tp l = (vp, l')"
  shows "set (nl_positions l') = insert vp (set (nl_positions l))" "vp_symbol vp = rd_symbol d" "vp_side vp = rd_deal_type d"
proof -
  have "l' = snd (ledger_open d n sl tp l)" "vp = fst (ledger_open d n sl tp l)" using assms by simp_all
  then show "set (nl_positions l') = insert vp (set (nl_positions l))" "vp_symbol vp = rd_symbol d" "vp_side vp = rd_deal_type d"
    by (simp_all add: ledger_open_def Let_def)
qed

lemma open_book:
  assumes "book_ok l" "ledger_open d n sl tp l = (vp, l')" "rd_ticket d \<notin> vp_id ` set (nl_positions l)" "0 < n"
    and "rd_deal_type d \<in> set TRADE_TYPES" "\<forall>w \<in> set (of_symbol (rd_symbol d) l). vp_side w = rd_deal_type d"
  shows "book_ok l'"
proof -
  have "ledger_step {} l l'" using ledger_step.Open [OF assms(3) _ assms(4), of "{}" sl tp] assms(2) by simp
  then have "ledger_ok l'" by (rule ledger_step_ok) (use assms(1) in \<open>simp add: book_ok_def\<close>)
  note vp = open_fields [OF assms(2)]
  have side: "vp_side v = rd_deal_type d" if "v \<in> set (nl_positions l')" "vp_symbol v = rd_symbol d" for v
    using that vp assms(6) by (auto simp: of_symbol_def)
  have old: "v \<in> set (nl_positions l)" if "v \<in> set (nl_positions l')" "vp_symbol v \<noteq> rd_symbol d" for v
    using that vp by auto
  have os: "one_sided l" using assms(1) by (simp add: book_ok_def)
  have "one_sided l'" unfolding one_sided_def
  proof (intro ballI conjI impI)
    fix v assume v: "v \<in> set (nl_positions l')"
    show "vp_side v \<in> set TRADE_TYPES"
    proof (cases "vp_symbol v = rd_symbol d")
      case False
      from old [OF v this] os show ?thesis unfolding one_sided_def by blast
    qed (use side [OF v] assms(5) in simp)
    fix w assume w: "w \<in> set (nl_positions l')" "vp_symbol v = vp_symbol w"
    show "vp_side v = vp_side w"
    proof (cases "vp_symbol v = rd_symbol d")
      case False
      with w(2) have "vp_symbol w \<noteq> rd_symbol d" by simp
      from old [OF v False] old [OF w(1) this] os w(2) show ?thesis unfolding one_sided_def by blast
    qed (use side [OF v] side [OF w(1)] w(2) in simp)
  qed
  with \<open>ledger_ok l'\<close> show ?thesis by (simp add: book_ok_def)
qed

text \<open>
  The specification: one signed net position per symbol, to which a deal adds its volume, and the
  entry the terminal names is the one that fits the net position at that moment.
\<close>

definition net_deal :: "report_deal \<Rightarrow> (string \<Rightarrow> int) \<Rightarrow> string \<Rightarrow> int" where
  "net_deal d n = n(rd_symbol d := n (rd_symbol d) + sign_of (rd_deal_type d) * rd_volume d)"

definition entry_fits :: "report_deal \<Rightarrow> int \<Rightarrow> bool" where
  "entry_fits d n \<longleftrightarrow>
     rd_entry d = ''IN'' \<and> 0 \<le> n * sign_of (rd_deal_type d) \<or>
     rd_entry d \<in> {''OUT'', ''OUT_BY''} \<and> n * sign_of (rd_deal_type d) < 0 \<and> rd_volume d \<le> \<bar>n\<bar> \<or>
     rd_entry d = ''INOUT'' \<and> n * sign_of (rd_deal_type d) < 0 \<and> \<bar>n\<bar> < rd_volume d"

definition real_deal :: "report_deal \<Rightarrow> net_ledger \<Rightarrow> bool" where
  "real_deal d l \<longleftrightarrow> rd_deal_type d \<in> set TRADE_TYPES \<and> 0 < rd_volume d \<and>
     rd_ticket d \<notin> vp_id ` set (nl_positions l) \<and> entry_fits d (net_of l (rd_symbol d))"

lemma sign_of_cases: "sign_of t = 1 \<or> sign_of t = - 1"
  by (simp add: sign_of_def)

lemma sign_inject: "t \<in> set TRADE_TYPES \<Longrightarrow> u \<in> set TRADE_TYPES \<Longrightarrow> sign_of t = sign_of u \<longleftrightarrow> t = u"
  by (auto simp: sign_of_def TRADE_TYPES_def)

text \<open>The three entries.\<close>

lemma in_deal:
  assumes "book_ok l" "real_deal d l" "0 \<le> net_of l (rd_symbol d) * sign_of (rd_deal_type d)"
    "ledger_open d (rd_volume d) sl tp l = (vp, l')"
  shows "book_ok l' \<and> net_of l' = net_deal d (net_of l)"
proof
  have "vp_side w = rd_deal_type d" if "w \<in> set (of_symbol (rd_symbol d) l)" for w
  proof -
    have "vp_side w \<in> set TRADE_TYPES" using assms(1) that by (auto simp: book_ok_def one_sided_def of_symbol_def)
    moreover have "sign_of (vp_side w) = sign_of (rd_deal_type d)"
      using net_side(1,2) [OF assms(1) that] assms(3) sign_of_cases [of "vp_side w"] sign_of_cases [of "rd_deal_type d"]
      by (auto simp: mult_le_0_iff zero_le_mult_iff)
    ultimately show ?thesis using assms(2) sign_inject by (auto simp: real_deal_def)
  qed
  then show "book_ok l'" using assms(1,2) by (intro open_book [OF assms(1,4)]) (auto simp: real_deal_def)
  show "net_of l' = net_deal d (net_of l)"
    using open_fields(2,3) [OF assms(4)]
    by (auto simp: fun_eq_iff net_deal_def net_of_weigh open_weigh [OF assms(4)] net_coeff_def)
qed

lemma net_consume:
  assumes "book_ok l" "net_of l sy * b < 0" "b = 1 \<or> b = - 1"
  shows "net_of (snd (consume sy c n l)) = (net_of l)(sy := net_of l sy + b * min (max n 0) (held sy l))"
    "held sy l = \<bar>net_of l sy\<bar>"
proof -
  have "of_symbol sy l \<noteq> []" using assms(2) by (auto simp: net_of_def)
  then obtain v where v: "v \<in> set (of_symbol sy l)" by (cases "of_symbol sy l") auto
  have b: "b = - sign_of (vp_side v)"
    using net_side(1,2) [OF assms(1) v] assms(2,3) sign_of_cases [of "vp_side v"] by (auto simp: mult_less_0_iff)
  show "held sy l = \<bar>net_of l sy\<bar>" using net_side(1,2) [OF assms(1) v] sign_of_cases [of "vp_side v"] by auto
  have ok: "ledger_ok l" using assms(1) by (simp add: book_ok_def)
  show "net_of (snd (consume sy c n l)) = (net_of l)(sy := net_of l sy + b * min (max n 0) (held sy l))"
  proof
    fix sy'
    let ?C = "if sy' = sy then sign_of (vp_side v) else 0"
    have "\<forall>w \<in> set (of_symbol sy l). net_coeff sy' w = ?C"
      using net_side(3) [OF assms(1) v] by (auto simp: net_coeff_def of_symbol_def)
    from consume_weigh [OF ok _ this] show "net_of (snd (consume sy c n l)) sy' =
        ((net_of l)(sy := net_of l sy + b * min (max n 0) (held sy l))) sy'"
      by (simp add: net_of_weigh b)
  qed
qed

lemma out_deal:
  assumes "book_ok l" "net_of l (rd_symbol d) * sign_of (rd_deal_type d) < 0" "rd_volume d \<le> \<bar>net_of l (rd_symbol d)\<bar>" "0 < rd_volume d"
  shows "net_of (snd (consume (rd_symbol d) c (rd_volume d) l)) = net_deal d (net_of l)"
  using net_consume [OF assms(1,2) sign_of_cases] assms(3,4) by (simp add: net_deal_def)

lemma inout_deal:
  assumes "book_ok l" "real_deal d l" "net_of l (rd_symbol d) * sign_of (rd_deal_type d) < 0" "\<bar>net_of l (rd_symbol d)\<bar> < rd_volume d"
    and "consume (rd_symbol d) c (held (rd_symbol d) l) l = (evs, l1)"
    and "ledger_open d (rd_volume d - held (rd_symbol d) l) sl tp l1 = (vp, l2)"
  shows "book_ok l2 \<and> net_of l2 = net_deal d (net_of l)"
proof
  note h = net_consume [OF assms(1,3) sign_of_cases]
  have l1: "book_ok l1" using consume_book [OF assms(1)] assms(5) by (metis snd_conv)
  have h0: "0 \<le> held (rd_symbol d) l" by (simp add: h(2))
  have "weigh (held_coeff (rd_symbol d)) l1 = 0"
    using consume_weigh [of l "held_coeff (rd_symbol d)" "rd_symbol d" 1 c "held (rd_symbol d) l"] assms(1,5) h0
    by (simp add: book_ok_def held_coeff_def of_symbol_def held_weigh [symmetric])
  then have empty: "of_symbol (rd_symbol d) l1 = []" using held_zero [OF l1] held_weigh by metis
  have "rd_ticket d \<notin> vp_id ` set (nl_positions l1)"
    using consume_ids [of l "rd_ticket d" "rd_symbol d" c "held (rd_symbol d) l"] assms(1,2,5) by (simp add: book_ok_def real_deal_def)
  then show "book_ok l2"
    using assms(2,4) h(2) empty by (intro open_book [OF l1 assms(6)]) (auto simp: real_deal_def)
  have "net_of l2 = (net_of l1)(rd_symbol d := net_of l1 (rd_symbol d) + sign_of (rd_deal_type d) * (rd_volume d - held (rd_symbol d) l))"
    using open_fields(2,3) [OF assms(6)] by (auto simp: fun_eq_iff net_of_weigh open_weigh [OF assms(6)] net_coeff_def)
  moreover have "net_of l1 = (net_of l)(rd_symbol d := net_of l (rd_symbol d) + sign_of (rd_deal_type d) * held (rd_symbol d) l)"
    using h(1) [of c "held (rd_symbol d) l"] assms(5) h0 by simp
  ultimately show "net_of l2 = net_deal d (net_of l)" by (simp add: net_deal_def fun_eq_iff algebra_simps)
qed

interpretation net: simulation book_ok net_of real_deal "\<lambda>d l. snd (apply_deal d (canon d) (sl d) (tp d) l)" net_deal
  for canon sl tp
proof -
  have "book_ok (snd (apply_deal d c sl tp l)) \<and> net_of (snd (apply_deal d c sl tp l)) = net_deal d (net_of l)"
    if l: "book_ok l" and d: "real_deal d l" for d c sl tp l
  proof -
    have guard: "rd_deal_type d \<in> set TRADE_TYPES" "0 < rd_volume d" using d by (auto simp: real_deal_def)
    consider "rd_entry d = ''IN''" "0 \<le> net_of l (rd_symbol d) * sign_of (rd_deal_type d)"
      | "rd_entry d = ''OUT'' \<or> rd_entry d = ''OUT_BY''" "net_of l (rd_symbol d) * sign_of (rd_deal_type d) < 0" "rd_volume d \<le> \<bar>net_of l (rd_symbol d)\<bar>"
      | "rd_entry d = ''INOUT''" "net_of l (rd_symbol d) * sign_of (rd_deal_type d) < 0" "\<bar>net_of l (rd_symbol d)\<bar> < rd_volume d"
      using d by (auto simp: real_deal_def entry_fits_def)
    then show ?thesis
    proof cases
      case 1
      with guard in_deal [OF l d 1(2)] show ?thesis
        by (cases "ledger_open d (rd_volume d) sl tp l") (auto simp: apply_deal_def)
    next
      case 2
      with guard out_deal [OF l 2(2,3) guard(2)] consume_book [OF l] show ?thesis by (auto simp: apply_deal_def)
    next
      case 3
      obtain evs l1 where c: "consume (rd_symbol d) c (held (rd_symbol d) l) l = (evs, l1)"
        by (cases "consume (rd_symbol d) c (held (rd_symbol d) l) l")
      obtain vp l2 where o: "ledger_open d (rd_volume d - held (rd_symbol d) l) sl tp l1 = (vp, l2)"
        by (cases "ledger_open d (rd_volume d - held (rd_symbol d) l) sl tp l1")
      have "held (rd_symbol d) l < rd_volume d" using net_consume(2) [OF l 3(2) sign_of_cases] 3(3) by simp
      then show ?thesis using inout_deal [OF l d 3(2,3) c o] guard 3(1) c o by (simp add: apply_deal_def)
    qed
  qed
  then show "simulation book_ok net_of real_deal (\<lambda>d l. snd (apply_deal d (canon d) (sl d) (tp d) l)) net_deal"
    by unfold_locales blast+
qed

text \<open>The deals of a netting terminal, each true to the net position it meets.\<close>

primrec real_deals :: "report_deal list \<Rightarrow> net_ledger \<Rightarrow> bool" where
  "real_deals [] l = True"
| "real_deals (d # ds) l = (real_deal d l \<and> real_deals ds (snd (apply_deal d (rd_symbol d) None None l)))"

definition ledger_deals :: "report_deal list \<Rightarrow> net_ledger \<Rightarrow> net_ledger" where
  "ledger_deals = fold (\<lambda>d l. snd (apply_deal d (rd_symbol d) None None l))"

lemma real_deals_admitted: "real_deals ds l \<Longrightarrow> net.admitted rd_symbol (\<lambda>_. None) (\<lambda>_. None) ds l"
  by (induction ds arbitrary: l) simp_all

text \<open>
  C6. The ledger refines the terminal's own book: whatever deals a netting terminal reports, additions,
  reductions and reversals, the signed sum of the virtual positions of each symbol is the terminal's
  net position in it, and all virtual positions of a symbol are on its side.
\<close>

theorem ledger_refines_net_position:
  assumes "book_ok l" "real_deals ds l"
  shows "net_of (ledger_deals ds l) = fold net_deal ds (net_of l) \<and> book_ok (ledger_deals ds l)"
  using net.run [OF assms(1) real_deals_admitted [OF assms(2)]] by (simp add: ledger_deals_def)

theorem ledger_refines_net_position_witness:
  "net_of (ledger_deals [witness_deal 11 ''BUY'' ''IN'' 30, witness_deal 12 ''BUY'' ''IN'' 20,
     witness_deal 13 ''SELL'' ''OUT'' 40, witness_deal 14 ''SELL'' ''INOUT'' 25] (ledger_init [])) ''XAUUSD'' = - 15"
proof -
  let ?ds = "[witness_deal 11 ''BUY'' ''IN'' 30, witness_deal 12 ''BUY'' ''IN'' 20,
     witness_deal 13 ''SELL'' ''OUT'' 40, witness_deal 14 ''SELL'' ''INOUT'' 25]"
  have "book_ok (ledger_init [])" by (simp add: book_ok_def ledger_ok_def one_sided_def ledger_init_def)
  moreover have "real_deals ?ds (ledger_init [])" by code_simp
  ultimately have "net_of (ledger_deals ?ds (ledger_init [])) = fold net_deal ?ds (net_of (ledger_init []))"
    using ledger_refines_net_position by blast
  then show ?thesis by (simp add: net_deal_def witness_deal_def sign_of_def net_of_def of_symbol_def ledger_init_def)
qed

end
