(* ===== verification/Mt5_Ingress.thy ===== *)
theory Mt5_Ingress
  imports Net_Ledger_Laws Reconcile Decision
begin

text \<open>
  An MT5 master's report turned into master events (\<^verbatim>\<open>copier/mt5/ingress.py\<close>,
  \<^verbatim>\<open>master_events_from_report\<close>): deals say what was traded, and the difference between this
  report's book and the previous one says what was amended, placed, replaced or cancelled. The
  function updates the ledger of a netting master as it goes, so it returns the events and the ledger.
\<close>

section \<open>From a report to events\<close>

type_synonym book = "position_snapshot list \<times> order_snapshot list"

text \<open>A loop that appends events and carries a state.\<close>

fun collect :: "('a \<Rightarrow> 's \<Rightarrow> 'e list \<times> 's) \<Rightarrow> 'a list \<Rightarrow> 's \<Rightarrow> 'e list \<times> 's" where
  "collect f [] s = ([], s)"
| "collect f (x # xs) s = (let (es, s') = f x s; (es', s'') = collect f xs s' in (es @ es', s''))"

definition side_of_order :: "string \<Rightarrow> side" where
  "side_of_order order_type = (if startswith order_type ''BUY'' then BUY else SELL)"

definition pending_type_of :: "string \<Rightarrow> pending_type" where
  "pending_type_of order_type = (if endswith order_type ''LIMIT'' then LIMIT else STOP)"

definition canonical :: "(string, string) dict \<Rightarrow> string \<Rightarrow> string" where
  "canonical aliases_reverse broker_name =
     (case map_of aliases_reverse broker_name of Some c \<Rightarrow> c | None \<Rightarrow> broker_name)"

definition lot_size_of :: "(string, symbol_info) dict \<Rightarrow> string \<Rightarrow> int" where
  "lot_size_of symbols broker_name =
     (case map_of symbols broker_name of Some info \<Rightarrow> si_lot_size info | None \<Rightarrow> CENTILOTS)"

definition deal_order :: "report_deal \<Rightarrow> millis \<times> ident" where
  "deal_order d = (rd_time_ms d, rd_ticket d)"

definition filled_orders :: "report_deal list \<Rightarrow> ident list" where
  "filled_orders deals = map rd_order (filter (\<lambda>d. rd_order d \<noteq> 0 \<and> rd_entry d = ''IN'') deals)"

definition deal_events ::
  "(ident, report_position) dict \<Rightarrow> (ident, order_snapshot) dict \<Rightarrow> (string, string) dict \<Rightarrow>
   (string, symbol_info) dict \<Rightarrow> report_deal \<Rightarrow> net_ledger option \<Rightarrow> master_event list \<times> net_ledger option" where
  "deal_events cur_positions prev_orders aliases symbols d ledger =
     (if rd_deal_type d \<notin> set TRADE_TYPES then ([], ledger)
      else let pos = map_of cur_positions (rd_position d);
               sl = Option.bind pos rp_stop_loss;
               tp = Option.bind pos rp_take_profit;
               known = (map_of prev_orders (rd_order d) \<noteq> None)
           in case ledger of
                Some l \<Rightarrow>
                  let (produced, l') = apply_deal d (canonical aliases (rd_symbol d)) sl tp l
                  in (if rd_entry d = ''IN'' \<and> known
                      then [MasterPendingFilled (rd_order d) (rd_ticket d)] else produced, Some l')
              | None \<Rightarrow>
                  (if rd_entry d = ''IN''
                   then if known then [MasterPendingFilled (rd_order d) (rd_position d)]
                        else [MasterPositionOpened (rd_position d) (canonical aliases (rd_symbol d))
                                (side_named (rd_deal_type d)) (rd_volume d)
                                (lot_size_of symbols (rd_symbol d)) sl tp (Some (rd_price d))]
                   else if rd_entry d \<in> set CLOSE_ENTRIES
                   then [MasterPositionClosed (rd_position d) (canonical aliases (rd_symbol d)) (rd_volume d)
                           (case pos of Some p \<Rightarrow> rp_volume p | None \<Rightarrow> 0)]
                   else [], None))"

definition position_events ::
  "(ident, position_snapshot) dict \<Rightarrow> ident \<times> report_position \<Rightarrow> net_ledger option \<Rightarrow>
   master_event list \<times> net_ledger option" where
  "position_events prev_positions tp ledger =
     (case map_of prev_positions (fst tp) of
        None \<Rightarrow> ([], ledger)
      | Some prev \<Rightarrow>
          let pos = snd tp in
          if (ps_stop_loss prev, ps_take_profit prev) = (rp_stop_loss pos, rp_take_profit pos) then ([], ledger)
          else case ledger of
                 Some l \<Rightarrow>
                   let (evs, l') = apply_protection (rp_symbol pos) (rp_stop_loss pos) (rp_take_profit pos) l
                   in (evs, Some l')
               | None \<Rightarrow> ([MasterPositionSLTPAmended (fst tp) (rp_stop_loss pos) (rp_take_profit pos)], None))"

text \<open>A change of an order that stays: its volume, price, stop or target.\<close>

definition order_changed :: "order_snapshot \<Rightarrow> report_order \<Rightarrow> bool" where
  "order_changed prev w \<longleftrightarrow>
     (os_volume prev, os_price prev, os_stop_loss prev, os_take_profit prev)
       \<noteq> (ro_volume w, Some (ro_price w), ro_stop_loss w, ro_take_profit w)"

definition order_events ::
  "(ident, order_snapshot) dict \<Rightarrow> (string, string) dict \<Rightarrow> (string, symbol_info) dict \<Rightarrow>
   ident \<times> report_order \<Rightarrow> master_event list" where
  "order_events prev_orders aliases symbols tw =
     (let w = snd tw in
      case map_of prev_orders (fst tw) of
        None \<Rightarrow> [MasterPendingPlaced (fst tw) (canonical aliases (ro_symbol w)) (side_of_order (ro_order_type w))
                  (pending_type_of (ro_order_type w)) (ro_volume w) (lot_size_of symbols (ro_symbol w))
                  (ro_price w) (ro_stop_loss w) (ro_take_profit w) None]
      | Some prev \<Rightarrow>
          if order_changed prev w
          then [MasterPendingReplaced (fst tw) (canonical aliases (ro_symbol w)) (lot_size_of symbols (ro_symbol w))
                  (pending_type_of (ro_order_type w)) (ro_volume w) (ro_price w) (ro_stop_loss w)
                  (ro_take_profit w)]
          else [])"

definition master_events_from_report ::
  "sync_report \<Rightarrow> book option \<Rightarrow> (string, string) dict \<Rightarrow> (string, symbol_info) dict \<Rightarrow>
   net_ledger option \<Rightarrow> master_event list \<times> net_ledger option" where
  "master_events_from_report report previous aliases_reverse symbols ledger =
     (let prev_positions = (case previous of None \<Rightarrow> []
            | Some (ps, _) \<Rightarrow> dict_of (map (\<lambda>p. (ps_position_id p, p)) ps));
          prev_orders = (case previous of None \<Rightarrow> []
            | Some (_, ws) \<Rightarrow> dict_of (map (\<lambda>w. (os_order_id w, w)) ws));
          cur_positions = dict_of (map (\<lambda>p. (rp_ticket p, p)) (sr_positions report));
          cur_orders = dict_of (map (\<lambda>w. (ro_ticket w, w)) (sr_orders report));
          filled = filled_orders (sr_deals report);
          (traded, ledger1) = collect (deal_events cur_positions prev_orders aliases_reverse symbols)
                                (sort_key deal_order (sr_deals report)) ledger
      in if previous = None then (traded, ledger1)
         else let (amended, ledger2) = collect (position_events prev_positions) cur_positions ledger1;
                  changed = concat (map (order_events prev_orders aliases_reverse symbols) cur_orders);
                  cancelled = map MasterPendingCancelled
                    (filter (\<lambda>i. i \<notin> fst ` set cur_orders \<and> i \<notin> set filled) (map fst prev_orders))
              in (traded @ amended @ changed @ cancelled, ledger2))"

section \<open>The life of a pending order\<close>

fun filled_id :: "master_event \<Rightarrow> ident option" where
  "filled_id (MasterPendingFilled i _) = Some i"
| "filled_id _ = None"

fun cancelled_id :: "master_event \<Rightarrow> ident option" where
  "cancelled_id (MasterPendingCancelled i) = Some i"
| "cancelled_id _ = None"

fun placed_id :: "master_event \<Rightarrow> ident option" where
  "placed_id (MasterPendingPlaced i _ _ _ _ _ _ _ _ _) = Some i"
| "placed_id _ = None"

fun replaced_id :: "master_event \<Rightarrow> ident option" where
  "replaced_id (MasterPendingReplaced i _ _ _ _ _ _ _) = Some i"
| "replaced_id _ = None"

fun of_position :: "master_event \<Rightarrow> bool" where
  "of_position (MasterPositionOpened _ _ _ _ _ _ _ _) = True"
| "of_position (MasterPositionClosed _ _ _ _) = True"
| "of_position (MasterPositionSLTPAmended _ _ _) = True"
| "of_position _ = False"

lemmas order_ids = filled_id.simps cancelled_id.simps placed_id.simps replaced_id.simps

lemma of_position_ids:
  "of_position e \<Longrightarrow> filled_id e = None \<and> cancelled_id e = None \<and> placed_id e = None \<and> replaced_id e = None"
  by (cases e) simp_all

lemma map_filter_append: "List.map_filter h (xs @ ys) = List.map_filter h xs @ List.map_filter h ys"
  by (simp add: map_filter_def)

lemma map_filter_none: "(\<And>x. x \<in> set xs \<Longrightarrow> h x = None) \<Longrightarrow> List.map_filter h xs = []"
  by (induction xs) (auto simp: map_filter_simps)

lemma map_filter_concat: "List.map_filter h (concat xss) = concat (map (List.map_filter h) xss)"
  by (induction xss) (simp_all add: map_filter_append map_filter_simps)

text \<open>What a loop reports of one kind, when each turn reports it whatever the state is.\<close>

lemma collect_map_filter:
  assumes "\<And>x s. x \<in> set xs \<Longrightarrow> List.map_filter h (fst (f x s)) = g x"
  shows "List.map_filter h (fst (collect f xs s)) = concat (map g xs)"
  using assms
proof (induction xs arbitrary: s)
  case (Cons x xs)
  have "List.map_filter h (fst (f x s)) = g x" using Cons.prems [of x s] by simp
  moreover have "List.map_filter h (fst (collect f xs (snd (f x s)))) = concat (map g xs)"
    using Cons.prems by (intro Cons.IH) simp
  ultimately show ?case by (simp add: case_prod_beta Let_def map_filter_append)
qed (simp add: map_filter_simps)

lemma collect_all:
  assumes "\<And>x s e. x \<in> set xs \<Longrightarrow> e \<in> set (fst (f x s)) \<Longrightarrow> P e"
  shows "\<forall>e \<in> set (fst (collect f xs s)). P e"
  using assms by (induction xs arbitrary: s) (fastforce simp: case_prod_beta Let_def)+

lemma consume_of_position: "\<forall>e \<in> set (fst (consume_loop c n vs l)). of_position e"
  by (induction c n vs l rule: consume_loop.induct) (auto simp: Let_def case_prod_beta)

lemma protect_of_position: "\<forall>e \<in> set (fst (protect_loop sl tp vs l)). of_position e"
  by (induction sl tp vs l rule: protect_loop.induct) (auto simp: Let_def case_prod_beta)

lemma apply_deal_of_position: "\<forall>e \<in> set (fst (apply_deal d c sl tp l)). of_position e"
  using consume_of_position
  by (auto simp: apply_deal_def ledger_open_def consume_def opened_event_def Let_def case_prod_beta)

lemma apply_protection_of_position: "\<forall>e \<in> set (fst (apply_protection sy sl tp l)). of_position e"
  unfolding apply_protection_def by (rule protect_of_position)

lemma position_events_of_position: "\<forall>e \<in> set (fst (position_events prev x l)). of_position e"
  using apply_protection_of_position
  by (cases l; cases "map_of prev (fst x)") (auto simp: position_events_def Let_def case_prod_beta)

text \<open>A deal that fills a pending order the previous report showed.\<close>

definition fills_known :: "(ident, order_snapshot) dict \<Rightarrow> report_deal \<Rightarrow> bool" where
  "fills_known prev_orders d \<longleftrightarrow> rd_deal_type d \<in> set TRADE_TYPES \<and> rd_entry d = ''IN'' \<and>
     map_of prev_orders (rd_order d) \<noteq> None"

lemma deal_events_cases:
  "(fills_known prev d \<and> (\<exists>p. fst (deal_events cur prev al sy d l) = [MasterPendingFilled (rd_order d) p])) \<or>
   (\<not> fills_known prev d \<and> (\<forall>e \<in> set (fst (deal_events cur prev al sy d l)). of_position e))"
  using apply_deal_of_position
  by (cases l) (auto simp: deal_events_def fills_known_def Let_def case_prod_beta)

lemma deal_events_filled:
  "List.map_filter filled_id (fst (deal_events cur prev al sy d l)) = (if fills_known prev d then [rd_order d] else [])"
  using deal_events_cases [of prev d cur al sy l]
  by (auto simp: map_filter_simps of_position_ids intro!: map_filter_none)

lemma deal_events_others:
  "List.map_filter cancelled_id (fst (deal_events cur prev al sy d l)) = []"
  "List.map_filter placed_id (fst (deal_events cur prev al sy d l)) = []"
  "List.map_filter replaced_id (fst (deal_events cur prev al sy d l)) = []"
  using deal_events_cases [of prev d cur al sy l]
  by (auto simp: map_filter_simps of_position_ids intro!: map_filter_none)

lemma first_report_of_position: "\<forall>e \<in> set (fst (collect (deal_events cur [] al sy) ds l)). of_position e"
proof (rule collect_all)
  fix d s e assume e: "e \<in> set (fst (deal_events cur [] al sy d s))"
  have "\<not> fills_known [] d" by (simp add: fills_known_def)
  with deal_events_cases [of "[]" d cur al sy s] have "\<forall>e \<in> set (fst (deal_events cur [] al sy d s)). of_position e"
    by simp
  with e show "of_position e" by (rule bspec [rotated])
qed

lemma order_events_ids:
  "List.map_filter filled_id (order_events prev al sy tw) = []"
  "List.map_filter cancelled_id (order_events prev al sy tw) = []"
  "List.map_filter placed_id (order_events prev al sy tw) = (if map_of prev (fst tw) = None then [fst tw] else [])"
  "List.map_filter replaced_id (order_events prev al sy tw) =
     (case map_of prev (fst tw) of Some p \<Rightarrow> if order_changed p (snd tw) then [fst tw] else [] | None \<Rightarrow> [])"
  by (simp_all add: order_events_def Let_def map_filter_simps split: option.split)

lemma concat_if: "concat (map (\<lambda>x. if P x then [f x] else []) xs) = map f (filter P xs)"
  by (induction xs) simp_all

lemma collect_nothing:
  assumes "\<And>x s. x \<in> set xs \<Longrightarrow> List.map_filter h (fst (f x s)) = []"
  shows "List.map_filter h (fst (collect f xs s)) = []"
proof -
  have "List.map_filter h (fst (collect f xs s)) = concat (map (\<lambda>_. []) xs)"
    by (rule collect_map_filter) (rule assms)
  then show ?thesis by simp
qed

lemma traded_ids:
  "List.map_filter filled_id (fst (collect (deal_events cur prev al sy) ds l)) = map rd_order (filter (fills_known prev) ds)"
  "List.map_filter cancelled_id (fst (collect (deal_events cur prev al sy) ds l)) = []"
  "List.map_filter placed_id (fst (collect (deal_events cur prev al sy) ds l)) = []"
  "List.map_filter replaced_id (fst (collect (deal_events cur prev al sy) ds l)) = []"
proof -
  note others = collect_nothing [where xs = ds and s = l]
  have "List.map_filter filled_id (fst (collect (deal_events cur prev al sy) ds l)) =
      concat (map (\<lambda>d. if fills_known prev d then [rd_order d] else []) ds)"
    by (rule collect_map_filter) (rule deal_events_filled)
  then show "List.map_filter filled_id (fst (collect (deal_events cur prev al sy) ds l)) =
      map rd_order (filter (fills_known prev) ds)" unfolding concat_if .
  show "List.map_filter cancelled_id (fst (collect (deal_events cur prev al sy) ds l)) = []"
    by (rule others) (rule deal_events_others)
  show "List.map_filter placed_id (fst (collect (deal_events cur prev al sy) ds l)) = []"
    by (rule others) (rule deal_events_others)
  show "List.map_filter replaced_id (fst (collect (deal_events cur prev al sy) ds l)) = []"
    by (rule others) (rule deal_events_others)
qed

lemma amended_ids:
  assumes "h = filled_id \<or> h = cancelled_id \<or> h = placed_id \<or> h = replaced_id"
  shows "List.map_filter h (fst (collect (position_events prev) xs l)) = []"
proof (rule collect_nothing)
  fix x s
  show "List.map_filter h (fst (position_events prev x s)) = []"
  proof (rule map_filter_none)
    fix e assume "e \<in> set (fst (position_events prev x s))"
    with position_events_of_position have "of_position e" by (rule bspec)
    from of_position_ids [OF this] show "h e = None" using assms by auto
  qed
qed

definition orders_by_id :: "order_snapshot list \<Rightarrow> (ident, order_snapshot) dict" where
  "orders_by_id ws = dict_of (map (\<lambda>w. (os_order_id w, w)) ws)"

definition orders_by_ticket :: "report_order list \<Rightarrow> (ident, report_order) dict" where
  "orders_by_ticket ws = dict_of (map (\<lambda>w. (ro_ticket w, w)) ws)"

lemma lifecycle_lists:
  fixes report ps ws
  defines "prev \<equiv> orders_by_id ws" and "cur \<equiv> orders_by_ticket (sr_orders report)"
  assumes "evs = fst (master_events_from_report report (Some (ps, ws)) al sy l)"
  shows "List.map_filter filled_id evs = map rd_order (filter (fills_known prev) (sort_key deal_order (sr_deals report)))"
    and "List.map_filter cancelled_id evs =
      filter (\<lambda>i. i \<notin> fst ` set cur \<and> i \<notin> set (filled_orders (sr_deals report))) (map fst prev)"
    and "List.map_filter placed_id evs = map fst (filter (\<lambda>tw. map_of prev (fst tw) = None) cur)"
    and "List.map_filter replaced_id evs =
      map fst (filter (\<lambda>tw. case map_of prev (fst tw) of Some p \<Rightarrow> order_changed p (snd tw) | None \<Rightarrow> False) cur)"
proof -
  have pick: "(case m of Some p \<Rightarrow> if Q p then [i] else [] | None \<Rightarrow> []) =
      (if case m of Some p \<Rightarrow> Q p | None \<Rightarrow> False then [i] else [])" for m :: "order_snapshot option" and Q and i :: ident
    by (simp split: option.split)
  have canc: "List.map_filter cancelled_id (map MasterPendingCancelled is) = is"
      "List.map_filter filled_id (map MasterPendingCancelled is) = []"
      "List.map_filter placed_id (map MasterPendingCancelled is) = []"
      "List.map_filter replaced_id (map MasterPendingCancelled is) = []" for "is"
    by (induction "is") (simp_all add: map_filter_simps)
  note defs = assms(3) master_events_from_report_def Let_def case_prod_beta map_filter_append map_filter_concat
    traded_ids amended_ids canc order_events_ids
  show "List.map_filter filled_id evs = map rd_order (filter (fills_known prev) (sort_key deal_order (sr_deals report)))"
    by (simp add: defs prev_def orders_by_id_def comp_def)
  show "List.map_filter cancelled_id evs =
      filter (\<lambda>i. i \<notin> fst ` set cur \<and> i \<notin> set (filled_orders (sr_deals report))) (map fst prev)"
    by (simp add: defs prev_def orders_by_id_def cur_def orders_by_ticket_def comp_def)
  show "List.map_filter placed_id evs = map fst (filter (\<lambda>tw. map_of prev (fst tw) = None) cur)"
    by (simp add: defs prev_def orders_by_id_def cur_def orders_by_ticket_def comp_def concat_if)
  show "List.map_filter replaced_id evs =
      map fst (filter (\<lambda>tw. case map_of prev (fst tw) of Some p \<Rightarrow> order_changed p (snd tw) | None \<Rightarrow> False) cur)"
    by (simp add: defs prev_def orders_by_id_def cur_def orders_by_ticket_def comp_def concat_if pick)
qed


text \<open>A master that held the orders 7, 8 and 10, filled 7, dropped 8, moved 10 and placed 9.\<close>

definition witness_order :: "ident \<Rightarrow> rat \<Rightarrow> report_order" where
  "witness_order i px = \<lparr>ro_ticket = i, ro_symbol = ''XAUUSD'', ro_order_type = ''BUY_LIMIT'', ro_volume = 10,
     ro_price = px, ro_stop_loss = None, ro_take_profit = None, ro_comment = '''', ro_magic = 0\<rparr>"

definition witness_known :: "ident \<Rightarrow> rat \<Rightarrow> order_snapshot" where
  "witness_known i px = \<lparr>os_order_id = i, os_symbol_id = 1, os_volume = 10, os_label = '''', os_side = Some BUY,
     os_order_type = Some ''LIMIT'', os_price = Some px, os_stop_loss = None, os_take_profit = None\<rparr>"

definition witness_report :: sync_report where
  "witness_report = \<lparr>sr_seq = 1, sr_ts_ms = 0, sr_balance = 0, sr_equity = 0, sr_margin = 0, sr_margin_free = 0,
     sr_positions = [], sr_orders = [witness_order 10 1900, witness_order 9 1800],
     sr_deals = [(witness_deal 50 ''BUY'' ''IN'' 10)\<lparr>rd_order := 7\<rparr>], sr_acks = []\<rparr>"


section \<open>Closes of one position in one report\<close>

definition closed_of :: "ident \<Rightarrow> master_event \<Rightarrow> (int \<times> int) option" where
  "closed_of p e = (case e of MasterPositionClosed i _ k r \<Rightarrow> if i = p then Some (k, r) else None | _ \<Rightarrow> None)"

definition closes_position :: "ident \<Rightarrow> report_deal \<Rightarrow> bool" where
  "closes_position p d \<longleftrightarrow>
     rd_deal_type d \<in> set TRADE_TYPES \<and> rd_entry d \<in> set CLOSE_ENTRIES \<and> rd_position d = p"

definition reported_volume :: "ident \<Rightarrow> sync_report \<Rightarrow> int" where
  "reported_volume p report =
     (case map_of (dict_of (map (\<lambda>q. (rp_ticket q, q)) (sr_positions report))) p of Some q \<Rightarrow> rp_volume q | None \<Rightarrow> 0)"

lemma collect_hedging: "snd (collect (deal_events cur prev al sy) ds None) = None"
proof -
  have "snd (deal_events cur prev al sy d None) = None" for d by (simp add: deal_events_def Let_def)
  then show ?thesis by (induction ds) (simp_all add: case_prod_beta Let_def)
qed

lemma amended_closed: "List.map_filter (closed_of p) (fst (collect (position_events prev) xs None)) = []"
proof -
  have one: "List.map_filter (closed_of p) (fst (position_events prev x None)) = [] \<and> snd (position_events prev x None) = None" for x
    by (simp add: position_events_def Let_def map_filter_simps closed_of_def split: option.split)
  show ?thesis by (induction xs) (simp_all add: one map_filter_append map_filter_simps case_prod_beta Let_def)
qed

lemma traded_closed:
  "List.map_filter (closed_of p) (fst (collect (deal_events cur prev al sy) ds None)) =
     map (\<lambda>d. (rd_volume d, case map_of cur p of Some q \<Rightarrow> rp_volume q | None \<Rightarrow> 0)) (filter (closes_position p) ds)"
proof -
  have one: "List.map_filter (closed_of p) (fst (deal_events cur prev al sy d None)) =
      (if closes_position p d then [(rd_volume d, case map_of cur p of Some q \<Rightarrow> rp_volume q | None \<Rightarrow> 0)] else [])" for d
    by (simp add: deal_events_def Let_def map_filter_simps closed_of_def closes_position_def CLOSE_ENTRIES_def)
  have "snd (deal_events cur prev al sy d None) = None" for d by (simp add: deal_events_def Let_def)
  with one show ?thesis by (induction ds) (simp_all add: map_filter_append map_filter_simps case_prod_beta Let_def)
qed

lemma orders_closed: "List.map_filter (closed_of p) (order_events prev al sy tw) = []"
  by (simp add: order_events_def Let_def map_filter_simps closed_of_def split: option.split)

lemma report_closed:
  "List.map_filter (closed_of p) (fst (master_events_from_report report previous al sy None)) =
     map (\<lambda>d. (rd_volume d, reported_volume p report)) (filter (closes_position p) (sort_key deal_order (sr_deals report)))"
proof -
  have canc: "List.map_filter (closed_of p) (map MasterPendingCancelled is) = []" for "is"
    by (induction "is") (simp_all add: map_filter_simps closed_of_def)
  have ords: "concat (map (\<lambda>x. List.map_filter (closed_of p) (order_events prev al sy x)) xs) = []" for prev xs
    by (induction xs) (simp_all add: orders_closed)
  show ?thesis
    by (simp add: master_events_from_report_def Let_def case_prod_beta map_filter_append map_filter_concat comp_def
        traded_closed collect_hedging amended_closed canc ords reported_volume_def)
qed

text \<open>
  C39. What a close event says of a hedging master's position: each closing deal of the report becomes
  one event, in time order, with the deal's volume, but every one of them gives as remaining what the
  report shows at its end. So the share the followers close is right for the last close of a position
  in a report, and for an earlier one exactly when nothing was closed after it: two partial closes
  between two polls make the followers close too much.
\<close>

theorem close_share_within_report:
  assumes "filter (closes_position p) (sort_key deal_order (sr_deals report)) = ds @ d # later"
    and "r = reported_volume p report" "held_before = r + sum_list (map rd_volume later) + rd_volume d"
  shows "\<exists>es es'. List.map_filter (closed_of p) (fst (master_events_from_report report previous al sy None)) =
      es @ (rd_volume d, r) # es' \<and> length es = length ds \<and>
      (rd_volume d + r = held_before \<longleftrightarrow> sum_list (map rd_volume later) = 0)"
proof (intro exI conjI)
  show "List.map_filter (closed_of p) (fst (master_events_from_report report previous al sy None)) =
      map (\<lambda>x. (rd_volume x, r)) ds @ (rd_volume d, r) # map (\<lambda>x. (rd_volume x, r)) later"
    unfolding report_closed assms(1,2) by simp
  show "length (map (\<lambda>x. (rd_volume x, r)) ds) = length ds" by simp
  show "rd_volume d + r = held_before \<longleftrightarrow> sum_list (map rd_volume later) = 0" using assms(3) by auto
qed

text \<open>
  A master that held 100, closed 50 and then 25 between two polls: its copy of 100 is told to close
  66 and 50, while the master still holds a quarter.
\<close>

definition two_closes :: sync_report where
  "two_closes = witness_report\<lparr>sr_orders := [],
     sr_positions := [\<lparr>rp_ticket = 5, rp_symbol = ''XAUUSD'', rp_side = ''BUY'', rp_volume = 25, rp_open_price = 1900,
       rp_stop_loss = None, rp_take_profit = None, rp_current_price = None, rp_pnl = 0, rp_swap = 0,
       rp_comment = '''', rp_magic = 0, rp_opened_at_ms = 0\<rparr>],
     sr_deals := [(witness_deal 51 ''SELL'' ''OUT'' 50)\<lparr>rd_position := 5\<rparr>,
       (witness_deal 52 ''SELL'' ''OUT'' 25)\<lparr>rd_position := 5\<rparr>]\<rparr>"

theorem close_share_within_report_witness:
  "(\<exists>es es'. List.map_filter (closed_of 5) (fst (master_events_from_report two_closes None [] [] None)) =
     es @ (50, 25) # es' \<and> length es = 0) \<and>
   partial_close_volume 100 50 25 1 = Inr 66 \<and> partial_close_volume 100 25 25 1 = Inr 50"
proof -
  let ?d = "\<lambda>t k. (witness_deal t ''SELL'' ''OUT'' k)\<lparr>rd_position := 5\<rparr>"
  have closes: "filter (closes_position 5) (sort_key deal_order (sr_deals two_closes)) = [] @ ?d 51 50 # [?d 52 25]"
    by (simp add: two_closes_def witness_deal_def closes_position_def TRADE_TYPES_def CLOSE_ENTRIES_def deal_order_def)
  have left: "25 = reported_volume 5 two_closes" by (simp add: two_closes_def reported_volume_def dict_of_def)
  have vol: "rd_volume (?d 51 50) = 50" by (simp add: witness_deal_def)
  note share = close_share_within_report [OF closes left refl, where al = "[]" and sy = "[]" and previous = None, unfolded vol]
  have "\<exists>es es'. List.map_filter (closed_of 5) (fst (master_events_from_report two_closes None [] [] None)) =
      es @ (50, 25) # es' \<and> length es = 0" using share by (elim exE conjE) (intro exI conjI, assumption, simp)
  moreover have "partial_close_volume 100 50 25 1 = Inr 66"
    using partial_exact_div [of 100 50 25] by (simp add: partial_close_volume_def floor_to_step_def)
  moreover have "partial_close_volume 100 25 25 1 = Inr 50"
    using partial_exact_div [of 100 25 25] by (simp add: partial_close_volume_def floor_to_step_def)
  ultimately show ?thesis by (intro conjI)
qed

end
