(* ===== verification/Mt5_Deals.thy ===== *)
theory Mt5_Deals
  imports Mt5_Ingress
begin

text \<open>
  The deals a terminal reports, on their way into the database: the row builder and the balance
  estimate of \<^verbatim>\<open>copier/mt5/deals.py\<close>, the three tables it writes through
  \<^verbatim>\<open>copier/db/repo.py\<close> (deals, the deal watermark, the backfill window), and
  \<^verbatim>\<open>_ingest_mt5_deals\<close> of \<^verbatim>\<open>copier/main.py\<close>, which lets every deal through
  once. The two display strings of a row (\<^verbatim>\<open>volume_lots\<close>, \<^verbatim>\<open>closed_volume_lots\<close>)
  are never stored and are left out.
\<close>

section \<open>Rows\<close>

definition sort_deals :: "report_deal list \<Rightarrow> report_deal list" where
  "sort_deals deals = sort_key deal_order deals"

text \<open>The walk back from the current balance; the argument is in reverse time order.\<close>

fun balance_walk :: "rat \<Rightarrow> report_deal list \<Rightarrow> (ident, rat) dict \<Rightarrow> (ident, rat) dict" where
  "balance_walk running [] out = out"
| "balance_walk running (d # ds) out =
     balance_walk (fl (running - fl (fl (rd_profit d + rd_swap d) + rd_commission d))) ds
       (AList.update (rd_ticket d) (py_round2 running) out)"

definition balance_after_estimates :: "report_deal list \<Rightarrow> rat \<Rightarrow> (ident, rat) dict" where
  "balance_after_estimates deals current_balance = balance_walk current_balance (rev (sort_deals deals)) []"

record deal_close =
  dc_entry_price :: "price option"
  dc_gross_profit :: rat
  dc_swap :: rat
  dc_commission :: rat
  dc_balance :: rat
  dc_closed_volume :: int

record deal_dict =
  dd_deal_id :: ident
  dd_order_id :: "ident option"
  dd_position_id :: "ident option"
  dd_symbol_id :: "ident option"
  dd_symbol :: "string option"
  dd_side :: string
  dd_volume :: int
  dd_filled_volume :: int
  dd_execution_price :: "price option"
  dd_status :: string
  dd_commission :: "rat option"
  dd_create_timestamp :: millis
  dd_execution_timestamp :: millis
  dd_label :: "string option"
  dd_close :: "deal_close option"
  dd_balance_after :: rat
  dd_gross_profit :: "rat option"

definition nonzero :: "ident \<Rightarrow> ident option" where
  "nonzero i = (if i = 0 then None else Some i)"

definition nonempty :: "string \<Rightarrow> string option" where
  "nonempty s = (if s = [] then None else Some s)"

text \<open>Every ticket of the batch has an estimate, so the lookup never fails; \<open>0\<close> is never used.\<close>

definition estimate_of :: "(ident, rat) dict \<Rightarrow> ident \<Rightarrow> rat" where
  "estimate_of estimates t = (case map_of estimates t of Some b \<Rightarrow> b | None \<Rightarrow> 0)"

definition deal_dict_of ::
  "(ident, rat) dict \<Rightarrow> (string, symbol_info) dict \<Rightarrow> (ident \<Rightarrow> price option) \<Rightarrow> report_deal \<Rightarrow> deal_dict" where
  "deal_dict_of estimates symbols entry_price_for d =
     (let is_trade = (rd_deal_type d \<in> set TRADE_TYPES);
          close = (if is_trade \<and> rd_entry d \<in> set CLOSE_ENTRIES
                   then Some \<lparr>dc_entry_price = entry_price_for (rd_position d), dc_gross_profit = rd_profit d,
                              dc_swap = rd_swap d, dc_commission = rd_commission d,
                              dc_balance = estimate_of estimates (rd_ticket d), dc_closed_volume = rd_volume d\<rparr>
                   else None)
      in \<lparr>dd_deal_id = rd_ticket d, dd_order_id = nonzero (rd_order d), dd_position_id = nonzero (rd_position d),
          dd_symbol_id = map_option si_symbol_id (map_of symbols (rd_symbol d)), dd_symbol = nonempty (rd_symbol d),
          dd_side = rd_deal_type d, dd_volume = rd_volume d, dd_filled_volume = rd_volume d,
          dd_execution_price = (if is_trade then Some (rd_price d) else None), dd_status = ''FILLED'',
          dd_commission = (if is_trade then Some (rd_commission d) else None),
          dd_create_timestamp = rd_time_ms d, dd_execution_timestamp = rd_time_ms d,
          dd_label = nonempty (rd_comment d), dd_close = close,
          dd_balance_after = estimate_of estimates (rd_ticket d),
          dd_gross_profit = (if is_trade then None else Some (rd_profit d))\<rparr>)"

definition deal_rows ::
  "report_deal list \<Rightarrow> rat \<Rightarrow> (string, symbol_info) dict \<Rightarrow> (ident \<Rightarrow> price option) \<Rightarrow> deal_dict list" where
  "deal_rows deals current_balance symbols entry_price_for =
     map (deal_dict_of (balance_after_estimates deals current_balance) symbols entry_price_for) (sort_deals deals)"

section \<open>The tables\<close>

record deal_row =
  dr_account_id :: ident
  dr_deal_id :: ident
  dr_org_id :: "ident option"
  dr_order_id :: "ident option"
  dr_position_id :: "ident option"
  dr_symbol_id :: "ident option"
  dr_symbol :: "string option"
  dr_side :: string
  dr_volume :: int
  dr_filled_volume :: int
  dr_execution_price :: "price option"
  dr_status :: string
  dr_commission :: "rat option"
  dr_create_timestamp :: millis
  dr_execution_timestamp :: millis
  dr_label :: "string option"
  dr_is_close :: bool
  dr_entry_price :: "price option"
  dr_gross_profit :: "rat option"
  dr_swap :: "rat option"
  dr_balance_after :: "rat option"
  dr_closed_volume :: "int option"

definition deal_row_of :: "ident \<Rightarrow> ident option \<Rightarrow> deal_dict \<Rightarrow> deal_row" where
  "deal_row_of account_id org_id d = \<lparr>dr_account_id = account_id, dr_deal_id = dd_deal_id d, dr_org_id = org_id,
     dr_order_id = dd_order_id d, dr_position_id = dd_position_id d, dr_symbol_id = dd_symbol_id d,
     dr_symbol = dd_symbol d, dr_side = dd_side d, dr_volume = dd_volume d, dr_filled_volume = dd_filled_volume d,
     dr_execution_price = dd_execution_price d, dr_status = dd_status d, dr_commission = dd_commission d,
     dr_create_timestamp = dd_create_timestamp d, dr_execution_timestamp = dd_execution_timestamp d,
     dr_label = dd_label d, dr_is_close = (dd_close d \<noteq> None),
     dr_entry_price = Option.bind (dd_close d) dc_entry_price,
     dr_gross_profit = (case dd_close d of Some c \<Rightarrow> Some (dc_gross_profit c) | None \<Rightarrow> dd_gross_profit d),
     dr_swap = map_option dc_swap (dd_close d),
     dr_balance_after = (case dd_close d of Some c \<Rightarrow> Some (dc_balance c) | None \<Rightarrow> Some (dd_balance_after d)),
     dr_closed_volume = map_option dc_closed_volume (dd_close d)\<rparr>"

record backfill_row =
  bf_from_ms :: millis
  bf_to_ms :: millis
  bf_exhausted :: bool

record deal_store =
  ds_deals :: "deal_row list"
  ds_watermark :: "(ident, ident \<times> millis) dict"
  ds_backfill :: "(ident, backfill_row) dict"

definition mt5_watermark :: "ident \<Rightarrow> deal_store \<Rightarrow> ident \<times> millis" where
  "mt5_watermark account_id s = (case map_of (ds_watermark s) account_id of Some w \<Rightarrow> w | None \<Rightarrow> (0, 0))"

definition set_mt5_watermark :: "ident \<Rightarrow> ident \<Rightarrow> millis \<Rightarrow> deal_store \<Rightarrow> deal_store" where
  "set_mt5_watermark account_id ticket time_ms s =
     (let w = (case map_of (ds_watermark s) account_id of
                 Some (t, m) \<Rightarrow> (max t ticket, max m time_ms) | None \<Rightarrow> (ticket, time_ms))
      in s\<lparr>ds_watermark := AList.update account_id w (ds_watermark s)\<rparr>)"

definition insert_deal :: "deal_row \<Rightarrow> int \<times> deal_store \<Rightarrow> int \<times> deal_store" where
  "insert_deal r ns =
     (let s = snd ns in
      if list_ex (\<lambda>q. dr_account_id q = dr_account_id r \<and> dr_deal_id q = dr_deal_id r) (ds_deals s) then ns
      else (fst ns + 1, s\<lparr>ds_deals := ds_deals s @ [r]\<rparr>))"

definition upsert_mt5_deals :: "ident \<Rightarrow> ident option \<Rightarrow> deal_dict list \<Rightarrow> deal_store \<Rightarrow> int \<times> deal_store" where
  "upsert_mt5_deals account_id org_id rows s = fold (\<lambda>d. insert_deal (deal_row_of account_id org_id d)) rows (0, s)"

definition set_backfill_state :: "ident \<Rightarrow> millis \<Rightarrow> millis \<Rightarrow> bool \<Rightarrow> deal_store \<Rightarrow> deal_store" where
  "set_backfill_state account_id from_ms to_ms whole s =
     (let b = (case map_of (ds_backfill s) account_id of
                 Some r \<Rightarrow> \<lparr>bf_from_ms = min (bf_from_ms r) from_ms, bf_to_ms = max (bf_to_ms r) to_ms, bf_exhausted = whole\<rparr>
               | None \<Rightarrow> \<lparr>bf_from_ms = from_ms, bf_to_ms = to_ms, bf_exhausted = whole\<rparr>)
      in s\<lparr>ds_backfill := AList.update account_id b (ds_backfill s)\<rparr>)"

section \<open>Ingestion\<close>

definition entry_prices :: "sync_report option \<Rightarrow> sync_report \<Rightarrow> (ident, price) dict" where
  "entry_prices previous_report report =
     dict_of (map (\<lambda>p. (rp_ticket p, rp_open_price p))
       ((case previous_report of Some r \<Rightarrow> sr_positions r | None \<Rightarrow> []) @ sr_positions report))"

definition fresh_deals :: "ident \<Rightarrow> sync_report \<Rightarrow> deal_store \<Rightarrow> report_deal list" where
  "fresh_deals account_id report s =
     sort_key deal_order (filter (\<lambda>d. fst (mt5_watermark account_id s) < rd_ticket d) (sr_deals report))"

definition ingest_mt5_deals ::
  "ident \<Rightarrow> ident \<Rightarrow> (string, symbol_info) dict \<Rightarrow> sync_report option \<Rightarrow> sync_report \<Rightarrow> deal_store \<Rightarrow>
   report_deal list \<times> deal_store" where
  "ingest_mt5_deals account_id org_id symbols previous_report report s =
     (let fresh = fresh_deals account_id report s in
      if fresh = [] then ([], s)
      else let rows = deal_rows fresh (sr_balance report) symbols (map_of (entry_prices previous_report report));
               (_, s1) = upsert_mt5_deals account_id (Some org_id) rows s;
               newest = Max (rd_time_ms ` set fresh);
               s2 = set_mt5_watermark account_id (Max (rd_ticket ` set fresh)) newest s1;
               s3 = set_backfill_state account_id (Min (rd_time_ms ` set fresh)) newest True s2
           in (fresh, s3))"

section \<open>Every deal once\<close>

definition deal_keys :: "deal_store \<Rightarrow> (ident \<times> ident) list" where
  "deal_keys s = map (\<lambda>r. (dr_account_id r, dr_deal_id r)) (ds_deals s)"

definition watermark_of :: "ident \<Rightarrow> deal_store \<Rightarrow> ident" where
  "watermark_of account_id s = fst (mt5_watermark account_id s)"

lemma insert_deal_keys:
  "set (deal_keys (snd (insert_deal r ns))) = insert (dr_account_id r, dr_deal_id r) (set (deal_keys (snd ns)))"
  "distinct (deal_keys (snd ns)) \<Longrightarrow> distinct (deal_keys (snd (insert_deal r ns)))"
  "ds_watermark (snd (insert_deal r ns)) = ds_watermark (snd ns)"
proof -
  have "list_ex (\<lambda>q. dr_account_id q = dr_account_id r \<and> dr_deal_id q = dr_deal_id r) (ds_deals (snd ns)) \<longleftrightarrow>
      (dr_account_id r, dr_deal_id r) \<in> set (deal_keys (snd ns))" unfolding list_ex_iff deal_keys_def by (simp add: image_iff) metis
  then show "set (deal_keys (snd (insert_deal r ns))) = insert (dr_account_id r, dr_deal_id r) (set (deal_keys (snd ns)))"
    "distinct (deal_keys (snd ns)) \<Longrightarrow> distinct (deal_keys (snd (insert_deal r ns)))"
    "ds_watermark (snd (insert_deal r ns)) = ds_watermark (snd ns)"
    by (auto simp: insert_deal_def deal_keys_def Let_def)
qed

lemma upsert_deals_keys:
  fixes s a g rows
  defines "s' \<equiv> snd (upsert_mt5_deals a g rows s)"
  shows "set (deal_keys s') = Pair a ` dd_deal_id ` set rows \<union> set (deal_keys s)"
    and "distinct (deal_keys s) \<Longrightarrow> distinct (deal_keys s')"
    and "ds_watermark s' = ds_watermark s"
proof -
  let ?f = "\<lambda>d. insert_deal (deal_row_of a g d)"
  have "set (deal_keys (snd (fold ?f rows ns))) = Pair a ` dd_deal_id ` set rows \<union> set (deal_keys (snd ns)) \<and>
    (distinct (deal_keys (snd ns)) \<longrightarrow> distinct (deal_keys (snd (fold ?f rows ns)))) \<and>
    ds_watermark (snd (fold ?f rows ns)) = ds_watermark (snd ns)" for ns
    by (induction rows arbitrary: ns) (auto simp: insert_deal_keys deal_row_of_def)
  from this [of "(0, s)"] show "set (deal_keys s') = Pair a ` dd_deal_id ` set rows \<union> set (deal_keys s)"
    "distinct (deal_keys s) \<Longrightarrow> distinct (deal_keys s')" "ds_watermark s' = ds_watermark s"
    by (simp_all add: s'_def upsert_mt5_deals_def)
qed

lemma store_frames [simp]:
  "deal_keys (set_mt5_watermark a t m s) = deal_keys s" "deal_keys (set_backfill_state a f m c s) = deal_keys s"
  "watermark_of b (set_backfill_state a f m c s) = watermark_of b s"
  by (simp_all add: deal_keys_def set_mt5_watermark_def set_backfill_state_def watermark_of_def mt5_watermark_def Let_def)

lemma watermark_set:
  assumes "watermark_of a s < t"
  shows "watermark_of b (set_mt5_watermark a t m s) = (if b = a then t else watermark_of b s)"
  using assms by (auto simp: watermark_of_def mt5_watermark_def set_mt5_watermark_def Let_def update_conv' max_def
      split: option.split)

lemma fresh_deals_set: "set (fresh_deals a r s) = {d \<in> set (sr_deals r). watermark_of a s < rd_ticket d}"
  by (simp add: fresh_deals_def watermark_of_def)

lemma deal_rows_ids: "dd_deal_id ` set (deal_rows ds b sy ep) = rd_ticket ` set ds"
  by (simp add: deal_rows_def deal_dict_of_def sort_deals_def Let_def image_image)

lemma ingest_step:
  assumes "ingest_mt5_deals a g sy prev r s = (fresh, s')"
  shows "fresh = fresh_deals a r s"
    and "watermark_of b s' = (if b = a then Max (insert (watermark_of a s) (rd_ticket ` set (sr_deals r))) else watermark_of b s)"
    and "set (deal_keys s') = Pair a ` rd_ticket ` set fresh \<union> set (deal_keys s)"
    and "distinct (deal_keys s) \<Longrightarrow> distinct (deal_keys s')"
proof -
  let ?w = "watermark_of a s" and ?ts = "rd_ticket ` set (sr_deals r)"
  show f: "fresh = fresh_deals a r s" using assms by (auto simp: ingest_mt5_deals_def Let_def case_prod_beta split: if_splits)
  have fs: "rd_ticket ` set fresh = {t \<in> ?ts. ?w < t}" unfolding f fresh_deals_set by auto
  have *: "(watermark_of b s' = (if b = a then Max (insert ?w ?ts) else watermark_of b s)) \<and>
    set (deal_keys s') = Pair a ` rd_ticket ` set fresh \<union> set (deal_keys s) \<and> (distinct (deal_keys s) \<longrightarrow> distinct (deal_keys s'))"
  proof (cases "fresh = []")
    case True
    then have s: "s' = s" using assms f by (simp add: ingest_mt5_deals_def Let_def)
    have "\<forall>t \<in> ?ts. t \<le> ?w" using fs True by auto
    then have "Max (insert ?w ?ts) = ?w" by (intro Max_eqI) auto
    with s True show ?thesis by simp
  next
    case False
    let ?m = "Max (rd_ticket ` set fresh)"
    define rows where "rows = deal_rows fresh (sr_balance r) sy (map_of (entry_prices prev r))"
    define s1 where "s1 = snd (upsert_mt5_deals a (Some g) rows s)"
    obtain m f0 where s': "s' = set_backfill_state a f0 m True (set_mt5_watermark a ?m m s1)"
      using assms False unfolding f s1_def rows_def by (auto simp: ingest_mt5_deals_def Let_def case_prod_beta)
    note up = upsert_deals_keys [where a = a and g = "Some g" and rows = rows and s = s, folded s1_def]
    have w1: "watermark_of b s1 = watermark_of b s" for b using up(3) by (simp add: watermark_of_def mt5_watermark_def)
    have "?m \<in> rd_ticket ` set fresh" using False by (intro Max_in) auto
    then have m: "?w < ?m" "?m \<in> ?ts" unfolding fs by auto
    have "Max (insert ?w ?ts) = ?m"
    proof (rule Max_eqI)
      fix t assume "t \<in> insert ?w ?ts"
      then show "t \<le> ?m" using m Max_ge [of "rd_ticket ` set fresh" t] fs by (cases "?w < t") auto
    qed (use m in auto)
    moreover have "watermark_of b s' = (if b = a then ?m else watermark_of b s)"
      unfolding s' using watermark_set [of a s1 ?m b m] m w1 by simp
    moreover have "dd_deal_id ` set rows = rd_ticket ` set fresh" unfolding rows_def by (rule deal_rows_ids)
    ultimately show ?thesis using up by (simp add: s')
  qed
  then show "watermark_of b s' = (if b = a then Max (insert ?w ?ts) else watermark_of b s)"
    "set (deal_keys s') = Pair a ` rd_ticket ` set fresh \<union> set (deal_keys s)"
    "distinct (deal_keys s) \<Longrightarrow> distinct (deal_keys s')" by auto
qed

text \<open>Each report with the symbols and the previous report the bridge holds when it arrives.\<close>

type_synonym arrival = "(string, symbol_info) dict \<times> sync_report option \<times> sync_report"

definition ingest_all :: "ident \<Rightarrow> ident \<Rightarrow> arrival list \<Rightarrow> deal_store \<Rightarrow> report_deal list \<times> deal_store" where
  "ingest_all a g = collect (\<lambda>(sy, prev, r). ingest_mt5_deals a g sy prev r)"

definition reported :: "arrival list \<Rightarrow> report_deal list" where
  "reported as = concat (map (sr_deals \<circ> snd \<circ> snd) as)"

text \<open>A terminal numbers its deals upwards: what a report adds to the earlier ones has higher tickets.\<close>

fun tickets_grow :: "ident \<Rightarrow> arrival list \<Rightarrow> bool" where
  "tickets_grow high [] = True"
| "tickets_grow high (x # xs) =
     (let here = rd_ticket ` set (sr_deals (snd (snd x))); high' = Max (insert high here)
      in (\<forall>d \<in> set (reported xs). rd_ticket d \<in> here \<or> rd_ticket d \<le> high \<or> high' < rd_ticket d) \<and>
         tickets_grow high' xs)"

lemma distinct_map_sort_key: "distinct (map f (sort_key k xs)) \<longleftrightarrow> distinct (map f xs)"
proof -
  have "mset (map f (sort_key k xs)) = mset (map f xs)" by simp
  then show ?thesis by (rule mset_eq_imp_distinct_iff)
qed

lemma ingest_all_step:
  assumes "ingest_all a g ((sy, prev, r) # xs) s = (fresh, s')"
  obtains s1 fresh' where "ingest_mt5_deals a g sy prev r s = (fresh_deals a r s, s1)"
    "ingest_all a g xs s1 = (fresh', s')" "fresh = fresh_deals a r s @ fresh'"
proof -
  obtain f1 s1 where one: "ingest_mt5_deals a g sy prev r s = (f1, s1)" by force
  obtain f2 s2 where rest: "ingest_all a g xs s1 = (f2, s2)" by force
  have "fresh = f1 @ f2" "s' = s2" using assms one rest by (simp_all add: ingest_all_def)
  with one rest ingest_step(1) [OF one] that show thesis by simp
qed

lemma ingest_all_props:
  assumes "ingest_all a g as s = (fresh, s')"
  shows "watermark_of a s' = Max (insert (watermark_of a s) (rd_ticket ` set (reported as))) \<and>
    set fresh \<subseteq> {d \<in> set (reported as). watermark_of a s < rd_ticket d} \<and>
    set (deal_keys s') = Pair a ` rd_ticket ` set fresh \<union> set (deal_keys s) \<and>
    (distinct (deal_keys s) \<longrightarrow> distinct (deal_keys s')) \<and>
    ((\<forall>x \<in> set as. distinct (map rd_ticket (sr_deals (snd (snd x))))) \<longrightarrow> distinct (map rd_ticket fresh)) \<and>
    (tickets_grow (watermark_of a s) as \<longrightarrow>
      rd_ticket ` set fresh = {t \<in> rd_ticket ` set (reported as). watermark_of a s < t})"
  using assms
proof (induction as arbitrary: s fresh)
  case Nil
  then show ?case by (simp add: ingest_all_def reported_def)
next
  case (Cons x xs)
  obtain sy prev r where x: "x = (sy, prev, r)" by (cases x) auto
  obtain s1 fresh' where st: "ingest_mt5_deals a g sy prev r s = (fresh_deals a r s, s1)"
    "ingest_all a g xs s1 = (fresh', s')" "fresh = fresh_deals a r s @ fresh'"
    using ingest_all_step [OF Cons.prems [unfolded x]] .
  let ?w = "watermark_of a s" and ?here = "rd_ticket ` set (sr_deals r)"
  define w1 where "w1 = Max (insert ?w ?here)"
  have w1: "watermark_of a s1 = w1" using ingest_step(2) [OF st(1), of a] by (simp add: w1_def)
  have here: "t \<le> w1" if "t \<in> insert ?w ?here" for t unfolding w1_def using that by (intro Max_ge) auto
  have rep: "reported (x # xs) = sr_deals r @ reported xs" by (simp add: reported_def x)
  have fr: "rd_ticket ` set (fresh_deals a r s) = {t \<in> ?here. ?w < t}" unfolding fresh_deals_set by auto
  note IH = Cons.IH [OF st(2), unfolded w1]
  have later: "w1 < t" if "t \<in> rd_ticket ` set fresh'" for t using IH that by auto
  let ?T = "rd_ticket ` set (reported xs)"
  have "Max (insert w1 ?T) = Max (insert ?w (?here \<union> ?T))"
    using Max.union [of "insert ?w ?here" ?T] by (cases "?T = {}") (auto simp: w1_def)
  then have "watermark_of a s' = Max (insert ?w (rd_ticket ` set (reported (x # xs))))"
    using IH by (simp add: rep image_Un)
  moreover have "set fresh \<subseteq> {d \<in> set (reported (x # xs)). ?w < rd_ticket d}"
    using IH here [of ?w] by (auto simp: st(3) rep fresh_deals_set)
  moreover have "set (deal_keys s') = Pair a ` rd_ticket ` set fresh \<union> set (deal_keys s)"
    using IH ingest_step(3) [OF st(1)] by (simp add: st(3) image_Un Un_ac)
  moreover have "distinct (deal_keys s')" if "distinct (deal_keys s)"
    using IH ingest_step(4) [OF st(1) that] by simp
  moreover have "distinct (map rd_ticket fresh)"
    if "\<forall>x \<in> set (x # xs). distinct (map rd_ticket (sr_deals (snd (snd x))))"
  proof -
    have "distinct (map rd_ticket (fresh_deals a r s))"
      unfolding fresh_deals_def by (subst distinct_map_sort_key) (use that x in \<open>simp add: distinct_map_filter\<close>)
    moreover have "rd_ticket ` set (fresh_deals a r s) \<inter> rd_ticket ` set fresh' = {}"
    proof -
      have "t \<notin> rd_ticket ` set fresh'" if "t \<in> ?here" for t
      proof
        assume "t \<in> rd_ticket ` set fresh'"
        then have "w1 < t" by (rule later)
        moreover have "t \<le> w1" using that by (intro here insertI2)
        ultimately show False by simp
      qed
      then show ?thesis unfolding fr by blast
    qed
    ultimately show ?thesis using IH that by (simp add: st(3))
  qed
  moreover have "rd_ticket ` set fresh = {t \<in> rd_ticket ` set (reported (x # xs)). ?w < t}" if "tickets_grow ?w (x # xs)"
  proof -
    have g: "t \<in> ?here \<or> t \<le> ?w \<or> w1 < t" if "t \<in> ?T" for t
      using that \<open>tickets_grow ?w (x # xs)\<close> by (auto simp: x Let_def w1_def)
    have "rd_ticket ` set fresh' = {t \<in> ?T. w1 < t}"
      using IH that by (simp add: x Let_def w1_def)
    then have "rd_ticket ` set fresh = {t \<in> ?here. ?w < t} \<union> {t \<in> ?T. w1 < t}" by (simp add: st(3) image_Un fr)
    also have "\<dots> = {t \<in> ?here \<union> ?T. ?w < t}" 
    proof (intro equalityI subsetI)
      fix t assume "t \<in> {t \<in> ?here \<union> ?T. ?w < t}"
      then have "t \<in> ?here \<or> (t \<in> ?T \<and> w1 < t)" "?w < t" using g [of t] by (simp_all del: image_iff) linarith
      then show "t \<in> {t \<in> ?here. ?w < t} \<union> {t \<in> ?T. w1 < t}" by blast
    qed (use here [of ?w] in auto)
    finally show ?thesis by (simp add: rep image_Un)
  qed
  ultimately show ?case by (intro conjI impI)
qed

text \<open>
  C10. Deals are ingested exactly once. Whatever reports a terminal sends, in whatever overlapping
  batches, no deal ticket is passed on twice, every passed deal is stored under its ticket, no
  ticket is stored twice, and afterwards the watermark is the highest ticket seen. When the terminal
  numbers its deals upwards, nothing is missed either: the tickets passed on are all reported tickets
  above the watermark the account started from.
\<close>

theorem deals_ingested_once:
  assumes "ingest_all a g arrivals s = (fresh, s')" "distinct (deal_keys s)"
    and "\<forall>x \<in> set arrivals. distinct (map rd_ticket (sr_deals (snd (snd x))))"
  shows "distinct (map rd_ticket fresh) \<and> distinct (deal_keys s') \<and>
    set (deal_keys s') = Pair a ` rd_ticket ` set fresh \<union> set (deal_keys s) \<and>
    watermark_of a s' = Max (insert (watermark_of a s) (rd_ticket ` set (reported arrivals))) \<and>
    (tickets_grow (watermark_of a s) arrivals \<longrightarrow>
      rd_ticket ` set fresh = {t \<in> rd_ticket ` set (reported arrivals). watermark_of a s < t})"
  using ingest_all_props [OF assms(1)] assms(2,3) by (elim conjE) (intro conjI, simp_all)

text \<open>Two polls that overlap in the deal 51.\<close>

definition witness_arrivals :: "arrival list" where
  "witness_arrivals =
     [([], None, witness_report\<lparr>sr_deals := [witness_deal 50 ''BUY'' ''IN'' 10, witness_deal 51 ''BUY'' ''IN'' 20]\<rparr>),
      ([], None, witness_report\<lparr>sr_deals := [witness_deal 51 ''BUY'' ''IN'' 20, witness_deal 52 ''SELL'' ''OUT'' 30]\<rparr>)]"

theorem deals_ingested_once_witness:
  "rd_ticket ` set (fst (ingest_all 7 1 witness_arrivals \<lparr>ds_deals = [], ds_watermark = [(7, 49, 0)], ds_backfill = []\<rparr>)) =
     {50, 51, 52} \<and>
   watermark_of 7 (snd (ingest_all 7 1 witness_arrivals \<lparr>ds_deals = [], ds_watermark = [(7, 49, 0)], ds_backfill = []\<rparr>)) = 52"
proof -
  let ?s = "\<lparr>ds_deals = [], ds_watermark = [(7, 49, 0)], ds_backfill = []\<rparr>"
  have w: "watermark_of 7 ?s = 49" by (simp add: watermark_of_def mt5_watermark_def)
  have t: "rd_ticket ` set (reported witness_arrivals) = {50, 51, 52}"
    by (auto simp: reported_def witness_arrivals_def witness_deal_def)
  have grow: "tickets_grow (watermark_of 7 ?s) witness_arrivals"
    unfolding w by (simp add: witness_arrivals_def reported_def witness_deal_def)
  have "\<forall>x \<in> set witness_arrivals. distinct (map rd_ticket (sr_deals (snd (snd x))))"
    by (simp add: witness_arrivals_def witness_deal_def)
  note once = deals_ingested_once [OF surjective_pairing, of ?s witness_arrivals 7 1, OF _ this]
  have "distinct (deal_keys ?s)" by (simp add: deal_keys_def)
  note all = once [OF this, THEN conjunct2, THEN conjunct2, THEN conjunct2, unfolded w t]
  show ?thesis using all [THEN conjunct1] all [THEN conjunct2, THEN mp, OF grow [unfolded w]] by auto
qed

end
