(* ===== verification/Mt5_Symbols.thy ===== *)
theory Mt5_Symbols
  imports Mt5_Wire "HOL-Library.Word"
begin

text \<open>
  Symbol naming for the MT5 bridge (\<^verbatim>\<open>copier/mt5/symbols.py\<close>) and the alias table of
  \<^verbatim>\<open>copier/db/repo.py\<close>: guessing which broker name is which instrument, and minting the
  integer ids the rest of the copier expects. Names are char lists, so characters beyond
  Latin-1 are outside the model; upper-casing is ASCII.
\<close>

unbundle bit_operations_syntax

section \<open>Normalised names\<close>

definition SYNONYMS :: "(string, string) dict" where
  "SYNONYMS = [
     (''GOLD'', ''XAUUSD''), (''XAUUSD'', ''XAUUSD''),
     (''SILVER'', ''XAGUSD''), (''XAGUSD'', ''XAGUSD''),
     (''USTEC'', ''NAS100''), (''NAS100'', ''NAS100''),
     (''DE40'', ''GER40''), (''GER40'', ''GER40''),
     (''US30'', ''US30''), (''DJ30'', ''US30''),
     (''US500'', ''US500''), (''SPX500'', ''US500''),
     (''UK100'', ''UK100''),
     (''USOIL'', ''USOIL''), (''WTI'', ''USOIL''), (''OIL'', ''USOIL''),
     (''BRENT'', ''UKOIL''), (''UKOIL'', ''UKOIL''),
     (''BTCUSD'', ''BTCUSD''), (''BITCOIN'', ''BTCUSD''),
     (''ETHUSD'', ''ETHUSD'')]"

definition SUFFIXES :: "string list" where
  "SUFFIXES = [''.ECN'', ''.PRO'', ''.R'', ''.X'', ''.M'', ''.I'', ''_I'']"

definition TRAILING_LETTERS :: "char list" where
  "TRAILING_LETTERS = ''MCI''"

definition is_upper :: "char \<Rightarrow> bool" where
  "is_upper c \<longleftrightarrow> 65 \<le> (of_char c :: nat) \<and> (of_char c :: nat) \<le> 90"

definition is_known :: "string \<Rightarrow> bool" where
  "is_known stem \<longleftrightarrow> map_of SYNONYMS stem \<noteq> None \<or> (length stem = 6 \<and> list_all is_upper stem)"

definition strip_suffix :: "string \<Rightarrow> string" where
  "strip_suffix upper =
     (case find (\<lambda>sf. endswith upper sf \<and> length sf < length upper) SUFFIXES of
        Some sf \<Rightarrow> take (length upper - length sf) upper
      | None \<Rightarrow> upper)"

definition normalise_symbol :: "string \<Rightarrow> string" where
  "normalise_symbol name =
     (let upper = strip_suffix (map upper_char (py_strip name));
          stem = filter (\<lambda>c. is_upper c \<or> is_digit c) upper
      in case map_of SYNONYMS stem of
           Some c \<Rightarrow> c
         | None \<Rightarrow>
             if 1 < length stem \<and> last stem \<in> set TRAILING_LETTERS \<and> is_known (butlast stem)
             then (case map_of SYNONYMS (butlast stem) of Some c \<Rightarrow> c | None \<Rightarrow> butlast stem)
             else stem)"

section \<open>Symbol ids\<close>

text \<open>\<^verbatim>\<open>zlib.crc32\<close>: the reflected polynomial, bit by bit, and \<^verbatim>\<open>str.encode('utf-8')\<close>.\<close>

definition crc_bit :: "32 word \<Rightarrow> 32 word" where
  "crc_bit c = (if bit c 0 then drop_bit 1 c XOR 0xEDB88320 else drop_bit 1 c)"

definition crc_byte :: "nat \<Rightarrow> 32 word \<Rightarrow> 32 word" where
  "crc_byte b c = (crc_bit ^^ 8) (c XOR of_nat b)"

definition crc32 :: "nat list \<Rightarrow> 32 word" where
  "crc32 bytes = NOT (fold crc_byte bytes (NOT 0))"

definition utf8 :: "string \<Rightarrow> nat list" where
  "utf8 s = concat (map (\<lambda>c. let n = of_char c in if n < 128 then [n] else [192 + n div 64, 128 + n mod 64]) s)"

text \<open>The probing loop; \<open>taken\<close> is finite, so it ends.\<close>

function probe :: "ident list \<Rightarrow> ident \<Rightarrow> ident" where
  "probe taken symbol_id = (if symbol_id \<in> set taken then probe taken (symbol_id + 1) else symbol_id)"
  by pat_completeness auto

termination
proof (relation "measure (\<lambda>(taken, i). card {t \<in> set taken. i \<le> t})")
  fix taken and i :: ident assume "i \<in> set taken"
  then have "{t \<in> set taken. i + 1 \<le> t} \<subset> {t \<in> set taken. i \<le> t}" by force
  then show "((taken, i + 1), taken, i) \<in> measure (\<lambda>(taken, i). card {t \<in> set taken. i \<le> t})"
    by (simp add: psubset_card_mono)
qed simp

declare probe.simps [simp del]

definition symbol_id_for :: "string \<Rightarrow> ident list \<Rightarrow> ident" where
  "symbol_id_for name taken = probe taken (uint (crc32 (utf8 name) AND 0x7FFFFFFF))"

definition info_of_hello :: "ident \<Rightarrow> hello_symbol \<Rightarrow> symbol_info" where
  "info_of_hello symbol_id s = \<lparr>si_symbol_id = symbol_id, si_name = hs_name s, si_digits = hs_digits s,
     si_lot_size = CENTILOTS, si_min_volume = centilots (hs_volume_min s),
     si_step_volume = max 1 (centilots (hs_volume_step s))\<rparr>"

fun infos_loop :: "hello_symbol list \<Rightarrow> ident list \<Rightarrow> symbol_info list" where
  "infos_loop [] taken = []"
| "infos_loop (s # ss) taken =
     (let symbol_id = symbol_id_for (hs_name s) taken
      in info_of_hello symbol_id s # infos_loop ss (symbol_id # taken))"

definition symbol_infos_from_hello :: "hello_symbol list \<Rightarrow> symbol_info list" where
  "symbol_infos_from_hello symbols = infos_loop symbols []"

section \<open>Matching names\<close>

text \<open>\<^verbatim>\<open>dict.setdefault\<close>, and the first-occurrence order of \<^verbatim>\<open>dict.fromkeys\<close>.\<close>

definition setdefault :: "'k \<Rightarrow> 'v \<Rightarrow> ('k, 'v) dict \<Rightarrow> ('k, 'v) dict" where
  "setdefault k v d = (if map_of d k = None then d @ [(k, v)] else d)"

definition by_stem :: "string list \<Rightarrow> (string, string) dict" where
  "by_stem brokers = fold (\<lambda>b. setdefault (normalise_symbol b) b) brokers []"

definition match_one :: "string list \<Rightarrow> string \<Rightarrow> string option" where
  "match_one brokers canonical =
     (if canonical \<in> set brokers then Some canonical else map_of (by_stem brokers) (normalise_symbol canonical))"

definition auto_match :: "string list \<Rightarrow> string list \<Rightarrow> (string, string) dict" where
  "auto_match canonical_names broker_names =
     fold (\<lambda>c out. case match_one (rev (remdups (rev broker_names))) c of Some b \<Rightarrow> AList.update c b out | None \<Rightarrow> out)
       canonical_names []"

section \<open>The alias table\<close>

record alias_row =
  al_account :: ident
  al_canonical :: string
  al_broker :: string
  al_source :: string

definition load_symbol_aliases :: "ident \<Rightarrow> alias_row list \<Rightarrow> (string, string) dict" where
  "load_symbol_aliases account_id t =
     dict_of (map (\<lambda>r. (al_canonical r, al_broker r)) (filter (\<lambda>r. al_account r = account_id) t))"

definition alias_key :: "ident \<Rightarrow> string \<Rightarrow> alias_row \<Rightarrow> bool" where
  "alias_key account_id canonical r \<longleftrightarrow> al_account r = account_id \<and> al_canonical r = canonical"

definition save_alias :: "ident \<Rightarrow> string \<Rightarrow> string \<times> string \<Rightarrow> alias_row list \<Rightarrow> alias_row list" where
  "save_alias account_id source cb t =
     (if snd cb = [] then filter (\<lambda>r. \<not> alias_key account_id (fst cb) r) t
      else if list_ex (alias_key account_id (fst cb)) t
      then map (\<lambda>r. if alias_key account_id (fst cb) r \<and> \<not> (al_source r = ''manual'' \<and> source = ''auto'')
                    then r\<lparr>al_broker := snd cb, al_source := source\<rparr> else r) t
      else t @ [\<lparr>al_account = account_id, al_canonical = fst cb, al_broker = snd cb, al_source = source\<rparr>])"

definition save_symbol_aliases :: "ident \<Rightarrow> (string, string) dict \<Rightarrow> string \<Rightarrow> alias_row list \<Rightarrow> alias_row list" where
  "save_symbol_aliases account_id aliases source t = fold (save_alias account_id source) aliases t"

section \<open>Ids are unique and stable\<close>

lemma probe_fresh: "probe taken i \<notin> set taken"
  by (induction taken i rule: probe.induct) (simp add: probe.simps)

lemma probe_least: "i \<le> probe taken i \<and> {i ..< probe taken i} \<subseteq> set taken"
proof (induction taken i rule: probe.induct)
  case (1 taken i)
  show ?case
  proof (cases "i \<in> set taken")
    case True
    with 1 have "i + 1 \<le> probe taken (i + 1) \<and> {i + 1 ..< probe taken (i + 1)} \<subseteq> set taken" by simp
    moreover have "probe taken i = probe taken (i + 1)" using True by (subst probe.simps) simp
    moreover have "{i ..< j} \<subseteq> insert i {i + 1 ..< j}" for j by auto
    ultimately show ?thesis using True by fastforce
  qed (subst probe.simps, simp, subst probe.simps, simp)
qed

lemma probe_bounds: "i \<le> probe taken i \<and> probe taken i \<le> i + int (length taken)"
proof -
  have "card {i ..< probe taken i} \<le> card (set taken)"
    using probe_least [of i taken] by (intro card_mono) auto
  also have "\<dots> \<le> length taken" by (rule card_length)
  finally show ?thesis using probe_least [of i taken] by simp
qed

lemma crc_bounds: "0 \<le> uint (w AND 0x7FFFFFFF :: 32 word) \<and> uint (w AND 0x7FFFFFFF :: 32 word) < 2 ^ 31"
proof -
  have "w AND 0x7FFFFFFF = w AND mask 31" for w :: "32 word" by (simp add: mask_eq_exp_minus_1)
  then have "uint (w AND 0x7FFFFFFF) = take_bit 31 (uint w)"
    by (simp add: take_bit_eq_mask [symmetric] unsigned_take_bit_eq)
  then show ?thesis using take_bit_int_less_exp [of 31 "uint w"] by simp
qed

lemma symbol_id_bounds:
  "0 \<le> symbol_id_for name taken \<and> symbol_id_for name taken < 2 ^ 31 + int (length taken)"
  using probe_bounds [of "uint (crc32 (utf8 name) AND 0x7FFFFFFF)" taken] crc_bounds [of "crc32 (utf8 name)"]
  unfolding symbol_id_for_def by linarith

lemma infos_loop_ids:
  "distinct (map si_symbol_id (infos_loop ss taken)) \<and> si_symbol_id ` set (infos_loop ss taken) \<inter> set taken = {} \<and>
   (\<forall>info \<in> set (infos_loop ss taken). 0 \<le> si_symbol_id info \<and>
      si_symbol_id info < 2 ^ 31 + int (length taken) + int (length ss))"
proof (induction ss arbitrary: taken)
  case (Cons s ss)
  let ?i = "symbol_id_for (hs_name s) taken"
  have new: "?i \<notin> set taken" by (simp add: symbol_id_for_def probe_fresh)
  note b = symbol_id_bounds [of "hs_name s" taken]
  show ?case using Cons [of "?i # taken"] new b by (fastforce simp: Let_def info_of_hello_def)
qed simp

lemma infos_loop_append:
  "infos_loop (xs @ ys) taken = infos_loop xs taken @ infos_loop ys (rev (map si_symbol_id (infos_loop xs taken)) @ taken)"
  by (induction xs arbitrary: taken) (simp_all add: Let_def info_of_hello_def)

lemma infos_loop_rows:
  "list_all2 (\<lambda>s info. info = info_of_hello (si_symbol_id info) s) ss (infos_loop ss taken)"
  by (induction ss arbitrary: taken) (simp_all add: Let_def info_of_hello_def)

text \<open>
  C33. The ids minted for a terminal's symbols are unique within the account, non-negative and below
  two to the 31 plus the number of symbols; every row describes its own symbol, with a step of at
  least one centilot; and symbols that arrive in a later chunk of the hello change neither the rows
  nor the ids of the earlier ones.
\<close>

theorem symbol_ids_unique_and_stable:
  "distinct (map si_symbol_id (symbol_infos_from_hello ss)) \<and>
   (\<forall>info \<in> set (symbol_infos_from_hello ss). 0 \<le> si_symbol_id info \<and>
      si_symbol_id info < 2 ^ 31 + int (length ss) \<and> 1 \<le> si_step_volume info \<and> si_lot_size info = CENTILOTS) \<and>
   map si_name (symbol_infos_from_hello ss) = map hs_name ss \<and>
   (\<exists>later. symbol_infos_from_hello (ss @ chunk) = symbol_infos_from_hello ss @ later)"
proof -
  have "1 \<le> si_step_volume info \<and> si_lot_size info = CENTILOTS" if "info \<in> set (infos_loop ss [])" for info
  proof -
    from that obtain s where "info = info_of_hello (si_symbol_id info) s"
      using infos_loop_rows [of ss "[]"] by (auto simp: list_all2_conv_all_nth in_set_conv_nth)
    then have "si_step_volume info = max 1 (centilots (hs_volume_step s))" "si_lot_size info = CENTILOTS"
      by (metis info_of_hello_def symbol_info.select_convs)+
    then show ?thesis by simp
  qed
  moreover have "map si_name (infos_loop ss taken) = map hs_name ss" for taken
    by (induction ss arbitrary: taken) (simp_all add: Let_def info_of_hello_def)
  ultimately show ?thesis
    using infos_loop_ids [of ss "[]"] unfolding symbol_infos_from_hello_def
    by (simp add: infos_loop_append)
qed

definition witness_hello_symbol :: "string \<Rightarrow> hello_symbol" where
  "witness_hello_symbol name = \<lparr>hs_name = name, hs_digits = 5, hs_contract_size = 100000, hs_volume_min = 1/100,
     hs_volume_step = 1/100, hs_volume_max = 100, hs_trade_mode = 4\<rparr>"

theorem symbol_ids_unique_and_stable_witness:
  "let infos = symbol_infos_from_hello [witness_hello_symbol ''EURUSD'', witness_hello_symbol ''GOLD''] in
   distinct (map si_symbol_id infos) \<and> map si_name infos = [''EURUSD'', ''GOLD'']"
  using symbol_ids_unique_and_stable [of "[witness_hello_symbol ''EURUSD'', witness_hello_symbol ''GOLD'']" "[]"]
  by (simp add: Let_def witness_hello_symbol_def)

section \<open>Matching\<close>

lemma setdefault_lookup: "map_of (setdefault k v d) x = (case map_of d x of None \<Rightarrow> if x = k then Some v else None | s \<Rightarrow> s)"
  by (auto simp: setdefault_def map_add_def split: option.split)

lemma by_stem_lookup: "map_of (by_stem bs) st = find (\<lambda>b. normalise_symbol b = st) bs"
proof -
  have "map_of (fold (\<lambda>b. setdefault (normalise_symbol b) b) bs d) st =
      (case map_of d st of None \<Rightarrow> find (\<lambda>b. normalise_symbol b = st) bs | s \<Rightarrow> s)" for d
    by (induction bs arbitrary: d) (auto simp: setdefault_lookup split: option.split)
  from this [of "[]"] show ?thesis by (simp add: by_stem_def)
qed

lemma find_first_occurrence: "find P (rev (remdups (rev xs))) = find P xs"
proof -
  have drop: "find P (filter (\<lambda>y. y \<noteq> x) ys) = find P ys" if "\<not> P x" for x ys
    using that by (induction ys) auto
  have snoc: "rev (remdups (rev (x # xs))) = x # filter (\<lambda>y. y \<noteq> x) (rev (remdups (rev xs)))" for x :: 'a and xs
  proof (induction xs rule: rev_induct)
    case (snoc y ys)
    then show ?case by (cases "y \<in> set (rev (x # ys))") auto
  qed simp
  show ?thesis
  proof (induction xs)
    case (Cons x xs)
    then show ?case unfolding snoc by (cases "P x") (simp_all add: drop)
  qed simp
qed

lemma match_one_eq:
  "match_one (rev (remdups (rev bs))) c =
     (if c \<in> set bs then Some c else find (\<lambda>b. normalise_symbol b = normalise_symbol c) bs)"
  by (simp add: match_one_def by_stem_lookup find_first_occurrence)

lemma auto_match_lookup:
  "map_of (auto_match cs bs) c =
     (if c \<in> set cs then if c \<in> set bs then Some c else find (\<lambda>b. normalise_symbol b = normalise_symbol c) bs else None)"
proof -
  let ?step = "\<lambda>c out. case match_one (rev (remdups (rev bs))) c of Some b \<Rightarrow> AList.update c b out | None \<Rightarrow> out"
  have "map_of (fold ?step cs d) c =
      (if c \<in> set cs \<and> match_one (rev (remdups (rev bs))) c \<noteq> None
       then match_one (rev (remdups (rev bs))) c else map_of d c)" for d
    by (induction cs arbitrary: d) (auto simp: update_conv' split: option.split)
  from this [of "[]"] show ?thesis by (simp add: auto_match_def match_one_eq)
qed

lemma auto_match_distinct: "distinct (map fst (auto_match cs bs))"
proof -
  have "distinct (map fst d) \<Longrightarrow> distinct (map fst (fold (\<lambda>c out. case match_one ms c of
      Some b \<Rightarrow> AList.update c b out | None \<Rightarrow> out) cs d))" for d ms
    by (induction cs arbitrary: d) (auto simp: distinct_update split: option.split)
  then show ?thesis by (simp add: auto_match_def)
qed

section \<open>Aliases in the table\<close>

definition alias_at :: "alias_row list \<Rightarrow> ident \<Rightarrow> string \<Rightarrow> alias_row option" where
  "alias_at t a c = find (alias_key a c) t"

definition alias_keys :: "alias_row list \<Rightarrow> (ident \<times> string) list" where
  "alias_keys t = map (\<lambda>r. (al_account r, al_canonical r)) t"

lemma alias_at_Some: "distinct (alias_keys t) \<Longrightarrow> alias_at t a c = Some r \<longleftrightarrow> r \<in> set t \<and> alias_key a c r"
  unfolding alias_at_def alias_keys_def by (induction t) (auto simp: alias_key_def)

lemma alias_at_None: "alias_at t a c = None \<longleftrightarrow> \<not> list_ex (alias_key a c) t"
  by (auto simp: alias_at_def find_None_iff list_ex_iff)

text \<open>What an automatic alias does to a row: a manual one stays.\<close>

definition auto_alias :: "ident \<Rightarrow> string \<Rightarrow> string \<Rightarrow> alias_row option \<Rightarrow> alias_row" where
  "auto_alias a c b old = (case old of
     Some r \<Rightarrow> if al_source r = ''manual'' then r else r\<lparr>al_broker := b, al_source := ''auto''\<rparr>
   | None \<Rightarrow> \<lparr>al_account = a, al_canonical = c, al_broker = b, al_source = ''auto''\<rparr>)"

lemma find_map_same: "(\<And>x. P (f x) \<longleftrightarrow> P x) \<Longrightarrow> find P (map f xs) = map_option f (find P xs)"
  by (induction xs) auto

lemma find_append: "find P (xs @ ys) = (case find P xs of None \<Rightarrow> find P ys | s \<Rightarrow> s)"
  by (induction xs) auto

lemma save_alias_at:
  assumes "b \<noteq> []"
  shows "alias_at (save_alias a ''auto'' (c, b) t) x y =
    (if (x, y) = (a, c) then Some (auto_alias a c b (alias_at t a c)) else alias_at t x y)"
proof (cases "list_ex (alias_key a c) t")
  case True
  let ?f = "\<lambda>r. if alias_key a c r \<and> al_source r \<noteq> ''manual'' then r\<lparr>al_broker := b, al_source := ''auto''\<rparr> else r"
  have eq: "save_alias a ''auto'' (c, b) t = map ?f t" using True assms by (simp add: save_alias_def)
  have key: "alias_key x y (?f r) \<longleftrightarrow> alias_key x y r" for r by (simp add: alias_key_def)
  have "alias_at (map ?f t) x y = map_option ?f (alias_at t x y)"
    unfolding alias_at_def by (rule find_map_same) (rule key)
  moreover have "\<exists>r. alias_at t a c = Some r" using True alias_at_None [of t a c] by auto
  moreover have "alias_at t x y = Some r \<Longrightarrow> alias_key x y r" for r by (auto simp: alias_at_def dest: find_SomeD)
  ultimately show ?thesis unfolding eq by (cases "alias_at t x y") (auto simp: auto_alias_def alias_key_def)
next
  case False
  then have "alias_at t a c = None" by (simp add: alias_at_None)
  moreover have "save_alias a ''auto'' (c, b) t = t @ [auto_alias a c b None]"
    using False assms by (simp add: save_alias_def auto_alias_def)
  ultimately show ?thesis
    by (auto simp: alias_at_def find_append auto_alias_def alias_key_def split: option.split)
qed

lemma save_aliases_at:
  assumes "distinct (map fst d)" "\<forall>b \<in> snd ` set d. b \<noteq> []"
  shows "alias_at (save_symbol_aliases a d ''auto'' t) x y =
    (case map_of d y of Some b \<Rightarrow> if x = a then Some (auto_alias a y b (alias_at t a y)) else alias_at t x y
     | None \<Rightarrow> alias_at t x y)"
  using assms unfolding save_symbol_aliases_def
proof (induction d arbitrary: t)
  case (Cons cb d)
  obtain c b where cb: "cb = (c, b)" by force
  have b: "b \<noteq> []" using Cons.prems cb by simp
  have c: "map_of d c = None" using Cons.prems cb by (simp add: map_of_eq_None_iff)
  show ?case
    using Cons.prems by (auto simp: cb Cons.IH save_alias_at [OF b] c split: option.split)
qed simp

text \<open>
  Automatic matching fills in aliases and never overrules the operator. After the aliases found
  for an account are saved: every manual alias is as it was; a name the terminal offers is matched to
  itself, any other name to the first symbol of the terminal with the same normalised stem; a name with
  no such symbol, and every other account, keeps what it had.
\<close>

lemma auto_aliases_respect_manual:
  fixes a cs bs t
  defines "t' \<equiv> save_symbol_aliases a (auto_match cs bs) ''auto'' t"
  assumes "[] \<notin> set bs"
  shows "(\<forall>x c r. alias_at t x c = Some r \<and> al_source r = ''manual'' \<longrightarrow> alias_at t' x c = Some r) \<and>
    (\<forall>c \<in> set cs. (\<nexists>r. alias_at t a c = Some r \<and> al_source r = ''manual'') \<longrightarrow>
      (case (if c \<in> set bs then Some c else find (\<lambda>b. normalise_symbol b = normalise_symbol c) bs) of
         Some b \<Rightarrow> \<exists>r. alias_at t' a c = Some r \<and> al_broker r = b \<and> al_source r = ''auto''
       | None \<Rightarrow> alias_at t' a c = alias_at t a c)) \<and>
    (\<forall>c. c \<notin> set cs \<longrightarrow> alias_at t' a c = alias_at t a c) \<and> (\<forall>x c. x \<noteq> a \<longrightarrow> alias_at t' x c = alias_at t x c)"
proof -
  have bs: "b \<in> set bs" if "map_of (auto_match cs bs) c = Some b" for c b
    using that by (auto simp: auto_match_lookup split: if_splits dest: find_SomeD)
  have named: "\<forall>b \<in> snd ` set (auto_match cs bs). b \<noteq> []"
    using bs assms(2) auto_match_distinct [of cs bs] by (metis (no_types, lifting) imageE map_of_eq_Some_iff prod.collapse)
  note at = save_aliases_at [OF auto_match_distinct named, where a = a and t = t, folded t'_def, unfolded auto_match_lookup]
  have "\<forall>x c r. alias_at t x c = Some r \<and> al_source r = ''manual'' \<longrightarrow> alias_at t' x c = Some r"
    unfolding at by (auto simp: auto_alias_def split: option.split)
  moreover have "\<forall>c \<in> set cs. (\<nexists>r. alias_at t a c = Some r \<and> al_source r = ''manual'') \<longrightarrow>
      (case (if c \<in> set bs then Some c else find (\<lambda>b. normalise_symbol b = normalise_symbol c) bs) of
         Some b \<Rightarrow> \<exists>r. alias_at t' a c = Some r \<and> al_broker r = b \<and> al_source r = ''auto''
       | None \<Rightarrow> alias_at t' a c = alias_at t a c)"
    unfolding at by (auto simp: auto_alias_def split: option.split)
  moreover have "\<forall>c. c \<notin> set cs \<longrightarrow> alias_at t' a c = alias_at t a c" unfolding at by simp
  moreover have "\<forall>x c. x \<noteq> a \<longrightarrow> alias_at t' x c = alias_at t x c" unfolding at by (simp split: option.split)
  ultimately show ?thesis by (intro conjI)
qed

definition witness_aliases :: "alias_row list" where
  "witness_aliases = [\<lparr>al_account = 7, al_canonical = ''XAUUSD'', al_broker = ''XAUUSD.x'', al_source = ''manual''\<rparr>]"

text \<open>A published check value of the CRC-32.\<close>

lemma crc32_check: "crc32 (utf8 ''a'') = 0xE8B7BE43"
  by code_simp

end
