(* ===== verification/Mt5_Registry.thy ===== *)
theory Mt5_Registry
  imports Mt5_Deals Mt5_Symbols
begin

text \<open>
  The in-memory state of every MT5 terminal (\<^verbatim>\<open>copier/mt5/registry.py\<close>) and the tables of
  \<^verbatim>\<open>copier/db/repo.py\<close> it reads and writes: the symbol cache, the link rows and the
  positions table. Attributes loaded on first use are loaded here too, so a read may return a
  changed registry. The positions table is written through the asynchronous writer when one is
  attached; the model writes it at once.

  The parser lets only \<^verbatim>\<open>BUY\<close> and \<^verbatim>\<open>SELL\<close> and the four pending types through,
  so \<^verbatim>\<open>Side(text)\<close> and the split of the order type never fail on a report.
\<close>

section \<open>Tables\<close>

record link_row =
  li_account :: ident
  li_login :: "ident option"
  li_broker :: "string option"
  li_server :: "string option"
  li_currency :: "string option"
  li_hedging :: "bool option"
  li_trade_mode :: "string option"
  li_leverage :: "int option"
  li_ea_version :: "string option"
  li_ea_build :: "int option"
  li_last_seen_at :: "rat option"
  li_balance :: "rat option"
  li_equity :: "rat option"

record position_row =
  pr_account_id :: ident
  pr_position_id :: ident
  pr_org_id :: "ident option"
  pr_symbol_id :: ident
  pr_symbol :: "string option"
  pr_side :: string
  pr_volume :: int
  pr_entry_price :: price
  pr_stop_loss :: "price option"
  pr_take_profit :: "price option"
  pr_label :: "string option"
  pr_status :: string
  pr_closed_at :: "int option"

record mt5_tables =
  mt_links :: "link_row list"
  mt_symbol_cache :: "(ident \<times> string \<times> symbol_info) list"
  mt_aliases :: "alias_row list"
  mt_ledger :: ledger_table
  mt_positions :: "position_row list"
  mt_deals :: deal_store

definition save_symbol_cache :: "ident \<Rightarrow> (string, symbol_info) dict \<Rightarrow> mt5_tables \<Rightarrow> mt5_tables" where
  "save_symbol_cache account_id infos t =
     t\<lparr>mt_symbol_cache := filter (\<lambda>r. fst r \<noteq> account_id) (mt_symbol_cache t) @ map (\<lambda>ni. (account_id, ni)) infos\<rparr>"

definition load_symbol_cache :: "ident \<Rightarrow> mt5_tables \<Rightarrow> (string, symbol_info) dict" where
  "load_symbol_cache account_id t =
     dict_of (map (\<lambda>(_, name, info). (name, info\<lparr>si_name := name\<rparr>)) (filter (\<lambda>r. fst r = account_id) (mt_symbol_cache t)))"

definition load_mt5_link :: "ident \<Rightarrow> mt5_tables \<Rightarrow> link_row option" where
  "load_mt5_link account_id t = find (\<lambda>r. li_account r = account_id) (mt_links t)"

text \<open>The \<^verbatim>\<open>UPDATE mt5_links\<close> of a hello; the same call writes the login to the account row.\<close>

definition upsert_mt5_link_hello :: "ident \<Rightarrow> hello_report \<Rightarrow> mt5_tables \<Rightarrow> mt5_tables" where
  "upsert_mt5_link_hello account_id h t = t\<lparr>mt_links := update_where (\<lambda>r. li_account r = account_id)
     (\<lambda>r. r\<lparr>li_login := Some (hr_login h), li_broker := Some (hr_broker h), li_server := Some (hr_server h),
            li_currency := Some (hr_currency h), li_hedging := Some (hr_hedging h), li_trade_mode := Some (hr_trade_mode h),
            li_leverage := Some (hr_leverage h), li_ea_version := Some (hr_ea_version h), li_ea_build := Some (hr_ea_build h)\<rparr>)
     (mt_links t)\<rparr>"

definition set_trader_login :: "ident \<Rightarrow> ident \<Rightarrow> db \<Rightarrow> db" where
  "set_trader_login account_id login s =
     s\<lparr>db_accounts := update_where (\<lambda>a. a_account_id a = account_id) (\<lambda>a. a\<lparr>a_trader_login := login\<rparr>) (db_accounts s)\<rparr>"

definition touch_mt5_link :: "ident \<Rightarrow> rat \<Rightarrow> rat \<Rightarrow> rat \<Rightarrow> mt5_tables \<Rightarrow> mt5_tables" where
  "touch_mt5_link account_id balance equity seen_at t = t\<lparr>mt_links := update_where (\<lambda>r. li_account r = account_id)
     (\<lambda>r. r\<lparr>li_balance := Some balance, li_equity := Some equity, li_last_seen_at := Some seen_at\<rparr>) (mt_links t)\<rparr>"

definition position_row_of :: "ident \<Rightarrow> ident option \<Rightarrow> (ident, symbol_info) dict \<Rightarrow> position_snapshot \<Rightarrow> position_row" where
  "position_row_of account_id org_id symbols_by_id snap =
     \<lparr>pr_account_id = account_id, pr_position_id = ps_position_id snap, pr_org_id = org_id,
      pr_symbol_id = ps_symbol_id snap, pr_symbol = map_option si_name (map_of symbols_by_id (ps_symbol_id snap)),
      pr_side = side_value (ps_side snap), pr_volume = ps_volume snap, pr_entry_price = ps_price snap,
      pr_stop_loss = ps_stop_loss snap, pr_take_profit = ps_take_profit snap, pr_label = nonempty (ps_label snap),
      pr_status = ''open'', pr_closed_at = None\<rparr>"

definition upsert_position :: "position_row \<Rightarrow> position_row list \<Rightarrow> position_row list" where
  "upsert_position row ps =
     (let P = (\<lambda>r. pr_account_id r = pr_account_id row \<and> pr_position_id r = pr_position_id row) in
      if matching P ps = 0 then ps @ [row]
      else update_where P (\<lambda>r. row\<lparr>pr_closed_at := pr_closed_at r\<rparr>) ps)"

definition upsert_positions ::
  "ident \<Rightarrow> ident option \<Rightarrow> position_snapshot list \<Rightarrow> (ident, symbol_info) dict \<Rightarrow> mt5_tables \<Rightarrow> mt5_tables" where
  "upsert_positions account_id org_id snaps symbols_by_id t =
     t\<lparr>mt_positions := fold (\<lambda>snap. upsert_position (position_row_of account_id org_id symbols_by_id snap)) snaps (mt_positions t)\<rparr>"

definition close_missing_positions :: "ident \<Rightarrow> ident list \<Rightarrow> int \<Rightarrow> mt5_tables \<Rightarrow> mt5_tables" where
  "close_missing_positions account_id open_ids now t = t\<lparr>mt_positions := update_where
     (\<lambda>r. pr_account_id r = account_id \<and> pr_status r = ''open'' \<and> pr_position_id r \<notin> set open_ids)
     (\<lambda>r. r\<lparr>pr_status := ''closed'', pr_closed_at := (if pr_closed_at r = None then Some now else pr_closed_at r)\<rparr>) (mt_positions t)\<rparr>"

definition load_open_positions :: "ident \<Rightarrow> mt5_tables \<Rightarrow> position_row list" where
  "load_open_positions org_id t = sort_key (\<lambda>r. (pr_account_id r, pr_position_id r))
     (filter (\<lambda>r. pr_org_id r = Some org_id \<and> pr_status r = ''open'') (mt_positions t))"

section \<open>The registry\<close>

definition OFFLINE_AFTER_S :: rat where "OFFLINE_AFTER_S = 15"

type_synonym book_signature = "(ident \<times> int \<times> price option \<times> price option) list"

record account_state =
  as_org_id :: ident
  as_hedging :: "bool option"
  as_hedging_loaded :: bool
  as_hello_symbols :: "hello_symbol list"
  as_symbols :: "(string, symbol_info) dict option"
  as_report :: "sync_report option"
  as_last_seen :: "rat option"
  as_signature :: "book_signature option"
  as_ledger :: "net_ledger option"

type_synonym registry = "(ident, account_state) dict"

definition new_state :: "ident \<Rightarrow> account_state" where
  "new_state org_id = \<lparr>as_org_id = org_id, as_hedging = None, as_hedging_loaded = False, as_hello_symbols = [],
     as_symbols = None, as_report = None, as_last_seen = None, as_signature = None, as_ledger = None\<rparr>"

text \<open>\<^verbatim>\<open>_state\<close>: the account's entry, created when missing.\<close>

definition state_of :: "ident \<Rightarrow> ident option \<Rightarrow> registry \<Rightarrow> account_state" where
  "state_of account_id org_id reg =
     (let st = (case map_of reg account_id of Some st \<Rightarrow> st
                | None \<Rightarrow> new_state (case org_id of Some g \<Rightarrow> g | None \<Rightarrow> 0))
      in case org_id of Some g \<Rightarrow> st\<lparr>as_org_id := g\<rparr> | None \<Rightarrow> st)"

definition put_state :: "ident \<Rightarrow> account_state \<Rightarrow> registry \<Rightarrow> registry" where
  "put_state account_id st reg = AList.update account_id st reg"

definition symbols_by_name :: "ident \<Rightarrow> mt5_tables \<Rightarrow> registry \<Rightarrow> (string, symbol_info) dict \<times> registry" where
  "symbols_by_name account_id t reg =
     (let st = state_of account_id None reg;
          syms = (case as_symbols st of Some d \<Rightarrow> d | None \<Rightarrow> load_symbol_cache account_id t)
      in (syms, put_state account_id (st\<lparr>as_symbols := Some syms\<rparr>) reg))"

definition symbol_id_of :: "(string, symbol_info) dict \<Rightarrow> string \<Rightarrow> ident" where
  "symbol_id_of symbols name = (case map_of symbols name of Some info \<Rightarrow> si_symbol_id info | None \<Rightarrow> 0)"

definition update_from_hello ::
  "ident \<Rightarrow> ident \<Rightarrow> hello_report \<Rightarrow> rat \<Rightarrow> registry \<times> mt5_tables \<Rightarrow> registry \<times> mt5_tables" where
  "update_from_hello account_id org_id hello now rt =
     (let (reg, t) = rt;
          st = state_of account_id (Some org_id) reg;
          before = (if hr_chunk hello \<le> 1 then [] else as_hello_symbols st);
          hs = before @ hr_symbols hello;
          syms = dict_of (map (\<lambda>info. (si_name info, info)) (symbol_infos_from_hello hs))
      in (put_state account_id (st\<lparr>as_hedging := Some (hr_hedging hello), as_hedging_loaded := True,
            as_last_seen := Some now, as_hello_symbols := hs, as_symbols := Some syms\<rparr>) reg,
          if hr_chunks hello \<le> hr_chunk hello then save_symbol_cache account_id syms t else t))"

section \<open>Reads\<close>

definition report_of :: "ident \<Rightarrow> registry \<Rightarrow> sync_report option" where
  "report_of account_id reg = Option.bind (map_of reg account_id) as_report"

definition position_of :: "ident \<Rightarrow> ident \<Rightarrow> registry \<Rightarrow> report_position option" where
  "position_of account_id ticket reg =
     Option.bind (report_of account_id reg) (\<lambda>r. find (\<lambda>p. rp_ticket p = ticket) (sr_positions r))"

definition add_labels :: "ident \<Rightarrow> mapping_row \<Rightarrow> (ident, string) dict \<Rightarrow> (ident, string) dict" where
  "add_labels account_id m labels =
     (if m_slave_account m \<noteq> account_id then labels
      else if truthy (m_master_order m)
      then let label = ''copy:o'' @ str_opt (m_master_order m);
               l1 = (if truthy (m_slave_order m) then AList.update (the (m_slave_order m)) label labels else labels)
           in if truthy (m_slave_position m) then AList.update (the (m_slave_position m)) label l1 else l1
      else if truthy (m_master_position m) \<and> truthy (m_slave_position m)
      then AList.update (the (m_slave_position m)) (''copy:m'' @ str_opt (m_master_position m)) labels
      else labels)"

definition labels_of :: "ident \<Rightarrow> ident \<Rightarrow> db \<Rightarrow> (ident, string) dict" where
  "labels_of account_id org_id d = fold (add_labels account_id) (mapping_rows (Some org_id) d) []"

definition after_underscore :: "string \<Rightarrow> string" where
  "after_underscore s = tl (dropWhile (\<lambda>c. c \<noteq> CHR ''_'') s)"

definition label_or :: "(ident, string) dict \<Rightarrow> ident \<Rightarrow> string \<Rightarrow> string" where
  "label_or labels ticket comment = (case map_of labels ticket of Some l \<Rightarrow> l | None \<Rightarrow> comment)"

definition position_snapshot_of ::
  "(string, symbol_info) dict \<Rightarrow> (ident, string) dict \<Rightarrow> report_position \<Rightarrow> position_snapshot" where
  "position_snapshot_of symbols labels p = \<lparr>ps_position_id = rp_ticket p, ps_symbol_id = symbol_id_of symbols (rp_symbol p),
     ps_side = side_named (rp_side p), ps_volume = rp_volume p, ps_price = rp_open_price p,
     ps_label = label_or labels (rp_ticket p) (rp_comment p), ps_stop_loss = rp_stop_loss p,
     ps_take_profit = rp_take_profit p\<rparr>"

definition order_snapshot_of ::
  "(string, symbol_info) dict \<Rightarrow> (ident, string) dict \<Rightarrow> report_order \<Rightarrow> order_snapshot" where
  "order_snapshot_of symbols labels w = \<lparr>os_order_id = ro_ticket w, os_symbol_id = symbol_id_of symbols (ro_symbol w),
     os_volume = ro_volume w, os_label = label_or labels (ro_ticket w) (ro_comment w),
     os_side = Some (if startswith (ro_order_type w) ''BUY'' then BUY else SELL),
     os_order_type = Some (after_underscore (ro_order_type w)), os_price = Some (ro_price w),
     os_stop_loss = ro_stop_loss w, os_take_profit = ro_take_profit w\<rparr>"

text \<open>The terminal's own book, as the ingress and the reconciler see it.\<close>

definition book_of :: "(string, symbol_info) dict \<Rightarrow> (ident, string) dict \<Rightarrow> sync_report \<Rightarrow> book" where
  "book_of symbols labels r =
     (map (position_snapshot_of symbols labels) (sr_positions r), map (order_snapshot_of symbols labels) (sr_orders r))"

definition net_ledger_of :: "ident \<Rightarrow> mt5_tables \<Rightarrow> registry \<Rightarrow> net_ledger \<times> registry" where
  "net_ledger_of account_id t reg =
     (let st = state_of account_id None reg;
          l = (case as_ledger st of Some l \<Rightarrow> l | None \<Rightarrow> ledger_init (load_net_ledger account_id (mt_ledger t)))
      in (l, put_state account_id (st\<lparr>as_ledger := Some l\<rparr>) reg))"

definition net_by_symbol :: "sync_report \<Rightarrow> (string, report_position) dict" where
  "net_by_symbol r = dict_of (map (\<lambda>p. (rp_symbol p, p)) (sr_positions r))"

definition virtual_positions :: "sync_report \<Rightarrow> (string, symbol_info) dict \<Rightarrow> net_ledger \<Rightarrow> position_snapshot list" where
  "virtual_positions r symbols l = map (\<lambda>v.
     \<lparr>ps_position_id = vp_id v, ps_symbol_id = symbol_id_of symbols (vp_symbol v), ps_side = side_named (vp_side v),
      ps_volume = vp_volume_left v,
      ps_price = (case map_of (net_by_symbol r) (vp_symbol v) of Some net \<Rightarrow> rp_open_price net | None \<Rightarrow> 0),
      ps_label = '''', ps_stop_loss = vp_stop_loss v, ps_take_profit = vp_take_profit v\<rparr>) (nl_positions l)"

definition snapshot ::
  "ident \<Rightarrow> bool \<Rightarrow> bool \<Rightarrow> db \<Rightarrow> mt5_tables \<Rightarrow> registry \<Rightarrow> book option \<times> registry" where
  "snapshot account_id with_labels virtual d t reg =
     (case report_of account_id reg of
        None \<Rightarrow> (None, reg)
      | Some r \<Rightarrow>
          let (symbols, reg1) = symbols_by_name account_id t reg;
              labels = (if with_labels then labels_of account_id (as_org_id (state_of account_id None reg)) d else []);
              b = book_of symbols labels r
          in if virtual
             then let (l, reg2) = net_ledger_of account_id t reg1 in (Some (virtual_positions r symbols l, snd b), reg2)
             else (Some b, reg1))"

definition last_seen :: "ident \<Rightarrow> registry \<Rightarrow> rat option" where
  "last_seen account_id reg = Option.bind (map_of reg account_id) as_last_seen"

definition is_online :: "ident \<Rightarrow> rat \<Rightarrow> registry \<Rightarrow> bool" where
  "is_online account_id now reg = (case last_seen account_id reg of Some l \<Rightarrow> fl (now - l) < OFFLINE_AFTER_S | None \<Rightarrow> False)"

definition hedging :: "ident \<Rightarrow> mt5_tables \<Rightarrow> registry \<Rightarrow> bool option \<times> registry" where
  "hedging account_id t reg =
     (case map_of reg account_id of
        Some st \<Rightarrow>
          if as_hedging_loaded st then (as_hedging st, reg)
          else (case Option.bind (load_mt5_link account_id t) li_hedging of
                  None \<Rightarrow> (as_hedging st, reg)
                | Some h \<Rightarrow> (Some h, put_state account_id (st\<lparr>as_hedging := Some h, as_hedging_loaded := True\<rparr>) reg))
      | None \<Rightarrow>
          (case Option.bind (load_mt5_link account_id t) li_hedging of
             None \<Rightarrow> (None, reg)
           | Some h \<Rightarrow> (Some h, put_state account_id ((new_state 0)\<lparr>as_hedging := Some h, as_hedging_loaded := True\<rparr>) reg)))"

definition margin_mode :: "ident \<Rightarrow> mt5_tables \<Rightarrow> registry \<Rightarrow> string option \<times> registry" where
  "margin_mode account_id t reg =
     (let (h, reg1) = hedging account_id t reg
      in (map_option (\<lambda>b. if b then ''hedging'' else ''netting'') h, reg1))"

definition position_price :: "ident \<Rightarrow> ident \<Rightarrow> mt5_tables \<Rightarrow> registry \<Rightarrow> price option \<times> registry" where
  "position_price account_id position_id t reg =
     (case report_of account_id reg of
        None \<Rightarrow> (None, reg)
      | Some r \<Rightarrow>
          (case find (\<lambda>p. rp_ticket p = position_id) (sr_positions r) of
             Some p \<Rightarrow> (rp_current_price p, reg)
           | None \<Rightarrow>
               let (l, reg1) = net_ledger_of account_id t reg
               in (case find (\<lambda>v. vp_id v = position_id) (nl_positions l) of
                     None \<Rightarrow> (None, reg1)
                   | Some vp \<Rightarrow> (Option.bind (find (\<lambda>p. rp_symbol p = vp_symbol vp) (sr_positions r)) rp_current_price, reg1))))"

section \<open>Reports in\<close>

definition persist_positions ::
  "ident \<Rightarrow> ident \<Rightarrow> position_snapshot list \<Rightarrow> int \<Rightarrow> registry \<times> mt5_tables \<Rightarrow> registry \<times> mt5_tables" where
  "persist_positions account_id org_id positions now rt =
     (let (symbols, reg1) = symbols_by_name account_id (snd rt) (fst rt);
          by_id = dict_of (map (\<lambda>(_, info). (si_symbol_id info, info)) symbols);
          t1 = upsert_positions account_id (Some org_id) positions by_id (snd rt)
      in (reg1, close_missing_positions account_id (map ps_position_id positions) now t1))"

text \<open>
  Python compares the signature tuples; the model orders them by ticket, which is the same while
  tickets are unique (a \<^verbatim>\<open>None\<close> level is never compared then).
\<close>

definition book_signature_of :: "sync_report \<Rightarrow> book_signature" where
  "book_signature_of r = sort_key fst (map (\<lambda>p. (rp_ticket p, rp_volume p, rp_stop_loss p, rp_take_profit p)) (sr_positions r))"

definition update_from_sync ::
  "ident \<Rightarrow> ident \<Rightarrow> sync_report \<Rightarrow> rat \<Rightarrow> bool \<Rightarrow> db \<Rightarrow> int \<Rightarrow> registry \<times> mt5_tables \<Rightarrow> registry \<times> mt5_tables" where
  "update_from_sync account_id org_id report now persist d db_now rt =
     (let (reg, t) = rt;
          st = (state_of account_id (Some org_id) reg)\<lparr>as_report := Some report, as_last_seen := Some now\<rparr>;
          reg1 = put_state account_id st reg
      in if \<not> persist then (reg1, t)
         else let sig = book_signature_of report in
           if as_signature st = Some sig then (reg1, t)
           else let (b, reg2) = snapshot account_id True False d t reg1;
                    (reg3, t1) = persist_positions account_id org_id (fst (the b)) db_now (reg2, t);
                    st3 = state_of account_id None reg3
                in (put_state account_id (st3\<lparr>as_signature := Some sig\<rparr>) reg3, t1))"

definition persist_virtual_positions ::
  "ident \<Rightarrow> db \<Rightarrow> int \<Rightarrow> registry \<times> mt5_tables \<Rightarrow> registry \<times> mt5_tables" where
  "persist_virtual_positions account_id d now rt =
     (let (b, reg1) = snapshot account_id False True d (snd rt) (fst rt)
      in case b of
           None \<Rightarrow> rt
         | Some (positions, _) \<Rightarrow>
             persist_positions account_id (as_org_id (state_of account_id None reg1)) positions now (reg1, snd rt))"

section \<open>The positions table follows the book\<close>

definition pos_at :: "position_row list \<Rightarrow> ident \<Rightarrow> ident \<Rightarrow> position_row option" where
  "pos_at ps a i = find (\<lambda>r. pr_account_id r = a \<and> pr_position_id r = i) ps"

text \<open>What the table shows as open: volume, stop and target by position id.\<close>

definition open_book :: "ident \<Rightarrow> mt5_tables \<Rightarrow> ident \<Rightarrow> (int \<times> price option \<times> price option) option" where
  "open_book a t i = (case pos_at (mt_positions t) a i of
     Some r \<Rightarrow> if pr_status r = ''open'' then Some (pr_volume r, pr_stop_loss r, pr_take_profit r) else None
   | None \<Rightarrow> None)"

lemma pos_at_key: "pos_at ps a i = Some r \<Longrightarrow> pr_account_id r = a \<and> pr_position_id r = i"
  by (auto simp: pos_at_def dest: find_SomeD)

lemma upsert_position_at:
  "\<exists>c. pos_at (upsert_position row ps) a i =
     (if a = pr_account_id row \<and> i = pr_position_id row then Some (row\<lparr>pr_closed_at := c\<rparr>) else pos_at ps a i)"
proof -
  let ?P = "\<lambda>r. pr_account_id r = pr_account_id row \<and> pr_position_id r = pr_position_id row"
  show ?thesis
  proof (cases "matching ?P ps = 0")
    case True
    then have none: "pos_at ps (pr_account_id row) (pr_position_id row) = None" by (simp add: pos_at_def find_None_iff)
    have "pos_at (ps @ [row]) a i = (case pos_at ps a i of None \<Rightarrow> pos_at [row] a i | s \<Rightarrow> s)" unfolding pos_at_def by (rule find_append)
    then have "pos_at (upsert_position row ps) a i = (if a = pr_account_id row \<and> i = pr_position_id row
        then Some (row\<lparr>pr_closed_at := pr_closed_at row\<rparr>) else pos_at ps a i)"
      using True none by (auto simp: upsert_position_def pos_at_def split: option.split)
    then show ?thesis by blast
  next
    case False
    let ?f = "\<lambda>r. if ?P r then row\<lparr>pr_closed_at := pr_closed_at r\<rparr> else r"
    have up: "upsert_position row ps = map ?f ps" using False by (simp add: upsert_position_def update_where_def)
    have "pos_at (map ?f ps) a i = map_option ?f (pos_at ps a i)" unfolding pos_at_def by (rule find_map_same) simp
    moreover have "pos_at ps (pr_account_id row) (pr_position_id row) \<noteq> None"
      using False by (auto simp: pos_at_def find_None_iff)
    ultimately show ?thesis unfolding up using pos_at_key [of ps a i] by (cases "pos_at ps a i") auto
  qed
qed

lemma upsert_positions_at:
  "\<exists>c. pos_at (fold (\<lambda>snap. upsert_position (position_row_of acc g sy snap)) snaps ps) a i =
     (case find (\<lambda>s. ps_position_id s = i) (rev snaps) of
        Some snap \<Rightarrow> if a = acc then Some ((position_row_of acc g sy snap)\<lparr>pr_closed_at := c\<rparr>) else pos_at ps a i
      | None \<Rightarrow> pos_at ps a i)"
proof (induction snaps rule: rev_induct)
  case (snoc snap snaps)
  then obtain c1 where IH: "pos_at (fold (\<lambda>snap. upsert_position (position_row_of acc g sy snap)) snaps ps) a i =
     (case find (\<lambda>s. ps_position_id s = i) (rev snaps) of
        Some snap \<Rightarrow> if a = acc then Some ((position_row_of acc g sy snap)\<lparr>pr_closed_at := c1\<rparr>) else pos_at ps a i
      | None \<Rightarrow> pos_at ps a i)" by blast
  have key: "pr_account_id (position_row_of acc g sy snap) = acc" "pr_position_id (position_row_of acc g sy snap) = ps_position_id snap"
    by (simp_all add: position_row_of_def)
  obtain c2 where "pos_at (upsert_position (position_row_of acc g sy snap) (fold (\<lambda>snap. upsert_position (position_row_of acc g sy snap)) snaps ps)) a i =
     (if a = acc \<and> i = ps_position_id snap then Some ((position_row_of acc g sy snap)\<lparr>pr_closed_at := c2\<rparr>)
      else pos_at (fold (\<lambda>snap. upsert_position (position_row_of acc g sy snap)) snaps ps) a i)"
    using upsert_position_at [of "position_row_of acc g sy snap" "fold (\<lambda>snap. upsert_position (position_row_of acc g sy snap)) snaps ps" a i]
    unfolding key by blast
  then show ?case using IH
    by (intro exI [of _ "if a = acc \<and> i = ps_position_id snap then c2 else c1"])
       (cases "ps_position_id snap = i"; cases "a = acc"; simp split: option.split)
qed simp

lemma persist_book:
  assumes "persist_positions a g snaps now (reg, t) = (reg', t')"
  shows "open_book b t' i = (if b = a then map_option (\<lambda>s. (ps_volume s, ps_stop_loss s, ps_take_profit s))
      (find (\<lambda>s. ps_position_id s = i) (rev snaps)) else open_book b t i)"
proof -
  obtain sy where t': "t' = close_missing_positions a (map ps_position_id snaps) now (upsert_positions a (Some g) snaps sy t)"
    using assms by (auto simp: persist_positions_def Let_def case_prod_beta)
  let ?ps = "fold (\<lambda>snap. upsert_position (position_row_of a (Some g) sy snap)) snaps (mt_positions t)"
  let ?P = "\<lambda>r. pr_account_id r = a \<and> pr_status r = ''open'' \<and> pr_position_id r \<notin> set (map ps_position_id snaps)"
  let ?f = "\<lambda>r. if ?P r then r\<lparr>pr_status := ''closed'', pr_closed_at := (if pr_closed_at r = None then Some now else pr_closed_at r)\<rparr> else r"
  have "mt_positions t' = map ?f ?ps" unfolding t' close_missing_positions_def upsert_positions_def update_where_def by simp
  then have at: "pos_at (mt_positions t') b i = map_option ?f (pos_at ?ps b i)"
    unfolding pos_at_def by (simp only:) (rule find_map_same, simp)
  obtain c where up: "pos_at ?ps b i = (case find (\<lambda>s. ps_position_id s = i) (rev snaps) of
        Some snap \<Rightarrow> if b = a then Some ((position_row_of a (Some g) sy snap)\<lparr>pr_closed_at := c\<rparr>) else pos_at (mt_positions t) b i
      | None \<Rightarrow> pos_at (mt_positions t) b i)"
    using upsert_positions_at [of a "Some g" sy snaps "mt_positions t" b i] by blast
  show ?thesis
  proof (cases "find (\<lambda>s. ps_position_id s = i) (rev snaps)")
    case (Some snap)
    then have "snap \<in> set snaps" "ps_position_id snap = i" by (auto dest: find_SomeD)
    then show ?thesis using at up Some pos_at_key [of "mt_positions t" b i]
      by (cases "b = a") (auto simp: open_book_def position_row_of_def split: option.split)
  next
    case None
    then have "i \<notin> set (map ps_position_id snaps)" by (auto simp: find_None_iff)
    then show ?thesis using at up None pos_at_key [of "mt_positions t" b i]
      by (cases "b = a") (auto simp: open_book_def split: option.split)
  qed
qed

definition book_map :: "sync_report \<Rightarrow> ident \<Rightarrow> (int \<times> price option \<times> price option) option" where
  "book_map r = map_of (map (\<lambda>p. (rp_ticket p, rp_volume p, rp_stop_loss p, rp_take_profit p)) (sr_positions r))"

lemma find_map_of: "map_option g (find (\<lambda>x. k x = i) xs) = map_of (map (\<lambda>x. (k x, g x)) xs) i"
  by (induction xs) auto

lemma signature_map: "distinct (map rp_ticket (sr_positions r)) \<Longrightarrow> map_of (book_signature_of r) = book_map r"
  unfolding book_signature_of_def book_map_def
  by (rule map_of_inject_set [THEN iffD2]) (simp_all add: comp_def distinct_map_sort_key)

text \<open>A signature on file means the table already shows the book it was taken of.\<close>

definition signature_ok :: "ident \<Rightarrow> registry \<times> mt5_tables \<Rightarrow> bool" where
  "signature_ok a rt \<longleftrightarrow> (\<forall>st sig. map_of (fst rt) a = Some st \<and> as_signature st = Some sig \<longrightarrow> open_book a (snd rt) = map_of sig)"

lemma put_state_lookup [simp]: "map_of (put_state a st reg) b = (if b = a then Some st else map_of reg b)"
  by (simp add: put_state_def update_conv')

lemma snapshot_book:
  assumes "map_of reg a = Some st" "as_report st = Some r"
  shows "\<exists>sy lb reg'. snapshot a True False d t reg = (Some (book_of sy lb r), reg')"
  using assms by (auto simp: snapshot_def report_of_def Let_def case_prod_beta)



section \<open>Hearing the same report twice\<close>

lemma position_events_same:
  assumes "distinct (map rp_ticket (sr_positions r))" "(i, p) \<in> set (map (\<lambda>p. (rp_ticket p, p)) (sr_positions r))"
  shows "position_events (dict_of (map (\<lambda>q. (ps_position_id q, q)) (fst (book_of sy lb r)))) (i, p) l = ([], l)"
proof -
  let ?qs = "map (\<lambda>q. (ps_position_id q, q)) (fst (book_of sy lb r))"
  have qs: "?qs = map (\<lambda>p. (rp_ticket p, position_snapshot_of sy lb p)) (sr_positions r)"
    by (simp add: book_of_def position_snapshot_of_def)
  have p: "p \<in> set (sr_positions r)" "i = rp_ticket p" using assms(2) by auto
  have "map_of (dict_of ?qs) i = Some (position_snapshot_of sy lb p)"
    using assms(1) p by (simp add: qs dict_of_distinct_id comp_def map_of_eq_Some_iff)
  then show ?thesis by (simp add: position_events_def position_snapshot_of_def)
qed

lemma order_events_same:
  assumes "distinct (map ro_ticket (sr_orders r))" "(i, w) \<in> set (map (\<lambda>w. (ro_ticket w, w)) (sr_orders r))"
  shows "order_events (dict_of (map (\<lambda>q. (os_order_id q, q)) (snd (book_of sy lb r)))) al sy' (i, w) = []"
proof -
  let ?qs = "map (\<lambda>q. (os_order_id q, q)) (snd (book_of sy lb r))"
  have qs: "?qs = map (\<lambda>w. (ro_ticket w, order_snapshot_of sy lb w)) (sr_orders r)"
    by (simp add: book_of_def order_snapshot_of_def)
  have w: "w \<in> set (sr_orders r)" "i = ro_ticket w" using assms(2) by auto
  have "map_of (dict_of ?qs) i = Some (order_snapshot_of sy lb w)"
    using assms(1) w by (simp add: qs dict_of_distinct_id comp_def map_of_eq_Some_iff)
  then show ?thesis by (simp add: order_events_def order_changed_def order_snapshot_of_def)
qed

lemma collect_silent: "(\<And>x s. x \<in> set xs \<Longrightarrow> f x s = ([], s)) \<Longrightarrow> collect f xs s = ([], s)"
  by (induction xs arbitrary: s) simp_all

lemma same_book_silent:
  assumes "distinct (map rp_ticket (sr_positions r))" "distinct (map ro_ticket (sr_orders r))"
  shows "master_events_from_report (r\<lparr>sr_deals := []\<rparr>) (Some (book_of sy lb r)) al sy' ledger = ([], ledger)"
proof -
  let ?b = "book_of sy lb r"
  let ?cur = "dict_of (map (\<lambda>p. (rp_ticket p, p)) (sr_positions r))" and ?ords = "dict_of (map (\<lambda>w. (ro_ticket w, w)) (sr_orders r))"
  have cur: "?cur = map (\<lambda>p. (rp_ticket p, p)) (sr_positions r)" "?ords = map (\<lambda>w. (ro_ticket w, w)) (sr_orders r)"
    using assms(1,2) by (simp_all add: dict_of_distinct_id comp_def)
  have amended: "collect (position_events (dict_of (map (\<lambda>q. (ps_position_id q, q)) (fst ?b)))) ?cur ledger = ([], ledger)"
    unfolding cur by (rule collect_silent) (use position_events_same [OF assms(1)] in auto)
  have changed: "concat (map (order_events (dict_of (map (\<lambda>q. (os_order_id q, q)) (snd ?b))) al sy') ?ords) = []"
    unfolding cur concat_eq_Nil_conv using order_events_same [OF assms(2)] by auto
  have gone: "fst ` set (dict_of (map (\<lambda>q. (os_order_id q, q)) (snd ?b))) = fst ` set ?ords"
    by (simp add: dict_of_keys image_image book_of_def order_snapshot_of_def)
  obtain ps ws where b: "?b = (ps, ws)" by force
  show "master_events_from_report (r\<lparr>sr_deals := []\<rparr>) (Some ?b) al sy' ledger = ([], ledger)"
    using amended changed gone unfolding b
    by (auto simp: master_events_from_report_def Let_def filter_empty_conv simp del: concat_eq_Nil_conv)
qed

lemma no_fresh_deals:
  "(\<forall>d \<in> set (sr_deals r). rd_ticket d \<le> watermark_of a s) \<Longrightarrow> fresh_deals a r s = []"
  unfolding fresh_deals_def watermark_of_def [symmetric] by (simp add: filter_empty_conv linorder_not_less)

lemma ingested_below:
  "ingest_mt5_deals a g sy prev r s = (fresh, s') \<Longrightarrow> d \<in> set (sr_deals r) \<Longrightarrow> rd_ticket d \<le> watermark_of a s'"
  using ingest_step(2) [of a g sy prev r s fresh s' a] by (simp add: Max_ge)

text \<open>
  A report heard twice is acted on once. When a terminal repeats a report (its answer was lost),
  the watermark has moved past its deals and the book compared with is its own, so the second hearing
  ingests nothing, leaves the deal tables alone and yields no master event, neither on a hedging nor
  on a netting master, whose ledger stays as it was.
\<close>

lemma repeated_report_is_silent:
  assumes "distinct (map rp_ticket (sr_positions r))" "distinct (map ro_ticket (sr_orders r))"
    and "ingest_mt5_deals a g sy prev r s = (fresh, s')"
  shows "ingest_mt5_deals a g sy prev' r s' = ([], s') \<and>
    master_events_from_report (r\<lparr>sr_deals := []\<rparr>) (Some (book_of sy lb r)) al sy ledger = ([], ledger)"
  using same_book_silent [OF assms(1,2)] no_fresh_deals [of r a s'] ingested_below [OF assms(3)]
  by (simp add: ingest_mt5_deals_def)

end
