(* ===== verification/Mt5_Bridge.thy ===== *)
theory Mt5_Bridge
  imports Mt5_Registry Service_Laws Outbox_Laws
begin

text \<open>
  The MT5 half of the application (\<^verbatim>\<open>copier/main.py\<close>): what a terminal's hello and its polls
  do to the service, the registry and the tables, the bookkeeping that settles acknowledged commands
  and books a follower's own deals, and the watch for terminals that fell silent.

  The routing snapshot, the clock and the parsed report are arguments; a resync request is recorded
  by its organisation. The service handlers never raise here, so the only exceptions are those of a
  master event, which the source logs.
\<close>

section \<open>State\<close>

definition MT5_LINK_TOUCH_INTERVAL_S :: rat where "MT5_LINK_TOUCH_INTERVAL_S = 10"

record bridge =
  br_service :: service
  br_tables :: mt5_tables
  br_registry :: registry
  br_last_touch :: "(ident, rat) dict"
  br_settled :: "(ident, ident list) dict"
  br_aliases :: "(ident, (string, string) dict) dict"
  br_resyncs :: "ident list"

datatype sync_response = STOP string | OK_COMMANDS "command list"

definition br_db :: "bridge \<Rightarrow> db" where "br_db b = sv_db (br_service b)"

definition on_br_db :: "(db \<Rightarrow> db) \<Rightarrow> bridge \<Rightarrow> bridge" where
  "on_br_db f b = b\<lparr>br_service := on_db f (br_service b)\<rparr>"

definition br_log :: "string \<Rightarrow> string \<Rightarrow> payload \<Rightarrow> ident option \<Rightarrow> ident \<Rightarrow> bridge \<Rightarrow> bridge" where
  "br_log category severity p account_id org_id =
     on_br_db (log_event category severity p account_id None (Some org_id) None)"

definition account_row_of :: "ident \<Rightarrow> bridge \<Rightarrow> account_row option" where
  "account_row_of account_id b = find (\<lambda>a. a_account_id a = account_id) (db_accounts (br_db b))"

definition mt5_aliases :: "ident \<Rightarrow> bridge \<Rightarrow> (string, string) dict \<times> bridge" where
  "mt5_aliases account_id b =
     (case map_of (br_aliases b) account_id of
        Some al \<Rightarrow> (al, b)
      | None \<Rightarrow> let al = load_symbol_aliases account_id (mt_aliases (br_tables b))
                in (al, b\<lparr>br_aliases := AList.update account_id al (br_aliases b)\<rparr>))"

text \<open>\<^verbatim>\<open>clear_degraded\<close> with the event that follows when it did something.\<close>

definition clear_and_log :: "string \<Rightarrow> payload \<Rightarrow> ident \<Rightarrow> ident \<Rightarrow> bridge \<Rightarrow> bridge" where
  "clear_and_log category p account_id org_id b =
     (let (cleared, d) = clear_degraded account_id (br_db b);
          b1 = on_br_db (\<lambda>_. d) b
      in if cleared then br_log category ''info'' p (Some account_id) org_id b1 else b1)"

definition mt5_back_online :: "ident \<Rightarrow> ident \<Rightarrow> bridge \<Rightarrow> bridge" where
  "mt5_back_online = clear_and_log ''connection'' [(''action'', JStr ''mt5_online'')]"

section \<open>Settled commands\<close>

definition copies_sharing :: "ident \<Rightarrow> ident \<Rightarrow> ident \<Rightarrow> string option \<Rightarrow> bridge \<Rightarrow> ident list" where
  "copies_sharing org_id account_id position except_coid b =
     sort (remdups (map (\<lambda>m. the (m_master_position m)) (filter (\<lambda>m. m_slave_account m = account_id \<and>
       m_slave_position m = Some position \<and> m_status m = Active \<and> truthy (m_master_position m) \<and> m_coid m \<noteq> except_coid)
       (mapping_rows (Some org_id) (br_db b)))))"

definition record_netting_override :: "ident \<Rightarrow> ident \<Rightarrow> ident \<Rightarrow> string option \<Rightarrow> bridge \<Rightarrow> bridge" where
  "record_netting_override org_id account_id position set_by b =
     (let others = copies_sharing org_id account_id position set_by b;
          pos = position_of account_id position (br_registry b)
      in if others = [] then b
         else br_log ''slave_action'' ''info''
           [(''action'', JStr ''mt5_netting_protection_override''), (''position'', JInt position),
            (''set_by'', jstr set_by), (''overrides'', JList (map JInt others)),
            (''stop_loss'', jnum (Option.bind pos rp_stop_loss)), (''take_profit'', jnum (Option.bind pos rp_take_profit)),
            (''detail'', JStr (''one stop and one target per symbol on a netting account: the latest '' @
               ''open or amend sets them for every copy sharing the net position''))] (Some account_id) org_id b)"

text \<open>
  \<^verbatim>\<open>handle_slave_order_accepted\<close> with no order number: the call site does not check, and the
  UPDATE writes NULL.
\<close>

definition accepted_without_order :: "ident \<Rightarrow> ident \<Rightarrow> string option \<Rightarrow> int \<Rightarrow> service \<Rightarrow> service" where
  "accepted_without_order org_id account_id coid now s =
     (if \<not> coid_is ''co'' coid then s
      else case update_mappings (\<lambda>r. m_coid r = coid \<and> m_slave_account r = account_id)
                  (\<lambda>r. r\<lparr>m_slave_order := None, m_status := Active, m_updated_at := now\<rparr>) '''' (sv_db s) of
        Inr d \<Rightarrow> log_slave ''info'' account_id org_id
          [(''action'', JStr ''order_accepted''), (''client_order_id'', jstr coid), (''slave_order_id'', JNull)] (on_db (\<lambda>_. d) s)
      | Inl _ \<Rightarrow> log_slave ''warning'' account_id org_id
          [(''action'', JStr ''order_accepted_no_mapping''), (''client_order_id'', jstr coid)] s)"

definition on_service :: "(service \<Rightarrow> service) \<Rightarrow> bridge \<Rightarrow> bridge" where
  "on_service f b = b\<lparr>br_service := f (br_service b)\<rparr>"

definition or_zero :: "int option \<Rightarrow> int" where
  "or_zero x = (case x of Some v \<Rightarrow> v | None \<Rightarrow> 0)"

text \<open>Python's \<^verbatim>\<open>x or y\<close> on optional tickets.\<close>

definition ticket_or :: "ident option \<Rightarrow> ident option \<Rightarrow> ident option" where
  "ticket_or x y = (if truthy x then x else y)"

definition rejected_outcome :: "ident \<Rightarrow> ident \<Rightarrow> ack_outcome \<Rightarrow> int \<Rightarrow> bridge \<Rightarrow> bridge" where
  "rejected_outcome org_id account_id oc now b =
     (let reason = ''terminal rejected '' @ ao_kind oc @ '': '' @ ao_message oc;
          coid = (if ao_kind oc = ''open'' \<or> ao_kind oc = ''place_pending'' then ao_client_order_id oc else None)
      in on_br_db (set_account_status account_id Degraded (Some (JStr reason)))
           (on_service (handle_slave_rejection org_id account_id coid reason None now) b))"

definition open_fill :: "ident \<Rightarrow> ident \<Rightarrow> ack_outcome \<Rightarrow> report_position option \<Rightarrow> slave_fill" where
  "open_fill account_id ticket oc pos =
     \<lparr>sf_account_id = account_id, sf_client_order_id = ao_client_order_id oc, sf_position_id = ticket,
      sf_filled_volume = or_zero (ao_volume oc), sf_fill_price = ao_price oc, sf_closed_volume = None,
      sf_label = (if ao_client_order_id oc = None then MANUAL_ORDER_LABEL else ''''), sf_order_id = ao_order oc,
      sf_stop_loss = Option.bind pos rp_stop_loss, sf_take_profit = Option.bind pos rp_take_profit\<rparr>"

definition opposite_copy_note :: "ident \<Rightarrow> ident \<Rightarrow> ident \<Rightarrow> ack_outcome \<Rightarrow> report_deal option \<Rightarrow> bridge \<Rightarrow> bridge" where
  "opposite_copy_note org_id account_id ticket oc deal b =
     (case deal of
        Some d \<Rightarrow>
          if ao_client_order_id oc \<noteq> None \<and> ao_client_order_id oc \<noteq> Some '''' \<and> rd_entry d \<in> set CLOSE_ENTRIES
          then br_log ''slave_action'' ''info''
            [(''action'', JStr ''mt5_netting_opposite_copy''), (''client_order_id'', jstr (ao_client_order_id oc)),
             (''position'', JInt ticket), (''entry'', JStr (rd_entry d)), (''volume'', JInt (or_zero (ao_volume oc))),
             (''nets_against'', JList (map JInt (copies_sharing org_id account_id ticket (ao_client_order_id oc) b)))]
            (Some account_id) org_id b
          else b
      | None \<Rightarrow> b)"

definition opened_outcome ::
  "service_env \<Rightarrow> ident \<Rightarrow> ident \<Rightarrow> ack_outcome \<Rightarrow> bool \<Rightarrow> report_deal option \<Rightarrow> int \<Rightarrow> bridge \<Rightarrow> bridge" where
  "opened_outcome env org_id account_id oc netting deal now b =
     (let ticket = ticket_or (ao_position oc) (map_option rd_position deal) in
      if \<not> truthy ticket
      then br_log ''slave_action'' ''warning''
        [(''action'', JStr ''mt5_open_ack_without_position''), (''command_id'', JInt (ao_command_id oc)),
         (''deal'', jint (ao_deal oc))] (Some account_id) org_id b
      else let t = the ticket;
               pos = position_of account_id t (br_registry b);
               b1 = on_service (handle_slave_fill env org_id (open_fill account_id t oc pos) now) b
           in if netting
              then record_netting_override org_id account_id t (ao_client_order_id oc)
                     (opposite_copy_note org_id account_id t oc deal b1)
              else b1)"

definition closed_outcome ::
  "service_env \<Rightarrow> ident \<Rightarrow> ident \<Rightarrow> ack_outcome \<Rightarrow> report_deal option \<Rightarrow> int \<Rightarrow> bridge \<Rightarrow> bridge" where
  "closed_outcome env org_id account_id oc deal now =
     on_service (handle_slave_fill env org_id
       \<lparr>sf_account_id = account_id, sf_client_order_id = ao_client_order_id oc,
        sf_position_id = or_zero (ticket_or (ao_position oc) (map_option rd_position deal)),
        sf_filled_volume = or_zero (ao_volume oc), sf_fill_price = ao_price oc,
        sf_closed_volume = Some (or_zero (ao_volume oc)), sf_label = '''', sf_order_id = None,
        sf_stop_loss = None, sf_take_profit = None\<rparr> now)"

definition receipt_outcome :: "ident \<Rightarrow> ident \<Rightarrow> ack_outcome \<Rightarrow> bool \<Rightarrow> bridge \<Rightarrow> bridge" where
  "receipt_outcome org_id account_id oc netting b =
     (let b1 = br_log ''slave_action'' ''info''
            [(''action'', JStr (''mt5_'' @ ao_kind oc @ ''_done'')), (''command_id'', JInt (ao_command_id oc)),
             (''position'', jint (ao_position oc)), (''order'', jint (ao_order oc))] (Some account_id) org_id b
      in case ao_position oc of
           Some p \<Rightarrow> if netting \<and> ao_kind oc = ''amend'' then record_netting_override org_id account_id p None b1 else b1
         | None \<Rightarrow> b1)"

definition apply_mt5_outcome ::
  "service_env \<Rightarrow> ident \<Rightarrow> ident \<Rightarrow> bool \<Rightarrow> (ident, report_deal) dict \<Rightarrow> int \<Rightarrow> ack_outcome \<Rightarrow> bridge \<Rightarrow> bridge" where
  "apply_mt5_outcome env org_id account_id netting deals_by_ticket now oc b =
     (let deal = (if truthy (ao_deal oc) then map_of deals_by_ticket (the (ao_deal oc)) else None) in
      if \<not> ao_ok oc then rejected_outcome org_id account_id oc now b
      else let b1 =
        (if ao_kind oc = ''open'' then opened_outcome env org_id account_id oc netting deal now b
         else if ao_kind oc = ''close'' \<and> ao_client_order_id oc \<noteq> None \<and> ao_client_order_id oc \<noteq> Some ''''
         then closed_outcome env org_id account_id oc deal now b
         else if ao_kind oc = ''place_pending''
         then (case ao_order oc of
                 Some w \<Rightarrow> on_service (handle_slave_order_accepted org_id account_id (ao_client_order_id oc) w now) b
               | None \<Rightarrow> on_service (accepted_without_order org_id account_id (ao_client_order_id oc) now) b)
         else if ao_kind oc = ''cancel_pending'' \<and> ao_order oc \<noteq> None
         then on_service (handle_slave_order_cancelled org_id account_id (the (ao_order oc)) now) b
         else receipt_outcome org_id account_id oc netting b)
      in clear_and_log ''slave_action''
           [(''action'', JStr ''degraded_cleared''), (''reason'', JStr ''terminal executed a command'')] account_id org_id b1)"

section \<open>Deals\<close>

text \<open>The events of a master's report, each acted on; what one raises is logged and the next goes on.\<close>

definition act_and_log ::
  "service_env \<Rightarrow> org_routing \<Rightarrow> ident \<Rightarrow> ident \<Rightarrow> int \<Rightarrow> int \<Rightarrow> master_event \<Rightarrow> service \<Rightarrow> service" where
  "act_and_log env routing org_id account_id latency_ms now ev s =
     (case act_on_master_event env routing org_id account_id ev ''mt5'' latency_ms now s of
        (Inr _, s1) \<Rightarrow> s1
      | (Inl x, s1) \<Rightarrow> on_db (log_event ''connection'' ''error''
          [(''action'', JStr ''event_processing_failed''), (''account_id'', JInt account_id),
           (''error'', JExc x), (''error_type'', JExc x)] None None (Some org_id) None) s1)"

definition stamp_deal :: "ident \<Rightarrow> bool \<Rightarrow> int \<Rightarrow> report_deal \<Rightarrow> service \<Rightarrow> service" where
  "stamp_deal org_id netting now d s =
     (if rd_deal_type d \<notin> set TRADE_TYPES then s
      else if netting \<and> (rd_entry d = ''IN'' \<or> rd_entry d = ''INOUT'')
      then on_db (record_master_fill org_id (rd_ticket d) (Some (rd_price d)) (Some (rd_time_ms d)) now) s
      else if \<not> netting \<and> rd_entry d = ''IN''
      then on_db (record_master_fill org_id (rd_position d) (Some (rd_price d)) (Some (rd_time_ms d)) now) s
      else s)"

definition mt5_master_events ::
  "service_env \<Rightarrow> org_routing \<Rightarrow> ident \<Rightarrow> ident \<Rightarrow> sync_report \<Rightarrow> book option \<Rightarrow> bool \<Rightarrow> int \<Rightarrow> int \<Rightarrow> bridge \<Rightarrow> bridge" where
  "mt5_master_events env routing account_id org_id report previous netting latency_ms now b =
     (let (al, b1) = mt5_aliases account_id b;
          reverse_al = dict_of (map (\<lambda>(c, n). (n, c)) al);
          (symbols, reg1) = symbols_by_name account_id (br_tables b1) (br_registry b1);
          (ledger, reg2) = (if netting
             then let (l, r) = net_ledger_of account_id (br_tables b1) reg1 in (Some l, r) else (None, reg1));
          (evs, ledger') = master_events_from_report report previous reverse_al symbols ledger;
          reg3 = (case ledger' of
             Some l \<Rightarrow> put_state account_id ((state_of account_id None reg2)\<lparr>as_ledger := Some l\<rparr>) reg2 | None \<Rightarrow> reg2);
          s1 = fold (act_and_log env routing org_id account_id latency_ms now) evs (br_service b1);
          s2 = fold (stamp_deal org_id netting now) (sr_deals report) s1
      in b1\<lparr>br_service := s2, br_registry := reg3\<rparr>)"

definition persist_net_ledger :: "ident \<Rightarrow> int \<Rightarrow> bridge \<Rightarrow> bridge" where
  "persist_net_ledger account_id now b =
     (let (l, reg1) = net_ledger_of account_id (br_tables b) (br_registry b);
          ((upserts, deleted), _) = dirty_rows l;
          (l', tab) = persist_ledger account_id l (mt_ledger (br_tables b));
          reg2 = put_state account_id ((state_of account_id None reg1)\<lparr>as_ledger := Some l'\<rparr>) reg1;
          t1 = (br_tables b)\<lparr>mt_ledger := tab\<rparr>;
          (reg3, t2) = (if upserts \<noteq> [] \<or> deleted \<noteq> []
             then persist_virtual_positions account_id (br_db b) now (reg2, t1) else (reg2, t1))
      in b\<lparr>br_registry := reg3, br_tables := t2\<rparr>)"

text \<open>A follower's deal that no acknowledgement settled.\<close>

definition deal_fill :: "ident \<Rightarrow> report_deal \<Rightarrow> int option \<Rightarrow> report_position option \<Rightarrow> slave_fill" where
  "deal_fill account_id d closed_volume pos =
     \<lparr>sf_account_id = account_id, sf_client_order_id = None, sf_position_id = rd_position d,
      sf_filled_volume = rd_volume d, sf_fill_price = Some (rd_price d), sf_closed_volume = closed_volume,
      sf_label = (if closed_volume = None \<and> rd_comment d = MANUAL_ORDER_LABEL then MANUAL_ORDER_LABEL else ''''),
      sf_order_id = nonzero (rd_order d), sf_stop_loss = Option.bind pos rp_stop_loss,
      sf_take_profit = Option.bind pos rp_take_profit\<rparr>"

definition log_reduced :: "ident \<Rightarrow> ident \<Rightarrow> ident \<Rightarrow> touched_row \<Rightarrow> service \<Rightarrow> service" where
  "log_reduced org_id account_id position row = log_slave ''info'' account_id org_id
     [(''action'', JStr ''position_closed''), (''slave_position_id'', JInt position),
      (''client_order_id'', jstr (t_coid row)), (''closed_volume'', JInt (t_closed_volume row))]"

definition fifo_close :: "ident \<Rightarrow> ident \<Rightarrow> report_deal \<Rightarrow> int \<Rightarrow> service \<Rightarrow> service" where
  "fifo_close org_id account_id d now s =
     (let (touched, db1) = reduce_position_mappings_fifo account_id (rd_position d) (rd_volume d) now (sv_db s)
      in fold (log_reduced org_id account_id (rd_position d)) touched (on_db (\<lambda>_. db1) s))"

definition slave_deal ::
  "service_env \<Rightarrow> ident \<Rightarrow> ident \<Rightarrow> bool \<Rightarrow> ident list \<Rightarrow> registry \<Rightarrow> int \<Rightarrow> report_deal \<Rightarrow> ident list \<times> service \<Rightarrow> ident list \<times> service" where
  "slave_deal env org_id account_id netting mapped reg now d ss =
     (let (settled, s) = ss in
      if rd_deal_type d \<notin> set TRADE_TYPES then (settled, s)
      else if rd_ticket d \<in> set settled then (filter (\<lambda>t. t \<noteq> rd_ticket d) settled, s)
      else if rd_entry d = ''IN''
      then if rd_position d \<in> set mapped then (settled, s)
           else (settled, handle_slave_fill env org_id (deal_fill account_id d None (position_of account_id (rd_position d) reg)) now s)
      else if rd_entry d \<in> set CLOSE_ENTRIES
      then if netting then (settled, fifo_close org_id account_id d now s)
           else (settled, handle_slave_fill env org_id (deal_fill account_id d (Some (rd_volume d)) None) now s)
      else (settled, s))"

text \<open>The tickets a batch of outcomes settles, and the positions not to take for new fills.\<close>

definition settled_by :: "ack_outcome list \<Rightarrow> ident list" where
  "settled_by ocs = map (\<lambda>oc. the (ao_deal oc)) (filter (\<lambda>oc. ao_ok oc \<and> truthy (ao_deal oc) \<and>
     ao_client_order_id oc \<noteq> None \<and> ao_client_order_id oc \<noteq> Some '''' \<and> (ao_kind oc = ''open'' \<or> ao_kind oc = ''close'')) ocs)"

definition mapped_positions :: "ident \<Rightarrow> ident \<Rightarrow> ack_outcome list \<Rightarrow> db \<Rightarrow> ident list" where
  "mapped_positions org_id account_id ocs d =
     map (\<lambda>m. the (m_slave_position m)) (filter (\<lambda>m. m_slave_account m = account_id \<and> truthy (m_slave_position m)) (mapping_rows (Some org_id) d))
     @ map (\<lambda>oc. the (ao_position oc)) (filter (\<lambda>oc. ao_ok oc \<and> ao_kind oc = ''open'' \<and> truthy (ao_position oc)) ocs)"

definition mt5_slave_deals ::
  "service_env \<Rightarrow> ident \<Rightarrow> ident \<Rightarrow> report_deal list \<Rightarrow> ack_outcome list \<Rightarrow> bool \<Rightarrow> int \<Rightarrow> bridge \<Rightarrow> bridge" where
  "mt5_slave_deals env org_id account_id deals ocs netting now b =
     (let before = (case map_of (br_settled b) account_id of Some ts \<Rightarrow> ts | None \<Rightarrow> []);
          mapped = mapped_positions org_id account_id ocs (br_db b);
          (settled, s1) = fold (slave_deal env org_id account_id netting mapped (br_registry b) now) deals
                            (before @ settled_by ocs, br_service b)
      in b\<lparr>br_service := s1, br_settled := AList.update account_id settled (br_settled b)\<rparr>)"

section \<open>A poll\<close>

definition touch_link :: "ident \<Rightarrow> sync_report \<Rightarrow> rat \<Rightarrow> bridge \<Rightarrow> bridge" where
  "touch_link account_id report now b =
     (if (case map_of (br_last_touch b) account_id of None \<Rightarrow> True | Some l \<Rightarrow> MT5_LINK_TOUCH_INTERVAL_S \<le> fl (now - l))
      then b\<lparr>br_tables := touch_mt5_link account_id (sr_balance report) (sr_equity report) now (br_tables b),
             br_last_touch := AList.update account_id now (br_last_touch b)\<rparr>
      else b)"

definition ingest_deals :: "ident \<Rightarrow> ident \<Rightarrow> sync_report \<Rightarrow> sync_report option \<Rightarrow> bridge \<Rightarrow> report_deal list \<times> bridge" where
  "ingest_deals account_id org_id report previous_report b =
     (if fresh_deals account_id report (mt_deals (br_tables b)) = [] then ([], b)
      else let (symbols, reg1) = symbols_by_name account_id (br_tables b) (br_registry b);
               (fresh, ds) = ingest_mt5_deals account_id org_id symbols previous_report report (mt_deals (br_tables b))
           in (fresh, b\<lparr>br_registry := reg1, br_tables := (br_tables b)\<lparr>mt_deals := ds\<rparr>\<rparr>))"

definition sync_deals ::
  "service_env \<Rightarrow> org_routing \<Rightarrow> account_row \<Rightarrow> sync_report \<Rightarrow> book option \<Rightarrow> sync_report option \<Rightarrow> bool \<Rightarrow> ack_outcome list \<Rightarrow>
   int \<Rightarrow> int \<Rightarrow> bridge \<Rightarrow> report_deal list \<times> bridge" where
  "sync_deals env routing account report previous previous_report netting ocs latency_ms now b =
     (let account_id = a_account_id account; org_id = a_org_id account;
          is_master = (map_of (master_by_org routing) org_id = Some account_id);
          (fresh, b1) = ingest_deals account_id org_id report previous_report b
      in (fresh,
          if is_master
          then let b2 = mt5_master_events env routing account_id org_id (report\<lparr>sr_deals := fresh\<rparr>) previous netting latency_ms now b1
               in if netting then persist_net_ledger account_id now b2 else b2
          else if a_role account = slave \<and> (fresh \<noteq> [] \<or> ocs \<noteq> [])
          then mt5_slave_deals env org_id account_id fresh ocs netting now b1
          else b1))"

definition mt5_sync ::
  "service_env \<Rightarrow> org_routing \<Rightarrow> ident \<Rightarrow> sync_report res \<Rightarrow> rat \<Rightarrow> int \<Rightarrow> int \<Rightarrow> bridge \<Rightarrow> sync_response res \<times> bridge" where
  "mt5_sync env routing account_id parsed now latency_ms db_now b =
     (case account_row_of account_id b of
        None \<Rightarrow> (Inr (STOP ''account removed''), b)
      | Some account \<Rightarrow>
          if a_platform account \<noteq> mt5 then (Inr (STOP ''account removed''), b)
          else case parsed of
            Inl x \<Rightarrow> (Inl x, b)
          | Inr report \<Rightarrow>
              let org_id = a_org_id account;
                  (mode, reg1) = margin_mode account_id (br_tables b) (br_registry b);
                  netting = (mode = Some ''netting'');
                  is_master = (map_of (master_by_org routing) org_id = Some account_id);
                  was_online = is_online account_id now reg1;
                  (previous, reg2) = snapshot account_id False False (br_db b) (br_tables b) reg1;
                  previous_report = report_of account_id reg2;
                  (reg3, t1) = update_from_sync account_id org_id report now (\<not> (netting \<and> is_master)) (br_db b) db_now (reg2, br_tables b);
                  b1 = touch_link account_id report now (b\<lparr>br_registry := reg3, br_tables := t1\<rparr>);
                  b2 = (if was_online then b1 else mt5_back_online account_id org_id b1);
                  (ocs, d) = apply_acks account_id now (sr_acks report) (br_db b2);
                  deals_by_ticket = dict_of (map (\<lambda>d. (rd_ticket d, d)) (sr_deals report));
                  b3 = fold (apply_mt5_outcome env org_id account_id netting deals_by_ticket db_now) ocs (on_br_db (\<lambda>_. d) b2);
                  (fresh, b4) = sync_deals env routing account report previous previous_report netting ocs latency_ms db_now b3;
                  (cmds, d') = deliverable account_id now db_now (br_db b4);
                  b5 = on_br_db (\<lambda>_. d') b4;
                  b6 = (if fresh \<noteq> [] \<or> ocs \<noteq> [] then b5\<lparr>br_resyncs := br_resyncs b5 @ [org_id]\<rparr> else b5)
              in (Inr (OK_COMMANDS cmds), b6))"

section \<open>Hello\<close>

definition canonical_names_for ::
  "org_routing \<Rightarrow> (ident, (ident, symbol_info) dict) dict \<Rightarrow> account_row \<Rightarrow> mt5_tables \<Rightarrow> string list" where
  "canonical_names_for routing symbols_by_org account t =
     (let org_id = a_org_id account in
      case map_of (master_by_org routing) org_id of
        Some m \<Rightarrow>
          if m \<noteq> a_account_id account
          then let names = map (si_name \<circ> snd) (case map_of symbols_by_org org_id of Some d \<Rightarrow> d | None \<Rightarrow> [])
               in sort (remdups (if names = [] then map fst (load_symbol_cache m t) else names))
          else sort (remdups (concat (map (\<lambda>s. if map_of (platform_by_account routing) (sc_account_id s) = Some mt5 then []
                  else map fst (sc_symbols s)) (slaves_of routing org_id))))
      | None \<Rightarrow> sort (remdups (concat (map (\<lambda>s. if map_of (platform_by_account routing) (sc_account_id s) = Some mt5 then []
                  else map fst (sc_symbols s)) (slaves_of routing org_id)))))"

definition auto_match_aliases ::
  "org_routing \<Rightarrow> (ident, (ident, symbol_info) dict) dict \<Rightarrow> account_row \<Rightarrow> bridge \<Rightarrow> bridge" where
  "auto_match_aliases routing symbols_by_org account b =
     (let account_id = a_account_id account;
          names = canonical_names_for routing symbols_by_org account (br_tables b);
          (symbols, reg1) = symbols_by_name account_id (br_tables b) (br_registry b);
          t1 = (if names = [] then br_tables b
                else (br_tables b)\<lparr>mt_aliases := save_symbol_aliases account_id (auto_match names (map fst symbols)) ''auto''
                       (mt_aliases (br_tables b))\<rparr>)
      in b\<lparr>br_registry := reg1, br_tables := t1, br_aliases := AList.delete account_id (br_aliases b)\<rparr>)"

text \<open>
  The response carries the watermark. The second component of the state is
  \<^verbatim>\<open>master_symbols_by_org\<close>; invalidating the routing cache is the cache's own operation.
\<close>

definition mt5_hello ::
  "org_routing \<Rightarrow> ident \<Rightarrow> hello_report res \<Rightarrow> rat \<Rightarrow> bridge \<times> (ident, (ident, symbol_info) dict) dict \<Rightarrow>
   ident res \<times> bridge \<times> (ident, (ident, symbol_info) dict) dict" where
  "mt5_hello routing account_id parsed now bs =
     (let (b, symbols_by_org) = bs in
      case account_row_of account_id b of
        None \<Rightarrow> (Inl (ValueError (''account '' @ str_int account_id @ '' is not an MT5 account'')), bs)
      | Some account \<Rightarrow>
          if a_platform account \<noteq> mt5
          then (Inl (ValueError (''account '' @ str_int account_id @ '' is not an MT5 account'')), bs)
          else case parsed of
            Inl x \<Rightarrow> (Inl x, bs)
          | Inr hello \<Rightarrow>
              let org_id = a_org_id account;
                  (reg1, t1) = update_from_hello account_id org_id hello now (br_registry b, br_tables b);
                  b1 = b\<lparr>br_registry := reg1, br_tables := t1\<rparr>;
                  (b2, by_org) = (if hr_chunk hello < hr_chunks hello then (b1, symbols_by_org)
                    else let ba = on_br_db (set_trader_login account_id (hr_login hello))
                                    (b1\<lparr>br_tables := upsert_mt5_link_hello account_id hello (br_tables b1)\<rparr>);
                             bb = auto_match_aliases routing symbols_by_org account ba;
                             (syms, reg2) = symbols_by_name account_id (br_tables bb) (br_registry bb);
                             bo = (if a_role account = master
                                   then AList.update org_id (dict_of (map (\<lambda>(_, i). (si_symbol_id i, i)) syms)) symbols_by_org
                                   else symbols_by_org);
                             bc = clear_and_log ''slave_action'' [(''action'', JStr ''degraded_cleared''),
                                    (''reason'', JStr ''terminal reconnected'')] account_id org_id (bb\<lparr>br_registry := reg2\<rparr>)
                         in (br_log ''connection'' ''info''
                               [(''action'', JStr ''mt5_hello''), (''login'', JInt (hr_login hello)), (''broker'', JStr (hr_broker hello)),
                                (''server'', JStr (hr_server hello)), (''hedging'', JBool (hr_hedging hello)),
                                (''ea_version'', JStr (hr_ea_version hello)), (''symbols'', JInt (int (length syms)))]
                               (Some account_id) org_id bc, bo))
              in (Inr (fst (mt5_watermark account_id (mt_deals (br_tables b2)))), b2, by_org))"

section \<open>Silent terminals\<close>

text \<open>
  \<^verbatim>\<open>datetime.fromtimestamp(t, tz=utc).isoformat(timespec='seconds')\<close>: rounded to
  microseconds, cut to seconds, in the proleptic Gregorian calendar.
\<close>

definition civil_of_days :: "int \<Rightarrow> int \<times> int \<times> int" where
  "civil_of_days days =
     (let z = days + 719468; era = z div 146097; doe = z mod 146097;
          yoe = (doe - doe div 1460 + doe div 36524 - doe div 146096) div 365;
          doy = doe - (365 * yoe + yoe div 4 - yoe div 100);
          mp = (5 * doy + 2) div 153; m = (if mp < 10 then mp + 3 else mp - 9)
      in (yoe + era * 400 + (if m \<le> 2 then 1 else 0), m, doy - (153 * mp + 2) div 5 + 1))"

definition two_digits :: "int \<Rightarrow> string" where
  "two_digits n = (if n < 10 then ''0'' @ str_int n else str_int n)"

definition iso_seconds :: "rat \<Rightarrow> string" where
  "iso_seconds t =
     (let secs = round_half_even (t * 1000000) div 1000000; (y, m, d) = civil_of_days (secs div 86400); r = secs mod 86400
      in replicate (4 - length (str_int y)) (CHR ''0'') @ str_int y @ ''-'' @ two_digits m @ ''-'' @ two_digits d @ ''T'' @
         two_digits (r div 3600) @ '':'' @ two_digits (r mod 3600 div 60) @ '':'' @ two_digits (r mod 60) @ ''+00:00'')"

definition offline_error :: "json option \<Rightarrow> bool" where
  "offline_error e = (case e of Some (JStr s) \<Rightarrow> startswith s ''terminal offline'' | _ \<Rightarrow> False)"

definition mark_offline :: "rat \<Rightarrow> account_row \<Rightarrow> bridge \<Rightarrow> bridge" where
  "mark_offline now account b =
     (if a_platform account \<noteq> mt5 \<or> a_status account = Paused then b
      else case last_seen (a_account_id account) (br_registry b) of
        None \<Rightarrow> b
      | Some l \<Rightarrow>
          if is_online (a_account_id account) now (br_registry b) then b
          else if a_status account = Degraded \<and> offline_error (a_last_error account) then b
          else br_log ''connection'' ''warning'' [(''action'', JStr ''mt5_offline''), (''since'', JStr (iso_seconds l))]
                 (Some (a_account_id account)) (a_org_id account)
                 (on_br_db (set_account_status (a_account_id account) Degraded
                    (Some (JStr (''terminal offline since '' @ iso_seconds l)))) b))"

definition check_mt5_offline :: "rat \<Rightarrow> bridge \<Rightarrow> bridge" where
  "check_mt5_offline now b = fold (mark_offline now) (db_accounts (br_db b)) b"

section \<open>What the rest of the copier asks the bridge\<close>

definition mt5_targets_of :: "org_routing \<Rightarrow> ident \<Rightarrow> (ident, string) dict option" where
  "mt5_targets_of routing account_id =
     (if map_of (platform_by_account routing) account_id \<noteq> Some mt5 then None
      else Some (case find (\<lambda>s. sc_account_id s = account_id) (concat (map snd (slaves_by_org routing))) of
                   Some s \<Rightarrow> dict_of (map (\<lambda>(_, i). (si_symbol_id i, si_name i)) (sc_symbols s))
                 | None \<Rightarrow> []))"

definition mt5_snapshot_for :: "org_routing \<Rightarrow> ident \<Rightarrow> bridge \<Rightarrow> book option \<times> bridge" where
  "mt5_snapshot_for routing account_id b =
     (if map_of (platform_by_account routing) account_id \<noteq> Some mt5 then (None, b)
      else let is_master = (case map_of (org_by_account routing) account_id of
                              Some g \<Rightarrow> map_of (master_by_org routing) g = Some account_id | None \<Rightarrow> False);
               (virtual, reg1) = (if is_master
                 then let (m, r) = margin_mode account_id (br_tables b) (br_registry b) in (m = Some ''netting'', r)
                 else (False, br_registry b));
               (bk, reg2) = snapshot account_id True virtual (br_db b) (br_tables b) reg1
           in (Some (case bk of Some x \<Rightarrow> x | None \<Rightarrow> ([], [])), b\<lparr>br_registry := reg2\<rparr>))"

end
