(* ===== verification/Mt5_Bridge_Laws.thy ===== *)
theory Mt5_Bridge_Laws
  imports Mt5_Bridge Service_Guarantees
begin

text \<open>
  What the bridge guarantees across polls: a deal that an acknowledgement already settled is not booked
  again, and a poll that a terminal repeats because the answer was lost does nothing but hand over the
  commands that are due.
\<close>

section \<open>Deals that were acknowledged\<close>

lemma slave_deal_settled:
  "rd_ticket d \<in> set S \<Longrightarrow> rd_deal_type d \<in> set TRADE_TYPES \<Longrightarrow>
   slave_deal env g a n mp reg now d (S, s) = (filter (\<lambda>t. t \<noteq> rd_ticket d) S, s)"
  by (simp add: slave_deal_def)

lemma slave_deal_unsettled:
  "rd_ticket d \<notin> set S \<Longrightarrow> slave_deal env g a n mp reg now d (S, s) = (S, snd (slave_deal env g a n mp reg now d ([], s)))"
  by (simp add: slave_deal_def)

lemma slave_deal_no_trade:
  "rd_deal_type d \<notin> set TRADE_TYPES \<Longrightarrow> slave_deal env g a n mp reg now d (S, s) = (S, s)"
  by (simp add: slave_deal_def)

lemma slave_deals_skip:
  assumes "distinct (map rd_ticket ds)"
  shows "snd (fold (slave_deal env g a n mp reg now) ds (S, s)) =
      snd (fold (slave_deal env g a n mp reg now) (filter (\<lambda>d. rd_ticket d \<notin> set S) ds) ([], s))"
    and "set (fst (fold (slave_deal env g a n mp reg now) ds (S, s))) =
      set S - rd_ticket ` {d \<in> set ds. rd_deal_type d \<in> set TRADE_TYPES}"
proof -
  let ?f = "slave_deal env g a n mp reg now"
  have "snd (fold ?f ds (S, s)) = snd (fold ?f (filter (\<lambda>d. rd_ticket d \<notin> set S) ds) ([], s)) \<and>
    set (fst (fold ?f ds (S, s))) = set S - rd_ticket ` {d \<in> set ds. rd_deal_type d \<in> set TRADE_TYPES}"
    using assms
  proof (induction ds arbitrary: S s)
    case (Cons d ds)
    have new: "rd_ticket e \<noteq> rd_ticket d" if "e \<in> set ds" for e using Cons.prems that by (rule key_of_rest)
    consider (plain) "rd_deal_type d \<notin> set TRADE_TYPES"
      | (settled) "rd_ticket d \<in> set S" "rd_deal_type d \<in> set TRADE_TYPES"
      | (booked) "rd_ticket d \<notin> set S" "rd_deal_type d \<in> set TRADE_TYPES" by blast
    then show ?case
    proof cases
      case plain
      have "fold ?f (filter (\<lambda>e. rd_ticket e \<notin> set S) (d # ds)) ([], s) = fold ?f (filter (\<lambda>e. rd_ticket e \<notin> set S) ds) ([], s)"
        using plain by (simp add: slave_deal_no_trade)
      moreover have "{e \<in> set (d # ds). rd_deal_type e \<in> set TRADE_TYPES} = {e \<in> set ds. rd_deal_type e \<in> set TRADE_TYPES}"
        using plain by auto
      ultimately show ?thesis using Cons plain by (simp add: slave_deal_no_trade)
    next
      case settled
      let ?S = "filter (\<lambda>t. t \<noteq> rd_ticket d) S"
      have keep: "filter (\<lambda>e. rd_ticket e \<notin> set ?S) ds = filter (\<lambda>e. rd_ticket e \<notin> set S) ds"
        using new by (intro filter_cong) auto
      have all: "{e \<in> set (d # ds). rd_deal_type e \<in> set TRADE_TYPES} = insert d {e \<in> set ds. rd_deal_type e \<in> set TRADE_TYPES}"
        using settled by auto
      have first: "fold ?f (d # ds) (S, s) = fold ?f ds (?S, s)" using settled by (simp add: slave_deal_settled)
      have rest: "filter (\<lambda>e. rd_ticket e \<notin> set S) (d # ds) = filter (\<lambda>e. rd_ticket e \<notin> set S) ds" using settled by simp
      have "distinct (map rd_ticket ds)" using Cons.prems by simp
      from Cons.IH [OF this, of ?S s] show ?thesis unfolding first rest all keep by (simp add: set_diff_eq)
    next
      case booked
      define s1 where "s1 = snd (?f d ([], s))"
      have one: "?f d (S, s) = (S, s1)" unfolding s1_def using booked(1) by (rule slave_deal_unsettled)
      have two: "?f d ([], s) = ([], s1)" unfolding s1_def by (rule slave_deal_unsettled) simp
      have gone: "set S - rd_ticket ` {e \<in> set (d # ds). rd_deal_type e \<in> set TRADE_TYPES} =
          set S - rd_ticket ` {e \<in> set ds. rd_deal_type e \<in> set TRADE_TYPES}" using booked by auto
      have "distinct (map rd_ticket ds)" using Cons.prems by simp
      from Cons.IH [OF this, of S s1] show ?thesis unfolding gone using booked by (simp add: one two)
    qed
  qed simp
  then show "snd (fold ?f ds (S, s)) = snd (fold ?f (filter (\<lambda>d. rd_ticket d \<notin> set S) ds) ([], s))"
    "set (fst (fold ?f ds (S, s))) = set S - rd_ticket ` {d \<in> set ds. rd_deal_type d \<in> set TRADE_TYPES}" by auto
qed

definition remembered :: "ident \<Rightarrow> bridge \<Rightarrow> ident list" where
  "remembered a b = (case map_of (br_settled b) a of Some ts \<Rightarrow> ts | None \<Rightarrow> [])"


definition witness_bridge :: bridge where
  "witness_bridge = \<lparr>br_service = \<lparr>sv_engine = \<lparr>eng_db = empty_db, eng_tasks = []\<rparr>, sv_protection = [],
       sv_checks = [], sv_captures = [], sv_amends = [], sv_notified = []\<rparr>,
     br_tables = \<lparr>mt_links = [], mt_symbol_cache = [], mt_aliases = [], mt_ledger = [], mt_positions = [],
       mt_deals = \<lparr>ds_deals = [], ds_watermark = [], ds_backfill = []\<rparr>\<rparr>,
     br_registry = [], br_last_touch = [], br_settled = [(7, [50])], br_aliases = [], br_resyncs = []\<rparr>"


section \<open>What a registry keeps of an account\<close>

text \<open>Loading symbols or the ledger on first use leaves the rest of the account's state alone.\<close>

definition core :: "account_state \<Rightarrow> account_state" where
  "core st = st\<lparr>as_symbols := None, as_ledger := None\<rparr>"

lemma core_fields:
  "core st' = core st \<Longrightarrow> as_report st' = as_report st \<and> as_last_seen st' = as_last_seen st \<and>
     as_signature st' = as_signature st \<and> as_hedging st' = as_hedging st \<and> as_hedging_loaded st' = as_hedging_loaded st"
  by (cases st; cases st') (simp add: core_def)

lemma core_update [simp]: "core (st\<lparr>as_symbols := x\<rparr>) = core st" "core (st\<lparr>as_ledger := y\<rparr>) = core st"
  by (cases st; simp add: core_def)+

definition core_kept :: "ident \<Rightarrow> registry \<Rightarrow> registry \<Rightarrow> bool" where
  "core_kept a reg reg' \<longleftrightarrow> (\<forall>st. map_of reg a = Some st \<longrightarrow> (\<exists>st'. map_of reg' a = Some st' \<and> core st' = core st))"

definition ledger_kept :: "ident \<Rightarrow> registry \<Rightarrow> registry \<Rightarrow> bool" where
  "ledger_kept a reg reg' \<longleftrightarrow> (\<forall>st l. map_of reg a = Some st \<and> as_ledger st = Some l \<longrightarrow>
     (\<exists>st'. map_of reg' a = Some st' \<and> as_ledger st' = Some l))"

lemma core_refl [simp]: "core_kept a reg reg"
  by (simp add: core_kept_def)

lemma core_trans: "core_kept a reg reg' \<Longrightarrow> core_kept a reg' reg'' \<Longrightarrow> core_kept a reg reg''"
  unfolding core_kept_def by metis

lemma ledger_refl [simp]: "ledger_kept a reg reg"
  by (simp add: ledger_kept_def)

lemma ledger_trans: "ledger_kept a reg reg' \<Longrightarrow> ledger_kept a reg' reg'' \<Longrightarrow> ledger_kept a reg reg''"
  unfolding ledger_kept_def by blast

lemma state_of_some: "map_of reg a = Some st \<Longrightarrow> state_of a None reg = st"
  by (simp add: state_of_def)

lemma symbols_kept [simp]:
  "core_kept a reg (snd (symbols_by_name a t reg))" "ledger_kept a reg (snd (symbols_by_name a t reg))"
  by (auto simp: core_kept_def ledger_kept_def symbols_by_name_def Let_def state_of_some)

lemma net_ledger_kept [simp]:
  "core_kept a reg (snd (net_ledger_of a t reg))" "ledger_kept a reg (snd (net_ledger_of a t reg))"
  by (auto simp: core_kept_def ledger_kept_def net_ledger_of_def Let_def state_of_some)

lemma put_ledger_core [simp]: "core_kept a reg (put_state a ((state_of a None reg)\<lparr>as_ledger := x\<rparr>) reg)"
  by (auto simp: core_kept_def state_of_some)

lemma snapshot_kept [simp]:
  "core_kept a reg (snd (snapshot a wl v d t reg))" "ledger_kept a reg (snd (snapshot a wl v d t reg))"
  using core_trans [OF symbols_kept(1) net_ledger_kept(1)] ledger_trans [OF symbols_kept(2) net_ledger_kept(2)]
  by (simp_all add: snapshot_def Let_def case_prod_beta split: option.split)

lemma persist_kept [simp]:
  "core_kept a reg (fst (persist_positions a g ps now (reg, t)))" "ledger_kept a reg (fst (persist_positions a g ps now (reg, t)))"
  by (simp_all add: persist_positions_def Let_def case_prod_beta)

lemma persist_virtual_kept [simp]:
  "core_kept a reg (fst (persist_virtual_positions a d now (reg, t)))"
  "ledger_kept a reg (fst (persist_virtual_positions a d now (reg, t)))"
  using core_trans [OF snapshot_kept(1) persist_kept(1)] ledger_trans [OF snapshot_kept(2) persist_kept(2)]
  by (simp_all add: persist_virtual_positions_def Let_def case_prod_beta split: option.split)

text \<open>The hedging flag: what the state holds of it, and the link row it falls back to.\<close>

definition hedge_part :: "ident \<Rightarrow> registry \<Rightarrow> bool option \<times> bool" where
  "hedge_part a reg = (case map_of reg a of Some st \<Rightarrow> (as_hedging st, as_hedging_loaded st) | None \<Rightarrow> (None, False))"

definition link_hedging :: "ident \<Rightarrow> mt5_tables \<Rightarrow> bool option" where
  "link_hedging a t = Option.bind (load_mt5_link a t) li_hedging"

lemma hedging_value:
  "fst (hedging a t reg) = (if snd (hedge_part a reg) then fst (hedge_part a reg)
     else case link_hedging a t of None \<Rightarrow> fst (hedge_part a reg) | Some h \<Rightarrow> Some h)"
  by (auto simp: hedging_def hedge_part_def link_hedging_def split: option.split)

lemma hedging_again: "link_hedging a t' = link_hedging a t \<Longrightarrow> hedge_part a reg' = hedge_part a (snd (hedging a t reg)) \<Longrightarrow>
   fst (hedging a t' reg') = fst (hedging a t reg)"
  unfolding hedging_value by (auto simp: hedging_def hedge_part_def link_hedging_def split: option.splits)

lemma margin_mode_again: "link_hedging a t' = link_hedging a t \<Longrightarrow> hedge_part a reg' = hedge_part a (snd (margin_mode a t reg)) \<Longrightarrow>
   fst (margin_mode a t' reg') = fst (margin_mode a t reg)"
  using hedging_again [of a t' t reg' reg] by (simp add: margin_mode_def Let_def case_prod_beta)

lemma core_hedge: "core_kept a reg reg' \<Longrightarrow> map_of reg a = Some st \<Longrightarrow> hedge_part a reg' = hedge_part a reg"
  by (auto simp: core_kept_def hedge_part_def dest!: core_fields)

section \<open>Hearing a poll again\<close>

lemma on_br_db_same [simp]: "on_br_db (\<lambda>_. br_db b) b = b"
  by (simp add: on_br_db_def on_db_def with_db_def br_db_def sv_db_def)

lemma on_br_db_fields [simp]:
  "br_tables (on_br_db f b) = br_tables b" "br_registry (on_br_db f b) = br_registry b" "br_settled (on_br_db f b) = br_settled b"
  "br_resyncs (on_br_db f b) = br_resyncs b" "br_db (on_br_db f b) = f (br_db b)" "br_aliases (on_br_db f b) = br_aliases b"
  by (simp_all add: on_br_db_def br_db_def)

lemma touch_link_fields [simp]:
  "br_service (touch_link a r now b) = br_service b" "br_registry (touch_link a r now b) = br_registry b"
  "br_settled (touch_link a r now b) = br_settled b" "br_resyncs (touch_link a r now b) = br_resyncs b"
  "br_db (touch_link a r now b) = br_db b"
  "\<exists>ls. br_tables (touch_link a r now b) = (br_tables b)\<lparr>mt_links := ls\<rparr>"
  by (auto simp: touch_link_def touch_mt5_link_def br_db_def intro: exI [of _ "mt_links (br_tables b)"])

lemma update_again:
  assumes "map_of reg a = Some st" "persist \<longrightarrow> as_signature st = Some (book_signature_of r)"
  shows "update_from_sync a g r now persist d dbn (reg, t) =
    (put_state a (st\<lparr>as_org_id := g, as_report := Some r, as_last_seen := Some now\<rparr>) reg, t)"
  using assms by (simp add: update_from_sync_def state_of_def Let_def)

lemma aliases_fields [simp]:
  "br_service (snd (mt5_aliases a b)) = br_service b" "br_tables (snd (mt5_aliases a b)) = br_tables b"
  "br_registry (snd (mt5_aliases a b)) = br_registry b" "br_settled (snd (mt5_aliases a b)) = br_settled b"
  "br_resyncs (snd (mt5_aliases a b)) = br_resyncs b"
  by (simp_all add: mt5_aliases_def Let_def split: option.split)

lemma master_events_silent:
  fixes env routing a g r sy netting lat now b
  defines "b' \<equiv> mt5_master_events env routing a g (r\<lparr>sr_deals := []\<rparr>) (Some (book_of sy [] r)) netting lat now b"
  assumes "distinct (map rp_ticket (sr_positions r))" "distinct (map ro_ticket (sr_orders r))"
  shows "br_service b' = br_service b \<and> br_tables b' = br_tables b \<and> br_settled b' = br_settled b \<and>
    br_resyncs b' = br_resyncs b \<and> ledger_kept a (br_registry b) (br_registry b')"
proof -
  let ?b1 = "snd (mt5_aliases a b)"
  let ?reg1 = "snd (symbols_by_name a (br_tables ?b1) (br_registry ?b1))"
  let ?l = "fst (net_ledger_of a (br_tables ?b1) ?reg1)" and ?reg2 = "snd (net_ledger_of a (br_tables ?b1) ?reg1)"
  note silent = same_book_silent [OF assms(2,3)]
  have put: "ledger_kept a ?reg1 (put_state a ((state_of a None ?reg2)\<lparr>as_ledger := Some ?l\<rparr>) ?reg2)"
    by (auto simp: ledger_kept_def net_ledger_of_def Let_def state_of_some)
  have "br_registry b' = (if netting then put_state a ((state_of a None ?reg2)\<lparr>as_ledger := Some ?l\<rparr>) ?reg2 else ?reg1)"
    by (simp add: b'_def mt5_master_events_def Let_def case_prod_beta silent)
  then have "ledger_kept a (br_registry b) (br_registry b')"
    using ledger_trans [OF symbols_kept(2) put] by simp
  then show ?thesis by (simp add: b'_def mt5_master_events_def Let_def case_prod_beta silent)
qed

lemma persist_ledger_clean: "nl_dirty l = [] \<Longrightarrow> nl_deleted l = [] \<Longrightarrow> persist_ledger a l tab = (l, tab)"
  by (simp add: persist_ledger_def dirty_rows_def upsert_net_ledger_def delete_net_ledger_def)

lemma persist_clean:
  assumes "map_of (br_registry b) a = Some st" "as_ledger st = Some l" "nl_dirty l = []" "nl_deleted l = []"
  shows "br_service (persist_net_ledger a now b) = br_service b \<and> br_tables (persist_net_ledger a now b) = br_tables b \<and>
    br_settled (persist_net_ledger a now b) = br_settled b \<and> br_resyncs (persist_net_ledger a now b) = br_resyncs b"
proof -
  have l: "fst (net_ledger_of a t (br_registry b)) = l" for t
    using assms(1,2) by (simp add: net_ledger_of_def Let_def state_of_some)
  have d: "dirty_rows l = (([], []), l)" using assms(3,4) by (simp add: dirty_rows_def)
  show ?thesis by (simp add: persist_net_ledger_def case_prod_beta l d persist_ledger_clean assms(3,4))
qed

lemma margin_mode_kept:
  assumes "map_of reg a = Some st"
  shows "\<exists>h k. map_of (snd (margin_mode a t reg)) a = Some (st\<lparr>as_hedging := h, as_hedging_loaded := k\<rparr>)"
proof -
  have same: "\<exists>h k. st = st\<lparr>as_hedging := h, as_hedging_loaded := k\<rparr>"
    by (intro exI [of _ "as_hedging st"] exI [of _ "as_hedging_loaded st"]) simp
  show ?thesis
    using assms same by (cases "as_hedging_loaded st"; cases "Option.bind (load_mt5_link a t) li_hedging")
      (auto simp: margin_mode_def hedging_def)
qed

lemma sync_deals_silent:
  fixes env routing account r sy prev netting lat now b
  defines "b' \<equiv> snd (sync_deals env routing account r (Some (book_of sy [] r)) prev netting [] lat now b)"
    and "a \<equiv> a_account_id account"
  assumes "\<forall>d \<in> set (sr_deals r). rd_ticket d \<le> watermark_of a (mt_deals (br_tables b))"
    and ids: "distinct (map rp_ticket (sr_positions r))" "distinct (map ro_ticket (sr_orders r))"
    and led: "netting \<and> map_of (master_by_org routing) (a_org_id account) = Some a \<Longrightarrow>
      \<exists>st l. map_of (br_registry b) a = Some st \<and> as_ledger st = Some l \<and> nl_dirty l = [] \<and> nl_deleted l = []"
  shows "fst (sync_deals env routing account r (Some (book_of sy [] r)) prev netting [] lat now b) = [] \<and>
    br_service b' = br_service b \<and> br_tables b' = br_tables b \<and> br_settled b' = br_settled b \<and> br_resyncs b' = br_resyncs b"
proof -
  let ?m = "mt5_master_events env routing a (a_org_id account) (r\<lparr>sr_deals := []\<rparr>) (Some (book_of sy [] r)) netting lat now b"
  have none: "ingest_deals a (a_org_id account) r prev b = ([], b)"
    using no_fresh_deals [OF assms(3)] by (simp add: ingest_deals_def)
  note silent = master_events_silent [OF ids, of env routing a "a_org_id account" sy netting lat now b]
  show ?thesis
  proof (cases "netting \<and> map_of (master_by_org routing) (a_org_id account) = Some a")
    case True
    from led [OF this] obtain st l where l: "map_of (br_registry b) a = Some st" "as_ledger st = Some l" "nl_dirty l = []" "nl_deleted l = []"
      by blast
    with silent obtain st' where "map_of (br_registry ?m) a = Some st'" "as_ledger st' = Some l"
      unfolding ledger_kept_def by blast
    from persist_clean [OF this l(3,4), of now] silent show ?thesis
      using True none by (simp add: b'_def a_def sync_deals_def Let_def)
  next
    case False
    then show ?thesis using silent none by (auto simp: b'_def a_def sync_deals_def Let_def)
  qed
qed

lemma second_hearing:
  fixes env routing a r now2 lat dbn b
  defines "D \<equiv> deliverable a now2 dbn (br_db b)"
    and "netting \<equiv> fst (margin_mode a (br_tables b) (br_registry b)) = Some ''netting''"
  assumes acc: "account_row_of a b = Some account" "a_platform account = mt5"
    and st: "map_of (br_registry b) a = Some st" "as_report st = Some r" "as_last_seen st = Some now" "fl (now2 - now) < OFFLINE_AFTER_S"
    and sig: "\<not> (netting \<and> map_of (master_by_org routing) (a_org_id account) = Some a) \<Longrightarrow> as_signature st = Some (book_signature_of r)"
    and led: "netting \<and> map_of (master_by_org routing) (a_org_id account) = Some a \<Longrightarrow>
      \<exists>l. as_ledger st = Some l \<and> nl_dirty l = [] \<and> nl_deleted l = []"
    and acks: "\<forall>k \<in> set (sr_acks r). \<forall>c \<in> set (db_commands (br_db b)). \<not> settles (ak_command_id k) (Some a) c"
    and deals: "\<forall>d \<in> set (sr_deals r). rd_ticket d \<le> watermark_of a (mt_deals (br_tables b))"
    and ids: "distinct (map rp_ticket (sr_positions r))" "distinct (map ro_ticket (sr_orders r))"
  shows "\<exists>b2. mt5_sync env routing a (Inr r) now2 lat dbn b = (Inr (OK_COMMANDS (fst D)), b2) \<and>
    br_service b2 = on_db (\<lambda>_. snd D) (br_service b) \<and> br_settled b2 = br_settled b \<and> br_resyncs b2 = br_resyncs b \<and>
    (br_tables b2)\<lparr>mt_links := mt_links (br_tables b)\<rparr> = br_tables b"
proof -
  let ?g = "a_org_id account" and ?ismaster = "map_of (master_by_org routing) (a_org_id account) = Some a"
  define reg1 where "reg1 = snd (margin_mode a (br_tables b) (br_registry b))"
  from margin_mode_kept [OF st(1)] obtain h k where st1: "map_of reg1 a = Some (st\<lparr>as_hedging := h, as_hedging_loaded := k\<rparr>)"
    unfolding reg1_def by blast
  define sy where "sy = fst (symbols_by_name a (br_tables b) reg1)"
  define reg2 where "reg2 = snd (symbols_by_name a (br_tables b) reg1)"
  obtain st2 where st2: "map_of reg2 a = Some st2" "as_report st2 = Some r" "as_signature st2 = as_signature st" "as_ledger st2 = as_ledger st"
    using st1 st(2) by (auto simp: reg2_def symbols_by_name_def Let_def state_of_some)
  have online: "is_online a now2 reg1" using st1 st(3,4) by (simp add: is_online_def last_seen_def)
  have prev: "snapshot a False False (br_db b) (br_tables b) reg1 = (Some (book_of sy [] r), reg2)"
    using st1 st(2) by (simp add: snapshot_def report_of_def sy_def reg2_def case_prod_beta Let_def)
  define reg3 where "reg3 = put_state a (st2\<lparr>as_org_id := ?g, as_report := Some r, as_last_seen := Some now2\<rparr>) reg2"
  have upd: "update_from_sync a ?g r now2 (\<not> (netting \<and> ?ismaster)) (br_db b) dbn (reg2, br_tables b) = (reg3, br_tables b)"
    unfolding reg3_def by (rule update_again [OF st2(1)]) (use sig st2(3) in auto)
  define b1 where "b1 = touch_link a r now2 (b\<lparr>br_registry := reg3\<rparr>)"
  obtain ls where b1: "br_service b1 = br_service b" "br_registry b1 = reg3" "br_settled b1 = br_settled b" "br_resyncs b1 = br_resyncs b"
    "br_db b1 = br_db b" "br_tables b1 = (br_tables b)\<lparr>mt_links := ls\<rparr>"
    using touch_link_fields [of a r now2 "b\<lparr>br_registry := reg3\<rparr>"] by (auto simp: b1_def br_db_def)
  have ack: "apply_acks a now2 (sr_acks r) (br_db b1) = ([], br_db b1)" unfolding b1(5) by (rule apply_acks_none [OF acks])
  have id: "a_account_id account = a" using acc(1) by (auto simp: account_row_of_def dest: find_SomeD)
  have clean: "\<exists>st l. map_of (br_registry b1) a = Some st \<and> as_ledger st = Some l \<and> nl_dirty l = [] \<and> nl_deleted l = []"
    if "netting \<and> ?ismaster" using led [OF that] st2 unfolding b1(2) reg3_def by auto
  note quiet = sync_deals_silent [of r account b1 netting routing env sy "Some r" lat dbn, unfolded id, OF _ ids clean]
  have rep: "report_of a reg2 = Some r" using st2 by (simp add: report_of_def)
  define b4 where "b4 = snd (sync_deals env routing account r (Some (book_of sy [] r)) (Some r) netting [] lat dbn b1)"
  have b4: "sync_deals env routing account r (Some (book_of sy [] r)) (Some r) netting [] lat dbn b1 = ([], b4)"
    "br_service b4 = br_service b" "br_tables b4 = br_tables b1" "br_settled b4 = br_settled b" "br_resyncs b4 = br_resyncs b"
    using quiet deals b1 by (auto simp: b4_def prod_eq_iff)
  have db4: "br_db b4 = br_db b" using b4(2) by (simp add: br_db_def)
  have "mt5_sync env routing a (Inr r) now2 lat dbn b = (Inr (OK_COMMANDS (fst D)), on_br_db (\<lambda>_. snd D) b4)"
    using acc online prev upd ack b4(1) rep
    by (simp add: mt5_sync_def Let_def case_prod_beta reg1_def [symmetric] netting_def [symmetric] b1_def [symmetric] D_def db4 del: touch_link_fields)
  then show ?thesis using b4 b1 by (intro exI [of _ "on_br_db (\<lambda>_. snd D) b4"]) (simp add: on_br_db_def on_db_def)
qed

section \<open>What the first hearing leaves behind\<close>

text \<open>The command table may only grow by new numbers, apart from acknowledgements and deliveries.\<close>

definition grows :: "db \<Rightarrow> db \<Rightarrow> bool" where
  "grows s t \<longleftrightarrow> (\<exists>new. db_commands t = db_commands s @ new \<and> numbered s t new)"

lemma grows_same: "db_commands t = db_commands s \<Longrightarrow> db_next_command t = db_next_command s \<Longrightarrow> grows s t"
  by (simp add: grows_def numbered_def)

lemma grows_refl [simp]: "grows s s"
  by (rule grows_same) simp_all

lemma grows_trans: "grows s t \<Longrightarrow> grows t u \<Longrightarrow> grows s u"
  unfolding grows_def using numbered_append by (metis append.assoc)

interpretation grow: frame_order "\<lambda>b b'. grows (br_db b) (br_db b')"
  by unfold_locales (simp, rule grows_trans)

interpretation grow_service: frame_order "\<lambda>s s'. grows (sv_db s) (sv_db s')"
  by unfold_locales (simp, rule grows_trans)

lemma within_grows: "sv_within UNIV g s t \<Longrightarrow> grows (sv_db s) (sv_db t)"
  by (auto simp: sv_within_def reach_def grows_def)

lemma grows_inv: "grows s t \<Longrightarrow> command_inv s \<Longrightarrow> command_inv t"
  by (fastforce simp: grows_def numbered_def command_inv_def command_ok_def MAX_ATTEMPTS_def)

lemma grows_settled:
  assumes "grows s t" "i < db_next_command s" "\<forall>c \<in> set (db_commands s). \<not> settles i acc c"
  shows "\<forall>c \<in> set (db_commands t). \<not> settles i acc c"
  using assms by (fastforce simp: grows_def numbered_def settles_def)

lemma deliverable_settled:
  assumes "command_inv s" "deliverable a now n s = (out, t)" "\<forall>c \<in> set (db_commands s). \<not> settles i (Some a) c"
  shows "\<forall>c \<in> set (db_commands t). \<not> settles i (Some a) c"
proof (intro ballI notI)
  from deliverable_parts [OF assms(1,2)] obtain u rows where u: "rows_progress s u" "set rows \<subseteq> set (db_commands u)"
    "\<And>c. c \<in> set rows \<Longrightarrow> c_account c = a \<and> is_open c"
    "t = mark_mt5_commands_sent (map c_id rows) (ts_of now) u" by metis
  fix c assume ct: "c \<in> set (db_commands t)" and c: "settles i (Some a) c"
  from ct obtain d where d: "d \<in> set (db_commands u)" "c_id c = c_id d" "if c_id d \<in> set (map c_id rows) then c_status c = Sent else c = d"
    unfolding u(4) by (rule mark_sent_rows)
  have none: "\<forall>e \<in> set (db_commands u). \<not> settles i (Some a) e" by (rule no_settles_progress [OF u(1) assms(3)])
  show False
  proof (cases "c_id d \<in> set (map c_id rows)")
    case True
    then obtain e where e: "e \<in> set rows" "c_id e = c_id d" by auto
    then have "settles i (Some a) e" using c d(2) u(3) [OF e(1)] by (simp add: settles_def)
    with none e(1) u(2) show False by blast
  qed (use d c none in auto)
qed

text \<open>The bookkeeping of an outcome works on the service alone.\<close>

lemma service_steps_fields [simp]:
  "br_registry (on_service f b) = br_registry b" "br_tables (on_service f b) = br_tables b"
  "br_registry (br_log c sv p x g b) = br_registry b" "br_tables (br_log c sv p x g b) = br_tables b"
  "br_registry (clear_and_log c p a g b) = br_registry b" "br_tables (clear_and_log c p a g b) = br_tables b"
  by (simp_all add: on_service_def br_log_def clear_and_log_def Let_def case_prod_beta)

lemma outcome_parts_fields [simp]:
  "br_registry (record_netting_override g a p x b) = br_registry b" "br_tables (record_netting_override g a p x b) = br_tables b"
  "br_registry (opposite_copy_note g a t oc d b) = br_registry b" "br_tables (opposite_copy_note g a t oc d b) = br_tables b"
  "br_registry (rejected_outcome g a oc now b) = br_registry b" "br_tables (rejected_outcome g a oc now b) = br_tables b"
  "br_registry (closed_outcome env g a oc d now b) = br_registry b" "br_tables (closed_outcome env g a oc d now b) = br_tables b"
  by (simp_all add: record_netting_override_def opposite_copy_note_def rejected_outcome_def closed_outcome_def Let_def
      split: option.split)

lemma outcome_kinds_fields [simp]:
  "br_registry (opened_outcome env g a oc n d now b) = br_registry b" "br_tables (opened_outcome env g a oc n d now b) = br_tables b"
  "br_registry (receipt_outcome g a oc n b) = br_registry b" "br_tables (receipt_outcome g a oc n b) = br_tables b"
  by (simp_all add: opened_outcome_def receipt_outcome_def Let_def split: option.split)

lemma outcome_fields [simp]:
  "br_registry (apply_mt5_outcome env g a n ds now oc b) = br_registry b"
  "br_tables (apply_mt5_outcome env g a n ds now oc b) = br_tables b"
  by (simp_all add: apply_mt5_outcome_def Let_def split: option.split)

lemma outcomes_fields [simp]:
  "br_registry (fold (apply_mt5_outcome env g a n ds now) ocs b) = br_registry b"
  "br_tables (fold (apply_mt5_outcome env g a n ds now) ocs b) = br_tables b"
  by (induction ocs arbitrary: b) simp_all

lemma back_online_fields [simp]:
  "br_registry (mt5_back_online a g b) = br_registry b" "br_tables (mt5_back_online a g b) = br_tables b"
  by (simp_all add: mt5_back_online_def)

lemma grows_log_event [simp]: "grows s (log_event c sv p a l g act t) = grows s t"
  by (simp add: grows_def numbered_def)

lemma log_grows [simp]: "grows (br_db b) (br_db (br_log c sv p x g b))" "grows (br_db b) (br_db (clear_and_log c p a g b))"
proof -
  show "grows (br_db b) (br_db (br_log c sv p x g b))" by (rule grows_same) (simp_all add: br_log_def)
  show "grows (br_db b) (br_db (clear_and_log c p a g b))"
    by (rule grows_same) (simp_all add: clear_and_log_def clear_degraded_def br_log_def Let_def)
qed

lemma on_service_grows: "grows (sv_db s) (sv_db (f s)) \<Longrightarrow> br_service b = s \<Longrightarrow> grows (br_db b) (br_db (on_service f b))"
  by (simp add: on_service_def br_db_def)

lemma handlers_grow:
  "grows (sv_db s) (sv_db (handle_slave_fill env g f now s))"
  "grows (sv_db s) (sv_db (handle_slave_order_accepted g a c q now s))"
  "grows (sv_db s) (sv_db (handle_slave_order_cancelled g a q now s))"
  "grows (sv_db s) (sv_db (handle_slave_rejection g a c reason code now s))"
  "grows (sv_db s) (sv_db (accepted_without_order g a c now s))"
proof -
  show "grows (sv_db s) (sv_db (accepted_without_order g a c now s))"
    by (rule grows_same) (auto simp: accepted_without_order_def update_mappings_def log_slave_def split: sum.splits if_splits)
qed (rule within_grows [of g], simp add: slave_fill_within slave_order_within)+

lemma outcome_grows: "grows (br_db b) (br_db (apply_mt5_outcome env g a n ds now oc b))"
proof -
  have over: "grows (br_db b) (br_db (record_netting_override g a p x b))" for p x b
    by (simp add: record_netting_override_def Let_def)
  have note_grows: "grows (br_db b) (br_db (opposite_copy_note g a t oc d b))" for t d b
    by (simp add: opposite_copy_note_def split: option.split)
  have sv: "grows (br_db b) (br_db (on_service f b))" if "\<And>s. grows (sv_db s) (sv_db (f s))" for f b
    using that by (rule on_service_grows) simp
  have rej: "grows (br_db b) (br_db (rejected_outcome g a oc now b))"
    unfolding rejected_outcome_def Let_def
    by (rule grows_trans [OF sv [OF handlers_grow(4)]]) (rule grows_same, simp_all)
  have opened: "grows (br_db b) (br_db (opened_outcome env g a oc n d now b))" for d
    unfolding opened_outcome_def Let_def
    using grows_trans [OF grows_trans [OF sv [OF handlers_grow(1)] note_grows] over] sv [OF handlers_grow(1)] by auto
  have closed: "grows (br_db b) (br_db (closed_outcome env g a oc d now b))" for d
    unfolding closed_outcome_def by (rule sv) (rule handlers_grow)
  have receipt: "grows (br_db b) (br_db (receipt_outcome g a oc n b))"
    unfolding receipt_outcome_def Let_def using grows_trans [OF log_grows(1) over] by (auto split: option.split)
  let ?d = "if truthy (ao_deal oc) then map_of ds (the (ao_deal oc)) else None"
  show ?thesis
    unfolding apply_mt5_outcome_def Let_def
    using rej grows_trans [OF opened log_grows(2)] grows_trans [OF closed log_grows(2)] grows_trans [OF receipt log_grows(2)]
      grows_trans [OF sv [OF handlers_grow(2)] log_grows(2)] grows_trans [OF sv [OF handlers_grow(3)] log_grows(2)]
      grows_trans [OF sv [OF handlers_grow(5)] log_grows(2)]
    by (auto split: option.split)
qed

lemma outcomes_grow: "grows (br_db b) (br_db (fold (apply_mt5_outcome env g a n ds now) ocs b))"
  by (rule grow.inside_fold) (rule outcome_grows)

lemma fifo_grows: "grows (sv_db s) (sv_db (fifo_close g a d now s))"
proof -
  have log: "db_commands (sv_db (fold (log_reduced g a p) ts s)) = db_commands (sv_db s) \<and>
      db_next_command (sv_db (fold (log_reduced g a p) ts s)) = db_next_command (sv_db s)" for p ts s
    by (induction ts arbitrary: s) (simp_all add: log_reduced_def log_slave_def)
  show ?thesis
    by (rule grows_same) (simp_all add: fifo_close_def Let_def case_prod_beta log reduce_position_mappings_fifo_def)
qed

lemma slave_deal_grows: "grows (sv_db (snd ss)) (sv_db (snd (slave_deal env g a n mp reg now d ss)))"
  by (simp add: slave_deal_def case_prod_beta handlers_grow fifo_grows)

lemma slave_deals_grow: "grows (br_db b) (br_db (mt5_slave_deals env g a ds ocs n now b))"
proof -
  have "grows (sv_db (snd ss)) (sv_db (snd (fold (slave_deal env g a n mp reg now) ds ss)))" for mp reg ss
  proof (induction ds arbitrary: ss)
    case (Cons d ds)
    show ?case using grows_trans [OF slave_deal_grows Cons.IH] by simp
  qed simp
  from this [of "(_, br_service b)"] show ?thesis by (simp add: mt5_slave_deals_def br_db_def case_prod_beta Let_def)
qed

lemma act_grows: "grows (sv_db s) (sv_db (act_and_log env routing g a lat now ev s))"
proof -
  have "sv_within UNIV g s (snd (decide_dispatch_audit env routing g a ev p lat now s))" for p
    by (rule decide_dispatch_audit_within) simp
  then have "sv_within UNIV g s t" if "decide_dispatch_audit env routing g a ev p lat now s = (x, t)" for p x t
    using that by (metis snd_conv)
  then have "sv_within UNIV g s (snd (act_on_master_event env routing g a ev src lat now s))" for src
    using sv_within_trans [OF _ after_master_event_within]
    by (auto simp: act_on_master_event_def split: prod.split sum.split)
  then have "grows (sv_db s) (sv_db (snd (act_on_master_event env routing g a ev src lat now s)))" for src
    by (rule within_grows)
  then show ?thesis
    by (simp add: act_and_log_def case_prod_beta split: sum.split)
qed

lemma stamp_grows: "grows (sv_db s) (sv_db (stamp_deal g n now d s))"
  by (rule within_grows [of g]) (simp add: stamp_deal_def record_master_fill_within)

lemma master_events_grow: "grows (br_db b) (br_db (mt5_master_events env routing a g r prev n lat now b))"
proof -
  have "grows (sv_db s) (sv_db (fold (stamp_deal g n now) ds (fold (act_and_log env routing g a lat now) evs s)))" for ds evs s
    by (rule grows_trans [OF grow_service.inside_fold grow_service.inside_fold]) (rule act_grows stamp_grows)+
  then show ?thesis by (simp add: mt5_master_events_def br_db_def Let_def case_prod_beta)
qed

lemma update_first:
  assumes "update_from_sync a g r now persist d dbn (reg, t) = (reg', t')"
  shows "(\<exists>st. map_of reg' a = Some st \<and> as_report st = Some r \<and> as_last_seen st = Some now \<and>
      (persist \<longrightarrow> as_signature st = Some (book_signature_of r))) \<and>
    hedge_part a reg' = hedge_part a reg \<and> mt_links t' = mt_links t \<and> mt_deals t' = mt_deals t"
proof -
  define st where "st = (state_of a (Some g) reg)\<lparr>as_report := Some r, as_last_seen := Some now\<rparr>"
  define reg1 where "reg1 = put_state a st reg"
  have st1: "map_of reg1 a = Some st" by (simp add: reg1_def)
  have h1: "hedge_part a reg1 = hedge_part a reg"
    by (simp add: hedge_part_def reg1_def st_def state_of_def new_state_def split: option.split)
  show ?thesis
  proof (cases "persist \<and> as_signature st \<noteq> Some (book_signature_of r)")
    case False
    then have "reg' = reg1" "t' = t" using assms by (cases persist; simp add: update_from_sync_def Let_def st_def reg1_def)+
    with False st1 h1 show ?thesis by (auto simp: st_def)
  next
    case True
    obtain bk reg2 where b: "snapshot a True False d t reg1 = (bk, reg2)" by force
    obtain reg3 t3 where p: "persist_positions a g (fst (the bk)) dbn (reg2, t) = (reg3, t3)" by force
    have out: "t' = t3" "reg' = put_state a ((state_of a None reg3)\<lparr>as_signature := Some (book_signature_of r)\<rparr>) reg3"
      using assms True [unfolded st_def] b [unfolded reg1_def st_def] p by (simp_all add: update_from_sync_def)
    have "core_kept a reg1 reg3"
      using core_trans [OF snapshot_kept(1) [of a reg1 True False d t] persist_kept(1) [of a _ g "fst (the bk)" dbn t]] b p by simp
    then obtain st3 where st3: "map_of reg3 a = Some st3" "core st3 = core st" using st1 by (auto simp: core_kept_def)
    have "mt_links t3 = mt_links t \<and> mt_deals t3 = mt_deals t"
      using p by (auto simp: persist_positions_def Let_def case_prod_beta close_missing_positions_def upsert_positions_def)
    moreover have "hedge_part a reg' = hedge_part a reg1"
      using core_fields [OF st3(2)] st3(1) st1 by (simp add: hedge_part_def out state_of_some)
    ultimately show ?thesis using core_fields [OF st3(2)] st3(1) h1 by (simp add: out state_of_some st_def)
  qed
qed

lemma persist_virtual_tables:
  "mt_links (snd (persist_virtual_positions a d now (reg, t))) = mt_links t \<and>
   mt_deals (snd (persist_virtual_positions a d now (reg, t))) = mt_deals t"
  by (auto simp: persist_virtual_positions_def persist_positions_def Let_def case_prod_beta close_missing_positions_def
      upsert_positions_def split: option.split)

lemma persist_first:
  fixes a now b
  defines "b' \<equiv> persist_net_ledger a now b"
  shows "core_kept a (br_registry b) (br_registry b') \<and> mt_links (br_tables b') = mt_links (br_tables b) \<and>
    mt_deals (br_tables b') = mt_deals (br_tables b) \<and> br_service b' = br_service b \<and>
    (\<exists>st l. map_of (br_registry b') a = Some st \<and> as_ledger st = Some l \<and> nl_dirty l = [] \<and> nl_deleted l = [])"
proof -
  let ?l = "fst (net_ledger_of a (br_tables b) (br_registry b))" and ?reg1 = "snd (net_ledger_of a (br_tables b) (br_registry b))"
  let ?l' = "fst (persist_ledger a ?l (mt_ledger (br_tables b)))"
  let ?reg2 = "put_state a ((state_of a None ?reg1)\<lparr>as_ledger := Some ?l'\<rparr>) ?reg1"
  let ?t1 = "(br_tables b)\<lparr>mt_ledger := snd (persist_ledger a ?l (mt_ledger (br_tables b)))\<rparr>"
  let ?v = "persist_virtual_positions a (br_db b) now (?reg2, ?t1)"
  have clean: "nl_dirty ?l' = [] \<and> nl_deleted ?l' = []" by (simp add: persist_ledger_def dirty_rows_def)
  have b': "br_registry b' = fst ?v \<and> br_tables b' = snd ?v \<or> br_registry b' = ?reg2 \<and> br_tables b' = ?t1" "br_service b' = br_service b"
    by (auto simp: b'_def persist_net_ledger_def Let_def case_prod_beta)
  have two: "map_of ?reg2 a = Some ((state_of a None ?reg1)\<lparr>as_ledger := Some ?l'\<rparr>)" by simp
  have c2: "core_kept a (br_registry b) ?reg2" by (rule core_trans [OF net_ledger_kept(1) put_ledger_core])
  have lk: "ledger_kept a ?reg2 (br_registry b')" and ck: "core_kept a ?reg2 (br_registry b')" using b'(1) by auto
  have "\<exists>st. map_of (br_registry b') a = Some st \<and> as_ledger st = Some ?l'"
    using lk two unfolding ledger_kept_def by fastforce
  then show ?thesis using core_trans [OF c2 ck] clean b' persist_virtual_tables [of a "br_db b" now ?reg2 ?t1] by auto
qed

lemma master_first:
  fixes env routing a g r prev n lat now b
  defines "b' \<equiv> mt5_master_events env routing a g r prev n lat now b"
  shows "core_kept a (br_registry b) (br_registry b') \<and> br_tables b' = br_tables b"
proof -
  let ?reg1 = "snd (symbols_by_name a (br_tables b) (br_registry b))"
  let ?reg2 = "if n then snd (net_ledger_of a (br_tables b) ?reg1) else ?reg1"
  have "\<exists>y. br_registry b' = (case y of Some l \<Rightarrow> put_state a ((state_of a None ?reg2)\<lparr>as_ledger := Some l\<rparr>) ?reg2 | None \<Rightarrow> ?reg2)"
    unfolding b'_def mt5_master_events_def Let_def case_prod_beta by (cases n; simp cong: option.case_cong; rule exI; rule refl)
  then obtain y where y: "br_registry b' = (case y of Some l \<Rightarrow> put_state a ((state_of a None ?reg2)\<lparr>as_ledger := Some l\<rparr>) ?reg2 | None \<Rightarrow> ?reg2)"
    by blast
  have two: "core_kept a (br_registry b) ?reg2"
    using core_trans [OF symbols_kept(1) net_ledger_kept(1)] by simp
  have "core_kept a (br_registry b) (br_registry b')"
  proof (cases y)
    case None then show ?thesis unfolding y option.case using two by simp
  next
    case (Some l) show ?thesis unfolding y Some option.case by (rule core_trans [OF two put_ledger_core])
  qed
  then show ?thesis by (simp add: b'_def mt5_master_events_def Let_def case_prod_beta)
qed

lemma ingest_first:
  fixes a g r prev b
  defines "b' \<equiv> snd (ingest_deals a g r prev b)"
  shows "core_kept a (br_registry b) (br_registry b') \<and> mt_links (br_tables b') = mt_links (br_tables b) \<and>
    br_service b' = br_service b \<and> (\<forall>d \<in> set (sr_deals r). rd_ticket d \<le> watermark_of a (mt_deals (br_tables b')))"
proof (cases "fresh_deals a r (mt_deals (br_tables b)) = []")
  case True
  then have "\<forall>d \<in> set (sr_deals r). rd_ticket d \<le> watermark_of a (mt_deals (br_tables b))"
    using fresh_deals_set [of a r "mt_deals (br_tables b)"] by (auto simp: linorder_not_less)
  with True show ?thesis by (simp add: b'_def ingest_deals_def)
next
  case False
  let ?in = "ingest_mt5_deals a g (fst (symbols_by_name a (br_tables b) (br_registry b))) prev r (mt_deals (br_tables b))"
  have "\<forall>d \<in> set (sr_deals r). rd_ticket d \<le> watermark_of a (snd ?in)" using ingested_below [OF surjective_pairing] by blast
  with False show ?thesis by (simp add: b'_def ingest_deals_def Let_def case_prod_beta)
qed

lemma deals_first:
  fixes env routing account r prev prevr n ocs lat now b
  defines "b' \<equiv> snd (sync_deals env routing account r prev prevr n ocs lat now b)" and "a \<equiv> a_account_id account"
  shows "core_kept a (br_registry b) (br_registry b') \<and> mt_links (br_tables b') = mt_links (br_tables b) \<and>
    grows (br_db b) (br_db b') \<and> (\<forall>d \<in> set (sr_deals r). rd_ticket d \<le> watermark_of a (mt_deals (br_tables b'))) \<and>
    (n \<and> map_of (master_by_org routing) (a_org_id account) = Some a \<longrightarrow>
      (\<exists>st l. map_of (br_registry b') a = Some st \<and> as_ledger st = Some l \<and> nl_dirty l = [] \<and> nl_deleted l = []))"
proof -
  let ?g = "a_org_id account"
  obtain fresh b1 where i: "ingest_deals a ?g r prevr b = (fresh, b1)" by force
  note one = ingest_first [where a = a and g = ?g and r = r and prev = prevr and b = b, unfolded i snd_conv]
  have same: "br_db b1 = br_db b" using one by (simp add: br_db_def)
  define m where "m = mt5_master_events env routing a ?g (r\<lparr>sr_deals := fresh\<rparr>) prev n lat now b1"
  note two = master_first [where a = a and b = b1 and env = env and routing = routing and g = ?g and r = "r\<lparr>sr_deals := fresh\<rparr>"
    and prev = prev and n = n and lat = lat and now = now, folded m_def]
    and grow2 = master_events_grow [of b1 env routing a ?g "r\<lparr>sr_deals := fresh\<rparr>" prev n lat now, folded m_def]
  note three = persist_first [where a = a and b = m and now = now]
  show ?thesis
  proof (cases "map_of (master_by_org routing) ?g = Some a")
    case True
    then have b': "b' = (if n then persist_net_ledger a now m else m)"
      using i by (simp add: b'_def a_def sync_deals_def Let_def m_def)
    have "core_kept a (br_registry b) (br_registry m)" using one two core_trans by blast
    moreover have "core_kept a (br_registry b) (br_registry (persist_net_ledger a now m))"
      using core_trans [OF calculation] three by blast
    moreover have "br_db (persist_net_ledger a now m) = br_db m" using three by (simp add: br_db_def)
    ultimately show ?thesis using one two three grow2 same True by (simp add: b')
  next
    case False
    let ?sd = "mt5_slave_deals env ?g a fresh ocs n now b1"
    have "b' = ?sd \<or> b' = b1" using i False by (simp add: b'_def a_def sync_deals_def Let_def)
    moreover have "br_registry ?sd = br_registry b1" "br_tables ?sd = br_tables b1"
      by (simp_all add: mt5_slave_deals_def Let_def case_prod_beta)
    moreover have "grows (br_db b1) (br_db ?sd)" by (rule slave_deals_grow)
    ultimately show ?thesis using one same False by auto
  qed
qed

lemma touch_hedging: "link_hedging a (br_tables (touch_link b r now x)) = link_hedging a (br_tables x)"
proof -
  let ?f = "\<lambda>q :: link_row. if li_account q = b then q\<lparr>li_balance := Some (sr_balance r), li_equity := Some (sr_equity r), li_last_seen_at := Some now\<rparr> else q"
  have "find (\<lambda>q. li_account q = a) (map ?f ls) = map_option ?f (find (\<lambda>q. li_account q = a) ls)" for ls
    by (rule find_map_same) simp
  then have "Option.bind (find (\<lambda>q. li_account q = a) (map ?f ls)) li_hedging = Option.bind (find (\<lambda>q. li_account q = a) ls) li_hedging" for ls
    by (cases "find (\<lambda>q. li_account q = a) ls") simp_all
  then show ?thesis
    by (simp add: touch_link_def touch_mt5_link_def link_hedging_def load_mt5_link_def update_where_def)
qed

text \<open>After a poll: the account is on file with this report, its acknowledgements and deals are settled.\<close>

definition settled_poll :: "org_routing \<Rightarrow> ident \<Rightarrow> ident \<Rightarrow> sync_report \<Rightarrow> rat \<Rightarrow> bridge \<Rightarrow> bool" where
  "settled_poll routing g a r now b \<longleftrightarrow>
     (let netting = (fst (margin_mode a (br_tables b) (br_registry b)) = Some ''netting'');
          ledgered = (netting \<and> map_of (master_by_org routing) g = Some a)
      in (\<exists>st. map_of (br_registry b) a = Some st \<and> as_report st = Some r \<and> as_last_seen st = Some now \<and>
            (\<not> ledgered \<longrightarrow> as_signature st = Some (book_signature_of r)) \<and>
            (ledgered \<longrightarrow> (\<exists>l. as_ledger st = Some l \<and> nl_dirty l = [] \<and> nl_deleted l = []))) \<and>
         (\<forall>k \<in> set (sr_acks r). \<forall>c \<in> set (db_commands (br_db b)). \<not> settles (ak_command_id k) (Some a) c) \<and>
         (\<forall>d \<in> set (sr_deals r). rd_ticket d \<le> watermark_of a (mt_deals (br_tables b))))"

lemma first_hearing:
  assumes acc: "account_row_of a b = Some account" "a_platform account = mt5"
    and sync: "mt5_sync env routing a (Inr r) now lat dbn b = (resp, b1)"
    and inv: "command_inv (br_db b)" and ids: "\<forall>k \<in> set (sr_acks r). ak_command_id k < db_next_command (br_db b)"
  shows "settled_poll routing (a_org_id account) a r now b1"
proof -
  let ?g = "a_org_id account"
  define mode where "mode = fst (margin_mode a (br_tables b) (br_registry b))"
  define n where "n \<longleftrightarrow> mode = Some ''netting''"
  define reg1 where "reg1 = snd (margin_mode a (br_tables b) (br_registry b))"
  obtain prev reg2 where snap: "snapshot a False False (br_db b) (br_tables b) reg1 = (prev, reg2)" by force
  let ?ismaster = "map_of (master_by_org routing) ?g = Some a"
  obtain reg3 t3 where upd: "update_from_sync a ?g r now (\<not> (n \<and> ?ismaster)) (br_db b) dbn (reg2, br_tables b) = (reg3, t3)" by force
  define c1 where "c1 = touch_link a r now (b\<lparr>br_registry := reg3, br_tables := t3\<rparr>)"
  define c2 where "c2 = (if is_online a now reg1 then c1 else mt5_back_online a ?g c1)"
  obtain ocs d where ack: "apply_acks a now (sr_acks r) (br_db c2) = (ocs, d)" by force
  define c3 where "c3 = fold (apply_mt5_outcome env ?g a n (dict_of (map (\<lambda>d. (rd_ticket d, d)) (sr_deals r))) dbn) ocs (on_br_db (\<lambda>_. d) c2)"
  obtain fresh c4 where deals: "sync_deals env routing account r prev (report_of a reg2) n ocs lat dbn c3 = (fresh, c4)" by force
  obtain cmds d' where del: "deliverable a now dbn (br_db c4) = (cmds, d')" by force
  have "mt5_sync env routing a (Inr r) now lat dbn b = (Inr (OK_COMMANDS cmds), if fresh \<noteq> [] \<or> ocs \<noteq> []
      then (on_br_db (\<lambda>_. d') c4)\<lparr>br_resyncs := br_resyncs c4 @ [?g]\<rparr> else on_br_db (\<lambda>_. d') c4)"
  proof -
    have *: "mt5_sync env routing a (Inr r) now lat dbn b = (Inr (OK_COMMANDS cmds), if fresh \<noteq> [] \<or> ocs \<noteq> []
        then (on_br_db (\<lambda>_. d') c4)\<lparr>br_resyncs := br_resyncs c4 @ [?g]\<rparr> else on_br_db (\<lambda>_. d') c4)"
      if c2: "(if is_online a now reg1 then c1 else mt5_back_online a ?g c1) = c" and "c = c2" for c
      using acc snap upd ack [folded that(2)] deals del that(1)
      by (cases "is_online a now reg1")
        (simp_all add: mt5_sync_def Let_def case_prod_beta reg1_def [symmetric] mode_def [symmetric] n_def [symmetric]
          c1_def [symmetric] c3_def [folded that(2), symmetric] del: touch_link_fields,
         auto simp: c3_def that(2))
    show ?thesis by (rule * [OF c2_def [symmetric] refl])
  qed
  then have b1: "br_registry b1 = br_registry c4" "br_tables b1 = br_tables c4" "br_db b1 = d'"
    using sync by (auto simp: br_db_def on_br_db_def split: if_splits)
  note up = update_first [OF upd]
  have id: "a_account_id account = a" using acc(1) by (auto simp: account_row_of_def dest: find_SomeD)
  have c3: "br_registry c3 = reg3" "br_tables c3 = br_tables c1" by (simp_all add: c3_def c2_def c1_def)
  note four = deals_first [where env = env and routing = routing and account = account and r = r and prev = prev
      and prevr = "report_of a reg2" and n = n and ocs = ocs and lat = lat and now = dbn and b = c3, unfolded deals snd_conv id c3(1)]
  from up obtain st where st: "map_of reg3 a = Some st" "as_report st = Some r" "as_last_seen st = Some now"
    "\<not> (n \<and> ?ismaster) \<longrightarrow> as_signature st = Some (book_signature_of r)" by blast
  with four obtain st4 where st4: "map_of (br_registry c4) a = Some st4" "core st4 = core st" by (auto simp: core_kept_def)
  note fields = core_fields [OF st4(2)]
  have h2: "hedge_part a reg2 = hedge_part a reg1"
  proof (cases "map_of reg1 a")
    case None
    then show ?thesis using snap by (simp add: snapshot_def report_of_def)
  next
    case (Some s1)
    then show ?thesis using core_hedge [OF snapshot_kept(1) [of a reg1 False False "br_db b" "br_tables b"]] snap by simp
  qed
  have hedge: "hedge_part a (br_registry c4) = hedge_part a reg1"
    using core_hedge [OF _ st(1), of "br_registry c4"] four up h2 by simp
  have "link_hedging a (br_tables c4) = link_hedging a (br_tables c3)" using four by (simp add: link_hedging_def load_mt5_link_def)
  also have "\<dots> = link_hedging a t3" unfolding c3(2) c1_def touch_hedging by simp
  also have "\<dots> = link_hedging a (br_tables b)" using up by (simp add: link_hedging_def load_mt5_link_def)
  finally have mode: "fst (margin_mode a (br_tables b1) (br_registry b1)) = mode"
    unfolding mode_def b1 by (rule margin_mode_again) (use hedge in \<open>simp add: reg1_def\<close>)
  have same: "db_commands (br_db c2) = db_commands (br_db b)" "db_next_command (br_db c2) = db_next_command (br_db b)"
    by (simp_all add: c2_def c1_def mt5_back_online_def clear_and_log_def clear_degraded_def br_log_def br_db_def Let_def
        on_br_db_def touch_link_def)
  have prog: "rows_progress (br_db c2) d" "db_next_command d = db_next_command (br_db c2)"
    using apply_acks_progress [of "br_db c2" a now "sr_acks r"] apply_acks_next [of a now "sr_acks r" "br_db c2"] ack by simp_all
  have invd: "command_inv d"
    by (rule command_inv_progress [OF _ prog]) (use inv same in \<open>simp add: command_inv_def\<close>)
  have "grows d (br_db c3)" unfolding c3_def
    using outcomes_grow [of "on_br_db (\<lambda>_. d) c2"] by simp
  then have g4: "grows d (br_db c4)" using four grows_trans by blast
  have settled: "\<forall>c \<in> set (db_commands d'). \<not> settles (ak_command_id k) (Some a) c" if k: "k \<in> set (sr_acks r)" for k
  proof (rule deliverable_settled [OF grows_inv [OF g4 invd] del])
    have "\<forall>c \<in> set (db_commands d). \<not> settles (ak_command_id k) (Some a) c"
      using apply_acks_settled [OF k, of _ a now "br_db c2"] ack by simp
    then show "\<forall>c \<in> set (db_commands (br_db c4)). \<not> settles (ak_command_id k) (Some a) c"
      using grows_settled [OF g4] ids k prog(2) same(2) by auto
  qed
  have "(\<exists>l. as_ledger st4 = Some l \<and> nl_dirty l = [] \<and> nl_deleted l = [])" if "n \<and> ?ismaster" using four that st4(1) by auto
  then show ?thesis
    using st4(1) fields st settled four unfolding settled_poll_def Let_def mode [unfolded b1] n_def [symmetric] b1 by auto
qed

section \<open>The same report twice\<close>

text \<open>
  C7. An EA that posts a report again, because the answer to its first post was lost, changes nothing
  but what the outbox still owes it. If the first poll of a report left the bridge in \<^term>\<open>b1\<close>, then a
  second poll of the same report within the offline window answers with exactly the commands
  \<^const>\<open>deliverable\<close> then owes, keeps every mapping, task, stored deal, position snapshot and
  ledger row, and asks for no resync: no deal is booked twice and no acknowledgement applied twice.
\<close>

theorem sync_retry_only_delivers:
  assumes "account_row_of a b = Some account" "a_platform account = mt5"
    and "command_inv (br_db b)" "\<forall>k \<in> set (sr_acks r). ak_command_id k < db_next_command (br_db b)"
    and "distinct (map rp_ticket (sr_positions r))" "distinct (map ro_ticket (sr_orders r))"
    and "mt5_sync env routing a (Inr r) now lat dbn b = (resp, b1)"
    and "account_row_of a b1 = Some account'" "a_platform account' = mt5" "a_org_id account' = a_org_id account"
    and "fl (now' - now) < OFFLINE_AFTER_S"
  shows "\<exists>b2. mt5_sync env routing a (Inr r) now' lat' dbn' b1 = (Inr (OK_COMMANDS (fst (deliverable a now' dbn' (br_db b1)))), b2) \<and>
    br_service b2 = on_db (\<lambda>_. snd (deliverable a now' dbn' (br_db b1))) (br_service b1) \<and> br_settled b2 = br_settled b1 \<and>
    br_resyncs b2 = br_resyncs b1 \<and> (br_tables b2)\<lparr>mt_links := mt_links (br_tables b1)\<rparr> = br_tables b1"
proof -
  have "settled_poll routing (a_org_id account') a r now b1"
    using first_hearing [OF assms(1,2,7,3,4)] assms(10) by simp
  then obtain st where st: "map_of (br_registry b1) a = Some st" "as_report st = Some r" "as_last_seen st = Some now"
    and rest: "\<not> (fst (margin_mode a (br_tables b1) (br_registry b1)) = Some ''netting'' \<and>
        map_of (master_by_org routing) (a_org_id account') = Some a) \<Longrightarrow> as_signature st = Some (book_signature_of r)"
      "fst (margin_mode a (br_tables b1) (br_registry b1)) = Some ''netting'' \<and>
        map_of (master_by_org routing) (a_org_id account') = Some a \<Longrightarrow>
        \<exists>l. as_ledger st = Some l \<and> nl_dirty l = [] \<and> nl_deleted l = []"
    and acks: "\<forall>k \<in> set (sr_acks r). \<forall>c \<in> set (db_commands (br_db b1)). \<not> settles (ak_command_id k) (Some a) c"
    and deals: "\<forall>d \<in> set (sr_deals r). rd_ticket d \<le> watermark_of a (mt_deals (br_tables b1))"
    unfolding settled_poll_def Let_def by blast
  from second_hearing [OF assms(8,9) st assms(11) rest acks deals assms(5,6)] show ?thesis .
qed

definition witness_mt5_account :: account_row where
  "witness_mt5_account = \<lparr>a_account_id = 7, a_org_id = 2, a_connection_id = None,
     a_trader_login = 1, a_is_live = False, a_role = slave, a_enabled = True, a_multiplier = 1, a_status = OK,
     a_last_error = None, a_platform = mt5\<rparr>"

definition witness_mt5_bridge :: bridge where
  "witness_mt5_bridge = on_br_db (\<lambda>d. d\<lparr>db_accounts := [witness_mt5_account]\<rparr>) witness_bridge"

definition witness_report :: sync_report where
  "witness_report = \<lparr>sr_seq = 1, sr_ts_ms = 1000, sr_balance = 10, sr_equity = 10, sr_margin = 0, sr_margin_free = 10,
     sr_positions = [], sr_orders = [], sr_deals = [], sr_acks = [\<lparr>ak_command_id = 0, ak_ok = True, ak_retcode = 0, ak_message = [],
       ak_position = None, ak_deal = None, ak_order = None, ak_price = None, ak_volume = None\<rparr>]\<rparr>"

theorem sync_retry_only_delivers_witness:
  "let b1 = snd (mt5_sync witness_service_env (build_routing [] (\<lambda>_. []) None) 7 (Inr witness_report) 0 0 0 witness_mt5_bridge);
       b2 = snd (mt5_sync witness_service_env (build_routing [] (\<lambda>_. []) None) 7 (Inr witness_report) 1 0 0 b1)
   in br_resyncs b2 = br_resyncs b1"
proof -
  let ?s = "\<lambda>n. mt5_sync witness_service_env (build_routing [] (\<lambda>_. []) None) 7 (Inr witness_report) n 0 0"
  have acc0: "account_row_of 7 witness_mt5_bridge = Some witness_mt5_account" "a_platform witness_mt5_account = mt5"
    by code_simp+
  have inv: "command_inv (br_db witness_mt5_bridge)"
    by (simp add: command_inv_def witness_mt5_bridge_def witness_bridge_def on_br_db_def on_db_def br_db_def
        empty_db_def sv_db_def with_db_def)
  have acc1: "account_row_of 7 (snd (?s 0 witness_mt5_bridge)) = Some witness_mt5_account" by code_simp
  have near: "fl (1 - 0) < OFFLINE_AFTER_S" by code_simp
  have ids: "\<forall>k \<in> set (sr_acks witness_report). ak_command_id k < db_next_command (br_db witness_mt5_bridge)"
    by code_simp
  have dis: "distinct (map rp_ticket (sr_positions witness_report))" "distinct (map ro_ticket (sr_orders witness_report))"
    by (simp_all add: witness_report_def)
  from sync_retry_only_delivers [OF acc0 inv ids dis prod.collapse [of "?s 0 witness_mt5_bridge", symmetric] acc1
      acc0(2) refl near, where lat' = 0 and dbn' = 0]
  show ?thesis by (auto simp: Let_def)
qed

end
