(* ===== verification/Portal_Ledger.thy ===== *)
theory Portal_Ledger
  imports Rounding
begin

text \<open>
  The money rules of the client portal (\<^verbatim>\<open>api/portal_ledger.py\<close>), which are pure: what an
  amount may look like, how figures are cut to the cent, fees and bonuses, wallet balances, holds and
  the available figure, the legal status changes and the legal transfer pairs.

  A \<^verbatim>\<open>Decimal\<close> is the rational it denotes; every arithmetic operation rounds to 28 digits
  (\<^const>\<open>dec\<close>), and \<^verbatim>\<open>quantize\<close> fails when its result needs more than 28 digits.
  The lemmas show where none of this shows: on whole cents below \<open>10\<^sup>2\<^sup>6\<close> the arithmetic is exact.
  A refused input is the message of its \<^verbatim>\<open>LedgerError\<close>.
\<close>

section \<open>Reading decimals\<close>

datatype dec_value = Finite rat | Infinite | NaN

text \<open>
  The value of a JSON field that may be anything: a number is given by the text \<^verbatim>\<open>str\<close> makes of
  it, a list or object (\<open>ROther\<close>) by its repr.
\<close>

datatype raw = RNone | RBool bool | RText string | RNumber string | ROther string

definition lower_char :: "char \<Rightarrow> char" where
  "lower_char c = (let n = of_char c :: nat in if 65 \<le> n \<and> n \<le> 90 then char_of (n + 32) else c)"

definition py_lower :: "string \<Rightarrow> string" where
  "py_lower s = map lower_char s"

fun digits_value :: "nat \<Rightarrow> string \<Rightarrow> nat" where
  "digits_value acc [] = acc"
| "digits_value acc (c # cs) = digits_value (acc * 10 + digit_val c) cs"

definition split_sign :: "string \<Rightarrow> bool \<times> string" where
  "split_sign s = (case s of
      c # cs \<Rightarrow> if c = CHR ''-'' then (True, cs) else if c = CHR ''+'' then (False, cs) else (False, s)
    | [] \<Rightarrow> (False, []))"

definition exponent_of :: "string \<Rightarrow> int option" where
  "exponent_of s = (case s of
      [] \<Rightarrow> Some 0
    | c # cs \<Rightarrow>
        if lower_char c \<noteq> CHR ''e'' then None
        else let (neg, ds) = split_sign cs
             in if ds = [] \<or> (\<exists>d \<in> set ds. \<not> is_digit d) then None
                else Some (if neg then - int (digits_value 0 ds) else int (digits_value 0 ds)))"

definition number_of :: "string \<Rightarrow> rat option" where
  "number_of s =
     (let ip = takeWhile is_digit s; r = dropWhile is_digit s;
          (fp, r') = (case r of c # t \<Rightarrow> if c = CHR ''.'' then (takeWhile is_digit t, dropWhile is_digit t) else ([], r)
                      | [] \<Rightarrow> ([], []))
      in if ip = [] \<and> fp = [] then None
         else map_option (\<lambda>e. of_nat (digits_value 0 (ip @ fp)) * scale 10 (e - int (length fp))) (exponent_of r'))"

definition all_digits :: "string \<Rightarrow> bool" where
  "all_digits s = (\<forall>c \<in> set s. is_digit c)"

text \<open>
  \<^verbatim>\<open>Decimal(text)\<close>: whitespace around and every underscore dropped, an optional sign, then
  digits with an optional fraction and exponent, or an infinity or NaN by name.
\<close>

definition decimal_of :: "string \<Rightarrow> dec_value option" where
  "decimal_of s =
     (let (neg, body) = split_sign (filter (\<lambda>c. c \<noteq> CHR ''_'') (py_strip s)); name = py_lower body
      in if name = ''inf'' \<or> name = ''infinity'' then Some Infinite
         else if startswith name ''nan'' \<and> all_digits (drop 3 name) \<or> startswith name ''snan'' \<and> all_digits (drop 4 name)
         then Some NaN
         else map_option (\<lambda>x. Finite (if neg then - x else x)) (number_of body))"

text \<open>\<^verbatim>\<open>Decimal(str(raw))\<close>.\<close>

definition decimal_of_raw :: "raw \<Rightarrow> dec_value option" where
  "decimal_of_raw r = (case r of RText s \<Rightarrow> decimal_of s | RNumber s \<Rightarrow> decimal_of s | _ \<Rightarrow> None)"

definition raw_repr :: "raw \<Rightarrow> string" where
  "raw_repr r = (case r of RText s \<Rightarrow> py_repr s | RNumber s \<Rightarrow> s | ROther s \<Rightarrow> s | _ \<Rightarrow> [])"

section \<open>Cents\<close>

text \<open>\<^verbatim>\<open>quantize(CENT, rounding=...)\<close>.\<close>

definition quantize_cents :: "(rat \<Rightarrow> int) \<Rightarrow> rat \<Rightarrow> rat res" where
  "quantize_cents rnd x = (let q = rnd (x * 100) in if \<bar>q\<bar> < 10 ^ 28 then Inr (of_int q / 100) else Inl DecimalError)"

definition floor_cents :: "rat \<Rightarrow> rat res" where
  "floor_cents = quantize_cents py_trunc"

definition round_cents :: "rat \<Rightarrow> rat res" where
  "round_cents = quantize_cents round_half_up"

definition fee_for :: "rat \<Rightarrow> rat \<Rightarrow> rat res" where
  "fee_for amount fee_pct = round_cents (dec (dec (amount * fee_pct) / 100))"

definition deposit_bonus :: "rat \<Rightarrow> rat \<Rightarrow> rat option \<Rightarrow> rat res" where
  "deposit_bonus amount pct cap =
     res_bind (round_cents (dec (dec (amount * pct) / 100)))
       (\<lambda>bonus. Inr (case cap of None \<Rightarrow> bonus | Some c \<Rightarrow> min bonus c))"

definition money :: "rat option \<Rightarrow> rat option res" where
  "money x = (case x of None \<Rightarrow> Inr None | Some v \<Rightarrow> res_bind (round_cents v) (\<lambda>r. Inr (Some (fl r))))"

text \<open>The two-decimal form the messages print.\<close>

definition fmt2 :: "rat \<Rightarrow> string" where
  "fmt2 x = (let q = round_half_even (x * 100); n = nat \<bar>q\<bar>
             in (if q < 0 then ''-'' else []) @ str_nat (n div 100) @ ''.'' @ [digit_char (n mod 100 div 10), digit_char (n mod 10)])"

section \<open>Inputs\<close>

definition MAX_INTEGER_DIGITS :: nat where "MAX_INTEGER_DIGITS = 12"
definition MAX_TEXT :: nat where "MAX_TEXT = 128"

definition is_nan :: "raw \<Rightarrow> bool" where
  "is_nan r = (case r of RNumber s \<Rightarrow> decimal_of s = Some NaN | _ \<Rightarrow> False)"

definition parse_amount :: "raw \<Rightarrow> string \<Rightarrow> string + rat" where
  "parse_amount raw field =
     (case raw of
        RNone \<Rightarrow> Inl (field @ '' is required, e.g. 250.00'')
      | RBool _ \<Rightarrow> Inl (field @ '' is required, e.g. 250.00'')
      | _ \<Rightarrow>
          if raw = RText [] then Inl (field @ '' is required, e.g. 250.00'')
          else if is_nan raw then Inl (field @ '' must be a number'')
          else case decimal_of_raw raw of
            None \<Rightarrow> Inl (field @ '' must be a number, got '' @ raw_repr raw)
          | Some (Finite x) \<Rightarrow>
              if x \<le> 0 then Inl (field @ '' must be greater than 0'')
              else (case quantize_cents round_half_even x of
                      Inl _ \<Rightarrow> Inl (field @ '' is too large'')
                    | Inr q \<Rightarrow>
                        if x \<noteq> q then Inl (field @ '' may have at most two decimals'')
                        else if 10 ^ MAX_INTEGER_DIGITS \<le> x then Inl (field @ '' is too large'')
                        else Inr x)
          | Some _ \<Rightarrow> Inl (field @ '' must be greater than 0''))"

text \<open>\<^verbatim>\<open>clean_text\<close>: the stripped text, \<open>None\<close> for a blank that is not required.\<close>

definition clean_text :: "string option \<Rightarrow> string \<Rightarrow> nat \<Rightarrow> bool \<Rightarrow> string + string option" where
  "clean_text raw field max_len required =
     (let text = (case raw of None \<Rightarrow> [] | Some s \<Rightarrow> py_strip s)
      in if text = [] then if required then Inl (field @ '' is required'') else Inr None
         else if max_len < length text
         then Inl (field @ '' must be at most '' @ str_nat max_len @ '' characters'')
         else Inr (Some text))"

section \<open>Figures\<close>

definition WALLETS :: "string list" where "WALLETS = [''main'', ''credit'', ''pamm'', ''social'']"

definition add_to :: "(string, rat) dict \<Rightarrow> string \<times> rat \<Rightarrow> (string, rat) dict" where
  "add_to out wa = (case map_of out (fst wa) of
      Some x \<Rightarrow> AList.update (fst wa) (dec (x + snd wa)) out | None \<Rightarrow> out)"

text \<open>
  \<^verbatim>\<open>balance\<close> and \<^verbatim>\<open>holds\<close>. The wallet names are guaranteed by the table's CHECK, so
  the \<^verbatim>\<open>KeyError\<close> of another name does not arise.
\<close>

definition zeros :: "(string, rat) dict" where "zeros = map (\<lambda>w. (w, 0)) WALLETS"

definition balance :: "(string \<times> rat) list \<Rightarrow> (string, rat) dict" where
  "balance entries = foldl add_to zeros entries"

definition holds :: "rat list \<Rightarrow> (string \<times> rat) list \<Rightarrow> (string, rat) dict" where
  "holds open_withdrawals open_transfers =
     foldl add_to (foldl add_to zeros (map (\<lambda>a. (''main'', a)) open_withdrawals)) open_transfers"

definition available :: "rat \<Rightarrow> rat \<Rightarrow> rat res" where
  "available bal hold = floor_cents (dec (bal - hold))"

section \<open>Status changes\<close>

definition DEPOSIT_TRANSITIONS :: "(string, string list) dict" where
  "DEPOSIT_TRANSITIONS = [(''pending'', [''confirmed'', ''rejected'', ''cancelled''])]"

definition WITHDRAWAL_TRANSITIONS :: "(string, string list) dict" where
  "WITHDRAWAL_TRANSITIONS = [(''requested'', [''approved'', ''rejected'', ''cancelled'']), (''approved'', [''paid'', ''rejected''])]"

definition TRANSFER_TRANSITIONS :: "(string, string list) dict" where
  "TRANSFER_TRANSITIONS = [(''requested'', [''approved'', ''done'', ''rejected'', ''cancelled'']), (''approved'', [''done'', ''rejected''])]"

definition DESTINATION_TRANSITIONS :: "(string, string list) dict" where
  "DESTINATION_TRANSITIONS = [(''pending'', [''approved'', ''rejected'', ''removed'']), (''approved'', [''removed''])]"

datatype request_table = deposits | withdrawals | transfers | payout_destinations

definition TRANSITIONS :: "request_table \<Rightarrow> (string, string list) dict" where
  "TRANSITIONS t = (case t of deposits \<Rightarrow> DEPOSIT_TRANSITIONS | withdrawals \<Rightarrow> WITHDRAWAL_TRANSITIONS
      | transfers \<Rightarrow> TRANSFER_TRANSITIONS | payout_destinations \<Rightarrow> DESTINATION_TRANSITIONS)"

definition can_transition :: "request_table \<Rightarrow> string \<Rightarrow> string \<Rightarrow> bool" where
  "can_transition t cur new = (case map_of (TRANSITIONS t) cur of None \<Rightarrow> False | Some ns \<Rightarrow> new \<in> set ns)"

section \<open>Transfers\<close>

record money_ref =
  mr_kind :: string
  mr_wallet :: "string option"
  mr_account :: "ident option"

definition TRANSFER_PAIRS :: "(string \<times> string) list" where
  "TRANSFER_PAIRS = [(''main'', ''account''), (''account'', ''main''), (''pamm'', ''main''), (''social'', ''main''),
     (''credit'', ''account'')]"

definition NOT_ALLOWED :: string where "NOT_ALLOWED = ''that transfer is not allowed''"

definition end_of :: "money_ref \<Rightarrow> string + string" where
  "end_of r =
     (case (mr_wallet r, mr_account r) of
        (Some w, acc) \<Rightarrow>
          if mr_kind r = ''wallet'' \<and> w \<in> set WALLETS then Inr w
          else if mr_kind r = ''account'' \<and> acc \<noteq> None then Inr ''account'' else Inl NOT_ALLOWED
      | (None, acc) \<Rightarrow> if mr_kind r = ''account'' \<and> acc \<noteq> None then Inr ''account'' else Inl NOT_ALLOWED)"

definition transfer_pair :: "money_ref \<Rightarrow> money_ref \<Rightarrow> string + string \<times> string" where
  "transfer_pair source target =
     (case end_of source of Inl e \<Rightarrow> Inl e
      | Inr s \<Rightarrow> (case end_of target of Inl e \<Rightarrow> Inl e
          | Inr t \<Rightarrow> if (s, t) \<in> set TRANSFER_PAIRS then Inr (s, t) else Inl NOT_ALLOWED))"

section \<open>Whole cents are exact\<close>

definition whole_cents :: "rat \<Rightarrow> bool" where
  "whole_cents x \<longleftrightarrow> of_int \<lfloor>x * 100\<rfloor> = x * 100"

lemma whole_cents_iff: "whole_cents x \<longleftrightarrow> (\<exists>k::int. x = of_int k / 100)"
proof
  assume "whole_cents x"
  then have "x = of_int \<lfloor>x * 100\<rfloor> / 100" unfolding whole_cents_def by linarith
  then show "\<exists>k::int. x = of_int k / 100" ..
next
  assume "\<exists>k::int. x = of_int k / 100"
  then obtain k :: int where "x * 100 = of_int k" by auto
  then show "whole_cents x" unfolding whole_cents_def by (metis floor_of_int)
qed

lemma whole_cents_simps [simp]: "whole_cents 0" "whole_cents (- x) \<longleftrightarrow> whole_cents x"
proof -
  show "whole_cents 0" by (simp add: whole_cents_def)
  have "whole_cents (- x)" if "whole_cents x" for x
    using that unfolding whole_cents_iff by (metis minus_divide_left of_int_minus)
  from this [of x] this [of "- x"] show "whole_cents (- x) \<longleftrightarrow> whole_cents x" by auto
qed

lemma whole_cents_add [simp, intro]:
  assumes "whole_cents x" "whole_cents y"
  shows "whole_cents (x + y)" "whole_cents (x - y)"
proof -
  from assms obtain j k :: int where "x = of_int j / 100" "y = of_int k / 100" by (auto simp: whole_cents_iff)
  then have "x + y = of_int (j + k) / 100" "x - y = of_int (j - k) / 100" by (simp_all add: add_divide_distrib diff_divide_distrib)
  then show "whole_cents (x + y)" "whole_cents (x - y)" unfolding whole_cents_iff by blast+
qed

lemma whole_cents_sum [intro]: "(\<And>x. x \<in> set xs \<Longrightarrow> whole_cents (f x)) \<Longrightarrow> whole_cents (sum_list (map f xs))"
  by (induction xs) auto

lemma dec_exact:
  assumes "x = of_int m * scale 10 k" "\<bar>m\<bar> < 10 ^ 28"
  shows "dec x = x"
  using round_sig_exact [of 10 m 28 k] assms by (simp add: dec_def)

lemma dec_cents [simp]:
  assumes "whole_cents x" "\<bar>x\<bar> < 10 ^ 26"
  shows "dec x = x"
proof -
  from assms obtain k :: int where k: "x = of_int k / 100" by (auto simp: whole_cents_iff)
  have "\<bar>of_int k\<bar> < (10 ^ 28 :: rat)" using assms(2) by (simp add: k abs_divide)
  then have "\<bar>k\<bar> < 10 ^ 28" by (simp flip: of_int_abs)
  then show ?thesis by (intro dec_exact [of _ k "-2"]) (simp_all add: k)
qed

lemma quantize_whole:
  assumes "whole_cents x" "\<bar>x\<bar> < 10 ^ 26" "\<And>k. rnd (of_int k) = k"
  shows "quantize_cents rnd x = Inr x"
proof -
  from assms obtain k :: int where k: "x = of_int k / 100" by (auto simp: whole_cents_iff)
  have "\<bar>of_int k\<bar> < (10 ^ 28 :: rat)" using assms(2) by (simp add: k abs_divide)
  then have "\<bar>k\<bar> < 10 ^ 28" by (simp flip: of_int_abs)
  then show ?thesis by (simp add: quantize_cents_def k assms(3))
qed

lemma round_half_up_int [simp]: "round_half_up (of_int k) = k"
  by (rule round_half_up_unique) simp

lemma py_trunc_int [simp]: "py_trunc (of_int k) = k"
  by (simp add: py_trunc_def)

lemma floor_cents_whole [simp]: "whole_cents x \<Longrightarrow> \<bar>x\<bar> < 10 ^ 26 \<Longrightarrow> floor_cents x = Inr x"
  by (simp add: floor_cents_def quantize_whole)

lemma round_cents_whole [simp]: "whole_cents x \<Longrightarrow> \<bar>x\<bar> < 10 ^ 26 \<Longrightarrow> round_cents x = Inr x"
  by (simp add: round_cents_def quantize_whole)

lemma quantize_InrD: "quantize_cents rnd x = Inr y \<Longrightarrow> whole_cents y"
  unfolding quantize_cents_def Let_def whole_cents_iff by (metis Inl_Inr_False sum.inject(2))

lemma parse_amount_iff:
  "parse_amount raw field = Inr x \<longleftrightarrow>
   decimal_of_raw raw = Some (Finite x) \<and> 0 < x \<and> whole_cents x \<and> x < 10 ^ 12"
proof -
  have body: "(case quantize_cents round_half_even y of Inl _ \<Rightarrow> Inl e | Inr q \<Rightarrow>
        if y \<noteq> q then Inl e' else if 10 ^ MAX_INTEGER_DIGITS \<le> y then Inl e'' else Inr y) = Inr x \<longleftrightarrow>
      y = x \<and> whole_cents x \<and> x < 10 ^ 12" if "0 < y" for y :: rat and e e' e'' :: string
  proof (cases "whole_cents y \<and> y < 10 ^ 12")
    case True
    moreover from this have "quantize_cents round_half_even y = Inr y"
      using that by (intro quantize_whole) (auto simp: round_half_even_int)
    ultimately show ?thesis by (auto simp: MAX_INTEGER_DIGITS_def)
  next
    case False
    then show ?thesis
      by (cases "quantize_cents round_half_even y") (auto simp: MAX_INTEGER_DIGITS_def dest: quantize_InrD)
  qed
  have empty: "decimal_of [] = None"
    by (simp add: decimal_of_def py_strip_def split_sign_def py_lower_def startswith_def number_of_def)
  have fin: "(case Some v of None \<Rightarrow> Inl a | Some (Finite y) \<Rightarrow> F y | Some _ \<Rightarrow> Inl b) = Inr x \<longleftrightarrow>
      (\<exists>y. v = Finite y \<and> F y = Inr x)" for v a b and F :: "rat \<Rightarrow> string + rat"
    by (cases v) auto
  show ?thesis
  proof (cases raw)
    case (RText s)
    show ?thesis
    proof (cases "decimal_of s")
      case None
      then show ?thesis by (simp add: RText is_nan_def parse_amount_def decimal_of_raw_def)
    next
      case (Some v)
      then have "s \<noteq> []" using empty by auto
      with Some show ?thesis
        by (cases v) (auto simp: RText is_nan_def parse_amount_def decimal_of_raw_def body)
    qed
  next
    case (RNumber s)
    show ?thesis
    proof (cases "decimal_of s")
      case None
      then show ?thesis by (simp add: RNumber is_nan_def parse_amount_def decimal_of_raw_def)
    next
      case (Some v)
      then show ?thesis by (cases v) (auto simp: RNumber is_nan_def parse_amount_def decimal_of_raw_def body)
    qed
  qed (auto simp: parse_amount_def decimal_of_raw_def)
qed

section \<open>Fees\<close>

text \<open>A percentage with at most three decimals, as the tables keep it.\<close>

definition pct_ok :: "rat \<Rightarrow> bool" where
  "pct_ok p \<longleftrightarrow> 0 \<le> p \<and> p \<le> 100 \<and> of_int \<lfloor>p * 1000\<rfloor> = p * 1000"

definition amount_ok :: "rat \<Rightarrow> bool" where
  "amount_ok x \<longleftrightarrow> 0 < x \<and> whole_cents x \<and> x < 10 ^ 12"

lemma share_exact:
  assumes "amount_ok a" "pct_ok p"
  shows "dec (dec (a * p) / 100) = a * p / 100"
proof -
  from assms obtain k :: int where k: "a = of_int k / 100" by (auto simp: amount_ok_def whole_cents_iff)
  define j where "j = \<lfloor>p * 1000\<rfloor>"
  have j: "p = of_int j / 1000" using assms(2) unfolding pct_ok_def j_def by linarith
  have kj: "0 < k" "k < 10 ^ 14" "0 \<le> j" "j \<le> 10 ^ 5"
    using assms by (simp_all add: amount_ok_def pct_ok_def k j)
  have "k * j \<le> 10 ^ 14 * 10 ^ 5" using kj by (intro mult_mono) auto
  moreover have "0 \<le> k * j" using kj by simp
  ultimately have "\<bar>k * j\<bar> \<le> 10 ^ 14 * 10 ^ 5" by linarith
  also have "\<dots> < (10 ^ 28 :: int)" by simp
  finally have m: "\<bar>k * j\<bar> < 10 ^ 28" .
  have "dec (a * p) = a * p" by (rule dec_exact [OF _ m, of _ "-5"]) (simp add: k j)
  moreover have "dec (a * p / 100) = a * p / 100" by (rule dec_exact [OF _ m, of _ "-7"]) (simp add: k j)
  ultimately show ?thesis by simp
qed

lemma round_share:
  assumes "amount_ok a" "pct_ok p"
  shows "\<exists>f. round_cents (dec (dec (a * p) / 100)) = Inr f \<and> 0 \<le> f \<and> f \<le> a \<and> whole_cents f \<and> \<bar>f - a * p / 100\<bar> \<le> 1 / 200"
proof -
  let ?x = "a * p" and ?q = "round_half_up (a * p)"
  have a: "0 < a" "a < 10 ^ 12" and p: "0 \<le> p" "p \<le> 100" using assms by (auto simp: amount_ok_def pct_ok_def)
  from assms obtain k :: int where k: "a = of_int k / 100" by (auto simp: amount_ok_def whole_cents_iff)
  have "?x \<le> a * 100" using a p by (intro mult_left_mono) auto
  then have "?q \<le> round_half_up (of_int k)" by (intro round_half_up_mono) (simp add: k)
  then have q: "?q \<le> k" by simp
  have "round_half_up (of_int 0) \<le> ?q" using a p by (intro round_half_up_mono) simp
  then have q0: "0 \<le> ?q" unfolding round_half_up_int .
  have "k < 10 ^ 14" using a by (simp add: k)
  then have "\<bar>?q\<bar> < 10 ^ 28" using q q0 by simp
  then have r: "round_cents (dec (dec ?x / 100)) = Inr (of_int ?q / 100)"
    unfolding share_exact [OF assms] by (simp add: round_cents_def quantize_cents_def)
  have "\<bar>of_int ?q / 100 - ?x / 100\<bar> = \<bar>of_int ?q - ?x\<bar> / 100" by (simp flip: diff_divide_distrib add: abs_divide)
  also have "\<dots> \<le> (1 / 2) / 100" by (intro divide_right_mono round_half_up_error) simp
  finally have err: "\<bar>of_int ?q / 100 - ?x / 100\<bar> \<le> 1 / 200" by simp
  have "of_int ?q / 100 \<le> a" using q by (simp add: k)
  moreover have "whole_cents (of_int ?q / 100)" by (auto simp: whole_cents_iff)
  ultimately show ?thesis using r q0 err by (intro exI [of _ "of_int ?q / 100"]) simp
qed

text \<open>
  A fee is computed without an error and is never more than the amount it is taken from: for an
  accepted amount and a percentage up to a hundred with three decimals, the fee is a whole number of
  cents between zero and the amount, within half a cent of the exact share.
\<close>

lemma fee_within_amount:
  assumes "parse_amount raw field = Inr a" "pct_ok p"
  shows "\<exists>f. fee_for a p = Inr f \<and> 0 \<le> f \<and> f \<le> a \<and> whole_cents f \<and> \<bar>f - a * p / 100\<bar> \<le> 1 / 200"
proof -
  have "amount_ok a" using assms(1) by (simp add: amount_ok_def parse_amount_iff)
  from round_share [OF this assms(2)] show ?thesis by (simp add: fee_for_def)
qed

section \<open>Figures\<close>

lemma add_to_lookup:
  "map_of (add_to out (v, a)) w = (if w = v then map_option (\<lambda>x. dec (x + a)) (map_of out w) else map_of out w)"
  by (auto simp: add_to_def update_conv' split: option.split)

text \<open>Accumulating whole cents below \<open>10\<^sup>2\<^sup>6\<close> in absolute value is exact.\<close>

lemma add_all_exact:
  assumes "map_of out w = Some x" "whole_cents x" "\<forall>wa \<in> set es. whole_cents (snd wa)"
    and "\<bar>x\<bar> + (\<Sum>wa \<leftarrow> es. \<bar>snd wa\<bar>) < 10 ^ 26"
  shows "map_of (foldl add_to out es) w = Some (x + (\<Sum>wa \<leftarrow> es. if fst wa = w then snd wa else 0))"
  using assms
proof (induction es arbitrary: out x)
  case (Cons e es)
  obtain v a where e: "e = (v, a)" by (cases e)
  have rest: "0 \<le> (\<Sum>wa \<leftarrow> es. \<bar>snd wa\<bar>)" by (intro sum_list_nonneg) auto
  show ?case
  proof (cases "v = w")
    case True
    have "\<bar>x + a\<bar> < 10 ^ 26" using Cons.prems(4) rest abs_triangle_ineq [of x a] by (simp add: e)
    then have d: "dec (x + a) = x + a" using Cons.prems by (simp add: e)
    have "map_of (foldl add_to (add_to out e) es) w = Some (x + a + (\<Sum>wa \<leftarrow> es. if fst wa = w then snd wa else 0))"
      using Cons.prems abs_triangle_ineq [of x a] by (intro Cons.IH) (auto simp: e add_to_lookup d True)
    then show ?thesis by (simp add: e True)
  next
    case False
    then have "map_of (foldl add_to (add_to out e) es) w = Some (x + (\<Sum>wa \<leftarrow> es. if fst wa = w then snd wa else 0))"
      using Cons.prems by (intro Cons.IH) (auto simp: e add_to_lookup)
    then show ?thesis using False by (simp add: e)
  qed
qed simp

lemma zeros_lookup: "map_of zeros w = (if w \<in> set WALLETS then Some 0 else None)"
  by (auto simp: zeros_def map_of_map_restrict restrict_map_def)

lemma balance_exact:
  assumes "w \<in> set WALLETS" "\<forall>wa \<in> set es. whole_cents (snd wa)" "(\<Sum>wa \<leftarrow> es. \<bar>snd wa\<bar>) < 10 ^ 26"
  shows "map_of (balance es) w = Some (\<Sum>wa \<leftarrow> es. if fst wa = w then snd wa else 0)"
  using add_all_exact [of zeros w 0 es] assms by (simp add: balance_def zeros_lookup)

lemma holds_exact:
  assumes "w \<in> set WALLETS" "\<forall>a \<in> set ws. whole_cents a" "\<forall>wa \<in> set ts. whole_cents (snd wa)"
    and "(\<Sum>a \<leftarrow> ws. \<bar>a\<bar>) + (\<Sum>wa \<leftarrow> ts. \<bar>snd wa\<bar>) < 10 ^ 26"
  shows "map_of (holds ws ts) w =
    Some ((if w = ''main'' then sum_list ws else 0) + (\<Sum>wa \<leftarrow> ts. if fst wa = w then snd wa else 0))"
proof -
  have "map_of (foldl add_to zeros (map (\<lambda>a. (''main'', a)) ws @ ts)) w =
      Some (0 + (\<Sum>wa \<leftarrow> map (\<lambda>a. (''main'', a)) ws @ ts. if fst wa = w then snd wa else 0))"
    using assms by (intro add_all_exact) (auto simp: zeros_lookup comp_def)
  then show ?thesis by (auto simp: holds_def comp_def)
qed

section \<open>Printing and reading amounts\<close>

lemma digits_value_append: "digits_value acc (xs @ ys) = digits_value (digits_value acc xs) ys"
  by (induction xs arbitrary: acc) auto

lemma digits_value_str_nat: "digits_value 0 (str_nat n) = n"
proof (induction n rule: str_nat.induct)
  case (1 n)
  then show ?case
    by (subst str_nat.simps) (simp add: digits_value_append digit_char_props)
qed

lemma str_nat_all: "\<forall>c \<in> set (str_nat n). is_digit c \<and> \<not> is_space c \<and> c \<noteq> CHR ''_'' \<and> c \<noteq> CHR ''-'' \<and> c \<noteq> CHR ''+''"
proof
  fix c assume "c \<in> set (str_nat n)"
  then obtain d where d: "d < 10" "c = digit_char d" using str_nat_digits by blast
  have "is_digit c" using d digit_char_props by simp
  then have "c \<noteq> CHR ''_''" by (auto simp: is_digit_def)
  with d show "is_digit c \<and> \<not> is_space c \<and> c \<noteq> CHR ''_'' \<and> c \<noteq> CHR ''-'' \<and> c \<noteq> CHR ''+''"
    using digit_char_props by simp
qed

lemma digit_lower: "is_digit c \<Longrightarrow> lower_char c = c"
  by (simp add: is_digit_def lower_char_def Let_def)

lemma number_of_cents:
  assumes "d1 < 10" "d0 < 10"
  shows "number_of (str_nat m @ CHR ''.'' # [digit_char d1, digit_char d0]) = Some (of_nat (m * 100 + d1 * 10 + d0) / 100)"
proof -
  have dot: "\<not> is_digit CHR ''.''" by (simp add: is_digit_def)
  have "takeWhile is_digit (str_nat m @ CHR ''.'' # r) = str_nat m" "dropWhile is_digit (str_nat m @ CHR ''.'' # r) = CHR ''.'' # r" for r
    using str_nat_all [of m] dot by (simp_all add: takeWhile_append dropWhile_append)
  then show ?thesis
    using assms by (simp add: number_of_def Let_def digit_char_props exponent_of_def digits_value_append digits_value_str_nat)
qed

lemma decimal_of_digits:
  assumes "s = str_nat m @ CHR ''.'' # [digit_char d1, digit_char d0]" "d1 < 10" "d0 < 10"
  shows "decimal_of s = Some (Finite (of_nat (m * 100 + d1 * 10 + d0) / 100))"
proof -
  have chars: "\<forall>c \<in> set s. \<not> is_space c \<and> c \<noteq> CHR ''_''"
  proof -
    have "\<not> is_space c \<and> c \<noteq> CHR ''_''" if "is_digit c" for c using that by (auto simp: is_space_def is_digit_def)
    moreover have "\<not> is_space CHR ''.''" by (simp add: is_space_def)
    ultimately show ?thesis using str_nat_all [of m] digit_char_props(1) assms(2,3) unfolding assms(1) by simp
  qed
  have f: "filter (\<lambda>c. c \<noteq> CHR ''_'') (py_strip s) = s"
    using chars by (subst py_strip_id) (auto intro: filter_True)
  obtain c r where s: "s = c # r" "is_digit c" "c \<noteq> CHR ''-''" "c \<noteq> CHR ''+''"
    using str_nat_all [of m] assms(1) by (cases "str_nat m") auto
  have sign: "split_sign s = (False, s)" using s by (simp add: split_sign_def)
  have name: "py_lower s = c # py_lower r" using s by (simp add: py_lower_def digit_lower)
  have "c \<noteq> CHR ''i''" "c \<noteq> CHR ''n''" "c \<noteq> CHR ''s''" using s(2) by (auto simp: is_digit_def)
  then have "\<not> startswith (c # t) ''nan''" "\<not> startswith (c # t) ''snan''" "c # t \<noteq> ''inf''" "c # t \<noteq> ''infinity''" for t
    by (simp_all add: startswith_def)
  moreover have "number_of s = Some (of_nat (m * 100 + d1 * 10 + d0) / 100)"
    unfolding assms(1) by (rule number_of_cents [OF assms(2,3)])
  ultimately show ?thesis
    unfolding decimal_of_def f sign Let_def prod.case name by (simp only: if_False simp_thms option.map)
qed

text \<open>
  The figures the portal prints can be sent back as they are: for every amount the portal accepts,
  parsing its two-decimal form gives the same amount.
\<close>

lemma printed_amount_parses:
  assumes "amount_ok x"
  shows "parse_amount (RText (fmt2 x)) field = Inr x"
proof -
  from assms obtain k :: int where k: "x = of_int k / 100" by (auto simp: amount_ok_def whole_cents_iff)
  with assms have pos: "0 < k" by (simp add: amount_ok_def)
  define n where "n = nat k"
  have x: "x = of_nat n / 100" using pos by (simp add: k n_def)
  have "fmt2 x = str_nat (n div 100) @ CHR ''.'' # [digit_char (n mod 100 div 10), digit_char (n mod 10)]"
    using pos by (simp add: fmt2_def k n_def Let_def)
  then have "decimal_of (fmt2 x) = Some (Finite (of_nat (n div 100 * 100 + n mod 100 div 10 * 10 + n mod 10) / 100))"
  proof (rule decimal_of_digits)
    show "n mod 100 div 10 < 10" by (rule less_mult_imp_div_less) simp
  qed simp
  moreover have "n div 100 * 100 + n mod 100 div 10 * 10 + n mod 10 = n"
  proof -
    have "n mod 100 div 10 * 10 + n mod 10 = n mod 100"
      using div_mult_mod_eq [of "n mod 100" 10] mod_mod_cancel [of 10 100 n] by simp
    then show ?thesis using div_mult_mod_eq [of n 100] by linarith
  qed
  ultimately have "decimal_of_raw (RText (fmt2 x)) = Some (Finite x)" unfolding decimal_of_raw_def raw.case x by (simp only:)
  with assms show ?thesis unfolding parse_amount_iff amount_ok_def by blast
qed

end
