(* ===== verification/Api_Access.thy ===== *)
theory Api_Access
  imports Rounding
begin

text \<open>
  Who may call the web API and how often (\<^verbatim>\<open>api/auth.py\<close>, \<^verbatim>\<open>api/rbac.py\<close>,
  \<^verbatim>\<open>api/mpin_core.py\<close>): signed sessions with a revocable version, roles per organisation,
  the sliding-window rate limiter, and the six-digit MPIN with its lock.

  The cookie serializer and the password hash are other people's code: \<open>loads\<close> (a signature that does
  not verify, or has aged out, is \<open>None\<close>) and \<open>verify hash password\<close> are arguments. Times are seconds;
  the api's clock and the database's are separate arguments where the source reads both.
\<close>

section \<open>Replies\<close>

text \<open>
  An error response: an HTTP status and its detail, the two MPIN refusals that carry a number (the
  time the lock ends, the tries left), or an exception that was not caught (status 500).
\<close>

datatype http = Http nat string | MpinLocked rat | InvalidMpin int | Crash py_exc

type_synonym 'a reply = "http + 'a"

definition of_res :: "'a res \<Rightarrow> 'a reply" where
  "of_res r = (case r of Inl e \<Rightarrow> Inl (Crash e) | Inr x \<Rightarrow> Inr x)"

section \<open>Tables\<close>

record user_row =
  us_id :: ident
  us_email :: string
  us_session_version :: int
  us_mpin_hash :: "string option"
  us_failed :: int
  us_locked_until :: "rat option"

record member_row =
  mb_org :: ident
  mb_user :: ident
  mb_role :: string

record access =
  ac_users :: "user_row list"
  ac_members :: "member_row list"
  ac_accounts :: "(ident \<times> ident) list"
  ac_auth_events :: "(string \<times> ident) list"

definition find_user :: "ident \<Rightarrow> access \<Rightarrow> user_row option" where
  "find_user user_id a = find (\<lambda>u. us_id u = user_id) (ac_users a)"

definition on_user :: "ident \<Rightarrow> (user_row \<Rightarrow> user_row) \<Rightarrow> access \<Rightarrow> access" where
  "on_user user_id f a = a\<lparr>ac_users := map (\<lambda>u. if us_id u = user_id then f u else u) (ac_users a)\<rparr>"

section \<open>Sessions\<close>

text \<open>What a cookie carries, each field absent when it is not of the type the source asks for.\<close>

record session_data =
  sd_user :: "ident option"
  sd_version :: "int option"
  sd_pin :: "bool option"

record session_info =
  si_user_id :: ident
  si_version :: int
  si_pin :: bool

definition unpack_session :: "(string \<Rightarrow> session_data option) \<Rightarrow> string \<Rightarrow> (ident \<times> int \<times> bool) option" where
  "unpack_session loads session =
     (case loads session of
        None \<Rightarrow> None
      | Some data \<Rightarrow>
          (case sd_user data of
             None \<Rightarrow> None
           | Some u \<Rightarrow> Some (u, (case sd_version data of Some v \<Rightarrow> v | None \<Rightarrow> 0), sd_pin data = Some True)))"

definition session_version_matches :: "ident \<Rightarrow> int \<Rightarrow> access \<Rightarrow> bool" where
  "session_version_matches user_id version a =
     (case find_user user_id a of None \<Rightarrow> False | Some u \<Rightarrow> us_session_version u = version)"

definition require_half_session :: "(string \<Rightarrow> session_data option) \<Rightarrow> string option \<Rightarrow> access \<Rightarrow> session_info reply" where
  "require_half_session loads session a =
     (case session of
        None \<Rightarrow> Inl (Http 401 ''Not authenticated'')
      | Some s \<Rightarrow>
          if s = [] then Inl (Http 401 ''Not authenticated'')
          else (case unpack_session loads s of
                  None \<Rightarrow> Inl (Http 401 ''Not authenticated'')
                | Some (user_id, version, pin) \<Rightarrow>
                    if \<not> session_version_matches user_id version a then Inl (Http 401 ''Session expired'')
                    else Inr \<lparr>si_user_id = user_id, si_version = version, si_pin = pin\<rparr>))"

definition require_user :: "(string \<Rightarrow> session_data option) \<Rightarrow> string option \<Rightarrow> access \<Rightarrow> ident reply" where
  "require_user loads session a =
     (case require_half_session loads session a of
        Inl e \<Rightarrow> Inl e
      | Inr info \<Rightarrow> if \<not> si_pin info then Inl (Http 401 ''MPIN required'') else Inr (si_user_id info))"

section \<open>Roles\<close>

definition ROLE_RANK :: "(string, int) dict" where
  "ROLE_RANK = [(''investor'', -1), (''viewer'', 0), (''admin'', 1)]"

record org_context =
  cx_org :: ident
  cx_user :: ident
  cx_role :: string
  cx_email :: string

text \<open>The membership row joined with its user; roles outside the table are ruled out by its CHECK.\<close>

definition rank_of :: "string \<Rightarrow> int" where
  "rank_of role = (case map_of ROLE_RANK role of Some r \<Rightarrow> r | None \<Rightarrow> -1)"

definition membership :: "ident \<Rightarrow> ident \<Rightarrow> access \<Rightarrow> (string \<times> string) option" where
  "membership org_id user_id a =
     (case find (\<lambda>m. mb_org m = org_id \<and> mb_user m = user_id) (ac_members a) of
        None \<Rightarrow> None
      | Some m \<Rightarrow> map_option (\<lambda>u. (mb_role m, us_email u)) (find_user user_id a))"

definition require_org_role ::
  "string \<Rightarrow> (string \<Rightarrow> session_data option) \<Rightarrow> string option \<Rightarrow> ident \<Rightarrow> access \<Rightarrow> org_context reply" where
  "require_org_role min_role loads session org_id a =
     (case require_user loads session a of
        Inl e \<Rightarrow> Inl e
      | Inr user_id \<Rightarrow>
          (case membership org_id user_id a of
             None \<Rightarrow> Inl (Http 404 ''Not found'')
           | Some (role, email) \<Rightarrow>
               if rank_of role < rank_of min_role then Inl (Http 403 ''Insufficient role'')
               else Inr \<lparr>cx_org = org_id, cx_user = user_id, cx_role = role, cx_email = email\<rparr>))"

definition require_investor ::
  "(string \<Rightarrow> session_data option) \<Rightarrow> string option \<Rightarrow> ident \<Rightarrow> access \<Rightarrow> org_context reply" where
  "require_investor loads session org_id a =
     (case require_org_role ''investor'' loads session org_id a of
        Inl e \<Rightarrow> Inl e
      | Inr ctx \<Rightarrow> if cx_role ctx \<noteq> ''investor'' then Inl (Http 403 ''Insufficient role'') else Inr ctx)"

definition require_account_in_org :: "ident \<Rightarrow> ident \<Rightarrow> access \<Rightarrow> unit reply" where
  "require_account_in_org org_id account_id a =
     (if (account_id, org_id) \<in> set (ac_accounts a) then Inr () else Inl (Http 404 ''Account not found''))"

section \<open>Rate limits\<close>

record limiter =
  lm_max :: int
  lm_window :: rat
  lm_attempts :: "(string, rat list) dict"
  lm_sweep_at :: int

definition new_limiter :: "int \<Rightarrow> rat \<Rightarrow> limiter" where
  "new_limiter max_attempts window_s = \<lparr>lm_max = max_attempts, lm_window = window_s, lm_attempts = [], lm_sweep_at = 1024\<rparr>"

definition attempts_of :: "string \<Rightarrow> (string, rat list) dict \<Rightarrow> rat list" where
  "attempts_of key d = (case map_of d key of Some ts \<Rightarrow> ts | None \<Rightarrow> [])"

definition sweep :: "rat \<Rightarrow> limiter \<Rightarrow> limiter" where
  "sweep cutoff lm =
     (if lm_sweep_at lm < int (length (lm_attempts lm))
      then let kept = filter (\<lambda>kv. snd kv \<noteq> [] \<and> cutoff < Max (set (snd kv))) (lm_attempts lm)
           in lm\<lparr>lm_attempts := kept, lm_sweep_at := max 1024 (int (length kept) * 2)\<rparr>
      else lm)"

definition is_limited :: "string \<Rightarrow> int option \<Rightarrow> rat \<Rightarrow> limiter \<Rightarrow> bool \<times> limiter" where
  "is_limited key max_attempts now lm =
     (let limit = (case max_attempts of None \<Rightarrow> lm_max lm | Some m \<Rightarrow> m);
          cutoff = fl (now - lm_window lm);
          lm1 = lm\<lparr>lm_attempts := AList.update key (filter (\<lambda>t. cutoff < t) (attempts_of key (lm_attempts lm))) (lm_attempts lm)\<rparr>;
          lm2 = sweep cutoff lm1;
          ts = attempts_of key (lm_attempts lm2)
      in if limit \<le> int (length ts) then (True, lm2\<lparr>lm_attempts := AList.update key ts (lm_attempts lm2)\<rparr>)
         else (False, lm2\<lparr>lm_attempts := AList.update key (ts @ [now]) (lm_attempts lm2)\<rparr>))"

section \<open>The MPIN\<close>

definition MPIN_MAX_ATTEMPTS :: int where "MPIN_MAX_ATTEMPTS = 5"
definition MPIN_LOCK_S :: rat where "MPIN_LOCK_S = 15 * 60"

definition audit_auth :: "ident \<Rightarrow> string \<Rightarrow> access \<Rightarrow> access" where
  "audit_auth user_id action a = a\<lparr>ac_auth_events := ac_auth_events a @ [(action, user_id)]\<rparr>"

definition lock_state :: "ident \<Rightarrow> access \<Rightarrow> (string option \<times> int \<times> rat option) reply" where
  "lock_state user_id a =
     (case find_user user_id a of
        None \<Rightarrow> Inl (Http 401 ''Not authenticated'')
      | Some u \<Rightarrow> Inr (us_mpin_hash u, us_failed u, us_locked_until u))"

definition lock_mpin :: "ident \<Rightarrow> rat \<Rightarrow> access \<Rightarrow> rat \<times> access" where
  "lock_mpin user_id now a =
     (let until = now + MPIN_LOCK_S
      in (until, audit_auth user_id ''mpin_locked'' (on_user user_id (\<lambda>u. u\<lparr>us_failed := 0, us_locked_until := Some until\<rparr>) a)))"

text \<open>The guarded UPDATE that reserves a try: the new count and the hash to verify against.\<close>

definition may_try :: "rat \<Rightarrow> user_row \<Rightarrow> bool" where
  "may_try db_now u = (us_mpin_hash u \<noteq> None \<and> (case us_locked_until u of None \<Rightarrow> True | Some l \<Rightarrow> l \<le> db_now) \<and>
     us_failed u < MPIN_MAX_ATTEMPTS)"

definition reserve_try :: "ident \<Rightarrow> rat \<Rightarrow> access \<Rightarrow> (int \<times> string) option \<times> access" where
  "reserve_try user_id db_now a =
     (case find_user user_id a of
        None \<Rightarrow> (None, a)
      | Some u \<Rightarrow>
          if may_try db_now u
          then (Some (us_failed u + 1, the (us_mpin_hash u)), on_user user_id (\<lambda>u. u\<lparr>us_failed := us_failed u + 1\<rparr>) a)
          else (None, a))"

definition refuse_try :: "ident \<Rightarrow> rat \<Rightarrow> access \<Rightarrow> http \<times> access" where
  "refuse_try user_id db_now a =
     (case lock_state user_id a of
        Inl e \<Rightarrow> (e, a)
      | Inr (mpin_hash, _, locked_until) \<Rightarrow>
          if mpin_hash = None then (Http 409 ''MPIN not set'', a)
          else case locked_until of
            Some l \<Rightarrow> if db_now < l then (MpinLocked l, a)
                      else let (until, a1) = lock_mpin user_id db_now a in (MpinLocked until, a1)
          | None \<Rightarrow> let (until, a1) = lock_mpin user_id db_now a in (MpinLocked until, a1))"

definition check_mpin :: "(string \<Rightarrow> string \<Rightarrow> bool) \<Rightarrow> rat \<Rightarrow> rat \<Rightarrow> ident \<Rightarrow> string \<Rightarrow> access \<Rightarrow> http option \<times> access" where
  "check_mpin verify now db_now user_id mpin a =
     (case reserve_try user_id db_now a of
        (None, a1) \<Rightarrow> let (e, a2) = refuse_try user_id db_now a1 in (Some e, a2)
      | (Some (tries, mpin_hash), a1) \<Rightarrow>
          if verify mpin_hash mpin
          then (None, on_user user_id (\<lambda>u. u\<lparr>us_failed := 0, us_locked_until := None\<rparr>) a1)
          else if MPIN_MAX_ATTEMPTS \<le> tries
          then let (until, a2) = lock_mpin user_id now a1 in (Some (MpinLocked until), a2)
          else (Some (InvalidMpin (MPIN_MAX_ATTEMPTS - tries)), a1))"

definition mpin_form :: "string option \<Rightarrow> bool" where
  "mpin_form m = (case m of None \<Rightarrow> False | Some s \<Rightarrow> length s = 6 \<and> (\<forall>c \<in> set s. is_digit c))"

text \<open>The step-up gate; the field is \<open>None\<close> when it is not a string.\<close>

definition require_mpin ::
  "(string \<Rightarrow> string \<Rightarrow> bool) \<Rightarrow> rat \<Rightarrow> rat \<Rightarrow> ident \<Rightarrow> string option \<Rightarrow> access \<Rightarrow> http option \<times> access" where
  "require_mpin verify now db_now user_id mpin a =
     (if \<not> mpin_form mpin then (Some (Http 400 ''MPIN must be exactly 6 digits''), a)
      else check_mpin verify now db_now user_id (the mpin) a)"

section \<open>What the limiter promises\<close>

text \<open>The calls a limiter lets through, with their times, over a sequence of calls.\<close>

fun let_through :: "(string \<times> rat) list \<Rightarrow> limiter \<Rightarrow> (string \<times> rat) list \<times> limiter" where
  "let_through [] lm = ([], lm)"
| "let_through ((key, now) # cs) lm =
     (let (limited, lm1) = is_limited key None now lm; (passed, lm2) = let_through cs lm1
      in (if limited then passed else (key, now) # passed, lm2))"

definition stamps :: "string \<Rightarrow> rat \<Rightarrow> (string \<times> rat) list \<Rightarrow> rat list" where
  "stamps key cutoff cs = filter (\<lambda>t. cutoff < t) (map snd (filter (\<lambda>c. fst c = key) cs))"

text \<open>
  At time \<open>now\<close> a limiter accounts for the calls \<open>passed\<close>: per key it remembers at most the limit, and
  everything still inside the window.
\<close>

definition accounts_for :: "limiter \<Rightarrow> (string \<times> rat) list \<Rightarrow> rat \<Rightarrow> bool" where
  "accounts_for lm passed now \<longleftrightarrow> distinct (map fst (lm_attempts lm)) \<and>
     (\<forall>key. int (length (attempts_of key (lm_attempts lm))) \<le> max 0 (lm_max lm) \<and>
        filter (\<lambda>t. fl (now - lm_window lm) < t) (attempts_of key (lm_attempts lm)) = stamps key (fl (now - lm_window lm)) passed)"

lemma filter_twice: "(\<And>t. P t \<Longrightarrow> Q t) \<Longrightarrow> filter P (filter Q xs) = filter P xs"
  by (auto intro: filter_cong)

lemma stamps_later: "c \<le> c' \<Longrightarrow> stamps key c' cs = filter (\<lambda>t. c' < t) (stamps key c cs)"
  by (auto simp: stamps_def intro!: filter_cong)

lemma accounts_later:
  assumes "accounts_for lm passed now" "now \<le> now'"
  shows "accounts_for lm passed now'"
proof -
  have c: "fl (now - lm_window lm) \<le> fl (now' - lm_window lm)" using assms(2) by (intro fl.rnd_mono) simp
  have "filter (\<lambda>t. fl (now' - lm_window lm) < t) ts =
      filter (\<lambda>t. fl (now' - lm_window lm) < t) (filter (\<lambda>t. fl (now - lm_window lm) < t) ts)" for ts
    using c by (auto intro!: filter_cong)
  then show ?thesis using assms(1) stamps_later [OF c] unfolding accounts_for_def by metis
qed

lemma map_of_filter_distinct:
  "distinct (map fst xs) \<Longrightarrow>
   map_of (filter P xs) k = (case map_of xs k of Some v \<Rightarrow> if P (k, v) then Some v else None | None \<Rightarrow> None)"
proof (induction xs)
  case (Cons x xs)
  have "map_of (filter P xs) (fst x) = None" using Cons.prems by (auto simp: map_of_eq_None_iff)
  with Cons show ?case by (cases x) auto
qed simp

lemma sweep_attempts:
  assumes "distinct (map fst (lm_attempts lm))"
  shows "distinct (map fst (lm_attempts (sweep c lm)))"
    "attempts_of key (lm_attempts (sweep c lm)) = attempts_of key (lm_attempts lm) \<or>
     attempts_of key (lm_attempts (sweep c lm)) = [] \<and> filter (\<lambda>t. c < t) (attempts_of key (lm_attempts lm)) = []"
    "lm_max (sweep c lm) = lm_max lm" "lm_window (sweep c lm) = lm_window lm"
proof -
  let ?P = "\<lambda>kv. snd kv \<noteq> [] \<and> c < Max (set (snd kv))"
  show "distinct (map fst (lm_attempts (sweep c lm)))"
    using assms by (auto simp: sweep_def Let_def distinct_map_filter)
  have "map_of (filter ?P (lm_attempts lm)) key = (case map_of (lm_attempts lm) key of
      Some ts \<Rightarrow> if ?P (key, ts) then Some ts else None | None \<Rightarrow> None)"
    by (rule map_of_filter_distinct [OF assms])
  moreover have "filter (\<lambda>t. c < t) ts = []" if "\<not> (ts \<noteq> [] \<and> c < Max (set ts))" for ts
    using that by (auto simp: filter_empty_conv dest: Max_ge [OF finite_set] order_less_le_trans)
  ultimately show "attempts_of key (lm_attempts (sweep c lm)) = attempts_of key (lm_attempts lm) \<or>
     attempts_of key (lm_attempts (sweep c lm)) = [] \<and> filter (\<lambda>t. c < t) (attempts_of key (lm_attempts lm)) = []"
    by (auto simp: sweep_def Let_def attempts_of_def split: option.split if_splits)
qed (simp_all add: sweep_def Let_def)

lemma is_limited_accounts:
  assumes inv: "accounts_for lm passed now" and lim: "is_limited key None now lm = (limited, lm')"
    and old: "\<forall>c \<in> set passed. snd c \<le> now"
  shows "accounts_for lm' (if limited then passed else passed @ [(key, now)]) now"
    "lm_max lm' = lm_max lm" "lm_window lm' = lm_window lm"
proof -
  define c where "c = fl (now - lm_window lm)"
  define lm1 where "lm1 = lm\<lparr>lm_attempts := AList.update key (filter (\<lambda>t. c < t) (attempts_of key (lm_attempts lm))) (lm_attempts lm)\<rparr>"
  define lm2 where "lm2 = sweep c lm1"
  define ts where "ts = attempts_of key (lm_attempts lm2)"
  have dist: "distinct (map fst (lm_attempts lm))" using inv by (simp add: accounts_for_def)
  have d1: "distinct (map fst (lm_attempts lm1))" using dist by (simp add: lm1_def distinct_update)
  note sw = sweep_attempts [OF d1, where c = c, folded lm2_def]
  have m: "lm_max lm2 = lm_max lm" "lm_window lm2 = lm_window lm" using sw(3,4) by (simp_all add: lm1_def)
  have at1: "attempts_of k (lm_attempts lm1) = (if k = key then filter (\<lambda>t. c < t) (attempts_of k (lm_attempts lm)) else attempts_of k (lm_attempts lm))" for k
    by (simp add: lm1_def attempts_of_def update_conv')
  have kept: "filter (\<lambda>t. c < t) (attempts_of k (lm_attempts lm2)) = stamps k c passed" for k
  proof -
    have "filter (\<lambda>t. c < t) (attempts_of k (lm_attempts lm1)) = stamps k c passed"
      using inv stamps_later [of c c key passed, symmetric] by (auto simp: at1 accounts_for_def c_def)
    with sw(2) [of k] show ?thesis by auto
  qed
  have short: "int (length (attempts_of k (lm_attempts lm2))) \<le> max 0 (lm_max lm)" for k
  proof -
    have "length (attempts_of k (lm_attempts lm2)) \<le> length (attempts_of k (lm_attempts lm))"
      using sw(2) [of k] by (auto simp: at1 split: if_splits)
    moreover have "int (length (attempts_of k (lm_attempts lm))) \<le> max 0 (lm_max lm)" using inv by (simp add: accounts_for_def)
    ultimately show ?thesis by linarith
  qed
  have res: "limited = (lm_max lm \<le> int (length ts))"
    "lm' = (if limited then lm2\<lparr>lm_attempts := AList.update key ts (lm_attempts lm2)\<rparr>
            else lm2\<lparr>lm_attempts := AList.update key (ts @ [now]) (lm_attempts lm2)\<rparr>)"
    using lim by (auto simp: is_limited_def Let_def c_def [symmetric] lm1_def [symmetric] lm2_def [symmetric] ts_def [symmetric] split: if_splits)
  have same: "lm_max lm' = lm_max lm" "lm_window lm' = lm_window lm" by (simp_all add: res(2) m)
  then show "lm_max lm' = lm_max lm" "lm_window lm' = lm_window lm" by simp_all
  have d2: "distinct (map fst (lm_attempts lm'))" using sw(1) by (simp add: res(2) distinct_update)
  have at: "attempts_of k (lm_attempts lm') = (if k = key then if limited then ts else ts @ [now] else attempts_of k (lm_attempts lm2))" for k
    by (simp add: res(2) attempts_of_def update_conv')
  have st: "stamps k c (passed @ [(key, now)]) = stamps k c passed @ (if k = key \<and> c < now then [now] else [])" for k
    by (simp add: stamps_def)
  have "filter (\<lambda>t. c < t) (attempts_of k (lm_attempts lm')) = stamps k c (if limited then passed else passed @ [(key, now)])" for k
    using kept [of k] kept [of key] by (simp add: at st ts_def)
  moreover have "int (length (attempts_of k (lm_attempts lm'))) \<le> max 0 (lm_max lm)" for k
    using short [of k] short [of key] res(1) by (auto simp: at ts_def)
  ultimately show "accounts_for lm' (if limited then passed else passed @ [(key, now)]) now"
    using d2 unfolding accounts_for_def same c_def by blast
qed

lemma let_through_accounts:
  assumes "accounts_for lm passed start" "sorted_wrt (\<le>) (start # map snd cs)" "\<forall>c \<in> set passed. snd c \<le> start"
    and "let_through cs lm = (new, lm')"
  shows "accounts_for lm' (passed @ new) (last (start # map snd cs)) \<and> lm_max lm' = lm_max lm \<and> lm_window lm' = lm_window lm"
  using assms
proof (induction cs arbitrary: lm passed start new)
  case (Cons c cs)
  obtain key now where c: "c = (key, now)" by (cases c)
  obtain limited lm1 where lim: "is_limited key None now lm = (limited, lm1)" by force
  obtain rest where r: "let_through cs lm1 = (rest, lm')" using Cons.prems(4) by (auto simp: c lim Let_def split: prod.splits)
  define p where "p = (if limited then passed else passed @ [(key, now)])"
  have new: "passed @ new = p @ rest" using Cons.prems(4) by (auto simp: c lim r p_def)
  have old: "\<forall>c \<in> set passed. snd c \<le> now" using Cons.prems(2,3) by (auto simp: c)
  have "accounts_for lm passed now" by (rule accounts_later [OF Cons.prems(1)]) (use Cons.prems(2) in \<open>simp add: c\<close>)
  note step = is_limited_accounts [OF this lim old, folded p_def]
  have "\<forall>c \<in> set p. snd c \<le> now" using old by (auto simp: p_def split: if_splits)
  from Cons.IH [OF step(1) _ this r] Cons.prems(2) step show ?case by (simp add: c new)
qed simp

text \<open>
  C35. The rate limiter keeps its word: whatever the sequence of calls (in the order of the clock, over
  any keys, across its sweeps), a key is let through at most \<open>L\<close> times within any window that ends
  at the last call.
\<close>

theorem rate_limit_bound:
  assumes "sorted_wrt (\<le>) (map snd cs)" "cs \<noteq> []"
  shows "int (length (stamps key (fl (snd (last cs) - w)) (fst (let_through cs (new_limiter L w))))) \<le> max 0 L"
proof -
  let ?lm = "new_limiter L w" and ?start = "snd (hd cs)"
  obtain new lm' where r: "let_through cs ?lm = (new, lm')" by force
  have "accounts_for ?lm [] ?start" by (simp add: accounts_for_def new_limiter_def attempts_of_def stamps_def)
  moreover have "sorted_wrt (\<le>) (?start # map snd cs)" using assms by (cases cs) auto
  ultimately have "accounts_for lm' new (last (?start # map snd cs)) \<and> lm_max lm' = L \<and> lm_window lm' = w"
    using let_through_accounts [OF _ _ _ r, of "[]"] by (simp add: new_limiter_def)
  moreover have "last (?start # map snd cs) = snd (last cs)" using assms(2) by (simp add: last_map)
  ultimately have "stamps key (fl (snd (last cs) - w)) new = filter (\<lambda>t. fl (snd (last cs) - w) < t) (attempts_of key (lm_attempts lm'))"
    and "int (length (attempts_of key (lm_attempts lm'))) \<le> max 0 L" by (auto simp: accounts_for_def)
  moreover have "int (length (filter (\<lambda>t. fl (snd (last cs) - w) < t) (attempts_of key (lm_attempts lm')))) \<le> int (length (attempts_of key (lm_attempts lm')))"
    by (intro of_nat_mono length_filter_le)
  ultimately show ?thesis by (simp only: r fst_conv)
qed

theorem rate_limit_bound_witness:
  "int (length (stamps ''k'' (fl (3 - 60)) (fst (let_through [(''k'', 1), (''k'', 2), (''k'', 3)] (new_limiter 2 60))))) \<le> 2"
  using rate_limit_bound [of "[(''k'', 1), (''k'', 2), (''k'', 3)]" "''k''" 60 2] by simp

section \<open>What the MPIN lock promises\<close>

text \<open>How many of a series of tries were compared with the user's MPIN; the two clocks agree.\<close>

fun compared_tries :: "(string \<Rightarrow> string \<Rightarrow> bool) \<Rightarrow> ident \<Rightarrow> (rat \<times> string) list \<Rightarrow> access \<Rightarrow> nat" where
  "compared_tries verify user_id [] a = 0"
| "compared_tries verify user_id ((now, mpin) # rest) a =
     (if fst (reserve_try user_id now a) \<noteq> None then 1 else 0) +
     compared_tries verify user_id rest (snd (check_mpin verify now now user_id mpin a))"

lemma find_on_user: "find_user u (on_user u f a) = map_option f (find_user u a)"
  if "\<And>x. us_id (f x) = us_id x"
proof -
  have "find (\<lambda>x. us_id x = u) (map (\<lambda>x. if us_id x = u then f x else x) us) = map_option f (find (\<lambda>x. us_id x = u) us)" for us
    using that by (induction us) auto
  then show ?thesis by (simp add: find_user_def on_user_def)
qed

lemma find_audit [simp]: "find_user u (audit_auth v s a) = find_user u a"
  by (simp add: find_user_def audit_auth_def)

text \<open>One wrong try: the user's counter and lock afterwards.\<close>

lemma wrong_try:
  assumes u: "find_user uid a = Some u" and h: "us_mpin_hash u = Some h" and wrong: "\<not> verify h mpin"
  shows "\<exists>u'. find_user uid (snd (check_mpin verify now now uid mpin a)) = Some u' \<and> us_mpin_hash u' = Some h \<and>
    (if may_try now u then if us_failed u + 1 < MPIN_MAX_ATTEMPTS then us_failed u' = us_failed u + 1 \<and> us_locked_until u' = us_locked_until u
       else us_locked_until u' = Some (now + MPIN_LOCK_S)
     else us_locked_until u' = Some (now + MPIN_LOCK_S) \<or>
         us_failed u' = us_failed u \<and> us_locked_until u' = us_locked_until u \<and> (\<exists>l. us_locked_until u = Some l \<and> now < l))"
proof (cases "may_try now u")
  case True
  then show ?thesis using u h wrong
    by (auto simp: check_mpin_def reserve_try_def lock_mpin_def Let_def find_on_user)
next
  case False
  then show ?thesis using u h
    by (cases "us_locked_until u") (auto simp: check_mpin_def reserve_try_def refuse_try_def lock_state_def lock_mpin_def Let_def find_on_user)
qed

lemma reserve_iff: "find_user uid a = Some u \<Longrightarrow> fst (reserve_try uid now a) \<noteq> None \<longleftrightarrow> may_try now u"
  by (simp add: reserve_try_def)

lemma locked_out:
  assumes "find_user uid a = Some u" "us_mpin_hash u = Some h" "us_locked_until u = Some l"
    and "\<forall>g \<in> set guesses. fst g < l"
  shows "compared_tries verify uid guesses a = 0"
  using assms
proof (induction guesses arbitrary: a u)
  case (Cons g guesses)
  obtain now mpin where g: "g = (now, mpin)" by (cases g)
  have no: "\<not> may_try now u" using Cons.prems by (simp add: may_try_def g)
  have still: "\<exists>u'. find_user uid (snd (check_mpin verify now now uid mpin a)) = Some u' \<and> us_mpin_hash u' = Some h \<and> us_locked_until u' = Some l"
    using Cons.prems no by (simp add: g check_mpin_def reserve_try_def refuse_try_def lock_state_def)
  then obtain u' where "find_user uid (snd (check_mpin verify now now uid mpin a)) = Some u'" "us_mpin_hash u' = Some h" "us_locked_until u' = Some l"
    by blast
  note later = Cons.IH [OF this]
  have "fst (reserve_try uid now a) = None" using Cons.prems(1) no by (simp add: reserve_try_def)
  with later Cons.prems show ?case by (simp add: g)
qed simp

lemma guesses_left:
  assumes "find_user uid a = Some u" "us_mpin_hash u = Some h" "us_failed u \<le> MPIN_MAX_ATTEMPTS"
    and "\<forall>g \<in> set guesses. t0 \<le> fst g \<and> fst g < t0 + MPIN_LOCK_S \<and> \<not> verify h (snd g)"
  shows "int (compared_tries verify uid guesses a) \<le> MPIN_MAX_ATTEMPTS - us_failed u"
  using assms
proof (induction guesses arbitrary: a u)
  case (Cons g guesses)
  obtain now mpin where g: "g = (now, mpin)" by (cases g)
  let ?a' = "snd (check_mpin verify now now uid mpin a)"
  have wrong: "\<not> verify h mpin" and now: "t0 \<le> now" "now < t0 + MPIN_LOCK_S" using Cons.prems(4) by (auto simp: g)
  from wrong_try [where verify = verify and now = now and mpin = mpin, OF Cons.prems(1,2) wrong] obtain u' where
    u': "find_user uid ?a' = Some u'" "us_mpin_hash u' = Some h"
    and eff: "if may_try now u then if us_failed u + 1 < MPIN_MAX_ATTEMPTS then us_failed u' = us_failed u + 1 \<and> us_locked_until u' = us_locked_until u
         else us_locked_until u' = Some (now + MPIN_LOCK_S)
       else us_locked_until u' = Some (now + MPIN_LOCK_S) \<or>
         us_failed u' = us_failed u \<and> us_locked_until u' = us_locked_until u \<and> (\<exists>l. us_locked_until u = Some l \<and> now < l)"
    by blast
  have out: "compared_tries verify uid guesses ?a' = 0" if "us_locked_until u' = Some (now + MPIN_LOCK_S)"
    using that now Cons.prems(4) by (intro locked_out [OF u']) auto
  have r: "compared_tries verify uid (g # guesses) a = (if may_try now u then 1 else 0) + compared_tries verify uid guesses ?a'"
    using reserve_iff [OF Cons.prems(1), of now] by (simp add: g)
  show ?case
  proof (cases "may_try now u")
    case True
    then have few: "us_failed u < MPIN_MAX_ATTEMPTS" by (simp add: may_try_def)
    show ?thesis
    proof (cases "us_failed u + 1 < MPIN_MAX_ATTEMPTS")
      case less: True
      then have f: "us_failed u' = us_failed u + 1" using eff True by simp
      have "int (compared_tries verify uid guesses ?a') \<le> MPIN_MAX_ATTEMPTS - us_failed u'"
        by (rule Cons.IH [OF u']) (use f less Cons.prems(4) in auto)
      then show ?thesis unfolding r using True f by simp
    next
      case False
      then have "compared_tries verify uid guesses ?a' = 0" using out eff True by simp
      then show ?thesis unfolding r using True few by simp
    qed
  next
    case False
    then consider "us_locked_until u' = Some (now + MPIN_LOCK_S)" | "us_failed u' = us_failed u" using eff by auto
    then show ?thesis
    proof cases
      case 1
      then show ?thesis unfolding r using False out Cons.prems(3) by simp
    next
      case 2
      have "int (compared_tries verify uid guesses ?a') \<le> MPIN_MAX_ATTEMPTS - us_failed u'"
        by (rule Cons.IH [OF u']) (use 2 Cons.prems(3,4) in auto)
      then show ?thesis unfolding r using False 2 by simp
    qed
  qed
qed simp

text \<open>
  C34. A guesser gets five tries per quarter of an hour: of any series of wrong MPINs sent within
  fifteen minutes, at most five are compared with the user's MPIN, whatever the state of the counter
  and the lock when the series starts.
\<close>

theorem mpin_guesses_bounded:
  assumes "find_user uid a = Some u" "us_mpin_hash u = Some h" "0 \<le> us_failed u" "us_failed u \<le> MPIN_MAX_ATTEMPTS"
    and "\<forall>g \<in> set guesses. t \<le> fst g \<and> fst g < t + MPIN_LOCK_S \<and> \<not> verify h (snd g)"
  shows "int (compared_tries verify uid guesses a) \<le> 5"
  using guesses_left [where verify = verify and guesses = guesses and ?t0.0 = t, OF assms(1,2,4,5)] assms(3) by (simp add: MPIN_MAX_ATTEMPTS_def)

definition witness_access :: access where
  "witness_access = \<lparr>ac_users = [\<lparr>us_id = 3, us_email = ''a@b'', us_session_version = 0, us_mpin_hash = Some ''123456'',
     us_failed = 4, us_locked_until = None\<rparr>], ac_members = [], ac_accounts = [], ac_auth_events = []\<rparr>"

theorem mpin_guesses_bounded_witness:
  "int (compared_tries (=) 3 (map (\<lambda>t. (t, ''000000'')) [1, 2, 3, 4, 5, 6, 7]) witness_access) \<le> 5"
  by (rule mpin_guesses_bounded [where t = 0])
    (auto simp: witness_access_def find_user_def MPIN_MAX_ATTEMPTS_def MPIN_LOCK_S_def)

section \<open>Who gets in\<close>

text \<open>
  A desk route for administrators is served only to a session whose signature the serializer accepts,
  whose version is still the user's current one, that has passed the MPIN step, and whose user is an
  administrator of the organisation named in the path; and a session is refused once the user's version
  has moved on.
\<close>

lemma admin_route_needs_admin:
  "require_org_role ''admin'' loads cookie org a = Inr ctx \<longleftrightarrow>
   (\<exists>s data uid u m. cookie = Some s \<and> s \<noteq> [] \<and> loads s = Some data \<and> sd_user data = Some uid \<and> sd_pin data = Some True \<and>
      find_user uid a = Some u \<and> us_session_version u = (case sd_version data of Some v \<Rightarrow> v | None \<Rightarrow> 0) \<and>
      find (\<lambda>m. mb_org m = org \<and> mb_user m = uid) (ac_members a) = Some m \<and> mb_role m = ''admin'' \<and>
      ctx = \<lparr>cx_org = org, cx_user = uid, cx_role = ''admin'', cx_email = us_email u\<rparr>)"
proof -
  have rank: "\<not> rank_of r < rank_of ''admin'' \<longleftrightarrow> r = ''admin''" for r
    by (auto simp: rank_of_def ROLE_RANK_def)
  show ?thesis
    unfolding require_org_role_def require_user_def require_half_session_def unpack_session_def session_version_matches_def membership_def
    by (auto simp: rank split: option.splits if_splits sum.splits)
qed

end
