(* ===== verification/Portal_Store.thy ===== *)
theory Portal_Store
  imports Portal_Ledger Api_Access
begin

text \<open>
  The client portal's tables (\<^verbatim>\<open>db/migrations/022\<close> to \<^verbatim>\<open>025\<close>) and what the routes
  share on them (\<^verbatim>\<open>api/portal_common.py\<close>): account ownership, wallet figures, the one writer
  of settlements, bonuses and the settings row.

  A table is the list of its rows in insertion order; a \<^verbatim>\<open>BIGSERIAL\<close> is a counter. Columns only
  shown to people (timestamps, an audit row's amounts and labels, the body of a notification) are left
  out. The advisory lock of \<^verbatim>\<open>lock_investor_ledger\<close> has no state: it makes the transaction that
  takes it one step of the runs of Portal\<open>_\<close>Desk.
\<close>

section \<open>Tables\<close>

record entry =
  we_id :: ident
  we_org :: ident
  we_user :: ident
  we_wallet :: string
  we_amount :: rat
  we_kind :: string
  we_ref :: "(string \<times> ident) option"
  we_note :: "string option"
  we_by :: "ident option"

record deposit =
  dp_id :: ident
  dp_org :: ident
  dp_user :: ident
  dp_method :: "ident option"
  dp_kind :: string
  dp_label :: string
  dp_amount :: rat
  dp_fee :: rat
  dp_credited :: "rat option"
  dp_reference :: string
  dp_receipt :: "ident option"
  dp_target :: string
  dp_account :: "ident option"
  dp_note :: "string option"
  dp_status :: string
  dp_decided_by :: "ident option"
  dp_decision_note :: "string option"

record withdrawal =
  wd_id :: ident
  wd_org :: ident
  wd_user :: ident
  wd_dest :: ident
  wd_dest_kind :: string
  wd_summary :: string
  wd_amount :: rat
  wd_fee :: rat
  wd_net :: rat
  wd_status :: string
  wd_decided_by :: "ident option"
  wd_decision_note :: "string option"
  wd_paid_by :: "ident option"
  wd_txid :: "string option"

record transfer =
  tr_id :: ident
  tr_org :: ident
  tr_user :: ident
  tr_source_kind :: string
  tr_source_wallet :: "string option"
  tr_source_account :: "ident option"
  tr_target_kind :: string
  tr_target_wallet :: "string option"
  tr_target_account :: "ident option"
  tr_amount :: rat
  tr_status :: string
  tr_equity :: "rat option"
  tr_verified :: bool
  tr_decided_by :: "ident option"
  tr_decision_note :: "string option"
  tr_done_by :: "ident option"

record destination =
  de_id :: ident
  de_org :: ident
  de_user :: ident
  de_kind :: string
  de_nickname :: string
  de_details :: "(string, string) dict"
  de_proof :: "ident option"
  de_status :: string
  de_decided_by :: "ident option"
  de_decision_note :: "string option"

record bonus =
  bo_id :: ident
  bo_org :: ident
  bo_user :: ident
  bo_source :: string
  bo_source_id :: "ident option"
  bo_amount :: rat
  bo_note :: "string option"
  bo_by :: "ident option"

record pay_method =
  pm_id :: ident
  pm_org :: ident
  pm_kind :: string
  pm_label :: string
  pm_enabled :: bool
  pm_currency :: string
  pm_details :: "(string, string) dict"
  pm_min :: rat
  pm_fee_pct :: rat
  pm_instructions :: "string option"
  pm_sort :: int

record portal_account =
  pa_id :: ident
  pa_org :: ident
  pa_investor :: "ident option"
  pa_role :: string
  pa_platform :: string

record settings_row =
  st_min :: rat
  st_fee_pct :: rat
  st_max_accounts :: int

record rules_row =
  ru_signup :: bool
  ru_signup_amount :: rat
  ru_kyc :: bool
  ru_kyc_amount :: rat
  ru_deposit :: bool
  ru_deposit_pct :: rat
  ru_deposit_cap :: "rat option"

record file_row =
  fi_id :: ident
  fi_org :: ident
  fi_user :: ident
  fi_purpose :: string

record audit_row =
  au_org :: ident
  au_action :: string
  au_severity :: string
  au_actor :: string
  au_user :: ident
  au_account :: "ident option"
  au_row :: "ident option"

record portal =
  pt_access :: access
  pt_entries :: "entry list"
  pt_deposits :: "deposit list"
  pt_withdrawals :: "withdrawal list"
  pt_transfers :: "transfer list"
  pt_dests :: "destination list"
  pt_bonuses :: "bonus list"
  pt_methods :: "pay_method list"
  pt_accounts :: "portal_account list"
  pt_files :: "file_row list"
  pt_other_files :: "ident list"
  pt_account_requests :: "(ident \<times> ident) list"
  pt_settings :: "(ident, settings_row) dict"
  pt_rules :: "(ident, rules_row) dict"
  pt_equity :: "(ident, rat option) dict"
  pt_audit :: "audit_row list"
  pt_notices :: "(ident \<times> ident \<times> string \<times> string) list"
  pt_hourly :: limiter
  pt_next_entry :: ident
  pt_next_deposit :: ident
  pt_next_withdrawal :: ident
  pt_next_transfer :: ident
  pt_next_dest :: ident
  pt_next_bonus :: ident
  pt_next_method :: ident

section \<open>Audit and notifications\<close>

definition audit_control ::
  "ident \<Rightarrow> string \<Rightarrow> string \<Rightarrow> ident \<Rightarrow> string \<Rightarrow> ident option \<Rightarrow> ident option \<Rightarrow> portal \<Rightarrow> portal" where
  "audit_control org action actor user_id severity account row p =
     p\<lparr>pt_audit := pt_audit p @ [\<lparr>au_org = org, au_action = action, au_severity = severity, au_actor = actor,
        au_user = user_id, au_account = account, au_row = row\<rparr>]\<rparr>"

text \<open>The in-app row: organisation, recipient, topic and title. The email after it leaves the system.\<close>

definition TITLE_MAX :: nat where "TITLE_MAX = 120"

definition clip :: "string \<Rightarrow> nat \<Rightarrow> string" where
  "clip text limit = (if length text \<le> limit then text else take (limit - 1) text @ [CHR 0x85])"

definition notify :: "ident \<Rightarrow> ident \<Rightarrow> string \<Rightarrow> string \<Rightarrow> portal \<Rightarrow> portal" where
  "notify org user_id topic title p = p\<lparr>pt_notices := pt_notices p @ [(org, user_id, topic, clip title TITLE_MAX)]\<rparr>"

section \<open>Accounts\<close>

definition linked_accounts :: "ident \<Rightarrow> ident \<Rightarrow> portal \<Rightarrow> ident list" where
  "linked_accounts org user_id p = sort (map pa_id (filter (\<lambda>a. pa_org a = org \<and> pa_investor a = Some user_id) (pt_accounts p)))"

definition owns_account :: "ident \<Rightarrow> ident \<Rightarrow> ident option \<Rightarrow> portal \<Rightarrow> bool" where
  "owns_account org user_id account p =
     (\<exists>a \<in> set (pt_accounts p). pa_org a = org \<and> pa_investor a = Some user_id \<and> account = Some (pa_id a))"

definition pick_account :: "ident \<Rightarrow> ident \<Rightarrow> ident option \<Rightarrow> string \<Rightarrow> portal \<Rightarrow> ident reply" where
  "pick_account org user_id account field p =
     (case account of
        Some a \<Rightarrow> if \<not> owns_account org user_id account p then Inl (Http 404 ''Account not found'') else Inr a
      | None \<Rightarrow>
          (case linked_accounts org user_id p of
             [] \<Rightarrow> Inl (Http 409 ''no account linked yet'')
           | [a] \<Rightarrow> Inr a
           | _ \<Rightarrow> Inl (Http 400 (field @ '' is required''))))"

definition accounts_used :: "ident \<Rightarrow> ident \<Rightarrow> portal \<Rightarrow> int" where
  "accounts_used org user_id p =
     int (length (filter (\<lambda>a. pa_org a = org \<and> pa_investor a = Some user_id) (pt_accounts p))) +
     int (length (filter (\<lambda>r. r = (org, user_id)) (pt_account_requests p)))"

definition account_limit_text :: "int \<Rightarrow> string" where
  "account_limit_text limit = ''you have reached the limit of '' @ str_int limit @ '' live accounts''"

definition default_settings :: settings_row where
  "default_settings = \<lparr>st_min = 0, st_fee_pct = 0, st_max_accounts = 5\<rparr>"

definition portal_settings :: "ident \<Rightarrow> portal \<Rightarrow> settings_row \<times> portal" where
  "portal_settings org p =
     (case map_of (pt_settings p) org of
        Some s \<Rightarrow> (s, p)
      | None \<Rightarrow> (default_settings, p\<lparr>pt_settings := pt_settings p @ [(org, default_settings)]\<rparr>))"

definition link_account :: "ident \<Rightarrow> ident \<Rightarrow> ident \<Rightarrow> bool \<Rightarrow> portal \<Rightarrow> unit reply \<times> portal" where
  "link_account org user_id account mt5_only p =
     (if owns_account org user_id (Some account) p then (Inr (), p)
      else case find (\<lambda>a. pa_id a = account \<and> pa_org a = org) (pt_accounts p) of
        None \<Rightarrow> (Inl (Http 404 ''Account not found in this workspace, or already linked''), p)
      | Some a \<Rightarrow>
          if pa_role a = ''master'' then (Inl (Http 400 ''The master account cannot be linked to an investor''), p)
          else if mt5_only \<and> pa_platform a \<noteq> ''mt5'' then (Inl (Http 400 ''Only an MT5 account can be linked here''), p)
          else let (s, p1) = portal_settings org p; limit = st_max_accounts s in
            if limit \<le> int (length (linked_accounts org user_id p1)) then (Inl (Http 409 (account_limit_text limit)), p)
            else if \<exists>x \<in> set (pt_accounts p1). pa_id x = account \<and> pa_org x = org \<and> pa_investor x = None
            then (Inr (), p1\<lparr>pt_accounts := map (\<lambda>x. if pa_id x = account \<and> pa_org x = org \<and> pa_investor x = None
                    then x\<lparr>pa_investor := Some user_id\<rparr> else x) (pt_accounts p1)\<rparr>)
            else (Inl (Http 404 ''Account not found in this workspace, or already linked''), p))"

section \<open>Wallet figures\<close>

definition OPEN_STATUSES :: "string list" where "OPEN_STATUSES = [''requested'', ''approved'']"

definition entries_of :: "ident \<Rightarrow> ident \<Rightarrow> portal \<Rightarrow> entry list" where
  "entries_of org user_id p = filter (\<lambda>e. we_org e = org \<and> we_user e = user_id) (pt_entries p)"

definition wallet_balances :: "ident \<Rightarrow> ident \<Rightarrow> portal \<Rightarrow> (string, rat) dict" where
  "wallet_balances org user_id p =
     (let es = entries_of org user_id p;
          rows = map (\<lambda>w. (w, sum_list (map we_amount (filter (\<lambda>e. we_wallet e = w) es)))) (remdups (map we_wallet es));
          summed = balance rows
      in map (\<lambda>w. (w, case map_of summed w of Some x \<Rightarrow> x | None \<Rightarrow> 0)) WALLETS)"

definition open_withdrawals :: "ident \<Rightarrow> ident \<Rightarrow> portal \<Rightarrow> withdrawal list" where
  "open_withdrawals org user_id p =
     filter (\<lambda>w. wd_org w = org \<and> wd_user w = user_id \<and> wd_status w \<in> set OPEN_STATUSES) (pt_withdrawals p)"

definition open_transfers :: "ident \<Rightarrow> ident \<Rightarrow> portal \<Rightarrow> transfer list" where
  "open_transfers org user_id p =
     filter (\<lambda>t. tr_org t = org \<and> tr_user t = user_id \<and> tr_status t \<in> set OPEN_STATUSES) (pt_transfers p)"

definition wallet_holds :: "ident \<Rightarrow> ident \<Rightarrow> portal \<Rightarrow> (string, rat) dict" where
  "wallet_holds org user_id p =
     (let held = holds (map wd_amount (open_withdrawals org user_id p))
            (map (\<lambda>t. (the (tr_source_wallet t), tr_amount t)) (filter (\<lambda>t. tr_source_kind t = ''wallet'') (open_transfers org user_id p)))
      in map (\<lambda>w. (w, case map_of held w of Some x \<Rightarrow> x | None \<Rightarrow> 0)) WALLETS)"

definition figure_at :: "(string, rat) dict \<Rightarrow> string \<Rightarrow> rat" where
  "figure_at d w = (case map_of d w of Some x \<Rightarrow> x | None \<Rightarrow> 0)"

text \<open>Per wallet: balance, hold and available.\<close>

definition wallet_figures :: "ident \<Rightarrow> ident \<Rightarrow> portal \<Rightarrow> (string, rat \<times> rat \<times> rat) dict res" where
  "wallet_figures org user_id p =
     (let balances = wallet_balances org user_id p; held = wallet_holds org user_id p
      in map_res (\<lambda>w. res_bind (available (figure_at balances w) (figure_at held w))
            (\<lambda>a. Inr (w, figure_at balances w, figure_at held w, a))) WALLETS)"

definition available_in :: "string \<Rightarrow> ident \<Rightarrow> ident \<Rightarrow> portal \<Rightarrow> rat res" where
  "available_in w org user_id p =
     res_bind (wallet_figures org user_id p) (\<lambda>figs. Inr (case map_of figs w of Some (_, _, a) \<Rightarrow> a | None \<Rightarrow> 0))"

definition open_account_transfers_out :: "ident \<Rightarrow> ident \<Rightarrow> ident \<Rightarrow> portal \<Rightarrow> rat" where
  "open_account_transfers_out org user_id account p =
     sum_list (map tr_amount (filter (\<lambda>t. tr_source_kind t = ''account'' \<and> tr_source_account t = Some account) (open_transfers org user_id p)))"

definition done_transfers :: "ident \<Rightarrow> ident \<Rightarrow> portal \<Rightarrow> transfer list" where
  "done_transfers org user_id p = filter (\<lambda>t. tr_org t = org \<and> tr_user t = user_id \<and> tr_status t = ''done'') (pt_transfers p)"

definition net_funded :: "ident \<Rightarrow> ident \<Rightarrow> ident \<Rightarrow> portal \<Rightarrow> rat" where
  "net_funded org user_id account p =
     sum_list (map (\<lambda>t. if tr_target_kind t = ''account'' \<and> tr_target_account t = Some account then tr_amount t
        else if tr_source_kind t = ''account'' \<and> tr_source_account t = Some account then - tr_amount t else 0) (done_transfers org user_id p))"

definition credit_into :: "ident \<Rightarrow> transfer \<Rightarrow> bool" where
  "credit_into account t = (tr_source_kind t = ''wallet'' \<and> tr_source_wallet t = Some ''credit'' \<and>
     tr_target_kind t = ''account'' \<and> tr_target_account t = Some account)"

definition credit_transfer_open :: "ident \<Rightarrow> ident \<Rightarrow> ident \<Rightarrow> portal \<Rightarrow> bool" where
  "credit_transfer_open org user_id account p = (\<exists>t \<in> set (open_transfers org user_id p). credit_into account t)"

definition credit_funded :: "ident \<Rightarrow> ident \<Rightarrow> ident \<Rightarrow> portal \<Rightarrow> rat" where
  "credit_funded org user_id account p = sum_list (map tr_amount (filter (credit_into account) (done_transfers org user_id p)))"

definition account_movable :: "ident \<Rightarrow> ident \<Rightarrow> ident \<Rightarrow> rat \<Rightarrow> portal \<Rightarrow> rat res" where
  "account_movable org user_id account equity p =
     res_bind (floor_cents (dec (dec (equity - open_account_transfers_out org user_id account p) - credit_funded org user_id account p)))
       (\<lambda>m. Inr (max m 0))"

section \<open>Settlement\<close>

definition has_entry :: "string \<Rightarrow> ident \<Rightarrow> string \<Rightarrow> portal \<Rightarrow> bool" where
  "has_entry ref_table ref_id wallet p = (\<exists>e \<in> set (pt_entries p). we_ref e = Some (ref_table, ref_id) \<and> we_wallet e = wallet)"

definition insert_entry :: "entry \<Rightarrow> portal \<Rightarrow> portal" where
  "insert_entry e p = p\<lparr>pt_entries := pt_entries p @ [e\<lparr>we_id := pt_next_entry p\<rparr>], pt_next_entry := pt_next_entry p + 1\<rparr>"

text \<open>A conflicting INSERT still consumes a number of the sequence.\<close>

definition settle ::
  "ident \<Rightarrow> ident \<Rightarrow> string \<Rightarrow> rat \<Rightarrow> string \<Rightarrow> string \<Rightarrow> ident \<Rightarrow> string option \<Rightarrow> ident option \<Rightarrow> portal \<Rightarrow> bool \<times> portal" where
  "settle org user_id wallet amount kind ref_table ref_id note created_by p =
     (if has_entry ref_table ref_id wallet p then (False, p\<lparr>pt_next_entry := pt_next_entry p + 1\<rparr>)
      else (True, insert_entry \<lparr>we_id = 0, we_org = org, we_user = user_id, we_wallet = wallet, we_amount = amount,
              we_kind = kind, we_ref = Some (ref_table, ref_id), we_note = note, we_by = created_by\<rparr> p))"

section \<open>Bonuses\<close>

definition default_rules :: rules_row where
  "default_rules = \<lparr>ru_signup = False, ru_signup_amount = 0, ru_kyc = False, ru_kyc_amount = 0,
     ru_deposit = False, ru_deposit_pct = 0, ru_deposit_cap = None\<rparr>"

definition bonus_rules :: "ident \<Rightarrow> portal \<Rightarrow> rules_row \<times> portal" where
  "bonus_rules org p =
     (case map_of (pt_rules p) org of
        Some r \<Rightarrow> (r, p)
      | None \<Rightarrow> (default_rules, p\<lparr>pt_rules := pt_rules p @ [(org, default_rules)]\<rparr>))"

text \<open>The sources with a rule are signup, kyc and deposit; another name is a \<^verbatim>\<open>KeyError\<close> in the source.\<close>

definition rule_bonus :: "ident \<Rightarrow> string \<Rightarrow> rat option \<Rightarrow> portal \<Rightarrow> rat res \<times> portal" where
  "rule_bonus org source base p =
     (if source = ''manual'' then (Inl (ValueError (''rule_bonus does not pay the '' @ py_repr source @ '' source; use pay_bonus directly'')), p)
      else if source = ''deposit'' \<and> base = None then (Inl (ValueError (''rule_bonus requires base for source '' @ py_repr source)), p)
      else let (r, p1) = bonus_rules org p in
        (if source = ''signup'' then Inr (if ru_signup r then ru_signup_amount r else 0)
         else if source = ''kyc'' then Inr (if ru_kyc r then ru_kyc_amount r else 0)
         else if \<not> ru_deposit r then Inr 0
         else deposit_bonus (the base) (ru_deposit_pct r) (ru_deposit_cap r), p1))"

text \<open>The two partial unique indexes.\<close>

definition bonus_taken :: "ident \<Rightarrow> ident \<Rightarrow> string \<Rightarrow> ident option \<Rightarrow> bonus \<Rightarrow> bool" where
  "bonus_taken org user_id source source_id b =
     (bo_org b = org \<and> bo_source b = source \<and>
      ((source = ''signup'' \<or> source = ''kyc'') \<and> bo_user b = user_id \<or> source = ''deposit'' \<and> bo_source_id b = source_id))"

definition pay_bonus ::
  "ident \<Rightarrow> ident \<Rightarrow> string \<Rightarrow> rat \<Rightarrow> ident option \<Rightarrow> string option \<Rightarrow> ident option \<Rightarrow> portal \<Rightarrow> ident option res \<times> portal" where
  "pay_bonus org user_id source amount source_id note created_by p =
     (if amount = 0 then (Inr None, p)
      else let i = pt_next_bonus p; p1 = p\<lparr>pt_next_bonus := i + 1\<rparr> in
        if \<exists>b \<in> set (pt_bonuses p). bonus_taken org user_id source source_id b then (Inr None, p1)
        else let p2 = p1\<lparr>pt_bonuses := pt_bonuses p1 @ [\<lparr>bo_id = i, bo_org = org, bo_user = user_id, bo_source = source,
                   bo_source_id = source_id, bo_amount = amount, bo_note = note, bo_by = created_by\<rparr>]\<rparr>;
                 (wrote, p3) = settle org user_id ''credit'' amount ''bonus'' ''bonuses'' i note created_by p2
             in if wrote then (Inr (Some i), p3)
                else (Inl (RuntimeError (''bonus '' @ str_int i @ '' was recorded but settle() wrote no ledger entry'')), p3))"

definition bonus_name :: "string \<Rightarrow> string" where
  "bonus_name source = (if source = ''signup'' then ''welcome bonus'' else if source = ''kyc'' then ''verification bonus''
     else if source = ''deposit'' then ''deposit bonus'' else ''bonus'')"

definition announce_bonus :: "ident \<Rightarrow> ident \<Rightarrow> ident \<Rightarrow> string \<Rightarrow> rat \<Rightarrow> string \<Rightarrow> portal \<Rightarrow> portal" where
  "announce_bonus org user_id bonus_id source amount actor p =
     notify org user_id ''bonus''
       (if 0 < amount then ''You received a '' @ fmt2 amount @ '' USD '' @ bonus_name source
        else ''A bonus of '' @ fmt2 (- amount) @ '' USD was taken back'')
       (audit_control org ''investor_bonus_paid'' actor user_id (if source = ''manual'' then ''warning'' else ''info'') None (Some bonus_id) p)"

text \<open>The signup or kyc rule in its own transaction; a failure rolls back and is only logged.\<close>

definition award_rule_bonus :: "ident \<Rightarrow> ident \<Rightarrow> string \<Rightarrow> string option \<Rightarrow> portal \<Rightarrow> ident option \<times> portal" where
  "award_rule_bonus org user_id source actor p =
     (case rule_bonus org source None p of
        (Inl _, _) \<Rightarrow> (None, p)
      | (Inr amount, p1) \<Rightarrow>
          (case pay_bonus org user_id source amount None None None p1 of
             (Inl _, _) \<Rightarrow> (None, p)
           | (Inr None, p2) \<Rightarrow> (None, p2)
           | (Inr (Some i), p2) \<Rightarrow>
               let email = (case actor of Some e \<Rightarrow> e
                     | None \<Rightarrow> case find_user user_id (pt_access p2) of Some u \<Rightarrow> us_email u | None \<Rightarrow> ''user '' @ str_int user_id)
               in (Some i, announce_bonus org user_id i source amount email p2)))"

end
