(* ===== verification/Portal_Routes.thy ===== *)
theory Portal_Routes
  imports Portal_Store
begin

text \<open>
  The portal's money routes: the investor's side (\<^verbatim>\<open>api/routes/portal_investor.py\<close>), the desk's
  (\<^verbatim>\<open>portal_admin.py\<close>) and the bonuses (\<^verbatim>\<open>portal_bonus.py\<close>).

  The caller is an \<^typ>\<open>org_context\<close> that the role check produced. A route that reads rows, then takes
  the investor's ledger lock and writes is split where the lock is taken: \<open>_plan\<close> is what it checks and
  reads before, \<open>_commit\<close> the locked transaction, which may run on a later state. Raising inside the
  transaction rolls it back. A reply is the row the route serialises.
\<close>

section \<open>Shared\<close>

text \<open>\<^verbatim>\<open>UPDATE ... WHERE ... RETURNING\<close> on a table whose ids are unique.\<close>

definition update_row :: "('a \<Rightarrow> bool) \<Rightarrow> ('a \<Rightarrow> 'a) \<Rightarrow> 'a list \<Rightarrow> 'a option \<times> 'a list" where
  "update_row P f xs = (map_option f (find P xs), map (\<lambda>x. if P x then f x else x) xs)"

definition of_text :: "(string + 'a) \<Rightarrow> 'a reply" where
  "of_text r = (case r of Inl msg \<Rightarrow> Inl (Http 400 msg) | Inr x \<Rightarrow> Inr x)"

definition then_reply :: "'a reply \<Rightarrow> ('a \<Rightarrow> 'b reply) \<Rightarrow> 'b reply" where
  "then_reply r f = (case r of Inl e \<Rightarrow> Inl e | Inr x \<Rightarrow> f x)"

definition RATE_LIMITED :: string where "RATE_LIMITED = ''too many requests; try again later''"

definition hourly_key :: "string \<Rightarrow> org_context \<Rightarrow> string" where
  "hourly_key what ctx = ''portal-'' @ what @ '':'' @ str_int (cx_org ctx) @ '':'' @ str_int (cx_user ctx)"

definition spend_hourly :: "string \<Rightarrow> org_context \<Rightarrow> rat \<Rightarrow> portal \<Rightarrow> bool \<times> portal" where
  "spend_hourly what ctx now p =
     (let (limited, lm) = is_limited (hourly_key what ctx) None now (pt_hourly p) in (limited, p\<lparr>pt_hourly := lm\<rparr>))"

definition require_note_on_reject :: "string \<Rightarrow> string option \<Rightarrow> string + string option" where
  "require_note_on_reject status note = clean_text note ''note'' 500 (status = ''rejected'')"

definition decided_elsewhere :: http where "decided_elsewhere = Http 409 ''decided by someone else''"

text \<open>Stored in a NUMERIC(18,2) column.\<close>

definition numeric2 :: "rat \<Rightarrow> rat" where "numeric2 x = of_int (round_half_up (x * 100)) / 100"

section \<open>Deposits\<close>

definition file_belongs :: "ident \<Rightarrow> ident \<Rightarrow> ident option \<Rightarrow> string \<Rightarrow> portal \<Rightarrow> bool" where
  "file_belongs org user_id file_id purpose p =
     (case file_id of
        None \<Rightarrow> True
      | Some f \<Rightarrow> (\<exists>r \<in> set (pt_files p). fi_id r = f \<and> fi_org r = org \<and> fi_user r = user_id \<and> fi_purpose r = purpose) \<and>
          \<not> (\<exists>d \<in> set (pt_deposits p). dp_receipt d = Some f) \<and> \<not> (\<exists>d \<in> set (pt_dests p). de_proof d = Some f) \<and>
          f \<notin> set (pt_other_files p))"

definition check_receipt :: "org_context \<Rightarrow> string \<Rightarrow> ident option \<Rightarrow> portal \<Rightarrow> unit reply" where
  "check_receipt ctx kind receipt p =
     (if kind = ''bank'' \<and> receipt = None then Inl (Http 400 ''receipt is required for bank deposits'')
      else case receipt of
        None \<Rightarrow> Inr ()
      | Some f \<Rightarrow>
          if (\<exists>d \<in> set (pt_deposits p). dp_receipt d = Some f) \<and>
             (\<exists>r \<in> set (pt_files p). fi_id r = f \<and> fi_org r = cx_org ctx \<and> fi_user r = cx_user ctx \<and> fi_purpose r = ''deposit_receipt'')
          then Inl (Http 400 ''receipt file is already attached to another notice'')
          else if \<not> file_belongs (cx_org ctx) (cx_user ctx) receipt ''deposit_receipt'' p
          then Inl (Http 400 ''receipt file not found'') else Inr ())"

definition deposit_target :: "org_context \<Rightarrow> string \<Rightarrow> ident option \<Rightarrow> portal \<Rightarrow> ident option reply" where
  "deposit_target ctx target account p =
     (if target \<noteq> ''account'' then Inr None
      else if linked_accounts (cx_org ctx) (cx_user ctx) p = [] then Inl (Http 409 ''no account linked yet'')
      else then_reply (pick_account (cx_org ctx) (cx_user ctx) account ''target_account_id'' p) (\<lambda>a. Inr (Some a)))"

record deposit_notice =
  dn_method :: ident
  dn_amount :: raw
  dn_reference :: string
  dn_receipt :: "ident option"
  dn_target :: string
  dn_account :: "ident option"
  dn_note :: "string option"

definition live_reference :: "ident \<Rightarrow> string \<Rightarrow> deposit \<Rightarrow> bool" where
  "live_reference org ref d = (dp_org d = org \<and> py_lower (dp_reference d) = py_lower ref \<and> (dp_status d = ''pending'' \<or> dp_status d = ''confirmed''))"

definition insert_deposit :: "deposit \<Rightarrow> portal \<Rightarrow> deposit reply \<times> portal" where
  "insert_deposit d p =
     (let row = d\<lparr>dp_id := pt_next_deposit p\<rparr>; p1 = p\<lparr>pt_next_deposit := pt_next_deposit p + 1\<rparr> in
      if \<exists>x \<in> set (pt_deposits p). live_reference (dp_org d) (dp_reference d) x
      then (Inl (Http 409 ''A notice with this reference already exists''), p1)
      else if dp_receipt d \<noteq> None \<and> (\<exists>x \<in> set (pt_deposits p). dp_receipt x = dp_receipt d)
      then (Inl (Http 400 ''receipt file is already attached to another notice''), p1)
      else (Inr row, p1\<lparr>pt_deposits := pt_deposits p @ [row]\<rparr>))"

definition check_notice :: "org_context \<Rightarrow> deposit_notice \<Rightarrow> portal \<Rightarrow> (rat \<times> string \<times> string option \<times> string \<times> pay_method \<times> ident option) reply" where
  "check_notice ctx body p =
     then_reply (of_text (parse_amount (dn_amount body) ''amount'')) (\<lambda>amount.
     then_reply (of_text (clean_text (Some (dn_reference body)) ''reference'' MAX_TEXT True)) (\<lambda>reference.
     then_reply (of_text (clean_text (dn_note body) ''note'' 500 False)) (\<lambda>note.
       let target = py_lower (py_strip (if dn_target body = [] then ''wallet'' else dn_target body)) in
       if target \<noteq> ''wallet'' \<and> target \<noteq> ''account'' then Inl (Http 400 ''target must be wallet or account'')
       else case find (\<lambda>m. pm_id m = dn_method body \<and> pm_org m = cx_org ctx \<and> pm_enabled m) (pt_methods p) of
         None \<Rightarrow> Inl (Http 404 ''Payment method not found'')
       | Some m \<Rightarrow>
           if amount < pm_min m then Inl (Http 400 (''minimum deposit for this method is '' @ fmt2 (pm_min m)))
           else then_reply (check_receipt ctx (pm_kind m) (dn_receipt body) p) (\<lambda>_.
                then_reply (deposit_target ctx target (dn_account body) p) (\<lambda>account.
                  Inr (amount, the reference, note, target, m, account))))))"

definition file_deposit :: "org_context \<Rightarrow> deposit_notice \<Rightarrow> rat \<Rightarrow> portal \<Rightarrow> deposit reply \<times> portal" where
  "file_deposit ctx body now p =
     (case check_notice ctx body p of
        Inl e \<Rightarrow> (Inl e, p)
      | Inr (amount, reference, note, target, m, account) \<Rightarrow>
          let (limited, p1) = spend_hourly ''deposit'' ctx now p in
          if limited then (Inl (Http 429 RATE_LIMITED), p1)
          else case fee_for amount (pm_fee_pct m) of
            Inl e \<Rightarrow> (Inl (Crash e), p1)
          | Inr fee \<Rightarrow>
              (case insert_deposit \<lparr>dp_id = 0, dp_org = cx_org ctx, dp_user = cx_user ctx, dp_method = Some (pm_id m), dp_kind = pm_kind m,
                      dp_label = pm_label m, dp_amount = amount, dp_fee = fee, dp_credited = None, dp_reference = reference,
                      dp_receipt = dn_receipt body, dp_target = target, dp_account = account, dp_note = note, dp_status = ''pending'',
                      dp_decided_by = None, dp_decision_note = None\<rparr> p1 of
                 (Inl e, p2) \<Rightarrow> (Inl e, p2)
               | (Inr row, p2) \<Rightarrow> (Inr row, audit_control (cx_org ctx) ''investor_deposit_noticed'' (cx_email ctx) (cx_user ctx)
                    ''warning'' account (Some (dp_id row)) p2)))"

definition deposit_of :: "ident \<Rightarrow> ident \<Rightarrow> portal \<Rightarrow> deposit option" where
  "deposit_of did org p = find (\<lambda>d. dp_id d = did \<and> dp_org d = org) (pt_deposits p)"

definition cancel_deposit :: "org_context \<Rightarrow> ident \<Rightarrow> portal \<Rightarrow> deposit reply \<times> portal" where
  "cancel_deposit ctx did p =
     (case find (\<lambda>d. dp_id d = did \<and> dp_org d = cx_org ctx \<and> dp_user d = cx_user ctx) (pt_deposits p) of
        None \<Rightarrow> (Inl (Http 404 ''Deposit not found''), p)
      | Some d \<Rightarrow>
          if \<not> can_transition deposits (dp_status d) ''cancelled'' then (Inl (Http 409 (''deposit is already '' @ dp_status d)), p)
          else case update_row (\<lambda>x. dp_id x = did \<and> dp_org x = cx_org ctx \<and> dp_status x = ''pending'')
                 (\<lambda>x. x\<lparr>dp_status := ''cancelled'', dp_decided_by := Some (cx_user ctx)\<rparr>) (pt_deposits p) of
            (None, _) \<Rightarrow> (Inl decided_elsewhere, p)
          | (Some row, rows) \<Rightarrow> (Inr row, audit_control (cx_org ctx) ''investor_deposit_cancelled'' (cx_email ctx) (cx_user ctx) ''info''
              (dp_account row) (Some did) (p\<lparr>pt_deposits := rows\<rparr>)))"

definition credited_amount :: "deposit \<Rightarrow> raw option \<Rightarrow> rat reply" where
  "credited_amount d raw =
     then_reply (case raw of None \<Rightarrow> Inr (dec (dp_amount d - dp_fee d)) | Some r \<Rightarrow> of_text (parse_amount r ''credited_amount''))
       (\<lambda>credited. if credited \<le> 0 then Inl (Http 400 ''credited_amount must be greater than 0'')
          else if dp_amount d < credited
          then Inl (Http 400 (''credited amount cannot exceed the notice amount ('' @ fmt2 (dp_amount d) @ '')''))
          else Inr credited)"

record deposit_plan =
  dl_status :: string
  dl_note :: "string option"
  dl_row :: deposit
  dl_credited :: "rat option"

definition decide_deposit_plan :: "org_context \<Rightarrow> ident \<Rightarrow> string \<Rightarrow> raw option \<Rightarrow> string option \<Rightarrow> portal \<Rightarrow> deposit_plan reply" where
  "decide_deposit_plan ctx did status credited note p =
     (let new_status = py_lower (py_strip status) in
      if new_status \<noteq> ''confirmed'' \<and> new_status \<noteq> ''rejected'' then Inl (Http 400 ''status must be confirmed or rejected'')
      else then_reply (of_text (require_note_on_reject new_status note)) (\<lambda>note.
        case deposit_of did (cx_org ctx) p of
          None \<Rightarrow> Inl (Http 404 ''Deposit not found'')
        | Some d \<Rightarrow>
            if \<not> can_transition deposits (dp_status d) new_status then Inl (Http 409 (''deposit is already '' @ dp_status d))
            else then_reply (if new_status = ''confirmed'' then then_reply (credited_amount d credited) (\<lambda>c. Inr (Some c)) else Inr None)
              (\<lambda>c. Inr \<lparr>dl_status = new_status, dl_note = note, dl_row = d, dl_credited = c\<rparr>)))"

definition linked_target :: "org_context \<Rightarrow> deposit_plan \<Rightarrow> portal \<Rightarrow> ident option" where
  "linked_target ctx pl p =
     (if dl_status pl = ''confirmed'' \<and> dp_target (dl_row pl) = ''account'' \<and> dp_account (dl_row pl) \<noteq> None \<and>
         owns_account (cx_org ctx) (dp_user (dl_row pl)) (dp_account (dl_row pl)) p
      then dp_account (dl_row pl) else None)"

definition decision_note :: "deposit_plan \<Rightarrow> ident option \<Rightarrow> string option" where
  "decision_note pl linked =
     (if dl_status pl = ''confirmed'' \<and> dp_target (dl_row pl) = ''account'' \<and> linked = None
      then let suffix = ''(no account linked; credited to wallet)''
           in Some (case dl_note pl of Some n \<Rightarrow> n @ '' '' @ suffix | None \<Rightarrow> suffix)
      else dl_note pl)"

definition insert_transfer :: "transfer \<Rightarrow> portal \<Rightarrow> transfer \<times> portal" where
  "insert_transfer t p = (let row = t\<lparr>tr_id := pt_next_transfer p\<rparr>
     in (row, p\<lparr>pt_transfers := pt_transfers p @ [row], pt_next_transfer := pt_next_transfer p + 1\<rparr>))"

text \<open>What a confirmation writes: the credit to main, the held transfer to the account, the rule's bonus.\<close>

definition fund_account :: "org_context \<Rightarrow> deposit_plan \<Rightarrow> rat \<Rightarrow> ident \<Rightarrow> portal \<Rightarrow> portal" where
  "fund_account ctx pl credited account p =
     snd (insert_transfer \<lparr>tr_id = 0, tr_org = cx_org ctx, tr_user = dp_user (dl_row pl), tr_source_kind = ''wallet'',
        tr_source_wallet = Some ''main'', tr_source_account = None, tr_target_kind = ''account'', tr_target_wallet = None,
        tr_target_account = Some account, tr_amount = credited, tr_status = ''approved'', tr_equity = None, tr_verified = False,
        tr_decided_by = Some (cx_user ctx), tr_decision_note = Some (''funded from deposit #'' @ str_int (dp_id (dl_row pl))),
        tr_done_by = None\<rparr> p)"

definition confirm_deposit :: "org_context \<Rightarrow> deposit_plan \<Rightarrow> rat \<Rightarrow> ident option \<Rightarrow> portal \<Rightarrow> (rat \<times> ident option) res \<times> portal" where
  "confirm_deposit ctx pl credited linked p =
     (let d = dl_row pl;
          p1 = snd (settle (cx_org ctx) (dp_user d) ''main'' credited ''deposit'' ''deposits'' (dp_id d) None (Some (cx_user ctx)) p);
          p2 = (case linked of None \<Rightarrow> p1 | Some a \<Rightarrow> fund_account ctx pl credited a p1)
      in case rule_bonus (cx_org ctx) ''deposit'' (Some credited) p2 of
           (Inl e, p3) \<Rightarrow> (Inl e, p3)
         | (Inr amount, p3) \<Rightarrow>
             (case pay_bonus (cx_org ctx) (dp_user d) ''deposit'' amount (Some (dp_id d)) (Some (''deposit #'' @ str_int (dp_id d)))
                     (Some (cx_user ctx)) p3 of
                (Inl e, p4) \<Rightarrow> (Inl e, p4)
              | (Inr i, p4) \<Rightarrow> (Inr (amount, i), p4)))"

definition announce_decision :: "org_context \<Rightarrow> deposit_plan \<Rightarrow> ident option \<Rightarrow> rat \<times> ident option \<Rightarrow> portal \<Rightarrow> portal" where
  "announce_decision ctx pl linked paid p =
     (let d = dl_row pl;
          p1 = audit_control (cx_org ctx) ''investor_deposit_decided'' (cx_email ctx) (dp_user d) ''info'' linked (Some (dp_id d)) p;
          p2 = notify (cx_org ctx) (dp_user d) ''money'' (''Your deposit of '' @ fmt2 (dp_amount d) @ '' USD was '' @ dl_status pl) p1
      in case snd paid of
           None \<Rightarrow> p2
         | Some i \<Rightarrow> announce_bonus (cx_org ctx) (dp_user d) i ''deposit'' (fst paid) (cx_email ctx) p2)"

definition decide_deposit_commit :: "org_context \<Rightarrow> deposit_plan \<Rightarrow> portal \<Rightarrow> deposit reply \<times> portal" where
  "decide_deposit_commit ctx pl p =
     (let d = dl_row pl; linked = linked_target ctx pl p; note = decision_note pl linked
      in case update_row (\<lambda>x. dp_id x = dp_id d \<and> dp_org x = cx_org ctx \<and> dp_status x = ''pending'')
                (\<lambda>x. x\<lparr>dp_status := dl_status pl, dp_decided_by := Some (cx_user ctx), dp_decision_note := note,
                       dp_credited := dl_credited pl\<rparr>) (pt_deposits p) of
           (None, _) \<Rightarrow> (Inl decided_elsewhere, p)
         | (Some row, rows) \<Rightarrow>
             let p1 = p\<lparr>pt_deposits := rows\<rparr> in
             if dl_status pl \<noteq> ''confirmed'' then (Inr row, announce_decision ctx pl None (0, None) p1)
             else case confirm_deposit ctx pl (the (dl_credited pl)) linked p1 of
               (Inl e, _) \<Rightarrow> (Inl (Crash e), p)
             | (Inr paid, p2) \<Rightarrow> (Inr row, announce_decision ctx pl linked paid p2))"

definition decide_deposit :: "org_context \<Rightarrow> ident \<Rightarrow> string \<Rightarrow> raw option \<Rightarrow> string option \<Rightarrow> portal \<Rightarrow> deposit reply \<times> portal" where
  "decide_deposit ctx did status credited note p =
     (case decide_deposit_plan ctx did status credited note p of Inl e \<Rightarrow> (Inl e, p) | Inr pl \<Rightarrow> decide_deposit_commit ctx pl p)"

section \<open>Payout destinations\<close>

definition BANK_REQUIRED :: "string list" where "BANK_REQUIRED = [''bank_name'', ''holder'', ''account_number'', ''code'']"
definition BANK_OPTIONAL :: "string list" where "BANK_OPTIONAL = [''bank_address'', ''country'']"
definition CRYPTO_REQUIRED :: "string list" where "CRYPTO_REQUIRED = [''coin'', ''network'', ''address'']"

definition clean_required :: "(string, string) dict \<Rightarrow> string \<Rightarrow> (string, string) dict reply \<Rightarrow> (string, string) dict reply" where
  "clean_required details key out =
     then_reply out (\<lambda>d. then_reply (of_text (clean_text (map_of details key) key 128 True)) (\<lambda>v. Inr (AList.update key (the v) d)))"

definition clean_optional :: "(string, string) dict \<Rightarrow> string \<Rightarrow> (string, string) dict reply \<Rightarrow> (string, string) dict reply" where
  "clean_optional details key out =
     then_reply out (\<lambda>d. then_reply (of_text (clean_text (map_of details key) key 256 False))
       (\<lambda>v. Inr (case v of None \<Rightarrow> d | Some x \<Rightarrow> AList.update key x d)))"

definition clean_destination_details :: "string \<Rightarrow> (string, string) dict \<Rightarrow> (string, string) dict reply" where
  "clean_destination_details kind details =
     (let out = fold (clean_required details) (if kind = ''bank'' then BANK_REQUIRED else CRYPTO_REQUIRED) (Inr [])
      in if kind = ''bank'' then fold (clean_optional details) BANK_OPTIONAL out else out)"

definition short_address :: "string \<Rightarrow> string" where
  "short_address a = (if length a \<le> 8 then a else [hd a] @ [CHR 0x85] @ drop (length a - 2) a)"

definition detail_or :: "(string, string) dict \<Rightarrow> string \<Rightarrow> string" where
  "detail_or d k = (case map_of d k of Some v \<Rightarrow> v | None \<Rightarrow> [])"

definition destination_summary :: "string \<Rightarrow> (string, string) dict \<Rightarrow> string" where
  "destination_summary kind details =
     (if kind = ''bank''
      then let number = detail_or details ''account_number''
           in py_strip (detail_or details ''bank_name'' @ '' '' @ [CHR 0x95, CHR 0x95] @ drop (length number - 4) number)
      else py_strip (detail_or details ''network'' @ '' '' @ short_address (detail_or details ''address'')))"

text \<open>The routes that reconfirm with the MPIN start here.\<close>

definition mpin_gate :: "(string \<Rightarrow> string \<Rightarrow> bool) \<Rightarrow> rat \<Rightarrow> rat \<Rightarrow> ident \<Rightarrow> string option \<Rightarrow> portal \<Rightarrow> http option \<times> portal" where
  "mpin_gate verify now db_now user_id mpin p =
     (let (r, a) = require_mpin verify now db_now user_id mpin (pt_access p) in (r, p\<lparr>pt_access := a\<rparr>))"

definition add_destination_body ::
  "org_context \<Rightarrow> string \<Rightarrow> string \<Rightarrow> (string, string) dict \<Rightarrow> ident option \<Rightarrow> rat \<Rightarrow> portal \<Rightarrow> destination reply \<times> portal" where
  "add_destination_body ctx kind nickname details proof now p =
     (let k = py_lower (py_strip kind) in
      if k \<noteq> ''bank'' \<and> k \<noteq> ''crypto'' then (Inl (Http 400 ''kind must be bank or crypto''), p)
      else case then_reply (of_text (clean_text (Some nickname) ''nickname'' 64 True)) (\<lambda>n.
             then_reply (clean_destination_details k details) (\<lambda>ds. Inr (the n, ds))) of
        Inl e \<Rightarrow> (Inl e, p)
      | Inr (n, ds) \<Rightarrow>
          if proof \<noteq> None \<and> \<not> file_belongs (cx_org ctx) (cx_user ctx) proof ''payout_proof'' p
          then (Inl (Http 400 ''proof file not found''), p)
          else let (limited, p1) = spend_hourly ''destination'' ctx now p in
            if limited then (Inl (Http 429 RATE_LIMITED), p1)
            else let row = \<lparr>de_id = pt_next_dest p1, de_org = cx_org ctx, de_user = cx_user ctx, de_kind = k, de_nickname = n, de_details = ds,
                       de_proof = proof, de_status = ''pending'', de_decided_by = None, de_decision_note = None\<rparr>;
                     p2 = p1\<lparr>pt_dests := pt_dests p1 @ [row], pt_next_dest := pt_next_dest p1 + 1\<rparr>
                 in (Inr row, audit_control (cx_org ctx) ''investor_destination_added'' (cx_email ctx) (cx_user ctx) ''warning'' None
                       (Some (de_id row)) p2))"

definition add_destination ::
  "(string \<Rightarrow> string \<Rightarrow> bool) \<Rightarrow> org_context \<Rightarrow> string option \<Rightarrow> string \<Rightarrow> string \<Rightarrow> (string, string) dict \<Rightarrow> ident option \<Rightarrow>
   rat \<Rightarrow> rat \<Rightarrow> portal \<Rightarrow> destination reply \<times> portal" where
  "add_destination verify ctx mpin kind nickname details proof now db_now p =
     (case mpin_gate verify now db_now (cx_user ctx) mpin p of
        (Some e, p1) \<Rightarrow> (Inl e, p1) | (None, p1) \<Rightarrow> add_destination_body ctx kind nickname details proof now p1)"

definition remove_destination :: "org_context \<Rightarrow> ident \<Rightarrow> portal \<Rightarrow> destination reply \<times> portal" where
  "remove_destination ctx did p =
     (case find (\<lambda>d. de_id d = did \<and> de_org d = cx_org ctx \<and> de_user d = cx_user ctx) (pt_dests p) of
        None \<Rightarrow> (Inl (Http 404 ''Payout account not found''), p)
      | Some d \<Rightarrow>
          if \<not> can_transition payout_destinations (de_status d) ''removed''
          then (Inl (Http 409 (''payout account is already '' @ de_status d)), p)
          else if \<exists>w \<in> set (pt_withdrawals p). wd_dest w = did \<and> wd_status w \<in> set OPEN_STATUSES
          then (Inl (Http 409 ''a withdrawal is still using this payout account''), p)
          else case update_row (\<lambda>x. de_id x = did \<and> de_org x = cx_org ctx \<and> de_status x = de_status d)
                 (\<lambda>x. x\<lparr>de_status := ''removed'', de_decided_by := Some (cx_user ctx)\<rparr>) (pt_dests p) of
            (None, _) \<Rightarrow> (Inl decided_elsewhere, p)
          | (Some row, rows) \<Rightarrow> (Inr row, audit_control (cx_org ctx) ''investor_destination_removed'' (cx_email ctx) (cx_user ctx) ''info''
              None (Some did) (p\<lparr>pt_dests := rows\<rparr>)))"

definition decide_destination :: "org_context \<Rightarrow> ident \<Rightarrow> string \<Rightarrow> string option \<Rightarrow> portal \<Rightarrow> destination reply \<times> portal" where
  "decide_destination ctx did status note p =
     (let new_status = py_lower (py_strip status) in
      if new_status \<noteq> ''approved'' \<and> new_status \<noteq> ''rejected'' then (Inl (Http 400 ''status must be approved or rejected''), p)
      else case of_text (require_note_on_reject new_status note) of
        Inl e \<Rightarrow> (Inl e, p)
      | Inr n \<Rightarrow>
          (case find (\<lambda>d. de_id d = did \<and> de_org d = cx_org ctx) (pt_dests p) of
             None \<Rightarrow> (Inl (Http 404 ''Payout account not found''), p)
           | Some d \<Rightarrow>
               if \<not> can_transition payout_destinations (de_status d) new_status
               then (Inl (Http 409 (''payout account is already '' @ de_status d)), p)
               else case update_row (\<lambda>x. de_id x = did \<and> de_org x = cx_org ctx \<and> de_status x = de_status d)
                      (\<lambda>x. x\<lparr>de_status := new_status, de_decided_by := Some (cx_user ctx), de_decision_note := n\<rparr>) (pt_dests p) of
                 (None, _) \<Rightarrow> (Inl decided_elsewhere, p)
               | (Some row, rows) \<Rightarrow> (Inr row,
                   notify (cx_org ctx) (de_user d) ''money''
                     (''Your payout account '' @ destination_summary (de_kind d) (de_details d) @ '' was '' @ new_status)
                     (audit_control (cx_org ctx) ''investor_destination_decided'' (cx_email ctx) (de_user d) ''info'' None (Some did)
                        (p\<lparr>pt_dests := rows\<rparr>)))))"

section \<open>Withdrawals\<close>

record withdrawal_plan =
  wl_amount :: rat
  wl_dest :: destination
  wl_fee_pct :: rat

definition request_withdrawal_plan :: "org_context \<Rightarrow> ident \<Rightarrow> raw \<Rightarrow> portal \<Rightarrow> withdrawal_plan reply \<times> portal" where
  "request_withdrawal_plan ctx dest amount p =
     (case of_text (parse_amount amount ''amount'') of
        Inl e \<Rightarrow> (Inl e, p)
      | Inr x \<Rightarrow>
          (case find (\<lambda>d. de_id d = dest \<and> de_org d = cx_org ctx \<and> de_user d = cx_user ctx \<and> de_status d = ''approved'') (pt_dests p) of
             None \<Rightarrow> (Inl (Http 404 ''Payout account not found''), p)
           | Some d \<Rightarrow>
               let (s, p1) = portal_settings (cx_org ctx) p in
               if x < st_min s then (Inl (Http 400 (''minimum withdrawal is '' @ fmt2 (st_min s))), p1)
               else (Inr \<lparr>wl_amount = x, wl_dest = d, wl_fee_pct = st_fee_pct s\<rparr>, p1)))"

definition insert_withdrawal :: "withdrawal \<Rightarrow> portal \<Rightarrow> withdrawal \<times> portal" where
  "insert_withdrawal w p = (let row = w\<lparr>wd_id := pt_next_withdrawal p\<rparr>
     in (row, p\<lparr>pt_withdrawals := pt_withdrawals p @ [row], pt_next_withdrawal := pt_next_withdrawal p + 1\<rparr>))"

definition request_withdrawal_commit :: "org_context \<Rightarrow> withdrawal_plan \<Rightarrow> rat \<Rightarrow> portal \<Rightarrow> withdrawal reply \<times> portal" where
  "request_withdrawal_commit ctx pl now p =
     (let amount = wl_amount pl; d = wl_dest pl in
      case available_in ''main'' (cx_org ctx) (cx_user ctx) p of
        Inl e \<Rightarrow> (Inl (Crash e), p)
      | Inr avail \<Rightarrow>
          if avail < amount then (Inl (Http 400 (''amount exceeds what is available ('' @ fmt2 avail @ '')'')), p)
          else case fee_for amount (wl_fee_pct pl) of
            Inl e \<Rightarrow> (Inl (Crash e), p)
          | Inr fee \<Rightarrow>
              let net = dec (amount - fee) in
              if net \<le> 0 then (Inl (Http 400 ''amount is too small to cover the fee''), p)
              else let (limited, p1) = spend_hourly ''withdrawal'' ctx now p in
                if limited then (Inl (Http 429 RATE_LIMITED), p1)
                else let (row, p2) = insert_withdrawal \<lparr>wd_id = 0, wd_org = cx_org ctx, wd_user = cx_user ctx, wd_dest = de_id d,
                           wd_dest_kind = de_kind d, wd_summary = destination_summary (de_kind d) (de_details d), wd_amount = amount,
                           wd_fee = fee, wd_net = net, wd_status = ''requested'', wd_decided_by = None, wd_decision_note = None,
                           wd_paid_by = None, wd_txid = None\<rparr> p1
                     in (Inr row, audit_control (cx_org ctx) ''investor_withdrawal_requested'' (cx_email ctx) (cx_user ctx) ''warning''
                           None (Some (wd_id row)) p2))"

definition request_withdrawal ::
  "(string \<Rightarrow> string \<Rightarrow> bool) \<Rightarrow> org_context \<Rightarrow> string option \<Rightarrow> ident \<Rightarrow> raw \<Rightarrow> rat \<Rightarrow> rat \<Rightarrow> portal \<Rightarrow> withdrawal reply \<times> portal" where
  "request_withdrawal verify ctx mpin dest amount now db_now p =
     (case mpin_gate verify now db_now (cx_user ctx) mpin p of
        (Some e, p1) \<Rightarrow> (Inl e, p1)
      | (None, p1) \<Rightarrow>
          (case request_withdrawal_plan ctx dest amount p1 of
             (Inl e, p2) \<Rightarrow> (Inl e, p2) | (Inr pl, p2) \<Rightarrow> request_withdrawal_commit ctx pl now p2))"

definition withdrawal_of :: "ident \<Rightarrow> ident \<Rightarrow> portal \<Rightarrow> withdrawal option" where
  "withdrawal_of wid org p = find (\<lambda>w. wd_id w = wid \<and> wd_org w = org) (pt_withdrawals p)"

text \<open>The status change of a withdrawal that was read as \<open>w\<close>.\<close>

definition move_withdrawal :: "withdrawal \<Rightarrow> string \<Rightarrow> (withdrawal \<Rightarrow> withdrawal) \<Rightarrow> portal \<Rightarrow> withdrawal option \<times> portal" where
  "move_withdrawal w from_status f p =
     (let (row, rows) = update_row (\<lambda>x. wd_id x = wd_id w \<and> wd_org x = wd_org w \<and> wd_status x = from_status) f (pt_withdrawals p)
      in (row, p\<lparr>pt_withdrawals := rows\<rparr>))"

definition cancel_withdrawal_plan :: "org_context \<Rightarrow> ident \<Rightarrow> portal \<Rightarrow> withdrawal reply" where
  "cancel_withdrawal_plan ctx wid p =
     (case find (\<lambda>w. wd_id w = wid \<and> wd_org w = cx_org ctx \<and> wd_user w = cx_user ctx) (pt_withdrawals p) of
        None \<Rightarrow> Inl (Http 404 ''Withdrawal not found'')
      | Some w \<Rightarrow> if \<not> can_transition withdrawals (wd_status w) ''cancelled''
                  then Inl (Http 409 (''withdrawal is already '' @ wd_status w)) else Inr w)"

definition cancel_withdrawal_commit :: "org_context \<Rightarrow> withdrawal \<Rightarrow> portal \<Rightarrow> withdrawal reply \<times> portal" where
  "cancel_withdrawal_commit ctx w p =
     (case move_withdrawal w (wd_status w) (\<lambda>x. x\<lparr>wd_status := ''cancelled'', wd_decided_by := Some (cx_user ctx)\<rparr>) p of
        (None, _) \<Rightarrow> (Inl decided_elsewhere, p)
      | (Some row, p1) \<Rightarrow> (Inr row, audit_control (cx_org ctx) ''investor_withdrawal_cancelled'' (cx_email ctx) (cx_user ctx) ''info''
          None (Some (wd_id w)) p1))"

definition cancel_withdrawal :: "org_context \<Rightarrow> ident \<Rightarrow> portal \<Rightarrow> withdrawal reply \<times> portal" where
  "cancel_withdrawal ctx wid p =
     (case cancel_withdrawal_plan ctx wid p of Inl e \<Rightarrow> (Inl e, p) | Inr w \<Rightarrow> cancel_withdrawal_commit ctx w p)"

definition decide_withdrawal_plan :: "org_context \<Rightarrow> ident \<Rightarrow> string \<Rightarrow> string option \<Rightarrow> portal \<Rightarrow> (string \<times> string option \<times> withdrawal) reply" where
  "decide_withdrawal_plan ctx wid status note p =
     (let new_status = py_lower (py_strip status) in
      if new_status \<noteq> ''approved'' \<and> new_status \<noteq> ''rejected'' then Inl (Http 400 ''status must be approved or rejected'')
      else then_reply (of_text (require_note_on_reject new_status note)) (\<lambda>n.
        case withdrawal_of wid (cx_org ctx) p of
          None \<Rightarrow> Inl (Http 404 ''Withdrawal not found'')
        | Some w \<Rightarrow> if \<not> can_transition withdrawals (wd_status w) new_status
                    then Inl (Http 409 (''withdrawal is already '' @ wd_status w)) else Inr (new_status, n, w)))"

definition decide_withdrawal_commit :: "org_context \<Rightarrow> string \<times> string option \<times> withdrawal \<Rightarrow> portal \<Rightarrow> withdrawal reply \<times> portal" where
  "decide_withdrawal_commit ctx pl p =
     (let (new_status, note, w) = pl in
      case move_withdrawal w (wd_status w) (\<lambda>x. x\<lparr>wd_status := new_status, wd_decided_by := Some (cx_user ctx), wd_decision_note := note\<rparr>) p of
        (None, _) \<Rightarrow> (Inl decided_elsewhere, p)
      | (Some row, p1) \<Rightarrow> (Inr row,
          notify (cx_org ctx) (wd_user w) ''money'' (''Your withdrawal of '' @ fmt2 (wd_amount w) @ '' USD was '' @ new_status)
            (audit_control (cx_org ctx) ''investor_withdrawal_decided'' (cx_email ctx) (wd_user w) ''info'' None (Some (wd_id w)) p1)))"

definition decide_withdrawal :: "org_context \<Rightarrow> ident \<Rightarrow> string \<Rightarrow> string option \<Rightarrow> portal \<Rightarrow> withdrawal reply \<times> portal" where
  "decide_withdrawal ctx wid status note p =
     (case decide_withdrawal_plan ctx wid status note p of Inl e \<Rightarrow> (Inl e, p) | Inr pl \<Rightarrow> decide_withdrawal_commit ctx pl p)"

definition mark_paid_plan :: "org_context \<Rightarrow> ident \<Rightarrow> string \<Rightarrow> portal \<Rightarrow> (string \<times> withdrawal) reply" where
  "mark_paid_plan ctx wid txid p =
     then_reply (of_text (clean_text (Some txid) ''txid'' MAX_TEXT True)) (\<lambda>t.
       case withdrawal_of wid (cx_org ctx) p of
         None \<Rightarrow> Inl (Http 404 ''Withdrawal not found'')
       | Some w \<Rightarrow> if \<not> can_transition withdrawals (wd_status w) ''paid''
                   then Inl (Http 409 (''withdrawal is '' @ wd_status w @ '', not approved'')) else Inr (the t, w))"

definition mark_paid_commit :: "org_context \<Rightarrow> string \<times> withdrawal \<Rightarrow> portal \<Rightarrow> withdrawal reply \<times> portal" where
  "mark_paid_commit ctx pl p =
     (let (txid, w) = pl in
      case move_withdrawal w ''approved'' (\<lambda>x. x\<lparr>wd_status := ''paid'', wd_paid_by := Some (cx_user ctx), wd_txid := Some txid\<rparr>) p of
        (None, _) \<Rightarrow> (Inl decided_elsewhere, p)
      | (Some row, p1) \<Rightarrow>
          let p2 = snd (settle (cx_org ctx) (wd_user w) ''main'' (- wd_amount w) ''withdrawal'' ''withdrawals'' (wd_id w) None None p1)
          in (Inr row, notify (cx_org ctx) (wd_user w) ''money'' (''Your withdrawal of '' @ fmt2 (wd_amount w) @ '' USD was paid'')
               (audit_control (cx_org ctx) ''investor_withdrawal_paid'' (cx_email ctx) (wd_user w) ''info'' None (Some (wd_id w)) p2)))"

definition mark_withdrawal_paid :: "org_context \<Rightarrow> ident \<Rightarrow> string \<Rightarrow> portal \<Rightarrow> withdrawal reply \<times> portal" where
  "mark_withdrawal_paid ctx wid txid p =
     (case mark_paid_plan ctx wid txid p of Inl e \<Rightarrow> (Inl e, p) | Inr pl \<Rightarrow> mark_paid_commit ctx pl p)"

section \<open>Transfers\<close>

text \<open>
  \<^verbatim>\<open>equity_for\<close>: the copier's live figure when it answers (\<open>live\<close>), else the last one the terminal
  reported.
\<close>

definition equity_for :: "rat option \<Rightarrow> ident \<Rightarrow> portal \<Rightarrow> rat option \<times> string" where
  "equity_for live account p =
     (case live of
        Some e \<Rightarrow> (Some e, ''live'')
      | None \<Rightarrow> (case map_of (pt_equity p) account of Some (Some e) \<Rightarrow> (Some e, ''last known'') | _ \<Rightarrow> (None, ''unknown'')))"

record transfer_plan =
  tl_amount :: rat
  tl_source :: string
  tl_target :: string
  tl_account :: "ident option"
  tl_equity :: "rat option"
  tl_equity_source :: string

definition named_account :: "org_context \<Rightarrow> string \<Rightarrow> string \<Rightarrow> money_ref \<Rightarrow> money_ref \<Rightarrow> portal \<Rightarrow> ident option reply" where
  "named_account ctx s t source target p =
     (if s \<noteq> ''account'' \<and> t \<noteq> ''account'' then Inr None
      else let named = (if s = ''account'' then mr_account source else mr_account target) in
        if \<not> owns_account (cx_org ctx) (cx_user ctx) named p
        then if linked_accounts (cx_org ctx) (cx_user ctx) p = [] then Inl (Http 409 ''no account linked yet'')
             else Inl (Http 404 ''Account not found'')
        else Inr named)"

definition request_transfer_plan ::
  "org_context \<Rightarrow> money_ref \<Rightarrow> money_ref \<Rightarrow> raw \<Rightarrow> rat option \<Rightarrow> portal \<Rightarrow> transfer_plan reply" where
  "request_transfer_plan ctx source target amount live p =
     then_reply (of_text (parse_amount amount ''amount'')) (\<lambda>x.
     then_reply (of_text (transfer_pair source target)) (\<lambda>(s, t).
     then_reply (named_account ctx s t source target p) (\<lambda>account.
       let (equity, from_where) = (if s = ''account'' then equity_for live (the account) p else (None, ''unknown''))
       in Inr \<lparr>tl_amount = x, tl_source = s, tl_target = t, tl_account = account, tl_equity = equity, tl_equity_source = from_where\<rparr>)))"

text \<open>The caps, read under the lock.\<close>

definition check_outflow :: "org_context \<Rightarrow> transfer_plan \<Rightarrow> portal \<Rightarrow> unit reply" where
  "check_outflow ctx pl p =
     (let account = the (tl_account pl) in
      if credit_transfer_open (cx_org ctx) (cx_user ctx) account p
      then Inl (Http 409 ''a bonus credit transfer into this account is still open; wait for it to finish'')
      else case tl_equity pl of
        Some equity \<Rightarrow>
          then_reply (of_res (account_movable (cx_org ctx) (cx_user ctx) account equity p)) (\<lambda>m.
            if m < tl_amount pl then Inl (Http 400 (''amount exceeds the account's available equity ('' @ fmt2 m @ '')'')) else Inr ())
      | None \<Rightarrow>
          if 0 < credit_funded (cx_org ctx) (cx_user ctx) account p
          then Inl (Http 409 ''this account holds bonus credit; try again when its balance is live'') else Inr ())"

definition check_inflow :: "org_context \<Rightarrow> transfer_plan \<Rightarrow> portal \<Rightarrow> unit reply" where
  "check_inflow ctx pl p =
     (if tl_source pl = ''credit'' \<and> tl_target pl = ''account'' \<and>
         0 < open_account_transfers_out (cx_org ctx) (cx_user ctx) (the (tl_account pl)) p
      then Inl (Http 409 ''this account has a transfer out still open; wait for it to finish'')
      else then_reply (of_res (available_in (tl_source pl) (cx_org ctx) (cx_user ctx) p)) (\<lambda>avail.
        if avail < tl_amount pl then Inl (Http 400 (''amount exceeds what is available ('' @ fmt2 avail @ '')'')) else Inr ()))"

definition check_caps :: "org_context \<Rightarrow> transfer_plan \<Rightarrow> portal \<Rightarrow> unit reply" where
  "check_caps ctx pl p = (if tl_source pl = ''account'' then check_outflow ctx pl p else check_inflow ctx pl p)"

definition tl_instant :: "transfer_plan \<Rightarrow> bool" where
  "tl_instant pl = (tl_source pl \<noteq> ''account'' \<and> tl_target pl \<noteq> ''account'')"

definition tl_source_wallet :: "transfer_plan \<Rightarrow> string option" where
  "tl_source_wallet pl = (if tl_source pl = ''account'' then None else Some (tl_source pl))"

definition tl_target_wallet :: "transfer_plan \<Rightarrow> string option" where
  "tl_target_wallet pl = (if tl_target pl = ''account'' then None else Some (tl_target pl))"

definition transfer_row :: "org_context \<Rightarrow> transfer_plan \<Rightarrow> transfer" where
  "transfer_row ctx pl = \<lparr>tr_id = 0, tr_org = cx_org ctx, tr_user = cx_user ctx,
     tr_source_kind = (if tl_source_wallet pl \<noteq> None then ''wallet'' else ''account''), tr_source_wallet = tl_source_wallet pl,
     tr_source_account = (if tl_source pl = ''account'' then tl_account pl else None),
     tr_target_kind = (if tl_target_wallet pl \<noteq> None then ''wallet'' else ''account''), tr_target_wallet = tl_target_wallet pl,
     tr_target_account = (if tl_target pl = ''account'' then tl_account pl else None),
     tr_amount = tl_amount pl, tr_status = (if tl_instant pl then ''done'' else ''requested''), tr_equity = map_option numeric2 (tl_equity pl),
     tr_verified = (tl_equity_source pl = ''live''), tr_decided_by = None, tr_decision_note = None, tr_done_by = None\<rparr>"

definition settle_ends :: "ident \<Rightarrow> transfer \<Rightarrow> portal \<Rightarrow> portal" where
  "settle_ends org t p =
     (let p1 = (case tr_source_wallet t of None \<Rightarrow> p
            | Some w \<Rightarrow> snd (settle org (tr_user t) w (- tr_amount t) ''transfer'' ''transfers'' (tr_id t) None None p))
      in case tr_target_wallet t of None \<Rightarrow> p1
         | Some w \<Rightarrow> snd (settle org (tr_user t) w (tr_amount t) ''transfer'' ''transfers'' (tr_id t) None None p1))"

definition request_transfer_commit :: "org_context \<Rightarrow> transfer_plan \<Rightarrow> rat \<Rightarrow> portal \<Rightarrow> transfer reply \<times> portal" where
  "request_transfer_commit ctx pl now p =
     (case check_caps ctx pl p of
        Inl e \<Rightarrow> (Inl e, p)
      | Inr _ \<Rightarrow>
          let (limited, p1) = spend_hourly ''transfer'' ctx now p in
          if limited then (Inl (Http 429 RATE_LIMITED), p1)
          else let (row, p2) = insert_transfer (transfer_row ctx pl) p1;
                   p3 = (if tl_instant pl then settle_ends (cx_org ctx) row p2 else p2)
               in (Inr row, audit_control (cx_org ctx) ''investor_transfer_requested'' (cx_email ctx) (cx_user ctx)
                     (if tl_instant pl then ''info'' else ''warning'') (tl_account pl) (Some (tr_id row)) p3))"

definition request_transfer ::
  "(string \<Rightarrow> string \<Rightarrow> bool) \<Rightarrow> org_context \<Rightarrow> string option \<Rightarrow> money_ref \<Rightarrow> money_ref \<Rightarrow> raw \<Rightarrow> rat option \<Rightarrow> rat \<Rightarrow> rat \<Rightarrow>
   portal \<Rightarrow> transfer reply \<times> portal" where
  "request_transfer verify ctx mpin source target amount live now db_now p =
     (case mpin_gate verify now db_now (cx_user ctx) mpin p of
        (Some e, p1) \<Rightarrow> (Inl e, p1)
      | (None, p1) \<Rightarrow>
          (case request_transfer_plan ctx source target amount live p1 of
             Inl e \<Rightarrow> (Inl e, p1) | Inr pl \<Rightarrow> request_transfer_commit ctx pl now p1))"

definition transfer_of :: "ident \<Rightarrow> ident \<Rightarrow> portal \<Rightarrow> transfer option" where
  "transfer_of tid org p = find (\<lambda>t. tr_id t = tid \<and> tr_org t = org) (pt_transfers p)"

definition move_transfer :: "transfer \<Rightarrow> (transfer \<Rightarrow> bool) \<Rightarrow> (transfer \<Rightarrow> transfer) \<Rightarrow> portal \<Rightarrow> transfer option \<times> portal" where
  "move_transfer t ok f p =
     (let (row, rows) = update_row (\<lambda>x. tr_id x = tr_id t \<and> tr_org x = tr_org t \<and> tr_status x = tr_status t \<and> ok x) f (pt_transfers p)
      in (row, p\<lparr>pt_transfers := rows\<rparr>))"

definition cancel_transfer_plan :: "org_context \<Rightarrow> ident \<Rightarrow> portal \<Rightarrow> transfer reply" where
  "cancel_transfer_plan ctx tid p =
     (case find (\<lambda>t. tr_id t = tid \<and> tr_org t = cx_org ctx \<and> tr_user t = cx_user ctx) (pt_transfers p) of
        None \<Rightarrow> Inl (Http 404 ''Transfer not found'')
      | Some t \<Rightarrow> if \<not> can_transition transfers (tr_status t) ''cancelled''
                  then Inl (Http 409 (''transfer is already '' @ tr_status t)) else Inr t)"

definition cancel_transfer_commit :: "org_context \<Rightarrow> transfer \<Rightarrow> portal \<Rightarrow> transfer reply \<times> portal" where
  "cancel_transfer_commit ctx t p =
     (case move_transfer t (\<lambda>_. True) (\<lambda>x. x\<lparr>tr_status := ''cancelled'', tr_decided_by := Some (cx_user ctx)\<rparr>) p of
        (None, _) \<Rightarrow> (Inl decided_elsewhere, p)
      | (Some row, p1) \<Rightarrow> (Inr row, audit_control (cx_org ctx) ''investor_transfer_cancelled'' (cx_email ctx) (cx_user ctx) ''info''
          None (Some (tr_id t)) p1))"

definition cancel_transfer :: "org_context \<Rightarrow> ident \<Rightarrow> portal \<Rightarrow> transfer reply \<times> portal" where
  "cancel_transfer ctx tid p =
     (case cancel_transfer_plan ctx tid p of Inl e \<Rightarrow> (Inl e, p) | Inr t \<Rightarrow> cancel_transfer_commit ctx t p)"

definition decide_transfer_plan :: "org_context \<Rightarrow> ident \<Rightarrow> string \<Rightarrow> string option \<Rightarrow> portal \<Rightarrow> (string \<times> string option \<times> transfer) reply" where
  "decide_transfer_plan ctx tid status note p =
     (let new_status = py_lower (py_strip status) in
      if new_status \<noteq> ''approved'' \<and> new_status \<noteq> ''done'' \<and> new_status \<noteq> ''rejected''
      then Inl (Http 400 ''status must be approved, done or rejected'')
      else then_reply (of_text (require_note_on_reject new_status note)) (\<lambda>n.
        case transfer_of tid (cx_org ctx) p of
          None \<Rightarrow> Inl (Http 404 ''Transfer not found'')
        | Some t \<Rightarrow> if \<not> can_transition transfers (tr_status t) new_status
                    then Inl (Http 409 (''transfer is already '' @ tr_status t)) else Inr (new_status, n, t)))"

definition bonus_cap :: "transfer \<Rightarrow> portal \<Rightarrow> rat res" where
  "bonus_cap t p =
     res_bind (floor_cents (dec (the (tr_equity t) - credit_funded (tr_org t) (tr_user t) (the (tr_source_account t)) p))) (\<lambda>c. Inr (max c 0))"

definition check_bonus_cap :: "string \<Rightarrow> transfer \<Rightarrow> portal \<Rightarrow> unit reply" where
  "check_bonus_cap new_status t p =
     (if (new_status = ''approved'' \<or> new_status = ''done'') \<and> tr_source_kind t = ''account'' \<and> tr_source_account t \<noteq> None \<and> tr_equity t \<noteq> None
      then then_reply (of_res (bonus_cap t p)) (\<lambda>cap. if cap < tr_amount t
             then Inl (Http 409 (''bonus credit cannot leave the account (at most '' @ fmt2 cap @ '' may move out); reject this transfer instead''))
             else Inr ())
      else Inr ())"

definition account_gone :: "transfer \<Rightarrow> bool" where
  "account_gone t = (tr_source_kind t = ''account'' \<and> tr_source_account t = None \<or> tr_target_kind t = ''account'' \<and> tr_target_account t = None)"

definition or_else :: "'a option \<Rightarrow> 'a option \<Rightarrow> 'a option" where
  "or_else x y = (case x of None \<Rightarrow> y | Some _ \<Rightarrow> x)"

definition apply_decision :: "org_context \<Rightarrow> string \<Rightarrow> string option \<Rightarrow> transfer \<Rightarrow> portal \<Rightarrow> transfer option \<times> portal" where
  "apply_decision ctx new_status note t p =
     (if new_status = ''done''
      then move_transfer t (\<lambda>x. \<not> account_gone x) (\<lambda>x. x\<lparr>tr_status := ''done'', tr_decided_by := or_else (tr_decided_by x) (Some (cx_user ctx)),
             tr_decision_note := or_else note (tr_decision_note x), tr_done_by := Some (cx_user ctx)\<rparr>) p
      else move_transfer t (\<lambda>_. True) (\<lambda>x. x\<lparr>tr_status := new_status, tr_decided_by := Some (cx_user ctx), tr_decision_note := note\<rparr>) p)"

definition decide_transfer_commit :: "org_context \<Rightarrow> string \<times> string option \<times> transfer \<Rightarrow> portal \<Rightarrow> transfer reply \<times> portal" where
  "decide_transfer_commit ctx pl p =
     (let (new_status, note, t) = pl in
      case check_bonus_cap new_status t p of
        Inl e \<Rightarrow> (Inl e, p)
      | Inr _ \<Rightarrow>
          (case apply_decision ctx new_status note t p of
             (None, _) \<Rightarrow>
               if new_status = ''done'' \<and> (\<exists>x \<in> set (pt_transfers p). tr_id x = tr_id t \<and> tr_status x = tr_status t \<and> account_gone x)
               then (Inl (Http 409 ''the trading account was removed; reject this transfer instead''), p)
               else (Inl decided_elsewhere, p)
           | (Some row, p1) \<Rightarrow>
               let p2 = (if new_status = ''done'' then settle_ends (cx_org ctx) t p1 else p1)
               in (Inr row, notify (cx_org ctx) (tr_user t) ''money'' (''Your transfer of '' @ fmt2 (tr_amount t) @ '' USD was '' @ new_status)
                    (audit_control (cx_org ctx) ''investor_transfer_decided'' (cx_email ctx) (tr_user t) ''info''
                       (or_else (tr_source_account t) (tr_target_account t)) (Some (tr_id t)) p2))))"

definition decide_transfer :: "org_context \<Rightarrow> ident \<Rightarrow> string \<Rightarrow> string option \<Rightarrow> portal \<Rightarrow> transfer reply \<times> portal" where
  "decide_transfer ctx tid status note p =
     (case decide_transfer_plan ctx tid status note p of Inl e \<Rightarrow> (Inl e, p) | Inr pl \<Rightarrow> decide_transfer_commit ctx pl p)"

section \<open>Adjustments and bonuses by hand\<close>

text \<open>\<^verbatim>\<open>SIGNED_AMOUNT\<close>: one optional sign, digits, at most two decimals.\<close>

definition signed_amount_form :: "string \<Rightarrow> bool" where
  "signed_amount_form s =
     (let (_, body) = split_sign s; ip = takeWhile is_digit body; r = dropWhile is_digit body
      in ip \<noteq> [] \<and> (case r of [] \<Rightarrow> True | c # ds \<Rightarrow> c = CHR ''.'' \<and> all_digits ds \<and> (length ds = 1 \<or> length ds = 2)))"

definition raw_text :: "raw \<Rightarrow> string" where
  "raw_text r = (case r of RText s \<Rightarrow> py_strip s | RNumber s \<Rightarrow> py_strip s | ROther s \<Rightarrow> py_strip s | _ \<Rightarrow> [])"

definition is_sign :: "char \<Rightarrow> bool" where "is_sign c = (c = CHR ''+'' \<or> c = CHR ''-'')"

definition parse_signed_amount :: "raw \<Rightarrow> rat reply" where
  "parse_signed_amount raw =
     (let text = raw_text raw in
      if text \<noteq> [] \<and> \<not> signed_amount_form text
      then Inl (Http 400 ''amount must be a signed number with at most two decimals, e.g. -25.00'')
      else if text \<noteq> [] \<and> decimal_of text = Some (Finite 0) then Inl (Http 400 ''amount must not be zero'')
      else then_reply (of_text (parse_amount (if text \<noteq> [] then RText (dropWhile is_sign text) else raw) ''amount''))
        (\<lambda>m. Inr (if startswith text ''-'' then - m else m)))"

definition require_investor_member :: "ident \<Rightarrow> ident \<Rightarrow> portal \<Rightarrow> string reply" where
  "require_investor_member org user_id p =
     (case membership org user_id (pt_access p) of
        Some (role, email) \<Rightarrow> if role = ''investor'' then Inr email else Inl (Http 404 ''Investor not found'')
      | None \<Rightarrow> Inl (Http 404 ''Investor not found''))"

definition wallet_label :: "string \<Rightarrow> string" where
  "wallet_label w = (if w = ''main'' then ''My wallet'' else if w = ''credit'' then ''Credit wallet''
     else if w = ''pamm'' then ''PAMM wallet'' else ''Social wallet'')"

definition fmt_signed :: "rat \<Rightarrow> string" where
  "fmt_signed x = (if 0 \<le> x then CHR ''+'' # fmt2 x else fmt2 x)"

definition adjust :: "org_context \<Rightarrow> ident \<Rightarrow> string \<Rightarrow> rat \<Rightarrow> string option \<Rightarrow> portal \<Rightarrow> portal" where
  "adjust ctx user_id wallet amount note p =
     insert_entry \<lparr>we_id = 0, we_org = cx_org ctx, we_user = user_id, we_wallet = wallet, we_amount = amount, we_kind = ''adjustment'',
       we_ref = None, we_note = note, we_by = Some (cx_user ctx)\<rparr> p"

definition check_adjustment :: "org_context \<Rightarrow> ident \<Rightarrow> string \<Rightarrow> raw \<Rightarrow> string \<Rightarrow> portal \<Rightarrow> (string \<times> rat \<times> string option) reply" where
  "check_adjustment ctx user_id wallet amount note p =
     then_reply (require_investor_member (cx_org ctx) user_id p) (\<lambda>_.
       let w = py_lower (py_strip wallet) in
       if w \<notin> set WALLETS then Inl (Http 400 ''wallet must be one of main, credit, pamm, social'')
       else then_reply (parse_signed_amount amount) (\<lambda>x.
            then_reply (of_text (clean_text (Some note) ''note'' 500 True)) (\<lambda>n. Inr (w, x, n))))"

definition adjustment_commit :: "org_context \<Rightarrow> ident \<Rightarrow> string \<times> rat \<times> string option \<Rightarrow> portal \<Rightarrow> entry reply \<times> portal" where
  "adjustment_commit ctx user_id pl p =
     (let (w, x, n) = pl; p1 = adjust ctx user_id w x n p; row = last (pt_entries p1)
      in (Inr row, notify (cx_org ctx) user_id ''money'' (''Your '' @ wallet_label w @ '' was adjusted by '' @ fmt_signed x @ '' USD'')
           (audit_control (cx_org ctx) ''investor_ledger_adjusted'' (cx_email ctx) user_id ''warning'' None (Some (we_id row)) p1)))"

definition post_adjustment ::
  "(string \<Rightarrow> string \<Rightarrow> bool) \<Rightarrow> org_context \<Rightarrow> string option \<Rightarrow> ident \<Rightarrow> string \<Rightarrow> raw \<Rightarrow> string \<Rightarrow> rat \<Rightarrow> rat \<Rightarrow> portal \<Rightarrow> entry reply \<times> portal" where
  "post_adjustment verify ctx mpin user_id wallet amount note now db_now p =
     (case mpin_gate verify now db_now (cx_user ctx) mpin p of
        (Some e, p1) \<Rightarrow> (Inl e, p1)
      | (None, p1) \<Rightarrow>
          (case check_adjustment ctx user_id wallet amount note p1 of
             Inl e \<Rightarrow> (Inl e, p1)
           | Inr pl \<Rightarrow> adjustment_commit ctx user_id pl p1))"

definition grant_commit :: "org_context \<Rightarrow> ident \<Rightarrow> rat \<Rightarrow> string option \<Rightarrow> portal \<Rightarrow> ident option reply \<times> portal" where
  "grant_commit ctx user_id amount note p =
     (case (if amount < 0 then of_res (available_in ''credit'' (cx_org ctx) user_id p) else Inr 0) of
        Inl e \<Rightarrow> (Inl e, p)
      | Inr avail \<Rightarrow>
          if amount < 0 \<and> dec (avail + amount) < 0
          then (Inl (Http 400 (''a claw-back cannot take the Credit wallet below zero (available '' @ fmt2 avail @ '')'')), p)
          else case pay_bonus (cx_org ctx) user_id ''manual'' amount None note (Some (cx_user ctx)) p of
            (Inl e, _) \<Rightarrow> (Inl (Crash e), p)
          | (Inr i, p1) \<Rightarrow> (Inr i, case i of None \<Rightarrow> p1
              | Some b \<Rightarrow> announce_bonus (cx_org ctx) user_id b ''manual'' amount (cx_email ctx) p1))"

definition check_grant :: "org_context \<Rightarrow> ident \<Rightarrow> raw \<Rightarrow> string option \<Rightarrow> portal \<Rightarrow> (rat \<times> string option) reply" where
  "check_grant ctx user_id amount note p =
     then_reply (require_investor_member (cx_org ctx) user_id p) (\<lambda>_. then_reply (parse_signed_amount amount) (\<lambda>x.
     then_reply (of_text (clean_text note ''note'' 500 True)) (\<lambda>n. Inr (x, n))))"

definition grant_bonus ::
  "(string \<Rightarrow> string \<Rightarrow> bool) \<Rightarrow> org_context \<Rightarrow> string option \<Rightarrow> ident \<Rightarrow> raw \<Rightarrow> string option \<Rightarrow> rat \<Rightarrow> rat \<Rightarrow> portal \<Rightarrow> ident option reply \<times> portal" where
  "grant_bonus verify ctx mpin user_id amount note now db_now p =
     (case mpin_gate verify now db_now (cx_user ctx) mpin p of
        (Some e, p1) \<Rightarrow> (Inl e, p1)
      | (None, p1) \<Rightarrow>
          (case check_grant ctx user_id amount note p1 of
             Inl e \<Rightarrow> (Inl e, p1)
           | Inr (x, n) \<Rightarrow> grant_commit ctx user_id x n p1))"

section \<open>Account links\<close>

definition link_investor_account :: "org_context \<Rightarrow> ident \<Rightarrow> ident \<Rightarrow> portal \<Rightarrow> unit reply \<times> portal" where
  "link_investor_account ctx user_id account p =
     (case require_investor_member (cx_org ctx) user_id p of
        Inl e \<Rightarrow> (Inl e, p)
      | Inr _ \<Rightarrow>
          (case link_account (cx_org ctx) user_id account False p of
             (Inl e, p1) \<Rightarrow> (Inl e, p1)
           | (Inr _, p1) \<Rightarrow> (Inr (), audit_control (cx_org ctx) ''investor_account_linked'' (cx_email ctx) user_id ''info'' (Some account) None p1)))"

definition names_account :: "ident \<Rightarrow> transfer \<Rightarrow> bool" where
  "names_account account t = (tr_source_account t = Some account \<or> tr_target_account t = Some account)"

definition unlink_investor_account :: "org_context \<Rightarrow> ident \<Rightarrow> ident \<Rightarrow> portal \<Rightarrow> unit reply \<times> portal" where
  "unlink_investor_account ctx user_id account p =
     (case require_investor_member (cx_org ctx) user_id p of
        Inl e \<Rightarrow> (Inl e, p)
      | Inr _ \<Rightarrow>
          if \<not> owns_account (cx_org ctx) user_id (Some account) p then (Inl (Http 404 ''Account not found''), p)
          else if \<exists>t \<in> set (open_transfers (cx_org ctx) user_id p). names_account account t
          then (Inl (Http 409 ''this account has open transfers; finish or reject them first''), p)
          else (Inr (), audit_control (cx_org ctx) ''investor_account_unlinked'' (cx_email ctx) user_id ''info'' (Some account) None
                 (p\<lparr>pt_accounts := map (\<lambda>a. if pa_org a = cx_org ctx \<and> pa_investor a = Some user_id \<and> pa_id a = account
                      then a\<lparr>pa_investor := None\<rparr> else a) (pt_accounts p)\<rparr>)))"

text \<open>An account that is deleted: the foreign keys of deposits and transfers are set to NULL.\<close>

definition forget :: "ident \<Rightarrow> ident option \<Rightarrow> ident option" where
  "forget account x = (if x = Some account then None else x)"

definition account_removed :: "ident \<Rightarrow> portal \<Rightarrow> portal" where
  "account_removed account p = p\<lparr>pt_accounts := filter (\<lambda>a. pa_id a \<noteq> account) (pt_accounts p),
     pt_deposits := map (\<lambda>d. d\<lparr>dp_account := forget account (dp_account d)\<rparr>) (pt_deposits p),
     pt_transfers := map (\<lambda>t. t\<lparr>tr_source_account := forget account (tr_source_account t),
        tr_target_account := forget account (tr_target_account t)\<rparr>) (pt_transfers p)\<rparr>"

section \<open>Settings, rules and payment methods\<close>

definition parse_min :: "raw \<Rightarrow> string \<Rightarrow> string + rat" where
  "parse_min raw field =
     (if raw = RNone \<or> raw = RText [] \<or> decimal_of_raw raw = Some (Finite 0) then Inr 0 else parse_amount raw field)"

text \<open>\<^verbatim>\<open>value != value.quantize(Decimal("0.001"))\<close>, for a value below a thousand.\<close>

definition three_decimals :: "rat \<Rightarrow> bool" where
  "three_decimals x = (of_int (round_half_even (x * 1000)) / 1000 = x)"

definition parse_pct :: "raw \<Rightarrow> string \<Rightarrow> string + rat" where
  "parse_pct raw field =
     (let message = field @ '' must be between 0 and 99.999'' in
      if raw = RText [] then Inl message
      else case decimal_of_raw raw of
        Some (Finite x) \<Rightarrow> if x < 0 \<or> 100 \<le> x \<or> \<not> three_decimals x then Inl message else Inr x
      | _ \<Rightarrow> Inl message)"

definition parse_deposit_pct :: "raw \<Rightarrow> string + rat" where
  "parse_deposit_pct raw =
     (if raw = RNone \<or> raw = RText [] then Inr 0
      else case decimal_of_raw raw of
        Some (Finite x) \<Rightarrow>
          if x < 0 \<or> 100 < x then Inl ''deposit_pct must be between 0 and 100''
          else if \<not> three_decimals x then Inl ''deposit_pct may have at most three decimals'' else Inr x
      | _ \<Rightarrow> Inl ''deposit_pct must be between 0 and 100'')"

definition put_settings :: "org_context \<Rightarrow> raw \<Rightarrow> raw \<Rightarrow> int option option \<Rightarrow> portal \<Rightarrow> settings_row reply \<times> portal" where
  "put_settings ctx withdrawal_min fee_pct cap p =
     (case then_reply (of_text (parse_min withdrawal_min ''withdrawal_min'')) (\<lambda>m.
           then_reply (of_text (parse_pct fee_pct ''withdrawal_fee_pct'')) (\<lambda>f. Inr (m, f))) of
        Inl e \<Rightarrow> (Inl e, p)
      | Inr (m, f) \<Rightarrow>
          let (cur, p1) = portal_settings (cx_org ctx) p;
              c = (case cap of None \<Rightarrow> Some (st_max_accounts cur) | Some x \<Rightarrow> x)
          in case c of
               None \<Rightarrow> (Inl (Http 400 ''max_live_accounts must be a whole number from 1 to 50''), p1)
             | Some k \<Rightarrow>
                 if \<not> (1 \<le> k \<and> k \<le> 50) then (Inl (Http 400 ''max_live_accounts must be a whole number from 1 to 50''), p1)
                 else let s = \<lparr>st_min = m, st_fee_pct = f, st_max_accounts = k\<rparr>
                      in (Inr s, audit_control (cx_org ctx) ''portal_settings_changed'' (cx_email ctx) (cx_user ctx) ''info'' None None
                            (p1\<lparr>pt_settings := AList.update (cx_org ctx) s (pt_settings p1)\<rparr>)))"

record rules_body =
  rb_signup :: "bool option"
  rb_signup_amount :: raw
  rb_kyc :: "bool option"
  rb_kyc_amount :: raw
  rb_deposit :: "bool option"
  rb_deposit_pct :: raw
  rb_deposit_cap :: raw

definition flag :: "bool option \<Rightarrow> string \<Rightarrow> bool reply" where
  "flag b name = (case b of Some x \<Rightarrow> Inr x | None \<Rightarrow> Inl (Http 400 (name @ '' must be true or false'')))"

definition must_pay :: "bool \<Rightarrow> rat \<Rightarrow> string \<Rightarrow> string \<Rightarrow> unit reply" where
  "must_pay on x field source = (if on \<and> x = 0 then Inl (Http 400 (field @ '' must be above 0 while the '' @ source @ '' rule is on'')) else Inr ())"

definition parse_rules :: "rules_body \<Rightarrow> rules_row reply" where
  "parse_rules b =
     then_reply (flag (rb_signup b) ''signup_enabled'') (\<lambda>su.
     then_reply (flag (rb_kyc b) ''kyc_enabled'') (\<lambda>ky.
     then_reply (flag (rb_deposit b) ''deposit_enabled'') (\<lambda>de.
     then_reply (of_text (parse_min (rb_signup_amount b) ''signup_amount'')) (\<lambda>sa.
     then_reply (of_text (parse_min (rb_kyc_amount b) ''kyc_amount'')) (\<lambda>ka.
     then_reply (of_text (parse_deposit_pct (rb_deposit_pct b))) (\<lambda>dp.
     then_reply (if rb_deposit_cap b = RNone \<or> rb_deposit_cap b = RText [] then Inr None
                 else then_reply (of_text (parse_amount (rb_deposit_cap b) ''deposit_cap'')) (\<lambda>c. Inr (Some c))) (\<lambda>cap.
     then_reply (must_pay su sa ''signup_amount'' ''signup'') (\<lambda>_.
     then_reply (must_pay ky ka ''kyc_amount'' ''kyc'') (\<lambda>_.
     then_reply (must_pay de dp ''deposit_pct'' ''deposit'') (\<lambda>_.
       Inr \<lparr>ru_signup = su, ru_signup_amount = sa, ru_kyc = ky, ru_kyc_amount = ka, ru_deposit = de, ru_deposit_pct = dp, ru_deposit_cap = cap\<rparr>))))))))))"

definition put_rules :: "org_context \<Rightarrow> rules_body \<Rightarrow> portal \<Rightarrow> rules_row reply \<times> portal" where
  "put_rules ctx body p =
     (case parse_rules body of
        Inl e \<Rightarrow> (Inl e, p)
      | Inr r \<Rightarrow>
          let (_, p1) = bonus_rules (cx_org ctx) p
          in (Inr r, audit_control (cx_org ctx) ''bonus_rules_changed'' (cx_email ctx) (cx_user ctx) ''info'' None None
                (p1\<lparr>pt_rules := AList.update (cx_org ctx) r (pt_rules p1)\<rparr>)))"

definition method_row :: "ident \<Rightarrow> ident \<Rightarrow> portal \<Rightarrow> pay_method reply" where
  "method_row org mid p =
     (case find (\<lambda>m. pm_id m = mid \<and> pm_org m = org) (pt_methods p) of
        None \<Rightarrow> Inl (Http 404 ''Payment method not found'') | Some m \<Rightarrow> Inr m)"

definition audit_method :: "org_context \<Rightarrow> ident \<Rightarrow> portal \<Rightarrow> portal" where
  "audit_method ctx mid = audit_control (cx_org ctx) ''payment_method_changed'' (cx_email ctx) (cx_user ctx) ''warning'' None (Some mid)"

definition METHOD_REQUIRED :: "string \<Rightarrow> string list" where
  "METHOD_REQUIRED kind = (if kind = ''crypto'' then CRYPTO_REQUIRED else BANK_REQUIRED)"

definition METHOD_OPTIONAL :: "string \<Rightarrow> string list" where
  "METHOD_OPTIONAL kind = (if kind = ''crypto'' then [''memo''] else BANK_OPTIONAL)"

definition clean_details :: "string \<Rightarrow> (string, string) dict \<Rightarrow> (string, string) dict reply" where
  "clean_details kind raw =
     fold (clean_optional raw) (METHOD_OPTIONAL kind) (fold (clean_required raw) (METHOD_REQUIRED kind) (Inr []))"

definition clean_currency :: "string option \<Rightarrow> string reply" where
  "clean_currency raw = then_reply (of_text (clean_text raw ''currency'' 8 False))
     (\<lambda>c. Inr (map upper_char (case c of None \<Rightarrow> ''USD'' | Some t \<Rightarrow> t)))"

record method_body =
  mb_kind :: string
  mb_label :: string
  mb_currency :: string
  mb_details :: "(string, string) dict"
  mb_min :: raw
  mb_fee_pct :: raw
  mb_instructions :: "string option"
  mb_sort :: int

definition create_method :: "org_context \<Rightarrow> method_body \<Rightarrow> portal \<Rightarrow> pay_method reply \<times> portal" where
  "create_method ctx b p =
     (let kind = py_lower (py_strip (mb_kind b)) in
      if kind \<noteq> ''crypto'' \<and> kind \<noteq> ''bank'' then (Inl (Http 400 ''kind must be crypto or bank''), p)
      else case
          then_reply (of_text (clean_text (Some (mb_label b)) ''label'' 64 True)) (\<lambda>label.
          then_reply (clean_currency (Some (mb_currency b))) (\<lambda>currency.
          then_reply (clean_details kind (mb_details b)) (\<lambda>details.
          then_reply (of_text (parse_min (mb_min b) ''min_amount'')) (\<lambda>m.
          then_reply (of_text (parse_pct (mb_fee_pct b) ''fee_pct'')) (\<lambda>f.
          then_reply (of_text (clean_text (mb_instructions b) ''instructions'' 1000 False)) (\<lambda>i.
            Inr \<lparr>pm_id = pt_next_method p, pm_org = cx_org ctx, pm_kind = kind, pm_label = the label, pm_enabled = True,
              pm_currency = currency, pm_details = details, pm_min = m, pm_fee_pct = f, pm_instructions = i, pm_sort = mb_sort b\<rparr>)))))) of
        Inl e \<Rightarrow> (Inl e, p)
      | Inr row \<Rightarrow> (Inr row, audit_method ctx (pm_id row)
          (p\<lparr>pt_methods := pt_methods p @ [row], pt_next_method := pt_next_method p + 1\<rparr>)))"

record method_patch =
  mp_label :: "string option"
  mp_currency :: "string option"
  mp_details :: "(string, string) dict option"
  mp_min :: raw
  mp_fee_pct :: raw
  mp_instructions :: "string option"
  mp_sort :: "int option"
  mp_enabled :: "bool option"

text \<open>A field that is given is checked and set; one that is left out keeps its value.\<close>

definition set_field :: "'a option \<Rightarrow> ('a \<Rightarrow> 'b reply) \<Rightarrow> ('b \<Rightarrow> pay_method \<Rightarrow> pay_method) \<Rightarrow> pay_method reply \<Rightarrow> pay_method reply" where
  "set_field x check upd r = then_reply r (\<lambda>m. case x of None \<Rightarrow> Inr m | Some v \<Rightarrow> then_reply (check v) (\<lambda>y. Inr (upd y m)))"

definition given :: "raw \<Rightarrow> raw option" where "given r = (if r = RNone then None else Some r)"

definition patch_method :: "method_patch \<Rightarrow> pay_method \<Rightarrow> pay_method reply" where
  "patch_method b m =
     set_field (mp_enabled b) Inr (\<lambda>v x. x\<lparr>pm_enabled := v\<rparr>)
     (set_field (mp_sort b) Inr (\<lambda>v x. x\<lparr>pm_sort := v\<rparr>)
     (set_field (mp_instructions b) (\<lambda>v. of_text (clean_text (Some v) ''instructions'' 1000 False)) (\<lambda>v x. x\<lparr>pm_instructions := v\<rparr>)
     (set_field (given (mp_fee_pct b)) (\<lambda>v. of_text (parse_pct v ''fee_pct'')) (\<lambda>v x. x\<lparr>pm_fee_pct := v\<rparr>)
     (set_field (given (mp_min b)) (\<lambda>v. of_text (parse_min v ''min_amount'')) (\<lambda>v x. x\<lparr>pm_min := v\<rparr>)
     (set_field (mp_details b) (clean_details (pm_kind m)) (\<lambda>v x. x\<lparr>pm_details := v\<rparr>)
     (set_field (mp_currency b) (\<lambda>v. clean_currency (Some v)) (\<lambda>v x. x\<lparr>pm_currency := v\<rparr>)
     (set_field (mp_label b) (\<lambda>v. of_text (clean_text (Some v) ''label'' 64 True)) (\<lambda>v x. x\<lparr>pm_label := the v\<rparr>)
     (Inr m))))))))"

definition patch_empty :: "method_patch \<Rightarrow> bool" where
  "patch_empty b = (mp_label b = None \<and> mp_currency b = None \<and> mp_details b = None \<and> mp_min b = RNone \<and> mp_fee_pct b = RNone \<and>
     mp_instructions b = None \<and> mp_sort b = None \<and> mp_enabled b = None)"

definition update_method :: "org_context \<Rightarrow> ident \<Rightarrow> method_patch \<Rightarrow> portal \<Rightarrow> pay_method reply \<times> portal" where
  "update_method ctx mid b p =
     (case method_row (cx_org ctx) mid p of
        Inl e \<Rightarrow> (Inl e, p)
      | Inr cur \<Rightarrow>
          (case patch_method b cur of
             Inl e \<Rightarrow> (Inl e, p)
           | Inr row \<Rightarrow>
               if patch_empty b then (Inr cur, p)
               else (Inr row, audit_method ctx mid (p\<lparr>pt_methods := map (\<lambda>m. if pm_id m = mid \<and> pm_org m = cx_org ctx then row else m)
                       (pt_methods p)\<rparr>))))"

definition delete_method :: "org_context \<Rightarrow> ident \<Rightarrow> portal \<Rightarrow> unit reply \<times> portal" where
  "delete_method ctx mid p =
     (case method_row (cx_org ctx) mid p of
        Inl e \<Rightarrow> (Inl e, p)
      | Inr _ \<Rightarrow>
          if \<exists>d \<in> set (pt_deposits p). dp_method d = Some mid \<and> dp_status d = ''pending''
          then (Inl (Http 409 ''a pending deposit still uses this method''), p)
          else (Inr (), audit_method ctx mid (p\<lparr>pt_methods := filter (\<lambda>m. \<not> (pm_id m = mid \<and> pm_org m = cx_org ctx)) (pt_methods p),
                 pt_deposits := map (\<lambda>d. d\<lparr>dp_method := forget mid (dp_method d)\<rparr>) (pt_deposits p)\<rparr>)))"

end
