(* ===== verification/Portal_Books.thy ===== *)
theory Portal_Books
  imports Portal_Routes "HOL-Library.Multiset" "HOL-Library.Sublist"
begin

text \<open>
  The books of the portal, abstractly: what the requests' statuses say the ledger must hold
  (\<open>settlements\<close>), what each wallet holds and has promised (\<open>bal\<close>, \<open>hold\<close>), the handful of moves that
  change them (\<open>books_step\<close>), and the invariant every move keeps. Portal\<open>_\<close>Desk shows that each route is
  a sequence of these moves.
\<close>

section \<open>Replacing one row\<close>

lemma replace_sum:
  fixes v :: "'a \<Rightarrow> 'b::comm_monoid_add"
  assumes "distinct (map k xs)" "find P xs = Some r" "\<And>x. P x \<Longrightarrow> k x = k r"
  shows "(\<Sum>x \<leftarrow> map (\<lambda>x. if P x then f x else x) xs. v x) + v r = (\<Sum>x \<leftarrow> xs. v x) + v (f r)"
  using assms
proof (induction xs)
  case (Cons a xs)
  show ?case
  proof (cases "P a")
    case True
    then have r: "r = a" using Cons.prems(2) by simp
    have "\<not> P x" if "x \<in> set xs" for x using Cons.prems(1,3) that unfolding r by (auto simp: rev_image_eqI)
    then have "map (\<lambda>x. if P x then f x else x) xs = xs" by (simp cong: map_cong)
    then show ?thesis using True by (simp add: r ac_simps)
  next
    case False
    have "(\<Sum>x \<leftarrow> map (\<lambda>x. if P x then f x else x) xs. v x) + v r = (\<Sum>x \<leftarrow> xs. v x) + v (f r)"
      by (rule Cons.IH) (use Cons.prems False in auto)
    then show ?thesis using False by (simp add: add.assoc)
  qed
qed simp

lemma replace_all: "(\<And>x. x \<in> set xs \<Longrightarrow> Q x) \<Longrightarrow> (\<And>x. x \<in> set xs \<Longrightarrow> P x \<Longrightarrow> Q (f x)) \<Longrightarrow>
  \<forall>x \<in> set (map (\<lambda>x. if P x then f x else x) xs). Q x"
  by auto

lemma replace_keys:
  assumes "\<And>x. k (f x) = k x"
  shows "map k (map (\<lambda>x. if P x then f x else x) xs) = map k xs"
proof -
  have "k \<circ> (\<lambda>x. if P x then f x else x) = k" by (rule ext) (simp only: comp_apply if_distrib [of k] assms if_cancel)
  then show ?thesis by (simp only: list.map_comp)
qed

lemma find_unique:
  assumes "distinct (map k xs)" "x \<in> set xs" "P x" "\<And>y. y \<in> set xs \<Longrightarrow> P y \<Longrightarrow> k y = k x"
  shows "find P xs = Some x"
proof -
  obtain r where r: "find P xs = Some r" using assms(2,3) find_None_iff [of P xs] by (cases "find P xs") blast+
  then have "r \<in> set xs" "P r" by (auto dest: find_SomeD)
  then have "r = x" using assms(1,2,4) by (auto simp: distinct_map inj_on_def)
  with r show ?thesis by simp
qed

section \<open>What the statuses say\<close>

type_synonym posting = "ident \<times> ident \<times> string \<times> rat \<times> string \<times> (string \<times> ident)"

definition posting_of :: "entry \<Rightarrow> posting multiset" where
  "posting_of e = (case we_ref e of None \<Rightarrow> {#}
     | Some r \<Rightarrow> {#(we_org e, we_user e, we_wallet e, we_amount e, we_kind e, r)#})"

definition deposit_posts :: "deposit \<Rightarrow> posting multiset" where
  "deposit_posts d = (if dp_status d = ''confirmed''
     then {#(dp_org d, dp_user d, ''main'', the (dp_credited d), ''deposit'', (''deposits'', dp_id d))#} else {#})"

definition withdrawal_posts :: "withdrawal \<Rightarrow> posting multiset" where
  "withdrawal_posts w = (if wd_status w = ''paid''
     then {#(wd_org w, wd_user w, ''main'', - wd_amount w, ''withdrawal'', (''withdrawals'', wd_id w))#} else {#})"

definition end_posts :: "transfer \<Rightarrow> rat \<Rightarrow> string option \<Rightarrow> posting multiset" where
  "end_posts t x w = (case w of None \<Rightarrow> {#} | Some w \<Rightarrow> {#(tr_org t, tr_user t, w, x, ''transfer'', (''transfers'', tr_id t))#})"

definition transfer_posts :: "transfer \<Rightarrow> posting multiset" where
  "transfer_posts t = (if tr_status t = ''done''
     then end_posts t (- tr_amount t) (tr_source_wallet t) + end_posts t (tr_amount t) (tr_target_wallet t) else {#})"

definition bonus_posts :: "bonus \<Rightarrow> posting multiset" where
  "bonus_posts b = {#(bo_org b, bo_user b, ''credit'', bo_amount b, ''bonus'', (''bonuses'', bo_id b))#}"

definition settlements :: "portal \<Rightarrow> posting multiset" where
  "settlements p = (\<Sum>d \<leftarrow> pt_deposits p. deposit_posts d) + (\<Sum>w \<leftarrow> pt_withdrawals p. withdrawal_posts w) +
     (\<Sum>t \<leftarrow> pt_transfers p. transfer_posts t) + (\<Sum>b \<leftarrow> pt_bonuses p. bonus_posts b)"

definition postings :: "portal \<Rightarrow> posting multiset" where
  "postings p = (\<Sum>e \<leftarrow> pt_entries p. posting_of e)"

section \<open>Balances and promises\<close>

definition entry_in :: "ident \<Rightarrow> ident \<Rightarrow> string \<Rightarrow> entry \<Rightarrow> rat" where
  "entry_in g u w e = (if we_org e = g \<and> we_user e = u \<and> we_wallet e = w then we_amount e else 0)"

definition clawed_in :: "ident \<Rightarrow> ident \<Rightarrow> string \<Rightarrow> entry \<Rightarrow> rat" where
  "clawed_in g u w e = (if we_org e = g \<and> we_user e = u \<and> we_wallet e = w \<and> we_ref e = None \<and> we_amount e < 0 then - we_amount e else 0)"

definition promised_withdrawal :: "ident \<Rightarrow> ident \<Rightarrow> string \<Rightarrow> withdrawal \<Rightarrow> rat" where
  "promised_withdrawal g u w x = (if wd_org x = g \<and> wd_user x = u \<and> w = ''main'' \<and> wd_status x \<in> set OPEN_STATUSES then wd_amount x else 0)"

definition promised_transfer :: "ident \<Rightarrow> ident \<Rightarrow> string \<Rightarrow> transfer \<Rightarrow> rat" where
  "promised_transfer g u w x = (if tr_org x = g \<and> tr_user x = u \<and> tr_source_wallet x = Some w \<and> tr_status x \<in> set OPEN_STATUSES then tr_amount x else 0)"

definition bal :: "ident \<Rightarrow> ident \<Rightarrow> string \<Rightarrow> portal \<Rightarrow> rat" where
  "bal g u w p = (\<Sum>e \<leftarrow> pt_entries p. entry_in g u w e)"

definition hold :: "ident \<Rightarrow> ident \<Rightarrow> string \<Rightarrow> portal \<Rightarrow> rat" where
  "hold g u w p = (\<Sum>x \<leftarrow> pt_withdrawals p. promised_withdrawal g u w x) + (\<Sum>x \<leftarrow> pt_transfers p. promised_transfer g u w x)"

text \<open>What the desk took back by hand, which may leave a wallet short of its promises.\<close>

definition clawed :: "ident \<Rightarrow> ident \<Rightarrow> string \<Rightarrow> portal \<Rightarrow> rat" where
  "clawed g u w p = (\<Sum>e \<leftarrow> pt_entries p. clawed_in g u w e)"

definition slack :: "ident \<Rightarrow> ident \<Rightarrow> string \<Rightarrow> portal \<Rightarrow> rat" where
  "slack g u w p = bal g u w p - hold g u w p + clawed g u w p"

section \<open>The invariant\<close>

definition entry_ok :: "entry \<Rightarrow> bool" where
  "entry_ok e \<longleftrightarrow> we_wallet e \<in> set WALLETS \<and> whole_cents (we_amount e) \<and> \<bar>we_amount e\<bar> < 10 ^ 12"

definition deposit_ok :: "deposit \<Rightarrow> bool" where
  "deposit_ok d \<longleftrightarrow> amount_ok (dp_amount d) \<and> 0 \<le> dp_fee d \<and> dp_fee d \<le> dp_amount d \<and> whole_cents (dp_fee d) \<and>
     (dp_status d = ''confirmed'' \<longrightarrow> (\<exists>c. dp_credited d = Some c \<and> amount_ok c))"

definition transfer_ok :: "transfer \<Rightarrow> bool" where
  "transfer_ok t \<longleftrightarrow> amount_ok (tr_amount t) \<and> (tr_source_kind t = ''wallet'' \<longleftrightarrow> tr_source_wallet t \<noteq> None) \<and>
     set_option (tr_source_wallet t) \<subseteq> set WALLETS \<and> set_option (tr_target_wallet t) \<subseteq> set WALLETS \<and>
     (tr_source_wallet t = None \<or> tr_source_wallet t \<noteq> tr_target_wallet t)"

definition bonus_ok :: "bonus \<Rightarrow> bool" where
  "bonus_ok b \<longleftrightarrow> bo_amount b \<noteq> 0 \<and> whole_cents (bo_amount b) \<and> \<bar>bo_amount b\<bar> < 10 ^ 12"

definition rules_ok :: "portal \<Rightarrow> bool" where
  "rules_ok p \<longleftrightarrow> (\<forall>(g, r) \<in> set (pt_rules p). (amount_ok (ru_signup_amount r) \<or> ru_signup_amount r = 0) \<and>
     (amount_ok (ru_kyc_amount r) \<or> ru_kyc_amount r = 0) \<and> pct_ok (ru_deposit_pct r) \<and>
     (\<forall>c. ru_deposit_cap r = Some c \<longrightarrow> amount_ok c))"

definition methods_ok :: "portal \<Rightarrow> bool" where
  "methods_ok p \<longleftrightarrow> (\<forall>m \<in> set (pt_methods p). pct_ok (pm_fee_pct m))"

definition numbered_rows :: "('a \<Rightarrow> ident) \<Rightarrow> ident \<Rightarrow> 'a list \<Rightarrow> bool" where
  "numbered_rows k n xs \<longleftrightarrow> distinct (map k xs) \<and> (\<forall>x \<in> set xs. k x < n)"

definition never_again :: "bonus \<Rightarrow> bonus \<Rightarrow> bool" where
  "never_again a b \<longleftrightarrow> \<not> bonus_taken (bo_org b) (bo_user b) (bo_source b) (bo_source_id b) a"

definition rows_ok :: "portal \<Rightarrow> bool" where
  "rows_ok p \<longleftrightarrow> numbered_rows dp_id (pt_next_deposit p) (pt_deposits p) \<and> numbered_rows wd_id (pt_next_withdrawal p) (pt_withdrawals p) \<and>
     numbered_rows tr_id (pt_next_transfer p) (pt_transfers p) \<and> numbered_rows bo_id (pt_next_bonus p) (pt_bonuses p) \<and>
     (\<forall>e \<in> set (pt_entries p). entry_ok e) \<and> (\<forall>d \<in> set (pt_deposits p). deposit_ok d) \<and>
     (\<forall>w \<in> set (pt_withdrawals p). amount_ok (wd_amount w)) \<and> (\<forall>t \<in> set (pt_transfers p). transfer_ok t) \<and>
     (\<forall>b \<in> set (pt_bonuses p). bonus_ok b) \<and> sorted_wrt never_again (pt_bonuses p) \<and> rules_ok p \<and> methods_ok p"

definition books_inv :: "portal \<Rightarrow> bool" where
  "books_inv p \<longleftrightarrow> rows_ok p \<and> postings p = settlements p \<and> (\<forall>g u w. 0 \<le> slack g u w p)"

lemma numbered_snoc: "numbered_rows k n xs \<Longrightarrow> k x = n \<Longrightarrow> numbered_rows k (n + 1) (xs @ [x])"
  by (auto simp: numbered_rows_def)

lemma numbered_keys: "map k xs = map k ys \<Longrightarrow> numbered_rows k n xs = numbered_rows k n ys"
proof -
  assume eq: "map k xs = map k ys"
  have all: "(\<forall>x \<in> set zs. k x < n) \<longleftrightarrow> (\<forall>y \<in> set (map k zs). y < n)" for zs by simp
  show ?thesis unfolding numbered_rows_def all eq ..
qed

lemma numbered_replace:
  "numbered_rows k n xs \<Longrightarrow> (\<And>x. k (f x) = k x) \<Longrightarrow> numbered_rows k n (map (\<lambda>x. if P x then f x else x) xs)"
  using numbered_keys [OF replace_keys] by metis


lemma numbered_grow: "numbered_rows k n xs \<Longrightarrow> n \<le> m \<Longrightarrow> numbered_rows k m xs"
  by (auto simp: numbered_rows_def)

section \<open>What leaves the books alone\<close>

definition same_books :: "portal \<Rightarrow> portal \<Rightarrow> bool" where
  "same_books p q \<longleftrightarrow> pt_entries q = pt_entries p \<and> pt_deposits q = pt_deposits p \<and> pt_withdrawals q = pt_withdrawals p \<and>
     pt_transfers q = pt_transfers p \<and> pt_bonuses q = pt_bonuses p \<and> pt_next_deposit p \<le> pt_next_deposit q \<and>
     pt_next_withdrawal p \<le> pt_next_withdrawal q \<and> pt_next_transfer p \<le> pt_next_transfer q \<and> pt_next_bonus p \<le> pt_next_bonus q"

lemmas figures = postings_def settlements_def bal_def hold_def clawed_def slack_def

lemma books_invI:
  "rows_ok p \<Longrightarrow> postings p = settlements p \<Longrightarrow> (\<And>g u w. 0 \<le> slack g u w p) \<Longrightarrow> books_inv p"
  by (simp add: books_inv_def)

lemma books_invD:
  assumes "books_inv p"
  shows "rows_ok p" "postings p = settlements p" "0 \<le> slack g u w p"
  using assms by (simp_all add: books_inv_def)

lemma books_same:
  assumes "books_inv p" "same_books p q" "rules_ok q" "methods_ok q"
  shows "books_inv q"
proof (rule books_invI)
  show "rows_ok q" using books_invD(1) [OF assms(1)] assms(2-4) unfolding rows_ok_def same_books_def by (auto elim: numbered_grow)
  show "postings q = settlements q" using books_invD(2) [OF assms(1)] assms(2) by (simp add: figures same_books_def)
  show "0 \<le> slack g u w q" for g u w using books_invD(3) [OF assms(1), of g u w] assms(2) by (simp add: figures same_books_def)
qed

lemma same_books_refl [simp]: "same_books p p"
  by (simp add: same_books_def)

lemma same_books_trans: "same_books p q \<Longrightarrow> same_books q r \<Longrightarrow> same_books p r"
  unfolding same_books_def by (metis order_trans)

lemma aside_same [simp]:
  "same_books p (audit_control a b c d e f g q) = same_books p q"
  "same_books p (notify a u m n q) = same_books p q"
  "same_books p (announce_bonus a u i m x n q) = same_books p q"
  "same_books p (q\<lparr>pt_hourly := h\<rparr>) = same_books p q"
  "same_books p (q\<lparr>pt_access := z\<rparr>) = same_books p q"
  by (simp_all add: same_books_def audit_control_def notify_def announce_bonus_def)

lemma aside_rules [simp]:
  "pt_rules (audit_control a b c d e f g q) = pt_rules q" "pt_methods (audit_control a b c d e f g q) = pt_methods q"
  "pt_rules (notify a u m n q) = pt_rules q" "pt_methods (notify a u m n q) = pt_methods q"
  "pt_rules (announce_bonus a u i m x n q) = pt_rules q" "pt_methods (announce_bonus a u i m x n q) = pt_methods q"
  by (simp_all add: audit_control_def notify_def announce_bonus_def)

lemma rules_ok_cong: "pt_rules q = pt_rules p \<Longrightarrow> rules_ok q = rules_ok p"
  by (simp add: rules_ok_def)

lemma methods_ok_cong: "pt_methods q = pt_methods p \<Longrightarrow> methods_ok q = methods_ok p"
  by (simp add: methods_ok_def)

lemma books_aside:
  assumes "books_inv p" "same_books p q" "pt_rules q = pt_rules p" "pt_methods q = pt_methods p"
  shows "books_inv q"
proof (rule books_same [OF assms(1,2)])
  show "rules_ok q" "methods_ok q"
    using books_invD(1) [OF assms(1)] rules_ok_cong [OF assms(3)] methods_ok_cong [OF assms(4)] by (simp_all add: rows_ok_def)
qed

lemma books_told [simp]:
  "books_inv p \<Longrightarrow> books_inv (audit_control a b c d e f g p)"
  "books_inv p \<Longrightarrow> books_inv (notify a u m n p)"
  "books_inv p \<Longrightarrow> books_inv (announce_bonus a u i m x n p)"
  by (rule books_aside [of p]; simp)+

section \<open>Settling\<close>

lemma sum_member: "y \<in># (\<Sum>x \<leftarrow> xs. f x) \<longleftrightarrow> (\<exists>x \<in> set xs. y \<in># f x)"
  by (induction xs) auto

lemma posting_member:
  "y \<in># posting_of e \<longleftrightarrow> (\<exists>r. we_ref e = Some r \<and> y = (we_org e, we_user e, we_wallet e, we_amount e, we_kind e, r))"
  by (cases "we_ref e") (simp_all add: posting_of_def)

lemma has_entry_posting:
  "has_entry tbl i w p \<longleftrightarrow> (\<exists>g u x k. (g, u, w, x, k, (tbl, i)) \<in># postings p)"
  unfolding has_entry_def postings_def sum_member posting_member by (auto, blast)

text \<open>The settlements that refer to one row.\<close>

lemma end_member [simp]:
  "y \<in># end_posts t x w \<longleftrightarrow> (\<exists>v. w = Some v \<and> y = (tr_org t, tr_user t, v, x, ''transfer'', (''transfers'', tr_id t)))"
  by (simp add: end_posts_def split: option.splits)

lemma settled_deposit:
  "(g, u, w, x, k, (''deposits'', i)) \<in># settlements p \<Longrightarrow> \<exists>d \<in> set (pt_deposits p). dp_id d = i \<and> dp_status d = ''confirmed''"
  by (auto simp: settlements_def sum_member deposit_posts_def withdrawal_posts_def transfer_posts_def bonus_posts_def split: if_splits)

lemma settled_withdrawal:
  "(g, u, w, x, k, (''withdrawals'', i)) \<in># settlements p \<Longrightarrow> \<exists>d \<in> set (pt_withdrawals p). wd_id d = i \<and> wd_status d = ''paid''"
  by (auto simp: settlements_def sum_member deposit_posts_def withdrawal_posts_def transfer_posts_def bonus_posts_def split: if_splits)

lemma settled_transfer:
  "(g, u, w, x, k, (''transfers'', i)) \<in># settlements p \<Longrightarrow> \<exists>d \<in> set (pt_transfers p). tr_id d = i \<and> tr_status d = ''done''"
  by (auto simp: settlements_def sum_member deposit_posts_def withdrawal_posts_def transfer_posts_def bonus_posts_def split: if_splits)

lemma settled_bonus:
  "(g, u, w, x, k, (''bonuses'', i)) \<in># settlements p \<Longrightarrow> \<exists>d \<in> set (pt_bonuses p). bo_id d = i"
  by (auto simp: settlements_def sum_member deposit_posts_def withdrawal_posts_def transfer_posts_def bonus_posts_def split: if_splits)

lemma books_settled:
  assumes "books_inv p" "has_entry tbl i w p"
  obtains g u x k where "(g, u, w, x, k, (tbl, i)) \<in># settlements p"
  using assms unfolding has_entry_posting books_inv_def by auto

text \<open>An entry written for a row, and what it adds.\<close>

definition settled :: "ident \<Rightarrow> ident \<Rightarrow> string \<Rightarrow> rat \<Rightarrow> string \<Rightarrow> string \<Rightarrow> ident \<Rightarrow> string option \<Rightarrow> ident option \<Rightarrow> portal \<Rightarrow> portal" where
  "settled g u w x k tbl i note by p = insert_entry \<lparr>we_id = 0, we_org = g, we_user = u, we_wallet = w, we_amount = x,
     we_kind = k, we_ref = Some (tbl, i), we_note = note, we_by = by\<rparr> p"

lemma settle_new: "\<not> has_entry tbl i w p \<Longrightarrow> settle g u w x k tbl i note by p = (True, settled g u w x k tbl i note by p)"
  by (simp add: settle_def settled_def)

lemma settled_entries:
  "\<exists>n. pt_entries (settled g u w x k tbl i note by p) = pt_entries p @ [\<lparr>we_id = n, we_org = g, we_user = u, we_wallet = w, we_amount = x,
     we_kind = k, we_ref = Some (tbl, i), we_note = note, we_by = by\<rparr>]"
  by (simp add: settled_def insert_entry_def)

lemma settled_figures [simp]:
  "postings (settled g u w x k tbl i note by p) = postings p + {#(g, u, w, x, k, (tbl, i))#}"
  "settlements (settled g u w x k tbl i note by p) = settlements p"
  "slack g' u' w' (settled g u w x k tbl i note by p) = slack g' u' w' p + (if g = g' \<and> u = u' \<and> w = w' then x else 0)"
  by (simp_all add: figures settled_def insert_entry_def posting_of_def entry_in_def clawed_in_def)

lemma settled_rows [simp]:
  "rows_ok (settled g u w x k tbl i note by p) \<longleftrightarrow> rows_ok p \<and> w \<in> set WALLETS \<and> whole_cents x \<and> \<bar>x\<bar> < 10 ^ 12"
  by (auto simp: rows_ok_def rules_ok_def methods_ok_def settled_def insert_entry_def entry_ok_def)

section \<open>The moves\<close>

text \<open>\<open>one_row k P r xs\<close>: the predicate selects the row \<open>r\<close> of the table, whose key is \<open>k\<close>.\<close>

definition one_row :: "('a \<Rightarrow> ident) \<Rightarrow> ('a \<Rightarrow> bool) \<Rightarrow> 'a \<Rightarrow> 'a list \<Rightarrow> bool" where
  "one_row k P r xs \<longleftrightarrow> find P xs = Some r \<and> (\<forall>x. P x \<longrightarrow> k x = k r)"

definition replaced :: "('a \<Rightarrow> bool) \<Rightarrow> ('a \<Rightarrow> 'a) \<Rightarrow> 'a list \<Rightarrow> 'a list" where
  "replaced P f xs = map (\<lambda>x. if P x then f x else x) xs"

lemma one_rowD: "one_row k P r xs \<Longrightarrow> r \<in> set xs" "one_row k P r xs \<Longrightarrow> P r"
  by (auto simp: one_row_def dest: find_SomeD)

lemma replaced_sum:
  fixes v :: "'a \<Rightarrow> 'b::comm_monoid_add"
  assumes "numbered_rows k n xs" "one_row k P r xs"
  shows "(\<Sum>x \<leftarrow> replaced P f xs. v x) + v r = (\<Sum>x \<leftarrow> xs. v x) + v (f r)"
  unfolding replaced_def by (rule replace_sum [of k]) (use assms in \<open>auto simp: numbered_rows_def one_row_def\<close>)

lemma replaced_row:
  assumes "numbered_rows k n xs" "one_row k P r xs" "x \<in> set (replaced P f xs)"
  shows "x = f r \<or> x \<in> set xs"
proof -
  have "y = r" if "y \<in> set xs" "P y" for y
    using that assms(1,2) one_rowD(1) [OF assms(2)] by (auto simp: numbered_rows_def one_row_def distinct_map inj_on_def)
  then show ?thesis using assms(3) by (auto simp: replaced_def)
qed

lemma replaced_ok:
  assumes "numbered_rows k n xs" "one_row k P r xs" "\<forall>x \<in> set xs. Q x" "Q (f r)"
  shows "\<forall>x \<in> set (replaced P f xs). Q x"
proof
  fix x assume "x \<in> set (replaced P f xs)"
  from replaced_row [OF assms(1,2) this] show "Q x" using assms(3,4) by auto
qed

lemma replaced_numbered: "numbered_rows k n xs \<Longrightarrow> (\<And>x. k (f x) = k x) \<Longrightarrow> numbered_rows k n (replaced P f xs)"
  unfolding replaced_def by (rule numbered_replace)

lemma not_elsewhere:
  assumes "numbered_rows k n xs" "r \<in> set xs" "\<not> Q r" "x \<in> set xs" "k x = k r" "Q x"
  shows False
  using assms by (auto simp: numbered_rows_def distinct_map inj_on_def)

lemma deposit_replaced:
  assumes inv: "books_inv p" and row: "one_row dp_id P r (pt_deposits p)" and pending: "dp_status r \<noteq> ''confirmed''"
    and key: "\<And>x. dp_id (f x) = dp_id x" and ok: "deposit_ok (f r)"
  defines "q \<equiv> p\<lparr>pt_deposits := replaced P f (pt_deposits p)\<rparr>"
  shows "rows_ok q" "postings q = postings p" "settlements q = settlements p + deposit_posts (f r)" "slack g u w q = slack g u w p"
    and "\<not> has_entry ''deposits'' (dp_id r) w q"
proof -
  have num: "numbered_rows dp_id (pt_next_deposit p) (pt_deposits p)" using books_invD(1) [OF inv] by (simp add: rows_ok_def)
  show "rows_ok q" using books_invD(1) [OF inv] replaced_numbered [OF num key] replaced_ok [OF num row, of deposit_ok] ok
    unfolding q_def rows_ok_def rules_ok_def methods_ok_def by simp
  show "postings q = postings p" "slack g u w q = slack g u w p" by (simp_all add: q_def figures)
  show "settlements q = settlements p + deposit_posts (f r)"
    using replaced_sum [OF num row, where f = f and v = deposit_posts] pending by (simp add: q_def settlements_def deposit_posts_def)
  show "\<not> has_entry ''deposits'' (dp_id r) w q"
  proof
    assume "has_entry ''deposits'' (dp_id r) w q"
    then have "has_entry ''deposits'' (dp_id r) w p" by (simp add: has_entry_def q_def)
    then obtain d where "d \<in> set (pt_deposits p)" "dp_id d = dp_id r" "dp_status d = ''confirmed''"
      using books_settled [OF inv] settled_deposit by metis
    then show False using not_elsewhere [OF num one_rowD(1) [OF row], of "\<lambda>x. dp_status x = ''confirmed''"] pending by blast
  qed
qed

lemma deposit_declined:
  assumes "books_inv p" "one_row dp_id P r (pt_deposits p)" "dp_status r \<noteq> ''confirmed''"
    and "\<And>x. dp_id (f x) = dp_id x" "deposit_ok (f r)" "dp_status (f r) \<noteq> ''confirmed''"
  shows "books_inv (p\<lparr>pt_deposits := replaced P f (pt_deposits p)\<rparr>)"
  using deposit_replaced [OF assms(1-5)] books_invD [OF assms(1)] assms(6) by (intro books_invI) (auto simp: deposit_posts_def)

lemma deposit_confirmed:
  assumes "books_inv p" "one_row dp_id P r (pt_deposits p)" "dp_status r \<noteq> ''confirmed''"
    and "\<And>x. dp_id (f x) = dp_id x" "deposit_ok (f r)" "dp_status (f r) = ''confirmed''" "dp_credited (f r) = Some c" "amount_ok c"
    and "dp_org (f r) = g" "dp_user (f r) = u" "dp_id r = i"
  defines "q \<equiv> p\<lparr>pt_deposits := replaced P f (pt_deposits p)\<rparr>"
  shows "settle g u ''main'' c ''deposit'' ''deposits'' i note by q = (True, settled g u ''main'' c ''deposit'' ''deposits'' i note by q)"
    and "books_inv (settled g u ''main'' c ''deposit'' ''deposits'' i note by q)"
    and "slack g u ''main'' p + c = slack g u ''main'' (settled g u ''main'' c ''deposit'' ''deposits'' i note by q)"
proof -
  note re = deposit_replaced [OF assms(1-5), folded q_def]
  have c: "0 < c" "whole_cents c" "\<bar>c\<bar> < 10 ^ 12" using assms(8) by (auto simp: amount_ok_def)
  show "settle g u ''main'' c ''deposit'' ''deposits'' i note by q = (True, settled g u ''main'' c ''deposit'' ''deposits'' i note by q)"
    using re(5) assms(11) by (intro settle_new) simp
  show "books_inv (settled g u ''main'' c ''deposit'' ''deposits'' i note by q)"
    using re books_invD [OF assms(1)] assms(4,6,7,9-11) c by (intro books_invI) (auto simp: deposit_posts_def WALLETS_def)
  show "slack g u ''main'' p + c = slack g u ''main'' (settled g u ''main'' c ''deposit'' ''deposits'' i note by q)" using re(4) by simp
qed

lemma withdrawal_replaced:
  assumes inv: "books_inv p" and row: "one_row wd_id P r (pt_withdrawals p)" and unpaid: "wd_status r \<noteq> ''paid''"
    and key: "\<And>x. wd_id (f x) = wd_id x" and ok: "amount_ok (wd_amount (f r))"
  defines "q \<equiv> p\<lparr>pt_withdrawals := replaced P f (pt_withdrawals p)\<rparr>"
  shows "rows_ok q" "postings q = postings p" "settlements q = settlements p + withdrawal_posts (f r)"
    and "slack g u w q = slack g u w p + promised_withdrawal g u w r - promised_withdrawal g u w (f r)"
    and "\<not> has_entry ''withdrawals'' (wd_id r) w q"
proof -
  have num: "numbered_rows wd_id (pt_next_withdrawal p) (pt_withdrawals p)" using books_invD(1) [OF inv] by (simp add: rows_ok_def)
  show "rows_ok q"
    using books_invD(1) [OF inv] replaced_numbered [OF num key] replaced_ok [OF num row, of "\<lambda>x. amount_ok (wd_amount x)"] ok
    unfolding q_def rows_ok_def rules_ok_def methods_ok_def by simp
  show "postings q = postings p" by (simp add: q_def figures)
  show "settlements q = settlements p + withdrawal_posts (f r)"
    using replaced_sum [OF num row, where f = f and v = withdrawal_posts] unpaid by (simp add: q_def settlements_def withdrawal_posts_def)
  show "slack g u w q = slack g u w p + promised_withdrawal g u w r - promised_withdrawal g u w (f r)"
    using replaced_sum [OF num row, where f = f and v = "promised_withdrawal g u w"] by (simp add: q_def figures)
  show "\<not> has_entry ''withdrawals'' (wd_id r) w q"
  proof
    assume "has_entry ''withdrawals'' (wd_id r) w q"
    then have "has_entry ''withdrawals'' (wd_id r) w p" by (simp add: has_entry_def q_def)
    then obtain d where "d \<in> set (pt_withdrawals p)" "wd_id d = wd_id r" "wd_status d = ''paid''"
      using books_settled [OF inv] settled_withdrawal by metis
    then show False using not_elsewhere [OF num one_rowD(1) [OF row], of "\<lambda>x. wd_status x = ''paid''"] unpaid by blast
  qed
qed

lemma withdrawal_moved:
  assumes "books_inv p" "one_row wd_id P r (pt_withdrawals p)" "wd_status r \<in> set OPEN_STATUSES"
    and "\<And>x. wd_id (f x) = wd_id x" "wd_status (f r) \<noteq> ''paid''"
    and same: "wd_amount (f r) = wd_amount r" "wd_org (f r) = wd_org r" "wd_user (f r) = wd_user r"
  shows "books_inv (p\<lparr>pt_withdrawals := replaced P f (pt_withdrawals p)\<rparr>)" (is "books_inv ?q")
proof -
  have ok: "amount_ok (wd_amount r)" using books_invD(1) [OF assms(1)] one_rowD(1) [OF assms(2)] by (auto simp: rows_ok_def)
  have unpaid: "wd_status r \<noteq> ''paid''" using assms(3) by (auto simp: OPEN_STATUSES_def)
  have "amount_ok (wd_amount (f r))" using ok same by simp
  note re = withdrawal_replaced [OF assms(1,2) unpaid assms(4) this]
  have less: "promised_withdrawal g u w (f r) \<le> promised_withdrawal g u w r" for g u w
    using ok assms(3) by (auto simp: promised_withdrawal_def same amount_ok_def)
  have "0 \<le> slack g u w ?q" for g u w
    unfolding re(4) using books_invD(3) [OF assms(1), of g u w] less [of g u w] by linarith
  then show ?thesis using re(1-3) books_invD(2) [OF assms(1)] assms(5) by (intro books_invI) (simp_all add: withdrawal_posts_def)
qed

lemma withdrawal_paid:
  assumes "books_inv p" "one_row wd_id P r (pt_withdrawals p)" "wd_status r \<in> set OPEN_STATUSES"
    and "\<And>x. wd_id (f x) = wd_id x" "wd_status (f r) = ''paid''"
    and same: "wd_amount (f r) = wd_amount r" "wd_org (f r) = wd_org r" "wd_user (f r) = wd_user r"
    and named: "wd_amount r = a" "wd_org r = g" "wd_user r = u" "wd_id r = i"
  defines "q \<equiv> p\<lparr>pt_withdrawals := replaced P f (pt_withdrawals p)\<rparr>"
  shows "settle g u ''main'' (- a) ''withdrawal'' ''withdrawals'' i note by q =
      (True, settled g u ''main'' (- a) ''withdrawal'' ''withdrawals'' i note by q)"
    and "books_inv (settled g u ''main'' (- a) ''withdrawal'' ''withdrawals'' i note by q)" (is "books_inv ?s")
proof -
  have ok: "amount_ok (wd_amount r)" using books_invD(1) [OF assms(1)] one_rowD(1) [OF assms(2)] by (auto simp: rows_ok_def)
  have unpaid: "wd_status r \<noteq> ''paid''" using assms(3) by (auto simp: OPEN_STATUSES_def)
  have "amount_ok (wd_amount (f r))" using ok same by simp
  note re = withdrawal_replaced [OF assms(1,2) unpaid assms(4) this, folded q_def]
  have a: "whole_cents a" "\<bar>a\<bar> < 10 ^ 12" using ok named by (auto simp: amount_ok_def)
  show "settle g u ''main'' (- a) ''withdrawal'' ''withdrawals'' i note by q =
      (True, settled g u ''main'' (- a) ''withdrawal'' ''withdrawals'' i note by q)"
    using re(5) named(4) by (intro settle_new) simp
  have "0 \<le> slack g' u' w' ?s" for g' u' w'
    using books_invD(3) [OF assms(1), of g' u' w'] assms(3,5) same named unfolding settled_figures re(4)
    by (auto simp: promised_withdrawal_def OPEN_STATUSES_def)
  then show "books_inv ?s"
    using re(1-3) books_invD(2) [OF assms(1)] assms(4,5) same named a
    by (intro books_invI) (auto simp: withdrawal_posts_def WALLETS_def)
qed

lemma withdrawal_inserted:
  assumes "books_inv p" "amount_ok (wd_amount t)" "wd_status t = ''requested''" "wd_amount t \<le> slack (wd_org t) (wd_user t) ''main'' p"
  shows "books_inv (snd (insert_withdrawal t p))" (is "books_inv ?q")
proof (rule books_invI)
  show "rows_ok ?q" using books_invD(1) [OF assms(1)] assms(2)
    unfolding rows_ok_def rules_ok_def methods_ok_def by (simp add: insert_withdrawal_def Let_def numbered_snoc)
  show "postings ?q = settlements ?q"
    using books_invD(2) [OF assms(1)] assms(3) by (simp add: figures insert_withdrawal_def Let_def withdrawal_posts_def)
  show "0 \<le> slack g u w ?q" for g u w
  proof -
    have "slack g u w ?q = slack g u w p - promised_withdrawal g u w t"
      by (simp add: figures insert_withdrawal_def Let_def promised_withdrawal_def)
    then show ?thesis using books_invD(3) [OF assms(1), of g u w] assms(4) by (auto simp: promised_withdrawal_def)
  qed
qed

text \<open>What a done transfer adds to the figures of one wallet.\<close>

definition moved :: "ident \<Rightarrow> ident \<Rightarrow> string \<Rightarrow> transfer \<Rightarrow> rat" where
  "moved g u w t = (if tr_org t = g \<and> tr_user t = u
     then (if tr_target_wallet t = Some w then tr_amount t else 0) - (if tr_source_wallet t = Some w then tr_amount t else 0) else 0)"

lemma settle_ends_figures:
  assumes "\<And>w. \<not> has_entry ''transfers'' (tr_id t) w q" "transfer_ok t" "tr_org t = g"
  shows "postings (settle_ends g t q) = postings q + (end_posts t (- tr_amount t) (tr_source_wallet t) + end_posts t (tr_amount t) (tr_target_wallet t))"
    and "settlements (settle_ends g t q) = settlements q"
    and "slack g' u' w' (settle_ends g t q) = slack g' u' w' q + moved g' u' w' t"
    and "rows_ok (settle_ends g t q) = rows_ok q"
proof -
  have "\<not> has_entry ''transfers'' (tr_id t) v (settled g u w x k ''transfers'' (tr_id t) n b q)" if "w \<noteq> v" for v u w x k n b
    using assms(1) that by (auto simp: has_entry_def settled_def insert_entry_def)
  then have ends: "settle_ends g t q = (case (tr_source_wallet t, tr_target_wallet t) of
      (None, None) \<Rightarrow> q
    | (Some w, None) \<Rightarrow> settled g (tr_user t) w (- tr_amount t) ''transfer'' ''transfers'' (tr_id t) None None q
    | (None, Some v) \<Rightarrow> settled g (tr_user t) v (tr_amount t) ''transfer'' ''transfers'' (tr_id t) None None q
    | (Some w, Some v) \<Rightarrow> settled g (tr_user t) v (tr_amount t) ''transfer'' ''transfers'' (tr_id t) None None
        (settled g (tr_user t) w (- tr_amount t) ''transfer'' ''transfers'' (tr_id t) None None q))"
    using assms(1,2) by (auto simp: settle_ends_def settle_new transfer_ok_def split: option.splits)
  show "postings (settle_ends g t q) = postings q + (end_posts t (- tr_amount t) (tr_source_wallet t) + end_posts t (tr_amount t) (tr_target_wallet t))"
    using assms(3) unfolding ends by (auto simp: end_posts_def split: option.splits)
  show "settlements (settle_ends g t q) = settlements q" unfolding ends by (auto split: option.splits)
  show "slack g' u' w' (settle_ends g t q) = slack g' u' w' q + moved g' u' w' t"
    using assms(3) unfolding ends by (auto simp: moved_def split: option.splits)
  show "rows_ok (settle_ends g t q) = rows_ok q"
    using assms(2) unfolding ends by (auto simp: transfer_ok_def amount_ok_def split: option.splits)
qed

lemma transfer_replaced:
  assumes inv: "books_inv p" and row: "one_row tr_id P r (pt_transfers p)" and undone: "tr_status r \<noteq> ''done''"
    and key: "\<And>x. tr_id (f x) = tr_id x" and ok: "transfer_ok (f r)"
  defines "q \<equiv> p\<lparr>pt_transfers := replaced P f (pt_transfers p)\<rparr>"
  shows "rows_ok q" "postings q = postings p" "settlements q = settlements p + transfer_posts (f r)"
    and "slack g u w q = slack g u w p + promised_transfer g u w r - promised_transfer g u w (f r)"
    and "\<not> has_entry ''transfers'' (tr_id r) w q"
proof -
  have num: "numbered_rows tr_id (pt_next_transfer p) (pt_transfers p)" using books_invD(1) [OF inv] by (simp add: rows_ok_def)
  show "rows_ok q" using books_invD(1) [OF inv] replaced_numbered [OF num key] replaced_ok [OF num row, of transfer_ok] ok
    unfolding q_def rows_ok_def rules_ok_def methods_ok_def by simp
  show "postings q = postings p" by (simp add: q_def figures)
  show "settlements q = settlements p + transfer_posts (f r)"
    using replaced_sum [OF num row, where f = f and v = transfer_posts] undone by (simp add: q_def settlements_def transfer_posts_def)
  show "slack g u w q = slack g u w p + promised_transfer g u w r - promised_transfer g u w (f r)"
    using replaced_sum [OF num row, where f = f and v = "promised_transfer g u w"] by (simp add: q_def figures)
  show "\<not> has_entry ''transfers'' (tr_id r) w q"
  proof
    assume "has_entry ''transfers'' (tr_id r) w q"
    then have "has_entry ''transfers'' (tr_id r) w p" by (simp add: has_entry_def q_def)
    then obtain d where "d \<in> set (pt_transfers p)" "tr_id d = tr_id r" "tr_status d = ''done''"
      using books_settled [OF inv] settled_transfer by metis
    then show False using not_elsewhere [OF num one_rowD(1) [OF row], of "\<lambda>x. tr_status x = ''done''"] undone by blast
  qed
qed

definition same_ends :: "transfer \<Rightarrow> transfer \<Rightarrow> bool" where
  "same_ends a b \<longleftrightarrow> tr_id a = tr_id b \<and> tr_org a = tr_org b \<and> tr_user a = tr_user b \<and> tr_amount a = tr_amount b \<and>
     tr_source_kind a = tr_source_kind b \<and> tr_source_wallet a = tr_source_wallet b \<and> tr_target_wallet a = tr_target_wallet b"

lemma transfer_ok_same: "same_ends a b \<Longrightarrow> transfer_ok a = transfer_ok b"
  by (simp add: same_ends_def transfer_ok_def)

lemma transfer_moved:
  assumes "books_inv p" "one_row tr_id P r (pt_transfers p)" "tr_status r \<in> set OPEN_STATUSES"
    and "\<And>x. tr_id (f x) = tr_id x" "tr_status (f r) \<noteq> ''done''" and same: "same_ends (f r) r"
  shows "books_inv (p\<lparr>pt_transfers := replaced P f (pt_transfers p)\<rparr>)" (is "books_inv ?q")
proof -
  have ok: "transfer_ok r" using books_invD(1) [OF assms(1)] one_rowD(1) [OF assms(2)] by (auto simp: rows_ok_def)
  have undone: "tr_status r \<noteq> ''done''" using assms(3) by (auto simp: OPEN_STATUSES_def)
  have "transfer_ok (f r)" using ok transfer_ok_same [OF same] by simp
  note re = transfer_replaced [OF assms(1,2) undone assms(4) this]
  have less: "promised_transfer g u w (f r) \<le> promised_transfer g u w r" for g u w
    using ok assms(3) same by (auto simp: promised_transfer_def same_ends_def transfer_ok_def amount_ok_def)
  have "0 \<le> slack g u w ?q" for g u w
    unfolding re(4) using books_invD(3) [OF assms(1), of g u w] less [of g u w] by linarith
  then show ?thesis using re(1-3) books_invD(2) [OF assms(1)] assms(5) by (intro books_invI) (simp_all add: transfer_posts_def)
qed

lemma settle_ends_same: "same_ends a b \<Longrightarrow> settle_ends g a = settle_ends g b"
  by (rule ext) (simp add: same_ends_def settle_ends_def split: option.split)

lemma transfer_done:
  assumes "books_inv p" "one_row tr_id P r (pt_transfers p)" "tr_status r \<in> set OPEN_STATUSES"
    and "\<And>x. tr_id (f x) = tr_id x" "tr_status (f r) = ''done''" and same: "same_ends (f r) r" "same_ends r t" and g: "tr_org t = g"
  defines "q \<equiv> p\<lparr>pt_transfers := replaced P f (pt_transfers p)\<rparr>"
  shows "books_inv (settle_ends g t q)"
proof -
  have ok: "transfer_ok r" using books_invD(1) [OF assms(1)] one_rowD(1) [OF assms(2)] by (auto simp: rows_ok_def)
  have undone: "tr_status r \<noteq> ''done''" using assms(3) by (auto simp: OPEN_STATUSES_def)
  have fr: "transfer_ok (f r)" using ok transfer_ok_same [OF same(1)] by simp
  note re = transfer_replaced [OF assms(1,2) undone assms(4) this, folded q_def]
  have gr: "tr_org r = g" using same g by (simp add: same_ends_def)
  note fin = settle_ends_figures [OF re(5) ok gr, unfolded settle_ends_same [OF same(2)]]
  have "0 \<le> slack g' u' w' (settle_ends g t q)" for g' u' w'
    using books_invD(3) [OF assms(1), of g' u' w'] assms(3,5) same(1) ok unfolding fin(3) re(4)
    by (auto simp: promised_transfer_def OPEN_STATUSES_def moved_def same_ends_def transfer_ok_def amount_ok_def)
  moreover have "transfer_posts (f r) = end_posts r (- tr_amount r) (tr_source_wallet r) + end_posts r (tr_amount r) (tr_target_wallet r)"
    using assms(5) same(1) by (simp add: transfer_posts_def same_ends_def end_posts_def split: option.split)
  ultimately show ?thesis using fin(1,2,4) re(1-3) books_invD(2) [OF assms(1)] by (intro books_invI) simp_all
qed

lemma deposit_inserted:
  assumes "books_inv p" "deposit_ok d" "dp_status d \<noteq> ''confirmed''"
  shows "books_inv (snd (insert_deposit d p))"
proof -
  let ?q = "p\<lparr>pt_next_deposit := pt_next_deposit p + 1, pt_deposits := pt_deposits p @ [d\<lparr>dp_id := pt_next_deposit p\<rparr>]\<rparr>"
  have "books_inv (p\<lparr>pt_next_deposit := pt_next_deposit p + 1\<rparr>)" by (rule books_aside [OF assms(1)]) (simp_all add: same_books_def)
  moreover have "books_inv ?q"
  proof (rule books_invI)
    show "rows_ok ?q" using books_invD(1) [OF assms(1)] assms(2)
      unfolding rows_ok_def rules_ok_def methods_ok_def by (simp add: numbered_snoc deposit_ok_def)
    show "postings ?q = settlements ?q" using books_invD(2) [OF assms(1)] assms(3) by (simp add: figures deposit_posts_def)
    show "0 \<le> slack g u w ?q" for g u w using books_invD(3) [OF assms(1), of g u w] by (simp add: figures)
  qed
  ultimately show ?thesis by (simp add: insert_deposit_def Let_def)
qed

lemma transfer_inserted:
  assumes "books_inv p" "transfer_ok t"
  defines "row \<equiv> t\<lparr>tr_id := pt_next_transfer p\<rparr>" and "q \<equiv> snd (insert_transfer t p)"
  shows "rows_ok q" "postings q = postings p" "settlements q = settlements p + transfer_posts row"
    and "slack g u w q = slack g u w p - promised_transfer g u w t"
    and "\<not> has_entry ''transfers'' (tr_id row) w q" and "fst (insert_transfer t p) = row"
proof -
  have num: "numbered_rows tr_id (pt_next_transfer p) (pt_transfers p)" using books_invD(1) [OF assms(1)] by (simp add: rows_ok_def)
  show "rows_ok q" using books_invD(1) [OF assms(1)] assms(2)
    unfolding q_def rows_ok_def rules_ok_def methods_ok_def by (simp add: insert_transfer_def Let_def numbered_snoc transfer_ok_def)
  show "postings q = postings p" "settlements q = settlements p + transfer_posts row" "fst (insert_transfer t p) = row"
    by (simp_all add: q_def row_def figures insert_transfer_def Let_def)
  show "slack g u w q = slack g u w p - promised_transfer g u w t"
    by (simp add: q_def figures insert_transfer_def Let_def promised_transfer_def)
  show "\<not> has_entry ''transfers'' (tr_id row) w q"
  proof
    assume "has_entry ''transfers'' (tr_id row) w q"
    then have "has_entry ''transfers'' (pt_next_transfer p) w p" by (simp add: has_entry_def q_def row_def insert_transfer_def Let_def)
    then obtain d where "d \<in> set (pt_transfers p)" "tr_id d = pt_next_transfer p"
      using books_settled [OF assms(1)] settled_transfer by metis
    then show False using num by (auto simp: numbered_rows_def)
  qed
qed

text \<open>A transfer that is asked for is promised out of its source wallet.\<close>

lemma transfer_requested:
  assumes "books_inv p" "transfer_ok t" "tr_status t \<noteq> ''done''"
    and "\<And>w. tr_source_wallet t = Some w \<Longrightarrow> tr_amount t \<le> slack (tr_org t) (tr_user t) w p"
  shows "books_inv (snd (insert_transfer t p))"
proof -
  note re = transfer_inserted [OF assms(1,2)]
  have "0 \<le> slack g u w (snd (insert_transfer t p))" for g u w
    using books_invD(3) [OF assms(1), of g u w] assms(4) [of w] unfolding re(4) by (auto simp: promised_transfer_def)
  then show ?thesis using re(1-3) books_invD(2) [OF assms(1)] assms(3) by (intro books_invI) (simp_all add: transfer_posts_def)
qed

text \<open>One between two wallets is done at once.\<close>

lemma transfer_instant:
  assumes "books_inv p" "transfer_ok t" "tr_status t = ''done''" "tr_org t = g"
    and "\<And>w. tr_source_wallet t = Some w \<Longrightarrow> tr_amount t \<le> slack (tr_org t) (tr_user t) w p"
  shows "books_inv (settle_ends g (fst (insert_transfer t p)) (snd (insert_transfer t p)))" (is "books_inv ?q")
proof -
  let ?row = "t\<lparr>tr_id := pt_next_transfer p\<rparr>"
  note re = transfer_inserted [OF assms(1,2)]
  have row: "transfer_ok ?row" "tr_org ?row = g" using assms(2,4) by (simp_all add: transfer_ok_def)
  note fin = settle_ends_figures [OF re(5) row]
  have "0 \<le> slack g' u' w' ?q" for g' u' w'
    using books_invD(3) [OF assms(1), of g' u' w'] assms(2,3,5) unfolding fin(3) re(4,6)
    by (auto simp: promised_transfer_def moved_def OPEN_STATUSES_def transfer_ok_def amount_ok_def)
  moreover have "transfer_posts ?row = end_posts ?row (- tr_amount ?row) (tr_source_wallet ?row) + end_posts ?row (tr_amount ?row) (tr_target_wallet ?row)"
    using assms(3) by (simp add: transfer_posts_def)
  ultimately show ?thesis
    using fin(1,2,4) re(1-3) books_invD(2) [OF assms(1)] unfolding re(6) by (intro books_invI) simp_all
qed

lemma bonus_paid:
  assumes "books_inv p" "whole_cents x" "\<bar>x\<bar> < 10 ^ 12" "- x \<le> slack g u ''credit'' p"
  shows "\<exists>i q. pay_bonus g u src x sid note by p = (Inr i, q) \<and> books_inv q"
proof -
  let ?n = "p\<lparr>pt_next_bonus := pt_next_bonus p + 1\<rparr>"
  let ?b = "\<lparr>bo_id = pt_next_bonus p, bo_org = g, bo_user = u, bo_source = src, bo_source_id = sid, bo_amount = x, bo_note = note, bo_by = by\<rparr>"
  let ?q = "?n\<lparr>pt_bonuses := pt_bonuses p @ [?b]\<rparr>"
  have n: "books_inv ?n" by (rule books_aside [OF assms(1)]) (simp_all add: same_books_def)
  have num: "numbered_rows bo_id (pt_next_bonus p) (pt_bonuses p)" using books_invD(1) [OF assms(1)] by (simp add: rows_ok_def)
  have fresh: "\<not> has_entry ''bonuses'' (pt_next_bonus p) w ?q" for w
  proof
    assume "has_entry ''bonuses'' (pt_next_bonus p) w ?q"
    then have "has_entry ''bonuses'' (pt_next_bonus p) w p" by (simp add: has_entry_def)
    then obtain d where "d \<in> set (pt_bonuses p)" "bo_id d = pt_next_bonus p" using books_settled [OF assms(1)] settled_bonus by metis
    then show False using num by (auto simp: numbered_rows_def)
  qed
  let ?s = "settled g u ''credit'' x ''bonus'' ''bonuses'' (pt_next_bonus p) note by ?q"
  have "books_inv ?s" if "x \<noteq> 0" "\<not> (\<exists>b \<in> set (pt_bonuses p). bonus_taken g u src sid b)"
  proof (rule books_invI)
    have "rows_ok ?q" using books_invD(1) [OF assms(1)] assms(2,3) that
      unfolding rows_ok_def rules_ok_def methods_ok_def by (simp add: numbered_snoc bonus_ok_def sorted_wrt_append never_again_def)
    then show "rows_ok ?s" using assms(2,3) by (simp add: WALLETS_def)
    show "postings ?s = settlements ?s"
      using books_invD(2) [OF assms(1)] unfolding settled_figures by (simp add: figures bonus_posts_def)
    show "0 \<le> slack g' u' w' ?s" for g' u' w'
      using books_invD(3) [OF assms(1), of g' u' w'] assms(4) unfolding settled_figures by (auto simp: figures)
  qed
  then show ?thesis using assms(1) n settle_new [OF fresh] by (simp add: pay_bonus_def Let_def)
qed

lemma entry_adjusted:
  assumes "books_inv p" "w \<in> set WALLETS" "whole_cents x" "\<bar>x\<bar> < 10 ^ 12"
  shows "books_inv (adjust ctx u w x note p)" (is "books_inv ?q")
proof (rule books_invI)
  show "rows_ok ?q" using books_invD(1) [OF assms(1)] assms(2-4)
    unfolding rows_ok_def rules_ok_def methods_ok_def by (simp add: adjust_def insert_entry_def entry_ok_def)
  show "postings ?q = settlements ?q" using books_invD(2) [OF assms(1)] by (simp add: figures adjust_def insert_entry_def posting_of_def)
  show "0 \<le> slack g' u' w' ?q" for g' u' w'
    using books_invD(3) [OF assms(1), of g' u' w'] by (simp add: figures adjust_def insert_entry_def entry_in_def clawed_in_def)
qed

lemma rows_mapped:
  assumes "books_inv p" and d: "\<And>x. dp_id (f x) = dp_id x" "\<And>x. deposit_ok x \<Longrightarrow> deposit_ok (f x)" "\<And>x. deposit_posts (f x) = deposit_posts x"
    and t: "\<And>x. same_ends (h x) x" "\<And>x. tr_status (h x) = tr_status x"
  shows "books_inv (p\<lparr>pt_deposits := map f (pt_deposits p), pt_transfers := map h (pt_transfers p)\<rparr>)" (is "books_inv ?q")
proof (rule books_invI)
  have h: "tr_id (h x) = tr_id x" "transfer_ok (h x) = transfer_ok x" "transfer_posts (h x) = transfer_posts x"
    "promised_transfer g u w (h x) = promised_transfer g u w x" for x g u w
    using t [of x] transfer_ok_same [of "h x" x]
    by (simp_all add: same_ends_def transfer_posts_def promised_transfer_def end_posts_def split: option.split)
  have "numbered_rows dp_id n (map f xs) = numbered_rows dp_id n xs" "numbered_rows tr_id n (map h ys) = numbered_rows tr_id n ys" for n xs ys
    using d(1) h(1) by (auto intro!: numbered_keys)
  then show "rows_ok ?q" using books_invD(1) [OF assms(1)] d(2) h(2) unfolding rows_ok_def rules_ok_def methods_ok_def by simp
  show "postings ?q = settlements ?q" using books_invD(2) [OF assms(1)] by (simp add: figures comp_def d(3) h(3))
  show "0 \<le> slack g u w ?q" for g u w using books_invD(3) [OF assms(1), of g u w] by (simp add: figures comp_def h(4))
qed

lemma account_forgotten: "books_inv p \<Longrightarrow> books_inv (account_removed a p)"
proof -
  assume "books_inv p"
  then have "books_inv (p\<lparr>pt_deposits := map (\<lambda>d. d\<lparr>dp_account := forget a (dp_account d)\<rparr>) (pt_deposits p),
      pt_transfers := map (\<lambda>t. t\<lparr>tr_source_account := forget a (tr_source_account t), tr_target_account := forget a (tr_target_account t)\<rparr>)
        (pt_transfers p)\<rparr>)" (is "books_inv ?q")
    by (rule rows_mapped) (simp_all add: deposit_ok_def deposit_posts_def same_ends_def)
  then show ?thesis by (rule books_aside) (simp_all add: same_books_def account_removed_def)
qed

lemma method_forgotten: "books_inv p \<Longrightarrow> books_inv (p\<lparr>pt_deposits := map (\<lambda>d. d\<lparr>dp_method := forget m (dp_method d)\<rparr>) (pt_deposits p)\<rparr>)"
  using rows_mapped [of p "\<lambda>d. d\<lparr>dp_method := forget m (dp_method d)\<rparr>" "\<lambda>t. t"]
  by (simp add: deposit_ok_def deposit_posts_def same_ends_def)

end
