(* ===== verification/Portal_Figures.thy ===== *)
theory Portal_Figures
  imports Portal_Books
begin

text \<open>
  The figures the portal reads before it lets money move are exact: while the tables hold fewer than
  \<open>10\<^sup>1\<^sup>3\<close> rows (\<open>roomy\<close>), the decimal sums of \<^verbatim>\<open>wallet_figures\<close> are the balances and
  promises of Portal\<open>_\<close>Books to the cent. An amount has at most twelve integer digits, so such a sum
  stays below \<open>10\<^sup>2\<^sup>6\<close>, where 28 digits hold whole cents.
\<close>

section \<open>Exact figures\<close>

definition roomy :: "portal \<Rightarrow> bool" where
  "roomy p \<longleftrightarrow> length (pt_entries p) < 10 ^ 13 \<and> length (pt_withdrawals p) + length (pt_transfers p) < 10 ^ 13"

lemma sum_abs_bound:
  fixes f :: "'a \<Rightarrow> rat"
  assumes "\<And>x. x \<in> set xs \<Longrightarrow> \<bar>f x\<bar> \<le> b"
  shows "(\<Sum>x \<leftarrow> xs. \<bar>f x\<bar>) \<le> of_nat (length xs) * b"
  using assms by (induction xs) (auto simp: algebra_simps add_mono)

lemma abs_sum_bound:
  fixes f :: "'a \<Rightarrow> rat"
  assumes "\<And>x. x \<in> set xs \<Longrightarrow> \<bar>f x\<bar> \<le> b"
  shows "\<bar>\<Sum>x \<leftarrow> xs. f x\<bar> \<le> of_nat (length xs) * b"
proof -
  have "\<bar>\<Sum>x \<leftarrow> xs. f x\<bar> \<le> (\<Sum>x \<leftarrow> xs. \<bar>f x\<bar>)" using sum_list_abs [of "map f xs"] by (simp add: comp_def)
  with sum_abs_bound [of xs f b] assms show ?thesis by (meson order_trans)
qed

lemma sum_at_key:
  fixes f :: "'k \<Rightarrow> rat"
  shows "distinct ks \<Longrightarrow> (\<Sum>wa \<leftarrow> map (\<lambda>k. (k, f k)) ks. if fst wa = w then snd wa else 0) = (if w \<in> set ks then f w else 0)"
  by (induction ks) auto

lemma bal_filter: "bal g u w p = sum_list (map we_amount (filter (\<lambda>e. we_wallet e = w) (entries_of g u p)))"
  unfolding bal_def entries_of_def filter_filter sum_list_map_filter' by (simp add: entry_in_def conj_ac cong: map_cong)

lemma wallets_few: "set xs \<subseteq> set WALLETS \<Longrightarrow> length (remdups xs) \<le> 4"
  using card_mono [of "set WALLETS" "set xs"] by (simp add: length_remdups_card_conv WALLETS_def)

lemma rows_rat: "n < 10 ^ 13 \<Longrightarrow> (of_nat n :: rat) < 10 ^ 13"
  using of_nat_less_iff [of n "10 ^ 13", where 'a = rat] by simp

lemma bal_bounds:
  assumes "rows_ok p" "roomy p"
  shows "whole_cents (bal g u w p)" "\<bar>bal g u w p\<bar> < 10 ^ 25"
proof -
  have e: "whole_cents (entry_in g u w e)" "\<bar>entry_in g u w e\<bar> \<le> 10 ^ 12" if "e \<in> set (pt_entries p)" for e
    using assms(1) that by (auto simp: rows_ok_def entry_ok_def entry_in_def)
  show "whole_cents (bal g u w p)" unfolding bal_def by (rule whole_cents_sum) (rule e)
  have "\<bar>bal g u w p\<bar> \<le> of_nat (length (pt_entries p)) * 10 ^ 12" unfolding bal_def by (rule abs_sum_bound) (rule e)
  also have "\<dots> < 10 ^ 13 * 10 ^ 12" using assms(2) by (intro mult_strict_right_mono rows_rat) (simp_all add: roomy_def)
  finally show "\<bar>bal g u w p\<bar> < 10 ^ 25" by simp
qed

lemma balances_exact:
  assumes "rows_ok p" "roomy p" "w \<in> set WALLETS"
  shows "figure_at (wallet_balances g u p) w = bal g u w p"
proof -
  let ?es = "entries_of g u p"
  let ?ks = "remdups (map we_wallet ?es)"
  let ?sum = "\<lambda>w. sum_list (map we_amount (filter (\<lambda>e. we_wallet e = w) ?es))"
  let ?rows = "map (\<lambda>w. (w, ?sum w)) ?ks"
  have "set (map we_wallet ?es) \<subseteq> set WALLETS" using assms(1) by (auto simp: entries_of_def rows_ok_def entry_ok_def)
  then have "length ?ks \<le> 4" by (rule wallets_few)
  have row: "whole_cents (?sum v)" "\<bar>?sum v\<bar> \<le> 10 ^ 25" for v
    using bal_bounds [OF assms(1,2), of g u v] unfolding bal_filter by simp_all
  have "(\<Sum>wa \<leftarrow> ?rows. \<bar>snd wa\<bar>) \<le> of_nat (length ?rows) * 10 ^ 25" by (rule sum_abs_bound) (use row in auto)
  also have "\<dots> \<le> 4 * 10 ^ 25" using \<open>length ?ks \<le> 4\<close> by (intro mult_right_mono) simp_all
  also have "\<dots> < (10 ^ 26 :: rat)" by simp
  finally have "map_of (balance ?rows) w = Some (\<Sum>wa \<leftarrow> ?rows. if fst wa = w then snd wa else 0)"
    using row by (intro balance_exact [OF assms(3)]) auto
  also have "(\<Sum>wa \<leftarrow> ?rows. if fst wa = w then snd wa else 0) = ?sum w"
  proof -
    have "?sum w = 0" if "w \<notin> set ?ks" using that by (subst filter_False) auto
    then show ?thesis unfolding sum_at_key [OF distinct_remdups] by (cases "w \<in> set ?ks") (simp_all only: if_True if_False not_False_eq_True True_implies_equals)
  qed
  finally show ?thesis
    using assms(3) by (auto simp: wallet_balances_def Let_def figure_at_def map_of_map_restrict restrict_map_def bal_filter)
qed
lemma transfer_source:
  "rows_ok p \<Longrightarrow> t \<in> set (pt_transfers p) \<Longrightarrow> tr_source_kind t = ''wallet'' \<longleftrightarrow> (\<exists>w. tr_source_wallet t = Some w)"
  by (auto simp: rows_ok_def transfer_ok_def)

lemma sum_guarded:
  fixes f :: "'a \<Rightarrow> rat"
  assumes "\<And>x. x \<in> set xs \<Longrightarrow> h x = (if P x then f x else 0)"
  shows "sum_list (map f (filter P xs)) = sum_list (map h xs)"
  using assms by (induction xs) auto

lemma hold_split:
  assumes "rows_ok p"
  shows "hold g u w p = (if w = ''main'' then sum_list (map wd_amount (open_withdrawals g u p)) else 0) +
    (\<Sum>wa \<leftarrow> map (\<lambda>t. (the (tr_source_wallet t), tr_amount t)) (filter (\<lambda>t. tr_source_kind t = ''wallet'') (open_transfers g u p)).
       if fst wa = w then snd wa else 0)"
proof -
  have "(\<Sum>x \<leftarrow> pt_withdrawals p. promised_withdrawal g u w x) = (if w = ''main'' then sum_list (map wd_amount (open_withdrawals g u p)) else 0)"
  proof (cases "w = ''main''")
    case True
    have "sum_list (map wd_amount (open_withdrawals g u p)) = (\<Sum>x \<leftarrow> pt_withdrawals p. promised_withdrawal g u w x)"
      unfolding open_withdrawals_def by (rule sum_guarded) (simp add: promised_withdrawal_def True)
    then show ?thesis using True by simp
  qed (simp add: promised_withdrawal_def)
  moreover have "(\<Sum>t \<leftarrow> filter (\<lambda>t. tr_source_kind t = ''wallet'') (open_transfers g u p). if the (tr_source_wallet t) = w then tr_amount t else 0) =
      (\<Sum>x \<leftarrow> pt_transfers p. promised_transfer g u w x)"
    unfolding open_transfers_def filter_filter
    by (rule sum_guarded) (auto simp: promised_transfer_def transfer_source [OF assms])
  ultimately show ?thesis unfolding hold_def list.map_comp comp_def fst_conv snd_conv by (simp only:)
qed

lemma abs_part_sum:
  fixes ts :: "('a \<times> rat) list"
  shows "\<bar>\<Sum>wa \<leftarrow> ts. if fst wa = w then snd wa else 0\<bar> \<le> (\<Sum>wa \<leftarrow> ts. \<bar>snd wa\<bar>)"
  by (induction ts) auto

lemma holds_exact_at:
  assumes "rows_ok p" "roomy p" "w \<in> set WALLETS"
  shows "figure_at (wallet_holds g u p) w = hold g u w p" "whole_cents (hold g u w p)" "\<bar>hold g u w p\<bar> < 10 ^ 25"
proof -
  let ?ws = "map wd_amount (open_withdrawals g u p)"
  let ?ts = "map (\<lambda>t. (the (tr_source_wallet t), tr_amount t)) (filter (\<lambda>t. tr_source_kind t = ''wallet'') (open_transfers g u p))"
  have w: "whole_cents a \<and> \<bar>a\<bar> \<le> 10 ^ 12" if "a \<in> set ?ws" for a
    using that assms(1) by (auto simp: open_withdrawals_def rows_ok_def amount_ok_def)
  have t: "whole_cents (snd wa) \<and> \<bar>snd wa\<bar> \<le> 10 ^ 12" if "wa \<in> set ?ts" for wa
    using that assms(1) by (auto simp: open_transfers_def rows_ok_def transfer_ok_def amount_ok_def)
  have "length ?ws \<le> length (pt_withdrawals p)" "length ?ts \<le> length (pt_transfers p)"
    by (auto simp: open_withdrawals_def open_transfers_def intro: le_trans [OF length_filter_le])
  then have n: "(of_nat (length ?ws + length ?ts) :: rat) < 10 ^ 13" using assms(2) by (intro rows_rat) (simp add: roomy_def)
  have "(\<Sum>a \<leftarrow> ?ws. \<bar>a\<bar>) \<le> of_nat (length ?ws) * 10 ^ 12" by (rule sum_abs_bound) (use w in auto)
  moreover have "(\<Sum>wa \<leftarrow> ?ts. \<bar>snd wa\<bar>) \<le> of_nat (length ?ts) * 10 ^ 12" by (rule sum_abs_bound) (use t in auto)
  moreover have "of_nat (length ?ws) * 10 ^ 12 + of_nat (length ?ts) * 10 ^ 12 = (of_nat (length ?ws + length ?ts) :: rat) * 10 ^ 12"
    by (simp add: algebra_simps)
  moreover have "(of_nat (length ?ws + length ?ts) :: rat) * 10 ^ 12 < 10 ^ 13 * 10 ^ 12" using n by (intro mult_strict_right_mono) simp_all
  ultimately have sum: "(\<Sum>a \<leftarrow> ?ws. \<bar>a\<bar>) + (\<Sum>wa \<leftarrow> ?ts. \<bar>snd wa\<bar>) < 10 ^ 25" by (simp del: of_nat_add)
  have "map_of (holds ?ws ?ts) w = Some (hold g u w p)"
    unfolding hold_split [OF assms(1)] by (rule holds_exact [OF assms(3)]) (use w t sum in auto)
  then show "figure_at (wallet_holds g u p) w = hold g u w p"
    using assms(3) by (auto simp: wallet_holds_def Let_def figure_at_def map_of_map_restrict restrict_map_def)
  have "whole_cents (if w = ''main'' then sum_list ?ws else 0)" using whole_cents_sum [of ?ws "\<lambda>x. x"] w by simp
  moreover have "whole_cents (\<Sum>wa \<leftarrow> ?ts. if fst wa = w then snd wa else 0)" by (rule whole_cents_sum) (use t in auto)
  ultimately show "whole_cents (hold g u w p)" unfolding hold_split [OF assms(1)] by (rule whole_cents_add(1))
  have "\<bar>sum_list ?ws\<bar> \<le> (\<Sum>a \<leftarrow> ?ws. \<bar>a\<bar>)" by (rule sum_list_abs)
  moreover have "\<bar>\<Sum>wa \<leftarrow> ?ts. if fst wa = w then snd wa else 0\<bar> \<le> (\<Sum>wa \<leftarrow> ?ts. \<bar>snd wa\<bar>)"
    by (rule abs_part_sum)
  moreover have "\<bar>if w = ''main'' then sum_list ?ws else 0\<bar> \<le> \<bar>sum_list ?ws\<bar>" by simp
  ultimately show "\<bar>hold g u w p\<bar> < 10 ^ 25" unfolding hold_split [OF assms(1)] using sum by linarith
qed

text \<open>The available figure of a wallet is its balance less its promises, to the cent.\<close>

lemma available_exact:
  assumes "rows_ok p" "roomy p" "w \<in> set WALLETS"
  shows "available_in w g u p = Inr (bal g u w p - hold g u w p)"
proof -
  have "available (figure_at (wallet_balances g u p) v) (figure_at (wallet_holds g u p) v) = Inr (bal g u v p - hold g u v p)"
    if "v \<in> set WALLETS" for v
  proof -
    have v: "whole_cents (bal g u v p - hold g u v p)" "\<bar>bal g u v p - hold g u v p\<bar> < 10 ^ 26"
      using bal_bounds [OF assms(1,2), of g u v] holds_exact_at(2,3) [OF assms(1,2) that, of g u] by auto
    show ?thesis unfolding balances_exact [OF assms(1,2) that] holds_exact_at(1) [OF assms(1,2) that] available_def
      using v by simp
  qed
  then have "wallet_figures g u p = Inr (map (\<lambda>v. (v, figure_at (wallet_balances g u p) v, figure_at (wallet_holds g u p) v,
      bal g u v p - hold g u v p)) WALLETS)"
    unfolding wallet_figures_def Let_def by (intro map_res_total) simp
  then show ?thesis using assms(3) by (auto simp: available_in_def map_of_map_restrict restrict_map_def)
qed

lemma available_slack:
  assumes "rows_ok p" "roomy p" "w \<in> set WALLETS" "available_in w g u p = Inr a" "x \<le> a"
  shows "x \<le> slack g u w p"
proof -
  have "0 \<le> clawed g u w p" unfolding clawed_def by (rule sum_list_nonneg) (auto simp: clawed_in_def)
  then show ?thesis using assms(4,5) available_exact [OF assms(1-3), of g u] by (simp add: slack_def)
qed

end
