(* ===== verification/Portal_Desk.thy ===== *)
theory Portal_Desk
  imports Portal_Figures
begin

text \<open>
  The portal in use: any number of requests at a time, each reading its rows first and taking the
  investor's ledger lock later. A \<open>flight\<close> is a request between the two; a step of \<open>desk_step\<close> launches
  one, commits one against the state of that moment, or runs one of the routes that are one statement.
\<close>

section \<open>Requests in flight\<close>

datatype flight =
    Deposit_Decision org_context deposit_plan
  | Withdrawal_Request org_context withdrawal_plan
  | Withdrawal_Cancel org_context withdrawal
  | Withdrawal_Decision org_context "string \<times> string option \<times> withdrawal"
  | Withdrawal_Paid org_context "string \<times> withdrawal"
  | Transfer_Request org_context transfer_plan
  | Transfer_Cancel org_context transfer
  | Transfer_Decision org_context "string \<times> string option \<times> transfer"
  | Adjustment org_context ident "string \<times> rat \<times> string option"
  | Bonus_Grant org_context ident "rat \<times> string option"

inductive launched :: "portal \<Rightarrow> flight \<Rightarrow> portal \<Rightarrow> bool" where
  "decide_deposit_plan ctx did status credited note p = Inr pl \<Longrightarrow> launched p (Deposit_Decision ctx pl) p"
| "request_withdrawal_plan ctx dest amount p = (Inr wl, q) \<Longrightarrow> launched p (Withdrawal_Request ctx wl) q"
| "cancel_withdrawal_plan ctx wid p = Inr w \<Longrightarrow> launched p (Withdrawal_Cancel ctx w) p"
| "decide_withdrawal_plan ctx wid status note p = Inr wd \<Longrightarrow> launched p (Withdrawal_Decision ctx wd) p"
| "mark_paid_plan ctx wid txid p = Inr wp \<Longrightarrow> launched p (Withdrawal_Paid ctx wp) p"
| "request_transfer_plan ctx source target amount live p = Inr tp \<Longrightarrow> launched p (Transfer_Request ctx tp) p"
| "cancel_transfer_plan ctx tid p = Inr t \<Longrightarrow> launched p (Transfer_Cancel ctx t) p"
| "decide_transfer_plan ctx tid status note p = Inr td \<Longrightarrow> launched p (Transfer_Decision ctx td) p"
| "check_adjustment ctx uid wallet amount text p = Inr ad \<Longrightarrow> launched p (Adjustment ctx uid ad) p"
| "check_grant ctx uid amount note p = Inr gr \<Longrightarrow> launched p (Bonus_Grant ctx uid gr) p"

fun landed :: "flight \<Rightarrow> rat \<Rightarrow> portal \<Rightarrow> portal" where
  "landed (Deposit_Decision ctx pl) now p = snd (decide_deposit_commit ctx pl p)"
| "landed (Withdrawal_Request ctx pl) now p = snd (request_withdrawal_commit ctx pl now p)"
| "landed (Withdrawal_Cancel ctx w) now p = snd (cancel_withdrawal_commit ctx w p)"
| "landed (Withdrawal_Decision ctx pl) now p = snd (decide_withdrawal_commit ctx pl p)"
| "landed (Withdrawal_Paid ctx pl) now p = snd (mark_paid_commit ctx pl p)"
| "landed (Transfer_Request ctx pl) now p = snd (request_transfer_commit ctx pl now p)"
| "landed (Transfer_Cancel ctx t) now p = snd (cancel_transfer_commit ctx t p)"
| "landed (Transfer_Decision ctx pl) now p = snd (decide_transfer_commit ctx pl p)"
| "landed (Adjustment ctx u pl) now p = snd (adjustment_commit ctx u pl p)"
| "landed (Bonus_Grant ctx u pl) now p = snd (grant_commit ctx u (fst pl) (snd pl) p)"

text \<open>Anything else the portal does: destinations, links, settings, files, sessions, the terminals' figures.\<close>

definition elsewhere :: "portal \<Rightarrow> portal \<Rightarrow> bool" where
  "elsewhere p q \<longleftrightarrow> same_books p q \<and> pt_rules q = pt_rules p \<and> pt_methods q = pt_methods p"

inductive desk_step :: "portal \<times> flight list \<Rightarrow> portal \<times> flight list \<Rightarrow> bool" where
  launch: "launched p f q \<Longrightarrow> desk_step (p, fs) (q, f # fs)"
| land: "f \<in> set fs \<Longrightarrow> desk_step (p, fs) (landed f now p, remove1 f fs)"
| noticed: "desk_step (p, fs) (snd (file_deposit ctx body now p), fs)"
| withdrawn: "desk_step (p, fs) (snd (cancel_deposit ctx did p), fs)"
| awarded: "source = ''signup'' \<or> source = ''kyc'' \<Longrightarrow> desk_step (p, fs) (snd (award_rule_bonus org uid source actor p), fs)"
| ruled: "desk_step (p, fs) (snd (put_rules ctx rules p), fs)"
| method_added: "desk_step (p, fs) (snd (create_method ctx method p), fs)"
| method_changed: "desk_step (p, fs) (snd (update_method ctx mid patch p), fs)"
| method_dropped: "desk_step (p, fs) (snd (delete_method ctx mid p), fs)"
| account_dropped: "desk_step (p, fs) (account_removed account p, fs)"
| other: "elsewhere p q \<Longrightarrow> desk_step (p, fs) (q, fs)"

text \<open>The routes of the model that touch no ledger table are steps of the last kind.\<close>

lemma settings_elsewhere: "elsewhere p (snd (portal_settings g p))"
  by (auto simp: elsewhere_def same_books_def portal_settings_def split: option.split)

lemma elsewhere_refl [simp]: "elsewhere p p"
  by (simp add: elsewhere_def)

lemma elsewhere_aside [simp]:
  "elsewhere p (audit_control a b c d e f g q) = elsewhere p q" "elsewhere p (notify a u m n q) = elsewhere p q"
  "elsewhere p (q\<lparr>pt_dests := ds\<rparr>) = elsewhere p q" "elsewhere p (q\<lparr>pt_next_dest := i\<rparr>) = elsewhere p q"
  "elsewhere p (q\<lparr>pt_hourly := h\<rparr>) = elsewhere p q" "elsewhere p (q\<lparr>pt_access := z\<rparr>) = elsewhere p q"
  "elsewhere p (q\<lparr>pt_accounts := as\<rparr>) = elsewhere p q" "elsewhere p (q\<lparr>pt_settings := ss\<rparr>) = elsewhere p q"
  by (simp_all add: elsewhere_def same_books_def audit_control_def notify_def)

lemma mpin_elsewhere [simp]: "elsewhere p (snd (mpin_gate verify now db_now u mpin p))"
  by (simp add: mpin_gate_def split: prod.split)

lemma routes_elsewhere:
  "elsewhere p (snd (add_destination_body ctx kind nick details proof now p))"
  "elsewhere p (snd (remove_destination ctx i p))"
  "elsewhere p (snd (decide_destination ctx i status note p))"
  "elsewhere p (snd (put_settings ctx a b c p))"
  "elsewhere p (snd (link_investor_account ctx u i p))"
  "elsewhere p (snd (unlink_investor_account ctx u i p))"
  using settings_elsewhere [of p "cx_org ctx"]
  by (auto simp: add_destination_body_def spend_hourly_def remove_destination_def decide_destination_def put_settings_def
      link_investor_account_def link_account_def unlink_investor_account_def Let_def
      split: prod.split sum.split option.split if_split)

section \<open>Rows are kept\<close>

text \<open>What a row says of whose money it is never changes; the tables only grow.\<close>

definition dp_key :: "deposit \<Rightarrow> ident \<times> ident \<times> ident" where
  "dp_key d = (dp_id d, dp_org d, dp_user d)"

definition wd_key :: "withdrawal \<Rightarrow> ident \<times> ident \<times> ident \<times> rat" where
  "wd_key w = (wd_id w, wd_org w, wd_user w, wd_amount w)"

definition tr_key :: "transfer \<Rightarrow> ident \<times> ident \<times> ident \<times> rat \<times> string \<times> string option \<times> string option" where
  "tr_key t = (tr_id t, tr_org t, tr_user t, tr_amount t, tr_source_kind t, tr_source_wallet t, tr_target_wallet t)"

lemma tr_key_ends: "tr_key a = tr_key b \<longleftrightarrow> same_ends a b"
  by (auto simp: tr_key_def same_ends_def)

definition later :: "portal \<Rightarrow> portal \<Rightarrow> bool" where
  "later p q \<longleftrightarrow> prefix (map dp_key (pt_deposits p)) (map dp_key (pt_deposits q)) \<and> prefix (map wd_key (pt_withdrawals p)) (map wd_key (pt_withdrawals q)) \<and>
     prefix (map tr_key (pt_transfers p)) (map tr_key (pt_transfers q)) \<and> length (pt_entries p) \<le> length (pt_entries q)"

lemma later_refl [simp]: "later p p"
  by (simp add: later_def)

lemma later_trans: "later p q \<Longrightarrow> later q r \<Longrightarrow> later p r"
  unfolding later_def by (meson order_trans prefix_order.trans)

lemma later_same: "same_books p q \<Longrightarrow> later p q"
  by (simp add: same_books_def later_def)

lemma later_aside [simp]:
  "later p (audit_control a b c d e f g q) = later p q" "later p (notify a u m n q) = later p q"
  "later p (announce_bonus a u i m x n q) = later p q" "later p (q\<lparr>pt_hourly := h\<rparr>) = later p q"
  "later p (q\<lparr>pt_next_deposit := i\<rparr>) = later p q" "later p (q\<lparr>pt_next_bonus := i\<rparr>) = later p q" "later p (q\<lparr>pt_bonuses := bs\<rparr>) = later p q"
  "later p (q\<lparr>pt_rules := rs\<rparr>) = later p q" "later p (q\<lparr>pt_methods := ms\<rparr>) = later p q" "later p (q\<lparr>pt_next_method := i\<rparr>) = later p q"
  by (simp_all add: later_def audit_control_def notify_def announce_bonus_def)

lemma later_entry [simp]: "later p q \<Longrightarrow> later p (insert_entry e q)" "later p q \<Longrightarrow> later p (q\<lparr>pt_next_entry := i\<rparr>)"
  by (simp_all add: later_def insert_entry_def)

lemma later_settle [simp]: "later p q \<Longrightarrow> later p (snd (settle g u w x k tbl i note by q))"
  by (simp add: settle_def)

lemma later_ends [simp]: "later p q \<Longrightarrow> later p (settle_ends g t q)"
  by (simp add: settle_ends_def Let_def split: option.split)

lemma replaced_keys: "(\<And>x. k (f x) = k x) \<Longrightarrow> map k (replaced P f xs) = map k xs"
  unfolding replaced_def by (rule replace_keys)

lemma later_replaced:
  "later p q \<Longrightarrow> (\<And>x. dp_key (f x) = dp_key x) \<Longrightarrow> later p (q\<lparr>pt_deposits := replaced P f (pt_deposits q)\<rparr>)"
  "later p q \<Longrightarrow> (\<And>x. wd_key (h x) = wd_key x) \<Longrightarrow> later p (q\<lparr>pt_withdrawals := replaced P' h (pt_withdrawals q)\<rparr>)"
  "later p q \<Longrightarrow> (\<And>x. tr_key (j x) = tr_key x) \<Longrightarrow> later p (q\<lparr>pt_transfers := replaced P'' j (pt_transfers q)\<rparr>)"
  by (simp_all add: later_def replaced_keys)

lemma later_inserted [simp]:
  "later p q \<Longrightarrow> later p (snd (insert_deposit d q))"
  "later p q \<Longrightarrow> later p (snd (insert_withdrawal w q))"
  "later p q \<Longrightarrow> later p (snd (insert_transfer t q))"
  by (simp_all add: later_def insert_deposit_def insert_withdrawal_def insert_transfer_def Let_def prefix_append)

lemma later_bonus [simp]: "later p q \<Longrightarrow> later p (snd (pay_bonus g u src x sid note by q))"
  by (simp add: pay_bonus_def Let_def split: prod.split) (metis later_aside(6,7) later_settle snd_conv)

lemma roomy_later: "roomy q \<Longrightarrow> later p q \<Longrightarrow> roomy p"
proof -
  assume "roomy q" "later p q"
  moreover from \<open>later p q\<close> have "length (pt_withdrawals p) \<le> length (pt_withdrawals q)" "length (pt_transfers p) \<le> length (pt_transfers q)"
    unfolding later_def by (metis length_map prefix_length_le)+
  ultimately show ?thesis by (simp add: roomy_def later_def)
qed

lemma key_row:
  assumes "numbered_rows i n xs" "r \<in> set xs" "i r = i d" "j d \<in> j ` set xs" "\<And>x y. j x = j y \<Longrightarrow> i x = i y"
  shows "j r = j d"
proof -
  from assms(4) obtain x where x: "x \<in> set xs" "j x = j d" by auto
  have "i x = i r" using assms(3) assms(5) [OF x(2)] by simp
  then have "x = r" using assms(1,2) x(1) by (auto simp: numbered_rows_def distinct_map inj_on_def)
  with x show ?thesis by simp
qed

lemma update_row_alt: "update_row P f xs = (map_option f (find P xs), replaced P f xs)"
  by (simp add: update_row_def replaced_def)

text \<open>Case analysis that also takes the plans apart.\<close>

lemma flight_cases:
  assumes "\<And>ctx pl. f = Deposit_Decision ctx pl \<Longrightarrow> Q" "\<And>ctx pl. f = Withdrawal_Request ctx pl \<Longrightarrow> Q" "\<And>ctx w. f = Withdrawal_Cancel ctx w \<Longrightarrow> Q"
    "\<And>ctx s n w. f = Withdrawal_Decision ctx (s, n, w) \<Longrightarrow> Q" "\<And>ctx x w. f = Withdrawal_Paid ctx (x, w) \<Longrightarrow> Q"
    "\<And>ctx pl. f = Transfer_Request ctx pl \<Longrightarrow> Q" "\<And>ctx t. f = Transfer_Cancel ctx t \<Longrightarrow> Q" "\<And>ctx s n t. f = Transfer_Decision ctx (s, n, t) \<Longrightarrow> Q"
    "\<And>ctx u w x n. f = Adjustment ctx u (w, x, n) \<Longrightarrow> Q" "\<And>ctx u x n. f = Bonus_Grant ctx u (x, n) \<Longrightarrow> Q"
  shows Q
  using assms by (cases f) (metis prod.exhaust)+

text \<open>Every step keeps the rows.\<close>

lemma later_rule [simp]: "later p q \<Longrightarrow> later p (snd (bonus_rules g q))" "later p q \<Longrightarrow> later p (snd (rule_bonus g src base q))"
  by (auto simp: rule_bonus_def bonus_rules_def split: option.split)

lemma later_moved [simp]:
  "(\<And>x. wd_key (f x) = wd_key x) \<Longrightarrow> later p (snd (move_withdrawal w s f p))"
  "(\<And>x. tr_key (h x) = tr_key x) \<Longrightarrow> later p (snd (move_transfer t ok h p))"
  unfolding move_withdrawal_def move_transfer_def update_row_alt by (simp_all add: later_replaced)

lemma later_applied [simp]: "later p (snd (apply_decision ctx s n t p))"
  by (simp add: apply_decision_def tr_key_def)

lemma later_confirm: "later p q \<Longrightarrow> later p (snd (confirm_deposit ctx pl c linked q))"
proof -
  assume q: "later p q"
  have f: "later p (fund_account ctx pl c a z)" if "later p z" for a z using that by (simp add: fund_account_def)
  show ?thesis unfolding confirm_deposit_def Let_def case_prod_beta using q
    by (auto split: sum.split option.split intro!: later_rule f later_settle later_bonus)
qed

lemma later_announced [simp]: "later p (announce_decision ctx pl linked paid q) = later p q"
  by (simp add: announce_decision_def Let_def split: option.split)

lemma later_decided: "later p (snd (decide_deposit_commit ctx pl p))"
proof -
  have q: "later p (p\<lparr>pt_deposits := replaced P (\<lambda>x. x\<lparr>dp_status := s, dp_decided_by := b, dp_decision_note := n, dp_credited := c\<rparr>) (pt_deposits p)\<rparr>)"
    for P s b n c by (rule later_replaced) (simp_all add: dp_key_def)
  show ?thesis using q later_confirm [OF q] unfolding decide_deposit_commit_def update_row_alt Let_def case_prod_beta
    by (auto split: sum.split option.split)
qed

lemma landed_later: "later p (landed f now p)"
proof (cases f rule: flight_cases)
  case (5 ctx x w)
  have "later p (snd (move_withdrawal w ''approved'' (\<lambda>y. y\<lparr>wd_status := ''paid'', wd_paid_by := b, wd_txid := c\<rparr>) p))" for b c
    by (simp add: wd_key_def)
  then show ?thesis unfolding 5 landed.simps mark_paid_commit_def Let_def prod.case case_prod_beta by (auto split: option.split)
qed (auto simp: later_decided cancel_withdrawal_commit_def decide_withdrawal_commit_def cancel_transfer_commit_def decide_transfer_commit_def
    request_withdrawal_commit_def request_transfer_commit_def grant_commit_def adjustment_commit_def adjust_def spend_hourly_def Let_def
    case_prod_beta wd_key_def tr_key_def split: sum.split option.split)

lemma method_later [simp]: "later p (audit_method ctx mid q) = later p q"
  by (simp add: audit_method_def)

lemma forgotten_later:
  "later p (account_removed a p)" "later p (p\<lparr>pt_methods := ms, pt_deposits := map (\<lambda>d. d\<lparr>dp_method := forget m (dp_method d)\<rparr>) (pt_deposits p)\<rparr>)"
  by (simp_all add: account_removed_def later_def comp_def dp_key_def [abs_def] tr_key_def [abs_def])

lemma cancelled_later: "later p (snd (cancel_deposit ctx did p))"
proof -
  have "later p (p\<lparr>pt_deposits := replaced P (\<lambda>x. x\<lparr>dp_status := s, dp_decided_by := b\<rparr>) (pt_deposits p)\<rparr>)" for P s b
    by (rule later_replaced) (simp_all add: dp_key_def)
  then show ?thesis unfolding cancel_deposit_def update_row_alt by (auto split: option.split)
qed

lemma awarded_later: "later p (snd (award_rule_bonus g u source actor p))"
  unfolding award_rule_bonus_def Let_def case_prod_beta by (auto split: sum.split option.split)

lemma configured_later:
  "later p (snd (file_deposit ctx body now p))" "later p (snd (put_rules ctx rules p))" "later p (snd (create_method ctx mb p))"
  "later p (snd (update_method ctx mid patch p))" "later p (snd (delete_method ctx mid p))"
  using forgotten_later(2) unfolding file_deposit_def spend_hourly_def put_rules_def create_method_def update_method_def delete_method_def Let_def case_prod_beta
  by (auto split: sum.split)

lemma launched_elsewhere: "launched p f q \<Longrightarrow> elsewhere p q"
proof (induction rule: launched.induct)
  case (2 ctx dest amount p wl q)
  then show ?case using settings_elsewhere [of p "cx_org ctx"]
    by (auto simp: request_withdrawal_plan_def case_prod_beta split: sum.split_asm option.split_asm if_split_asm)
qed simp_all

lemma step_later: "desk_step s t \<Longrightarrow> later (fst s) (fst t)"
  by (induction rule: desk_step.induct)
    (auto simp: landed_later cancelled_later awarded_later configured_later forgotten_later elsewhere_def dest!: launched_elsewhere intro: later_same)

end
