(* ===== verification/Portal_Laws.thy ===== *)
theory Portal_Laws
  imports Portal_Desk Simulation
begin

text \<open>
  What the portal guarantees in every run of the desk, with any number of requests in flight: each commit
  is made of the moves of Portal\<open>_\<close>Books, so the ledger stays the record of the settled requests, no
  wallet pays out more than it holds, and no bonus is paid twice.
\<close>

section \<open>What a plan can rely on\<close>

fun flight_ok :: "portal \<Rightarrow> flight \<Rightarrow> bool" where
  "flight_ok p (Deposit_Decision ctx pl) \<longleftrightarrow> dp_key (dl_row pl) \<in> dp_key ` set (pt_deposits p) \<and> dp_org (dl_row pl) = cx_org ctx \<and>
     (dl_status pl = ''confirmed'' \<longrightarrow> (\<exists>c. dl_credited pl = Some c \<and> amount_ok c))"
| "flight_ok p (Withdrawal_Request ctx pl) \<longleftrightarrow> amount_ok (wl_amount pl)"
| "flight_ok p (Withdrawal_Cancel ctx w) \<longleftrightarrow> wd_key w \<in> wd_key ` set (pt_withdrawals p) \<and> wd_status w \<in> set OPEN_STATUSES"
| "flight_ok p (Withdrawal_Decision ctx pl) \<longleftrightarrow> wd_key (snd (snd pl)) \<in> wd_key ` set (pt_withdrawals p) \<and>
     wd_status (snd (snd pl)) \<in> set OPEN_STATUSES \<and> fst pl \<noteq> ''paid''"
| "flight_ok p (Withdrawal_Paid ctx pl) \<longleftrightarrow> wd_key (snd pl) \<in> wd_key ` set (pt_withdrawals p) \<and> wd_org (snd pl) = cx_org ctx"
| "flight_ok p (Transfer_Request ctx pl) \<longleftrightarrow> amount_ok (tl_amount pl) \<and> (tl_source pl, tl_target pl) \<in> set TRANSFER_PAIRS"
| "flight_ok p (Transfer_Cancel ctx t) \<longleftrightarrow> tr_key t \<in> tr_key ` set (pt_transfers p) \<and> tr_status t \<in> set OPEN_STATUSES"
| "flight_ok p (Transfer_Decision ctx pl) \<longleftrightarrow> tr_key (snd (snd pl)) \<in> tr_key ` set (pt_transfers p) \<and>
     tr_status (snd (snd pl)) \<in> set OPEN_STATUSES \<and> tr_org (snd (snd pl)) = cx_org ctx"
| "flight_ok p (Adjustment ctx u pl) \<longleftrightarrow> fst pl \<in> set WALLETS \<and> whole_cents (fst (snd pl)) \<and> \<bar>fst (snd pl)\<bar> < 10 ^ 12"
| "flight_ok p (Bonus_Grant ctx u pl) \<longleftrightarrow> whole_cents (fst pl) \<and> \<bar>fst pl\<bar> < 10 ^ 12"

lemma kept_keys: "prefix (map k xs) (map k ys) \<Longrightarrow> x \<in> k ` set xs \<Longrightarrow> x \<in> k ` set ys"
  using set_mono_prefix by fastforce

lemma flight_later: "flight_ok p f \<Longrightarrow> later p q \<Longrightarrow> flight_ok q f"
  unfolding later_def by (cases f) (auto dest: kept_keys simp del: image_iff)

lemma then_reply_Inr [simp]: "then_reply r f = Inr y \<longleftrightarrow> (\<exists>x. r = Inr x \<and> f x = Inr y)"
  by (cases r) (simp_all add: then_reply_def)

lemma of_text_Inr [simp]: "of_text r = Inr y \<longleftrightarrow> r = Inr y"
  by (cases r) (simp_all add: of_text_def)

lemma of_res_Inr [simp]: "of_res r = Inr y \<longleftrightarrow> r = Inr y"
  by (cases r) (simp_all add: of_res_def)

lemma parse_amount_ok: "parse_amount raw field = Inr x \<Longrightarrow> amount_ok x"
  by (simp add: parse_amount_iff amount_ok_def)

lemma parse_signed_ok: "parse_signed_amount raw = Inr x \<Longrightarrow> whole_cents x \<and> \<bar>x\<bar> < 10 ^ 12"
  by (auto simp: parse_signed_amount_def Let_def amount_ok_def dest!: parse_amount_ok split: if_splits)

lemma credited_ok:
  assumes "deposit_ok d" "credited_amount d raw = Inr c"
  shows "amount_ok c"
proof -
  have d: "amount_ok (dp_amount d)" "0 \<le> dp_fee d" "dp_fee d \<le> dp_amount d" "whole_cents (dp_fee d)"
    using assms(1) by (auto simp: deposit_ok_def)
  then have "whole_cents (dp_amount d - dp_fee d)" "\<bar>dp_amount d - dp_fee d\<bar> < 10 ^ 26" by (auto simp: amount_ok_def)
  then have "dec (dp_amount d - dp_fee d) = dp_amount d - dp_fee d" by (rule dec_cents)
  then show ?thesis using assms(2) d
    by (auto simp: credited_amount_def amount_ok_def dest!: parse_amount_ok split: option.splits if_splits)
qed

lemma found_key: "find P xs = Some r \<Longrightarrow> k r \<in> k ` set xs" "find P xs = Some r \<Longrightarrow> P r"
  by (auto dest: find_SomeD)

lemma open_transition:
  "can_transition withdrawals s s' \<Longrightarrow> s \<in> set OPEN_STATUSES" "can_transition transfers s s' \<Longrightarrow> s \<in> set OPEN_STATUSES"
  by (auto simp: can_transition_def TRANSITIONS_def WITHDRAWAL_TRANSITIONS_def TRANSFER_TRANSITIONS_def OPEN_STATUSES_def split: option.splits if_splits)

lemma launched_deposit:
  assumes "books_inv p" "decide_deposit_plan ctx did status credited note p = Inr pl"
  shows "flight_ok p (Deposit_Decision ctx pl)"
proof -
  define s where "s = py_lower (py_strip status)"
  obtain n d c where d: "deposit_of did (cx_org ctx) p = Some d" "pl = \<lparr>dl_status = s, dl_note = n, dl_row = d, dl_credited = c\<rparr>"
      "(if s = ''confirmed'' then then_reply (credited_amount d credited) (\<lambda>c. Inr (Some c)) else Inr None) = Inr c"
    using assms(2) unfolding decide_deposit_plan_def Let_def s_def [symmetric]
    by (simp split: if_split_asm) (fastforce split: if_split_asm option.split_asm)+
  then have row: "d \<in> set (pt_deposits p)" "dp_org d = cx_org ctx" by (auto simp: deposit_of_def dest: find_SomeD)
  then have "deposit_ok d" using books_invD(1) [OF assms(1)] by (simp add: rows_ok_def)
  then show ?thesis using d row credited_ok by (auto split: if_split_asm)
qed

lemma decided_withdrawal:
  assumes "decide_withdrawal_plan ctx wid status n p = Inr (s, m, w)"
  shows "wd_key w \<in> wd_key ` set (pt_withdrawals p) \<and> wd_status w \<in> set OPEN_STATUSES \<and> s \<noteq> ''paid''"
proof -
  define s' where "s' = py_lower (py_strip status)"
  have "withdrawal_of wid (cx_org ctx) p = Some w \<and> can_transition withdrawals (wd_status w) s \<and> s \<noteq> ''paid''"
    using assms unfolding decide_withdrawal_plan_def Let_def s'_def [symmetric]
    by (simp split: if_split_asm) (fastforce split: if_split_asm option.split_asm)+
  then show ?thesis using open_transition(1) by (auto simp: withdrawal_of_def dest: find_SomeD)
qed

lemma decided_transfer:
  assumes "decide_transfer_plan ctx tid status n p = Inr (s, m, t)"
  shows "tr_key t \<in> tr_key ` set (pt_transfers p) \<and> tr_status t \<in> set OPEN_STATUSES \<and> tr_org t = cx_org ctx"
proof -
  define s' where "s' = py_lower (py_strip status)"
  have "transfer_of tid (cx_org ctx) p = Some t \<and> can_transition transfers (tr_status t) s"
    using assms unfolding decide_transfer_plan_def Let_def s'_def [symmetric]
    by (simp split: if_split_asm) (fastforce split: if_split_asm option.split_asm)+
  then show ?thesis using open_transition(2) by (auto simp: transfer_of_def dest: find_SomeD)
qed

lemma planned_payment:
  assumes "mark_paid_plan ctx wid txid p = Inr (x, w)"
  shows "wd_key w \<in> wd_key ` set (pt_withdrawals p) \<and> wd_org w = cx_org ctx"
proof -
  from assms obtain t where "(case withdrawal_of wid (cx_org ctx) p of None \<Rightarrow> Inl (Http 404 ''Withdrawal not found'')
      | Some w \<Rightarrow> if \<not> can_transition withdrawals (wd_status w) ''paid''
          then Inl (Http 409 (''withdrawal is '' @ wd_status w @ '', not approved'')) else Inr (the t, w)) = Inr (x, w)"
    unfolding mark_paid_plan_def by auto
  then have "withdrawal_of wid (cx_org ctx) p = Some w" by (auto split: option.split_asm if_split_asm)
  then show ?thesis by (auto simp: withdrawal_of_def dest: find_SomeD)
qed

lemma launched_ok:
  assumes "launched p f q" "books_inv p"
  shows "elsewhere p q" "flight_ok q f"
proof -
  show "elsewhere p q" by (rule launched_elsewhere [OF assms(1)])
  show "flight_ok q f" using assms(1)
  proof cases
    case 1 then show ?thesis using launched_deposit assms(2) by simp
  next
    case 2 then show ?thesis
      by (auto simp: request_withdrawal_plan_def dest: parse_amount_ok split: sum.splits option.splits prod.splits if_splits)
  next
    case 3 then show ?thesis
      by (auto simp: cancel_withdrawal_plan_def dest: open_transition find_SomeD split: option.splits if_splits)
  next
    case (4 ctx wid status nt wd)
    show ?thesis unfolding 4(1,2) by (cases wd) (use decided_withdrawal 4(3) in simp)
  next
    case (5 ctx wid txid wp)
    show ?thesis unfolding 5(1,2) by (cases wp) (use planned_payment 5(3) in simp)
  next
    case 6 then show ?thesis
      by (auto simp: request_transfer_plan_def transfer_pair_def Let_def case_prod_beta dest: parse_amount_ok split: sum.splits if_splits)
  next
    case 7 then show ?thesis
      by (auto simp: cancel_transfer_plan_def dest: open_transition find_SomeD split: option.splits if_splits)
  next
    case (8 ctx tid status nt td)
    show ?thesis unfolding 8(1,2) by (cases td) (use decided_transfer 8(3) in simp)
  next
    case 9 then show ?thesis by (auto simp: check_adjustment_def Let_def dest!: parse_signed_ok split: if_splits)
  next
    case 10 then show ?thesis by (auto simp: check_grant_def dest!: parse_signed_ok)
  qed
qed

section \<open>Each commit keeps the books\<close>

lemma rules_read:
  assumes "rules_ok p" and r: "r = fst (bonus_rules g p)"
  shows "same_books p (snd (bonus_rules g p))" "rules_ok (snd (bonus_rules g p))" "pt_methods (snd (bonus_rules g p)) = pt_methods p"
    and "(amount_ok (ru_signup_amount r) \<or> ru_signup_amount r = 0) \<and> (amount_ok (ru_kyc_amount r) \<or> ru_kyc_amount r = 0) \<and>
      pct_ok (ru_deposit_pct r) \<and> (\<forall>c. ru_deposit_cap r = Some c \<longrightarrow> amount_ok c)"
proof -
  have d: "pct_ok (ru_deposit_pct default_rules)" by (simp add: default_rules_def pct_ok_def)
  show "same_books p (snd (bonus_rules g p))" "pt_methods (snd (bonus_rules g p)) = pt_methods p"
    by (simp_all add: bonus_rules_def same_books_def split: option.split)
  show "rules_ok (snd (bonus_rules g p))" using assms(1) d by (auto simp: rules_ok_def bonus_rules_def default_rules_def split: option.split)
  show "(amount_ok (ru_signup_amount r) \<or> ru_signup_amount r = 0) \<and> (amount_ok (ru_kyc_amount r) \<or> ru_kyc_amount r = 0) \<and>
      pct_ok (ru_deposit_pct r) \<and> (\<forall>c. ru_deposit_cap r = Some c \<longrightarrow> amount_ok c)"
  proof (cases "map_of (pt_rules p) g")
    case None
    then have "r = default_rules" using r by (simp add: bonus_rules_def)
    then show ?thesis using d by (simp add: default_rules_def)
  next
    case (Some x)
    then have "(g, r) \<in> set (pt_rules p)" using r by (simp add: bonus_rules_def map_of_SomeD)
    then show ?thesis using assms(1) by (auto simp: rules_ok_def)
  qed
qed

lemma deposit_bonus_ok:
  assumes "amount_ok a" "pct_ok pct" "\<And>c. cap = Some c \<Longrightarrow> amount_ok c" "deposit_bonus a pct cap = Inr x"
  shows "0 \<le> x" "whole_cents x" "x < 10 ^ 12"
proof -
  from round_share [OF assms(1,2)] obtain f where f: "round_cents (dec (dec (a * pct) / 100)) = Inr f" "0 \<le> f" "f \<le> a" "whole_cents f"
    by auto
  then have "f < 10 ^ 12" using assms(1) by (simp add: amount_ok_def)
  then show "0 \<le> x" "whole_cents x" "x < 10 ^ 12"
    using assms(3,4) f by (auto simp: deposit_bonus_def amount_ok_def min_def split: option.splits if_splits)
qed

lemma rule_bonus_ok:
  assumes "rules_ok p" "source = ''signup'' \<or> source = ''kyc'' \<or> (\<exists>c. base = Some c \<and> amount_ok c)" "rule_bonus g source base p = (Inr x, q)"
  shows "0 \<le> x" "whole_cents x" "x < 10 ^ 12" "same_books p q" "rules_ok q" "pt_methods q = pt_methods p"
proof -
  obtain r p1 where r: "bonus_rules g p = (r, p1)" by (cases "bonus_rules g p")
  note ok = rules_read [OF assms(1) refl, of g, unfolded r fst_conv snd_conv]
  have q: "q = p1" using assms(3) r by (auto simp: rule_bonus_def split: if_split_asm)
  then show "same_books p q" "rules_ok q" "pt_methods q = pt_methods p" using ok by simp_all
  have "x = 0 \<or> amount_ok x \<or> (\<exists>c. base = Some c \<and> amount_ok c \<and> deposit_bonus c (ru_deposit_pct r) (ru_deposit_cap r) = Inr x)"
    using assms(2,3) ok(4) r by (auto simp: rule_bonus_def split: if_split_asm)
  moreover have "0 \<le> x \<and> whole_cents x \<and> x < 10 ^ 12" if "base = Some c" "amount_ok c" "deposit_bonus c (ru_deposit_pct r) (ru_deposit_cap r) = Inr x" for c
    using deposit_bonus_ok [OF that(2) _ _ that(3)] ok(4) by blast
  ultimately show "0 \<le> x" "whole_cents x" "x < 10 ^ 12" by (auto simp: amount_ok_def)
qed

lemma row_of:
  assumes "find P xs = Some r" "\<And>x. P x \<Longrightarrow> k x = i"
  shows "one_row k P r xs" "P r"
  using assms by (auto simp: one_row_def dest!: find_SomeD)

lemma confirm_keeps:
  assumes inv: "books_inv p" and row: "one_row dp_id P r (pt_deposits p)" and r: "dp_status r = ''pending''" "dp_key r = dp_key (dl_row pl)"
    and g: "dp_org r = cx_org ctx" and c: "dl_credited pl = Some c" "amount_ok c"
    and f: "\<And>x. f x = x\<lparr>dp_status := ''confirmed'', dp_decided_by := b, dp_decision_note := n, dp_credited := Some c\<rparr>"
    and res: "confirm_deposit ctx pl c linked (p\<lparr>pt_deposits := replaced P f (pt_deposits p)\<rparr>) = (Inr paid, q)"
  shows "books_inv q"
proof -
  let ?p1 = "p\<lparr>pt_deposits := replaced P f (pt_deposits p)\<rparr>"
  let ?u = "dp_user (dl_row pl)" and ?i = "dp_id (dl_row pl)"
  let ?s = "settled (cx_org ctx) ?u ''main'' c ''deposit'' ''deposits'' ?i None (Some (cx_user ctx)) ?p1"
  have "deposit_ok r" using books_invD(1) [OF inv] one_rowD(1) [OF row] by (simp add: rows_ok_def)
  then have ok: "deposit_ok (f r)" using c by (simp add: f deposit_ok_def)
  have names: "dp_org (f r) = cx_org ctx" "dp_user (f r) = ?u" "dp_id r = ?i" using r g by (simp_all add: f dp_key_def)
  note con = deposit_confirmed [OF inv row, where f = f and c = c and g = "cx_org ctx" and u = ?u and i = ?i]
  have s: "snd (settle (cx_org ctx) ?u ''main'' c ''deposit'' ''deposits'' ?i None (Some (cx_user ctx)) ?p1) = ?s" "books_inv ?s"
    "slack (cx_org ctx) ?u ''main'' p + c = slack (cx_org ctx) ?u ''main'' ?s"
    using con r(1) c names ok by (simp_all add: f)
  define p2 where "p2 = (case linked of None \<Rightarrow> ?s | Some a \<Rightarrow> fund_account ctx pl c a ?s)"
  have p2: "books_inv p2"
  proof (cases linked)
    case None
    then show ?thesis using s(2) by (simp add: p2_def)
  next
    case (Some a)
    have "c \<le> slack (cx_org ctx) ?u ''main'' ?s" using s(3) books_invD(3) [OF inv, of "cx_org ctx" ?u "''main''"] by simp
    then show ?thesis using s(2) c(2) unfolding p2_def Some option.case fund_account_def
      by (intro transfer_requested) (simp_all add: transfer_ok_def WALLETS_def)
  qed
  note res = res [unfolded confirm_deposit_def Let_def s(1), folded p2_def]
  obtain x p3 where x: "rule_bonus (cx_org ctx) ''deposit'' (Some c) p2 = (Inr x, p3)" using res by (auto split: prod.split_asm sum.split_asm)
  have "rules_ok p2" "methods_ok p2" using books_invD(1) [OF p2] by (simp_all add: rows_ok_def)
  note rb = rule_bonus_ok [OF this(1) _ x]
  have p3: "books_inv p3" by (rule books_same [OF p2]) (use rb c(2) \<open>methods_ok p2\<close> in \<open>simp_all add: methods_ok_def\<close>)
  have "- x \<le> slack (cx_org ctx) ?u ''credit'' p3"
    using rb(1) c(2) books_invD(3) [OF p3, of "cx_org ctx" ?u "''credit''"] by simp
  moreover have "whole_cents x" "\<bar>x\<bar> < 10 ^ 12" using rb(1-3) c(2) by simp_all
  ultimately obtain i p4 where "pay_bonus (cx_org ctx) ?u ''deposit'' x (Some ?i) (Some (''deposit #'' @ str_int ?i)) (Some (cx_user ctx)) p3 = (Inr i, p4)"
      "books_inv p4" using bonus_paid [OF p3] by blast
  then show ?thesis using res unfolding x by simp
qed

lemma announced_books [simp]:
  "books_inv p \<Longrightarrow> books_inv (announce_decision ctx pl linked paid p)"
  by (simp add: announce_decision_def Let_def split: option.split)

lemma deposit_landed:
  assumes "books_inv p" "flight_ok p (Deposit_Decision ctx pl)"
  shows "books_inv (snd (decide_deposit_commit ctx pl p))"
proof -
  let ?P = "\<lambda>x. dp_id x = dp_id (dl_row pl) \<and> dp_org x = cx_org ctx \<and> dp_status x = ''pending''"
  let ?n = "decision_note pl (linked_target ctx pl p)"
  let ?f = "\<lambda>x. x\<lparr>dp_status := dl_status pl, dp_decided_by := Some (cx_user ctx), dp_decision_note := ?n, dp_credited := dl_credited pl\<rparr>"
  let ?q = "p\<lparr>pt_deposits := replaced ?P ?f (pt_deposits p)\<rparr>"
  show "books_inv (snd (decide_deposit_commit ctx pl p))"
  proof (cases "find ?P (pt_deposits p)")
    case None
    then show ?thesis using assms(1) unfolding decide_deposit_commit_def update_row_alt Let_def by simp
  next
    case (Some r)
    have row: "one_row dp_id ?P r (pt_deposits p)" and r: "?P r" by (rule row_of [OF Some]; simp)+
    have num: "numbered_rows dp_id (pt_next_deposit p) (pt_deposits p)" using books_invD(1) [OF assms(1)] by (simp add: rows_ok_def)
    have key: "dp_key r = dp_key (dl_row pl)"
      by (rule key_row [OF num one_rowD(1) [OF row]]) (use r assms(2) in \<open>auto simp: dp_key_def\<close>)
    have ok: "deposit_ok r" using books_invD(1) [OF assms(1)] one_rowD(1) [OF row] by (simp add: rows_ok_def)
    show ?thesis
    proof (cases "dl_status pl = ''confirmed''")
      case False
      have "books_inv ?q" by (rule deposit_declined [OF assms(1) row]) (use r ok False in \<open>simp_all add: deposit_ok_def\<close>)
      then show ?thesis using Some False unfolding decide_deposit_commit_def update_row_alt Let_def by simp
    next
      case True
      then obtain c where c: "dl_credited pl = Some c" "amount_ok c" using assms(2) by auto
      have "books_inv z" if "confirm_deposit ctx pl c (linked_target ctx pl p) ?q = (Inr paid, z)" for paid z
        by (rule confirm_keeps [OF assms(1) row _ key _ c _ that]) (use r True c in simp_all)
      then show ?thesis using Some True c(1) assms(1) unfolding decide_deposit_commit_def update_row_alt Let_def
        by (auto split: prod.split sum.split)
    qed
  qed
qed

lemma withdrawal_row:
  assumes "books_inv p" "wd_key w \<in> wd_key ` set (pt_withdrawals p)"
    and "find (\<lambda>x. wd_id x = wd_id w \<and> wd_org x = wd_org w \<and> wd_status x = s) (pt_withdrawals p) = Some r"
  shows "one_row wd_id (\<lambda>x. wd_id x = wd_id w \<and> wd_org x = wd_org w \<and> wd_status x = s) r (pt_withdrawals p)" "wd_status r = s" "wd_key r = wd_key w"
proof -
  let ?P = "\<lambda>x. wd_id x = wd_id w \<and> wd_org x = wd_org w \<and> wd_status x = s"
  show row: "one_row wd_id ?P r (pt_withdrawals p)" by (rule row_of [OF assms(3)]) simp
  have r: "?P r" by (rule row_of [OF assms(3), of wd_id]) simp
  then show "wd_status r = s" by simp
  have num: "numbered_rows wd_id (pt_next_withdrawal p) (pt_withdrawals p)" using books_invD(1) [OF assms(1)] by (simp add: rows_ok_def)
  show "wd_key r = wd_key w" by (rule key_row [OF num one_rowD(1) [OF row]]) (use r assms(2) in \<open>auto simp: wd_key_def\<close>)
qed

text \<open>A status change that is not a payment.\<close>

lemma withdrawal_change:
  assumes "books_inv p" "wd_key w \<in> wd_key ` set (pt_withdrawals p)" "wd_status w \<in> set OPEN_STATUSES"
    and "\<And>x. wd_key (f x) = wd_key x" "\<And>x. wd_status (f x) \<noteq> ''paid''" "move_withdrawal w (wd_status w) f p = (Some row, q)"
  shows "books_inv q"
proof -
  let ?P = "\<lambda>x. wd_id x = wd_id w \<and> wd_org x = wd_org w \<and> wd_status x = wd_status w"
  have q: "q = p\<lparr>pt_withdrawals := replaced ?P f (pt_withdrawals p)\<rparr>" and "\<exists>r. find ?P (pt_withdrawals p) = Some r"
    using assms(6) by (auto simp: move_withdrawal_def update_row_alt)
  then obtain r where r: "find ?P (pt_withdrawals p) = Some r" by blast
  note row = withdrawal_row [OF assms(1,2) r]
  have f: "wd_id (f x) = wd_id x" "wd_amount (f x) = wd_amount x" "wd_org (f x) = wd_org x" "wd_user (f x) = wd_user x" for x
    using assms(4) [of x] by (simp_all add: wd_key_def)
  show "books_inv q" unfolding q by (rule withdrawal_moved [OF assms(1) row(1)]) (use row(2) assms(3,5) f in simp_all)
qed

lemma withdrawal_change_landed:
  assumes "books_inv p" "flight_ok p (Withdrawal_Cancel ctx w)"
  shows "books_inv (snd (cancel_withdrawal_commit ctx w p))"
proof -
  let ?f = "\<lambda>x. x\<lparr>wd_status := ''cancelled'', wd_decided_by := Some (cx_user ctx)\<rparr>"
  have "books_inv q" if "move_withdrawal w (wd_status w) ?f p = (Some row, q)" for row q
    using withdrawal_change [OF assms(1) _ _ _ _ that] assms(2) by (simp add: wd_key_def)
  then show "books_inv (snd (cancel_withdrawal_commit ctx w p))"
    using assms(1) by (auto simp: cancel_withdrawal_commit_def split: prod.split option.split)
qed

lemma withdrawal_decision_landed:
  assumes "books_inv p" "flight_ok p (Withdrawal_Decision ctx (s, n, w))"
  shows "books_inv (snd (decide_withdrawal_commit ctx (s, n, w) p))"
proof -
  let ?f = "\<lambda>x. x\<lparr>wd_status := s, wd_decided_by := Some (cx_user ctx), wd_decision_note := n\<rparr>"
  have "books_inv q" if "move_withdrawal w (wd_status w) ?f p = (Some row, q)" for row q
    using withdrawal_change [OF assms(1) _ _ _ _ that] assms(2) by (simp add: wd_key_def)
  then show "books_inv (snd (decide_withdrawal_commit ctx (s, n, w) p))"
    using assms(1) by (auto simp: decide_withdrawal_commit_def Let_def split: prod.split option.split)
qed

lemma payment_landed:
  assumes "books_inv p" "flight_ok p (Withdrawal_Paid ctx (txid, w))"
  shows "books_inv (snd (mark_paid_commit ctx (txid, w) p))"
proof -
  let ?P = "\<lambda>x. wd_id x = wd_id w \<and> wd_org x = wd_org w \<and> wd_status x = ''approved''"
  let ?f = "\<lambda>x. x\<lparr>wd_status := ''paid'', wd_paid_by := Some (cx_user ctx), wd_txid := Some txid\<rparr>"
  have key: "wd_key w \<in> wd_key ` set (pt_withdrawals p)" and g: "wd_org w = cx_org ctx" using assms(2) by simp_all
  show "books_inv (snd (mark_paid_commit ctx (txid, w) p))"
  proof (cases "find ?P (pt_withdrawals p)")
    case None
    then show ?thesis using assms(1) by (simp add: mark_paid_commit_def move_withdrawal_def update_row_alt)
  next
    case (Some r)
    note row = withdrawal_row [OF assms(1) key Some]
    have names: "wd_amount r = wd_amount w" "wd_org r = cx_org ctx" "wd_user r = wd_user w" "wd_id r = wd_id w" "wd_status r \<in> set OPEN_STATUSES"
      using row(2,3) g by (simp_all add: wd_key_def OPEN_STATUSES_def)
    have "books_inv (snd (settle (cx_org ctx) (wd_user w) ''main'' (- wd_amount w) ''withdrawal'' ''withdrawals'' (wd_id w) None None
        (p\<lparr>pt_withdrawals := replaced ?P ?f (pt_withdrawals p)\<rparr>)))"
      using withdrawal_paid [OF assms(1) row(1), where f = ?f and a = "wd_amount w" and g = "cx_org ctx" and u = "wd_user w" and i = "wd_id w"] names
      by simp
    then show ?thesis using Some by (simp add: mark_paid_commit_def move_withdrawal_def update_row_alt Let_def)
  qed
qed

lemma request_landed:
  assumes "books_inv p" "roomy p" "flight_ok p (Withdrawal_Request ctx pl)"
  shows "books_inv (snd (request_withdrawal_commit ctx pl now p))"
proof -
  have h: "books_inv (p\<lparr>pt_hourly := l\<rparr>)" for l by (rule books_aside [OF assms(1)]) simp_all
  have "books_inv (snd (insert_withdrawal t (p\<lparr>pt_hourly := l\<rparr>)))"
    if "wd_org t = cx_org ctx" "wd_user t = cx_user ctx" "wd_amount t = wl_amount pl" "wd_status t = ''requested''"
      "available_in ''main'' (cx_org ctx) (cx_user ctx) p = Inr a" "wl_amount pl \<le> a" for t l a
  proof (rule withdrawal_inserted [OF h])
    have "wl_amount pl \<le> slack (cx_org ctx) (cx_user ctx) ''main'' p"
      by (rule available_slack [OF books_invD(1) [OF assms(1)] assms(2) _ that(5,6)]) (simp add: WALLETS_def)
    then show "wd_amount t \<le> slack (wd_org t) (wd_user t) ''main'' (p\<lparr>pt_hourly := l\<rparr>)" using that(1-3) by (simp add: figures)
  qed (use that assms(3) in simp_all)
  then show "books_inv (snd (request_withdrawal_commit ctx pl now p))"
    using assms(1) h unfolding request_withdrawal_commit_def Let_def spend_hourly_def case_prod_beta
    by (auto split: sum.split)
qed

lemma transfer_row_of:
  assumes "books_inv p" "tr_key t \<in> tr_key ` set (pt_transfers p)"
    and "find (\<lambda>x. tr_id x = tr_id t \<and> tr_org x = tr_org t \<and> tr_status x = tr_status t \<and> ok x) (pt_transfers p) = Some r"
  shows "one_row tr_id (\<lambda>x. tr_id x = tr_id t \<and> tr_org x = tr_org t \<and> tr_status x = tr_status t \<and> ok x) r (pt_transfers p)"
    and "tr_status r = tr_status t" "same_ends r t"
proof -
  let ?P = "\<lambda>x. tr_id x = tr_id t \<and> tr_org x = tr_org t \<and> tr_status x = tr_status t \<and> ok x"
  show row: "one_row tr_id ?P r (pt_transfers p)" by (rule row_of [OF assms(3)]) simp
  have r: "?P r" by (rule row_of [OF assms(3), of tr_id]) simp
  then show "tr_status r = tr_status t" by simp
  have num: "numbered_rows tr_id (pt_next_transfer p) (pt_transfers p)" using books_invD(1) [OF assms(1)] by (simp add: rows_ok_def)
  have "tr_key r = tr_key t" by (rule key_row [OF num one_rowD(1) [OF row]]) (use r assms(2) in \<open>auto simp: tr_key_def\<close>)
  then show "same_ends r t" by (simp add: tr_key_ends)
qed

lemma transfer_change:
  assumes "books_inv p" "tr_key t \<in> tr_key ` set (pt_transfers p)" "tr_status t \<in> set OPEN_STATUSES"
    and "\<And>x. tr_key (f x) = tr_key x" "\<And>x. tr_status (f x) = s" "move_transfer t ok f p = (Some row, q)"
  shows "s \<noteq> ''done'' \<Longrightarrow> books_inv q" "s = ''done'' \<Longrightarrow> books_inv (settle_ends (tr_org t) t q)"
proof -
  let ?P = "\<lambda>x. tr_id x = tr_id t \<and> tr_org x = tr_org t \<and> tr_status x = tr_status t \<and> ok x"
  have q: "q = p\<lparr>pt_transfers := replaced ?P f (pt_transfers p)\<rparr>" and "\<exists>r. find ?P (pt_transfers p) = Some r"
    using assms(6) by (auto simp: move_transfer_def update_row_alt)
  then obtain r where r: "find ?P (pt_transfers p) = Some r" by blast
  note row = transfer_row_of [OF assms(1,2) r]
  have f: "tr_id (f x) = tr_id x" "same_ends (f x) x" for x using assms(4) [of x] by (simp_all add: tr_key_ends) (simp add: same_ends_def)
  show "books_inv q" if "s \<noteq> ''done''" unfolding q
    by (rule transfer_moved [OF assms(1) row(1)]) (use row(2) assms(3,5) f that in simp_all)
  show "books_inv (settle_ends (tr_org t) t q)" if "s = ''done''" unfolding q
    by (rule transfer_done [OF assms(1) row(1)]) (use row(2,3) assms(3,5) f that in simp_all)
qed

lemma transfer_cancel_landed:
  assumes "books_inv p" "flight_ok p (Transfer_Cancel ctx t)"
  shows "books_inv (snd (cancel_transfer_commit ctx t p))"
proof -
  let ?f = "\<lambda>x. x\<lparr>tr_status := ''cancelled'', tr_decided_by := Some (cx_user ctx)\<rparr>"
  have "books_inv q" if "move_transfer t (\<lambda>_. True) ?f p = (Some row, q)" for row q
    using transfer_change [OF assms(1) _ _ _ _ that, of "''cancelled''"] assms(2) by (simp add: tr_key_def)
  then show "books_inv (snd (cancel_transfer_commit ctx t p))"
    using assms(1) by (auto simp: cancel_transfer_commit_def split: prod.split option.split)
qed

lemma decision_applied:
  assumes "books_inv p" "flight_ok p (Transfer_Decision ctx (s, n, t))" "apply_decision ctx s n t p = (Some row, q)"
  shows "books_inv (if s = ''done'' then settle_ends (cx_org ctx) t q else q)"
proof -
  have t: "tr_key t \<in> tr_key ` set (pt_transfers p)" "tr_status t \<in> set OPEN_STATUSES" "tr_org t = cx_org ctx" using assms(2) by simp_all
  have "(s \<noteq> ''done'' \<longrightarrow> books_inv q) \<and> (s = ''done'' \<longrightarrow> books_inv (settle_ends (tr_org t) t q))"
  proof (cases "s = ''done''")
    case True
    then have m: "move_transfer t (\<lambda>x. \<not> account_gone x) (\<lambda>x. x\<lparr>tr_status := ''done'', tr_decided_by := or_else (tr_decided_by x) (Some (cx_user ctx)),
        tr_decision_note := or_else n (tr_decision_note x), tr_done_by := Some (cx_user ctx)\<rparr>) p = (Some row, q)"
      using assms(3) by (simp add: apply_decision_def)
    show ?thesis using transfer_change [OF assms(1) t(1,2) _ _ m, of s] True by (simp add: tr_key_def)
  next
    case False
    then have m: "move_transfer t (\<lambda>_. True) (\<lambda>x. x\<lparr>tr_status := s, tr_decided_by := Some (cx_user ctx), tr_decision_note := n\<rparr>) p = (Some row, q)"
      using assms(3) by (simp add: apply_decision_def)
    show ?thesis using transfer_change [OF assms(1) t(1,2) _ _ m, of s] False by (simp add: tr_key_def)
  qed
  then show "books_inv (if s = ''done'' then settle_ends (cx_org ctx) t q else q)" using t(3) by simp_all
qed

lemma transfer_decision_landed:
  assumes "books_inv p" "flight_ok p (Transfer_Decision ctx (s, n, t))"
  shows "books_inv (snd (decide_transfer_commit ctx (s, n, t) p))"
proof -
  have d: "books_inv (if s = ''done'' then settle_ends (cx_org ctx) t q else q)" if "apply_decision ctx s n t p = (Some row, q)" for row q
    using decision_applied [OF assms that] by simp
  show "books_inv (snd (decide_transfer_commit ctx (s, n, t) p))"
  proof (cases "apply_decision ctx s n t p")
    case (Pair r q)
    show ?thesis using assms(1) d [of _ q] unfolding decide_transfer_commit_def Let_def prod.case Pair
      by (cases r) (auto split: sum.split)
  qed
qed

lemma planned_transfer_ok:
  assumes "amount_ok (tl_amount pl)" "(tl_source pl, tl_target pl) \<in> set TRANSFER_PAIRS"
  shows "transfer_ok (transfer_row ctx pl)"
  using assms by (auto simp: transfer_row_def transfer_ok_def tl_source_wallet_def tl_target_wallet_def TRANSFER_PAIRS_def WALLETS_def)

lemma transfer_request_landed:
  assumes "books_inv p" "roomy p" "flight_ok p (Transfer_Request ctx pl)"
  shows "books_inv (snd (request_transfer_commit ctx pl now p))"
proof -
  let ?t = "transfer_row ctx pl"
  define lm where "lm = snd (is_limited (hourly_key ''transfer'' ctx) None now (pt_hourly p))"
  define p1 where "p1 = p\<lparr>pt_hourly := lm\<rparr>"
  have p1: "books_inv p1" unfolding p1_def by (rule books_aside [OF assms(1)]) simp_all
  have ok: "transfer_ok ?t" using assms(3) by (simp add: planned_transfer_ok)
  have names: "tr_org ?t = cx_org ctx" "tr_user ?t = cx_user ctx" "tr_amount ?t = tl_amount pl" "tr_source_wallet ?t = tl_source_wallet pl"
    "tr_status ?t = (if tl_instant pl then ''done'' else ''requested'')"
    by (simp_all add: transfer_row_def)
  have cap: "tr_amount ?t \<le> slack (tr_org ?t) (tr_user ?t) w p1" if caps: "check_caps ctx pl p = Inr x" and w: "tr_source_wallet ?t = Some w" for w x
  proof -
    have src: "tl_source pl = w" "w \<noteq> ''account''" using w names by (auto simp: tl_source_wallet_def split: if_split_asm)
    then obtain a where a: "available_in w (cx_org ctx) (cx_user ctx) p = Inr a" "tl_amount pl \<le> a"
      using caps by (auto simp: check_caps_def check_inflow_def split: if_split_asm)
    have "w \<in> set WALLETS" using assms(3) src by (auto simp: TRANSFER_PAIRS_def WALLETS_def)
    from available_slack [OF books_invD(1) [OF assms(1)] assms(2) this a] show ?thesis by (simp add: names p1_def figures)
  qed
  have open_row: "books_inv (snd (insert_transfer ?t p1))" if "check_caps ctx pl p = Inr x" "\<not> tl_instant pl" for x
    by (rule transfer_requested [OF p1 ok _ cap]) (use that names in auto)
  have done_row: "books_inv (settle_ends (cx_org ctx) (fst (insert_transfer ?t p1)) (snd (insert_transfer ?t p1)))"
    if "check_caps ctx pl p = Inr x" "tl_instant pl" for x
    by (rule transfer_instant [OF p1 ok _ _ cap]) (use that names in auto)
  show "books_inv (snd (request_transfer_commit ctx pl now p))"
    using assms(1) p1 open_row done_row
    unfolding request_transfer_commit_def Let_def spend_hourly_def case_prod_beta fst_conv snd_conv lm_def [symmetric] p1_def [symmetric]
    by (auto split: sum.split)
qed

lemma adjustment_landed:
  assumes "books_inv p" "flight_ok p (Adjustment ctx u (w, x, n))"
  shows "books_inv (snd (adjustment_commit ctx u (w, x, n) p))"
  using entry_adjusted [OF assms(1), of w x] assms(2) by (simp add: adjustment_commit_def Let_def)

lemma grant_landed:
  assumes "books_inv p" "roomy p" "flight_ok p (Bonus_Grant ctx u (x, n))"
  shows "books_inv (snd (grant_commit ctx u x n p))"
proof -
  have x: "whole_cents x" "\<bar>x\<bar> < 10 ^ 12" using assms(3) by simp_all
  have credit: "''credit'' \<in> set WALLETS" by (simp add: WALLETS_def)
  have exact: "available_in ''credit'' (cx_org ctx) u p = Inr (bal (cx_org ctx) u ''credit'' p - hold (cx_org ctx) u ''credit'' p)" (is "_ = Inr ?a")
    by (rule available_exact [OF books_invD(1) [OF assms(1)] assms(2) credit])
  have a: "whole_cents ?a" "\<bar>?a\<bar> < 10 ^ 26 - 10 ^ 12"
    using bal_bounds [OF books_invD(1) [OF assms(1)] assms(2), of "cx_org ctx" u "''credit''"]
      holds_exact_at(2,3) [OF books_invD(1) [OF assms(1)] assms(2) credit, of "cx_org ctx" u] by auto
  have dec: "dec (?a + x) = ?a + x" using a x by (intro dec_cents) auto
  have room: "- x \<le> slack (cx_org ctx) u ''credit'' p" if "x < 0 \<longrightarrow> 0 \<le> ?a + x"
  proof (cases "x < 0")
    case True
    show ?thesis by (rule available_slack [OF books_invD(1) [OF assms(1)] assms(2) credit exact]) (use that True in simp)
  next
    case False
    then show ?thesis using books_invD(3) [OF assms(1), of "cx_org ctx" u "''credit''"] by simp
  qed
  show "books_inv (snd (grant_commit ctx u x n p))"
  proof (cases "x < 0 \<longrightarrow> 0 \<le> ?a + x")
    case True
    from bonus_paid [OF assms(1) x room [OF True], of "''manual''" None n "Some (cx_user ctx)"]
    show ?thesis using assms(1) exact dec by (auto simp: grant_commit_def of_res_def split: option.split)
  next
    case False
    then show ?thesis using assms(1) exact dec by (auto simp: grant_commit_def of_res_def)
  qed
qed

lemmas landings = deposit_landed request_landed withdrawal_change_landed withdrawal_decision_landed payment_landed
  transfer_request_landed transfer_cancel_landed transfer_decision_landed adjustment_landed grant_landed

lemma landed_ok: "books_inv p \<Longrightarrow> roomy p \<Longrightarrow> flight_ok p f \<Longrightarrow> books_inv (landed f now p)"
  by (cases f rule: flight_cases) (simp_all del: flight_ok.simps add: landings)

section \<open>The routes of one statement\<close>

lemma noticed_ok:
  assumes "books_inv p"
  shows "books_inv (snd (file_deposit ctx body now p))"
proof -
  have h: "books_inv (p\<lparr>pt_hourly := l\<rparr>)" for l by (rule books_aside [OF assms]) simp_all
  have row: "amount_ok amount \<and> 0 \<le> fee \<and> fee \<le> amount \<and> whole_cents fee"
    if "check_notice ctx body p = Inr (amount, ref, nt, target, m, account)" "fee_for amount (pm_fee_pct m) = Inr fee"
    for amount ref nt target m account fee
  proof -
    have "parse_amount (dn_amount body) ''amount'' = Inr amount" "m \<in> set (pt_methods p)"
      using that(1) by (auto simp: check_notice_def Let_def dest: find_SomeD split: if_split_asm option.split_asm)
    then have a: "amount_ok amount" "pct_ok (pm_fee_pct m)"
      using parse_amount_ok books_invD(1) [OF assms] by (auto simp: rows_ok_def methods_ok_def)
    from round_share [OF this] that(2) show ?thesis using a by (auto simp: fee_for_def)
  qed
  show "books_inv (snd (file_deposit ctx body now p))"
    using assms h deposit_inserted [OF h] unfolding file_deposit_def spend_hourly_def Let_def case_prod_beta
    by (auto simp: deposit_ok_def row split: sum.split)
qed

lemma withdrawn_ok:
  assumes "books_inv p"
  shows "books_inv (snd (cancel_deposit ctx did p))"
proof -
  let ?P = "\<lambda>x. dp_id x = did \<and> dp_org x = cx_org ctx \<and> dp_status x = ''pending''"
  let ?f = "\<lambda>x. x\<lparr>dp_status := ''cancelled'', dp_decided_by := Some (cx_user ctx)\<rparr>"
  let ?q = "p\<lparr>pt_deposits := replaced ?P ?f (pt_deposits p)\<rparr>"
  have "books_inv ?q" if "find ?P (pt_deposits p) = Some r" for r
  proof (rule deposit_declined [OF assms])
    show "one_row dp_id ?P r (pt_deposits p)" by (rule row_of [OF that]) simp
    show "deposit_ok (?f r)" using books_invD(1) [OF assms] that by (auto simp: rows_ok_def deposit_ok_def dest: find_SomeD)
  qed (use that in \<open>auto dest: find_SomeD\<close>)
  then show "books_inv (snd (cancel_deposit ctx did p))"
    using assms unfolding cancel_deposit_def update_row_alt by (auto split: option.split)
qed

lemma awarded_ok:
  assumes "books_inv p" "source = ''signup'' \<or> source = ''kyc''"
  shows "books_inv (snd (award_rule_bonus g u source actor p))"
proof -
  obtain r p1 where rb: "rule_bonus g source None p = (r, p1)" by (cases "rule_bonus g source None p")
  have "books_inv (snd (award_rule_bonus g u source actor p))"
  proof (cases r)
    case (Inl e)
    then show ?thesis using assms(1) rb by (simp add: award_rule_bonus_def)
  next
    case (Inr x)
    have ok: "rules_ok p" "methods_ok p" using books_invD(1) [OF assms(1)] by (simp_all add: rows_ok_def)
    note rule = rule_bonus_ok [OF ok(1) _ rb [unfolded Inr]]
    have p1: "books_inv p1" by (rule books_same [OF assms(1)]) (use rule ok assms(2) in \<open>auto simp: methods_ok_def\<close>)
    have "- x \<le> slack g u ''credit'' p1" using rule(1) assms(2) books_invD(3) [OF p1, of g u "''credit''"] by auto
    then obtain i q where pay: "pay_bonus g u source x None None None p1 = (Inr i, q)" "books_inv q"
      using bonus_paid [OF p1] rule(1-3) assms(2) by (metis abs_of_nonneg)
    show ?thesis using pay rb Inr by (auto simp: award_rule_bonus_def Let_def split: option.split)
  qed
  then show "books_inv (snd (award_rule_bonus g u source actor p))" .
qed

lemma parse_min_ok: "parse_min raw field = Inr x \<Longrightarrow> amount_ok x \<or> x = 0"
  by (auto simp: parse_min_def dest: parse_amount_ok split: if_split_asm)

lemma three_decimals_pct: "three_decimals x \<Longrightarrow> 0 \<le> x \<Longrightarrow> x \<le> 100 \<Longrightarrow> pct_ok x"
proof -
  assume x: "three_decimals x" "0 \<le> x" "x \<le> 100"
  then have "x * 1000 = of_int (round_half_even (x * 1000))" unfolding three_decimals_def by (metis nonzero_divide_eq_eq zero_neq_numeral)
  then have "of_int \<lfloor>x * 1000\<rfloor> = x * 1000" by (metis floor_of_int)
  with x show ?thesis by (simp add: pct_ok_def)
qed

lemma parse_pct_ok: "parse_pct raw field = Inr x \<Longrightarrow> pct_ok x"
  by (auto simp: parse_pct_def Let_def intro: three_decimals_pct split: if_split_asm option.split_asm dec_value.split_asm)

lemma parse_deposit_pct_ok: "parse_deposit_pct raw = Inr x \<Longrightarrow> pct_ok x"
  by (auto simp: parse_deposit_pct_def pct_ok_def [of 0] intro: three_decimals_pct split: if_split_asm option.split_asm dec_value.split_asm)

lemma parse_rules_ok:
  assumes "parse_rules b = Inr r"
  shows "(amount_ok (ru_signup_amount r) \<or> ru_signup_amount r = 0) \<and> (amount_ok (ru_kyc_amount r) \<or> ru_kyc_amount r = 0) \<and>
     pct_ok (ru_deposit_pct r) \<and> (\<forall>c. ru_deposit_cap r = Some c \<longrightarrow> amount_ok c)"
  using assms by (auto simp: parse_rules_def dest: parse_min_ok parse_deposit_pct_ok parse_amount_ok split: if_split_asm)

lemma ruled_ok:
  assumes "books_inv p"
  shows "books_inv (snd (put_rules ctx b p))"
proof -
  have ok: "rules_ok p" "methods_ok p" using books_invD(1) [OF assms] by (simp_all add: rows_ok_def)
  let ?p1 = "snd (bonus_rules (cx_org ctx) p)"
  note rd = rules_read(1-3) [OF ok(1) refl, of "cx_org ctx"]
  have "books_inv (?p1\<lparr>pt_rules := AList.update (cx_org ctx) r (pt_rules ?p1)\<rparr>)" if "parse_rules b = Inr r" for r
  proof (rule books_same [OF assms])
    show "same_books p (?p1\<lparr>pt_rules := AList.update (cx_org ctx) r (pt_rules ?p1)\<rparr>)" using rd(1) by (simp add: same_books_def)
    show "methods_ok (?p1\<lparr>pt_rules := AList.update (cx_org ctx) r (pt_rules ?p1)\<rparr>)" using rd(3) ok(2) by (simp add: methods_ok_def)
    have "set (AList.update (cx_org ctx) r al) \<subseteq> insert (cx_org ctx, r) (set al)" for al by (induction al) auto
    then show "rules_ok (?p1\<lparr>pt_rules := AList.update (cx_org ctx) r (pt_rules ?p1)\<rparr>)"
      using rd(2) parse_rules_ok [OF that] by (fastforce simp: rules_ok_def)
  qed
  then show "books_inv (snd (put_rules ctx b p))" using assms by (auto simp: put_rules_def case_prod_beta split: sum.split)
qed

lemma methods_stored:
  assumes "books_inv p" "same_books p q" "pt_rules q = pt_rules p" "\<forall>m \<in> set (pt_methods q). pct_ok (pm_fee_pct m)"
  shows "books_inv q"
proof (rule books_same [OF assms(1,2)])
  show "rules_ok q" using books_invD(1) [OF assms(1)] rules_ok_cong [OF assms(3)] by (simp add: rows_ok_def)
  show "methods_ok q" using assms(4) by (simp add: methods_ok_def)
qed

lemma methods_pct: "books_inv p \<Longrightarrow> m \<in> set (pt_methods p) \<Longrightarrow> pct_ok (pm_fee_pct m)"
  by (simp add: books_inv_def rows_ok_def methods_ok_def)

lemma audit_method_ok [simp]: "books_inv p \<Longrightarrow> books_inv (audit_method ctx mid p)"
  by (simp add: audit_method_def)

lemma method_added_ok:
  assumes "books_inv p"
  shows "books_inv (snd (create_method ctx b p))"
proof -
  have "books_inv (p\<lparr>pt_methods := pt_methods p @ [row], pt_next_method := pt_next_method p + 1\<rparr>)" if "pct_ok (pm_fee_pct row)" for row
    by (rule methods_stored [OF assms]) (use that methods_pct [OF assms] in \<open>auto simp: same_books_def\<close>)
  then show "books_inv (snd (create_method ctx b p))"
    using assms unfolding create_method_def Let_def by (auto dest!: parse_pct_ok split: sum.split)
qed

lemma set_field_pct:
  assumes "set_field x check upd r = Inr m" "\<And>m'. r = Inr m' \<Longrightarrow> pct_ok (pm_fee_pct m')"
    and "\<And>v y m'. x = Some v \<Longrightarrow> check v = Inr y \<Longrightarrow> pct_ok (pm_fee_pct m') \<Longrightarrow> pct_ok (pm_fee_pct (upd y m'))"
  shows "pct_ok (pm_fee_pct m)"
proof -
  from assms(1) obtain m' where m: "r = Inr m'" "(case x of None \<Rightarrow> Inr m' | Some v \<Rightarrow> then_reply (check v) (\<lambda>y. Inr (upd y m'))) = Inr m"
    unfolding set_field_def then_reply_Inr by blast
  show ?thesis using m(2) assms(2) [OF m(1)] assms(3) by (auto split: option.split_asm)
qed

lemma patch_pct: "patch_method b m = Inr row \<Longrightarrow> pct_ok (pm_fee_pct m) \<Longrightarrow> pct_ok (pm_fee_pct row)"
  unfolding patch_method_def by (erule set_field_pct; (simp add: parse_pct_ok)?)+

lemma method_changed_ok:
  assumes "books_inv p"
  shows "books_inv (snd (update_method ctx mid b p))"
proof -
  have "books_inv (p\<lparr>pt_methods := map (\<lambda>m. if pm_id m = mid \<and> pm_org m = cx_org ctx then row else m) (pt_methods p)\<rparr>)"
    if "pct_ok (pm_fee_pct row)" for row
    by (rule methods_stored [OF assms]) (use that methods_pct [OF assms] in \<open>auto simp: same_books_def\<close>)
  moreover have "pct_ok (pm_fee_pct row)" if "method_row (cx_org ctx) mid p = Inr cur" "patch_method b cur = Inr row" for cur row
    using that methods_pct [OF assms] patch_pct by (auto simp: method_row_def dest: find_SomeD split: option.split_asm)
  ultimately show "books_inv (snd (update_method ctx mid b p))"
    using assms unfolding update_method_def by (auto split: sum.split)
qed

lemma method_dropped_ok:
  assumes "books_inv p"
  shows "books_inv (snd (delete_method ctx mid p))"
proof -
  let ?d = "p\<lparr>pt_deposits := map (\<lambda>d. d\<lparr>dp_method := forget mid (dp_method d)\<rparr>) (pt_deposits p)\<rparr>"
  let ?q = "p\<lparr>pt_methods := filter (\<lambda>m. \<not> (pm_id m = mid \<and> pm_org m = cx_org ctx)) (pt_methods p),
    pt_deposits := map (\<lambda>d. d\<lparr>dp_method := forget mid (dp_method d)\<rparr>) (pt_deposits p)\<rparr>"
  have d: "books_inv ?d" by (rule method_forgotten [OF assms])
  have "books_inv ?q" by (rule methods_stored [OF d]) (use methods_pct [OF assms] in \<open>auto simp: same_books_def\<close>)
  then show "books_inv (snd (delete_method ctx mid p))" using assms by (auto simp: delete_method_def split: sum.split)
qed

section \<open>The invariant of the desk\<close>

definition desk_inv :: "portal \<times> flight list \<Rightarrow> bool" where
  "desk_inv s \<longleftrightarrow> books_inv (fst s) \<and> (\<forall>f \<in> set (snd s). flight_ok (fst s) f)"

lemma elsewhere_ok: "books_inv p \<Longrightarrow> elsewhere p q \<Longrightarrow> books_inv q"
  by (simp add: elsewhere_def books_aside)

lemma step_ok:
  assumes "desk_step s t" "desk_inv s" "roomy (fst t)"
  shows "desk_inv t"
proof -
  have l: "later (fst s) (fst t)" by (rule step_later [OF assms(1)])
  have inv: "books_inv (fst s)" using assms(2) by (simp add: desk_inv_def)
  have "books_inv (fst t) \<and> (\<forall>f \<in> set (snd t). f \<in> set (snd s) \<or> flight_ok (fst t) f)" using assms(1)
  proof cases
    case (launch p f q fs)
    have "books_inv p" using inv launch by simp
    with launched_ok [OF launch(3) this] elsewhere_ok [OF this] show ?thesis using launch(1,2) by simp
  next
    case (land f fs p now)
    have f: "flight_ok p f" "books_inv p" using assms(2) land by (simp_all add: desk_inv_def)
    have "roomy p" using roomy_later [OF assms(3) l] land by simp
    then have "books_inv (landed f now p)" by (rule landed_ok [OF f(2) _ f(1)])
    then show ?thesis unfolding land(1,2) fst_conv snd_conv by (auto dest: subsetD [OF set_remove1_subset])
  next
    case (other p q fs)
    then show ?thesis using inv elsewhere_ok [of p q] by simp
  qed (use inv in \<open>simp_all add: noticed_ok withdrawn_ok awarded_ok ruled_ok method_added_ok method_changed_ok method_dropped_ok account_forgotten\<close>)
  then show ?thesis using assms(2) flight_later [OF _ l] by (auto simp: desk_inv_def)
qed

interpretation desk: bounded_machine "\<lambda>s t. later (fst s) (fst t)" desk_step desk_inv "\<lambda>s. roomy (fst s)"
  by unfold_locales (auto intro: later_trans step_later roomy_later step_ok)

section \<open>Guarantees\<close>

text \<open>A portal without any money row yet; its rules and payment methods may be set up.\<close>

definition new_portal :: "portal \<Rightarrow> bool" where
  "new_portal p \<longleftrightarrow> pt_entries p = [] \<and> pt_deposits p = [] \<and> pt_withdrawals p = [] \<and> pt_transfers p = [] \<and> pt_bonuses p = [] \<and>
     rules_ok p \<and> methods_ok p"

lemma new_portal_ok: "new_portal p \<Longrightarrow> desk_inv (p, [])"
  by (simp add: new_portal_def desk_inv_def books_inv_def rows_ok_def numbered_rows_def figures)

lemma reached_ok:
  assumes "new_portal p" "desk_step\<^sup>*\<^sup>* (p, []) (q, fs)" "roomy q"
  shows "books_inv q"
  using desk.run_keeps [OF assms(2) new_portal_ok [OF assms(1)]] assms(3) by (simp add: desk_inv_def)

text \<open>
  C4. The ledger is the record of the settled requests. Whatever the investors and the desk do, and
  however their requests overlap, the wallet entries that refer to a request are exactly these: the
  credited amount of each confirmed deposit, the debit of each paid withdrawal, the two ends of each done
  transfer and the credit of each bonus, each once and with the owner and amount of its row.
\<close>

theorem ledger_settles_requests:
  assumes "new_portal p" "desk_step\<^sup>*\<^sup>* (p, []) (q, fs)" "roomy q"
  shows "postings q = settlements q"
  by (rule books_invD(2) [OF reached_ok [OF assms]])

text \<open>
  C5. No wallet is overdrawn. In every state the portal can reach, the available figure it computes for a
  wallet is its balance less what is promised out of it, and it is below zero by at most what the desk
  itself took out by hand.
\<close>

theorem wallets_never_overdrawn:
  assumes "new_portal p" "desk_step\<^sup>*\<^sup>* (p, []) (q, fs)" "roomy q" "w \<in> set WALLETS"
  shows "\<exists>a. available_in w g u q = Inr a \<and> a = bal g u w q - hold g u w q \<and> - clawed g u w q \<le> a"
proof -
  note inv = reached_ok [OF assms(1-3)]
  show ?thesis using available_exact [OF books_invD(1) [OF inv] assms(3,4), of g u] books_invD(3) [OF inv, of g u w]
    by (simp add: slack_def)
qed

lemma one_each:
  assumes "sorted_wrt R xs" "\<And>x y. P x \<Longrightarrow> P y \<Longrightarrow> \<not> R x y"
  shows "length (filter P xs) \<le> 1"
  using assms
proof (induction xs)
  case (Cons x xs)
  have "filter P xs = []" if "P x" using Cons.prems that by (auto simp: filter_empty_conv)
  then show ?case using Cons by auto
qed simp

text \<open>
  C24. A rule's bonus is paid once: an investor has at most one welcome and one verification bonus in an
  organisation, and a deposit has at most one deposit bonus, whatever is retried or decided twice.
\<close>

theorem rule_bonus_paid_once:
  assumes "new_portal p" "desk_step\<^sup>*\<^sup>* (p, []) (q, fs)" "roomy q" "source = ''signup'' \<or> source = ''kyc''"
  shows "length (filter (\<lambda>b. bo_org b = g \<and> bo_user b = u \<and> bo_source b = source) (pt_bonuses q)) \<le> 1 \<and>
    length (filter (\<lambda>b. bo_org b = g \<and> bo_source b = ''deposit'' \<and> bo_source_id b = Some d) (pt_bonuses q)) \<le> 1"
proof (intro conjI)
  have "sorted_wrt never_again (pt_bonuses q)" using books_invD(1) [OF reached_ok [OF assms(1-3)]] by (simp add: rows_ok_def)
  note one = one_each [OF this]
  show "length (filter (\<lambda>b. bo_org b = g \<and> bo_user b = u \<and> bo_source b = source) (pt_bonuses q)) \<le> 1"
    by (rule one) (use assms(4) in \<open>auto simp: never_again_def bonus_taken_def\<close>)
  show "length (filter (\<lambda>b. bo_org b = g \<and> bo_source b = ''deposit'' \<and> bo_source_id b = Some d) (pt_bonuses q)) \<le> 1"
    by (rule one) (auto simp: never_again_def bonus_taken_def)
qed


section \<open>A run\<close>

text \<open>A welcome bonus of 50 is awarded twice.\<close>

definition demo_new :: portal where
  "demo_new = \<lparr>pt_access = \<lparr>ac_users = [\<lparr>us_id = 7, us_email = ''joe'', us_session_version = 0, us_mpin_hash = None, us_failed = 0, us_locked_until = None\<rparr>],
     ac_members = [\<lparr>mb_org = 1, mb_user = 7, mb_role = ''investor''\<rparr>], ac_accounts = [], ac_auth_events = []\<rparr>, pt_entries = [], pt_deposits = [], pt_withdrawals = [],
     pt_transfers = [], pt_dests = [], pt_bonuses = [], pt_methods = [], pt_accounts = [], pt_files = [], pt_other_files = [],
     pt_account_requests = [], pt_settings = [],
     pt_rules = [(1, \<lparr>ru_signup = True, ru_signup_amount = 50, ru_kyc = False, ru_kyc_amount = 0, ru_deposit = False, ru_deposit_pct = 0, ru_deposit_cap = None\<rparr>)],
     pt_equity = [], pt_audit = [], pt_notices = [], pt_hourly = new_limiter 10 3600,
     pt_next_entry = 1, pt_next_deposit = 1, pt_next_withdrawal = 1, pt_next_transfer = 1, pt_next_dest = 1, pt_next_bonus = 1, pt_next_method = 1\<rparr>"

definition demo_award :: "portal \<Rightarrow> portal" where
  "demo_award p = snd (award_rule_bonus 1 7 ''signup'' (Some ''joe'') p)"

definition demo_paid :: portal where "demo_paid = demo_award (demo_award demo_new)"

lemma demo_run: "desk_step\<^sup>*\<^sup>* (demo_new, []) (demo_paid, [])"
proof -
  have "desk_step (p, []) (demo_award p, [])" for p unfolding demo_award_def by (rule desk_step.awarded) simp
  then show ?thesis unfolding demo_paid_def by (meson converse_rtranclp_into_rtranclp rtranclp.rtrancl_refl)
qed

lemmas demo_simps = demo_award_def award_rule_bonus_def rule_bonus_def bonus_rules_def pay_bonus_def bonus_taken_def settle_def
  has_entry_def insert_entry_def announce_bonus_def audit_control_def notify_def demo_new_def

lemma demo_first: "demo_award demo_new = demo_new\<lparr>pt_next_bonus := 2,
   pt_bonuses := [\<lparr>bo_id = 1, bo_org = 1, bo_user = 7, bo_source = ''signup'', bo_source_id = None, bo_amount = 50, bo_note = None, bo_by = None\<rparr>],
   pt_entries := [\<lparr>we_id = 1, we_org = 1, we_user = 7, we_wallet = ''credit'', we_amount = 50, we_kind = ''bonus'', we_ref = Some (''bonuses'', 1),
     we_note = None, we_by = None\<rparr>], pt_next_entry := 2, pt_audit := pt_audit (demo_award demo_new), pt_notices := pt_notices (demo_award demo_new)\<rparr>"
  by (simp add: demo_simps Let_def)

lemma demo_rows:
  "pt_entries demo_paid = [\<lparr>we_id = 1, we_org = 1, we_user = 7, we_wallet = ''credit'', we_amount = 50, we_kind = ''bonus'', we_ref = Some (''bonuses'', 1),
     we_note = None, we_by = None\<rparr>]"
  "pt_withdrawals demo_paid = []" "pt_transfers demo_paid = []"
  "pt_bonuses demo_paid = [\<lparr>bo_id = 1, bo_org = 1, bo_user = 7, bo_source = ''signup'', bo_source_id = None, bo_amount = 50, bo_note = None, bo_by = None\<rparr>]"
  unfolding demo_paid_def by (subst demo_first; simp add: demo_simps Let_def)+

lemma demo_reached: "new_portal demo_new" "roomy demo_paid"
  by (simp_all add: new_portal_def demo_new_def rules_ok_def methods_ok_def amount_ok_def whole_cents_def pct_ok_def roomy_def demo_rows)

theorem ledger_settles_requests_witness:
  "settlements demo_paid = {#(1, 7, ''credit'', 50, ''bonus'', (''bonuses'', 1))#}"
  using ledger_settles_requests [OF demo_reached(1) demo_run demo_reached(2)] by (simp add: postings_def demo_rows posting_of_def)

theorem wallets_never_overdrawn_witness: "available_in ''credit'' 1 7 demo_paid = Inr 50"
proof -
  have "''credit'' \<in> set WALLETS" by (simp add: WALLETS_def)
  from wallets_never_overdrawn [OF demo_reached(1) demo_run demo_reached(2) this, of 1 7]
  show ?thesis by (simp add: bal_def hold_def demo_rows entry_in_def)
qed

theorem rule_bonus_paid_once_witness: "length (filter (\<lambda>b. bo_org b = 1 \<and> bo_user b = 7 \<and> bo_source b = ''signup'') (pt_bonuses demo_paid)) = 1"
  using rule_bonus_paid_once [OF demo_reached(1) demo_run demo_reached(2), of "''signup''" 1 7 0] by (simp add: demo_rows)

text \<open>The desk adds 25 to the main wallet, which can then be withdrawn to the last cent.\<close>

definition demo_desk :: org_context where "demo_desk = \<lparr>cx_org = 1, cx_user = 9, cx_role = ''admin'', cx_email = ''desk''\<rparr>"
definition demo_investor :: org_context where "demo_investor = \<lparr>cx_org = 1, cx_user = 7, cx_role = ''investor'', cx_email = ''joe''\<rparr>"

definition demo_gift :: "string \<times> rat \<times> string option" where "demo_gift = (''main'', 25, Some ''gift'')"

definition demo_funded :: portal where "demo_funded = landed (Adjustment demo_desk 7 demo_gift) 0 demo_new"

lemma demo_gift_checked: "check_adjustment demo_desk 7 ''main'' (RText ''25'') ''gift'' demo_new = Inr demo_gift"
  unfolding demo_desk_def demo_gift_def demo_new_def by code_simp

lemma demo_funded_run: "desk_step\<^sup>*\<^sup>* (demo_new, []) (demo_funded, [])"
proof -
  have "desk_step (demo_new, []) (demo_new, [Adjustment demo_desk 7 demo_gift])"
    by (rule desk_step.launch) (rule launched.intros(9) [OF demo_gift_checked])
  moreover have "desk_step (demo_new, [Adjustment demo_desk 7 demo_gift]) (demo_funded, [])"
    using desk_step.land [of "Adjustment demo_desk 7 demo_gift" "[Adjustment demo_desk 7 demo_gift]" demo_new 0]
    by (simp add: demo_funded_def)
  ultimately show ?thesis by (meson converse_rtranclp_into_rtranclp rtranclp.rtrancl_refl)
qed

lemma demo_funded_rows:
  "map (\<lambda>e. (we_org e, we_user e, we_wallet e, we_amount e)) (pt_entries demo_funded) = [(1, 7, ''main'', 25)]"
  "pt_withdrawals demo_funded = []" "pt_transfers demo_funded = []" "pt_hourly demo_funded = new_limiter 10 3600"
  by (simp_all add: demo_funded_def demo_gift_def adjustment_commit_def adjust_def insert_entry_def audit_control_def notify_def demo_desk_def demo_new_def Let_def)

lemma demo_funded_figures: "roomy demo_funded" "bal 1 7 ''main'' demo_funded = 25" "hold 1 7 ''main'' demo_funded = 0"
proof -
  have e: "length (pt_entries demo_funded) = 1" using arg_cong [OF demo_funded_rows(1), of length] by simp
  then obtain x where x: "pt_entries demo_funded = [x]" by (auto simp: length_Suc_conv)
  show "roomy demo_funded" using e by (simp add: roomy_def demo_funded_rows)
  show "bal 1 7 ''main'' demo_funded = 25" using demo_funded_rows(1) by (simp add: bal_def x entry_in_def)
  show "hold 1 7 ''main'' demo_funded = 0" by (simp add: hold_def demo_funded_rows)
qed

definition demo_payout :: withdrawal_plan where
  "demo_payout = \<lparr>wl_amount = 25, wl_dest = \<lparr>de_id = 1, de_org = 1, de_user = 7, de_kind = ''crypto'', de_nickname = ''mine'', de_details = [],
     de_proof = None, de_status = ''approved'', de_decided_by = None, de_decision_note = None\<rparr>, wl_fee_pct = 0\<rparr>"


section \<open>Well-typed tables\<close>

text \<open>
  C36. The tables stay well-typed: in every reachable state the ids of each table are unique, every amount
  of a request is a positive whole number of cents with at most twelve integer digits, every ledger entry
  is a whole number of cents in one of the four wallets, a transfer names a source wallet exactly when its
  source is a wallet and never the same wallet twice, and a confirmed deposit carries what was credited.
\<close>

theorem tables_well_typed:
  assumes "new_portal p" "desk_step\<^sup>*\<^sup>* (p, []) (q, fs)" "roomy q"
  shows "distinct (map dp_id (pt_deposits q)) \<and> distinct (map wd_id (pt_withdrawals q)) \<and>
    distinct (map tr_id (pt_transfers q)) \<and> distinct (map bo_id (pt_bonuses q)) \<and>
    list_all (\<lambda>d. amount_ok (dp_amount d) \<and> (dp_status d \<noteq> ''confirmed'' \<or> (\<exists>c. dp_credited d = Some c \<and> amount_ok c))) (pt_deposits q) \<and>
    list_all (\<lambda>w. amount_ok (wd_amount w)) (pt_withdrawals q) \<and>
    list_all (\<lambda>t. amount_ok (tr_amount t) \<and> (tr_source_kind t = ''wallet'' \<longleftrightarrow> tr_source_wallet t \<noteq> None) \<and>
      (tr_source_wallet t = None \<or> tr_source_wallet t \<noteq> tr_target_wallet t)) (pt_transfers q) \<and>
    list_all (\<lambda>e. we_wallet e \<in> set WALLETS \<and> whole_cents (we_amount e) \<and> \<bar>we_amount e\<bar> < 10 ^ 12) (pt_entries q)"
  using books_invD(1) [OF reached_ok [OF assms]]
  by (auto simp: rows_ok_def numbered_rows_def list_all_iff deposit_ok_def transfer_ok_def entry_ok_def)

theorem tables_well_typed_witness: "we_wallet (hd (pt_entries demo_paid)) \<in> set WALLETS \<and> distinct (map bo_id (pt_bonuses demo_paid))"
  using tables_well_typed [OF demo_reached(1) demo_run demo_reached(2)] by (simp add: demo_rows)

end
