(* ===== verification/Py_Values.thy ===== *)
theory Py_Values
  imports Portal_Ledger
begin

text \<open>
  Python values as \<^verbatim>\<open>json.loads\<close> makes them, and the conversions the alert parsers apply to
  whatever they find in a field: truth, \<^verbatim>\<open>str\<close>, \<^verbatim>\<open>repr\<close>, \<^verbatim>\<open>float\<close>, \<^verbatim>\<open>int\<close>,
  \<^verbatim>\<open>len\<close>, iteration and \<^verbatim>\<open>dict.get\<close>. Text is ASCII.

  Where the rest of the development may take a float for the rational it denotes, a float that
  arrives from outside may also be an infinity or a NaN (JSON as Python reads it has both), may overflow
  and may underflow; \<open>pyfloat\<close> and \<open>to_double\<close> keep those.
\<close>

section \<open>Floats from outside\<close>

datatype pyfloat = Fin rat | Inf bool | Not_a_number

text \<open>The double nearest to a rational: subnormals below \<open>2\<^sup>-\<^sup>1\<^sup>0\<^sup>2\<^sup>2\<close>, an infinity from \<open>2\<^sup>1\<^sup>0\<^sup>2\<^sup>4\<close> on.\<close>

definition to_double :: "rat \<Rightarrow> pyfloat" where
  "to_double x =
     (if \<bar>x\<bar> < 1 / 2 ^ 1022 then Fin (of_int (round_half_even (x * 2 ^ 1074)) / 2 ^ 1074)
      else let y = fl x in if 2 ^ 1024 \<le> \<bar>y\<bar> then Inf (0 < y) else Fin y)"

text \<open>
  \<^verbatim>\<open>float(text)\<close>: an underscore is allowed between two digits only; then a sign, an infinity or NaN
  by name, or a number with optional fraction and exponent.
\<close>

fun underscores_ok :: "bool \<Rightarrow> string \<Rightarrow> bool" where
  "underscores_ok after_digit [] = True"
| "underscores_ok after_digit (c # cs) =
     (if c = CHR ''_'' then after_digit \<and> (case cs of d # _ \<Rightarrow> is_digit d | [] \<Rightarrow> False) \<and> underscores_ok False cs
      else underscores_ok (is_digit c) cs)"

definition float_of_text :: "string \<Rightarrow> pyfloat option" where
  "float_of_text s =
     (let t = py_strip s; (neg, body) = split_sign (filter (\<lambda>c. c \<noteq> CHR ''_'') t); name = py_lower body
      in if \<not> underscores_ok False t then None
         else if name = ''inf'' \<or> name = ''infinity'' then Some (Inf (\<not> neg))
         else if name = ''nan'' then Some Not_a_number
         else map_option (\<lambda>x. to_double (if neg then - x else x)) (number_of body))"

section \<open>Printing floats\<close>

text \<open>
  \<^verbatim>\<open>repr\<close> of a float: the fewest significant digits that read back as the same double, the nearest
  such number when there are two. \<open>decimal_point x\<close> is \<open>e\<close> with \<open>10\<^sup>e\<^sup>-\<^sup>1 \<le> x < 10\<^sup>e\<close>.
\<close>

definition decimal_point :: "rat \<Rightarrow> int" where
  "decimal_point x =
     (if 1 \<le> x then int (ndigits 10 (nat \<lfloor>x\<rfloor>))
      else let k = int (ndigits 10 (nat \<lfloor>1 / x\<rfloor>)) in if x = scale 10 (1 - k) then 2 - k else 1 - k)"

definition candidates :: "rat \<Rightarrow> int \<Rightarrow> nat \<Rightarrow> int list" where
  "candidates x e p =
     (let m = x * scale 10 (int p - e); lo = \<lfloor>m\<rfloor>; hi = \<lceil>m\<rceil>
      in filter (\<lambda>d. to_double (of_int d * scale 10 (e - int p)) = Fin x)
           (if m - of_int lo \<le> of_int hi - m then [lo, hi] else [hi, lo]))"

fun shortest :: "rat \<Rightarrow> int \<Rightarrow> nat \<Rightarrow> nat \<Rightarrow> int \<times> nat" where
  "shortest x e p 0 = (round_half_even (x * scale 10 (int p - e)), p)"
| "shortest x e p (Suc n) = (case candidates x e p of d # _ \<Rightarrow> (d, p) | [] \<Rightarrow> shortest x e (Suc p) n)"

definition strip_zeros :: "string \<Rightarrow> string" where
  "strip_zeros s = rev (dropWhile (\<lambda>c. c = CHR ''0'') (rev s))"

definition pad2 :: "nat \<Rightarrow> string" where
  "pad2 n = (if n < 10 then ''0'' @ str_nat n else str_nat n)"

definition repr_pos :: "rat \<Rightarrow> string" where
  "repr_pos x =
     (let e0 = decimal_point x; (d, p) = shortest x e0 1 16; text = str_nat (nat d);
          e = e0 + int (length text) - int p; ds = (case strip_zeros text of [] \<Rightarrow> ''0'' | t \<Rightarrow> t); n = int (length ds)
      in if e \<le> -4 \<or> 16 < e
         then [hd ds] @ (if tl ds = [] then [] else CHR ''.'' # tl ds) @ ''e'' @
              (if e - 1 < 0 then ''-'' else ''+'') @ pad2 (nat \<bar>e - 1\<bar>)
         else if e \<le> 0 then ''0.'' @ replicate (nat (- e)) (CHR ''0'') @ ds
         else if n \<le> e then ds @ replicate (nat (e - n)) (CHR ''0'') @ ''.0''
         else take (nat e) ds @ ''.'' @ drop (nat e) ds)"

definition repr_float :: "pyfloat \<Rightarrow> string" where
  "repr_float f = (case f of
      Fin x \<Rightarrow> if x = 0 then ''0.0'' else if x < 0 then CHR ''-'' # repr_pos (- x) else repr_pos x
    | Inf pos \<Rightarrow> if pos then ''inf'' else ''-inf''
    | Not_a_number \<Rightarrow> ''nan'')"

section \<open>Values\<close>

datatype jv =
    VNone | VBool bool | VInt int | VFloat pyfloat | VText string | VList "jv list" | VDict "(string \<times> jv) list"

definition py_true :: "jv \<Rightarrow> bool" where
  "py_true v = (case v of VNone \<Rightarrow> False | VBool b \<Rightarrow> b | VInt i \<Rightarrow> i \<noteq> 0 | VFloat f \<Rightarrow> f \<noteq> Fin 0 | VText s \<Rightarrow> s \<noteq> []
     | VList xs \<Rightarrow> xs \<noteq> [] | VDict d \<Rightarrow> d \<noteq> [])"

text \<open>\<^verbatim>\<open>a or b\<close>.\<close>

definition py_or :: "jv \<Rightarrow> jv \<Rightarrow> jv" where
  "py_or a b = (if py_true a then a else b)"

definition join_texts :: "string \<Rightarrow> string list \<Rightarrow> string" where
  "join_texts sep xs = (case xs of [] \<Rightarrow> [] | x # r \<Rightarrow> x @ concat (map (\<lambda>y. sep @ y) r))"

fun repr_value :: "jv \<Rightarrow> string" where
  "repr_value VNone = ''None''"
| "repr_value (VBool b) = (if b then ''True'' else ''False'')"
| "repr_value (VInt i) = str_int i"
| "repr_value (VFloat f) = repr_float f"
| "repr_value (VText s) = py_repr s"
| "repr_value (VList xs) = ''['' @ join_texts '', '' (map repr_value xs) @ '']''"
| "repr_value (VDict d) = ''{'' @ join_texts '', '' (map (\<lambda>(k, t). py_repr k @ '': '' @ t) (map (map_prod (\<lambda>k. k) repr_value) d)) @ ''}''"

definition py_str :: "jv \<Rightarrow> string" where
  "py_str v = (case v of VText s \<Rightarrow> s | _ \<Rightarrow> repr_value v)"

definition dget :: "(string \<times> jv) list \<Rightarrow> string \<Rightarrow> jv \<Rightarrow> jv" where
  "dget d k other = (case map_of d k of Some v \<Rightarrow> v | None \<Rightarrow> other)"

text \<open>\<^verbatim>\<open>float(v)\<close>; \<open>None\<close> when it raises \<^verbatim>\<open>TypeError\<close>, \<^verbatim>\<open>ValueError\<close> or \<^verbatim>\<open>OverflowError\<close>.\<close>

definition py_float :: "jv \<Rightarrow> pyfloat option" where
  "py_float v = (case v of
      VBool b \<Rightarrow> Some (Fin (if b then 1 else 0))
    | VInt i \<Rightarrow> (case to_double (of_int i) of Fin x \<Rightarrow> Some (Fin x) | _ \<Rightarrow> None)
    | VFloat f \<Rightarrow> Some f
    | VText s \<Rightarrow> float_of_text s
    | _ \<Rightarrow> None)"

text \<open>\<^verbatim>\<open>int(v)\<close>; an infinite float is an \<^verbatim>\<open>OverflowError\<close>, everything else that fails a \<^verbatim>\<open>TypeError\<close> or \<^verbatim>\<open>ValueError\<close>.\<close>

datatype int_error = BadInt | IntOverflow

definition int_of_value :: "jv \<Rightarrow> int_error + int" where
  "int_of_value v = (case v of
      VBool b \<Rightarrow> Inr (if b then 1 else 0)
    | VInt i \<Rightarrow> Inr i
    | VFloat (Fin x) \<Rightarrow> Inr (py_trunc x)
    | VFloat (Inf _) \<Rightarrow> Inl IntOverflow
    | VText s \<Rightarrow> (case py_int s of Some i \<Rightarrow> Inr i | None \<Rightarrow> Inl BadInt)
    | _ \<Rightarrow> Inl BadInt)"

text \<open>
  What a \<^verbatim>\<open>for\<close> loop sees of a value (a string its characters, a dict its keys), and \<^verbatim>\<open>len\<close>; \<open>None\<close> is a
  \<^verbatim>\<open>TypeError\<close>.
\<close>

definition py_iter :: "jv \<Rightarrow> jv list option" where
  "py_iter v = (case v of VList xs \<Rightarrow> Some xs | VText s \<Rightarrow> Some (map (\<lambda>c. VText [c]) s)
     | VDict d \<Rightarrow> Some (map (VText \<circ> fst) d) | _ \<Rightarrow> None)"

definition py_len :: "jv \<Rightarrow> nat option" where
  "py_len v = map_option length (py_iter v)"

text \<open>The strings inside a value, and whether PostgreSQL takes it as \<^verbatim>\<open>jsonb\<close>: no NaN, infinity or NUL.\<close>

fun texts_of :: "jv \<Rightarrow> string list" where
  "texts_of (VText s) = [s]"
| "texts_of (VList xs) = concat (map texts_of xs)"
| "texts_of (VDict d) = concat (map snd (map (map_prod (\<lambda>k. k) texts_of) d))"
| "texts_of _ = []"

definition no_nul :: "string \<Rightarrow> bool" where
  "no_nul s = (CHR 0x00 \<notin> set s)"

fun storable :: "jv \<Rightarrow> bool" where
  "storable (VFloat f) = (case f of Fin _ \<Rightarrow> True | _ \<Rightarrow> False)"
| "storable (VText s) = no_nul s"
| "storable (VList xs) = list_all (\<lambda>b. b) (map storable xs)"
| "storable (VDict d) = list_all (\<lambda>(k, b). no_nul k \<and> b) (map (map_prod (\<lambda>k. k) storable) d)"
| "storable _ = True"

definition py_upper :: "string \<Rightarrow> string" where
  "py_upper s = map upper_char s"

end
