(* ===== verification/Hook_Alerts.thy ===== *)
theory Hook_Alerts
  imports Py_Values
begin

text \<open>
  Turning an alert body into an order, without I/O: \<^verbatim>\<open>api/tradingview_alerts.py\<close> (tickers,
  numbers, \<^verbatim>\<open>parse_alert\<close>, the master's positions on a symbol) and
  \<^verbatim>\<open>api/vt_bridge_alerts.py\<close> (\<^verbatim>\<open>parse_vt_alert\<close>, the gate between the two timeframes).

  An \<^verbatim>\<open>AlertError\<close> is a value of \<open>alert_error\<close>, one constructor for each place that raises it; the
  wording of its message is left out. The body is a value as \<^verbatim>\<open>json.loads\<close> makes it
  (theory Py_Values).
\<close>

datatype alert_error =
    SymbolNotText | UnreadableSymbol | NotNumber string | NotPositivePrice string | NotJsonObject | UnknownAction
  | IdRequired | IdUnexpanded | LotsRequired | LotsNotPositive | NoLotCap | AboveCap rat rat | UnknownOrderType | PriceRequired string
  | UnknownRole | TimeframeRequired | UnknownBias | FieldRequired string | NotBool string | BarMsRequired

section \<open>Tickers\<close>

definition upper_ascii :: "char \<Rightarrow> bool" where
  "upper_ascii c = (65 \<le> (of_char c :: nat) \<and> (of_char c :: nat) \<le> 90)"

definition plain_char :: "char \<Rightarrow> bool" where
  "plain_char c = (upper_ascii c \<or> is_digit c)"

text \<open>\<^verbatim>\<open>re.compile(r"^[A-Z0-9_]+:")\<close>, replaced once by nothing.\<close>

definition drop_exchange :: "string \<Rightarrow> string" where
  "drop_exchange s =
     (let head = takeWhile (\<lambda>c. plain_char c \<or> c = CHR ''_'') s; rest = dropWhile (\<lambda>c. plain_char c \<or> c = CHR ''_'') s
      in case rest of c # cs \<Rightarrow> if head \<noteq> [] \<and> c = CHR '':'' then cs else s | [] \<Rightarrow> s)"

text \<open>
  \<^verbatim>\<open>re.compile(r"(\d*!|\.[A-Z]+)+$")\<close>: \<open>decorated s\<close> when the whole of \<open>s\<close> is a sequence of such
  decorations; the leftmost match is the first position from which on the text is decorated. Each
  decoration determines where it ends, so the greedy match is the only one.
\<close>

definition decoration :: "string \<Rightarrow> string option" where
  "decoration s = (case s of
      [] \<Rightarrow> None
    | c # cs \<Rightarrow>
        if c = CHR ''.'' then (if takeWhile upper_ascii cs = [] then None else Some (dropWhile upper_ascii cs))
        else case dropWhile is_digit s of d # ds \<Rightarrow> if d = CHR ''!'' then Some ds else None | [] \<Rightarrow> None)"

lemma decoration_shorter: "decoration s = Some r \<Longrightarrow> length r < length s"
  using length_dropWhile_le [of is_digit s] length_dropWhile_le [of upper_ascii "tl s"]
  by (auto simp: decoration_def split: list.split_asm if_split_asm)

function decorated :: "string \<Rightarrow> bool" where
  "decorated s = (case decoration s of None \<Rightarrow> False | Some r \<Rightarrow> r = [] \<or> decorated r)"
  by pat_completeness auto
termination
  by (relation "measure length") (auto dest: decoration_shorter)

declare decorated.simps [simp del]

fun drop_decorations :: "string \<Rightarrow> string" where
  "drop_decorations [] = []"
| "drop_decorations (c # cs) = (if decorated (c # cs) then [] else c # drop_decorations cs)"

text \<open>
  \<^verbatim>\<open>re.compile(r"^[A-Z0-9]{3,20}$")\<close>. Python's dollar sign also matches before a newline that ends the
  text.
\<close>

definition plain_name :: "string \<Rightarrow> bool" where
  "plain_name s = (3 \<le> length s \<and> length s \<le> 20 \<and> list_all plain_char s)"

definition allowed_ticker :: "string \<Rightarrow> bool" where
  "allowed_ticker s = (plain_name s \<or> s \<noteq> [] \<and> last s = CHR 0x0A \<and> plain_name (butlast s))"

definition normalise_ticker :: "jv \<Rightarrow> alert_error + string" where
  "normalise_ticker raw = (case raw of
      VText s \<Rightarrow> let ticker = drop_decorations (drop_exchange (py_upper (py_strip s)))
                 in if allowed_ticker ticker then Inr ticker else Inl UnreadableSymbol
    | _ \<Rightarrow> Inl SymbolNotText)"

section \<open>Numbers\<close>

definition alert_number :: "jv \<Rightarrow> string \<Rightarrow> alert_error + pyfloat" where
  "alert_number raw key = (case raw of
      VBool _ \<Rightarrow> Inl (NotNumber key)
    | _ \<Rightarrow> (case raw of VText s \<Rightarrow> if 32 < length s then Inl (NotNumber key) else
                            (case py_float raw of Some f \<Rightarrow> Inr f | None \<Rightarrow> Inl (NotNumber key))
            | _ \<Rightarrow> (case py_float raw of Some f \<Rightarrow> Inr f | None \<Rightarrow> Inl (NotNumber key))))"

text \<open>\<^verbatim>\<open>math.isfinite(value) and value > 0\<close>.\<close>

definition finite_positive :: "pyfloat \<Rightarrow> rat option" where
  "finite_positive f = (case f of Fin x \<Rightarrow> if 0 < x then Some x else None | _ \<Rightarrow> None)"

definition missing :: "jv \<Rightarrow> bool" where
  "missing v = (v = VNone \<or> v = VText [])"

definition alert_price :: "(string \<times> jv) list \<Rightarrow> string \<Rightarrow> alert_error + rat option" where
  "alert_price body key =
     (let raw = dget body key VNone in
      if missing raw then Inr None
      else case alert_number raw key of
        Inl e \<Rightarrow> Inl e
      | Inr f \<Rightarrow> (case finite_positive f of None \<Rightarrow> Inl (NotPositivePrice key) | Some x \<Rightarrow> Inr (Some x)))"

definition HARD_MAX_LOTS :: rat where "HARD_MAX_LOTS = 50"

text \<open>The size of an order: required, positive, under the workspace's cap and the ceiling.\<close>

definition capped_lots :: "(string \<times> jv) list \<Rightarrow> rat option \<Rightarrow> alert_error + rat" where
  "capped_lots body max_lots =
     (let raw = dget body ''lots'' VNone in
      if missing raw then Inl LotsRequired
      else case alert_number raw ''lots'' of
        Inl e \<Rightarrow> Inl e
      | Inr f \<Rightarrow>
          (case finite_positive f of
             None \<Rightarrow> Inl LotsNotPositive
           | Some lots \<Rightarrow>
               (case max_lots of
                  None \<Rightarrow> Inl NoLotCap
                | Some m \<Rightarrow>
                    if m \<le> 0 then Inl NoLotCap
                    else let cap = min m HARD_MAX_LOTS in if cap < lots then Inl (AboveCap lots cap) else Inr lots)))"

section \<open>Alerts\<close>

record alert =
  al_action :: string
  al_symbol :: string
  al_lots :: "rat option"
  al_stop_loss :: "rat option"
  al_take_profit :: "rat option"
  al_id :: string
  al_order_type :: string
  al_price :: "rat option"

definition ACTIONS :: "string list" where "ACTIONS = [''buy'', ''sell'', ''close'', ''cancel'']"
definition ORDER_TYPES :: "string list" where "ORDER_TYPES = [''market'', ''stop'', ''limit'']"

text \<open>\<^verbatim>\<open>re.compile(r"\{\{.*\}\}").search\<close>; a dot does not match a newline.\<close>

fun unexpanded :: "string \<Rightarrow> bool" where
  "unexpanded [] = False"
| "unexpanded (c # cs) =
     (startswith (c # cs) ''{{'' \<and> contains (takeWhile (\<lambda>x. x \<noteq> CHR 0x0A) (drop 2 (c # cs))) ''}}'' \<or> unexpanded cs)"

definition alert_id_of :: "(string \<times> jv) list \<Rightarrow> alert_error + string" where
  "alert_id_of body =
     (let raw = dget body ''id'' VNone; alert_id = (if raw = VNone then [] else take 128 (py_strip (py_str raw)))
      in if alert_id = [] then Inl IdRequired else if unexpanded alert_id then Inl IdUnexpanded else Inr alert_id)"

definition order_terms :: "(string \<times> jv) list \<Rightarrow> alert_error + string \<times> rat option" where
  "order_terms body =
     (let order_type = py_lower (py_strip (py_str (py_or (dget body ''order_type'' VNone) (VText ''market'')))) in
      if order_type \<notin> set ORDER_TYPES then Inl UnknownOrderType
      else case alert_price body ''price'' of
        Inl e \<Rightarrow> Inl e
      | Inr price \<Rightarrow>
          if order_type \<noteq> ''market'' \<and> price = None then Inl (PriceRequired order_type)
          else Inr (order_type, if order_type = ''market'' then None else price))"

definition parse_alert :: "jv \<Rightarrow> rat option \<Rightarrow> alert_error + alert" where
  "parse_alert v max_lots = (case v of
      VDict body \<Rightarrow>
        (let action = py_lower (py_strip (py_str (dget body ''action'' (VText [])))) in
         if action \<notin> set ACTIONS then Inl UnknownAction
         else case normalise_ticker (dget body ''symbol'' (dget body ''ticker'' VNone)) of
           Inl e \<Rightarrow> Inl e
         | Inr symbol \<Rightarrow>
         (case alert_id_of body of
            Inl e \<Rightarrow> Inl e
          | Inr alert_id \<Rightarrow>
            if action = ''close'' \<or> action = ''cancel''
            then Inr \<lparr>al_action = action, al_symbol = symbol, al_lots = None, al_stop_loss = None, al_take_profit = None,
                     al_id = alert_id, al_order_type = ''market'', al_price = None\<rparr>
            else case capped_lots body max_lots of
              Inl e \<Rightarrow> Inl e
            | Inr lots \<Rightarrow>
            (case alert_price body ''stop_loss'' of
               Inl e \<Rightarrow> Inl e
             | Inr stop_loss \<Rightarrow>
             (case alert_price body ''take_profit'' of
                Inl e \<Rightarrow> Inl e
              | Inr take_profit \<Rightarrow>
              (case order_terms body of
                 Inl e \<Rightarrow> Inl e
               | Inr (order_type, price) \<Rightarrow>
                   Inr \<lparr>al_action = action, al_symbol = symbol, al_lots = Some lots, al_stop_loss = stop_loss,
                        al_take_profit = take_profit, al_id = alert_id, al_order_type = order_type, al_price = price\<rparr>)))))
    | _ \<Rightarrow> Inl NotJsonObject)"

text \<open>
  The master's open positions on a symbol, from the copier's state. \<open>None\<close> is the \<^verbatim>\<open>TypeError\<close> of a
  \<^verbatim>\<open>for\<close> over something that is not iterable.
\<close>

definition held_on :: "string list \<Rightarrow> jv \<Rightarrow> bool" where
  "held_on wanted pos = (case pos of
      VDict p \<Rightarrow> (case dget p ''symbol'' VNone of VText name \<Rightarrow> py_upper name \<in> set wanted | _ \<Rightarrow> False) \<and>
                 dget p ''position_id'' VNone \<noteq> VNone
    | _ \<Rightarrow> False)"

definition find_master_positions :: "jv \<Rightarrow> string \<Rightarrow> string option \<Rightarrow> jv list option" where
  "find_master_positions state symbol broker_name = (case state of
      VDict d \<Rightarrow>
        (let wanted = py_upper symbol # (case broker_name of None \<Rightarrow> [] | Some b \<Rightarrow> if b = [] then [] else [py_upper b])
         in map_option (filter (held_on wanted)) (py_iter (py_or (dget d ''master_positions'' VNone) (VList []))))
    | _ \<Rightarrow> Some [])"

section \<open>The two-timeframe bridge\<close>

record vt_alert =
  vt_role :: string
  vt_symbol :: string
  vt_tf :: string
  vt_bias :: string
  vt_entry :: rat
  vt_stop :: rat
  vt_target :: rat
  vt_price :: rat
  vt_valid :: bool
  vt_trigger :: "bool option"
  vt_lots :: "rat option"
  vt_bar_ms :: int

record vt_snapshot =
  sn_bias :: string
  sn_stop :: rat
  sn_target :: rat
  sn_tf :: string
  sn_received_at :: rat

definition ROLES :: "string list" where "ROLES = [''htf'', ''ltf'']"
definition BIASES :: "string list" where "BIASES = [''long'', ''short'']"
definition STALE_MULTIPLIER :: int where "STALE_MULTIPLIER = 2"
definition TOL_PCT :: rat where "TOL_PCT = fl (2 / 100)"

definition required_price :: "(string \<times> jv) list \<Rightarrow> string \<Rightarrow> alert_error + rat" where
  "required_price body key =
     (let raw = dget body key VNone in
      if missing raw then Inl (FieldRequired key)
      else case alert_number raw key of
        Inl e \<Rightarrow> Inl e
      | Inr f \<Rightarrow> (case finite_positive f of None \<Rightarrow> Inl (NotPositivePrice key) | Some x \<Rightarrow> Inr x))"

definition bool_field :: "(string \<times> jv) list \<Rightarrow> string \<Rightarrow> alert_error + bool" where
  "bool_field body key = (case dget body key VNone of VBool b \<Rightarrow> Inr b | _ \<Rightarrow> Inl (NotBool key))"

text \<open>The four prices and the validity flag.\<close>

definition vt_levels :: "(string \<times> jv) list \<Rightarrow> alert_error + rat \<times> rat \<times> rat \<times> rat \<times> bool" where
  "vt_levels body =
     (case required_price body ''entry'' of Inl e \<Rightarrow> Inl e | Inr entry \<Rightarrow>
     (case required_price body ''stop'' of Inl e \<Rightarrow> Inl e | Inr stop \<Rightarrow>
     (case required_price body ''target'' of Inl e \<Rightarrow> Inl e | Inr target \<Rightarrow>
     (case required_price body ''price'' of Inl e \<Rightarrow> Inl e | Inr price \<Rightarrow>
     (case bool_field body ''valid'' of Inl e \<Rightarrow> Inl e | Inr valid \<Rightarrow> Inr (entry, stop, target, price, valid))))))"

text \<open>
  \<^verbatim>\<open>parse_vt_alert\<close>. The conversion of \<^verbatim>\<open>bar_ms\<close> catches \<^verbatim>\<open>TypeError\<close> and \<^verbatim>\<open>ValueError\<close> but not the
  \<^verbatim>\<open>OverflowError\<close> of an infinite float, which leaves the function: the outer \<open>None\<close>.
\<close>

definition parse_vt_alert :: "jv \<Rightarrow> rat option \<Rightarrow> (alert_error + vt_alert) option" where
  "parse_vt_alert v max_lots = (case v of
      VDict body \<Rightarrow>
        (let role = py_str (dget body ''role'' (VText [])) in
         if role \<notin> set ROLES then Some (Inl UnknownRole)
         else case normalise_ticker (dget body ''symbol'' (dget body ''ticker'' VNone)) of
           Inl e \<Rightarrow> Some (Inl e)
         | Inr symbol \<Rightarrow>
         let tf = py_str (dget body ''tf'' (VText [])) in
         if tf = [] then Some (Inl TimeframeRequired)
         else let bias = py_str (dget body ''bias'' (VText [])) in
         if bias \<notin> set BIASES then Some (Inl UnknownBias)
         else case vt_levels body of
           Inl e \<Rightarrow> Some (Inl e)
         | Inr (entry, stop, target, price, valid) \<Rightarrow>
         (case int_of_value (dget body ''bar_ms'' VNone) of
            Inl BadInt \<Rightarrow> Some (Inl BarMsRequired)
          | Inl IntOverflow \<Rightarrow> None
          | Inr bar_ms \<Rightarrow>
            let vt = \<lparr>vt_role = role, vt_symbol = symbol, vt_tf = tf, vt_bias = bias, vt_entry = entry, vt_stop = stop,
                      vt_target = target, vt_price = price, vt_valid = valid, vt_trigger = None, vt_lots = None, vt_bar_ms = bar_ms\<rparr> in
            if role = ''htf'' then Some (Inr vt)
            else case bool_field body ''trigger'' of
              Inl e \<Rightarrow> Some (Inl e)
            | Inr trigger \<Rightarrow>
            (case capped_lots body max_lots of
               Inl e \<Rightarrow> Some (Inl e)
             | Inr lots \<Rightarrow> Some (Inr (vt\<lparr>vt_trigger := Some trigger, vt_lots := Some lots\<rparr>)))))
    | _ \<Rightarrow> Some (Inl NotJsonObject))"

datatype gate_refusal = TimeframeNotEnabled | SetupNotValid | NoSnapshot | SnapshotStale | BiasMismatch | EntryOutsideBand

definition max_age_s :: "vt_snapshot \<Rightarrow> int" where
  "max_age_s htf = STALE_MULTIPLIER * (case py_int (sn_tf htf) of Some m \<Rightarrow> m | None \<Rightarrow> 0) * 60"

definition in_band :: "vt_snapshot \<Rightarrow> rat \<Rightarrow> bool" where
  "in_band htf entry =
     (let lo = min (sn_stop htf) (sn_target htf); hi = max (sn_stop htf) (sn_target htf); tol = fl (TOL_PCT * fl (hi - lo))
      in fl (lo - tol) \<le> entry \<and> entry \<le> fl (hi + tol))"

text \<open>\<^verbatim>\<open>check_gate\<close>: the first failure, \<open>None\<close> when every gate is passed.\<close>

definition check_gate :: "vt_snapshot option \<Rightarrow> vt_alert \<Rightarrow> string list \<Rightarrow> rat \<Rightarrow> gate_refusal option" where
  "check_gate htf ltf allowed_timeframes now =
     (if vt_tf ltf \<notin> set allowed_timeframes then Some TimeframeNotEnabled
      else if \<not> vt_valid ltf then Some SetupNotValid
      else case htf of
        None \<Rightarrow> Some NoSnapshot
      | Some h \<Rightarrow>
          if max_age_s h \<le> 0 \<or> of_int (max_age_s h) < fl (now - sn_received_at h) then Some SnapshotStale
          else if vt_bias ltf \<noteq> sn_bias h then Some BiasMismatch
          else if \<not> in_band h (vt_entry ltf) then Some EntryOutsideBand
          else None)"

end
