(* ===== verification/Webhooks.thy ===== *)
theory Webhooks
  imports Hook_Alerts Api_Access Repo_State
begin

text \<open>
  TradingView alerts placing the master's orders (\<^verbatim>\<open>api/routes/webhooks.py\<close>): the receiver with its
  front door, the duplicate guard and the per-minute cap, the calls to the copier with their failures
  classified for TradingView's resend rule, the receipts, and the operator's endpoints.

  What is not the program's own is an argument: SHA-256 (\<open>dr_sha\<close>, and \<open>dr_digest\<close> for the hash of the JSON
  text of a tuple), the JSON parser (\<open>dr_loads\<close>), the clocks, and the copier's answers (\<open>wi_answer\<close>). A
  receipt keeps the columns the code reads and the stored body; latency, lots and source address are for
  display and left out, as is the payload of the audit rows beyond action, receipt and outcome. A reason is
  a value of \<open>reason\<close> instead of its text.

  An alert is handled in two parts between which other alerts may be handled: \<open>front_door\<close> ends with the
  transaction that admits it (or with an answer), \<open>land\<close> talks to the copier and records the outcome.
\<close>

section \<open>State\<close>

datatype reason =
    NotJson | SecretMismatch | SwitchedOff | CopyingStopped | InDryRun | NoMaster | BadAlert alert_error
  | TooManyPerMinute int | SameAlert ident | OppositeHeld | TooManyOpen int | CopierSays string | Gate gate_refusal
  | NothingOpen | NothingResting | Unreachable string | Unconfirmed string | HtfNotValid | Informational

record webhook_row =
  wh_org :: ident
  wh_hook_id :: string
  wh_secret_hash :: "string option"
  wh_enabled :: bool
  wh_max_lots :: rat
  wh_max_per_minute :: int
  wh_max_open :: int
  wh_aliases :: "(string, string) dict"
  wh_vt_tfs :: "string list"

record receipt =
  rc_id :: ident
  rc_org :: ident
  rc_received_at :: rat
  rc_outcome :: string
  rc_reason :: "reason option"
  rc_action :: "string option"
  rc_symbol :: "string option"
  rc_fingerprint :: "string option"
  rc_alert_id :: "string option"
  rc_body :: "jv option"

record hooks =
  hk_db :: db
  hk_webhooks :: "webhook_row list"
  hk_receipts :: "receipt list"
  hk_next_receipt :: ident
  hk_snapshots :: "(ident \<times> string, vt_snapshot) dict"
  hk_limiter :: limiter

text \<open>An answer: the HTTP status, the word in its \<^verbatim>\<open>status\<close> field and the receipt it names.\<close>

record hook_reply =
  hr_status :: nat
  hr_word :: string
  hr_receipt :: "ident option"

definition hook_json :: "nat \<Rightarrow> string \<Rightarrow> ident option \<Rightarrow> hook_reply" where
  "hook_json status word receipt = \<lparr>hr_status = status, hr_word = word, hr_receipt = receipt\<rparr>"

text \<open>The server's answer to an exception nobody caught.\<close>

definition server_error :: hook_reply where "server_error = hook_json 500 [] None"

section \<open>Secrets\<close>

definition SECRET_PREFIX :: string where "SECRET_PREFIX = ''tvw_''"
definition SECRET_PREFIXES :: "string list" where "SECRET_PREFIXES = [SECRET_PREFIX, ''mt5_'']"

definition secret_shaped :: "string \<Rightarrow> bool" where
  "secret_shaped s = list_ex (startswith s) SECRET_PREFIXES"

fun redact :: "jv \<Rightarrow> jv" where
  "redact (VText s) = VText (if secret_shaped s then ''***'' else s)"
| "redact (VDict d) = VDict (map (map_prod (\<lambda>k. k) redact) d)"
| "redact (VList xs) = VList (map redact xs)"
| "redact v = v"

definition token_char :: "char \<Rightarrow> bool" where
  "token_char c = (upper_ascii c \<or> upper_ascii (upper_char c) \<or> is_digit c \<or> c = CHR ''_'' \<or> c = CHR ''-'')"

text \<open>\<^verbatim>\<open>_SECRET_SHAPED.sub("***", text)\<close>: a prefix and every token character behind it.\<close>

function scrub_secrets :: "string \<Rightarrow> string" where
  "scrub_secrets [] = []"
| "scrub_secrets (c # cs) =
     (if secret_shaped (c # cs) then ''***'' @ scrub_secrets (dropWhile token_char (drop 3 cs)) else c # scrub_secrets cs)"
  by pat_completeness auto
termination
proof (relation "measure length")
  fix c :: char and cs
  show "(dropWhile token_char (drop 3 cs), c # cs) \<in> measure length"
    using length_dropWhile_le [of token_char "drop 3 cs"] by simp
qed auto

definition is_printable :: "char \<Rightarrow> bool" where
  "is_printable c = (32 \<le> (of_char c :: nat) \<and> (of_char c :: nat) < 127)"

definition safe_preview :: "string \<Rightarrow> string" where
  "safe_preview text = map (\<lambda>c. if is_printable c then c else CHR '' '') (take 30 (scrub_secrets text))"

section \<open>Talking to the copier\<close>

record order_body =
  ob_account :: ident
  ob_symbol :: string
  ob_side :: string
  ob_order_type :: string
  ob_lots :: "rat option"
  ob_stop_price :: "rat option"
  ob_limit_price :: "rat option"
  ob_stop_loss :: "rat option"
  ob_take_profit :: "rat option"

datatype call = GetState ident | PostResync ident | PostClose ident jv | PostCancel ident jv | PostOrder order_body

text \<open>
  What comes of a call: the connection was never made; it failed later (a timeout, a broken response); or a
  response with its status, its JSON if it has one, and its text.
\<close>

datatype answer = NoConnection string | LostConnection string | Response nat "jv option" string

text \<open>
  The ways out of the part that acts: \<^verbatim>\<open>WebhookRejected\<close>, \<^verbatim>\<open>CopierDown\<close>, \<^verbatim>\<open>CopierUnknown\<close>, or another
  exception (its class), which nobody catches.
\<close>

datatype way_out = Rejected nat reason | Down string | Unknown string | Boom string

record wire =
  wi_clock :: "nat \<Rightarrow> rat"
  wi_answer :: "nat \<Rightarrow> call \<Rightarrow> answer"

text \<open>How often the clock was read, and the calls made so far; a computation over both that may leave early.\<close>

record talk =
  tk_reads :: nat
  tk_calls :: "call list"

type_synonym 'a act = "talk \<Rightarrow> (way_out + 'a) \<times> talk"

definition act_bind :: "'a act \<Rightarrow> ('a \<Rightarrow> 'b act) \<Rightarrow> 'b act" where
  "act_bind m f k = (case m k of (Inl w, k1) \<Rightarrow> (Inl w, k1) | (Inr x, k1) \<Rightarrow> f x k1)"

definition act_return :: "'a \<Rightarrow> 'a act" where "act_return x k = (Inr x, k)"

definition act_leave :: "way_out \<Rightarrow> 'a act" where "act_leave w k = (Inl w, k)"

definition act_option :: "string \<Rightarrow> 'a option \<Rightarrow> 'a act" where
  "act_option exc x = (case x of Some y \<Rightarrow> act_return y | None \<Rightarrow> act_leave (Boom exc))"

definition DEADLINE_S :: rat where "DEADLINE_S = 2"

definition remaining :: "wire \<Rightarrow> rat \<Rightarrow> rat act" where
  "remaining w t0 k =
     (let left = fl (DEADLINE_S - fl (wi_clock w (tk_reads k) - t0)); k1 = k\<lparr>tk_reads := Suc (tk_reads k)\<rparr>
      in if left \<le> 0 then (Inl (Down ''too slow, nothing sent''), k1) else (Inr left, k1))"

definition TRANSIENT_400 :: "string list" where
  "TRANSIENT_400 = [''no client for account'', ''not found'', ''not authorized'', ''no live price'', ''is starting'', ''not connected'']"

definition transient :: "string \<Rightarrow> bool" where
  "transient detail = list_ex (contains (py_lower detail)) TRANSIENT_400"

text \<open>\<^verbatim>\<open>_copier\<close>: the answer classified.\<close>

definition classify :: "answer \<Rightarrow> way_out + (string \<times> jv) list" where
  "classify a = (case a of
      NoConnection m \<Rightarrow> Inl (Down m)
    | LostConnection m \<Rightarrow> Inl (Unknown m)
    | Response status js text \<Rightarrow>
        if 500 \<le> status then Inl (Unknown (''copier answered '' @ str_nat status))
        else let payload = (case js of None \<Rightarrow> VDict [] | Some v \<Rightarrow> v) in
          if 400 \<le> status
          then (case payload of
                  VDict d \<Rightarrow>
                    let detail = py_str (py_or (dget d ''detail'' VNone) (py_or (dget d ''error'' VNone)
                                   (py_or (VText text) (VText ''copier error''))))
                    in if transient detail then Inl (Down detail) else Inl (Rejected 422 (CopierSays detail))
                | _ \<Rightarrow> Inl (Boom ''AttributeError''))
          else (case payload of VDict d \<Rightarrow> Inr d | _ \<Rightarrow> Inr []))"

definition copier_call :: "wire \<Rightarrow> call \<Rightarrow> (string \<times> jv) list act" where
  "copier_call w c k = (classify (wi_answer w (length (tk_calls k)) c), k\<lparr>tk_calls := tk_calls k @ [c]\<rparr>)"

text \<open>A call with the deadline checked as its timeout is worked out.\<close>

definition timed_call :: "wire \<Rightarrow> rat \<Rightarrow> call \<Rightarrow> (string \<times> jv) list act" where
  "timed_call w t0 c = act_bind (remaining w t0) (\<lambda>_. copier_call w c)"

section \<open>Acting on an alert\<close>

definition side_is :: "string \<Rightarrow> jv \<Rightarrow> bool" where
  "side_is side p = (case p of VDict d \<Rightarrow> py_upper (py_str (dget d ''side'' (VText []))) = side | _ \<Rightarrow> False)"

definition positions_on :: "(string \<times> jv) list \<Rightarrow> string \<Rightarrow> jv list act" where
  "positions_on state symbol = act_option ''TypeError'' (find_master_positions (VDict state) symbol None)"

text \<open>\<^verbatim>\<open>state.get("pending_orders") or []\<close>, and the orders on a symbol; an element without \<^verbatim>\<open>get\<close> raises.\<close>

definition pending_of :: "(string \<times> jv) list \<Rightarrow> jv" where
  "pending_of state = py_or (dget state ''pending_orders'' VNone) (VList [])"

fun resting_on :: "((string \<times> jv) list \<Rightarrow> string) \<Rightarrow> string \<Rightarrow> jv list \<Rightarrow> jv list act" where
  "resting_on name wanted [] = act_return []"
| "resting_on name wanted (v # vs) = (case v of
      VDict d \<Rightarrow> act_bind (resting_on name wanted vs) (\<lambda>r. act_return (if py_upper (name d) = wanted then v # r else r))
    | _ \<Rightarrow> act_leave (Boom ''AttributeError''))"

definition room_left :: "int \<Rightarrow> (string \<times> jv) list \<Rightarrow> unit act" where
  "room_left max_open state =
     act_bind (act_option ''TypeError'' (py_len (py_or (dget state ''master_positions'' VNone) (VList [])))) (\<lambda>m.
     act_bind (act_option ''TypeError'' (py_len (pending_of state))) (\<lambda>n.
     if max_open \<le> int (m + n) then act_leave (Rejected 422 (TooManyOpen max_open)) else act_return ()))"

fun close_each :: "wire \<Rightarrow> rat \<Rightarrow> ident \<Rightarrow> jv list \<Rightarrow> jv list act" where
  "close_each w t0 acct [] = act_return []"
| "close_each w t0 acct (v # vs) =
     act_bind (remaining w t0) (\<lambda>_.
     let pid = (case v of VDict d \<Rightarrow> dget d ''position_id'' VNone | _ \<Rightarrow> VNone) in
     act_bind (timed_call w t0 (PostClose acct pid)) (\<lambda>_.
     act_bind (close_each w t0 acct vs) (\<lambda>r. act_return (pid # r))))"

text \<open>A resync that does not answer in time is passed over.\<close>

definition resync :: "wire \<Rightarrow> rat \<Rightarrow> ident \<Rightarrow> unit act" where
  "resync w t0 org k = (case timed_call w t0 (PostResync org) k of
      (Inl (Unknown _), k1) \<Rightarrow> (Inr (), k1) | (Inl x, k1) \<Rightarrow> (Inl x, k1) | (Inr _, k1) \<Rightarrow> (Inr (), k1))"

definition close_positions :: "wire \<Rightarrow> rat \<Rightarrow> ident \<Rightarrow> ident \<Rightarrow> alert \<Rightarrow> jv list act" where
  "close_positions w t0 acct org al =
     act_bind (timed_call w t0 (GetState org)) (\<lambda>state.
     act_bind (positions_on state (al_symbol al)) (\<lambda>held.
     if held \<noteq> [] then close_each w t0 acct held
     else act_bind (resync w t0 org) (\<lambda>_.
          act_bind (timed_call w t0 (GetState org)) (\<lambda>state.
          act_bind (positions_on state (al_symbol al)) (close_each w t0 acct)))))"

fun cancel_each :: "wire \<Rightarrow> rat \<Rightarrow> ident \<Rightarrow> jv list \<Rightarrow> jv list act" where
  "cancel_each w t0 acct [] = act_return []"
| "cancel_each w t0 acct (v # vs) =
     act_bind (remaining w t0) (\<lambda>_.
     act_bind (act_option ''KeyError'' (case v of VDict d \<Rightarrow> map_of d ''order_id'' | _ \<Rightarrow> None)) (\<lambda>oid.
     act_bind (timed_call w t0 (PostCancel acct oid)) (\<lambda>_.
     act_bind (cancel_each w t0 acct vs) (\<lambda>r. act_return (oid # r)))))"

definition cancel_orders :: "wire \<Rightarrow> rat \<Rightarrow> ident \<Rightarrow> ident \<Rightarrow> alert \<Rightarrow> jv list act" where
  "cancel_orders w t0 acct org al =
     act_bind (timed_call w t0 (GetState org)) (\<lambda>state.
     act_bind (act_option ''TypeError'' (py_iter (pending_of state))) (\<lambda>orders.
     act_bind (resting_on (\<lambda>d. py_str (py_or (dget d ''symbol'' VNone) (VText []))) (py_upper (al_symbol al)) orders)
       (cancel_each w t0 acct)))"

definition order_of_alert :: "ident \<Rightarrow> alert \<Rightarrow> order_body" where
  "order_of_alert acct al =
     \<lparr>ob_account = acct, ob_symbol = al_symbol al, ob_side = py_upper (al_action al), ob_order_type = py_upper (al_order_type al),
      ob_lots = al_lots al, ob_stop_price = (if al_order_type al = ''stop'' then al_price al else None),
      ob_limit_price = (if al_order_type al = ''limit'' then al_price al else None),
      ob_stop_loss = al_stop_loss al, ob_take_profit = al_take_profit al\<rparr>"

text \<open>The deadline is checked once more right before the order, and again for its timeout.\<close>

definition send_order :: "wire \<Rightarrow> rat \<Rightarrow> order_body \<Rightarrow> (string \<times> reason option) act" where
  "send_order w t0 ob =
     act_bind (remaining w t0) (\<lambda>_. act_bind (timed_call w t0 (PostOrder ob)) (\<lambda>_. act_return (''accepted'', None)))"

definition place_order :: "wire \<Rightarrow> rat \<Rightarrow> ident \<Rightarrow> ident \<Rightarrow> int \<Rightarrow> alert \<Rightarrow> (string \<times> reason option) act" where
  "place_order w t0 acct org max_open al =
     act_bind (timed_call w t0 (GetState org)) (\<lambda>state.
     act_bind (positions_on state (al_symbol al)) (\<lambda>held.
     if list_ex (side_is (if al_action al = ''buy'' then ''SELL'' else ''BUY'')) held
     then act_leave (Rejected 422 OppositeHeld)
     else act_bind (room_left max_open state) (\<lambda>_. send_order w t0 (order_of_alert acct al))))"

definition act_on_alert :: "wire \<Rightarrow> rat \<Rightarrow> ident \<Rightarrow> ident \<Rightarrow> int \<Rightarrow> alert \<Rightarrow> (string \<times> reason option) act" where
  "act_on_alert w t0 acct org max_open al =
     (if al_action al = ''close''
      then act_bind (close_positions w t0 acct org al)
             (\<lambda>done. act_return (if done \<noteq> [] then (''accepted'', None) else (''nothing_to_close'', Some NothingOpen)))
      else if al_action al = ''cancel''
      then act_bind (cancel_orders w t0 acct org al)
             (\<lambda>done. act_return (if done \<noteq> [] then (''accepted'', None) else (''nothing_to_cancel'', Some NothingResting)))
      else place_order w t0 acct org max_open al)"

definition order_of_vt :: "ident \<Rightarrow> vt_alert \<Rightarrow> order_body" where
  "order_of_vt acct vt =
     \<lparr>ob_account = acct, ob_symbol = vt_symbol vt, ob_side = (if vt_bias vt = ''long'' then ''BUY'' else ''SELL''),
      ob_order_type = ''MARKET'', ob_lots = vt_lots vt, ob_stop_price = None, ob_limit_price = None,
      ob_stop_loss = Some (vt_stop vt), ob_take_profit = Some (vt_target vt)\<rparr>"

definition act_on_vt :: "wire \<Rightarrow> rat \<Rightarrow> ident \<Rightarrow> ident \<Rightarrow> int \<Rightarrow> vt_alert \<Rightarrow> (string \<times> reason option) act" where
  "act_on_vt w t0 acct org max_open vt =
     act_bind (timed_call w t0 (GetState org)) (\<lambda>state.
     act_bind (positions_on state (vt_symbol vt)) (\<lambda>held.
     act_bind (act_option ''TypeError'' (py_iter (pending_of state))) (\<lambda>orders.
     act_bind (resting_on (\<lambda>d. py_str (dget d ''symbol'' (VText []))) (vt_symbol vt) orders) (\<lambda>resting.
     if list_ex (side_is (if vt_bias vt = ''long'' then ''SELL'' else ''BUY'')) (held @ resting)
     then act_leave (Rejected 422 OppositeHeld)
     else act_bind (room_left max_open state) (\<lambda>_. send_order w t0 (order_of_vt acct vt))))))"

end
