(* ===== verification/Webhook_Door.thy ===== *)
theory Webhook_Door
  imports Webhooks
begin

text \<open>
  The receiver itself (\<^verbatim>\<open>create_webhooks_router\<close>) and the operator's endpoints
  (\<^verbatim>\<open>create_webhook_settings_router\<close>): recording, the front door in the order of the source, the admission
  under the advisory lock, and the landing of what was admitted. The advisory lock serialises admissions, so an
  admission is one step.
\<close>

section \<open>Recording\<close>

text \<open>The columns a receipt takes from an alert: action, symbol and id.\<close>

type_synonym columns = "string \<times> string \<times> string"

definition columns_of :: "alert \<Rightarrow> columns" where
  "columns_of al = (al_action al, al_symbol al, al_id al)"

definition vt_columns :: "vt_alert \<Rightarrow> columns" where
  "vt_columns vt = (vt_role vt, vt_symbol vt, str_int (vt_bar_ms vt))"

text \<open>
  \<^verbatim>\<open>_insert\<close>. PostgreSQL refuses a body or an id it can not store (a NaN or infinity as \<^verbatim>\<open>jsonb\<close>, a NUL in
  text): the statement raises and nothing is written.
\<close>

definition storable_row :: "jv option \<Rightarrow> columns option \<Rightarrow> bool" where
  "storable_row body cols = ((case body of None \<Rightarrow> True | Some v \<Rightarrow> storable v) \<and> (case cols of None \<Rightarrow> True | Some c \<Rightarrow> no_nul (snd (snd c))))"

definition insert_receipt ::
  "ident \<Rightarrow> rat \<Rightarrow> jv option \<Rightarrow> columns option \<Rightarrow> string \<Rightarrow> reason option \<Rightarrow> string option \<Rightarrow> hooks \<Rightarrow> ident option \<times> hooks" where
  "insert_receipt org now body cols outcome why fp s =
     (if storable_row body cols
      then let i = hk_next_receipt s in
        (Some i, s\<lparr>hk_next_receipt := i + 1, hk_receipts := hk_receipts s @
           [\<lparr>rc_id = i, rc_org = org, rc_received_at = now, rc_outcome = outcome, rc_reason = why,
             rc_action = map_option fst cols, rc_symbol = map_option (\<lambda>c. fst (snd c)) cols, rc_fingerprint = fp,
             rc_alert_id = map_option (\<lambda>c. snd (snd c)) cols, rc_body = body\<rparr>]\<rparr>)
      else (None, s))"

definition finish_receipt :: "ident \<Rightarrow> string \<Rightarrow> reason option \<Rightarrow> bool \<Rightarrow> hooks \<Rightarrow> hooks" where
  "finish_receipt rid outcome why clear_fp s =
     s\<lparr>hk_receipts := update_where (\<lambda>r. rc_id r = rid)
        (\<lambda>r. r\<lparr>rc_outcome := outcome, rc_reason := why, rc_fingerprint := (if clear_fp then None else rc_fingerprint r)\<rparr>)
        (hk_receipts s)\<rparr>"

definition hook_event :: "ident \<Rightarrow> ident option \<Rightarrow> string \<Rightarrow> ident \<Rightarrow> string \<Rightarrow> hooks \<Rightarrow> hooks" where
  "hook_event org acct severity rid outcome s =
     s\<lparr>hk_db := log_event ''control'' severity
        [(''action'', JStr ''webhook_alert''), (''receipt_id'', JInt rid), (''outcome'', JStr outcome)] acct None (Some org)
        (Some ''tradingview'') (hk_db s)\<rparr>"

definition record_rejection ::
  "ident \<Rightarrow> rat \<Rightarrow> jv option \<Rightarrow> columns option \<Rightarrow> nat \<Rightarrow> reason \<Rightarrow> hooks \<Rightarrow> hook_reply \<times> hooks" where
  "record_rejection org now body cols status why s =
     (case insert_receipt org now body cols ''rejected'' (Some why) None s of
        (None, s1) \<Rightarrow> (server_error, s1)
      | (Some rid, s1) \<Rightarrow>
          (hook_json status ''rejected'' (Some rid),
           hook_event org None (if status \<in> {401, 403, 429} then ''warning'' else ''info'') rid ''rejected'' s1))"

definition severity_of :: "string \<Rightarrow> string" where
  "severity_of outcome = (if outcome = ''accepted'' \<or> outcome = ''duplicate'' then ''info''
     else if outcome = ''unknown'' then ''error'' else ''warning'')"

definition hook_audit :: "ident \<Rightarrow> ident \<Rightarrow> string \<Rightarrow> ident \<Rightarrow> hooks \<Rightarrow> hooks" where
  "hook_audit org acct outcome rid = hook_event org (Some acct) (severity_of outcome) rid outcome"

definition record_vt_ok :: "ident \<Rightarrow> rat \<Rightarrow> jv \<Rightarrow> columns \<Rightarrow> reason option \<Rightarrow> hooks \<Rightarrow> hook_reply \<times> hooks" where
  "record_vt_ok org now body cols why s =
     (case insert_receipt org now (Some body) (Some cols) ''accepted'' why None s of
        (None, s1) \<Rightarrow> (server_error, s1)
      | (Some rid, s1) \<Rightarrow> (hook_json 200 ''accepted'' (Some rid), hook_event org None ''info'' rid ''accepted'' s1))"

section \<open>Duplicates and the cap\<close>

definition DEDUP_WINDOW_S :: rat where "DEDUP_WINDOW_S = 20"

definition counts :: "receipt \<Rightarrow> bool" where
  "counts r = (rc_outcome r = ''accepted'' \<or> rc_outcome r = ''unknown'')"

definition duplicates :: "ident \<Rightarrow> string \<Rightarrow> rat \<Rightarrow> hooks \<Rightarrow> receipt list" where
  "duplicates org fp now s = filter (\<lambda>r. rc_org r = org \<and> rc_fingerprint r = Some fp \<and> counts r \<and>
     now - DEDUP_WINDOW_S < rc_received_at r) (hk_receipts s)"

definition accepted_last_minute :: "ident \<Rightarrow> rat \<Rightarrow> hooks \<Rightarrow> int" where
  "accepted_last_minute org now s =
     int (length (filter (\<lambda>r. rc_org r = org \<and> counts r \<and> now - 60 < rc_received_at r) (hk_receipts s)))"

text \<open>The transaction under the advisory lock: an answer, or the receipt that holds the fingerprint from now on.\<close>

definition admit ::
  "ident \<Rightarrow> rat \<Rightarrow> jv \<Rightarrow> columns \<Rightarrow> string \<Rightarrow> int \<Rightarrow> hooks \<Rightarrow> (hook_reply + ident) \<times> hooks" where
  "admit org now body cols fp max_per_minute s =
     (let dups = duplicates org fp now s in
      if dups \<noteq> []
      then let dup = rc_id (last (sort_key rc_received_at dups)) in
        (case insert_receipt org now (Some body) (Some cols) ''duplicate'' (Some (SameAlert dup)) None s of
           (None, s1) \<Rightarrow> (Inl server_error, s1)
         | (Some rid, s1) \<Rightarrow> (Inl (hook_json 200 ''duplicate'' (Some rid)), s1))
      else if max_per_minute \<le> accepted_last_minute org now s
      then let (reply, s1) = record_rejection org now (Some body) (Some cols) 429 (TooManyPerMinute max_per_minute) s in (Inl reply, s1)
      else case insert_receipt org now (Some body) (Some cols) ''accepted'' None (Some fp) s of
        (None, s1) \<Rightarrow> (Inl server_error, s1)
      | (Some rid, s1) \<Rightarrow> (Inr rid, s1))"

definition fingerprint :: "(jv list \<Rightarrow> string) \<Rightarrow> ident \<Rightarrow> alert \<Rightarrow> string" where
  "fingerprint digest org al =
     (let number = (\<lambda>x. case x of None \<Rightarrow> VNone | Some r \<Rightarrow> VFloat (Fin r)) in
      digest [VInt org, VText (al_action al), VText (al_symbol al), number (al_lots al), number (al_stop_loss al),
        number (al_take_profit al), VText (al_order_type al), number (al_price al),
        if al_action al = ''cancel'' then VText (al_id al) else VNone])"

definition vt_fingerprint :: "(jv list \<Rightarrow> string) \<Rightarrow> ident \<Rightarrow> vt_alert \<Rightarrow> string" where
  "vt_fingerprint digest org vt =
     digest [VInt org, VText ''vt'', VText (vt_role vt), VText (vt_symbol vt), VText (vt_tf vt), VInt (vt_bar_ms vt)]"

section \<open>The front door\<close>

definition TRADINGVIEW_SOURCE_IPS :: "string list" where
  "TRADINGVIEW_SOURCE_IPS = [''52.89.214.238'', ''34.212.75.30'', ''54.218.53.128'', ''52.32.178.7'']"

fun split_all :: "char \<Rightarrow> string \<Rightarrow> string list" where
  "split_all sep [] = [[]]"
| "split_all sep (c # cs) = (if c = sep then [] # split_all sep cs
     else case split_all sep cs of p # ps \<Rightarrow> (c # p) # ps | [] \<Rightarrow> [[c]])"

definition source_ips :: "string \<Rightarrow> string list" where
  "source_ips extra = TRADINGVIEW_SOURCE_IPS @ filter (\<lambda>p. p \<noteq> []) (map py_strip (split_all (CHR '','') extra))"

definition MAX_BODY_BYTES :: nat where "MAX_BODY_BYTES = 4096"

record door =
  dr_sha :: "string \<Rightarrow> string"
  dr_digest :: "jv list \<Rightarrow> string"
  dr_loads :: "string \<Rightarrow> jv option"
  dr_extra :: string

text \<open>
  A request: its mailbox, body and source address; the reading of the monotonic clock as it came in and the one
  the rate limiter makes; the database's time and the wall clock's.
\<close>

record hook_request =
  rq_hook_id :: string
  rq_raw :: string
  rq_ip :: string
  rq_t0 :: rat
  rq_now :: rat
  rq_db_now :: rat
  rq_utc :: rat

datatype work = AlertWork alert | VtWork vt_alert

text \<open>An admitted alert on its way to the copier.\<close>

record hook_flight =
  ft_org :: ident
  ft_account :: ident
  ft_receipt :: ident
  ft_max_open :: int
  ft_t0 :: rat
  ft_work :: work

definition limit_call :: "string \<Rightarrow> int \<Rightarrow> rat \<Rightarrow> hooks \<Rightarrow> bool \<times> hooks" where
  "limit_call key n now s = (let (b, lm) = is_limited key (Some n) now (hk_limiter s) in (b, s\<lparr>hk_limiter := lm\<rparr>))"

definition find_hook :: "string \<Rightarrow> hooks \<Rightarrow> webhook_row option" where
  "find_hook hook_id s = find (\<lambda>h. wh_hook_id h = hook_id) (hk_webhooks s)"

definition master_of :: "ident \<Rightarrow> hooks \<Rightarrow> ident option" where
  "master_of org s = map_option a_account_id
     (find (\<lambda>a. a_org_id a = org \<and> a_role a = master \<and> a_enabled a) (db_accounts (hk_db s)))"

text \<open>The gates: the reason of the refusal with its status, or the master to trade on.\<close>

definition hook_gates :: "webhook_row \<Rightarrow> hooks \<Rightarrow> nat \<times> reason + ident" where
  "hook_gates h s =
     (if \<not> wh_enabled h then Inl (403, SwitchedOff)
      else case find (\<lambda>g. o_org_id g = wh_org h) (db_orgs (hk_db s)) of
        None \<Rightarrow> Inl (403, CopyingStopped)
      | Some g \<Rightarrow>
          if \<not> o_copying_enabled g then Inl (403, CopyingStopped)
          else if o_dry_run g then Inl (422, InDryRun)
          else case master_of (wh_org h) s of None \<Rightarrow> Inl (422, NoMaster) | Some m \<Rightarrow> Inr m)"

text \<open>
  The workspace's rename of a symbol. The alias is read again as a ticker; one that does not read raises an
  \<^verbatim>\<open>AlertError\<close> nobody catches there (\<open>None\<close>).
\<close>

definition renamed :: "webhook_row \<Rightarrow> string \<Rightarrow> string option" where
  "renamed h symbol = (case map_of (wh_aliases h) symbol of
      None \<Rightarrow> Some symbol
    | Some v \<Rightarrow> (case normalise_ticker (VText v) of Inl _ \<Rightarrow> None | Inr t \<Rightarrow> Some t))"

definition admit_alert ::
  "door \<Rightarrow> webhook_row \<Rightarrow> ident \<Rightarrow> hook_request \<Rightarrow> jv \<Rightarrow> hooks \<Rightarrow> (hook_reply + hook_flight) \<times> hooks" where
  "admit_alert dr h acct rq body s =
     (let org = wh_org h in
      case parse_alert body (Some (fl (wh_max_lots h))) of
        Inl e \<Rightarrow> let (reply, s1) = record_rejection org (rq_db_now rq) (Some (redact body)) None 422 (BadAlert e) s in (Inl reply, s1)
      | Inr al0 \<Rightarrow>
      (case renamed h (al_symbol al0) of
         None \<Rightarrow> (Inl server_error, s)
       | Some symbol \<Rightarrow>
         let al = al0\<lparr>al_symbol := symbol\<rparr> in
         (case admit org (rq_db_now rq) (redact body) (columns_of al) (fingerprint (dr_digest dr) org al) (wh_max_per_minute h) s of
            (Inl reply, s1) \<Rightarrow> (Inl reply, s1)
          | (Inr rid, s1) \<Rightarrow> (Inr \<lparr>ft_org = org, ft_account = acct, ft_receipt = rid, ft_max_open = wh_max_open h,
                                ft_t0 = rq_t0 rq, ft_work = AlertWork al\<rparr>, s1))))"

text \<open>The two bridge alerts: a reading of the higher timeframe is stored, a trigger of the lower one is gated.\<close>

definition store_htf :: "ident \<Rightarrow> rat \<Rightarrow> vt_alert \<Rightarrow> hooks \<Rightarrow> hooks option" where
  "store_htf org now vt s =
     (if no_nul (vt_tf vt)
      then Some (s\<lparr>hk_snapshots := AList.update (org, vt_symbol vt)
        \<lparr>sn_bias = vt_bias vt, sn_stop = vt_stop vt, sn_target = vt_target vt, sn_tf = vt_tf vt, sn_received_at = now\<rparr> (hk_snapshots s)\<rparr>)
      else None)"

definition vt_ltf ::
  "door \<Rightarrow> webhook_row \<Rightarrow> ident \<Rightarrow> hook_request \<Rightarrow> jv \<Rightarrow> vt_alert \<Rightarrow> hooks \<Rightarrow> (hook_reply + hook_flight) \<times> hooks" where
  "vt_ltf dr h acct rq body vt s =
     (let org = wh_org h in
      if vt_trigger vt \<noteq> Some True
      then let (reply, s1) = record_vt_ok org (rq_db_now rq) (redact body) (vt_columns vt) (Some Informational) s in (Inl reply, s1)
      else case admit org (rq_db_now rq) (redact body) (vt_columns vt) (vt_fingerprint (dr_digest dr) org vt) (wh_max_per_minute h) s of
        (Inl reply, s1) \<Rightarrow> (Inl reply, s1)
      | (Inr rid, s1) \<Rightarrow>
          (case check_gate (map_of (hk_snapshots s1) (org, vt_symbol vt)) vt (wh_vt_tfs h) (rq_utc rq) of
             Some g \<Rightarrow> (Inl (hook_json 422 ''rejected'' (Some rid)),
                        hook_audit org acct ''rejected'' rid (finish_receipt rid ''rejected'' (Some (Gate g)) True s1))
           | None \<Rightarrow> (Inr \<lparr>ft_org = org, ft_account = acct, ft_receipt = rid, ft_max_open = wh_max_open h,
                          ft_t0 = rq_t0 rq, ft_work = VtWork vt\<rparr>, s1)))"

definition vt_bridge ::
  "door \<Rightarrow> webhook_row \<Rightarrow> ident \<Rightarrow> hook_request \<Rightarrow> jv \<Rightarrow> hooks \<Rightarrow> (hook_reply + hook_flight) \<times> hooks" where
  "vt_bridge dr h acct rq body s =
     (let org = wh_org h in
      case parse_vt_alert body (Some (fl (wh_max_lots h))) of
        None \<Rightarrow> (Inl server_error, s)
      | Some (Inl e) \<Rightarrow> let (reply, s1) = record_rejection org (rq_db_now rq) (Some (redact body)) None 422 (BadAlert e) s in (Inl reply, s1)
      | Some (Inr vt0) \<Rightarrow>
      (case renamed h (vt_symbol vt0) of
         None \<Rightarrow> (Inl server_error, s)
       | Some symbol \<Rightarrow>
         let vt = vt0\<lparr>vt_symbol := symbol\<rparr> in
         if vt_role vt = ''htf''
         then (if vt_valid vt
               then (case store_htf org (rq_db_now rq) vt s of
                       None \<Rightarrow> (Inl server_error, s)
                     | Some s1 \<Rightarrow> let (reply, s2) = record_vt_ok org (rq_db_now rq) (redact body) (vt_columns vt) None s1 in (Inl reply, s2))
               else let (reply, s1) = record_vt_ok org (rq_db_now rq) (redact body) (vt_columns vt) (Some HtfNotValid) s in (Inl reply, s1))
         else vt_ltf dr h acct rq body vt s))"

definition has_role :: "jv \<Rightarrow> bool" where
  "has_role body = (case body of VDict d \<Rightarrow> map_of d ''role'' \<noteq> None | _ \<Rightarrow> False)"

definition secret_ok :: "door \<Rightarrow> webhook_row \<Rightarrow> jv \<Rightarrow> bool" where
  "secret_ok dr h body = (case body of
      VDict d \<Rightarrow> (case dget d ''secret'' VNone of VText p \<Rightarrow> wh_secret_hash h = Some (dr_sha dr p) | _ \<Rightarrow> False)
    | _ \<Rightarrow> False)"

definition handle_hook ::
  "door \<Rightarrow> hook_request \<Rightarrow> hooks \<Rightarrow> (hook_reply + hook_flight) \<times> hooks" where
  "handle_hook dr rq s =
     (case find_hook (rq_hook_id rq) s of
        None \<Rightarrow> (Inl (hook_json 404 [] None), snd (limit_call (''webhook-source:'' @ rq_ip rq) 30 (rq_now rq) s))
      | Some h \<Rightarrow>
      (case dr_loads dr (rq_raw rq) of
         None \<Rightarrow> let (reply, s1) = record_rejection (wh_org h) (rq_db_now rq) None None 422 NotJson s in (Inl reply, s1)
       | Some body \<Rightarrow>
         if \<not> secret_ok dr h body
         then let (limited, s1) = limit_call (''webhook-badsecret:'' @ rq_hook_id rq) 10 (rq_now rq) s in
           if limited then (Inl (hook_json 401 ''rejected'' None), s1)
           else let (reply, s2) = record_rejection (wh_org h) (rq_db_now rq) None None 401 SecretMismatch s1 in (Inl reply, s2)
         else case hook_gates h s of
           Inl (status, why) \<Rightarrow> let (reply, s1) = record_rejection (wh_org h) (rq_db_now rq) (Some (redact body)) None status why s in (Inl reply, s1)
         | Inr acct \<Rightarrow> if has_role body then vt_bridge dr h acct rq body s else admit_alert dr h acct rq body s))"

definition front_door :: "door \<Rightarrow> hook_request \<Rightarrow> hooks \<Rightarrow> (hook_reply + hook_flight) \<times> hooks" where
  "front_door dr rq s =
     (if MAX_BODY_BYTES < length (rq_raw rq) then (Inl (hook_json 413 ''rejected'' None), s)
      else if rq_ip rq \<notin> set (source_ips (dr_extra dr))
      then (Inl (hook_json 403 ''rejected'' None), snd (limit_call (''webhook-source:'' @ rq_ip rq) 30 (rq_now rq) s))
      else handle_hook dr rq s)"

section \<open>Landing\<close>

definition conclude :: "hook_flight \<Rightarrow> way_out + string \<times> reason option \<Rightarrow> hooks \<Rightarrow> hook_reply \<times> hooks" where
  "conclude f r s =
     (let rid = ft_receipt f;
          finish = (\<lambda>outcome why clear. hook_audit (ft_org f) (ft_account f) outcome rid (finish_receipt rid outcome why clear s))
      in case r of
        Inr (outcome, why) \<Rightarrow> (hook_json 200 outcome (Some rid), finish outcome why False)
      | Inl (Rejected status why) \<Rightarrow> (hook_json status ''rejected'' (Some rid), finish ''rejected'' (Some why) True)
      | Inl (Down m) \<Rightarrow> (hook_json 503 ''failed'' (Some rid), finish ''failed'' (Some (Unreachable m)) True)
      | Inl (Unknown m) \<Rightarrow> (hook_json 200 ''unknown'' (Some rid), finish ''unknown'' (Some (Unconfirmed m)) False)
      | Inl (Boom _) \<Rightarrow> (server_error, s))"

definition fly :: "wire \<Rightarrow> hook_flight \<Rightarrow> (string \<times> reason option) act" where
  "fly w f = (case ft_work f of
      AlertWork al \<Rightarrow> act_on_alert w (ft_t0 f) (ft_account f) (ft_org f) (ft_max_open f) al
    | VtWork vt \<Rightarrow> act_on_vt w (ft_t0 f) (ft_account f) (ft_org f) (ft_max_open f) vt)"

definition start_talk :: talk where "start_talk = \<lparr>tk_reads = 0, tk_calls = []\<rparr>"

text \<open>The calls a flight makes, and where it ends.\<close>

definition calls_of :: "wire \<Rightarrow> hook_flight \<Rightarrow> call list" where
  "calls_of w f = tk_calls (snd (fly w f start_talk))"

definition land :: "wire \<Rightarrow> hook_flight \<Rightarrow> hooks \<Rightarrow> hook_reply \<times> hooks" where
  "land w f s = conclude f (fst (fly w f start_talk)) s"

definition tradingview :: "door \<Rightarrow> wire \<Rightarrow> hook_request \<Rightarrow> hooks \<Rightarrow> hook_reply \<times> hooks" where
  "tradingview dr w rq s =
     (case front_door dr rq s of (Inl reply, s1) \<Rightarrow> (reply, s1) | (Inr f, s1) \<Rightarrow> land w f s1)"

section \<open>The operator's endpoints\<close>

definition rstrip_slash :: "string \<Rightarrow> string" where
  "rstrip_slash s = rev (dropWhile (\<lambda>c. c = CHR ''/'') (rev s))"

definition public_url :: "string option \<Rightarrow> string \<Rightarrow> string option" where
  "public_url public_origin hook_id =
     (let origin = rstrip_slash (py_strip (case public_origin of None \<Rightarrow> [] | Some v \<Rightarrow> split_head (CHR '','') v))
      in if startswith origin ''https://'' then Some (origin @ ''/api/webhooks/tradingview/'' @ hook_id) else None)"

definition audit_setting :: "org_context \<Rightarrow> string \<Rightarrow> payload \<Rightarrow> hooks \<Rightarrow> hooks" where
  "audit_setting ctx action detail s =
     s\<lparr>hk_db := log_event ''control'' ''info'' ((''action'', JStr action) # detail) None None (Some (cx_org ctx)) (Some (cx_email ctx)) (hk_db s)\<rparr>"

text \<open>The secret and the hook id are random tokens, given.\<close>

definition rotate_secret :: "(string \<Rightarrow> string) \<Rightarrow> org_context \<Rightarrow> string \<Rightarrow> string \<Rightarrow> hooks \<Rightarrow> (string \<times> string) \<times> hooks" where
  "rotate_secret sha ctx token new_hook s =
     (let secret = SECRET_PREFIX @ token; org = cx_org ctx in
      case find (\<lambda>h. wh_org h = org) (hk_webhooks s) of
        Some h \<Rightarrow> ((secret, wh_hook_id h), audit_setting ctx ''webhook_secret_rotated'' []
          (s\<lparr>hk_webhooks := update_where (\<lambda>h. wh_org h = org) (\<lambda>h. h\<lparr>wh_secret_hash := Some (sha secret)\<rparr>) (hk_webhooks s)\<rparr>))
      | None \<Rightarrow> ((secret, new_hook), audit_setting ctx ''webhook_secret_rotated'' []
          (s\<lparr>hk_webhooks := hk_webhooks s @ [\<lparr>wh_org = org, wh_hook_id = new_hook, wh_secret_hash = Some (sha secret), wh_enabled = False,
               wh_max_lots = 1 / 10, wh_max_per_minute = 10, wh_max_open = 3, wh_aliases = [], wh_vt_tfs = []\<rparr>]\<rparr>)))"

record webhook_update =
  wu_enabled :: "bool option"
  wu_max_lots :: "pyfloat option"
  wu_max_per_minute :: "int option"
  wu_max_open :: "int option"
  wu_aliases :: "(string, string) dict option"
  wu_vt_tfs :: "string list option"

definition VT_LTF_TIMEFRAME_CHOICES :: "string list" where
  "VT_LTF_TIMEFRAME_CHOICES = [''1'', ''3'', ''5'', ''15'', ''30'', ''45'', ''60'']"

text \<open>\<^verbatim>\<open>Decimal(str(x))\<close> stored as \<^verbatim>\<open>NUMERIC(10, 4)\<close>.\<close>

definition numeric4 :: "rat \<Rightarrow> rat" where
  "numeric4 x = of_int (round_half_up ((case number_of (repr_pos x) of Some d \<Rightarrow> d | None \<Rightarrow> x) * 10000)) / 10000"

definition check_enabled :: "string option \<Rightarrow> webhook_row \<Rightarrow> bool option \<Rightarrow> hooks \<Rightarrow> unit reply" where
  "check_enabled public_origin h enabled s =
     (if enabled \<noteq> Some True then Inr ()
      else if wh_secret_hash h = None then Inl (Http 400 ''generate a secret first'')
      else if master_of (wh_org h) s = None then Inl (Http 400 ''this workspace has no master account'')
      else if public_url public_origin ''x'' = None then Inl (Http 400 ''PUBLIC_ORIGIN must be an https:// origin'')
      else Inr ())"

definition check_max_lots :: "pyfloat option \<Rightarrow> rat option reply" where
  "check_max_lots m = (case m of
      None \<Rightarrow> Inr None
    | Some (Fin x) \<Rightarrow> if 0 < x \<and> x \<le> HARD_MAX_LOTS then Inr (Some x) else Inl (Http 400 ''max_lots must be between 0 and 50'')
    | Some _ \<Rightarrow> Inl (Http 400 ''max_lots must be between 0 and 50''))"

definition check_between :: "int \<Rightarrow> string \<Rightarrow> int option \<Rightarrow> unit reply" where
  "check_between hi msg n = (case n of None \<Rightarrow> Inr () | Some k \<Rightarrow> if 1 \<le> k \<and> k \<le> hi then Inr () else Inl (Http 400 msg))"

fun clean_aliases :: "(string, string) dict \<Rightarrow> alert_error + (string \<times> string) list" where
  "clean_aliases [] = Inr []"
| "clean_aliases ((k, v) # r) = (case normalise_ticker (VText k) of
      Inl e \<Rightarrow> Inl e
    | Inr k' \<Rightarrow> (case normalise_ticker (VText v) of
         Inl e \<Rightarrow> Inl e
       | Inr v' \<Rightarrow> (case clean_aliases r of Inl e \<Rightarrow> Inl e | Inr xs \<Rightarrow> Inr ((k', v') # xs))))"

definition check_aliases :: "(string, string) dict option \<Rightarrow> (string, string) dict option reply" where
  "check_aliases a = (case a of
      None \<Rightarrow> Inr None
    | Some d \<Rightarrow> (case clean_aliases d of Inl _ \<Rightarrow> Inl (Http 400 ''symbol_aliases'') | Inr xs \<Rightarrow> Inr (Some (dict_of xs))))"

definition check_tfs :: "string list option \<Rightarrow> string list option reply" where
  "check_tfs t = (case t of
      None \<Rightarrow> Inr None
    | Some tfs \<Rightarrow> if list_all (\<lambda>x. x \<in> set VT_LTF_TIMEFRAME_CHOICES) tfs then Inr (Some (remdups tfs))
                  else Inl (Http 400 ''vt_ltf_timeframes''))"

definition apply_update :: "webhook_update \<Rightarrow> rat option \<Rightarrow> (string, string) dict option \<Rightarrow> string list option \<Rightarrow> webhook_row \<Rightarrow> webhook_row" where
  "apply_update u lots aliases tfs h =
     h\<lparr>wh_enabled := (case wu_enabled u of None \<Rightarrow> wh_enabled h | Some b \<Rightarrow> b),
       wh_max_lots := (case lots of None \<Rightarrow> wh_max_lots h | Some x \<Rightarrow> numeric4 x),
       wh_max_per_minute := (case wu_max_per_minute u of None \<Rightarrow> wh_max_per_minute h | Some n \<Rightarrow> n),
       wh_max_open := (case wu_max_open u of None \<Rightarrow> wh_max_open h | Some n \<Rightarrow> n),
       wh_aliases := (case aliases of None \<Rightarrow> wh_aliases h | Some d \<Rightarrow> d),
       wh_vt_tfs := (case tfs of None \<Rightarrow> wh_vt_tfs h | Some x \<Rightarrow> x)\<rparr>"

text \<open>
  Every field is checked before the one UPDATE. A cap that rounds to zero at four decimals violates the column's
  CHECK. The list of timeframes is a set to every reader, so its order is left out.
\<close>

definition update_webhook :: "string option \<Rightarrow> org_context \<Rightarrow> webhook_update \<Rightarrow> hooks \<Rightarrow> unit reply \<times> hooks" where
  "update_webhook public_origin ctx u s =
     (case find (\<lambda>h. wh_org h = cx_org ctx) (hk_webhooks s) of
        None \<Rightarrow> (Inl (Http 400 ''generate a secret first''), s)
      | Some h \<Rightarrow>
      (case check_enabled public_origin h (wu_enabled u) s of Inl e \<Rightarrow> (Inl e, s) | Inr _ \<Rightarrow>
      (case check_max_lots (wu_max_lots u) of Inl e \<Rightarrow> (Inl e, s) | Inr lots \<Rightarrow>
      (case check_between 60 ''max_per_minute must be between 1 and 60'' (wu_max_per_minute u) of Inl e \<Rightarrow> (Inl e, s) | Inr _ \<Rightarrow>
      (case check_between 50 ''max_open_positions must be between 1 and 50'' (wu_max_open u) of Inl e \<Rightarrow> (Inl e, s) | Inr _ \<Rightarrow>
      (case check_aliases (wu_aliases u) of Inl e \<Rightarrow> (Inl e, s) | Inr aliases \<Rightarrow>
      (case check_tfs (wu_vt_tfs u) of Inl e \<Rightarrow> (Inl e, s) | Inr tfs \<Rightarrow>
         let h' = apply_update u lots aliases tfs h;
             changed = ((\<exists>b. wu_enabled u = Some b \<and> b \<noteq> wh_enabled h) \<or> lots \<noteq> None \<or> wu_max_per_minute u \<noteq> None \<or>
                        wu_max_open u \<noteq> None \<or> aliases \<noteq> None \<or> tfs \<noteq> None)
         in if wh_max_lots h' \<le> 0 \<and> lots \<noteq> None then (Inl (Crash (CheckViolation ''max_lots'')), s)
            else let s1 = s\<lparr>hk_webhooks := update_where (\<lambda>x. wh_org x = cx_org ctx) (apply_update u lots aliases tfs) (hk_webhooks s)\<rparr>
                 in (Inr (), if changed then audit_setting ctx ''webhook_settings_changed'' [] s1 else s1))))))))"

definition list_risk_rules :: "org_context \<Rightarrow> hooks \<Rightarrow> risk_rule list" where
  "list_risk_rules ctx s = filter (\<lambda>r. rr_org_id r = cx_org ctx) (db_risk_rules (hk_db s))"

definition put_risk_rule :: "org_context \<Rightarrow> string \<Rightarrow> risk_rule \<Rightarrow> hooks \<Rightarrow> risk_rule reply \<times> hooks" where
  "put_risk_rule ctx symbol body s =
     (case normalise_ticker (VText symbol) of
        Inl _ \<Rightarrow> (Inl (Http 400 ''symbol''), s)
      | Inr clean \<Rightarrow>
          if rr_trailing_enabled body \<and> (rr_trail_start_points body = None \<or> rr_trail_step_points body = None)
          then (Inl (Http 400 ''trail_start_points and trail_step_points are required when trailing_enabled''), s)
          else let rule = body\<lparr>rr_org_id := cx_org ctx, rr_symbol := clean\<rparr>;
                   same = (\<lambda>r. rr_org_id r = cx_org ctx \<and> rr_symbol r = clean);
                   rules = db_risk_rules (hk_db s);
                   d = (hk_db s)\<lparr>db_risk_rules := (if list_ex same rules then update_where same (\<lambda>_. rule) rules else rules @ [rule])\<rparr>
               in (Inr rule, audit_setting ctx ''risk_rule_set'' [(''symbol'', JStr clean)] (s\<lparr>hk_db := d\<rparr>)))"

definition delete_risk_rule :: "org_context \<Rightarrow> string \<Rightarrow> hooks \<Rightarrow> unit reply \<times> hooks" where
  "delete_risk_rule ctx symbol s =
     (case normalise_ticker (VText symbol) of
        Inl _ \<Rightarrow> (Inl (Http 400 ''symbol''), s)
      | Inr clean \<Rightarrow>
          let d = (hk_db s)\<lparr>db_risk_rules := filter (\<lambda>r. \<not> (rr_org_id r = cx_org ctx \<and> rr_symbol r = clean)) (db_risk_rules (hk_db s))\<rparr>
          in (Inr (), audit_setting ctx ''risk_rule_deleted'' [(''symbol'', JStr clean)] (s\<lparr>hk_db := d\<rparr>)))"

end
