(* ===== verification/Webhook_Talk.thy ===== *)
theory Webhook_Talk
  imports Webhook_Door
begin

text \<open>
  What a flight says to the copier. Every computation of the acting part only adds calls (\<open>quiet\<close>: none of
  them an order); the two that place an order make it their last call, at most one, before the deadline, and
  their result is the classified answer to it (\<open>ends_with_order\<close>).
\<close>

section \<open>Calls that are no orders\<close>

definition is_order :: "call \<Rightarrow> bool" where
  "is_order c = (case c of PostOrder _ \<Rightarrow> True | _ \<Rightarrow> False)"

lemma is_order_simps [simp]:
  "\<not> is_order (GetState g)" "\<not> is_order (PostResync g)" "\<not> is_order (PostClose a v)" "\<not> is_order (PostCancel a v)" "is_order (PostOrder ob)"
  by (simp_all add: is_order_def)

definition no_orders :: "call list \<Rightarrow> bool" where
  "no_orders cs = list_all (\<lambda>c. \<not> is_order c) cs"

lemma no_orders_simps [simp]: "no_orders []" "no_orders (xs @ ys) \<longleftrightarrow> no_orders xs \<and> no_orders ys"
  "no_orders [c] \<longleftrightarrow> \<not> is_order c"
  by (simp_all add: no_orders_def)

definition quiet :: "'a act \<Rightarrow> bool" where
  "quiet m \<longleftrightarrow> (\<forall>k. \<exists>new. tk_calls (snd (m k)) = tk_calls k @ new \<and> no_orders new)"

named_theorems quiet_intros \<open>computations that place no order\<close>

lemma quietI: "(\<And>k. \<exists>new. tk_calls (snd (m k)) = tk_calls k @ new \<and> no_orders new) \<Longrightarrow> quiet m"
  by (simp add: quiet_def)

lemma quiet_still: "(\<And>k. tk_calls (snd (m k)) = tk_calls k) \<Longrightarrow> quiet m"
  by (rule quietI) simp

lemma quiet_bind [quiet_intros]:
  assumes "quiet m" "\<And>x. quiet (f x)"
  shows "quiet (act_bind m f)"
proof (rule quietI)
  fix k
  obtain r k1 where m: "m k = (r, k1)" by (cases "m k")
  obtain new where new: "tk_calls k1 = tk_calls k @ new" "no_orders new"
    using assms(1) m by (auto simp: quiet_def dest: spec [of _ k])
  show "\<exists>new. tk_calls (snd (act_bind m f k)) = tk_calls k @ new \<and> no_orders new"
  proof (cases r)
    case (Inl w)
    then show ?thesis using m new by (simp add: act_bind_def)
  next
    case (Inr x)
    obtain new' where "tk_calls (snd (f x k1)) = tk_calls k1 @ new'" "no_orders new'"
      using assms(2) [of x] by (auto simp: quiet_def dest: spec [of _ k1])
    then show ?thesis using m new Inr by (simp add: act_bind_def)
  qed
qed

lemma quiet_basic [quiet_intros]:
  "quiet (act_return x)" "quiet (act_leave x0)" "quiet (act_option e y)" "quiet (remaining w t0)"
  by (auto intro!: quiet_still simp: act_return_def act_leave_def act_option_def remaining_def Let_def split: option.split)

lemma quiet_call [quiet_intros]: "\<not> is_order c \<Longrightarrow> quiet (copier_call w c)"
  by (rule quietI) (simp add: copier_call_def)

lemma quiet_timed [quiet_intros]: "\<not> is_order c \<Longrightarrow> quiet (timed_call w t0 c)"
  unfolding timed_call_def by (intro quiet_intros)

lemma quiet_if [quiet_intros]: "quiet a \<Longrightarrow> quiet b \<Longrightarrow> quiet (if c then a else b)"
  by simp

lemma quiet_resting [quiet_intros]: "quiet (resting_on name wanted vs)"
  by (induction name wanted vs rule: resting_on.induct) (auto intro!: quiet_intros split: jv.split)

lemma quiet_room [quiet_intros]: "quiet (room_left n d)"
  unfolding room_left_def by (intro quiet_intros)

lemma quiet_positions [quiet_intros]: "quiet (positions_on d symbol)"
  unfolding positions_on_def by (intro quiet_intros)

lemma quiet_resync [quiet_intros]: "quiet (resync w t0 g)"
proof (rule quietI)
  fix k
  have "quiet (timed_call w t0 (PostResync g))" by (rule quiet_timed) simp
  then obtain new where "tk_calls (snd (timed_call w t0 (PostResync g) k)) = tk_calls k @ new" "no_orders new"
    unfolding quiet_def by blast
  moreover have "snd (resync w t0 g k) = snd (timed_call w t0 (PostResync g) k)"
    by (auto simp: resync_def split: prod.split sum.split way_out.split)
  ultimately show "\<exists>new. tk_calls (snd (resync w t0 g k)) = tk_calls k @ new \<and> no_orders new" by auto
qed

lemma quiet_close_each [quiet_intros]: "quiet (close_each w t0 a vs)"
  by (induction w t0 a vs rule: close_each.induct) (auto intro!: quiet_intros simp: Let_def)

lemma quiet_cancel_each [quiet_intros]: "quiet (cancel_each w t0 a vs)"
  by (induction w t0 a vs rule: cancel_each.induct) (auto intro!: quiet_intros)

lemma quiet_close [quiet_intros]: "quiet (close_positions w t0 a g al)"
  unfolding close_positions_def by (auto intro!: quiet_intros)

lemma quiet_cancel [quiet_intros]: "quiet (cancel_orders w t0 a g al)"
  unfolding cancel_orders_def by (auto intro!: quiet_intros)

section \<open>The order comes last\<close>

definition order_result :: "answer \<Rightarrow> way_out + string \<times> reason option" where
  "order_result a = (case classify a of Inl x \<Rightarrow> Inl x | Inr _ \<Rightarrow> Inr (''accepted'', None))"

definition ends_with_order :: "wire \<Rightarrow> rat \<Rightarrow> order_body \<Rightarrow> (string \<times> reason option) act \<Rightarrow> bool" where
  "ends_with_order w t0 ob m \<longleftrightarrow> (\<forall>k. \<exists>new. tk_calls (snd (m k)) = tk_calls k @ new \<and>
     (no_orders new \<or> (\<exists>pre n. new = pre @ [PostOrder ob] \<and> no_orders pre \<and>
        fst (m k) = order_result (wi_answer w (length (tk_calls k @ pre)) (PostOrder ob)) \<and> wi_clock w n < t0 + 2)))"

lemma quiet_ends: "quiet m \<Longrightarrow> ends_with_order w t0 ob m"
  unfolding quiet_def ends_with_order_def by blast

lemma ends_with_orderD:
  assumes "ends_with_order w t0 ob m"
  obtains new where "tk_calls (snd (m k)) = tk_calls k @ new" "no_orders new"
  | pre n where "tk_calls (snd (m k)) = tk_calls k @ pre @ [PostOrder ob]" "no_orders pre"
      "fst (m k) = order_result (wi_answer w (length (tk_calls k @ pre)) (PostOrder ob))" "wi_clock w n < t0 + 2"
  using assms unfolding ends_with_order_def by (metis append.assoc)

lemma ends_bind:
  assumes "quiet m" "\<And>x. ends_with_order w t0 ob (f x)"
  shows "ends_with_order w t0 ob (act_bind m f)"
  unfolding ends_with_order_def
proof
  fix k
  obtain r k1 where m: "m k = (r, k1)" by (cases "m k")
  obtain new where new: "tk_calls k1 = tk_calls k @ new" "no_orders new"
    using assms(1) m by (auto simp: quiet_def dest: spec [of _ k])
  show "\<exists>new. tk_calls (snd (act_bind m f k)) = tk_calls k @ new \<and>
     (no_orders new \<or> (\<exists>pre n. new = pre @ [PostOrder ob] \<and> no_orders pre \<and>
        fst (act_bind m f k) = order_result (wi_answer w (length (tk_calls k @ pre)) (PostOrder ob)) \<and> wi_clock w n < t0 + 2))"
  proof (cases r)
    case (Inl x)
    then show ?thesis using m new by (auto simp: act_bind_def)
  next
    case (Inr x)
    have b: "act_bind m f k = f x k1" using m Inr by (simp add: act_bind_def)
    from assms(2) [of x] show ?thesis
    proof (cases rule: ends_with_orderD [where k = k1])
      case (1 new')
      then show ?thesis using new by (intro exI [of _ "new @ new'"]) (simp add: b)
    next
      case (2 pre n)
      then show ?thesis using new
        by (intro exI [of _ "new @ pre @ [PostOrder ob]"] conjI disjI2 exI [of _ "new @ pre"] exI [of _ n]) (simp_all add: b)
    qed
  qed
qed

lemma remaining_in_time:
  assumes "remaining w t0 k = (Inr left, k1)"
  shows "wi_clock w (tk_reads k) < t0 + 2" "tk_calls k1 = tk_calls k"
proof -
  have pos: "\<not> fl (DEADLINE_S - fl (wi_clock w (tk_reads k) - t0)) \<le> 0" and k1: "tk_calls k1 = tk_calls k"
    using assms by (auto simp: remaining_def Let_def split: if_split_asm)
  from pos [unfolded not_le] have "fl (wi_clock w (tk_reads k) - t0) < 2" by (simp add: DEADLINE_S_def)
  moreover have "2 \<le> fl x" if "2 \<le> x" for x using fl.rnd_mono [OF that] fl_int [of 2] by simp
  ultimately have "wi_clock w (tk_reads k) - t0 < 2" by (meson not_le_imp_less less_le_not_le)
  then show "wi_clock w (tk_reads k) < t0 + 2" by linarith
  show "tk_calls k1 = tk_calls k" by (rule k1)
qed

lemma ends_timed_order:
  "ends_with_order w t0 ob (act_bind (timed_call w t0 (PostOrder ob)) (\<lambda>_. act_return (''accepted'', None)))"
  unfolding ends_with_order_def
proof
  fix k
  let ?m = "act_bind (timed_call w t0 (PostOrder ob)) (\<lambda>_. act_return (''accepted'', None :: reason option))"
  obtain r k1 where rem: "remaining w t0 k = (r, k1)" by (cases "remaining w t0 k")
  show "\<exists>new. tk_calls (snd (?m k)) = tk_calls k @ new \<and>
     (no_orders new \<or> (\<exists>pre n. new = pre @ [PostOrder ob] \<and> no_orders pre \<and>
        fst (?m k) = order_result (wi_answer w (length (tk_calls k @ pre)) (PostOrder ob)) \<and> wi_clock w n < t0 + 2))"
  proof (cases r)
    case (Inl x)
    have "tk_calls k1 = tk_calls k" using rem Inl by (auto simp: remaining_def Let_def split: if_split_asm)
    then show ?thesis using rem Inl by (auto simp: act_bind_def timed_call_def intro!: exI [of _ "[]"])
  next
    case (Inr left)
    note t = remaining_in_time [OF rem [unfolded Inr]]
    have m: "?m k = (order_result (wi_answer w (length (tk_calls k)) (PostOrder ob)), k1\<lparr>tk_calls := tk_calls k @ [PostOrder ob]\<rparr>)"
      using rem Inr t(2) by (auto simp: act_bind_def timed_call_def copier_call_def order_result_def act_return_def split: sum.split)
    then have c: "tk_calls (snd (?m k)) = tk_calls k @ [PostOrder ob]" by simp
    have "\<exists>pre n. [PostOrder ob] = pre @ [PostOrder ob] \<and> no_orders pre \<and>
        fst (?m k) = order_result (wi_answer w (length (tk_calls k @ pre)) (PostOrder ob)) \<and> wi_clock w n < t0 + 2"
      using t(1) by (intro exI [of _ "[]"] exI [of _ "tk_reads k"]) (simp add: m)
    with c show ?thesis by blast
  qed
qed

lemma ends_send: "ends_with_order w t0 ob (send_order w t0 ob)"
  unfolding send_order_def by (intro ends_bind quiet_intros ends_timed_order)

lemma ends_if: "ends_with_order w t0 ob a \<Longrightarrow> ends_with_order w t0 ob b \<Longrightarrow> ends_with_order w t0 ob (if c then a else b)"
  by simp

lemma ends_place: "ends_with_order w t0 (order_of_alert a al) (place_order w t0 a g n al)"
  unfolding place_order_def by (intro ends_bind ends_if ends_send quiet_ends [OF quiet_basic(2)]) (auto intro: quiet_intros)

lemma ends_vt: "ends_with_order w t0 (order_of_vt a vt) (act_on_vt w t0 a g n vt)"
  unfolding act_on_vt_def by (intro ends_bind ends_if ends_send quiet_ends [OF quiet_basic(2)]) (auto intro: quiet_intros)

text \<open>The order a flight may place.\<close>

definition order_of :: "hook_flight \<Rightarrow> order_body" where
  "order_of f = (case ft_work f of AlertWork al \<Rightarrow> order_of_alert (ft_account f) al | VtWork vt \<Rightarrow> order_of_vt (ft_account f) vt)"

lemma ends_alert: "ends_with_order w t0 (order_of_alert a al) (act_on_alert w t0 a g n al)"
  unfolding act_on_alert_def by (intro ends_if ends_place quiet_ends) (auto intro!: quiet_intros)

lemma ends_fly: "ends_with_order w (ft_t0 f) (order_of f) (fly w f)"
  unfolding fly_def order_of_def by (auto intro: ends_alert ends_vt split: work.split)

section \<open>Orders that may be live\<close>

text \<open>
  An answer after which the order may exist: anything but a connection that was never made and a refusal
  (a 4xx response).
\<close>

definition may_exist :: "answer \<Rightarrow> bool" where
  "may_exist a = (case a of NoConnection _ \<Rightarrow> False | LostConnection _ \<Rightarrow> True | Response st _ _ \<Rightarrow> st < 400 \<or> 500 \<le> st)"

definition live_order :: "wire \<Rightarrow> hook_flight \<Rightarrow> bool" where
  "live_order w f = list_ex (\<lambda>i. is_order (calls_of w f ! i) \<and> may_exist (wi_answer w i (calls_of w f ! i))) [0..<length (calls_of w f)]"

lemma may_exist_result: "may_exist a \<Longrightarrow> order_result a = Inr (''accepted'', None) \<or> (\<exists>m. order_result a = Inl (Unknown m))"
  by (auto simp: may_exist_def order_result_def classify_def Let_def split: answer.split_asm option.split jv.split)

lemma no_orders_nth: "no_orders cs \<Longrightarrow> i < length cs \<Longrightarrow> \<not> is_order (cs ! i)"
  by (simp add: no_orders_def list_all_length)

lemma live_orderD:
  assumes "live_order w f"
  obtains pre where "calls_of w f = pre @ [PostOrder (order_of f)]" "no_orders pre"
    "fst (fly w f start_talk) = Inr (''accepted'', None) \<or> (\<exists>m. fst (fly w f start_talk) = Inl (Unknown m))"
    "\<exists>n. wi_clock w n < ft_t0 f + 2"
proof -
  obtain i where i: "i < length (calls_of w f)" "is_order (calls_of w f ! i)" "may_exist (wi_answer w i (calls_of w f ! i))"
    using assms by (auto simp: live_order_def list_ex_iff)
  from ends_fly [of w f] show thesis
  proof (cases rule: ends_with_orderD [where k = start_talk])
    case (1 new)
    then have "no_orders (calls_of w f)" by (simp add: calls_of_def start_talk_def)
    with i show thesis by (auto dest: no_orders_nth)
  next
    case (2 pre n)
    then have c: "calls_of w f = pre @ [PostOrder (order_of f)]" by (simp add: calls_of_def start_talk_def)
    have "i = length pre" using i c 2(2) no_orders_nth [of pre i] by (cases "i < length pre") (auto simp: nth_append)
    with i(3) c 2(3) have "fst (fly w f start_talk) = order_result (wi_answer w i (PostOrder (order_of f)))"
      "may_exist (wi_answer w i (PostOrder (order_of f)))" by (simp_all add: start_talk_def)
    with may_exist_result that [OF c 2(2)] 2(4) show thesis by metis
  qed
qed

end
