(* ===== verification/Webhook_Laws.thy ===== *)
theory Webhook_Laws
  imports Webhook_Talk Simulation
begin

text \<open>
  What the receiver guarantees. The front door, a landing and a change of the settings are the steps of a
  machine (\<open>hook_step\<close>) in which any number of alerts are under way at once and a process may die between
  admitting an alert and recording its outcome. Its invariant gives the two guarantees about orders: two orders
  with the same trading content are at least twenty seconds apart, and no more than sixty alerts act within a
  minute. Single alerts get the rest: an order that may exist is never answered in a way TradingView would
  resend, nothing is placed unless every gate was passed, and no secret is stored.
\<close>

section \<open>Stored bodies\<close>

lemma not_secret_stars [simp]: "\<not> secret_shaped ''***''"
  by (simp add: secret_shaped_def SECRET_PREFIXES_def SECRET_PREFIX_def startswith_def)

definition clean :: "jv \<Rightarrow> bool" where
  "clean v = list_all (\<lambda>t. \<not> secret_shaped t) (texts_of v)"

lemma redact_clean [simp]: "clean (redact v)"
proof (induction v rule: redact.induct)
  case (2 d)
  then show ?case by (force simp: clean_def list_all_iff)
qed (auto simp: clean_def list_all_iff)

definition clean_receipt :: "receipt \<Rightarrow> bool" where
  "clean_receipt r = (case rc_body r of None \<Rightarrow> True | Some v \<Rightarrow> clean v)"

section \<open>What a step does to the receipts\<close>

definition adds :: "hooks \<Rightarrow> receipt \<Rightarrow> hooks \<Rightarrow> bool" where
  "adds s x t \<longleftrightarrow> hk_receipts t = hk_receipts s @ [x] \<and> hk_next_receipt t = hk_next_receipt s + 1 \<and>
     rc_id x = hk_next_receipt s \<and> hk_webhooks t = hk_webhooks s \<and> clean_receipt x"

definition keeps :: "hooks \<Rightarrow> hooks \<Rightarrow> bool" where
  "keeps s t \<longleftrightarrow> hk_receipts t = hk_receipts s \<and> hk_next_receipt t = hk_next_receipt s \<and> hk_webhooks t = hk_webhooks s"

text \<open>An answer without a flight: at most one receipt is written, and it holds no fingerprint.\<close>

definition noted :: "hooks \<Rightarrow> hooks \<Rightarrow> bool" where
  "noted s t \<longleftrightarrow> keeps s t \<or> (\<exists>x. adds s x t \<and> rc_fingerprint x = None)"

definition ids_fresh :: "hooks \<Rightarrow> bool" where
  "ids_fresh s \<longleftrightarrow> distinct (map rc_id (hk_receipts s)) \<and> (\<forall>r \<in> set (hk_receipts s). rc_id r < hk_next_receipt s)"

lemma keeps_refl [simp]: "keeps s s" by (simp add: keeps_def)

lemma noted_refl [simp]: "noted s s" by (simp add: noted_def)

lemma hook_event_fields [simp]:
  "hk_receipts (hook_event g a sv i oc s) = hk_receipts s" "hk_next_receipt (hook_event g a sv i oc s) = hk_next_receipt s"
  "hk_webhooks (hook_event g a sv i oc s) = hk_webhooks s" "hk_snapshots (hook_event g a sv i oc s) = hk_snapshots s"
  "hk_receipts (hook_audit g b oc i s) = hk_receipts s" "hk_next_receipt (hook_audit g b oc i s) = hk_next_receipt s"
  "hk_webhooks (hook_audit g b oc i s) = hk_webhooks s"
  by (simp_all add: hook_event_def hook_audit_def)

lemma adds_audit: "adds s x (hook_audit g a oc i t) = adds s x t"
  by (simp add: adds_def)

lemma insert_receipt_cases:
  assumes "insert_receipt g now body cols oc why fp s = (i, t)" "case body of None \<Rightarrow> True | Some v \<Rightarrow> clean v"
  obtains "i = None" "t = s"
  | x where "i = Some (rc_id x)" "adds s x t" "rc_org x = g" "rc_received_at x = now" "rc_outcome x = oc" "rc_fingerprint x = fp"
      "hk_snapshots t = hk_snapshots s"
proof (cases "storable_row body cols")
  case False
  then show thesis using assms(1) that(1) by (simp add: insert_receipt_def)
next
  case True
  let ?x = "\<lparr>rc_id = hk_next_receipt s, rc_org = g, rc_received_at = now, rc_outcome = oc, rc_reason = why,
     rc_action = map_option fst cols, rc_symbol = map_option (\<lambda>c. fst (snd c)) cols, rc_fingerprint = fp,
     rc_alert_id = map_option (\<lambda>c. snd (snd c)) cols, rc_body = body\<rparr>"
  have "i = Some (rc_id ?x)" "t = s\<lparr>hk_next_receipt := hk_next_receipt s + 1, hk_receipts := hk_receipts s @ [?x]\<rparr>"
    using assms(1) True by (simp_all add: insert_receipt_def Let_def)
  then show thesis using assms(2) by (intro that(2) [of ?x]) (simp_all add: adds_def clean_receipt_def)
qed

lemma record_rejection_noted:
  assumes "record_rejection g now body cols st why s = (reply, t)" "case body of None \<Rightarrow> True | Some v \<Rightarrow> clean v"
  shows "noted s t"
proof -
  obtain i s1 where ins: "insert_receipt g now body cols ''rejected'' (Some why) None s = (i, s1)" by (cases "insert_receipt g now body cols ''rejected'' (Some why) None s")
  from ins assms(2) show ?thesis
  proof (cases rule: insert_receipt_cases)
    case 1
    then show ?thesis using assms(1) ins by (simp add: record_rejection_def)
  next
    case (2 x)
    then have "adds s x t" using assms(1) ins by (auto simp: record_rejection_def adds_def)
    with 2 show ?thesis by (auto simp: noted_def)
  qed
qed

lemma record_vt_ok_noted:
  assumes "record_vt_ok g now body cols why s = (reply, t)" "clean body"
  shows "noted s t"
proof -
  obtain i s1 where ins: "insert_receipt g now (Some body) (Some cols) ''accepted'' why None s = (i, s1)" by (cases "insert_receipt g now (Some body) (Some cols) ''accepted'' why None s")
  have b: "case Some body of None \<Rightarrow> True | Some v \<Rightarrow> clean v" using assms(2) by simp
  from ins b show ?thesis
  proof (cases rule: insert_receipt_cases)
    case 1
    then show ?thesis using assms(1) ins by (simp add: record_vt_ok_def)
  next
    case (2 x)
    then have "adds s x t" using assms(1) ins by (auto simp: record_vt_ok_def adds_def)
    with 2 show ?thesis by (auto simp: noted_def)
  qed
qed

text \<open>A receipt that holds a fingerprint: nothing with that fingerprint within the window, and room under the cap.\<close>

definition held_by :: "ident \<Rightarrow> rat \<Rightarrow> string \<Rightarrow> int \<Rightarrow> hooks \<Rightarrow> receipt \<Rightarrow> hooks \<Rightarrow> bool" where
  "held_by g now fp m s x t \<longleftrightarrow> adds s x t \<and> rc_org x = g \<and> rc_received_at x = now \<and> rc_outcome x = ''accepted'' \<and>
     rc_fingerprint x = Some fp \<and> duplicates g fp now s = [] \<and> accepted_last_minute g now s < m"

lemma admit_cases:
  assumes "admit g now body cols fp m s = (r, t)" "clean body"
  obtains reply where "r = Inl reply" "noted s t"
  | x where "r = Inr (rc_id x)" "held_by g now fp m s x t" "hk_snapshots t = hk_snapshots s"
proof -
  have b: "case Some body of None \<Rightarrow> True | Some v \<Rightarrow> clean v" using assms(2) by simp
  consider (dup) "duplicates g fp now s \<noteq> []" | (many) "duplicates g fp now s = []" "m \<le> accepted_last_minute g now s"
    | (ok) "duplicates g fp now s = []" "accepted_last_minute g now s < m" by linarith
  then show thesis
  proof cases
    case dup
    let ?why = "Some (SameAlert (rc_id (last (sort_key rc_received_at (duplicates g fp now s)))))"
    obtain i s1 where ins: "insert_receipt g now (Some body) (Some cols) ''duplicate'' ?why None s = (i, s1)" by (cases "insert_receipt g now (Some body) (Some cols) ''duplicate'' ?why None s")
    from ins b show thesis
    proof (cases rule: insert_receipt_cases)
      case 1
      then show thesis using assms(1) ins dup that(1) by (auto simp: admit_def Let_def)
    next
      case (2 x)
      then show thesis using assms(1) ins dup that(1) by (auto simp: admit_def Let_def noted_def)
    qed
  next
    case many
    obtain reply s1 where rec: "record_rejection g now (Some body) (Some cols) 429 (TooManyPerMinute m) s = (reply, s1)"
      by (cases "record_rejection g now (Some body) (Some cols) 429 (TooManyPerMinute m) s")
    then show thesis using assms(1) many record_rejection_noted [OF rec b] that(1) by (auto simp: admit_def Let_def)
  next
    case ok
    obtain i s1 where ins: "insert_receipt g now (Some body) (Some cols) ''accepted'' None (Some fp) s = (i, s1)" by (cases "insert_receipt g now (Some body) (Some cols) ''accepted'' None (Some fp) s")
    from ins b show thesis
    proof (cases rule: insert_receipt_cases)
      case 1
      then show thesis using assms(1) ins ok that(1) by (auto simp: admit_def Let_def)
    next
      case (2 x)
      then show thesis using assms(1) ins ok that(2) [of x] by (auto simp: admit_def Let_def held_by_def)
    qed
  qed
qed

section \<open>What passes the front door\<close>

definition work_print :: "door \<Rightarrow> hook_flight \<Rightarrow> string" where
  "work_print dr f = (case ft_work f of
      AlertWork al \<Rightarrow> fingerprint (dr_digest dr) (ft_org f) al | VtWork vt \<Rightarrow> vt_fingerprint (dr_digest dr) (ft_org f) vt)"

definition lots_within :: "rat \<Rightarrow> rat option \<Rightarrow> bool" where
  "lots_within cap lots = (case lots of None \<Rightarrow> False | Some l \<Rightarrow> 0 < l \<and> l \<le> cap \<and> l \<le> HARD_MAX_LOTS)"

text \<open>The size of an order is within the caps, and a trigger of the bridge has passed its gate.\<close>

definition work_ok :: "webhook_row \<Rightarrow> hook_request \<Rightarrow> hooks \<Rightarrow> work \<Rightarrow> bool" where
  "work_ok h rq s k = (case k of
      AlertWork al \<Rightarrow> al_action al \<in> {''close'', ''cancel''} \<or> al_action al \<in> {''buy'', ''sell''} \<and> lots_within (fl (wh_max_lots h)) (al_lots al)
    | VtWork vt \<Rightarrow> lots_within (fl (wh_max_lots h)) (vt_lots vt) \<and>
        check_gate (map_of (hk_snapshots s) (wh_org h, vt_symbol vt)) vt (wh_vt_tfs h) (rq_utc rq) = None)"

definition boarded :: "door \<Rightarrow> webhook_row \<Rightarrow> ident \<Rightarrow> hook_request \<Rightarrow> hooks \<Rightarrow> hook_flight \<Rightarrow> hooks \<Rightarrow> bool" where
  "boarded dr h acct rq s f t \<longleftrightarrow> ft_org f = wh_org h \<and> ft_account f = acct \<and> ft_t0 f = rq_t0 rq \<and> ft_max_open f = wh_max_open h \<and>
     (\<exists>x. ft_receipt f = rc_id x \<and> held_by (wh_org h) (rq_db_now rq) (work_print dr f) (wh_max_per_minute h) s x t) \<and> work_ok h rq s (ft_work f)"

lemma capped_lots_ok: "capped_lots d (Some c) = Inr l \<Longrightarrow> lots_within c (Some l)"
  by (auto simp: capped_lots_def lots_within_def Let_def finite_positive_def split: sum.split_asm pyfloat.split_asm if_split_asm option.split_asm)

lemma parse_alert_ok:
  assumes "parse_alert v (Some c) = Inr al"
  shows "al_action al \<in> {''close'', ''cancel''} \<or> al_action al \<in> {''buy'', ''sell''} \<and> lots_within c (al_lots al)"
  using assms by (auto simp: parse_alert_def Let_def ACTIONS_def dest!: capped_lots_ok split: jv.split_asm sum.split_asm if_split_asm)

lemma parse_vt_ok:
  assumes "parse_vt_alert v (Some c) = Some (Inr vt)" "vt_role vt \<noteq> ''htf''"
  shows "lots_within c (vt_lots vt)"
  using assms by (auto simp: parse_vt_alert_def Let_def dest!: capped_lots_ok split: jv.split_asm sum.split_asm if_split_asm int_error.split_asm)

lemma admit_alert_entered:
  assumes "admit_alert dr h acct rq body s = (r, t)"
  shows "case r of Inl _ \<Rightarrow> noted s t | Inr f \<Rightarrow> boarded dr h acct rq s f t"
proof (cases "parse_alert body (Some (fl (wh_max_lots h)))")
  case (Inl e)
  obtain reply s1 where rec: "record_rejection (wh_org h) (rq_db_now rq) (Some (redact body)) None 422 (BadAlert e) s = (reply, s1)"
    by (cases "record_rejection (wh_org h) (rq_db_now rq) (Some (redact body)) None 422 (BadAlert e) s")
  have "r = Inl reply" "t = s1" using assms Inl rec by (simp_all add: admit_alert_def Let_def)
  then show ?thesis using record_rejection_noted [OF rec] by simp
next
  case (Inr al0)
  show ?thesis
  proof (cases "renamed h (al_symbol al0)")
    case None
    then have "r = Inl server_error" "t = s" using assms Inr by (simp_all add: admit_alert_def Let_def)
    then show ?thesis by simp
  next
    case (Some symbol)
    define al where "al = al0\<lparr>al_symbol := symbol\<rparr>"
    obtain r1 s1 where ad: "admit (wh_org h) (rq_db_now rq) (redact body) (columns_of al) (fingerprint (dr_digest dr) (wh_org h) al)
        (wh_max_per_minute h) s = (r1, s1)"
      by (cases "admit (wh_org h) (rq_db_now rq) (redact body) (columns_of al) (fingerprint (dr_digest dr) (wh_org h) al) (wh_max_per_minute h) s")
    have rt: "(r, t) = (case r1 of Inl reply \<Rightarrow> (Inl reply, s1)
       | Inr rid \<Rightarrow> (Inr \<lparr>ft_org = wh_org h, ft_account = acct, ft_receipt = rid, ft_max_open = wh_max_open h, ft_t0 = rq_t0 rq, ft_work = AlertWork al\<rparr>, s1))"
      using assms Inr Some ad by (simp add: admit_alert_def Let_def al_def [symmetric] split: sum.split)
    have ok: "work_ok h rq s (AlertWork al)" using parse_alert_ok [OF Inr] by (simp add: work_ok_def al_def)
    from ad redact_clean show ?thesis
    proof (cases rule: admit_cases)
      case (1 reply)
      then show ?thesis using rt by simp
    next
      case (2 x)
      then show ?thesis using rt ok by (auto simp: boarded_def work_print_def)
    qed
  qed
qed

lemma finish_last:
  assumes "ids_fresh s" "adds s x t"
  shows "adds s (x\<lparr>rc_outcome := oc, rc_reason := why, rc_fingerprint := (if c then None else rc_fingerprint x)\<rparr>) (finish_receipt (rc_id x) oc why c t)"
proof -
  let ?f = "\<lambda>r. r\<lparr>rc_outcome := oc, rc_reason := why, rc_fingerprint := (if c then None else rc_fingerprint r)\<rparr>"
  have "\<forall>r \<in> set (hk_receipts s). rc_id r \<noteq> rc_id x" using assms by (auto simp: ids_fresh_def adds_def)
  then have "update_where (\<lambda>r. rc_id r = rc_id x) ?f (hk_receipts s) = hk_receipts s" by (intro update_where_none) simp
  moreover have "update_where P f (xs @ ys) = update_where P f xs @ update_where P f ys" for P f and xs ys :: "receipt list"
    by (simp add: update_where_def)
  ultimately have "update_where (\<lambda>r. rc_id r = rc_id x) ?f (hk_receipts s @ [x]) = hk_receipts s @ [?f x]"
    by (simp add: update_where_def)
  then show ?thesis using assms(2) unfolding finish_receipt_def adds_def clean_receipt_def by simp
qed

lemma vt_ltf_entered:
  assumes "vt_ltf dr h acct rq body vt s = (r, t)" "ids_fresh s" "lots_within (fl (wh_max_lots h)) (vt_lots vt)"
  shows "case r of Inl _ \<Rightarrow> noted s t | Inr f \<Rightarrow> boarded dr h acct rq s f t"
proof (cases "vt_trigger vt = Some True")
  case False
  obtain reply s1 where rec: "record_vt_ok (wh_org h) (rq_db_now rq) (redact body) (vt_columns vt) (Some Informational) s = (reply, s1)"
    by (cases "record_vt_ok (wh_org h) (rq_db_now rq) (redact body) (vt_columns vt) (Some Informational) s")
  have "r = Inl reply" "t = s1" using assms(1) False rec by (simp_all add: vt_ltf_def Let_def)
  then show ?thesis using record_vt_ok_noted [OF rec] by simp
next
  case True
  let ?g = "wh_org h"
  obtain r1 s1 where ad: "admit ?g (rq_db_now rq) (redact body) (vt_columns vt) (vt_fingerprint (dr_digest dr) ?g vt) (wh_max_per_minute h) s = (r1, s1)"
    by (cases "admit ?g (rq_db_now rq) (redact body) (vt_columns vt) (vt_fingerprint (dr_digest dr) ?g vt) (wh_max_per_minute h) s")
  from ad redact_clean show ?thesis
  proof (cases rule: admit_cases)
    case (1 reply)
    then show ?thesis using assms(1) True ad by (auto simp: vt_ltf_def Let_def)
  next
    case (2 x)
    show ?thesis
    proof (cases "check_gate (map_of (hk_snapshots s1) (?g, vt_symbol vt)) vt (wh_vt_tfs h) (rq_utc rq)")
      case None
      have "r = Inr \<lparr>ft_org = ?g, ft_account = acct, ft_receipt = rc_id x, ft_max_open = wh_max_open h, ft_t0 = rq_t0 rq, ft_work = VtWork vt\<rparr>" "t = s1"
        using assms(1) True ad 2(1) None by (simp_all add: vt_ltf_def Let_def)
      then show ?thesis using 2 None assms(3) by (auto simp: boarded_def work_print_def work_ok_def)
    next
      case (Some g)
      have rt: "r = Inl (hook_json 422 ''rejected'' (Some (rc_id x)))"
        "t = hook_audit ?g acct ''rejected'' (rc_id x) (finish_receipt (rc_id x) ''rejected'' (Some (Gate g)) True s1)"
        using assms(1) True ad 2(1) Some by (simp_all add: vt_ltf_def Let_def)
      have "adds s x s1" using 2(2) by (simp add: held_by_def)
      from finish_last [OF assms(2) this, where oc = "''rejected''" and why = "Some (Gate g)" and c = True]
      have "adds s (x\<lparr>rc_outcome := ''rejected'', rc_reason := Some (Gate g), rc_fingerprint := None\<rparr>) t"
        by (simp add: rt(2) adds_audit)
      then show ?thesis unfolding rt(1) noted_def sum.case by (intro disjI2 exI conjI) (assumption, simp)
    qed
  qed
qed

lemma noted_snapshots: "noted (s\<lparr>hk_snapshots := d\<rparr>) t = noted s t"
  by (simp add: noted_def keeps_def adds_def)

lemma vt_bridge_entered:
  assumes "vt_bridge dr h acct rq body s = (r, t)" "ids_fresh s"
  shows "case r of Inl _ \<Rightarrow> noted s t | Inr f \<Rightarrow> boarded dr h acct rq s f t"
proof -
  let ?rec = "\<lambda>e. record_rejection (wh_org h) (rq_db_now rq) (Some (redact body)) None 422 (BadAlert e) s"
  let ?ok = "\<lambda>vt why s. record_vt_ok (wh_org h) (rq_db_now rq) (redact body) (vt_columns vt) why s"
  have rec: "noted s (snd (?rec e))" for e
    using record_rejection_noted [of _ _ "Some (redact body)"] by (metis option.case(2) prod.collapse redact_clean)
  have ok: "noted s' (snd (?ok vt why s'))" for vt why s'
    using record_vt_ok_noted by (metis prod.collapse redact_clean)
  consider (boom) "parse_vt_alert body (Some (fl (wh_max_lots h))) = None"
    | (bad) e where "parse_vt_alert body (Some (fl (wh_max_lots h))) = Some (Inl e)"
    | (good) vt0 where "parse_vt_alert body (Some (fl (wh_max_lots h))) = Some (Inr vt0)" by (metis obj_sumE option.exhaust)
  then show ?thesis
  proof cases
    case boom
    then show ?thesis using assms(1) by (auto simp: vt_bridge_def Let_def)
  next
    case (bad e)
    then have "r = Inl (fst (?rec e))" "t = snd (?rec e)" using assms(1) by (auto simp: vt_bridge_def Let_def case_prod_beta)
    then show ?thesis using rec by simp
  next
    case (good vt0)
    show ?thesis
    proof (cases "renamed h (vt_symbol vt0)")
      case None
      then show ?thesis using assms(1) good by (auto simp: vt_bridge_def Let_def)
    next
      case (Some symbol)
      define vt where "vt = vt0\<lparr>vt_symbol := symbol\<rparr>"
      show ?thesis
      proof (cases "vt_role vt = ''htf''")
        case True
        then have "(\<exists>reply. r = Inl reply) \<and> noted s t"
          using assms(1) good Some ok [of s vt] ok [of "s\<lparr>hk_snapshots := d\<rparr>" vt for d]
          by (auto simp: vt_bridge_def Let_def vt_def [symmetric] store_htf_def case_prod_beta noted_snapshots split: if_split_asm)
        then show ?thesis by auto
      next
        case False
        then have "vt_ltf dr h acct rq body vt s = (r, t)" using assms(1) good Some by (simp add: vt_bridge_def Let_def vt_def [symmetric])
        moreover have "lots_within (fl (wh_max_lots h)) (vt_lots vt)" using parse_vt_ok [OF good] False by (simp add: vt_def)
        ultimately show ?thesis using vt_ltf_entered assms(2) by blast
      qed
    qed
  qed
qed

text \<open>Everything an alert has shown by the time it is under way.\<close>

definition shown :: "door \<Rightarrow> webhook_row \<Rightarrow> hook_request \<Rightarrow> hooks \<Rightarrow> bool" where
  "shown dr h rq s \<longleftrightarrow> length (rq_raw rq) \<le> MAX_BODY_BYTES \<and> rq_ip rq \<in> set (source_ips (dr_extra dr)) \<and>
     find_hook (rq_hook_id rq) s = Some h \<and> (\<exists>body. dr_loads dr (rq_raw rq) = Some body \<and> secret_ok dr h body) \<and> wh_enabled h \<and>
     (\<exists>g. find (\<lambda>g. o_org_id g = wh_org h) (db_orgs (hk_db s)) = Some g \<and> o_copying_enabled g \<and> \<not> o_dry_run g)"

lemma hook_gates_ok:
  assumes "hook_gates h s = Inr acct"
  shows "wh_enabled h" "\<exists>g. find (\<lambda>g. o_org_id g = wh_org h) (db_orgs (hk_db s)) = Some g \<and> o_copying_enabled g \<and> \<not> o_dry_run g"
    "master_of (wh_org h) s = Some acct"
  using assms by (auto simp: hook_gates_def split: if_split_asm option.split_asm)

lemma limit_call_keeps: "noted s (snd (limit_call key n now s))"
  by (simp add: limit_call_def case_prod_beta noted_def keeps_def)

lemma limited_noted: "noted (snd (limit_call key n now s)) t \<Longrightarrow> noted s t"
  by (auto simp: limit_call_def case_prod_beta noted_def keeps_def adds_def)

lemma front_door_entered:
  assumes "front_door dr rq s = (r, t)" "ids_fresh s"
  shows "case r of Inl _ \<Rightarrow> noted s t
    | Inr f \<Rightarrow> \<exists>h acct. shown dr h rq s \<and> master_of (wh_org h) s = Some acct \<and> boarded dr h acct rq s f t"
proof -
  have rec: "noted s' (snd (record_rejection g now b cols st why s'))" if "case b of None \<Rightarrow> True | Some v \<Rightarrow> clean v" for g now b cols st why s'
    using record_rejection_noted [OF _ that] by (metis prod.collapse)
  show ?thesis
  proof (cases "length (rq_raw rq) \<le> MAX_BODY_BYTES \<and> rq_ip rq \<in> set (source_ips (dr_extra dr))")
    case False
    then have "(\<exists>reply. r = Inl reply) \<and> noted s t"
      using assms(1) limit_call_keeps [of s] by (auto simp: front_door_def split: if_split_asm)
    then show ?thesis by auto
  next
    case door: True
    then have hh: "handle_hook dr rq s = (r, t)" using assms(1) by (auto simp: front_door_def)
    show ?thesis
    proof (cases "find_hook (rq_hook_id rq) s")
      case None
      then show ?thesis using hh limit_call_keeps [of s] by (auto simp: handle_hook_def)
    next
      case hook: (Some h)
      show ?thesis
      proof (cases "dr_loads dr (rq_raw rq)")
        case None
        then show ?thesis using hh hook rec [of None s] by (auto simp: handle_hook_def case_prod_beta)
      next
        case body: (Some body)
        consider (bad) "\<not> secret_ok dr h body" | (gate) st why where "secret_ok dr h body" "hook_gates h s = Inl (st, why)"
          | (ok) acct where "secret_ok dr h body" "hook_gates h s = Inr acct" by (metis obj_sumE surj_pair)
        then show ?thesis
        proof cases
          case bad
          let ?s1 = "snd (limit_call (''webhook-badsecret:'' @ rq_hook_id rq) 10 (rq_now rq) s)"
          from bad have "(\<exists>reply. r = Inl reply) \<and> noted s t"
            using hh hook body limit_call_keeps [of s] limited_noted [OF rec [of None ?s1]]
            by (auto simp: handle_hook_def case_prod_beta Let_def split: if_split_asm)
          then show ?thesis by auto
        next
          case gate
          then show ?thesis using hh hook body rec [of "Some (redact body)" s] by (auto simp: handle_hook_def case_prod_beta)
        next
          case ok
          have sh: "shown dr h rq s" using door hook body ok hook_gates_ok [OF ok(2)] by (simp add: shown_def)
          have "(if has_role body then vt_bridge dr h acct rq body s else admit_alert dr h acct rq body s) = (r, t)"
            using hh hook body ok by (simp add: handle_hook_def)
          then have "case r of Inl _ \<Rightarrow> noted s t | Inr f \<Rightarrow> boarded dr h acct rq s f t"
            using vt_bridge_entered [OF _ assms(2)] admit_alert_entered by (metis (full_types))
          then show ?thesis using sh hook_gates_ok(3) [OF ok(2)] by (cases r) auto
        qed
      qed
    qed
  qed
qed

section \<open>The machine\<close>

text \<open>
  The receiver with the alerts under way, and the ones that are over with the conversation each had. A flight may
  end without its outcome being recorded (\<open>died\<close>); the rest of the program changes the shared tables at any time
  (\<open>elsewhere\<close>).
\<close>

type_synonym hook_desk = "hooks \<times> hook_flight list \<times> (hook_flight \<times> wire) list"

inductive hook_step :: "door \<Rightarrow> hook_desk \<Rightarrow> hook_desk \<Rightarrow> bool" for dr where
  enter: "front_door dr rq s = (r, t) \<Longrightarrow> hook_step dr (s, fs, past) (t, (case r of Inl _ \<Rightarrow> fs | Inr f \<Rightarrow> f # fs), past)"
| land: "f \<in> set fs \<Longrightarrow> hook_step dr (s, fs, past) (snd (land w f s), remove1 f fs, (f, w) # past)"
| died: "f \<in> set fs \<Longrightarrow> hook_step dr (s, fs, past) (s, remove1 f fs, (f, w) # past)"
| rotate: "hook_step dr (s, fs, past) (snd (rotate_secret (dr_sha dr) ctx token new_hook s), fs, past)"
| update: "hook_step dr (s, fs, past) (snd (update_webhook origin ctx u s), fs, past)"
| elsewhere: "hook_step dr (s, fs, past) (s\<lparr>hk_db := d\<rparr>, fs, past)"

section \<open>The book of receipts\<close>

definition holding :: "receipt \<Rightarrow> bool" where
  "holding r = (counts r \<and> rc_fingerprint r \<noteq> None)"

definition spaced :: "receipt list \<Rightarrow> bool" where
  "spaced rs \<longleftrightarrow> (\<forall>x \<in> set rs. \<forall>y \<in> set rs. rc_id x \<noteq> rc_id y \<and> rc_org x = rc_org y \<and> rc_fingerprint x = rc_fingerprint y \<and> holding x \<and> holding y
     \<longrightarrow> 20 \<le> \<bar>rc_received_at x - rc_received_at y\<bar>)"

definition in_minute :: "ident \<Rightarrow> rat \<Rightarrow> receipt \<Rightarrow> bool" where
  "in_minute g T r \<longleftrightarrow> rc_org r = g \<and> holding r \<and> T - 60 < rc_received_at r \<and> rc_received_at r \<le> T"

definition capped :: "receipt list \<Rightarrow> bool" where
  "capped rs \<longleftrightarrow> (\<forall>g T. length (filter (in_minute g T) rs) \<le> 60)"

definition receipts_ok :: "receipt list \<Rightarrow> bool" where
  "receipts_ok rs \<longleftrightarrow> spaced rs \<and> capped rs \<and> list_all clean_receipt rs"

lemma book_add_plain:
  assumes "receipts_ok rs" "\<not> holding x" "clean_receipt x"
  shows "receipts_ok (rs @ [x])"
  using assms by (auto simp: receipts_ok_def spaced_def capped_def in_minute_def)

lemma filter_length_mono: "(\<And>x. x \<in> set xs \<Longrightarrow> P x \<Longrightarrow> Q x) \<Longrightarrow> length (filter P xs) \<le> length (filter Q xs)"
  by (induction xs) (auto simp: le_SucI)

lemma book_add_held:
  assumes ok: "receipts_ok (hk_receipts s)" and x: "held_by g now fp m s x t" and m: "m \<le> 60"
  shows "receipts_ok (hk_receipts t)"
proof -
  have t: "hk_receipts t = hk_receipts s @ [x]" and x': "rc_org x = g" "rc_received_at x = now" "rc_fingerprint x = Some fp" "clean_receipt x"
    using x by (auto simp: held_by_def adds_def)
  have far: "20 \<le> \<bar>rc_received_at y - now\<bar>" if "y \<in> set (hk_receipts s)" "rc_org y = g" "rc_fingerprint y = Some fp" "holding y" for y
  proof -
    have "duplicates g fp now s = []" using x by (simp add: held_by_def)
    with that have "\<not> now - DEDUP_WINDOW_S < rc_received_at y" by (auto simp: duplicates_def holding_def filter_empty_conv)
    then show ?thesis by (simp add: DEDUP_WINDOW_S_def)
  qed
  have "spaced (hk_receipts t)"
    using ok far x' by (auto simp: receipts_ok_def spaced_def t abs_minus_commute)
  moreover have "length (filter (in_minute g' T) (hk_receipts t)) \<le> 60" for g' T
  proof (cases "in_minute g' T x")
    case False
    then show ?thesis using ok by (simp add: t receipts_ok_def capped_def)
  next
    case True
    then have "length (filter (in_minute g' T) (hk_receipts s)) \<le>
        length (filter (\<lambda>r. rc_org r = g \<and> counts r \<and> now - 60 < rc_received_at r) (hk_receipts s))"
      using x' by (intro filter_length_mono) (auto simp: in_minute_def holding_def)
    moreover have "int \<dots> < 60" using x m by (simp add: held_by_def accepted_last_minute_def)
    ultimately show ?thesis using True by (simp add: t)
  qed
  ultimately show ?thesis using ok x' by (simp add: receipts_ok_def capped_def t)
qed

text \<open>Recording an outcome can only release a fingerprint.\<close>

definition releases :: "(receipt \<Rightarrow> receipt) \<Rightarrow> receipt \<Rightarrow> bool" where
  "releases u r \<longleftrightarrow> rc_id (u r) = rc_id r \<and> rc_org (u r) = rc_org r \<and> rc_received_at (u r) = rc_received_at r \<and> rc_body (u r) = rc_body r \<and>
     (holding (u r) \<longrightarrow> holding r \<and> rc_fingerprint (u r) = rc_fingerprint r)"

lemma book_releases:
  assumes "receipts_ok rs" "\<And>r. r \<in> set rs \<Longrightarrow> releases u r"
  shows "receipts_ok (map u rs)"
proof -
  have "spaced (map u rs)"
    using assms unfolding receipts_ok_def spaced_def releases_def by (auto 0 3)
  moreover have "length (filter (in_minute g T) (map u rs)) \<le> 60" for g T
  proof -
    have "length (filter (in_minute g T) (map u rs)) = length (filter (\<lambda>r. in_minute g T (u r)) rs)" by (simp add: filter_map comp_def)
    also have "\<dots> \<le> length (filter (in_minute g T) rs)" using assms(2) by (intro filter_length_mono) (auto simp: in_minute_def releases_def)
    also have "\<dots> \<le> 60" using assms(1) by (simp add: receipts_ok_def capped_def)
    finally show ?thesis .
  qed
  ultimately show ?thesis using assms by (auto simp: receipts_ok_def capped_def list_all_iff clean_receipt_def releases_def)
qed

definition outcome_update :: "hook_flight \<Rightarrow> way_out + string \<times> reason option \<Rightarrow> receipt \<Rightarrow> receipt" where
  "outcome_update f r x = (if rc_id x \<noteq> ft_receipt f then x else case r of
      Inr (oc, why) \<Rightarrow> x\<lparr>rc_outcome := oc, rc_reason := why\<rparr>
    | Inl (Rejected st why) \<Rightarrow> x\<lparr>rc_outcome := ''rejected'', rc_reason := Some why, rc_fingerprint := None\<rparr>
    | Inl (Down m) \<Rightarrow> x\<lparr>rc_outcome := ''failed'', rc_reason := Some (Unreachable m), rc_fingerprint := None\<rparr>
    | Inl (Unknown m) \<Rightarrow> x\<lparr>rc_outcome := ''unknown'', rc_reason := Some (Unconfirmed m)\<rparr>
    | Inl (Boom _) \<Rightarrow> x)"

lemma conclude_receipts:
  "hk_receipts (snd (conclude f r s)) = map (outcome_update f r) (hk_receipts s)"
  "hk_next_receipt (snd (conclude f r s)) = hk_next_receipt s" "hk_webhooks (snd (conclude f r s)) = hk_webhooks s"
  by (auto simp: conclude_def Let_def finish_receipt_def update_where_def outcome_update_def case_prod_beta
      intro!: map_idI [symmetric] split: sum.split way_out.split)

lemma outcome_update_fields [simp]:
  "rc_id (outcome_update f r x) = rc_id x" "rc_org (outcome_update f r x) = rc_org x"
  "rc_received_at (outcome_update f r x) = rc_received_at x" "rc_body (outcome_update f r x) = rc_body x"
  by (auto simp: outcome_update_def case_prod_beta split: sum.split way_out.split)

lemma outcome_update_other: "rc_id x \<noteq> ft_receipt f \<Longrightarrow> outcome_update f r x = x"
  by (simp add: outcome_update_def)

lemma outcome_update_print: "rc_fingerprint (outcome_update f r x) \<in> {None, rc_fingerprint x}"
  by (auto simp: outcome_update_def case_prod_beta split: sum.split way_out.split)

lemma outcome_update_live:
  assumes "r = Inr (''accepted'', None) \<or> (\<exists>m. r = Inl (Unknown m))" "counts x"
  shows "counts (outcome_update f r x)" "rc_fingerprint (outcome_update f r x) = rc_fingerprint x"
  using assms by (auto simp: outcome_update_def counts_def)

section \<open>The invariant\<close>

definition holds_for :: "door \<Rightarrow> hook_flight \<Rightarrow> receipt \<Rightarrow> bool" where
  "holds_for dr f r \<longleftrightarrow> rc_id r = ft_receipt f \<and> rc_org r = ft_org f \<and> rc_fingerprint r = Some (work_print dr f) \<and> counts r"

definition kept_for :: "door \<Rightarrow> hook_flight \<Rightarrow> receipt list \<Rightarrow> bool" where
  "kept_for dr f rs \<longleftrightarrow> (\<exists>r \<in> set rs. holds_for dr f r)"

definition hook_inv :: "door \<Rightarrow> hook_desk \<Rightarrow> bool" where
  "hook_inv dr D = (case D of (s, fs, past) \<Rightarrow>
     ids_fresh s \<and> receipts_ok (hk_receipts s) \<and> (\<forall>h \<in> set (hk_webhooks s). wh_max_per_minute h \<le> 60) \<and>
     distinct (map ft_receipt (fs @ map fst past)) \<and> (\<forall>f \<in> set fs \<union> fst ` set past. ft_receipt f < hk_next_receipt s) \<and>
     (\<forall>f \<in> set fs. kept_for dr f (hk_receipts s)) \<and> (\<forall>(f, w) \<in> set past. live_order w f \<longrightarrow> kept_for dr f (hk_receipts s)))"

lemma hook_invD:
  assumes "hook_inv dr (s, fs, past)"
  shows "ids_fresh s" "receipts_ok (hk_receipts s)" "\<And>h. h \<in> set (hk_webhooks s) \<Longrightarrow> wh_max_per_minute h \<le> 60"
    "distinct (map ft_receipt (fs @ map fst past))" "\<And>f. f \<in> set fs \<Longrightarrow> kept_for dr f (hk_receipts s)"
    "\<And>f w. (f, w) \<in> set past \<Longrightarrow> live_order w f \<Longrightarrow> kept_for dr f (hk_receipts s)"
    "\<And>f. f \<in> set fs \<union> fst ` set past \<Longrightarrow> ft_receipt f < hk_next_receipt s"
  using assms by (auto simp: hook_inv_def)

lemma kept_for_append: "kept_for dr f rs \<Longrightarrow> kept_for dr f (rs @ ys)"
  by (auto simp: kept_for_def)

lemma numbered_adds: "ids_fresh s \<Longrightarrow> adds s x t \<Longrightarrow> ids_fresh t"
  by (auto simp: ids_fresh_def adds_def less_le_not_le)

lemma inv_noted:
  assumes "hook_inv dr (s, fs, past)" "noted s t"
  shows "hook_inv dr (t, fs, past)"
proof (cases "keeps s t")
  case True
  then show ?thesis using assms(1) by (simp add: hook_inv_def ids_fresh_def keeps_def)
next
  case False
  then obtain x where x: "adds s x t" "rc_fingerprint x = None" using assms(2) by (auto simp: noted_def)
  note i = hook_invD [OF assms(1)]
  have "receipts_ok (hk_receipts t)" using x book_add_plain [OF i(2), of x] by (simp add: adds_def holding_def)
  then show ?thesis using assms(1) x(1) numbered_adds [OF i(1) x(1)]
    by (auto simp: hook_inv_def adds_def intro: kept_for_append less_imp_le)
qed

lemma inv_boarded:
  assumes inv: "hook_inv dr (s, fs, past)" and f: "boarded dr h acct rq s f t" and h: "h \<in> set (hk_webhooks s)"
  shows "hook_inv dr (t, f # fs, past)"
proof -
  note i = hook_invD [OF inv]
  obtain x where x: "ft_receipt f = rc_id x" and holding: "held_by (wh_org h) (rq_db_now rq) (work_print dr f) (wh_max_per_minute h) s x t"
    using f by (auto simp: boarded_def)
  then have a: "adds s x t" "rc_id x = hk_next_receipt s" "holds_for dr f x"
    using f by (auto simp: held_by_def adds_def holds_for_def boarded_def counts_def)
  have t: "hk_receipts t = hk_receipts s @ [x]" "hk_next_receipt t = hk_next_receipt s + 1" "hk_webhooks t = hk_webhooks s"
    using a(1) by (simp_all add: adds_def)
  have "receipts_ok (hk_receipts t)" by (rule book_add_held [OF i(2) holding i(3) [OF h]])
  moreover have "ft_receipt f' \<noteq> ft_receipt f" if "f' \<in> set fs \<union> fst ` set past" for f'
    using i(7) [OF that] x a(2) by simp
  then have "distinct (map ft_receipt ((f # fs) @ map fst past))" using i(4) by fastforce
  moreover have "kept_for dr f (hk_receipts t)" using a(3) by (auto simp: kept_for_def t)
  moreover have "ft_receipt f' < hk_next_receipt t" if "f' \<in> set (f # fs) \<union> fst ` set past" for f'
    using that i(7) [of f'] x a(2) by (cases "f' = f") (force simp: t)+
  moreover have "kept_for dr f' (hk_receipts t)" if "kept_for dr f' (hk_receipts s)" for f'
    using that by (simp add: t kept_for_append)
  ultimately show ?thesis using i numbered_adds [OF i(1) a(1)] unfolding hook_inv_def by (auto simp: t(3))
qed

lemma distinct_landed:
  assumes "f \<in> set fs" "distinct (map ft_receipt (fs @ map fst past))"
  shows "distinct (map ft_receipt (remove1 f fs @ map fst ((f, w) # past)))"
proof -
  have "mset (map ft_receipt (remove1 f fs @ map fst ((f, w) # past))) = mset (map ft_receipt (fs @ map fst past))"
    using assms(1) insert_DiffM [of f "mset fs"] by (simp flip: image_mset_add_mset)
  then show ?thesis using assms(2) mset_eq_imp_distinct_iff by blast
qed

text \<open>A flight that is over, whether its outcome was recorded (\<open>u\<close>) or not.\<close>

lemma inv_over:
  assumes inv: "hook_inv dr (s, fs, past)" and f: "f \<in> set fs"
    and t: "hk_receipts t = map u (hk_receipts s)" "hk_next_receipt t = hk_next_receipt s" "hk_webhooks t = hk_webhooks s"
    and u: "\<And>x. rc_id x \<noteq> ft_receipt f \<Longrightarrow> u x = x" "\<And>x. holds_for dr f x \<Longrightarrow> releases u x"
      "\<And>x. live_order w f \<Longrightarrow> holds_for dr f x \<Longrightarrow> holds_for dr f (u x)"
  shows "hook_inv dr (t, remove1 f fs, (f, w) # past)"
proof -
  note i = hook_invD [OF inv]
  obtain y where y: "y \<in> set (hk_receipts s)" "holds_for dr f y" using i(5) [OF f] by (auto simp: kept_for_def)
  have only: "x = y" if "x \<in> set (hk_receipts s)" "rc_id x = ft_receipt f" for x
    using i(1) y that unfolding ids_fresh_def holds_for_def distinct_map by (metis inj_onD)
  have rel: "releases u x" if "x \<in> set (hk_receipts s)" for x
    using only [OF that] u(1,2) y(2) by (cases "rc_id x = ft_receipt f") (auto simp: releases_def)
  have ids: "map rc_id (hk_receipts t) = map rc_id (hk_receipts s)" using rel by (simp add: t releases_def)
  have "\<forall>r \<in> set (hk_receipts t). rc_id r < hk_next_receipt t" using i(1) rel by (auto simp: t ids_fresh_def releases_def)
  then have num: "ids_fresh t" using i(1) ids by (simp add: ids_fresh_def)
  have book: "receipts_ok (hk_receipts t)" unfolding t by (rule book_releases [OF i(2) rel])
  have other: "kept_for dr f' (hk_receipts t)" if "kept_for dr f' (hk_receipts s)" "ft_receipt f' \<noteq> ft_receipt f" for f'
  proof -
    from that(1) obtain r where "r \<in> set (hk_receipts s)" "holds_for dr f' r" unfolding kept_for_def ..
    moreover from this(2) have "u r = r" using u(1) that(2) by (simp add: holds_for_def)
    ultimately show ?thesis by (force simp: t kept_for_def)
  qed
  have live: "kept_for dr f (hk_receipts t)" if "live_order w f" using u(3) [OF that y(2)] y(1) by (auto simp: t kept_for_def)
  have d: "distinct (map ft_receipt (remove1 f fs @ map fst ((f, w) # past)))" by (rule distinct_landed [OF f i(4)])
  have neq: "ft_receipt f' \<noteq> ft_receipt f" if "f' \<in> set (remove1 f fs) \<union> fst ` set past" for f'
    using d that by (force simp: image_iff)
  have sub: "set (remove1 f fs) \<subseteq> set fs" by (rule set_remove1_subset)
  have "\<forall>f' \<in> set (remove1 f fs). kept_for dr f' (hk_receipts t)" using other i(5) neq sub by blast
  moreover have "\<forall>(f', w') \<in> set ((f, w) # past). live_order w' f' \<longrightarrow> kept_for dr f' (hk_receipts t)"
  proof (clarify)
    fix f' w' assume fw: "(f', w') \<in> set ((f, w) # past)" and l: "live_order w' f'"
    show "kept_for dr f' (hk_receipts t)"
    proof (cases "(f', w') = (f, w)")
      case True
      then show ?thesis using live l by simp
    next
      case False
      then have "(f', w') \<in> set past" using fw by auto
      then show ?thesis using other i(6) l neq by (metis UnI2 fst_conv image_eqI)
    qed
  qed
  moreover have "\<forall>f' \<in> set (remove1 f fs) \<union> fst ` set ((f, w) # past). ft_receipt f' < hk_next_receipt t"
    using i(7) sub f by (auto simp: t)
  ultimately show ?thesis using num book d i(3) unfolding hook_inv_def by (simp add: t(3))
qed

lemma inv_landed:
  assumes "hook_inv dr (s, fs, past)" "f \<in> set fs"
  shows "hook_inv dr (snd (land w f s), remove1 f fs, (f, w) # past)"
  unfolding land_def
proof (rule inv_over [OF assms conclude_receipts])
  let ?r = "fst (fly w f start_talk)"
  show "releases (outcome_update f ?r) x" if "holds_for dr f x" for x
    using that outcome_update_print [of f ?r x] by (auto simp: releases_def holding_def holds_for_def)
  show "holds_for dr f (outcome_update f ?r x)" if "live_order w f" "holds_for dr f x" for x
  proof -
    have "?r = Inr (''accepted'', None) \<or> (\<exists>m. ?r = Inl (Unknown m))" using live_orderD [OF that(1)] by metis
    from outcome_update_live [OF this] that(2) show ?thesis by (simp add: holds_for_def)
  qed
qed (rule outcome_update_other)

lemma inv_died:
  assumes "hook_inv dr (s, fs, past)" "f \<in> set fs"
  shows "hook_inv dr (s, remove1 f fs, (f, w) # past)"
  by (rule inv_over [OF assms, where u = "\<lambda>x. x"]) (simp_all add: releases_def)

lemma inv_settings:
  assumes "hook_inv dr (s, fs, past)" "hk_receipts t = hk_receipts s" "hk_next_receipt t = hk_next_receipt s"
    "\<And>h. h \<in> set (hk_webhooks t) \<Longrightarrow> wh_max_per_minute h \<le> 60"
  shows "hook_inv dr (t, fs, past)"
  using assms by (simp add: hook_inv_def ids_fresh_def)

lemma audit_setting_fields [simp]:
  "hk_receipts (audit_setting ctx a d s) = hk_receipts s" "hk_next_receipt (audit_setting ctx a d s) = hk_next_receipt s"
  "hk_webhooks (audit_setting ctx a d s) = hk_webhooks s"
  by (simp_all add: audit_setting_def)

lemma rotate_secret_fields:
  "hk_receipts (snd (rotate_secret sha ctx token nh s)) = hk_receipts s" "hk_next_receipt (snd (rotate_secret sha ctx token nh s)) = hk_next_receipt s"
  "h \<in> set (hk_webhooks (snd (rotate_secret sha ctx token nh s))) \<Longrightarrow>
     wh_max_per_minute h = 10 \<or> (\<exists>h' \<in> set (hk_webhooks s). wh_max_per_minute h = wh_max_per_minute h')"
  by (auto simp: rotate_secret_def Let_def set_update_where split: option.split_asm option.split if_split_asm)

lemma update_webhook_cases:
  "snd (update_webhook origin ctx u s) = s \<or>
   (\<exists>lots al tfs msg. check_between 60 msg (wu_max_per_minute u) = Inr () \<and> hk_receipts (snd (update_webhook origin ctx u s)) = hk_receipts s \<and>
      hk_next_receipt (snd (update_webhook origin ctx u s)) = hk_next_receipt s \<and>
      hk_webhooks (snd (update_webhook origin ctx u s)) = update_where (\<lambda>x. wh_org x = cx_org ctx) (apply_update u lots al tfs) (hk_webhooks s))"
  by (auto simp: update_webhook_def Let_def split: option.split sum.split)

lemma update_webhook_fields:
  "hk_receipts (snd (update_webhook origin ctx u s)) = hk_receipts s" "hk_next_receipt (snd (update_webhook origin ctx u s)) = hk_next_receipt s"
  "h \<in> set (hk_webhooks (snd (update_webhook origin ctx u s))) \<Longrightarrow>
     wh_max_per_minute h \<le> 60 \<or> (\<exists>h' \<in> set (hk_webhooks s). wh_max_per_minute h = wh_max_per_minute h')"
proof -
  have bound: "wh_max_per_minute (apply_update u lots al tfs h) \<le> 60 \<or> wh_max_per_minute (apply_update u lots al tfs h) = wh_max_per_minute h"
    if "check_between 60 msg (wu_max_per_minute u) = Inr ()" for msg lots al tfs h
    using that by (auto simp: check_between_def apply_update_def split: option.split_asm if_split_asm)
  show "hk_receipts (snd (update_webhook origin ctx u s)) = hk_receipts s" "hk_next_receipt (snd (update_webhook origin ctx u s)) = hk_next_receipt s"
    using update_webhook_cases [of origin ctx u s] by auto
  assume h: "h \<in> set (hk_webhooks (snd (update_webhook origin ctx u s)))"
  from update_webhook_cases [of origin ctx u s] show "wh_max_per_minute h \<le> 60 \<or> (\<exists>h' \<in> set (hk_webhooks s). wh_max_per_minute h = wh_max_per_minute h')"
  proof (elim disjE exE conjE)
    assume "snd (update_webhook origin ctx u s) = s"
    then show ?thesis using h by auto
  next
    fix lots al tfs msg
    assume c: "check_between 60 msg (wu_max_per_minute u) = Inr ()"
      and "hk_webhooks (snd (update_webhook origin ctx u s)) = update_where (\<lambda>x. wh_org x = cx_org ctx) (apply_update u lots al tfs) (hk_webhooks s)"
    then show ?thesis using h bound [OF c, of lots al tfs] by (auto simp: set_update_where split: if_split_asm)
  qed
qed

lemma hook_step_keeps: "hook_step dr D E \<Longrightarrow> hook_inv dr D \<Longrightarrow> hook_inv dr E"
proof (induction rule: hook_step.induct)
  case (enter rq s r t fs past)
  note n = hook_invD(1) [OF enter.prems]
  show ?case
  proof (cases r)
    case (Inl reply)
    then show ?thesis using front_door_entered [OF enter.hyps n] inv_noted [OF enter.prems] by simp
  next
    case (Inr f)
    then obtain h acct where "shown dr h rq s" "boarded dr h acct rq s f t" using front_door_entered [OF enter.hyps n] by auto
    then show ?thesis using inv_boarded [OF enter.prems] Inr by (auto simp: shown_def find_hook_def dest: find_SomeD)
  qed
next
  case (rotate s fs past ctx token new_hook)
  show ?case
  proof (rule inv_settings [OF rotate.prems rotate_secret_fields(1,2)])
    fix h assume "h \<in> set (hk_webhooks (snd (rotate_secret (dr_sha dr) ctx token new_hook s)))"
    from rotate_secret_fields(3) [OF this] show "wh_max_per_minute h \<le> 60" using hook_invD(3) [OF rotate.prems] by auto
  qed
next
  case (update s fs past origin ctx u)
  show ?case
  proof (rule inv_settings [OF update.prems update_webhook_fields(1,2)])
    fix h assume "h \<in> set (hk_webhooks (snd (update_webhook origin ctx u s)))"
    from update_webhook_fields(3) [OF this] show "wh_max_per_minute h \<le> 60" using hook_invD(3) [OF update.prems] by auto
  qed
next
  case (elsewhere s fs past d)
  show ?case by (rule inv_settings [OF elsewhere.prems]) (simp_all add: hook_invD(3) [OF elsewhere.prems])
next
  case (land f fs s past w)
  then show ?case by (intro inv_landed)
next
  case (died f fs s past w)
  then show ?case by (intro inv_died)
qed

interpretation hook: bounded_machine "\<lambda>_ _. True" "hook_step dr" "hook_inv dr" "\<lambda>_. True" for dr
  by unfold_locales (auto intro: hook_step_keeps)

section \<open>Guarantees\<close>

text \<open>A receiver that has not received anything yet; the table's CHECK bounds the per-minute caps.\<close>

definition new_hooks :: "hooks \<Rightarrow> bool" where
  "new_hooks s \<longleftrightarrow> hk_receipts s = [] \<and> list_all (\<lambda>h. wh_max_per_minute h \<le> 60) (hk_webhooks s)"

lemma new_hooks_ok: "new_hooks s \<Longrightarrow> hook_inv dr (s, [], [])"
  by (simp add: new_hooks_def hook_inv_def ids_fresh_def receipts_ok_def spaced_def capped_def list_all_iff)

lemma reached_hooks: "new_hooks s0 \<Longrightarrow> (hook_step dr)\<^sup>*\<^sup>* (s0, [], []) D \<Longrightarrow> hook_inv dr D"
  using hook.run_keeps new_hooks_ok by blast

text \<open>
  C3. No double trade. However alerts arrive, resend, overlap, fail or die half-way, and whatever the operators
  change meanwhile: if two different alerts of a workspace each sent an order that may exist, and their trading
  content has the same fingerprint, they were received at least twenty seconds apart.
\<close>

theorem same_order_never_twice:
  assumes "new_hooks s0" "(hook_step dr)\<^sup>*\<^sup>* (s0, [], []) (s, fs, past)"
    and "(f, v) \<in> set past" "live_order v f" "(g, w) \<in> set past" "live_order w g"
    and "ft_receipt f \<noteq> ft_receipt g" "ft_org f = ft_org g" "work_print dr f = work_print dr g"
  shows "\<exists>x \<in> set (hk_receipts s). \<exists>y \<in> set (hk_receipts s). rc_id x = ft_receipt f \<and> rc_id y = ft_receipt g \<and>
    20 \<le> \<bar>rc_received_at x - rc_received_at y\<bar>"
proof -
  note i = hook_invD [OF reached_hooks [OF assms(1,2)]]
  obtain x where x: "x \<in> set (hk_receipts s)" "holds_for dr f x" using i(6) [OF assms(3,4)] unfolding kept_for_def ..
  obtain y where y: "y \<in> set (hk_receipts s)" "holds_for dr g y" using i(6) [OF assms(5,6)] unfolding kept_for_def ..
  have "holding x" "holding y" using x(2) y(2) by (simp_all add: holding_def holds_for_def)
  then have "20 \<le> \<bar>rc_received_at x - rc_received_at y\<bar>"
    using i(2) x y assms(7-9) by (auto simp: receipts_ok_def spaced_def holds_for_def)
  then show ?thesis using x y by (auto simp: holds_for_def)
qed

text \<open>
  C20. A leaked secret is bounded. In any sixty seconds (by the database's clock) at most sixty alerts of a
  workspace place an order that may exist, whatever happens to the settings.
\<close>

theorem orders_per_minute_bounded:
  assumes "new_hooks s0" "(hook_step dr)\<^sup>*\<^sup>* (s0, [], []) (s, fs, past)"
  shows "card {f. \<exists>w. (f, w) \<in> set past \<and> live_order w f \<and> ft_org f = g \<and>
    (\<exists>r \<in> set (hk_receipts s). rc_id r = ft_receipt f \<and> T - 60 < rc_received_at r \<and> rc_received_at r \<le> T)} \<le> 60"
proof -
  note i = hook_invD [OF reached_hooks [OF assms]]
  let ?F = "{f. \<exists>w. (f, w) \<in> set past \<and> live_order w f \<and> ft_org f = g \<and>
    (\<exists>r \<in> set (hk_receipts s). rc_id r = ft_receipt f \<and> T - 60 < rc_received_at r \<and> rc_received_at r \<le> T)}"
  have inj: "inj_on ft_receipt (fst ` set past)" using i(4) by (auto simp: distinct_map intro: inj_on_imageI)
  have sub: "?F \<subseteq> fst ` set past" by force
  have "ft_receipt f \<in> rc_id ` set (filter (in_minute g T) (hk_receipts s))" if "f \<in> ?F" for f
  proof -
    from that obtain w r where f: "(f, w) \<in> set past" "live_order w f" "ft_org f = g" and r: "r \<in> set (hk_receipts s)"
      "rc_id r = ft_receipt f" "T - 60 < rc_received_at r" "rc_received_at r \<le> T" by auto
    obtain y where y: "y \<in> set (hk_receipts s)" "holds_for dr f y" using i(6) [OF f(1,2)] unfolding kept_for_def ..
    have "y = r" using i(1) y r(1,2) unfolding ids_fresh_def holds_for_def distinct_map by (metis inj_onD)
    then have "in_minute g T r" using y(2) r(3,4) f(3) by (simp add: in_minute_def holding_def holds_for_def)
    with r(1) have "r \<in> set (filter (in_minute g T) (hk_receipts s))" by simp
    then show ?thesis unfolding r(2) [symmetric] by (rule imageI)
  qed
  then have "ft_receipt ` ?F \<subseteq> set (map rc_id (filter (in_minute g T) (hk_receipts s)))" by auto
  then have "card (ft_receipt ` ?F) \<le> card (set (map rc_id (filter (in_minute g T) (hk_receipts s))))"
    by (intro card_mono) simp_all
  also have "\<dots> \<le> length (filter (in_minute g T) (hk_receipts s))" using card_length [of "map rc_id (filter (in_minute g T) (hk_receipts s))"] by simp
  also have "\<dots> \<le> 60" using i(2) by (simp add: receipts_ok_def capped_def)
  finally show ?thesis using card_image [OF inj_on_subset [OF inj sub]] by simp
qed


text \<open>
  C9. Nothing is sent to the copier for an alert that has not passed every gate: it is small enough, comes from a
  TradingView address, carries the secret whose hash the workspace stored, automation and copying are on and dry
  run is off; it trades on the workspace's enabled master, for at most the workspace's cap and never more than
  fifty lots; and a trigger of the bridge has passed the gate of its higher timeframe.
\<close>

theorem alert_passed_every_gate:
  assumes "new_hooks s0" "(hook_step dr)\<^sup>*\<^sup>* (s0, [], []) (s, fs, past)" "front_door dr rq s = (Inr f, t)"
  shows "\<exists>h. find_hook (rq_hook_id rq) s = Some h \<and> length (rq_raw rq) \<le> 4096 \<and> rq_ip rq \<in> set (source_ips (dr_extra dr)) \<and>
    (\<exists>body. dr_loads dr (rq_raw rq) = Some body \<and> secret_ok dr h body) \<and> wh_enabled h \<and>
    (\<exists>g. find (\<lambda>g. o_org_id g = wh_org h) (db_orgs (hk_db s)) = Some g \<and> o_copying_enabled g \<and> \<not> o_dry_run g) \<and>
    master_of (wh_org h) s = Some (ft_account f) \<and> ob_account (order_of f) = ft_account f \<and>
    (case ft_work f of
       AlertWork al \<Rightarrow> al_action al \<in> {''close'', ''cancel''} \<or> lots_within (fl (wh_max_lots h)) (ob_lots (order_of f))
     | VtWork vt \<Rightarrow> lots_within (fl (wh_max_lots h)) (ob_lots (order_of f)) \<and>
         check_gate (map_of (hk_snapshots s) (wh_org h, vt_symbol vt)) vt (wh_vt_tfs h) (rq_utc rq) = None)"
proof -
  have "ids_fresh s" using reached_hooks [OF assms(1,2)] by (simp add: hook_inv_def)
  from front_door_entered [OF assms(3) this] obtain h where
    "shown dr h rq s" "master_of (wh_org h) s = Some (ft_account f)" "work_ok h rq s (ft_work f)"
    by (auto simp: boarded_def)
  then show ?thesis
    by (auto simp: shown_def MAX_BODY_BYTES_def work_ok_def order_of_def order_of_alert_def order_of_vt_def split: work.split_asm work.split)
qed


section \<open>A run\<close>

text \<open>The same alert to buy one lot of gold, received twice, twenty-five seconds apart; both orders are placed.\<close>

definition tv_body :: jv where
  "tv_body = VDict [(''secret'', VText ''tvw_s''), (''action'', VText ''buy''), (''symbol'', VText ''OANDA:XAUUSD''), (''lots'', VFloat (Fin 1)), (''id'', VText ''a'')]"

definition tv_door :: door where
  "tv_door = \<lparr>dr_sha = (\<lambda>x. x), dr_digest = (\<lambda>_. ''d''), dr_loads = (\<lambda>_. Some tv_body), dr_extra = []\<rparr>"

definition tv_row :: webhook_row where
  "tv_row = \<lparr>wh_org = 1, wh_hook_id = ''h'', wh_secret_hash = Some ''tvw_s'', wh_enabled = True, wh_max_lots = 1, wh_max_per_minute = 10,
     wh_max_open = 3, wh_aliases = [], wh_vt_tfs = []\<rparr>"

definition tv_db :: db where
  "tv_db = empty_db\<lparr>db_orgs := [\<lparr>o_org_id = 1, o_name = ''a'', o_copying_enabled = True, o_dry_run = False, o_settings_version = 0\<rparr>],
     db_accounts := [\<lparr>a_account_id = 7, a_org_id = 1, a_connection_id = None, a_trader_login = 0, a_is_live = False, a_role = master,
       a_enabled = True, a_multiplier = 1, a_status = OK, a_last_error = None, a_platform = mt5\<rparr>]\<rparr>"

definition tv_start :: hooks where
  "tv_start = \<lparr>hk_db = tv_db, hk_webhooks = [tv_row], hk_receipts = [], hk_next_receipt = 1, hk_snapshots = [], hk_limiter = new_limiter 5 60\<rparr>"

definition tv_request :: "rat \<Rightarrow> hook_request" where
  "tv_request now = \<lparr>rq_hook_id = ''h'', rq_raw = [], rq_ip = ''52.32.178.7'', rq_t0 = 0, rq_now = 0, rq_db_now = now, rq_utc = 0\<rparr>"

definition tv_alert :: alert where
  "tv_alert = \<lparr>al_action = ''buy'', al_symbol = ''XAUUSD'', al_lots = Some 1, al_stop_loss = None, al_take_profit = None, al_id = ''a'',
     al_order_type = ''market'', al_price = None\<rparr>"

definition tv_flight :: "ident \<Rightarrow> hook_flight" where
  "tv_flight i = \<lparr>ft_org = 1, ft_account = 7, ft_receipt = i, ft_max_open = 3, ft_t0 = 0, ft_work = AlertWork tv_alert\<rparr>"

definition tv_wire :: wire where
  "tv_wire = \<lparr>wi_clock = (\<lambda>_. 0), wi_answer = (\<lambda>_ _. Response 200 (Some (VDict [])) [])\<rparr>"

definition tv_receipt :: "ident \<Rightarrow> rat \<Rightarrow> receipt" where
  "tv_receipt i now = \<lparr>rc_id = i, rc_org = 1, rc_received_at = now, rc_outcome = ''accepted'', rc_reason = None, rc_action = Some ''buy'',
     rc_symbol = Some ''XAUUSD'', rc_fingerprint = Some ''d'', rc_alert_id = Some ''a'', rc_body = Some (redact tv_body)\<rparr>"

lemma tv_parse: "parse_alert tv_body (Some 1) = Inr tv_alert"
  unfolding tv_body_def tv_alert_def by code_simp

lemma tv_facts:
  "secret_ok tv_door tv_row tv_body" "\<not> has_role tv_body" "storable_row (Some (redact tv_body)) (Some (columns_of tv_alert))"
  "''52.32.178.7'' \<in> set (source_ips [])" "fl 1 = 1" "fl 2 = 2"
  using fl_int [of 1] fl_int [of 2]
  by (simp_all add: secret_ok_def tv_body_def dget_def tv_row_def tv_door_def has_role_def storable_row_def columns_of_def tv_alert_def
      secret_shaped_def SECRET_PREFIXES_def SECRET_PREFIX_def startswith_def no_nul_def source_ips_def TRADINGVIEW_SOURCE_IPS_def)

lemma tv_enters:
  assumes "hk_webhooks s = [tv_row]" "db_orgs (hk_db s) = db_orgs tv_db" "db_accounts (hk_db s) = db_accounts tv_db"
    "duplicates 1 ''d'' now s = []" "accepted_last_minute 1 now s < 10"
  shows "front_door tv_door (tv_request now) s = (Inr (tv_flight (hk_next_receipt s)),
    s\<lparr>hk_next_receipt := hk_next_receipt s + 1, hk_receipts := hk_receipts s @ [tv_receipt (hk_next_receipt s) now]\<rparr>)"
proof -
  have m: "hook_gates tv_row s = Inr 7"
    using assms(2,3) by (simp add: hook_gates_def master_of_def tv_row_def tv_db_def)
  have "parse_alert tv_body (Some (fl (wh_max_lots tv_row))) = Inr tv_alert"
    using tv_parse tv_facts(5) by (simp add: tv_row_def)
  moreover have "renamed tv_row (al_symbol tv_alert) = Some (al_symbol tv_alert)" by (simp add: renamed_def tv_row_def)
  ultimately have "admit_alert tv_door tv_row 7 (tv_request now) tv_body s = (Inr (tv_flight (hk_next_receipt s)),
    s\<lparr>hk_next_receipt := hk_next_receipt s + 1, hk_receipts := hk_receipts s @ [tv_receipt (hk_next_receipt s) now]\<rparr>)"
    using assms(4,5) tv_facts(3)
    by (simp add: admit_alert_def Let_def admit_def insert_receipt_def fingerprint_def tv_door_def tv_row_def tv_request_def tv_flight_def
        tv_receipt_def columns_of_def tv_alert_def)
  then show ?thesis
    using m tv_facts(1,2,4) assms(1)
    by (simp add: front_door_def handle_hook_def find_hook_def tv_request_def tv_row_def tv_door_def MAX_BODY_BYTES_def)
qed

lemma tv_flies:
  "fly tv_wire (tv_flight i) start_talk = (Inr (''accepted'', None), \<lparr>tk_reads = 3, tk_calls = [GetState 1, PostOrder (order_of (tv_flight i))]\<rparr>)"
  using tv_facts(6)
  by (simp add: fly_def tv_flight_def act_on_alert_def tv_alert_def place_order_def act_bind_def timed_call_def remaining_def tv_wire_def
      start_talk_def DEADLINE_S_def copier_call_def classify_def positions_on_def find_master_positions_def act_option_def act_return_def
      dget_def py_or_def py_true_def py_iter_def py_len_def room_left_def pending_of_def send_order_def order_of_def)

lemma tv_live: "live_order tv_wire (tv_flight i)"
proof -
  have a: "wi_answer tv_wire k c = Response 200 (Some (VDict [])) []" for k c by (simp add: tv_wire_def)
  show ?thesis by (simp add: live_order_def calls_of_def tv_flies may_exist_def a)
qed

definition tv_end :: hooks where
  "tv_end = (let s1 = snd (front_door tv_door (tv_request 0) tv_start); s2 = snd (land tv_wire (tv_flight 1) s1);
     s3 = snd (front_door tv_door (tv_request 25) s2) in snd (land tv_wire (tv_flight 2) s3))"

lemma tv_lands:
  assumes "hk_receipts s = rs @ [tv_receipt i now]" "list_all (\<lambda>r. rc_id r \<noteq> i) rs"
  shows "hk_receipts (snd (land tv_wire (tv_flight i) s)) = hk_receipts s"
proof -
  have "outcome_update (tv_flight i) (Inr (''accepted'', None)) x = x" if "x \<in> set (hk_receipts s)" for x
  proof (cases "x = tv_receipt i now")
    case True
    then show ?thesis by (simp add: outcome_update_def tv_flight_def tv_receipt_def)
  next
    case False
    then show ?thesis using assms that by (auto simp: list_all_iff tv_flight_def intro!: outcome_update_other)
  qed
  then show ?thesis by (simp add: land_def conclude_receipts tv_flies map_idI)
qed

lemma land_fields [simp]:
  "hk_next_receipt (snd (land w f s)) = hk_next_receipt s" "hk_webhooks (snd (land w f s)) = hk_webhooks s"
  "db_orgs (hk_db (snd (land w f s))) = db_orgs (hk_db s)" "db_accounts (hk_db (snd (land w f s))) = db_accounts (hk_db s)"
  by (auto simp: land_def conclude_receipts conclude_def Let_def hook_audit_def hook_event_def finish_receipt_def case_prod_beta split: sum.split way_out.split)

lemma tv_run:
  "(hook_step tv_door)\<^sup>*\<^sup>* (tv_start, [], []) (tv_end, [], [(tv_flight 2, tv_wire), (tv_flight 1, tv_wire)])"
  "hk_receipts tv_end = [tv_receipt 1 0, tv_receipt 2 25]"
proof -
  let ?s1 = "tv_start\<lparr>hk_next_receipt := 2, hk_receipts := [tv_receipt 1 0]\<rparr>"
  let ?s2 = "snd (land tv_wire (tv_flight 1) ?s1)"
  let ?s3 = "?s2\<lparr>hk_next_receipt := 3, hk_receipts := [tv_receipt 1 0, tv_receipt 2 25]\<rparr>"
  have e1: "front_door tv_door (tv_request 0) tv_start = (Inr (tv_flight 1), ?s1)"
    using tv_enters [of tv_start 0] by (simp add: tv_start_def duplicates_def accepted_last_minute_def)
  have r2: "hk_receipts ?s2 = [tv_receipt 1 0]" using tv_lands [of ?s1 "[]" 1 0] by simp
  have e2: "front_door tv_door (tv_request 25) ?s2 = (Inr (tv_flight 2), ?s3)"
    using tv_enters [of ?s2 25] r2
    by (simp add: tv_start_def duplicates_def accepted_last_minute_def tv_receipt_def DEDUP_WINDOW_S_def)
  have end_eq: "tv_end = snd (land tv_wire (tv_flight 2) ?s3)" by (simp only: tv_end_def e1 e2 Let_def snd_conv)
  show "hk_receipts tv_end = [tv_receipt 1 0, tv_receipt 2 25]"
    unfolding end_eq using tv_lands [of ?s3 "[tv_receipt 1 0]" 2 25] by (simp add: tv_receipt_def)
  have "hook_step tv_door (tv_start, [], []) (?s1, [tv_flight 1], [])" using hook_step.enter [OF e1, of "[]" "[]"] by simp
  moreover have "hook_step tv_door (?s1, [tv_flight 1], []) (?s2, [], [(tv_flight 1, tv_wire)])"
    using hook_step.land [of "tv_flight 1" "[tv_flight 1]"] by simp
  moreover have "hook_step tv_door (?s2, [], [(tv_flight 1, tv_wire)]) (?s3, [tv_flight 2], [(tv_flight 1, tv_wire)])"
    using hook_step.enter [OF e2, of "[]"] by simp
  moreover have "hook_step tv_door (?s3, [tv_flight 2], [(tv_flight 1, tv_wire)]) (tv_end, [], [(tv_flight 2, tv_wire), (tv_flight 1, tv_wire)])"
    unfolding end_eq using hook_step.land [of "tv_flight 2" "[tv_flight 2]"] by simp
  ultimately show "(hook_step tv_door)\<^sup>*\<^sup>* (tv_start, [], []) (tv_end, [], [(tv_flight 2, tv_wire), (tv_flight 1, tv_wire)])"
    by (meson converse_rtranclp_into_rtranclp rtranclp.rtrancl_refl)
qed

lemma tv_new: "new_hooks tv_start"
  by (simp add: new_hooks_def tv_start_def tv_row_def)

theorem same_order_never_twice_witness:
  "\<exists>x \<in> set (hk_receipts tv_end). \<exists>y \<in> set (hk_receipts tv_end). rc_id x = 1 \<and> rc_id y = 2 \<and> 20 \<le> \<bar>rc_received_at x - rc_received_at y\<bar>"
  using same_order_never_twice [OF tv_new tv_run(1), of "tv_flight 1" tv_wire "tv_flight 2" tv_wire] tv_live
  by (simp add: tv_flight_def work_print_def)

theorem orders_per_minute_bounded_witness:
  "card {f. \<exists>w. (f, w) \<in> {(tv_flight 2, tv_wire), (tv_flight 1, tv_wire)} \<and> live_order w f \<and> ft_org f = 1 \<and>
    (\<exists>r \<in> set (hk_receipts tv_end). rc_id r = ft_receipt f \<and> 30 - 60 < rc_received_at r \<and> rc_received_at r \<le> 30)} \<le> 60"
  using orders_per_minute_bounded [OF tv_new tv_run(1), of 1 30] by simp


theorem alert_passed_every_gate_witness: "master_of 1 tv_start = Some (ft_account (tv_flight 1)) \<and> wh_enabled tv_row"
proof -
  have "front_door tv_door (tv_request 0) tv_start = (Inr (tv_flight 1), tv_start\<lparr>hk_next_receipt := 2, hk_receipts := [tv_receipt 1 0]\<rparr>)"
    using tv_enters [of tv_start 0] by (simp add: tv_start_def duplicates_def accepted_last_minute_def)
  from alert_passed_every_gate [OF tv_new rtranclp.rtrancl_refl this]
  show ?thesis by (auto simp: find_hook_def tv_start_def tv_request_def tv_row_def)
qed


section \<open>Details\<close>

text \<open>Scrubbed text holds no prefix of a key anywhere.\<close>

lemma scrub_prefix:
  assumes "CHR ''*'' \<notin> set p" "prefix p (scrub_secrets s)"
  shows "prefix p s"
  using assms
proof (induction s arbitrary: p rule: scrub_secrets.induct)
  case (2 c cs)
  show ?case
  proof (cases p)
    case (Cons d ds)
    with 2 show ?thesis by (cases "secret_shaped (c # cs)") auto
  qed simp
qed simp

lemma scrub_no_secret: "p \<in> set SECRET_PREFIXES \<Longrightarrow> \<not> contains (scrub_secrets s) p"
proof (induction s rule: scrub_secrets.induct)
  case 1
  then show ?case by (auto simp: SECRET_PREFIXES_def SECRET_PREFIX_def)
next
  case (2 c cs)
  have star: "CHR ''*'' \<notin> set p" and ne: "p \<noteq> []" using "2.prems" by (auto simp: SECRET_PREFIXES_def SECRET_PREFIX_def)
  show ?case
  proof (cases "secret_shaped (c # cs)")
    case True
    obtain d ds where "p = d # ds" "d \<noteq> CHR ''*''" using star ne by (cases p) auto
    then show ?thesis using 2 True by (simp add: ne)
  next
    case False
    have "\<not> prefix p (c # scrub_secrets cs)"
      using scrub_prefix [OF star, of "c # cs"] False "2.prems" by (auto simp: secret_shaped_def startswith_def list_ex_iff)
    then show ?thesis using 2 False by simp
  qed
qed

text \<open>
  Two readings the patterns did not mean to allow: a newline before a decoration survives into the symbol, and an
  infinite \<^verbatim>\<open>bar_ms\<close> ends in an exception nobody catches.
\<close>

lemma newline_survives: "normalise_ticker (VText (''XAUUSD'' @ [CHR 0x0A] @ ''.P'')) = Inr (''XAUUSD'' @ [CHR 0x0A])"
  by code_simp

lemma infinite_bar_raises:
  "parse_vt_alert (VDict [(''role'', VText ''htf''), (''symbol'', VText ''XAUUSD''), (''tf'', VText ''60''), (''bias'', VText ''long''),
     (''entry'', VFloat (Fin 2)), (''stop'', VFloat (Fin 1)), (''target'', VFloat (Fin 3)), (''price'', VFloat (Fin 2)), (''valid'', VBool True),
     (''bar_ms'', VFloat (Inf True))]) None = None"
  by code_simp

text \<open>
  A close that reaches the copier for the first of two positions and not for the second is answered with a 503 and
  recorded as failed, although one position was closed.
\<close>

definition two_positions :: jv where
  "two_positions = VDict [(''master_positions'', VList [VDict [(''symbol'', VText ''XAUUSD''), (''position_id'', VInt 1)],
     VDict [(''symbol'', VText ''XAUUSD''), (''position_id'', VInt 2)]])]"

definition half_wire :: wire where
  "half_wire = \<lparr>wi_clock = (\<lambda>_. 0), wi_answer = (\<lambda>i _. if i < 2 then Response 200 (Some two_positions) [] else NoConnection ''refused'')\<rparr>"

lemma half_close_reported_failed:
  "let f = (tv_flight 1)\<lparr>ft_work := AlertWork (tv_alert\<lparr>al_action := ''close''\<rparr>)\<rparr>
   in calls_of half_wire f = [GetState 1, PostClose 7 (VInt 1), PostClose 7 (VInt 2)] \<and> hr_status (fst (land half_wire f s)) = 503"
proof -
  have up: "py_upper ''XAUUSD'' = ''XAUUSD''" by code_simp
  show ?thesis
    using tv_facts(6)
    by (simp add: land_def calls_of_def fly_def tv_flight_def act_on_alert_def tv_alert_def close_positions_def act_bind_def timed_call_def
        remaining_def half_wire_def start_talk_def DEADLINE_S_def copier_call_def classify_def positions_on_def find_master_positions_def
        act_option_def act_return_def dget_def py_or_def py_true_def py_iter_def two_positions_def held_on_def up conclude_def hook_json_def Let_def)
qed

end
