(* ===== verification/Operator_Control.thy ===== *)
theory Operator_Control
  imports Mt5_Bridge
begin

text \<open>
  The operator's control of an organisation (\<^verbatim>\<open>copier/main.py\<close>, \<^verbatim>\<open>copier/mt5/lane.py\<close>): pausing,
  resuming and dry run, and the kill switch that flattens accounts. The application's state is the
  \<open>bridge\<close>; the routing snapshot and what the process knows of an account's broker connection are
  the environment.

  A flatten is a coroutine: it looks at the account's book, sends, sleeps and looks again. Between
  two looks anything may happen, so the model is one step per look, over the state at that moment.
  The broker's answer to the look of a cTrader account is an argument; an MT5 account's book is its
  terminal's last report.
\<close>

section \<open>Environment and exceptions\<close>

text \<open>
  \<open>Py\<close> is an exception with a constructor of its own, \<open>QueryFailed\<close> an error response of the broker,
  \<open>OtherExc\<close> any other exception, by its message.
\<close>

datatype ctl_exc = Py py_exc | QueryFailed string | OtherExc string

datatype client_state = NoClient | Refused string | Connected

record app_env =
  ae_routing :: org_routing
  ae_client :: "ident \<Rightarrow> client_state"

definition is_mt5 :: "app_env \<Rightarrow> ident \<Rightarrow> bool" where
  "is_mt5 env account_id \<longleftrightarrow> map_of (platform_by_account (ae_routing env)) account_id = Some mt5"

definition on_engine :: "(engine \<Rightarrow> engine) \<Rightarrow> bridge \<Rightarrow> bridge" where
  "on_engine f = on_service (\<lambda>s. s\<lparr>sv_engine := f (sv_engine s)\<rparr>)"

definition br_tasks :: "bridge \<Rightarrow> send_task list" where
  "br_tasks b = eng_tasks (sv_engine (br_service b))"

text \<open>\<^verbatim>\<open>next((a for a in load_accounts() if a.account_id == account_id), None)\<close> is \<^const>\<open>account_row_of\<close>.\<close>

definition account_not_found :: "ident \<Rightarrow> py_exc" where
  "account_not_found account_id = ValueError (''account '' @ str_int account_id @ '' not found'')"

definition not_in_org :: "ident \<Rightarrow> ident \<Rightarrow> ctl_exc" where
  "not_in_org org_id account_id =
     Py (ValueError (''account '' @ str_int account_id @ '' not in org '' @ str_int org_id))"

definition account_in_org :: "ident \<Rightarrow> ident \<Rightarrow> bridge \<Rightarrow> ctl_exc + unit" where
  "account_in_org org_id account_id b =
     (case account_row_of account_id b of
        None \<Rightarrow> Inl (not_in_org org_id account_id)
      | Some a \<Rightarrow> if a_org_id a = org_id then Inr () else Inl (not_in_org org_id account_id))"

text \<open>
  \<^verbatim>\<open>_query_context\<close>: the account's client, or the MT5 lane in its place, and its symbols by id.
\<close>

datatype query_client = LaneClient | BrokerClient

definition symbols_by_id :: "(string, symbol_info) dict \<Rightarrow> (ident, symbol_info) dict" where
  "symbols_by_id cache = dict_of (map (\<lambda>(n, si). (si_symbol_id si, si)) cache)"

definition query_context :: "app_env \<Rightarrow> ident \<Rightarrow> bridge \<Rightarrow> ctl_exc + (query_client \<times> (ident, symbol_info) dict)" where
  "query_context env account_id b =
     (let symbols = symbols_by_id (load_symbol_cache account_id (br_tables b)) in
      case account_row_of account_id b of
        None \<Rightarrow> Inl (Py (account_not_found account_id))
      | Some a \<Rightarrow>
          if a_platform a = mt5 then Inr (LaneClient, symbols)
          else (case ae_client env account_id of
                  NoClient \<Rightarrow> Inl (Py (ValueError (''no client for account '' @ str_int account_id)))
                | Refused reason \<Rightarrow> Inl (Py (ValueError (''account '' @ str_int account_id
                    @ '' is not authorized: the broker refused with '' @ reason)))
                | Connected \<Rightarrow> Inr (BrokerClient, symbols)))"

definition control_log ::
  "string \<Rightarrow> payload \<Rightarrow> ident option \<Rightarrow> ident option \<Rightarrow> string option \<Rightarrow> bridge \<Rightarrow> bridge" where
  "control_log severity p account_id org_id actor =
     on_br_db (log_event ''control'' severity p account_id None org_id actor)"

section \<open>Pausing, resuming, dry run\<close>

text \<open>
  The reload that follows a pause or a resume rebuilds connections and subscriptions; it does not
  write to the tables of the model.
\<close>

definition org_exists :: "ident \<Rightarrow> bridge \<Rightarrow> ctl_exc + org_row" where
  "org_exists org_id b = map_sum Py id (get_org org_id (br_db b))"

definition write_setting :: "ident \<Rightarrow> string \<Rightarrow> bool \<Rightarrow> bridge \<Rightarrow> ctl_exc + bridge" where
  "write_setting org_id name v b =
     map_sum Py (\<lambda>d. on_br_db (\<lambda>_. d) b) (set_org_setting org_id name v (br_db b))"

definition switch_copying ::
  "bool \<Rightarrow> string \<Rightarrow> string \<Rightarrow> account_status \<Rightarrow> ident \<Rightarrow> ident option \<Rightarrow> string option \<Rightarrow> bridge \<Rightarrow> ctl_exc + bridge" where
  "switch_copying v org_action slave_action status org_id account_id actor b =
     (case org_exists org_id b of
        Inl x \<Rightarrow> Inl x
      | Inr _ \<Rightarrow>
          (case account_id of
             None \<Rightarrow> map_sum id (control_log ''info'' [(''action'', JStr org_action)] None (Some org_id) actor)
                      (write_setting org_id ''copying_enabled'' v b)
           | Some a \<Rightarrow> map_sum id (\<lambda>_. control_log ''info'' [(''action'', JStr slave_action), (''account_id'', JInt a)]
                        (Some a) (Some org_id) actor (on_br_db (set_account_status a status None) b))
                      (account_in_org org_id a b)))"

definition pause :: "ident \<Rightarrow> ident option \<Rightarrow> string option \<Rightarrow> bridge \<Rightarrow> ctl_exc + bridge" where
  "pause = switch_copying False ''pause_org'' ''pause_slave'' Paused"

definition resume :: "ident \<Rightarrow> ident option \<Rightarrow> string option \<Rightarrow> bridge \<Rightarrow> ctl_exc + bridge" where
  "resume = switch_copying True ''resume_org'' ''resume_slave'' OK"

definition set_dry_run :: "ident \<Rightarrow> bool \<Rightarrow> string option \<Rightarrow> bridge \<Rightarrow> ctl_exc + bridge" where
  "set_dry_run org_id enabled actor b =
     (case org_exists org_id b of
        Inl x \<Rightarrow> Inl x
      | Inr _ \<Rightarrow> map_sum id
          (control_log ''info'' [(''action'', JStr ''set_dry_run''), (''enabled'', JBool enabled)] None (Some org_id) actor)
          (write_setting org_id ''dry_run'' enabled b))"

section \<open>Flattening one account\<close>

definition FLATTEN_ROUNDS :: nat where "FLATTEN_ROUNDS = 3"

text \<open>
  The local variables of a flatten: the ids seen first (sets, \<open>None\<close> before the first look), the ids
  seen last, and the rounds in which something was sent. \<open>fr_attempt = FLATTEN_ROUNDS\<close> is the look
  of the loop's \<^verbatim>\<open>else\<close> clause.
\<close>

record flatten_run =
  fr_account :: ident
  fr_org :: "ident option"
  fr_attempt :: nat
  fr_first :: "(ident set \<times> ident set) option"
  fr_open_positions :: "ident list"
  fr_open_orders :: "ident list"
  fr_rounds :: nat

datatype flatten_error = StillOpen nat nat nat | Raised ctl_exc

record flatten_summary =
  sm_account :: ident
  sm_positions_closed :: nat
  sm_orders_cancelled :: nat
  sm_positions_remaining :: "ident list option"
  sm_orders_remaining :: "ident list option"
  sm_rounds :: nat
  sm_error :: "flatten_error option"

datatype flatten_progress = Sleeping flatten_run | Finished flatten_summary

definition flatten_start :: "ident \<Rightarrow> ident option \<Rightarrow> flatten_run" where
  "flatten_start account_id org_id = \<lparr>fr_account = account_id, fr_org = org_id, fr_attempt = 0, fr_first = None,
     fr_open_positions = [], fr_open_orders = [], fr_rounds = 0\<rparr>"

definition observe :: "ident list \<Rightarrow> ident list \<Rightarrow> flatten_run \<Rightarrow> flatten_run" where
  "observe positions orders r =
     r\<lparr>fr_first := Some (case fr_first r of None \<Rightarrow> (set positions, set orders) | Some f \<Rightarrow> f),
       fr_open_positions := positions, fr_open_orders := orders\<rparr>"

definition next_round :: "flatten_run \<Rightarrow> flatten_run" where
  "next_round r = r\<lparr>fr_rounds := fr_attempt r + 1, fr_attempt := fr_attempt r + 1\<rparr>"

definition flatten_verdict :: "flatten_run \<Rightarrow> flatten_summary" where
  "flatten_verdict r =
     (let (first_positions, first_orders) = (case fr_first r of None \<Rightarrow> ({}, {}) | Some f \<Rightarrow> f);
          open_positions = fr_open_positions r; open_orders = fr_open_orders r
      in \<lparr>sm_account = fr_account r,
          sm_positions_closed = card first_positions - card (first_positions \<inter> set open_positions),
          sm_orders_cancelled = card first_orders - card (first_orders \<inter> set open_orders),
          sm_positions_remaining = Some open_positions, sm_orders_remaining = Some open_orders,
          sm_rounds = fr_rounds r,
          sm_error = (if open_positions \<noteq> [] \<or> open_orders \<noteq> []
                      then Some (StillOpen (length open_positions) (length open_orders) (fr_rounds r)) else None)\<rparr>)"

definition jids :: "ident list \<Rightarrow> json" where "jids xs = JList (map JInt xs)"

definition log_verdict :: "ident option \<Rightarrow> flatten_summary \<Rightarrow> bridge \<Rightarrow> bridge" where
  "log_verdict org_id m =
     control_log (if sm_error m \<noteq> None then ''error'' else ''warning'')
       [(''action'', JStr ''kill_switch_flatten''), (''positions_closed'', JInt (int (sm_positions_closed m))),
        (''orders_cancelled'', JInt (int (sm_orders_cancelled m))),
        (''positions_remaining'', jids (the (sm_positions_remaining m))),
        (''orders_remaining'', jids (the (sm_orders_remaining m))), (''rounds'', JInt (int (sm_rounds m)))]
       (Some (sm_account m)) org_id None"

definition must_send :: "flatten_run \<Rightarrow> bool" where
  "must_send r \<longleftrightarrow> fr_attempt r < FLATTEN_ROUNDS \<and> (fr_open_positions r \<noteq> [] \<or> fr_open_orders r \<noteq> [])"

definition conclude_flatten :: "ident option \<Rightarrow> flatten_run \<Rightarrow> bridge \<Rightarrow> (ctl_exc + flatten_progress) \<times> bridge" where
  "conclude_flatten org_id r b =
     (let m = flatten_verdict r in (Inr (Finished m), log_verdict org_id m b))"

text \<open>
  A look at a cTrader account's book: \<^verbatim>\<open>_reconcile_book\<close>. The response names the account it is for.
\<close>

record broker_book =
  bk_account :: ident
  bk_positions :: "reconcile_position list"
  bk_orders :: "reconcile_order list"

datatype broker_answer = ReconcileRes broker_book | ErrorRes string | SendRaised string

definition extract_or_raise :: "string \<Rightarrow> broker_answer \<Rightarrow> ctl_exc + broker_book" where
  "extract_or_raise what answer = (case answer of
      ReconcileRes book \<Rightarrow> Inr book
    | ErrorRes code \<Rightarrow> Inl (QueryFailed (what @ '' failed: '' @ code))
    | SendRaised msg \<Rightarrow> Inl (OtherExc msg))"

definition reconcile_book :: "ident \<Rightarrow> broker_answer \<Rightarrow> ctl_exc + (reconcile_position list \<times> reconcile_order list)" where
  "reconcile_book account_id answer =
     (case extract_or_raise ''reconcile'' answer of
        Inl x \<Rightarrow> Inl x
      | Inr rec \<Rightarrow>
          if bk_account rec \<noteq> account_id
          then Inl (QueryFailed (''reconcile for account '' @ str_int account_id @ '' was answered with account ''
                 @ str_int (bk_account rec) @ [CHR 0x27] @ ''s book''))
          else Inr (bk_positions rec, bk_orders rec))"

definition close_request :: "ident \<Rightarrow> reconcile_position \<Rightarrow> request" where
  "close_request account_id p = ClosePositionReq account_id (rq_position_id p) (rq_volume p)"

definition cancel_request :: "ident \<Rightarrow> reconcile_order \<Rightarrow> request" where
  "cancel_request account_id q = CancelOrderReq account_id (rq_order_id q)"

text \<open>
  \<^verbatim>\<open>send_direct\<close>: no gate, the same throttle and retry ladder. The bucket a send waits in only paces
  it and is not part of the task.
\<close>

definition send_direct :: "ident \<Rightarrow> request \<Rightarrow> bridge \<Rightarrow> bridge" where
  "send_direct account_id req = on_engine (start_send account_id req)"

text \<open>
  One look of \<^verbatim>\<open>_flatten_account\<close> and what follows it up to the next sleep. The cTrader flatten logs
  without an organisation.
\<close>

definition ctrader_round :: "flatten_run \<Rightarrow> broker_answer \<Rightarrow> bridge \<Rightarrow> (ctl_exc + flatten_progress) \<times> bridge" where
  "ctrader_round r answer b =
     (case reconcile_book (fr_account r) answer of
        Inl x \<Rightarrow> (Inl x, b)
      | Inr (positions, orders) \<Rightarrow>
          let r1 = observe (map rq_position_id positions) (map rq_order_id orders) r in
          if must_send r1
          then (Inr (Sleeping (next_round r1)),
                fold (send_direct (fr_account r))
                  (map (close_request (fr_account r)) positions @ map (cancel_request (fr_account r)) orders) b)
          else conclude_flatten None r1 b)"

text \<open>
  The same for the MT5 lane (\<^verbatim>\<open>MT5Lane.flatten\<close>): the book is the registry's report, a ticket whose close
  or cancel is still open in the outbox is not queued again. Every command is its own transaction:
  when one raises, those before it stay queued.
\<close>

definition payload_ints :: "string \<Rightarrow> string \<Rightarrow> command_row list \<Rightarrow> ident set" where
  "payload_ints kind field rows =
     set (List.map_filter (\<lambda>c. if c_kind c = kind
            then (case map_of (c_payload c) field of Some (JInt i) \<Rightarrow> Some i | _ \<Rightarrow> None) else None) rows)"

definition lane_close :: "ident \<Rightarrow> string \<times> payload" where
  "lane_close ticket = (''close'', [(''position'', JInt ticket), (''lots'', JNum 0)])"

definition lane_cancel :: "ident \<Rightarrow> string \<times> payload" where
  "lane_cancel ticket = (''cancel_pending'', [(''order'', JInt ticket)])"

fun enqueue_all :: "ident \<Rightarrow> ident \<Rightarrow> int \<Rightarrow> (string \<times> payload) list \<Rightarrow> db \<Rightarrow> unit res \<times> db" where
  "enqueue_all account_id org_id db_now [] s = (Inr (), s)"
| "enqueue_all account_id org_id db_now ((kind, p) # cs) s =
     (case enqueue_mt5_command account_id org_id kind p None db_now s of
        Inl x \<Rightarrow> (Inl x, s)
      | Inr (_, s1) \<Rightarrow> enqueue_all account_id org_id db_now cs s1)"

definition lane_commands :: "ident \<Rightarrow> sync_report \<Rightarrow> db \<Rightarrow> (string \<times> payload) list" where
  "lane_commands account_id report s =
     (let queued = mt5_commands_open account_id s;
          closing = payload_ints ''close'' ''position'' queued;
          cancelling = payload_ints ''cancel_pending'' ''order'' queued
      in map lane_close (filter (\<lambda>t. t \<notin> closing) (map rp_ticket (sr_positions report)))
         @ map lane_cancel (filter (\<lambda>t. t \<notin> cancelling) (map ro_ticket (sr_orders report))))"

definition lane_round :: "flatten_run \<Rightarrow> ident \<Rightarrow> int \<Rightarrow> bridge \<Rightarrow> (ctl_exc + flatten_progress) \<times> bridge" where
  "lane_round r org_id db_now b =
     (case report_of (fr_account r) (br_registry b) of
        None \<Rightarrow> (Inl (OtherExc ''AttributeError''), b)
      | Some report \<Rightarrow>
          let r1 = observe (map rp_ticket (sr_positions report)) (map ro_ticket (sr_orders report)) r in
          if must_send r1
          then (case enqueue_all (fr_account r) org_id db_now (lane_commands (fr_account r) report (br_db b)) (br_db b) of
                  (Inl x, s) \<Rightarrow> (Inl (Py x), on_br_db (\<lambda>_. s) b)
                | (Inr _, s) \<Rightarrow> (Inr (Sleeping (next_round r1)), on_br_db (\<lambda>_. s) b))
          else conclude_flatten (Some org_id) r1 b)"

text \<open>
  \<^verbatim>\<open>_flatten_account\<close> up to its first look, its looks, and \<^verbatim>\<open>_flatten_account_safely\<close> around them: an
  exception becomes a summary. A run with an organisation is the lane's.
\<close>

definition flatten_begin :: "app_env \<Rightarrow> ident \<Rightarrow> bridge \<Rightarrow> ctl_exc + flatten_run" where
  "flatten_begin env account_id b =
     (if is_mt5 env account_id
      then (case org_for_account account_id (br_db b) of
              None \<Rightarrow> Inl (Py (account_not_found account_id))
            | Some org_id \<Rightarrow>
                (case report_of account_id (br_registry b) of
                   None \<Rightarrow> Inl (Py (ValueError (''MT5 account '' @ str_int account_id
                      @ '' has not reported yet: is the terminal connected?'')))
                 | Some _ \<Rightarrow> Inr (flatten_start account_id (Some org_id))))
      else (case query_context env account_id b of
              Inl x \<Rightarrow> Inl x
            | Inr (LaneClient, _) \<Rightarrow> Inl (OtherExc ''AttributeError'')
            | Inr (BrokerClient, _) \<Rightarrow> Inr (flatten_start account_id None)))"

definition failed_summary :: "ident \<Rightarrow> ctl_exc \<Rightarrow> flatten_summary" where
  "failed_summary account_id x = \<lparr>sm_account = account_id, sm_positions_closed = 0, sm_orders_cancelled = 0,
     sm_positions_remaining = None, sm_orders_remaining = None, sm_rounds = 0, sm_error = Some (Raised x)\<rparr>"

definition flatten_round :: "flatten_run \<Rightarrow> broker_answer \<times> int \<Rightarrow> bridge \<Rightarrow> (ctl_exc + flatten_progress) \<times> bridge" where
  "flatten_round r ob b =
     (case fr_org r of
        None \<Rightarrow> ctrader_round r (fst ob) b
      | Some org_id \<Rightarrow> lane_round r org_id (snd ob) b)"

text \<open>The looks of a run, each at the state of its moment, and how many it needed.\<close>

fun flatten_looks ::
  "(flatten_run \<Rightarrow> 'o \<Rightarrow> 's \<Rightarrow> (ctl_exc + flatten_progress) \<times> 's) \<Rightarrow> flatten_run \<Rightarrow> ('o \<times> 's) list
   \<Rightarrow> (ctl_exc + flatten_progress) \<times> nat" where
  "flatten_looks rnd r [] = (Inr (Sleeping r), 0)"
| "flatten_looks rnd r ((ob, s) # rest) =
     (case fst (rnd r ob s) of
        Inl x \<Rightarrow> (Inl x, 1)
      | Inr (Sleeping r') \<Rightarrow> map_prod id Suc (flatten_looks rnd r' rest)
      | Inr (Finished m) \<Rightarrow> (Inr (Finished m), 1))"

definition flatten_account ::
  "app_env \<Rightarrow> ident \<Rightarrow> bridge \<Rightarrow> ((broker_answer \<times> int) \<times> bridge) list \<Rightarrow> (ctl_exc + flatten_progress) \<times> nat" where
  "flatten_account env account_id b looks =
     (case flatten_begin env account_id b of
        Inl x \<Rightarrow> (Inl x, 0)
      | Inr r \<Rightarrow> flatten_looks flatten_round r looks)"

definition flatten_account_safely ::
  "app_env \<Rightarrow> ident \<Rightarrow> bridge \<Rightarrow> ((broker_answer \<times> int) \<times> bridge) list \<Rightarrow> flatten_progress \<times> nat" where
  "flatten_account_safely env account_id b looks =
     map_prod (\<lambda>p. case p of Inl x \<Rightarrow> Finished (failed_summary account_id x) | Inr q \<Rightarrow> q) id
       (flatten_account env account_id b looks)"

section \<open>The kill switch\<close>

text \<open>
  \<^verbatim>\<open>close_all\<close> is cut where it waits: everything up to the flattens, then, once they are done (or the
  reading of the accounts raised) and the grace is over, the rest. \<open>db_fault\<close> is what may become of
  the database while the setting is restored: the statement may raise before or after it took effect,
  or the event that follows it may fail.
\<close>

record close_all_flight =
  ft_org :: ident
  ft_account :: "ident option"
  ft_actor :: "string option"
  ft_was_copying :: bool
  ft_guard_version :: int
  ft_targets :: "ident list"

definition flatten_targets :: "ident \<Rightarrow> db \<Rightarrow> ident list" where
  "flatten_targets org_id s =
     map a_account_id (filter (\<lambda>a. a_org_id a = org_id \<and> a_enabled a \<and> a_status a \<noteq> Paused)
       (db_accounts s))"

definition close_all_begin ::
  "ident \<Rightarrow> ident option \<Rightarrow> string option \<Rightarrow> bridge \<Rightarrow> (ctl_exc + close_all_flight) \<times> bridge" where
  "close_all_begin org_id account_id actor b =
     (case org_exists org_id b of
        Inl x \<Rightarrow> (Inl x, b)
      | Inr org \<Rightarrow>
          (case account_id of
             Some a \<Rightarrow>
               (case account_in_org org_id a b of
                  Inl x \<Rightarrow> (Inl x, b)
                | Inr _ \<Rightarrow> (Inr \<lparr>ft_org = org_id, ft_account = account_id, ft_actor = actor, ft_was_copying = False,
                              ft_guard_version = 0, ft_targets = [a]\<rparr>, b))
           | None \<Rightarrow>
               (case write_setting org_id ''copying_enabled'' False b of
                  Inl x \<Rightarrow> (Inl x, b)
                | Inr b1 \<Rightarrow>
                    (case get_org_settings_version org_id (br_db b1) of
                       Inl x \<Rightarrow> (Inl (Py x), b1)
                     | Inr guard_version \<Rightarrow>
                         (Inr \<lparr>ft_org = org_id, ft_account = None, ft_actor = actor,
                            ft_was_copying = o_copying_enabled org, ft_guard_version = guard_version,
                            ft_targets = flatten_targets org_id (br_db b1)\<rparr>, b1)))))"

datatype db_fault = Fine | Lost_before | Lost_after | Lost_logging

definition log_restore :: "string \<Rightarrow> string \<Rightarrow> string \<Rightarrow> ident \<Rightarrow> db \<Rightarrow> db" where
  "log_restore severity act detail org_id =
     log_event ''control'' severity [(''action'', JStr act), (''detail'', JStr detail)] None None (Some org_id) None"

definition restore_attempt :: "ident \<Rightarrow> int \<Rightarrow> db_fault \<Rightarrow> db \<Rightarrow> bool \<times> db" where
  "restore_attempt org_id guard_version fault s =
     (let (restored, s1) = restore_copying_if_unchanged org_id guard_version s in
      case fault of
        Lost_before \<Rightarrow> (False, s)
      | Lost_after \<Rightarrow> (False, s1)
      | Lost_logging \<Rightarrow> (restored, s1)
      | Fine \<Rightarrow> (True, if restored then s1 else log_restore ''warning'' ''close_all_restore_skipped''
          ''settings were changed during the flatten; leaving them as the newer write put them'' org_id s1))"

definition restore_copying_after_flatten :: "ident \<Rightarrow> int \<Rightarrow> db_fault \<times> db_fault \<times> bool \<Rightarrow> db \<Rightarrow> db" where
  "restore_copying_after_flatten org_id guard_version faults s =
     (let (f1, f2, log_lost) = faults;
          (ok1, s1) = restore_attempt org_id guard_version f1 s;
          (ok2, s2) = (if ok1 then (True, s1) else restore_attempt org_id guard_version f2 s1)
      in if ok2 \<or> log_lost then s2
         else log_restore ''error'' ''close_all_restore_failed''
                ''copying is still OFF after the flatten; resume it manually'' org_id s2)"

definition json_error :: "flatten_error \<Rightarrow> json" where
  "json_error x = (case x of
      StillOpen n m k \<Rightarrow> JStr (str_nat n @ '' position(s) and '' @ str_nat m @ '' order(s) still open after '' @ str_nat k @ '' attempt(s)'')
    | Raised (Py e) \<Rightarrow> JExc e | Raised (QueryFailed t) \<Rightarrow> JStr t | Raised (OtherExc t) \<Rightarrow> JStr t)"

definition json_summary :: "flatten_summary \<Rightarrow> json" where
  "json_summary m = JObj [(''account_id'', JInt (sm_account m)),
     (''positions_closed'', JInt (int (sm_positions_closed m))), (''orders_cancelled'', JInt (int (sm_orders_cancelled m))),
     (''positions_remaining'', case sm_positions_remaining m of None \<Rightarrow> JNull | Some xs \<Rightarrow> jids xs),
     (''orders_remaining'', case sm_orders_remaining m of None \<Rightarrow> JNull | Some xs \<Rightarrow> jids xs),
     (''rounds'', JInt (int (sm_rounds m))), (''error'', case sm_error m of None \<Rightarrow> JNull | Some x \<Rightarrow> json_error x)]"

record close_all_reply =
  cr_paused :: bool
  cr_accounts :: "flatten_summary list"

definition close_all_finish ::
  "close_all_flight \<Rightarrow> ctl_exc + flatten_summary list \<Rightarrow> db_fault \<times> db_fault \<times> bool \<Rightarrow> bool \<Rightarrow> bridge
   \<Rightarrow> (ctl_exc + close_all_reply) \<times> bridge" where
  "close_all_finish ft results faults read_lost b =
     (let b1 = (if ft_was_copying ft
                then on_br_db (restore_copying_after_flatten (ft_org ft) (ft_guard_version ft) faults) b else b);
          paused = (if ft_account ft \<noteq> None then False
                    else if read_lost then True
                    else case get_org (ft_org ft) (br_db b1) of Inl _ \<Rightarrow> True | Inr org \<Rightarrow> \<not> o_copying_enabled org)
      in case results of
           Inl x \<Rightarrow> (Inl x, b1)
         | Inr ms \<Rightarrow>
             (Inr \<lparr>cr_paused = paused, cr_accounts = ms\<rparr>,
              control_log ''warning''
                [(''action'', JStr ''kill_switch''), (''org_wide'', JBool (ft_account ft = None)),
                 (''copying_paused'', JBool paused), (''accounts'', JList (map json_summary ms))]
                (ft_account ft) (Some (ft_org ft)) (ft_actor ft) b1))"

end
