(* ===== verification/Operator_Orders.thy ===== *)
theory Operator_Orders
  imports Operator_Control Hook_Alerts
begin

text \<open>
  The operator's own trades (\<^verbatim>\<open>copier/main.py\<close>, \<^verbatim>\<open>copier/mt5/lane.py\<close>): the manual order, closing
  a position, changing its protection and cancelling an order, on a cTrader account or through the MT5
  lane, and the sweep that trails stops. A request's body is the dict of values \<^verbatim>\<open>json.loads\<close> made of
  it; a field that is missing reads as \<open>VNone\<close>. The actor is a text or absent, as the API sends it.

  An exception that \<^verbatim>\<open>int()\<close> or \<^verbatim>\<open>float()\<close> raises outside a \<^verbatim>\<open>try\<close> is \<open>OtherExc\<close>.
\<close>

section \<open>Environment\<close>

text \<open>
  The quotes an organisation's tracker holds (\<open>None\<close>: no tracker; a quote is \<open>None\<close> before the first
  tick), the master's symbols, the reconcilers, the live price of a cTrader position and the ceiling on
  manual orders.
\<close>

record order_env =
  oe_app :: app_env
  oe_quotes :: "ident \<Rightarrow> (ident \<Rightarrow> (price option \<times> price option) option) option"
  oe_master_symbols :: "ident \<Rightarrow> symbol_info list"
  oe_reconcilers :: "ident \<Rightarrow> reconciler option"
  oe_position_price :: "ident \<Rightarrow> ident \<Rightarrow> ident \<Rightarrow> price option"
  oe_max_lots :: pyfloat

text \<open>\<^verbatim>\<open>_max_manual_lots\<close>, from the environment variable's text.\<close>

definition max_manual_lots :: "string option \<Rightarrow> pyfloat" where
  "max_manual_lots raw =
     (case float_of_text (case raw of None \<Rightarrow> ''10'' | Some t \<Rightarrow> t) of
        Some (Fin x) \<Rightarrow> if 0 < x then Fin x else Fin 10
      | Some (Inf True) \<Rightarrow> Inf True
      | _ \<Rightarrow> Fin 10)"

definition exceeds :: "rat \<Rightarrow> pyfloat \<Rightarrow> bool" where
  "exceeds x limit = (case limit of Fin y \<Rightarrow> y < x | Inf positive \<Rightarrow> \<not> positive | Not_a_number \<Rightarrow> False)"

definition exc_bind :: "ctl_exc + 'a \<Rightarrow> ('a \<Rightarrow> ctl_exc + 'b) \<Rightarrow> ctl_exc + 'b" where
  "exc_bind r f = (case r of Inl x \<Rightarrow> Inl x | Inr v \<Rightarrow> f v)"

lemma exc_bind_Inr_iff: "exc_bind r f = Inr y \<longleftrightarrow> (\<exists>x. r = Inr x \<and> f x = Inr y)"
  by (cases r) (auto simp: exc_bind_def)

definition bad :: "string \<Rightarrow> ctl_exc + 'a" where "bad t = Inl (Py (ValueError t))"

text \<open>\<^verbatim>\<open>float(v)\<close> inside \<^verbatim>\<open>except (TypeError, ValueError)\<close>: only an integer beyond the doubles escapes it.\<close>

definition float_or :: "string \<Rightarrow> jv \<Rightarrow> ctl_exc + pyfloat" where
  "float_or message v =
     (case py_float v of
        Some f \<Rightarrow> Inr f
      | None \<Rightarrow> (case v of VInt _ \<Rightarrow> Inl (OtherExc ''OverflowError'') | _ \<Rightarrow> bad message))"

definition price_value :: "string \<Rightarrow> jv \<Rightarrow> ctl_exc + rat" where
  "price_value name raw =
     exc_bind (float_or (name @ '' must be a number'') raw) (\<lambda>f.
       case finite_positive f of None \<Rightarrow> bad (name @ '' must be a positive, finite price'') | Some x \<Rightarrow> Inr x)"

definition validated_price :: "string \<Rightarrow> jv \<Rightarrow> ctl_exc + rat option" where
  "validated_price name raw =
     (if raw = VNone \<or> raw = VText [] then Inr None else exc_bind (price_value name raw) (\<lambda>x. Inr (Some x)))"

definition price_field :: "(string \<times> jv) list \<Rightarrow> string \<Rightarrow> ctl_exc + rat option" where
  "price_field params name =
     (case dget params name VNone of
        VNone \<Rightarrow> Inr None
      | raw \<Rightarrow> exc_bind (price_value name raw) (\<lambda>x. Inr (Some x)))"

definition int_or_raise :: "jv \<Rightarrow> ctl_exc + int" where
  "int_or_raise v = (case int_of_value v of Inr i \<Rightarrow> Inr i | Inl _ \<Rightarrow> Inl (OtherExc ''int()''))"

text \<open>\<^verbatim>\<open>round(x, n)\<close> of a float: to the nearest decimal of \<open>n\<close> places, ties to even, and back to the nearest float.\<close>

definition py_round :: "rat \<Rightarrow> int \<Rightarrow> rat" where
  "py_round x n = fl (of_int (round_half_even (x * 10 ^ nat n)) / 10 ^ nat n)"

definition actor_text :: "jv \<Rightarrow> string option" where
  "actor_text v = (case v of VText t \<Rightarrow> Some t | _ \<Rightarrow> None)"

section \<open>The manual order\<close>

record ticket =
  tk_account :: ident
  tk_side :: side
  tk_type :: order_type
  tk_lots :: rat
  tk_limit :: "rat option"
  tk_stop :: "rat option"
  tk_stop_loss :: "rat option"
  tk_take_profit :: "rat option"
  tk_symbol :: jv
  tk_actor :: "string option"

definition side_by_name :: "string \<Rightarrow> side option" where
  "side_by_name t = (if t = ''BUY'' then Some BUY else if t = ''SELL'' then Some SELL else None)"

definition order_type_by_name :: "string \<Rightarrow> order_type option" where
  "order_type_by_name t =
     (if t = ''MARKET'' then Some MARKET else if t = ''LIMIT'' then Some LIMIT_ORDER
      else if t = ''STOP'' then Some STOP_ORDER else None)"

definition lots_field :: "pyfloat \<Rightarrow> jv \<Rightarrow> ctl_exc + rat" where
  "lots_field limit raw =
     exc_bind (float_or ''volume_lots must be a number'' raw) (\<lambda>f.
       case f of
         Fin x \<Rightarrow>
           if x \<le> 0 then bad ''volume_lots must be greater than 0''
           else if exceeds x limit
           then bad (''volume '' @ repr_float (Fin x) @ '' lots exceeds the manual-order limit of '' @ repr_float limit
                  @ '' lots (fat-finger guard; raise MAX_MANUAL_ORDER_LOTS to change it)'')
           else Inr x
       | _ \<Rightarrow> bad ''volume_lots must be a finite number'')"

definition trigger_given :: "(string \<times> jv) list \<Rightarrow> order_type \<Rightarrow> ctl_exc + unit" where
  "trigger_given params t =
     (if t = LIMIT_ORDER \<and> dget params ''limit_price'' VNone = VNone then bad ''limit_price required for LIMIT orders''
      else if t = STOP_ORDER \<and> dget params ''stop_price'' VNone = VNone then bad ''stop_price required for STOP orders''
      else Inr ())"

definition read_ticket :: "pyfloat \<Rightarrow> (string \<times> jv) list \<Rightarrow> ctl_exc + ticket" where
  "read_ticket limit params =
     (if dget params ''account_id'' VNone = VNone then bad ''account_id required''
      else exc_bind (int_or_raise (dget params ''account_id'' VNone)) (\<lambda>account_id.
        case side_by_name (py_upper (py_str (dget params ''side'' (VText [])))) of
          None \<Rightarrow> bad ''side must be BUY or SELL''
        | Some sd \<Rightarrow>
            (case order_type_by_name (py_upper (py_str (dget params ''order_type'' (VText [])))) of
               None \<Rightarrow> bad ''order_type must be MARKET, LIMIT or STOP''
             | Some t \<Rightarrow>
                 exc_bind (lots_field limit (dget params ''volume_lots'' VNone)) (\<lambda>lots_value.
                 exc_bind (trigger_given params t) (\<lambda>_.
                 exc_bind (price_field params ''limit_price'') (\<lambda>lp.
                 exc_bind (price_field params ''stop_price'') (\<lambda>sp.
                 exc_bind (price_field params ''stop_loss'') (\<lambda>sl.
                 exc_bind (price_field params ''take_profit'') (\<lambda>tp.
                   Inr \<lparr>tk_account = account_id, tk_side = sd, tk_type = t, tk_lots = lots_value, tk_limit = lp,
                     tk_stop = sp, tk_stop_loss = sl, tk_take_profit = tp, tk_symbol = dget params ''symbol'' VNone,
                     tk_actor = actor_text (dget params ''actor_email'' VNone)\<rparr>)))))))))"

text \<open>\<^verbatim>\<open>volume -= volume % step\<close> when there is a step.\<close>

definition on_step :: "int \<Rightarrow> int \<Rightarrow> int" where
  "on_step volume step = (if step \<noteq> 0 then volume - volume mod step else volume)"

text \<open>\<^verbatim>\<open>_spot_for\<close>: the quote of the master's symbol of that name. The subscription it also asks for is not part of the state.\<close>

definition spot_for :: "order_env \<Rightarrow> ident \<Rightarrow> string \<Rightarrow> bridge \<Rightarrow> price option \<times> price option" where
  "spot_for env account_id symbol_name b =
     (case org_for_account account_id (br_db b) of
        None \<Rightarrow> (None, None)
      | Some org_id \<Rightarrow>
          (case (oe_quotes env org_id, find (\<lambda>si. si_name si = symbol_name) (oe_master_symbols env org_id)) of
             (Some quote, Some si) \<Rightarrow> (case quote (si_symbol_id si) of Some spot \<Rightarrow> spot | None \<Rightarrow> (None, None))
           | _ \<Rightarrow> (None, None)))"

text \<open>
  The protection of an order: distances from the price the order will cross for a market order,
  absolute levels otherwise, with what the event records of it.
\<close>

record protection =
  pt_stop_loss :: "rat option"
  pt_take_profit :: "rat option"
  pt_relative_stop_loss :: "int option"
  pt_relative_take_profit :: "int option"
  pt_audit :: "payload option"

definition no_live_price :: "string \<Rightarrow> string" where
  "no_live_price symbol_name = ''no live price for '' @ symbol_name
     @ '' yet, so a stop loss or take profit cannot be placed with a market order -- try again in a moment, or place the order without protection and set it on the position''"

definition market_protection ::
  "side \<Rightarrow> string \<Rightarrow> price option \<Rightarrow> rat option \<Rightarrow> rat option \<Rightarrow> ctl_exc + protection" where
  "market_protection sd symbol_name reference sl tp =
     (case reference of
        None \<Rightarrow> bad (no_live_price symbol_name)
      | Some ref \<Rightarrow>
          let (sl_rel, tp_rel) = relative_protection sd (Some ref) sl tp in
          if sl \<noteq> None \<and> sl_rel = None
          then bad (''a '' @ side_value sd @ '' stop loss must sit on the losing side of the market ('' @ repr_float (Fin ref) @ '')'')
          else if tp \<noteq> None \<and> tp_rel = None
          then bad (''a '' @ side_value sd @ '' take profit must sit on the winning side of the market ('' @ repr_float (Fin ref) @ '')'')
          else Inr \<lparr>pt_stop_loss = None, pt_take_profit = None, pt_relative_stop_loss = sl_rel, pt_relative_take_profit = tp_rel,
             pt_audit = Some [(''requested_stop_loss'', jnum sl), (''requested_take_profit'', jnum tp),
               (''reference_price'', JNum ref), (''relative_stop_loss'', jint sl_rel), (''relative_take_profit'', jint tp_rel),
               (''note'', JStr ''market-order protection is placed relative to the fill, so the final level moves with slippage'')]\<rparr>)"

definition order_protection :: "ticket \<Rightarrow> string \<Rightarrow> price option \<times> price option \<Rightarrow> ctl_exc + protection" where
  "order_protection tk symbol_name spot =
     (let sl = tk_stop_loss tk; tp = tk_take_profit tk in
      if sl = None \<and> tp = None
      then Inr \<lparr>pt_stop_loss = None, pt_take_profit = None, pt_relative_stop_loss = None, pt_relative_take_profit = None, pt_audit = None\<rparr>
      else if tk_type tk = MARKET
      then market_protection (tk_side tk) symbol_name (if tk_side tk = BUY then snd spot else fst spot) sl tp
      else Inr \<lparr>pt_stop_loss = sl, pt_take_profit = tp, pt_relative_stop_loss = None, pt_relative_take_profit = None,
             pt_audit = Some [(''stop_loss'', jnum sl), (''take_profit'', jnum tp)]\<rparr>)"

record placed =
  pl_account :: ident
  pl_symbol :: string
  pl_side :: side
  pl_type :: order_type
  pl_volume :: int
  pl_volume_lots :: string
  pl_command_id :: "ident option"

definition placed_payload :: "placed \<Rightarrow> payload option \<Rightarrow> payload" where
  "placed_payload r audit =
     [(''action'', JStr ''manual_order''), (''account_id'', JInt (pl_account r)), (''symbol'', JStr (pl_symbol r)),
      (''side'', JStr (side_value (pl_side r))), (''order_type'', JStr (order_type_name (pl_type r))),
      (''volume'', JInt (pl_volume r)), (''volume_lots'', JStr (pl_volume_lots r))]
     @ opt_field ''command_id'' JInt (pl_command_id r) @ opt_field ''protection'' JObj audit"

definition unknown_symbol :: "jv \<Rightarrow> ident \<Rightarrow> string" where
  "unknown_symbol v account_id = ''unknown symbol '' @ repr_value v @ '' for account '' @ str_int account_id"

definition below_minimum :: "rat \<Rightarrow> string \<Rightarrow> string" where
  "below_minimum x symbol = ''volume '' @ repr_float (Fin x) @ '' lots is below the minimum for '' @ symbol"

definition manual_request :: "ticket \<Rightarrow> symbol_info \<Rightarrow> int \<Rightarrow> protection \<Rightarrow> request" where
  "manual_request tk info volume pt = NewOrderReq \<lparr>no_account = tk_account tk, no_symbol_id = si_symbol_id info,
     no_order_type = tk_type tk, no_trade_side = tk_side tk, no_volume = volume, no_limit_price = tk_limit tk,
     no_stop_price = tk_stop tk, no_expiration = None, no_stop_loss = pt_stop_loss pt, no_take_profit = pt_take_profit pt,
     no_label = MANUAL_ORDER_LABEL, no_client_order_id = [], no_relative_stop_loss = pt_relative_stop_loss pt,
     no_relative_take_profit = pt_relative_take_profit pt\<rparr>"

text \<open>The cTrader half of \<^verbatim>\<open>place_order\<close>, after the guards.\<close>

definition ctrader_order :: "order_env \<Rightarrow> ticket \<Rightarrow> ident option \<Rightarrow> bridge \<Rightarrow> (ctl_exc + placed) \<times> bridge" where
  "ctrader_order env tk org_id b =
     (case (tk_symbol tk, case tk_symbol tk of
              VText n \<Rightarrow> map_of (load_symbol_cache (tk_account tk) (br_tables b)) n | _ \<Rightarrow> None) of
        (VText symbol_name, Some info) \<Rightarrow>
          let volume = on_step (py_trunc (fl (tk_lots tk * of_int (si_lot_size info)))) (si_step_volume info) in
          if volume < si_min_volume info then (bad (below_minimum (tk_lots tk) symbol_name), b)
          else (case order_protection tk symbol_name (spot_for env (tk_account tk) symbol_name b) of
                  Inl x \<Rightarrow> (Inl x, b)
                | Inr pt \<Rightarrow>
                    let r = \<lparr>pl_account = tk_account tk, pl_symbol = symbol_name, pl_side = tk_side tk, pl_type = tk_type tk,
                              pl_volume = volume, pl_volume_lots = fmt2 (fl (of_int volume / of_int (si_lot_size info))),
                              pl_command_id = None\<rparr>
                    in (Inr r, control_log ''info'' (placed_payload r (pt_audit pt)) (Some (tk_account tk)) org_id (tk_actor tk)
                          (send_direct (tk_account tk) (manual_request tk info volume pt) b)))
      | _ \<Rightarrow> (bad (unknown_symbol (tk_symbol tk) (tk_account tk)), b))"

text \<open>The lane: the broker's own name first, then the account's alias of a canonical one.\<close>

definition lane_rounded :: "rat option \<Rightarrow> int \<Rightarrow> rat" where
  "lane_rounded p digits = (case p of None \<Rightarrow> 0 | Some x \<Rightarrow> py_round x digits)"

definition lane_symbol :: "ident \<Rightarrow> string \<Rightarrow> bridge \<Rightarrow> (string \<times> symbol_info) option \<times> bridge" where
  "lane_symbol account_id symbol b =
     (let (syms, reg) = symbols_by_name account_id (br_tables b) (br_registry b) in
      ((case map_of syms symbol of
          Some info \<Rightarrow> Some (symbol, info)
        | None \<Rightarrow> (case map_of (load_symbol_aliases account_id (mt_aliases (br_tables b))) symbol of
                     None \<Rightarrow> None
                   | Some broker_name \<Rightarrow> map_option (Pair broker_name) (map_of syms broker_name))),
       b\<lparr>br_registry := reg\<rparr>))"

definition lane_payload :: "ticket \<Rightarrow> string \<Rightarrow> int \<Rightarrow> int \<Rightarrow> string \<times> payload" where
  "lane_payload tk symbol volume digits =
     (let sl = lane_rounded (tk_stop_loss tk) digits; tp = lane_rounded (tk_take_profit tk) digits in
      if tk_type tk = MARKET
      then (''open'', [(''symbol'', JStr symbol), (''side'', JStr (side_value (tk_side tk))), (''lots'', JNum (lots volume)),
              (''sl'', JNum sl), (''tp'', JNum tp), (''comment'', JStr MANUAL_ORDER_LABEL)])
      else (''place_pending'', [(''symbol'', JStr symbol),
              (''type'', JStr (side_value (tk_side tk) @ ''_'' @ order_type_name (tk_type tk))), (''lots'', JNum (lots volume)),
              (''price'', JNum (lane_rounded (if tk_type tk = LIMIT_ORDER then tk_limit tk else tk_stop tk) digits)),
              (''sl'', JNum sl), (''tp'', JNum tp), (''expiry_ms'', JInt 0), (''comment'', JStr MANUAL_ORDER_LABEL)]))"

definition lane_audit :: "ticket \<Rightarrow> int \<Rightarrow> payload option" where
  "lane_audit tk digits =
     (let sl = lane_rounded (tk_stop_loss tk) digits; tp = lane_rounded (tk_take_profit tk) digits;
          level = (\<lambda>x. if x = 0 then JNull else JNum x)
      in if sl = 0 \<and> tp = 0 then None else Some [(''stop_loss'', level sl), (''take_profit'', level tp)])"

definition enqueue :: "ident \<Rightarrow> ident \<Rightarrow> string \<times> payload \<Rightarrow> int \<Rightarrow> bridge \<Rightarrow> (ctl_exc + ident) \<times> bridge" where
  "enqueue account_id org_id cmd now b =
     (case enqueue_mt5_command account_id org_id (fst cmd) (snd cmd) None now (br_db b) of
        Inl x \<Rightarrow> (Inl (Py x), b)
      | Inr (cid, s) \<Rightarrow> (Inr cid, on_br_db (\<lambda>_. s) b))"

definition lane_order :: "ticket \<Rightarrow> ident \<Rightarrow> int \<Rightarrow> bridge \<Rightarrow> (ctl_exc + placed) \<times> bridge" where
  "lane_order tk org_id now b =
     (case lane_symbol (tk_account tk) (py_str (tk_symbol tk)) b of
        (None, b1) \<Rightarrow> (bad (unknown_symbol (VText (py_str (tk_symbol tk))) (tk_account tk)), b1)
      | (Some (symbol, info), b1) \<Rightarrow>
          let volume = on_step (centilots (tk_lots tk)) (si_step_volume info) in
          if volume \<le> 0 \<or> volume < si_min_volume info then (bad (below_minimum (tk_lots tk) symbol), b1)
          else (case enqueue (tk_account tk) org_id (lane_payload tk symbol volume (si_digits info)) now b1 of
                  (Inl x, b2) \<Rightarrow> (Inl x, b2)
                | (Inr cid, b2) \<Rightarrow>
                    let r = \<lparr>pl_account = tk_account tk, pl_symbol = symbol, pl_side = tk_side tk, pl_type = tk_type tk,
                              pl_volume = volume, pl_volume_lots = fmt2 (fl (of_int volume / of_int CENTILOTS)),
                              pl_command_id = Some cid\<rparr>
                    in (Inr r, control_log ''info'' (placed_payload r (lane_audit tk (si_digits info)))
                          (Some (tk_account tk)) (Some org_id) (tk_actor tk) b2)))"

definition dry_run_refusal :: string where
  "dry_run_refusal = ''this workspace is in dry-run: manual orders are disabled until dry-run is turned off''"

definition not_dry_run :: "ident option \<Rightarrow> bridge \<Rightarrow> ctl_exc + unit" where
  "not_dry_run org_id b =
     (case org_id of
        None \<Rightarrow> Inr ()
      | Some g \<Rightarrow> exc_bind (org_exists g b) (\<lambda>org. if o_dry_run org then bad dry_run_refusal else Inr ()))"

definition place_manual_order :: "order_env \<Rightarrow> (string \<times> jv) list \<Rightarrow> int \<Rightarrow> bridge \<Rightarrow> (ctl_exc + placed) \<times> bridge" where
  "place_manual_order env params now b =
     (case read_ticket (oe_max_lots env) params of
        Inl x \<Rightarrow> (Inl x, b)
      | Inr tk \<Rightarrow>
          (case query_context (oe_app env) (tk_account tk) b of
             Inl x \<Rightarrow> (Inl x, b)
           | Inr _ \<Rightarrow>
               let org_id = org_for_account (tk_account tk) (br_db b) in
               (case not_dry_run org_id b of
                  Inl x \<Rightarrow> (Inl x, b)
                | Inr _ \<Rightarrow>
                    if is_mt5 (oe_app env) (tk_account tk)
                    then (case org_id of
                            None \<Rightarrow> (Inl (Py (account_not_found (tk_account tk))), b)
                          | Some g \<Rightarrow> lane_order tk g now b)
                    else ctrader_order env tk org_id b)))"

section \<open>Closing, amending, cancelling\<close>

text \<open>
  \<^verbatim>\<open>close_position\<close> asks the broker for the book and waits: what precedes the wait is the check of the
  account, the rest runs on the answer. The answer's account is not checked here.
\<close>

definition truncated :: "pyfloat \<Rightarrow> ctl_exc + int" where
  "truncated f = (case f of Fin x \<Rightarrow> Inr (py_trunc x) | Inf _ \<Rightarrow> Inl (OtherExc ''OverflowError'') | Not_a_number \<Rightarrow> bad ''cannot convert float NaN to integer'')"

definition float_raise :: "jv \<Rightarrow> ctl_exc + pyfloat" where
  "float_raise v = (case py_float v of Some f \<Rightarrow> Inr f | None \<Rightarrow> Inl (OtherExc ''float()''))"

definition times_int :: "pyfloat \<Rightarrow> int \<Rightarrow> pyfloat" where
  "times_int f n = (case f of
      Fin x \<Rightarrow> to_double (x * of_int n)
    | Inf positive \<Rightarrow> if n = 0 then Not_a_number else Inf (positive = (0 < n))
    | Not_a_number \<Rightarrow> Not_a_number)"

definition partial_volume :: "jv \<Rightarrow> (pyfloat \<Rightarrow> ctl_exc + int) \<Rightarrow> int \<Rightarrow> ctl_exc + int" where
  "partial_volume volume_lots convert live =
     exc_bind (float_raise volume_lots) (\<lambda>f. exc_bind (convert f) (\<lambda>v.
       let volume = min v live in if volume \<le> 0 then bad ''volume_lots must be greater than 0'' else Inr volume))"

record closing =
  cl_account :: ident
  cl_position_id :: ident
  cl_volume :: int
  cl_command_id :: "ident option"

definition position_not_found :: "ident \<Rightarrow> ident \<Rightarrow> string" where
  "position_not_found position_id account_id =
     ''position '' @ str_int position_id @ '' not found on account '' @ str_int account_id"

definition manual_close_log :: "closing \<Rightarrow> ident option \<Rightarrow> string option \<Rightarrow> bridge \<Rightarrow> bridge" where
  "manual_close_log r org_id actor =
     control_log ''info'' ([(''action'', JStr ''manual_close''), (''position_id'', JInt (cl_position_id r)), (''volume'', JInt (cl_volume r))]
       @ opt_field ''command_id'' JInt (cl_command_id r)) (Some (cl_account r)) org_id actor"

definition close_volume :: "(ident, symbol_info) dict \<Rightarrow> reconcile_position \<Rightarrow> jv \<Rightarrow> ctl_exc + int" where
  "close_volume symbols pos volume_lots =
     (if volume_lots = VNone then Inr (rq_volume pos)
      else (case map_of symbols (rq_symbol_id pos) of
              None \<Rightarrow> bad (''no symbol info for symbol id '' @ str_int (rq_symbol_id pos))
            | Some info \<Rightarrow> partial_volume volume_lots (\<lambda>f. truncated (times_int f (si_lot_size info))) (rq_volume pos)))"

definition close_position_answered ::
  "ident \<Rightarrow> ident \<Rightarrow> jv \<Rightarrow> string option \<Rightarrow> (ident, symbol_info) dict \<Rightarrow> broker_answer \<Rightarrow> bridge \<Rightarrow> (ctl_exc + closing) \<times> bridge" where
  "close_position_answered account_id position_id volume_lots actor symbols answer b =
     (case exc_bind (extract_or_raise ''reconcile'' answer) (\<lambda>rec.
             case find (\<lambda>p. rq_position_id p = position_id) (bk_positions rec) of
               None \<Rightarrow> bad (position_not_found position_id account_id)
             | Some pos \<Rightarrow> close_volume symbols pos volume_lots) of
        Inl x \<Rightarrow> (Inl x, b)
      | Inr volume \<Rightarrow>
          let r = \<lparr>cl_account = account_id, cl_position_id = position_id, cl_volume = volume, cl_command_id = None\<rparr>
          in (Inr r, manual_close_log r (org_for_account account_id (br_db b)) actor
                (send_direct account_id (ClosePositionReq account_id position_id volume) b)))"

definition lane_org :: "ident \<Rightarrow> bridge \<Rightarrow> ctl_exc + ident" where
  "lane_org account_id b =
     (case org_for_account account_id (br_db b) of None \<Rightarrow> Inl (Py (account_not_found account_id)) | Some g \<Rightarrow> Inr g)"

definition lane_position :: "ident \<Rightarrow> ident \<Rightarrow> bridge \<Rightarrow> ctl_exc + report_position" where
  "lane_position account_id position_id b =
     (case position_of account_id position_id (br_registry b) of
        None \<Rightarrow> bad (position_not_found position_id account_id) | Some pos \<Rightarrow> Inr pos)"

text \<open>\<^verbatim>\<open>round(x)\<close> of a float, an integer.\<close>

definition rounded :: "pyfloat \<Rightarrow> ctl_exc + int" where
  "rounded f = (case f of Fin x \<Rightarrow> Inr (round_half_even x) | Inf _ \<Rightarrow> Inl (OtherExc ''OverflowError'') | Not_a_number \<Rightarrow> bad ''cannot convert float NaN to integer'')"

definition lane_close_position ::
  "ident \<Rightarrow> ident \<Rightarrow> jv \<Rightarrow> string option \<Rightarrow> int \<Rightarrow> bridge \<Rightarrow> (ctl_exc + closing) \<times> bridge" where
  "lane_close_position account_id position_id volume_lots actor now b =
     (case exc_bind (lane_org account_id b) (\<lambda>g. exc_bind (lane_position account_id position_id b) (\<lambda>pos.
             exc_bind (if volume_lots = VNone then Inr (rp_volume pos)
                       else partial_volume volume_lots (\<lambda>f. rounded (times_int f CENTILOTS)) (rp_volume pos)) (\<lambda>volume.
               Inr (g, pos, volume)))) of
        Inl x \<Rightarrow> (Inl x, b)
      | Inr (g, pos, volume) \<Rightarrow>
          (case enqueue account_id g (''close'', [(''position'', JInt (rp_ticket pos)),
                  (''lots'', JNum (if rp_volume pos \<le> volume then 0 else lots volume))]) now b of
             (Inl x, b1) \<Rightarrow> (Inl x, b1)
           | (Inr cid, b1) \<Rightarrow>
               let r = \<lparr>cl_account = account_id, cl_position_id = rp_ticket pos, cl_volume = volume, cl_command_id = Some cid\<rparr>
               in (Inr r, manual_close_log r (Some g) actor b1)))"

record amended =
  am_account :: ident
  am_position_id :: ident
  am_stop_loss :: "rat option"
  am_take_profit :: "rat option"
  am_command_id :: "ident option"

definition amend_log :: "amended \<Rightarrow> ident option \<Rightarrow> string option \<Rightarrow> bridge \<Rightarrow> bridge" where
  "amend_log r org_id actor =
     control_log ''info'' ([(''action'', JStr ''amend_sltp''), (''position_id'', JInt (am_position_id r)),
       (''stop_loss'', jnum (am_stop_loss r)), (''take_profit'', jnum (am_take_profit r))]
       @ opt_field ''command_id'' JInt (am_command_id r)) (Some (am_account r)) org_id actor"

text \<open>\<^verbatim>\<open>_digits_for_position\<close>, over the books of the organisation's reconciler, the master's first.\<close>

definition digits_for_position :: "order_env \<Rightarrow> ident \<Rightarrow> ident \<Rightarrow> (ident, symbol_info) dict \<Rightarrow> bridge \<Rightarrow> int option" where
  "digits_for_position env account_id position_id symbols b =
     Option.bind (org_for_account account_id (br_db b)) (\<lambda>g.
     Option.bind (oe_reconcilers env g) (\<lambda>rec.
     Option.bind (find (\<lambda>p. ps_position_id p = position_id) (rec_master_positions rec @ concat (map snd (rec_slave_positions rec)))) (\<lambda>p.
     map_option si_digits (map_of symbols (ps_symbol_id p)))))"

definition ctrader_amend ::
  "order_env \<Rightarrow> ident \<Rightarrow> ident \<Rightarrow> rat option \<Rightarrow> rat option \<Rightarrow> string option \<Rightarrow> bridge \<Rightarrow> (ctl_exc + amended) \<times> bridge" where
  "ctrader_amend env account_id position_id sl tp actor b =
     (case query_context (oe_app env) account_id b of
        Inl x \<Rightarrow> (Inl x, b)
      | Inr (_, symbols) \<Rightarrow>
          let level = (case digits_for_position env account_id position_id symbols b of
                         None \<Rightarrow> (\<lambda>x. x) | Some digits \<Rightarrow> map_option (\<lambda>x. py_round x digits));
              r = \<lparr>am_account = account_id, am_position_id = position_id, am_stop_loss = level sl, am_take_profit = level tp,
                   am_command_id = None\<rparr>
          in (Inr r, amend_log r (org_for_account account_id (br_db b)) actor
                (send_direct account_id (AmendPositionSLTPReq account_id position_id (level sl) (level tp)) b)))"

definition lane_amend ::
  "ident \<Rightarrow> ident \<Rightarrow> rat option \<Rightarrow> rat option \<Rightarrow> string option \<Rightarrow> int \<Rightarrow> bridge \<Rightarrow> (ctl_exc + amended) \<times> bridge" where
  "lane_amend account_id position_id sl tp actor now b =
     (case exc_bind (lane_org account_id b) (\<lambda>g. exc_bind (lane_position account_id position_id b) (\<lambda>pos. Inr (g, pos))) of
        Inl x \<Rightarrow> (Inl x, b)
      | Inr (g, pos) \<Rightarrow>
          let (syms, reg) = symbols_by_name account_id (br_tables b) (br_registry b);
              digits = (case map_of syms (rp_symbol pos) of Some info \<Rightarrow> si_digits info | None \<Rightarrow> 5);
              level = map_option (\<lambda>x. py_round x digits)
          in case enqueue account_id g (''amend'', [(''position'', JInt (rp_ticket pos)), (''sl'', payload_price (level sl)),
                    (''tp'', payload_price (level tp))]) now (b\<lparr>br_registry := reg\<rparr>) of
               (Inl x, b1) \<Rightarrow> (Inl x, b1)
             | (Inr cid, b1) \<Rightarrow>
                 let r = \<lparr>am_account = account_id, am_position_id = rp_ticket pos, am_stop_loss = level sl,
                          am_take_profit = level tp, am_command_id = Some cid\<rparr>
                 in (Inr r, amend_log r (Some g) actor b1))"

definition amend_position_sltp ::
  "order_env \<Rightarrow> ident \<Rightarrow> ident \<Rightarrow> jv \<Rightarrow> jv \<Rightarrow> string option \<Rightarrow> int \<Rightarrow> bridge \<Rightarrow> (ctl_exc + amended) \<times> bridge" where
  "amend_position_sltp env account_id position_id stop_loss take_profit actor now b =
     (case exc_bind (validated_price ''stop_loss'' stop_loss) (\<lambda>sl.
             exc_bind (validated_price ''take_profit'' take_profit) (\<lambda>tp. Inr (sl, tp))) of
        Inl x \<Rightarrow> (Inl x, b)
      | Inr (sl, tp) \<Rightarrow>
          if is_mt5 (oe_app env) account_id then lane_amend account_id position_id sl tp actor now b
          else ctrader_amend env account_id position_id sl tp actor b)"

definition cancel_log :: "ident \<Rightarrow> ident \<Rightarrow> ident option \<Rightarrow> ident option \<Rightarrow> string option \<Rightarrow> bridge \<Rightarrow> bridge" where
  "cancel_log account_id order_id command_id org_id actor =
     control_log ''info'' ([(''action'', JStr ''manual_cancel''), (''order_id'', JInt order_id)]
       @ opt_field ''command_id'' JInt command_id) (Some account_id) org_id actor"

definition cancel_order :: "order_env \<Rightarrow> ident \<Rightarrow> ident \<Rightarrow> string option \<Rightarrow> int \<Rightarrow> bridge \<Rightarrow> (ctl_exc + ident option) \<times> bridge" where
  "cancel_order env account_id order_id actor now b =
     (if is_mt5 (oe_app env) account_id
      then (case lane_org account_id b of
              Inl x \<Rightarrow> (Inl x, b)
            | Inr g \<Rightarrow>
                (case enqueue account_id g (''cancel_pending'', [(''order'', JInt order_id)]) now b of
                   (Inl x, b1) \<Rightarrow> (Inl x, b1)
                 | (Inr cid, b1) \<Rightarrow> (Inr (Some cid), cancel_log account_id order_id (Some cid) (Some g) actor b1)))
      else (case query_context (oe_app env) account_id b of
              Inl x \<Rightarrow> (Inl x, b)
            | Inr _ \<Rightarrow> (Inr None, cancel_log account_id order_id None (org_for_account account_id (br_db b)) actor
                (send_direct account_id (CancelOrderReq account_id order_id) b))))"

section \<open>The trailing sweep\<close>

definition TRAILING_STATE_STALE_AFTER_S :: rat where "TRAILING_STATE_STALE_AFTER_S = 180"

definition open_position_row :: "ident \<Rightarrow> ident \<Rightarrow> bridge \<Rightarrow> position_row option" where
  "open_position_row account_id position_id b =
     find (\<lambda>p. pr_account_id p = account_id \<and> pr_position_id p = position_id \<and> pr_status p = ''open'') (mt_positions (br_tables b))"

text \<open>
  The rule of the position's organisation for its symbol, under the canonical name the account's aliases
  give the broker's. The subquery that finds that name is scalar: when two canonical names stand for
  the same broker name it raises.
\<close>

definition load_risk_rule_for_position :: "ident \<Rightarrow> ident \<Rightarrow> bridge \<Rightarrow> ctl_exc + risk_rule option" where
  "load_risk_rule_for_position account_id position_id b =
     (case open_position_row account_id position_id b of
        None \<Rightarrow> Inr None
      | Some p \<Rightarrow>
          let rules = filter (\<lambda>r. Some (rr_org_id r) = pr_org_id p) (db_risk_rules (br_db b));
              names = map al_canonical (filter (\<lambda>a. al_account a = account_id \<and> Some (al_broker a) = pr_symbol p) (mt_aliases (br_tables b)));
              symbol = (case names of n # _ \<Rightarrow> Some n | [] \<Rightarrow> pr_symbol p)
          in if rules = [] then Inr None
             else if 1 < length names then Inl (OtherExc ''CardinalityViolation'')
             else Inr (find (\<lambda>r. Some (rr_symbol r) = symbol) rules))"

definition current_position_price :: "order_env \<Rightarrow> ident \<Rightarrow> ident \<Rightarrow> bridge \<Rightarrow> price option \<times> bridge" where
  "current_position_price env account_id position_id b =
     (if is_mt5 (oe_app env) account_id
      then (let (p, reg) = position_price account_id position_id (br_tables b) (br_registry b) in (p, b\<lparr>br_registry := reg\<rparr>))
      else (Option.bind (org_for_account account_id (br_db b)) (\<lambda>g. oe_position_price env g account_id position_id), b))"

definition trailing_age :: "int \<Rightarrow> trailing_row \<Rightarrow> rat option" where
  "trailing_age now t = map_option (\<lambda>u. ts_seconds (now - u)) (tr_updated_at t)"

definition better_price :: "string \<Rightarrow> price \<Rightarrow> price \<Rightarrow> price" where
  "better_price side p q = (if side = ''BUY'' then max p q else min p q)"

text \<open>
  A distance the rule does not have makes the comparison or the subtraction raise; the sweep logs it and goes on with
  the next position.
\<close>

definition next_stop :: "trailing_row \<Rightarrow> price \<Rightarrow> position_row \<Rightarrow> risk_rule \<Rightarrow> ctl_exc + price" where
  "next_stop t best p rule =
     (case (rr_trail_start_points rule, rr_trail_step_points rule) of
        (None, _) \<Rightarrow> Inl (OtherExc ''TypeError'')
      | (Some start, None) \<Rightarrow> if trail_favourable (pr_side p) (pr_entry_price p) best < start then Inr (tr_current_stop t)
          else Inl (OtherExc ''TypeError'')
      | (Some start, Some step) \<Rightarrow>
          map_sum Py id (compute_trailed_stop (pr_side p) (pr_entry_price p) best start step (tr_current_stop t)))"

definition trail_amend :: "order_env \<Rightarrow> int \<Rightarrow> trailing_row \<Rightarrow> position_row \<Rightarrow> price \<Rightarrow> bridge \<Rightarrow> (ctl_exc + unit) \<times> bridge" where
  "trail_amend env now t p new_stop b =
     (if new_stop = tr_current_stop t then (Inr (), b)
      else map_prod (map_sum id (\<lambda>_. ())) id
        (amend_position_sltp env (tr_account_id t) (tr_position_id t) (VFloat (Fin new_stop))
           (case pr_take_profit p of None \<Rightarrow> VNone | Some x \<Rightarrow> VFloat (Fin x)) (Some ''risk-engine'') now b))"

definition trail_position ::
  "order_env \<Rightarrow> int \<Rightarrow> trailing_row \<Rightarrow> price \<Rightarrow> position_row \<Rightarrow> risk_rule \<Rightarrow> bridge \<Rightarrow> (ctl_exc + unit) \<times> bridge" where
  "trail_position env now t price p rule b =
     (let best = better_price (pr_side p) (tr_best_price t) price in
      case next_stop t best p rule of
        Inl x \<Rightarrow> (Inl x, b)
      | Inr new_stop \<Rightarrow>
          (case trail_amend env now t p new_stop b of
             (Inl x, b1) \<Rightarrow> (Inl x, b1)
           | (Inr _, b1) \<Rightarrow>
               (Inr (), on_br_db (upsert_trailing_state (tr_account_id t) (tr_position_id t) best new_stop now) b1)))"

definition check_one_trailing_position :: "order_env \<Rightarrow> int \<Rightarrow> trailing_row \<Rightarrow> bridge \<Rightarrow> (ctl_exc + unit) \<times> bridge" where
  "check_one_trailing_position env now t b =
     (case current_position_price env (tr_account_id t) (tr_position_id t) b of
        (None, b1) \<Rightarrow>
          (case trailing_age now t of
             None \<Rightarrow> (Inr (), b1)
           | Some age \<Rightarrow>
               if age < TRAILING_STATE_STALE_AFTER_S then (Inr (), b1)
               else (Inr (), on_br_db (delete_trailing_state (tr_account_id t) (tr_position_id t)) b1))
      | (Some price, b1) \<Rightarrow>
          (case open_position_row (tr_account_id t) (tr_position_id t) b1 of
             None \<Rightarrow> (Inr (), b1)
           | Some p \<Rightarrow>
               (case load_risk_rule_for_position (tr_account_id t) (tr_position_id t) b1 of
                  Inl x \<Rightarrow> (Inl x, b1)
                | Inr None \<Rightarrow> (Inr (), b1)
                | Inr (Some rule) \<Rightarrow>
                    if rr_trailing_enabled rule then trail_position env now t price p rule b1 else (Inr (), b1))))"

definition check_trailing_stops :: "order_env \<Rightarrow> int \<Rightarrow> bridge \<Rightarrow> bridge" where
  "check_trailing_stops env now b =
     fold (\<lambda>t b. snd (check_one_trailing_position env now t b)) (db_trailing (br_db b)) b"

end
