(* ===== verification/Operator_Laws.thy ===== *)
theory Operator_Laws
  imports Operator_Control Simulation
begin

text \<open>
  What the kill switch promises. The two flattens share one contract, the locale \<open>verified_flatten\<close>:
  whatever a look does to the state, the run goes on exactly when the book it saw says so. Counting
  follows for both. The settings of an organisation form a machine whose version number is never
  reused for a different row; the compare-and-set at the end of a close-all rests on it.
\<close>

section \<open>The contract of a flatten\<close>

definition look :: "flatten_run \<Rightarrow> ident list \<times> ident list \<Rightarrow> flatten_progress" where
  "look r ids =
     (let r1 = observe (fst ids) (snd ids) r in
      if must_send r1 then Sleeping (next_round r1) else Finished (flatten_verdict r1))"

definition who :: "flatten_run \<Rightarrow> ident \<times> ident option" where
  "who r = (fr_account r, fr_org r)"

lemma who_kept [simp]: "who (observe ps qs r) = who r" "who (next_round r) = who r"
  by (simp_all add: who_def observe_def next_round_def)

text \<open>What a finished run says, over the book of its first look and the book of its last.\<close>

definition measured :: "ident list \<times> ident list \<Rightarrow> ident list \<times> ident list \<Rightarrow> nat \<Rightarrow> flatten_summary \<Rightarrow> bool" where
  "measured first_book last_book n m \<longleftrightarrow>
     1 \<le> n \<and> n \<le> Suc FLATTEN_ROUNDS \<and> sm_rounds m = n - 1 \<and>
     sm_positions_remaining m = Some (fst last_book) \<and> sm_orders_remaining m = Some (snd last_book) \<and>
     sm_positions_closed m = card (set (fst first_book) - set (fst last_book)) \<and>
     sm_orders_cancelled m = card (set (snd first_book) - set (snd last_book)) \<and>
     (sm_error m = None \<longleftrightarrow> last_book = ([], []))"

locale verified_flatten =
  fixes rnd :: "flatten_run \<Rightarrow> 'o \<Rightarrow> 's \<Rightarrow> (ctl_exc + flatten_progress) \<times> 's"
    and seen :: "ident \<times> ident option \<Rightarrow> 'o \<Rightarrow> 's \<Rightarrow> (ident list \<times> ident list) option"
  assumes rnd_look: "fst (rnd r ob s) = Inr p \<Longrightarrow> \<exists>ids. seen (who r) ob s = Some ids \<and> p = look r ids"
begin

definition book_at :: "ident \<times> ident option \<Rightarrow> ('o \<times> 's) \<Rightarrow> (ident list \<times> ident list) option" where
  "book_at w os = seen w (fst os) (snd os)"

text \<open>A run on its way: what it saw first is fixed, and every look so far led to a round.\<close>

definition on_the_way :: "flatten_run \<Rightarrow> ident list \<times> ident list \<Rightarrow> bool" where
  "on_the_way r first_book \<longleftrightarrow> fr_rounds r = fr_attempt r \<and> fr_attempt r \<le> FLATTEN_ROUNDS \<and>
     (fr_first r = None \<and> fr_attempt r = 0 \<or> fr_first r = Some (set (fst first_book), set (snd first_book)))"

lemma verdict_measured:
  assumes "on_the_way r f" "fr_first r = None \<Longrightarrow> f = ids" "\<not> must_send (observe (fst ids) (snd ids) r)"
  shows "measured f ids (Suc (fr_attempt r)) (flatten_verdict (observe (fst ids) (snd ids) r))"
proof -
  have c: "card A - card (A \<inter> set xs) = card (A - set xs)" if "finite A" for A :: "ident set" and xs
    by (simp add: card_Diff_subset_Int that)
  show ?thesis
    using assms
    by (cases ids; cases f) (auto simp: on_the_way_def measured_def flatten_verdict_def observe_def must_send_def Let_def c
        split: option.splits)
qed

lemma looks_measured:
  assumes "flatten_looks rnd r os = (Inr (Finished m), n)" "on_the_way r f"
    and "fr_first r = None \<Longrightarrow> os \<noteq> [] \<Longrightarrow> book_at (who r) (hd os) = Some f"
  shows "n \<le> length os \<and> 1 \<le> n \<and>
    (\<exists>l. book_at (who r) (os ! (n - 1)) = Some l \<and> measured f l (n + fr_attempt r) m)"
  using assms
proof (induction os arbitrary: r n)
  case (Cons x os)
  obtain ob s where x: "x = (ob, s)" by (cases x)
  obtain p where p: "fst (rnd r ob s) = Inr p" using Cons.prems(1) unfolding x by (auto split: sum.splits)
  from rnd_look [OF p] obtain ids where ids: "seen (who r) ob s = Some ids" "p = look r ids" by blast
  have b: "book_at (who r) x = Some ids" by (simp add: book_at_def x ids(1))
  have f: "fr_first r = None \<Longrightarrow> f = ids" using Cons.prems(3) by (simp add: b)
  show ?case
  proof (cases "must_send (observe (fst ids) (snd ids) r)")
    case True
    let ?r = "next_round (observe (fst ids) (snd ids) r)"
    have p': "p = Sleeping ?r" using True by (simp add: ids(2) look_def)
    obtain k where k: "flatten_looks rnd ?r os = (Inr (Finished m), k)" "n = Suc k"
      using Cons.prems(1) by (cases "flatten_looks rnd ?r os") (auto simp: x p p')
    have w: "on_the_way ?r f"
      using Cons.prems(2) f True
      by (cases ids) (auto simp: on_the_way_def next_round_def observe_def must_send_def split: option.splits)
    have "fr_first ?r \<noteq> None" "who ?r = who r" "fr_attempt ?r = Suc (fr_attempt r)"
      by (simp_all add: next_round_def observe_def who_def)
    with Cons.IH [OF k(1) w] show ?thesis unfolding k(2) by (auto simp: nth_Cons')
  next
    case False
    then have p': "p = Finished (flatten_verdict (observe (fst ids) (snd ids) r))" by (simp add: ids(2) look_def)
    then have nm: "n = 1" "m = flatten_verdict (observe (fst ids) (snd ids) r)" using Cons.prems(1) by (auto simp: x p)
    show ?thesis using verdict_measured [OF Cons.prems(2) f False] by (simp add: nm b)
  qed
qed simp

lemma summary_measured:
  assumes "flatten_looks rnd (flatten_start a g) os = (Inr (Finished m), n)"
  shows "n \<le> length os \<and> (\<exists>f l. book_at (a, g) (hd os) = Some f \<and> book_at (a, g) (os ! (n - 1)) = Some l \<and> measured f l n m)"
proof -
  obtain ob s rest where os: "os = (ob, s) # rest" using assms by (cases os) auto
  then obtain p where "fst (rnd (flatten_start a g) ob s) = Inr p" using assms by (auto split: sum.splits)
  from rnd_look [OF this] obtain f where f: "book_at (a, g) (hd os) = Some f"
    by (auto simp: os book_at_def who_def flatten_start_def)
  have "on_the_way (flatten_start a g) f" for f by (simp add: on_the_way_def flatten_start_def)
  from looks_measured [OF assms this, of f] f show ?thesis
    by (auto simp: flatten_start_def who_def)
qed

text \<open>A run is over after at most one look more than it has rounds.\<close>

lemma looks_end:
  assumes "fr_attempt r \<le> FLATTEN_ROUNDS" "FLATTEN_ROUNDS < length os + fr_attempt r"
  shows "\<exists>n. n + fr_attempt r \<le> Suc FLATTEN_ROUNDS \<and>
    ((\<exists>x. flatten_looks rnd r os = (Inl x, n)) \<or> (\<exists>m. flatten_looks rnd r os = (Inr (Finished m), n)))"
  using assms
proof (induction os arbitrary: r)
  case (Cons x os)
  obtain ob s where x: "x = (ob, s)" by (cases x)
  consider (stop) e where "fst (rnd r ob s) = Inl e" | (on) p where "fst (rnd r ob s) = Inr p"
    by (cases "fst (rnd r ob s)") auto
  then show ?case
  proof cases
    case stop
    with Cons.prems(1) show ?thesis by (simp add: x)
  next
    case (on p)
    from rnd_look [OF on] obtain ids where ids: "p = look r ids" by blast
    show ?thesis
    proof (cases "must_send (observe (fst ids) (snd ids) r)")
      case True
      let ?r = "next_round (observe (fst ids) (snd ids) r)"
      have a: "fr_attempt ?r = Suc (fr_attempt r)" by (simp add: next_round_def observe_def)
      have "fr_attempt r < FLATTEN_ROUNDS" using True by (simp add: must_send_def observe_def)
      with Cons.IH [of ?r] Cons.prems a obtain n where n: "n + fr_attempt ?r \<le> Suc FLATTEN_ROUNDS"
        "(\<exists>x. flatten_looks rnd ?r os = (Inl x, n)) \<or> (\<exists>m. flatten_looks rnd ?r os = (Inr (Finished m), n))"
        by auto
      with True show ?thesis by (intro exI [of _ "Suc n"]) (auto simp: x on ids look_def a)
    next
      case False
      with Cons.prems(1) show ?thesis by (simp add: x on ids look_def)
    qed
  qed
qed simp

end

section \<open>The two flattens keep it\<close>

definition seen_ctrader :: "ident \<Rightarrow> broker_answer \<Rightarrow> (ident list \<times> ident list) option" where
  "seen_ctrader a answer =
     (case reconcile_book a answer of
        Inl _ \<Rightarrow> None | Inr (ps, qs) \<Rightarrow> Some (map rq_position_id ps, map rq_order_id qs))"

definition seen_mt5 :: "ident \<Rightarrow> bridge \<Rightarrow> (ident list \<times> ident list) option" where
  "seen_mt5 a b =
     map_option (\<lambda>rep. (map rp_ticket (sr_positions rep), map ro_ticket (sr_orders rep))) (report_of a (br_registry b))"

text \<open>The book an account's look shows: the broker's answer, or the terminal's report.\<close>

definition seen_by :: "ident \<times> ident option \<Rightarrow> broker_answer \<times> int \<Rightarrow> bridge \<Rightarrow> (ident list \<times> ident list) option" where
  "seen_by w ob b = (case snd w of None \<Rightarrow> seen_ctrader (fst w) (fst ob) | Some _ \<Rightarrow> seen_mt5 (fst w) b)"

interpretation ctrader: verified_flatten ctrader_round "\<lambda>w ob b. seen_ctrader (fst w) ob"
  by unfold_locales
    (auto simp: ctrader_round_def seen_ctrader_def look_def conclude_flatten_def who_def Let_def split: sum.splits prod.splits if_splits)

interpretation lane: verified_flatten "\<lambda>r gn b. lane_round r (fst gn) (snd gn) b" "\<lambda>w ob b. seen_mt5 (fst w) b"
  by unfold_locales
    (auto simp: lane_round_def seen_mt5_def look_def conclude_flatten_def who_def Let_def
      split: sum.splits prod.splits if_splits option.splits)

interpretation flatten: verified_flatten flatten_round seen_by
proof
  fix r ob b p
  assume "fst (flatten_round r ob b) = Inr p"
  then show "\<exists>ids. seen_by (who r) ob b = Some ids \<and> p = look r ids"
    using ctrader.rnd_look [of r "fst ob" b p] lane.rnd_look [of r "(the (fr_org r), snd ob)" b p]
    by (auto simp: flatten_round_def seen_by_def who_def split: option.splits)
qed

text \<open>
  C12. Whatever happens while it runs, a flatten ends within four looks at the book, with a summary. The
  summary is either the report of an exception, which claims nothing closed and names no remaining
  book, or it is measured: what remains is the book of the last look, what was closed is what the
  first look saw and the last one did not, and there is no error exactly when the last book was empty.
\<close>

theorem flatten_reports_what_it_measured:
  assumes "FLATTEN_ROUNDS < length looks"
  shows "\<exists>m n. flatten_account_safely env a b looks = (Finished m, n) \<and> n \<le> Suc FLATTEN_ROUNDS \<and>
    ((\<exists>x. m = failed_summary a x) \<or>
     (\<exists>g f l. n \<le> length looks \<and> seen_by (a, g) (fst (hd looks)) (snd (hd looks)) = Some f \<and>
       seen_by (a, g) (fst (looks ! (n - 1))) (snd (looks ! (n - 1))) = Some l \<and> measured f l n m))"
proof (cases "flatten_begin env a b")
  case (Inl x)
  then show ?thesis by (auto simp: flatten_account_safely_def flatten_account_def)
next
  case (Inr r)
  then obtain g where r: "r = flatten_start a g"
    by (auto simp: flatten_begin_def split: if_splits option.splits sum.splits query_client.splits)
  have "fr_attempt r = 0" by (simp add: r flatten_start_def)
  with flatten.looks_end [of r looks] assms obtain n where n: "n \<le> Suc FLATTEN_ROUNDS"
    "(\<exists>x. flatten_looks flatten_round r looks = (Inl x, n)) \<or> (\<exists>m. flatten_looks flatten_round r looks = (Inr (Finished m), n))"
    by auto
  from n(2) show ?thesis
  proof (elim disjE exE)
    fix x assume "flatten_looks flatten_round r looks = (Inl x, n)"
    with n(1) Inr show ?thesis by (auto simp: flatten_account_safely_def flatten_account_def)
  next
    fix m assume m: "flatten_looks flatten_round r looks = (Inr (Finished m), n)"
    from flatten.summary_measured [OF m [unfolded r]] n(1) Inr m show ?thesis
      by (auto simp: flatten_account_safely_def flatten_account_def flatten.book_at_def)
  qed
qed

section \<open>What a round sends\<close>

lemma start_sends: "fold (send_direct a) reqs b =
    on_engine (\<lambda>e. e\<lparr>eng_tasks := eng_tasks e @ map (\<lambda>q. \<lparr>st_account = a, st_request = q, st_attempt = 0\<rparr>) reqs\<rparr>) b"
  by (induction reqs arbitrary: b) (simp_all add: send_direct_def on_engine_def on_service_def start_send_def)

text \<open>
  A round of a cTrader flatten sends one close per position of the book, of exactly the volume the
  broker reports, and one cancel per order, all to the account itself; a look that ends the run or
  raises sends nothing.
\<close>

lemma ctrader_round_sends:
  assumes "fst (ctrader_round r answer b) = Inr p"
  shows "\<exists>ps qs. reconcile_book (fr_account r) answer = Inr (ps, qs) \<and>
    br_tasks (snd (ctrader_round r answer b)) = br_tasks b @
      (case p of
         Sleeping _ \<Rightarrow> map (\<lambda>q. \<lparr>st_account = fr_account r, st_request = q, st_attempt = 0\<rparr>)
           (map (close_request (fr_account r)) ps @ map (cancel_request (fr_account r)) qs)
       | Finished _ \<Rightarrow> [])"
  using assms
  by (auto simp: ctrader_round_def start_sends br_tasks_def on_engine_def on_service_def conclude_flatten_def log_verdict_def
      control_log_def on_br_db_def on_db_def with_db_def Let_def split: sum.splits prod.splits if_splits)

lemma ctrader_round_raises: "fst (ctrader_round r answer b) = Inl x \<Longrightarrow> snd (ctrader_round r answer b) = b"
  by (auto simp: ctrader_round_def conclude_flatten_def Let_def split: sum.splits prod.splits if_splits)

text \<open>The lane's half: what a batch of commands adds to the table.\<close>

definition closes :: "ident \<Rightarrow> command_row \<Rightarrow> bool" where
  "closes ticket c \<longleftrightarrow> c_kind c = ''close'' \<and> map_of (c_payload c) ''position'' = Some (JInt ticket)"

lemma enqueue_all_adds:
  assumes "enqueue_all a g now cs s = (Inr (), s')"
  shows "\<exists>rows. db_commands s' = db_commands s @ rows \<and> map (\<lambda>c. (c_kind c, c_payload c)) rows = cs \<and>
    (\<forall>c \<in> set rows. c_account c = a \<and> c_status c = Queued)"
  using assms
proof (induction cs arbitrary: s)
  case (Cons kp cs)
  obtain k p where kp: "kp = (k, p)" by (cases kp)
  from Cons.prems obtain cid s1 where s1: "enqueue_mt5_command a g k p None now s = Inr (cid, s1)"
    "enqueue_all a g now cs s1 = (Inr (), s')" by (auto simp: kp split: sum.splits)
  obtain row where row: "db_commands s1 = db_commands s @ [row]" "c_kind row = k" "c_payload row = p"
    "c_account row = a" "c_status row = Queued"
    using s1(1) by (auto simp: enqueue_mt5_command_def Let_def split: if_splits)
  from Cons.IH [OF s1(2)] obtain rows where "db_commands s' = db_commands s1 @ rows"
    "map (\<lambda>c. (c_kind c, c_payload c)) rows = cs" "\<forall>c \<in> set rows. c_account c = a \<and> c_status c = Queued" by blast
  with row show ?case by (intro exI [of _ "row # rows"]) (simp add: kp)
qed simp

lemma open_count: "length (filter P (mt5_commands_open a s)) =
    length (filter (\<lambda>c. P c \<and> c_account c = a \<and> is_open c) (db_commands s))"
proof -
  have "mset (filter P (mt5_commands_open a s)) = mset (filter (\<lambda>c. P c \<and> c_account c = a \<and> is_open c) (db_commands s))"
    by (simp add: mt5_commands_open_def) (simp flip: mset_filter add: conj_ac)
  then show ?thesis by (metis size_mset)
qed

text \<open>What the batch of a round holds for one ticket: a close unless one is open already.\<close>

lemma closing_iff: "t \<in> payload_ints ''close'' ''position'' rows \<longleftrightarrow> filter (closes t) rows \<noteq> []"
  by (induction rows) (auto simp: payload_ints_def closes_def List.map_filter_simps split: option.splits json.splits if_splits)

lemma lane_commands_close:
  assumes "distinct (map rp_ticket (sr_positions rep))" "t \<in> rp_ticket ` set (sr_positions rep)"
  shows "length (filter (\<lambda>kp. fst kp = ''close'' \<and> map_of (snd kp) ''position'' = Some (JInt t)) (lane_commands a rep s)) =
    (if filter (closes t) (mt5_commands_open a s) = [] then 1 else 0)"
proof -
  have one: "length (filter (\<lambda>x. x = t) (filter P xs)) = (if P t then 1 else 0)"
    if "distinct xs" "t \<in> set xs" for P and xs :: "ident list"
    using that by (induction xs) (auto simp: filter_empty_conv)
  show ?thesis
    using one [OF assms(1), of "\<lambda>t. t \<notin> payload_ints ''close'' ''position'' (mt5_commands_open a s)"] assms(2)
    by (simp add: lane_commands_def Let_def lane_close_def lane_cancel_def filter_map comp_def closing_iff)
qed

text \<open>
  C26. A round of an MT5 flatten leaves exactly one more close command open for a reported ticket that
  had none, and none more for a ticket whose close is already on its way: no ticket is closed twice.
\<close>

theorem flatten_queues_each_close_once:
  assumes "report_of (fr_account r) (br_registry b) = Some rep" "distinct (map rp_ticket (sr_positions rep))"
    "fst (lane_round r g now b) = Inr (Sleeping r')" "t \<in> rp_ticket ` set (sr_positions rep)"
  shows "length (filter (closes t) (mt5_commands_open (fr_account r) (br_db (snd (lane_round r g now b))))) =
    max 1 (length (filter (closes t) (mt5_commands_open (fr_account r) (br_db b))))"
proof -
  let ?a = "fr_account r"
  obtain s' where s': "enqueue_all ?a g now (lane_commands ?a rep (br_db b)) (br_db b) = (Inr (), s')"
    "br_db (snd (lane_round r g now b)) = s'"
    using assms(1,3)
    by (auto simp: lane_round_def Let_def conclude_flatten_def on_br_db_def br_db_def sv_db_def on_db_def with_db_def
        split: if_splits prod.splits sum.splits)
  from enqueue_all_adds [OF s'(1)] obtain rows where rows: "db_commands s' = db_commands (br_db b) @ rows"
    "map (\<lambda>c. (c_kind c, c_payload c)) rows = lane_commands ?a rep (br_db b)"
    "\<forall>c \<in> set rows. c_account c = ?a \<and> c_status c = Queued" by blast
  have "length (filter (\<lambda>c. closes t c \<and> c_account c = ?a \<and> is_open c) rows) = length (filter (closes t) rows)"
    using rows(3) by (intro arg_cong [of _ _ length] filter_cong) (auto simp: is_open_def)
  also have "\<dots> = length (filter (\<lambda>kp. fst kp = ''close'' \<and> map_of (snd kp) ''position'' = Some (JInt t))
      (map (\<lambda>c. (c_kind c, c_payload c)) rows))"
    by (simp add: filter_map comp_def closes_def [abs_def])
  finally have new: "length (filter (\<lambda>c. closes t c \<and> c_account c = ?a \<and> is_open c) rows) =
      (if length (filter (closes t) (mt5_commands_open ?a (br_db b))) = 0 then 1 else 0)"
    unfolding rows(2) lane_commands_close [OF assms(2,4)] by simp
  have "length (filter (closes t) (mt5_commands_open ?a s')) =
      length (filter (closes t) (mt5_commands_open ?a (br_db b))) +
      length (filter (\<lambda>c. closes t c \<and> c_account c = ?a \<and> is_open c) rows)"
    unfolding open_count rows(1) by simp
  then show ?thesis unfolding s'(2) new by (auto simp: max_def Suc_le_eq)
qed

text \<open>
  A flatten only adds commands: an open that was queued before it and not yet collected is still there
  when the terminal polls next.
\<close>

lemma flatten_keeps_queued_opens:
  assumes "fst (lane_round r g now b) = Inr (Sleeping r')"
  shows "set (mt5_commands_open a (br_db b)) \<subseteq> set (mt5_commands_open a (br_db (snd (lane_round r g now b))))"
proof -
  obtain rep where rep: "report_of (fr_account r) (br_registry b) = Some rep"
    using assms by (auto simp: lane_round_def split: option.splits)
  then obtain cs s' where "enqueue_all (fr_account r) g now cs (br_db b) = (Inr (), s')"
    "br_db (snd (lane_round r g now b)) = s'"
    using assms
    by (auto simp: lane_round_def Let_def conclude_flatten_def on_br_db_def br_db_def sv_db_def on_db_def with_db_def
        split: if_splits prod.splits sum.splits)
  with enqueue_all_adds [of "fr_account r" g now cs "br_db b" s'] show ?thesis by (auto simp: mt5_commands_open_def)
qed

section \<open>Settings and their version\<close>

text \<open>
  The writes to an organisation's row, by this process or by the API: a setting, the restore, a new
  organisation. Anything else leaves the table alone.
\<close>

inductive settings_step :: "db \<Rightarrow> db \<Rightarrow> bool" where
  setting: "set_org_setting g name v s = Inr t \<Longrightarrow> settings_step s t"
| restore: "settings_step s (snd (restore_copying_if_unchanged g k s))"
| create: "o_org_id r \<notin> o_org_id ` set (db_orgs s) \<Longrightarrow> settings_step s (s\<lparr>db_orgs := db_orgs s @ [r]\<rparr>)"
| other: "db_orgs t = db_orgs s \<Longrightarrow> settings_step s t"

definition org_at :: "ident \<Rightarrow> db \<Rightarrow> org_row option" where
  "org_at g s = find (\<lambda>r. o_org_id r = g) (db_orgs s)"

text \<open>A version number stands for one row: where it has not moved, nothing was written.\<close>

definition versioned :: "db \<Rightarrow> db \<Rightarrow> bool" where
  "versioned s t \<longleftrightarrow> (\<forall>g r. org_at g s = Some r \<longrightarrow>
     (\<exists>r'. org_at g t = Some r' \<and> (r' = r \<or> o_settings_version r < o_settings_version r')))"

lemma org_at_id: "org_at g s = Some r \<Longrightarrow> o_org_id r = g"
  by (simp add: org_at_def find_Some_iff) blast

lemma find_update_other:
  assumes "\<And>r. o_org_id (f r) = o_org_id r"
  shows "find (\<lambda>r. o_org_id r = h) (update_where P f rows) =
    map_option (\<lambda>r. if P r then f r else r) (find (\<lambda>r. o_org_id r = h) rows)"
  using assms by (induction rows) (auto simp: update_where_def)

lemma org_at_write:
  assumes "set_org_setting g name v s = Inr t"
  shows "org_at h t = map_option (\<lambda>r. if o_org_id r = g
      then (if name = ''copying_enabled'' then r\<lparr>o_copying_enabled := v\<rparr> else r\<lparr>o_dry_run := v\<rparr>)
             \<lparr>o_settings_version := o_settings_version r + 1\<rparr> else r) (org_at h s)"
proof -
  have "t = s\<lparr>db_orgs := update_where (\<lambda>r. o_org_id r = g)
      (\<lambda>r. (if name = ''copying_enabled'' then r\<lparr>o_copying_enabled := v\<rparr> else r\<lparr>o_dry_run := v\<rparr>)
             \<lparr>o_settings_version := o_settings_version r + 1\<rparr>) (db_orgs s)\<rparr>"
    using assms unfolding set_org_setting_def by (cases "name \<noteq> ''copying_enabled'' \<and> name \<noteq> ''dry_run''") (simp_all only: if_True if_False sum.simps simp_thms)
  then show ?thesis by (simp add: org_at_def find_update_other)
qed

lemma org_at_restore:
  "org_at h (snd (restore_copying_if_unchanged g k s)) = map_option (\<lambda>r. if o_org_id r = g \<and> o_settings_version r = k
      then r\<lparr>o_copying_enabled := True, o_settings_version := o_settings_version r + 1\<rparr> else r) (org_at h s)"
  by (simp add: restore_copying_if_unchanged_def Let_def org_at_def find_update_other)

lemma find_append_Some: "find P xs = Some x \<Longrightarrow> find P (xs @ ys) = Some x"
  by (induction xs) auto

lemma settings_step_versioned: "settings_step s t \<Longrightarrow> versioned s t"
  unfolding versioned_def
  by (induction rule: settings_step.induct)
    (auto simp: org_at_write org_at_restore, auto simp: org_at_def find_append_Some)

lemma versioned_refl: "versioned s s"
  by (auto simp: versioned_def)

lemma versioned_trans: "versioned s t \<Longrightarrow> versioned t u \<Longrightarrow> versioned s u"
  unfolding versioned_def by (fastforce intro: less_trans)

interpretation settings: bounded_machine versioned settings_step "\<lambda>_. True" "\<lambda>_. True"
  by unfold_locales (auto intro: versioned_refl versioned_trans settings_step_versioned)

section \<open>The end of a close-all\<close>

lemma org_at_log [simp]: "org_at h (log_event c sv p a l g act s) = org_at h s"
  by (simp add: org_at_def)

lemma br_db_simps [simp]:
  "br_db (on_br_db f b) = f (br_db b)" "br_db (on_engine g b) = eng_db (g (sv_engine (br_service b)))"
  by (simp_all add: br_db_def on_br_db_def on_db_def with_db_def sv_db_def on_engine_def on_service_def)

lemma br_db_control_log [simp]: "br_db (control_log sv p a g act b) = log_event ''control'' sv p a None g act (br_db b)"
  by (simp add: control_log_def)

lemma restore_twice:
  "org_at h (snd (restore_copying_if_unchanged g k (snd (restore_copying_if_unchanged g k s)))) =
   org_at h (snd (restore_copying_if_unchanged g k s))"
  by (cases "org_at h s") (auto simp: org_at_restore)

lemma org_at_attempt: "org_at h (snd (restore_attempt g k f s)) =
    (if f = Lost_before then org_at h s else org_at h (snd (restore_copying_if_unchanged g k s)))"
  by (cases f) (simp_all add: restore_attempt_def log_restore_def case_prod_beta)

text \<open>The retry does no harm: however often the restore is tried, it takes effect at most once.\<close>

lemma attempt_after_restore:
  "org_at h (snd (restore_attempt g k f (snd (restore_copying_if_unchanged g k s)))) =
   org_at h (snd (restore_copying_if_unchanged g k s))"
  by (simp add: org_at_attempt restore_twice)

lemma org_at_restored: "org_at h (restore_copying_after_flatten g k (f1, f2, lost) s) =
    (if f1 = Lost_before \<and> f2 = Lost_before then org_at h s else org_at h (snd (restore_copying_if_unchanged g k s)))"
proof -
  have "snd (restore_attempt g k f1 s) = s \<and> \<not> fst (restore_attempt g k f1 s)" if "f1 = Lost_before"
    using that by (simp add: restore_attempt_def case_prod_beta)
  moreover have "snd (restore_attempt g k f1 s) = snd (restore_copying_if_unchanged g k s) \<or> fst (restore_attempt g k f1 s)"
    if "f1 \<noteq> Lost_before"
    using that by (cases f1) (simp_all add: restore_attempt_def case_prod_beta)
  ultimately show ?thesis
    by (auto simp: restore_copying_after_flatten_def log_restore_def case_prod_beta Let_def org_at_attempt restore_twice)
qed

lemma close_all_begin_org_wide:
  assumes "close_all_begin g None actor b = (Inr ft, b1)"
  shows "\<exists>r. org_at g (br_db b) = Some r \<and> ft_org ft = g \<and> ft_account ft = None \<and>
    ft_was_copying ft = o_copying_enabled r \<and> ft_guard_version ft = o_settings_version r + 1 \<and>
    org_at g (br_db b1) = Some (r\<lparr>o_copying_enabled := False, o_settings_version := o_settings_version r + 1\<rparr>) \<and>
    (\<forall>h. h \<noteq> g \<longrightarrow> org_at h (br_db b1) = org_at h (br_db b))"
proof -
  from assms obtain r where r: "org_at g (br_db b) = Some r"
    by (auto simp: close_all_begin_def org_exists_def get_org_def org_at_def split: option.splits)
  obtain s1 where s1: "set_org_setting g ''copying_enabled'' False (br_db b) = Inr s1"
    by (simp add: set_org_setting_def)
  have g: "o_org_id r = g" by (rule org_at_id [OF r])
  have at: "org_at g s1 = Some (r\<lparr>o_copying_enabled := False, o_settings_version := o_settings_version r + 1\<rparr>)"
    using org_at_write [OF s1, of g] by (simp add: r g)
  have "ft_guard_version ft = o_settings_version r + 1" "br_db b1 = s1" "ft_org ft = g" "ft_account ft = None"
    "ft_was_copying ft = o_copying_enabled r"
    using assms r at
    by (auto simp: close_all_begin_def org_exists_def get_org_def write_setting_def s1 get_org_settings_version_def
        org_at_def [symmetric] split: option.splits)
  moreover have "org_at h s1 = org_at h (br_db b)" if "h \<noteq> g" for h
    using org_at_write [OF s1, of h] that by (cases "org_at h (br_db b)") (auto dest: org_at_id)
  ultimately show ?thesis using r at by blast
qed

definition restorable :: "db_fault \<times> db_fault \<times> bool \<Rightarrow> bool" where
  "restorable faults \<longleftrightarrow> fst faults \<noteq> Lost_before \<or> fst (snd faults) \<noteq> Lost_before"

lemma close_all_finish_orgs:
  "org_at h (br_db (snd (close_all_finish ft results faults lost b))) =
    (if ft_was_copying ft \<and> restorable faults
     then org_at h (snd (restore_copying_if_unchanged (ft_org ft) (ft_guard_version ft) (br_db b))) else org_at h (br_db b))"
  by (cases faults) (auto simp: close_all_finish_def Let_def restorable_def org_at_restored split: sum.split)

text \<open>The answer says copying survived only when the table says so.\<close>

lemma close_all_answer:
  assumes "fst (close_all_finish ft results faults lost b) = Inr rep" "ft_account ft = None" "\<not> cr_paused rep"
  shows "\<exists>r. org_at (ft_org ft) (br_db (snd (close_all_finish ft results faults lost b))) = Some r \<and> o_copying_enabled r"
  using assms
  by (auto simp: close_all_finish_def Let_def get_org_def org_at_def [symmetric] split: sum.splits if_splits option.splits)

text \<open>
  C13. The kill switch of one organisation stops its copying and gives it back. It touches no other
  organisation's settings. If somebody wrote the organisation's settings while the flatten ran, their
  write stands as it is. If nobody did, and copying was on before, then after the restore the row is as
  it was (two versions on), provided one of the two attempts reached the database. Copying that was off
  stays as it is, and the answer says copying goes on only when it does.
\<close>

theorem close_all_gives_copying_back:
  assumes "close_all_begin g None actor b0 = (Inr ft, b1)" "settings_step\<^sup>*\<^sup>* (br_db b1) (br_db b2)"
    and "close_all_finish ft results faults read_lost b2 = (reply, b3)"
  shows "\<exists>r. org_at g (br_db b0) = Some r \<and>
    org_at g (br_db b1) = Some (r\<lparr>o_copying_enabled := False, o_settings_version := o_settings_version r + 1\<rparr>) \<and>
    (\<forall>h. h \<noteq> g \<longrightarrow> org_at h (br_db b1) = org_at h (br_db b0) \<and> org_at h (br_db b3) = org_at h (br_db b2)) \<and>
    (org_at g (br_db b2) \<noteq> org_at g (br_db b1) \<or> \<not> o_copying_enabled r \<longrightarrow> org_at g (br_db b3) = org_at g (br_db b2)) \<and>
    (org_at g (br_db b2) = org_at g (br_db b1) \<and> o_copying_enabled r \<and> restorable faults \<longrightarrow>
       org_at g (br_db b3) = Some (r\<lparr>o_settings_version := o_settings_version r + 2\<rparr>)) \<and>
    (\<forall>rep. reply = Inr rep \<and> \<not> cr_paused rep \<longrightarrow> (\<exists>r3. org_at g (br_db b3) = Some r3 \<and> o_copying_enabled r3))"
proof -
  from close_all_begin_org_wide [OF assms(1)] obtain r where r: "org_at g (br_db b0) = Some r" "ft_org ft = g"
    "ft_account ft = None" "ft_was_copying ft = o_copying_enabled r" "ft_guard_version ft = o_settings_version r + 1"
    "org_at g (br_db b1) = Some (r\<lparr>o_copying_enabled := False, o_settings_version := o_settings_version r + 1\<rparr>)"
    "\<forall>h. h \<noteq> g \<longrightarrow> org_at h (br_db b1) = org_at h (br_db b0)" by blast
  from settings.run_inside [OF assms(2)] r(6) obtain r2 where r2: "org_at g (br_db b2) = Some r2"
    "org_at g (br_db b1) = Some r2 \<or> o_settings_version r + 1 < o_settings_version r2"
    by (fastforce simp: versioned_def)
  have b3: "org_at h (br_db b3) = (if o_copying_enabled r \<and> restorable faults
      then org_at h (snd (restore_copying_if_unchanged g (o_settings_version r + 1) (br_db b2))) else org_at h (br_db b2))" for h
    using close_all_finish_orgs [of h ft results faults read_lost b2] by (simp add: assms(3) r)
  have other: "org_at h (br_db b3) = org_at h (br_db b2)" if "h \<noteq> g" for h
    using that by (cases "org_at h (br_db b2)") (auto simp: b3 org_at_restore dest: org_at_id)
  have "org_at g (br_db b3) = org_at g (br_db b2)" if "org_at g (br_db b2) \<noteq> org_at g (br_db b1) \<or> \<not> o_copying_enabled r"
    using that r2 by (auto simp: b3 org_at_restore)
  moreover have "org_at g (br_db b3) = Some (r\<lparr>o_settings_version := o_settings_version r + 2\<rparr>)"
    if "org_at g (br_db b2) = org_at g (br_db b1)" "o_copying_enabled r" "restorable faults"
    using that org_at_id [OF r(1)] by (simp add: b3 org_at_restore r(6))
  moreover have "\<exists>r3. org_at g (br_db b3) = Some r3 \<and> o_copying_enabled r3" if "reply = Inr rep" "\<not> cr_paused rep" for rep
    using close_all_answer [of ft results faults read_lost b2 rep] that by (simp add: assms(3) r)
  ultimately show ?thesis using r other by blast
qed

text \<open>
  Two overlapping presses: the second finds copying off and does not restore it, and its pause moves the
  version, so the first does not either. Copying ends up off.
\<close>

lemma overlapping_close_alls:
  assumes "close_all_begin g None p1 b0 = (Inr f1, b1)" "close_all_begin g None p2 b1 = (Inr f2, b2)"
    and "close_all_finish f1 x1 y1 l1 b2 = (q1, b3)" "close_all_finish f2 x2 y2 l2 b3 = (q2, b4)"
  shows "\<exists>r. org_at g (br_db b4) = Some r \<and> \<not> o_copying_enabled r"
proof -
  from close_all_begin_org_wide [OF assms(1)] close_all_begin_org_wide [OF assms(2)] obtain r where
    r: "ft_org f1 = g" "ft_guard_version f1 = o_settings_version r + 1" "\<not> ft_was_copying f2"
      "org_at g (br_db b2) = Some (r\<lparr>o_copying_enabled := False, o_settings_version := o_settings_version r + 2\<rparr>)"
    by force
  have "org_at g (br_db b3) = org_at g (br_db b2)"
    using close_all_finish_orgs [of g f1 x1 y1 l1 b2] by (simp add: assms(3) r org_at_restore)
  then have "org_at g (br_db b4) = org_at g (br_db b2)"
    using close_all_finish_orgs [of g f2 x2 y2 l2 b3] by (simp add: assms(4) r(3))
  with r(4) show ?thesis by simp
qed

section \<open>Concrete runs\<close>

definition control_report :: sync_report where
  "control_report = \<lparr>sr_seq = 1, sr_ts_ms = 0, sr_balance = 0, sr_equity = 0, sr_margin = 0, sr_margin_free = 0,
     sr_positions = [\<lparr>rp_ticket = 41, rp_symbol = ''GOLD'', rp_side = ''BUY'', rp_volume = 5, rp_open_price = 1,
       rp_stop_loss = None, rp_take_profit = None, rp_current_price = None, rp_pnl = 0, rp_swap = 0, rp_comment = [],
       rp_magic = 0, rp_opened_at_ms = 0\<rparr>],
     sr_orders = [], sr_deals = [], sr_acks = []\<rparr>"

definition control_app :: bridge where
  "control_app = \<lparr>br_service = \<lparr>sv_engine = witness_engine True False, sv_protection = [],
       sv_checks = [], sv_captures = [], sv_amends = [], sv_notified = []\<rparr>,
     br_tables = \<lparr>mt_links = [], mt_symbol_cache = [], mt_aliases = [], mt_ledger = [], mt_positions = [],
       mt_deals = \<lparr>ds_deals = [], ds_watermark = [], ds_backfill = []\<rparr>\<rparr>,
     br_registry = [(7, (new_state 2)\<lparr>as_report := Some control_report\<rparr>)],
     br_last_touch = [], br_settled = [], br_aliases = [], br_resyncs = []\<rparr>"

definition control_env :: app_env where
  "control_env = \<lparr>ae_routing = \<lparr>org_by_account = [], master_by_org = [], slaves_by_org = [], platform_by_account = []\<rparr>,
     ae_client = (\<lambda>_. Connected)\<rparr>"

definition control_book :: "ident list \<Rightarrow> broker_answer" where
  "control_book ids = ReconcileRes \<lparr>bk_account = 7, bk_positions = map (\<lambda>i. \<lparr>rq_position_id = i, rq_symbol_id = 1,
     rq_trade_side = Trade_BUY, rq_volume = 100, rq_price = 1, rq_label = [], rq_stop_loss = 0, rq_take_profit = 0\<rparr>) ids,
     bk_orders = []\<rparr>"

definition control_looks :: "((broker_answer \<times> int) \<times> bridge) list" where
  "control_looks = map (\<lambda>ids. ((control_book ids, 0), control_app)) [[1, 2], [2], [], []]"

theorem flatten_reports_what_it_measured_witness:
  "\<exists>m n. flatten_account_safely control_env 7 control_app control_looks = (Finished m, n) \<and> sm_positions_closed m = 2 \<and>
     sm_error m = None \<and> seen_by (7, None) (fst (control_looks ! (n - 1))) (snd (control_looks ! (n - 1))) = Some ([], [])"
proof -
  have "FLATTEN_ROUNDS < length control_looks" by (simp add: FLATTEN_ROUNDS_def control_looks_def)
  from flatten_reports_what_it_measured [OF this, of control_env 7 control_app] obtain m n where
    mn: "flatten_account_safely control_env 7 control_app control_looks = (Finished m, n)" by blast
  have run: "flatten_account_safely control_env 7 control_app control_looks =
    (Finished \<lparr>sm_account = 7, sm_positions_closed = 2, sm_orders_cancelled = 0, sm_positions_remaining = Some [],
       sm_orders_remaining = Some [], sm_rounds = 2, sm_error = None\<rparr>, 3)" by code_simp
  have "seen_by (7, None) (fst (control_looks ! 2)) (snd (control_looks ! 2)) = Some ([], [])" by code_simp
  with mn show ?thesis unfolding run by auto
qed

theorem flatten_queues_each_close_once_witness:
  "length (filter (closes 41) (mt5_commands_open 7 (br_db (snd (lane_round (flatten_start 7 (Some 2)) 2 0 control_app))))) = 1"
proof -
  let ?r = "flatten_start 7 (Some 2)"
  have 1: "report_of (fr_account ?r) (br_registry control_app) = Some control_report"
    by (simp add: control_app_def flatten_start_def report_of_def)
  have 2: "distinct (map rp_ticket (sr_positions control_report))" "41 \<in> rp_ticket ` set (sr_positions control_report)"
    by (simp_all add: control_report_def)
  have 3: "fst (lane_round ?r 2 0 control_app) = Inr (Sleeping (next_round (observe [41] [] ?r)))"
    by (simp add: lane_round_def 1 enqueue_mt5_command_def COMMAND_KINDS_def lane_commands_def lane_close_def Let_def
        control_report_def observe_def flatten_start_def must_send_def FLATTEN_ROUNDS_def payload_ints_def
        mt5_commands_open_def control_app_def witness_engine_def empty_db_def br_db_def sv_db_def report_of_def
        List.map_filter_simps)
  have "mt5_commands_open 7 (br_db control_app) = []"
    by (simp add: mt5_commands_open_def control_app_def br_db_def sv_db_def witness_engine_def empty_db_def)
  moreover have "fr_account ?r = 7" by (simp add: flatten_start_def)
  ultimately show ?thesis using flatten_queues_each_close_once [OF 1 2(1) 3 2(2)] by simp
qed

theorem close_all_gives_copying_back_witness:
  "org_at 2 (br_db (snd (close_all_finish \<lparr>ft_org = 2, ft_account = None, ft_actor = None, ft_was_copying = True,
      ft_guard_version = 2, ft_targets = [7]\<rparr> (Inr []) (Lost_before, Fine, False) False
      (snd (close_all_begin 2 None None control_app))))) =
   Some \<lparr>o_org_id = 2, o_name = ''org'', o_copying_enabled = True, o_dry_run = False, o_settings_version = 3\<rparr>"
proof -
  let ?ft = "\<lparr>ft_org = 2, ft_account = None, ft_actor = None, ft_was_copying = True, ft_guard_version = 2, ft_targets = [7]\<rparr>"
  let ?b1 = "snd (close_all_begin 2 None None control_app)"
  let ?f = "(Lost_before, Fine, False)"
  let ?e = "close_all_finish ?ft (Inr []) ?f False ?b1"
  have "fst (close_all_begin 2 None None control_app) = Inr ?ft" by code_simp
  then have b: "close_all_begin 2 None None control_app = (Inr ?ft, ?b1)" by (simp add: prod_eq_iff)
  have r: "org_at 2 (br_db control_app) =
      Some \<lparr>o_org_id = 2, o_name = ''org'', o_copying_enabled = True, o_dry_run = False, o_settings_version = 1\<rparr>"
    by code_simp
  have f: "restorable ?f" by (simp add: restorable_def)
  have e: "?e = (fst ?e, snd ?e)" by simp
  from close_all_gives_copying_back [OF b rtranclp.rtrancl_refl e] show ?thesis by (auto simp: r f)
qed

end
