(* ===== verification/Operator_Order_Laws.thy ===== *)
theory Operator_Order_Laws
  imports Operator_Orders Operator_Laws
begin

text \<open>
  What the operator's trades can put on the wire, and what the trailing sweep can do to a stop: a manual
  order passes every guard or leaves nothing behind; a close never asks for more than the position
  holds; over any number of sweeps a stop only tightens.
\<close>

section \<open>Manual orders\<close>

lemma br_tasks_simps [simp]:
  "br_tasks (on_br_db f b) = br_tasks b" "br_tasks (control_log sv p a g act b) = br_tasks b"
  "br_tasks (b\<lparr>br_registry := reg\<rparr>) = br_tasks b" "br_db (b\<lparr>br_registry := reg\<rparr>) = br_db b"
  "br_tasks (send_direct a1 q b) = br_tasks b @ [\<lparr>st_account = a1, st_request = q, st_attempt = 0\<rparr>]"
  "br_db (send_direct a1 q b) = br_db b"
  by (simp_all add: br_tasks_def br_db_def sv_db_def on_br_db_def control_log_def on_db_def with_db_def send_direct_def
      on_engine_def on_service_def start_send_def)

definition sends_one :: "send_task \<Rightarrow> bridge \<Rightarrow> bridge \<Rightarrow> bool" where
  "sends_one t b b' \<longleftrightarrow> br_tasks b' = br_tasks b @ [t] \<and> db_commands (br_db b') = db_commands (br_db b)"

definition queues_one :: "ident \<Rightarrow> string \<times> payload \<Rightarrow> bridge \<Rightarrow> bridge \<Rightarrow> bool" where
  "queues_one a cmd b b' \<longleftrightarrow> br_tasks b' = br_tasks b \<and>
     (\<exists>c. db_commands (br_db b') = db_commands (br_db b) @ [c] \<and> c_account c = a \<and> (c_kind c, c_payload c) = cmd \<and> c_status c = Queued)"

definition within_symbol :: "int \<Rightarrow> rat \<Rightarrow> symbol_info \<Rightarrow> bool" where
  "within_symbol volume units info \<longleftrightarrow> si_min_volume info \<le> volume \<and> of_int volume \<le> units \<and>
     (0 < si_step_volume info \<longrightarrow> si_step_volume info dvd volume)"

lemma on_step_le: "0 \<le> step \<Longrightarrow> on_step v step \<le> v"
  by (auto simp: on_step_def)

lemma on_step_dvd: "0 < step \<Longrightarrow> step dvd on_step v step"
  by (simp add: on_step_def minus_mod_eq_mult_div)

lemma enqueue_cases:
  "enqueue a g cmd now b = (r, b') \<Longrightarrow>
     (case r of Inl _ \<Rightarrow> b' = b | Inr _ \<Rightarrow> queues_one a cmd b b' \<and> db_trailing (br_db b') = db_trailing (br_db b) \<and>
        br_tables b' = br_tables b)"
  by (auto simp: enqueue_def enqueue_mt5_command_def queues_one_def Let_def on_br_db_def br_tasks_def br_db_def sv_db_def
      on_db_def with_db_def split: sum.splits if_splits)

lemma ticket_bounds:
  assumes "read_ticket limit params = Inr tk"
  shows "0 < tk_lots tk \<and> \<not> exceeds (tk_lots tk) limit \<and>
    (\<forall>x \<in> set_option (tk_stop_loss tk) \<union> set_option (tk_take_profit tk) \<union> set_option (tk_limit tk) \<union> set_option (tk_stop tk). 0 < x)"
proof -
  have l: "0 < x \<and> \<not> exceeds x limit" if "lots_field limit v = Inr x" for v x
  proof -
    from that obtain f where f: "float_or ''volume_lots must be a number'' v = Inr f" by (auto simp: lots_field_def exc_bind_Inr_iff)
    with that show ?thesis by (cases f) (auto simp: lots_field_def exc_bind_def bad_def split: if_splits)
  qed
  have p: "0 < x" if "price_field params n = Inr (Some x)" for n x
    using that by (auto simp: price_field_def price_value_def exc_bind_Inr_iff bad_def finite_positive_def
        split: jv.splits option.splits pyfloat.splits if_splits)
  from assms show ?thesis
    by (cases "side_by_name (py_upper (py_str (dget params ''side'' (VText []))))";
        cases "order_type_by_name (py_upper (py_str (dget params ''order_type'' (VText []))))")
      (auto simp: read_ticket_def exc_bind_Inr_iff bad_def split: if_splits dest: l p)
qed

lemma py_trunc_le: "0 \<le> x \<Longrightarrow> of_int (py_trunc x) \<le> x"
  by (simp add: py_trunc_def)

lemma within_symbol_on_step:
  assumes "0 \<le> u" "0 \<le> si_step_volume info" "si_min_volume info \<le> on_step (py_trunc u) (si_step_volume info)"
  shows "within_symbol (on_step (py_trunc u) (si_step_volume info)) u info"
proof -
  have "rat_of_int (on_step (py_trunc u) (si_step_volume info)) \<le> of_int (py_trunc u)" using on_step_le [OF assms(2)] by simp
  also have "\<dots> \<le> u" by (rule py_trunc_le [OF assms(1)])
  finally show ?thesis using assms(3) on_step_dvd by (auto simp: within_symbol_def)
qed

lemma ctrader_order_raises: "ctrader_order env tk g b = (Inl x, b') \<Longrightarrow> b' = b"
  by (auto simp: ctrader_order_def Let_def bad_def split: jv.splits option.splits if_splits sum.splits)

lemma ctrader_order_sends:
  assumes "ctrader_order env tk g b = (Inr pl, b')" "0 < tk_lots tk"
  shows "\<exists>info pt. map_of (load_symbol_cache (tk_account tk) (br_tables b)) (pl_symbol pl) = Some info \<and>
    pl_command_id pl = None \<and>
    sends_one \<lparr>st_account = tk_account tk, st_request = manual_request tk info (pl_volume pl) pt, st_attempt = 0\<rparr> b b' \<and>
    (0 \<le> si_step_volume info \<and> 0 \<le> si_lot_size info \<longrightarrow>
       within_symbol (pl_volume pl) (fl (tk_lots tk * of_int (si_lot_size info))) info)"
proof -
  obtain name info where n: "tk_symbol tk = VText name" "map_of (load_symbol_cache (tk_account tk) (br_tables b)) name = Some info"
    using assms(1) by (auto simp: ctrader_order_def bad_def split: jv.splits option.splits)
  let ?u = "fl (tk_lots tk * of_int (si_lot_size info))"
  obtain pt where pt: "pl_symbol pl = name" "pl_volume pl = on_step (py_trunc ?u) (si_step_volume info)" "pl_command_id pl = None"
    "si_min_volume info \<le> on_step (py_trunc ?u) (si_step_volume info)"
    "sends_one \<lparr>st_account = tk_account tk, st_request = manual_request tk info (pl_volume pl) pt, st_attempt = 0\<rparr> b b'"
    using assms(1) by (auto simp: ctrader_order_def n Let_def bad_def sends_one_def split: if_splits sum.splits)
  have "0 \<le> ?u" if "0 \<le> si_lot_size info" using assms(2) that by (simp add: fl.rnd_nonneg)
  with pt n(2) show ?thesis by (auto simp: within_symbol_on_step)
qed

lemma lane_symbol_frame:
  "br_db (snd (lane_symbol a n b)) = br_db b" "br_tasks (snd (lane_symbol a n b)) = br_tasks b"
  by (simp_all add: lane_symbol_def case_prod_beta)

lemma lane_order_raises: "lane_order tk g now b = (Inl x, b') \<Longrightarrow> br_db b' = br_db b \<and> br_tasks b' = br_tasks b"
  using lane_symbol_frame [of "tk_account tk" "py_str (tk_symbol tk)" b]
  by (auto simp: lane_order_def Let_def bad_def split: prod.splits option.splits if_splits sum.splits dest: enqueue_cases)

lemma lane_order_queues:
  assumes "lane_order tk g now b = (Inr pl, b')"
  shows "\<exists>info. fst (lane_symbol (tk_account tk) (py_str (tk_symbol tk)) b) = Some (pl_symbol pl, info) \<and>
    queues_one (tk_account tk) (lane_payload tk (pl_symbol pl) (pl_volume pl) (si_digits info)) b b' \<and>
    pl_command_id pl \<noteq> None \<and> 0 < pl_volume pl \<and> si_min_volume info \<le> pl_volume pl \<and>
    (0 \<le> si_step_volume info \<longrightarrow> pl_volume pl \<le> centilots (tk_lots tk)) \<and>
    (0 < si_step_volume info \<longrightarrow> si_step_volume info dvd pl_volume pl)"
proof -
  from assms obtain name info b1 where n: "lane_symbol (tk_account tk) (py_str (tk_symbol tk)) b = (Some (name, info), b1)"
    by (auto simp: lane_order_def bad_def split: prod.splits option.splits)
  let ?v = "on_step (centilots (tk_lots tk)) (si_step_volume info)"
  from assms obtain cid b2 where e: "enqueue (tk_account tk) g (lane_payload tk name ?v (si_digits info)) now b1 = (Inr cid, b2)"
    and pl: "pl_symbol pl = name" "pl_volume pl = ?v" "pl_command_id pl = Some cid" "0 < ?v" "si_min_volume info \<le> ?v"
    and b': "br_tasks b' = br_tasks b2" "db_commands (br_db b') = db_commands (br_db b2)"
    by (auto simp: lane_order_def n Let_def bad_def split: prod.splits if_splits sum.splits)
  have "queues_one (tk_account tk) (lane_payload tk name ?v (si_digits info)) b b'"
    using enqueue_cases [OF e] b' lane_symbol_frame [of "tk_account tk" "py_str (tk_symbol tk)" b] by (simp add: n queues_one_def)
  with pl n show ?thesis by (intro exI [of _ info]) (auto simp: on_step_le on_step_dvd)
qed


section \<open>Closes\<close>

lemma partial_volume_bounds: "partial_volume v f live = Inr x \<Longrightarrow> 0 < x \<and> x \<le> live"
  by (auto simp: partial_volume_def exc_bind_Inr_iff bad_def Let_def split: if_splits)

text \<open>
  Closing a position by hand sends exactly one request, for a position the broker reports open, and never for
  more than it holds: without a volume for all of it, with one for a positive part.
\<close>

lemma manual_close_within_position:
  assumes "close_position_answered a q v actor symbols answer b = (Inr r, b')"
  shows "\<exists>book pos. answer = ReconcileRes book \<and> pos \<in> set (bk_positions book) \<and> rq_position_id pos = q \<and>
    sends_one \<lparr>st_account = a, st_request = ClosePositionReq a q (cl_volume r), st_attempt = 0\<rparr> b b' \<and>
    cl_volume r \<le> rq_volume pos \<and> (if v = VNone then cl_volume r = rq_volume pos else 0 < cl_volume r)"
proof -
  from assms obtain book where book: "answer = ReconcileRes book"
    by (cases answer) (auto simp: close_position_answered_def extract_or_raise_def exc_bind_def)
  from assms obtain pos where pos: "find (\<lambda>p. rq_position_id p = q) (bk_positions book) = Some pos"
    "close_volume symbols pos v = Inr (cl_volume r)"
    "sends_one \<lparr>st_account = a, st_request = ClosePositionReq a q (cl_volume r), st_attempt = 0\<rparr> b b'"
    by (auto simp: close_position_answered_def book extract_or_raise_def exc_bind_def bad_def Let_def manual_close_log_def
        sends_one_def split: option.splits sum.splits)
  have "pos \<in> set (bk_positions book) \<and> rq_position_id pos = q" using pos(1) by (auto simp: find_Some_iff)
  moreover have "cl_volume r \<le> rq_volume pos \<and> (if v = VNone then cl_volume r = rq_volume pos else 0 < cl_volume r)"
    using pos(2) by (auto simp: close_volume_def bad_def split: if_splits option.splits dest: partial_volume_bounds)
  ultimately show ?thesis using book pos(3) by blast
qed

text \<open>The lane's close is for a position of the terminal's report, and for lots 0, which means all of it, or a part.\<close>

lemma lane_close_within_position:
  assumes "lane_close_position a q v actor now b = (Inr r, b')"
  shows "\<exists>pos. position_of a q (br_registry b) = Some pos \<and> cl_volume r \<le> rp_volume pos \<and>
    (v = VNone \<longrightarrow> cl_volume r = rp_volume pos) \<and>
    queues_one a (''close'', [(''position'', JInt (rp_ticket pos)),
      (''lots'', JNum (if cl_volume r = rp_volume pos then 0 else lots (cl_volume r)))]) b b'"
proof -
  from assms obtain g pos where g: "lane_org a b = Inr g" "lane_position a q b = Inr pos"
    by (cases "lane_org a b"; cases "lane_position a q b") (auto simp: lane_close_position_def exc_bind_def)
  let ?vol = "if v = VNone then Inr (rp_volume pos) else partial_volume v (\<lambda>f. rounded (times_int f CENTILOTS)) (rp_volume pos)"
  from assms obtain volume where vol: "?vol = Inr volume"
    by (cases ?vol) (auto simp: lane_close_position_def exc_bind_def g)
  let ?cmd = "(''close'', [(''position'', JInt (rp_ticket pos)), (''lots'', JNum (if rp_volume pos \<le> volume then 0 else lots volume))])"
  from assms obtain b1 cid where *: "enqueue a g ?cmd now b = (Inr cid, b1)" "cl_volume r = volume" "b' = manual_close_log r (Some g) actor b1"
    by (cases "enqueue a g ?cmd now b") (auto simp: lane_close_position_def exc_bind_def g vol Let_def split: sum.splits)
  have p: "position_of a q (br_registry b) = Some pos" using g(2) by (auto simp: lane_position_def bad_def split: option.splits)
  have "volume \<le> rp_volume pos \<and> (v = VNone \<longrightarrow> volume = rp_volume pos)"
    using vol by (auto split: if_splits dest: partial_volume_bounds)
  with * p enqueue_cases [OF *(1)] show ?thesis
    by (intro exI [of _ pos]) (auto simp: queues_one_def manual_close_log_def)
qed

section \<open>The trailing sweep\<close>

definition tightened :: "string \<Rightarrow> trailing_row \<Rightarrow> trailing_row \<Rightarrow> bool" where
  "tightened side t t' \<longleftrightarrow>
     (if side = ''BUY'' then tr_current_stop t \<le> tr_current_stop t' \<and> tr_best_price t \<le> tr_best_price t'
      else tr_current_stop t' \<le> tr_current_stop t \<and> tr_best_price t' \<le> tr_best_price t)"

text \<open>What an amend leaves alone: the tables of positions and the trailing rows.\<close>

definition same_trailing :: "bridge \<Rightarrow> bridge \<Rightarrow> bool" where
  "same_trailing b b' \<longleftrightarrow> br_tables b' = br_tables b \<and> db_trailing (br_db b') = db_trailing (br_db b)"

lemma br_tables_simps [simp]:
  "br_tables (on_br_db f b) = br_tables b" "br_tables (control_log sv p x y act b) = br_tables b"
  "br_tables (send_direct a q b) = br_tables b"
  by (simp_all add: on_br_db_def control_log_def send_direct_def on_engine_def on_service_def)

lemma enqueue_same_trailing: "same_trailing b (snd (enqueue a g cmd now b))"
  using enqueue_cases [of a g cmd now b] by (cases "enqueue a g cmd now b") (auto simp: same_trailing_def split: sum.splits)

lemma amend_same_trailing: "same_trailing b (snd (amend_position_sltp env a q v w actor now b))"
proof -
  have lane: "same_trailing b (snd (lane_amend a q sl tp actor now b))" for sl tp
    using enqueue_same_trailing [of "b\<lparr>br_registry := _\<rparr>" a]
    by (auto simp: lane_amend_def same_trailing_def amend_log_def Let_def case_prod_beta split: sum.split)
  have "same_trailing b (snd (ctrader_amend env a q sl tp actor b))" for sl tp
    by (auto simp: ctrader_amend_def same_trailing_def amend_log_def Let_def split: sum.split prod.split)
  with lane show ?thesis
    by (auto simp: amend_position_sltp_def same_trailing_def split: sum.split)
qed

lemma price_same_trailing: "same_trailing b (snd (current_position_price env a q b))"
  by (simp add: current_position_price_def same_trailing_def case_prod_beta)

lemma next_stop_tightens:
  assumes "next_stop t best p rule = Inr x"
  shows "if pr_side p = ''BUY'' then tr_current_stop t \<le> x else x \<le> tr_current_stop t"
  using assms trailing_ratchet [of "pr_side p" "pr_entry_price p" best _ _ "tr_current_stop t" x]
  by (auto simp: next_stop_def map_sum_def split: option.splits if_splits sum.splits)

lemma load_after_upsert:
  "load_trailing_state a q (upsert_trailing_state a' q' best stop now s) =
    (if (a, q) = (a', q')
     then Some (case load_trailing_state a q s of
         None \<Rightarrow> \<lparr>tr_account_id = a, tr_position_id = q, tr_best_price = best, tr_current_stop = stop, tr_updated_at = Some now\<rparr>
       | Some t \<Rightarrow> t\<lparr>tr_best_price := best, tr_current_stop := stop, tr_updated_at := Some now\<rparr>)
     else load_trailing_state a q s)"
proof -
  have *: "find (\<lambda>t. tr_account_id t = a \<and> tr_position_id t = q) (update_where (\<lambda>t. tr_account_id t = a' \<and> tr_position_id t = q')
      (\<lambda>t. t\<lparr>tr_best_price := best, tr_current_stop := stop, tr_updated_at := Some now\<rparr>) rows) =
    map_option (\<lambda>t. if (a, q) = (a', q') then t\<lparr>tr_best_price := best, tr_current_stop := stop, tr_updated_at := Some now\<rparr> else t)
      (find (\<lambda>t. tr_account_id t = a \<and> tr_position_id t = q) rows)" for rows
    by (induction rows) (auto simp: update_where_def)
  have app: "find P (xs @ ys) = (case find P xs of None \<Rightarrow> find P ys | Some x \<Rightarrow> Some x)" for P and xs ys :: "trailing_row list"
    by (induction xs) auto
  have none: "find P xs = None \<longleftrightarrow> (\<forall>x \<in> set xs. \<not> P x)" for P and xs :: "trailing_row list"
    by (auto simp: find_None_iff)
  show ?thesis
  proof (cases "matching (\<lambda>t. tr_account_id t = a' \<and> tr_position_id t = q') (db_trailing s) = 0")
    case True
    then have "find (\<lambda>t. tr_account_id t = a' \<and> tr_position_id t = q') (db_trailing s) = None" by (simp add: none)
    with True show ?thesis
      by (cases "(a, q) = (a', q')") (auto simp: load_trailing_state_def upsert_trailing_state_def app split: option.split)
  next
    case False
    then have "find (\<lambda>t. tr_account_id t = a' \<and> tr_position_id t = q') (db_trailing s) \<noteq> None" by (simp add: none)
    then obtain t where "find (\<lambda>t. tr_account_id t = a' \<and> tr_position_id t = q') (db_trailing s) = Some t" by auto
    with False show ?thesis
      using * [of "db_trailing s"] unfolding load_trailing_state_def upsert_trailing_state_def Let_def
      by (cases "(a, q) = (a', q')") (simp_all only: if_False db.simps, simp_all add: option.map_ident)
  qed
qed

lemma load_after_delete:
  "load_trailing_state a q (delete_trailing_state a' q' s) = (if (a, q) = (a', q') then None else load_trailing_state a q s)"
proof -
  have "find (\<lambda>t. tr_account_id t = a \<and> tr_position_id t = q) (filter (\<lambda>t. \<not> (tr_account_id t = a' \<and> tr_position_id t = q')) rows) =
    (if (a, q) = (a', q') then None else find (\<lambda>t. tr_account_id t = a \<and> tr_position_id t = q) rows)" for rows
    by (induction rows) (auto simp: find_None_iff)
  from this [of "db_trailing s"] show ?thesis unfolding load_trailing_state_def delete_trailing_state_def by simp
qed

text \<open>One position of the sweep: the other rows are untouched; its own is dropped when stale, kept, or tightened.\<close>

definition swept :: "int \<Rightarrow> bridge \<Rightarrow> trailing_row \<Rightarrow> trailing_row option \<Rightarrow> bool" where
  "swept now b t after \<longleftrightarrow> (case after of
      None \<Rightarrow> \<exists>u. tr_updated_at t = Some u \<and> TRAILING_STATE_STALE_AFTER_S \<le> ts_seconds (now - u)
    | Some t' \<Rightarrow> t' = t \<or> (\<exists>p. open_position_row (tr_account_id t) (tr_position_id t) b = Some p \<and> tightened (pr_side p) t t'))"

lemma open_position_row_tables: "br_tables b' = br_tables b \<Longrightarrow> open_position_row a q b' = open_position_row a q b"
  by (simp add: open_position_row_def)

lemma same_trailing_load: "same_trailing b b' \<Longrightarrow> load_trailing_state a q (br_db b') = load_trailing_state a q (br_db b)"
  by (simp add: same_trailing_def load_trailing_state_def)

lemma trail_position_swept:
  assumes "load_trailing_state (tr_account_id t) (tr_position_id t) (br_db b) = Some t"
    "open_position_row (tr_account_id t) (tr_position_id t) b = Some p"
  shows "br_tables (snd (trail_position env now t price p rule b)) = br_tables b \<and>
    (\<forall>a q. (a, q) \<noteq> (tr_account_id t, tr_position_id t) \<longrightarrow>
       load_trailing_state a q (br_db (snd (trail_position env now t price p rule b))) = load_trailing_state a q (br_db b)) \<and>
    swept now b t (load_trailing_state (tr_account_id t) (tr_position_id t) (br_db (snd (trail_position env now t price p rule b))))"
proof (cases "next_stop t (better_price (pr_side p) (tr_best_price t) price) p rule")
  case (Inl x)
  then show ?thesis using assms by (simp add: trail_position_def swept_def)
next
  case (Inr stop)
  let ?best = "better_price (pr_side p) (tr_best_price t) price"
  obtain r b1 where b1: "trail_amend env now t p stop b = (r, b1)" by fastforce
  have "same_trailing b (snd (trail_amend env now t p stop b))"
    using amend_same_trailing by (simp add: trail_amend_def same_trailing_def)
  then have same: "same_trailing b b1" by (simp add: b1)
  note load = same_trailing_load [OF same]
  have tab: "br_tables b1 = br_tables b" using same by (simp add: same_trailing_def)
  have t: "tightened (pr_side p) t (t\<lparr>tr_best_price := ?best, tr_current_stop := stop, tr_updated_at := Some now\<rparr>)"
    using next_stop_tightens [OF Inr] by (auto simp: tightened_def better_price_def)
  show ?thesis
  proof (cases r)
    case (Inl x)
    then have "trail_position env now t price p rule b = (Inl x, b1)" using Inr b1 by (simp add: trail_position_def)
    then show ?thesis using assms by (simp add: load tab swept_def)
  next
    case (Inr u)
    then have "trail_position env now t price p rule b =
        (Inr (), on_br_db (upsert_trailing_state (tr_account_id t) (tr_position_id t) ?best stop now) b1)"
      using \<open>next_stop t ?best p rule = Inr stop\<close> b1 by (simp add: trail_position_def)
    with t assms show ?thesis by (simp add: load_after_upsert load tab swept_def)
  qed
qed

lemma check_one_swept:
  assumes "load_trailing_state (tr_account_id t) (tr_position_id t) (br_db b) = Some t"
    and b'_def: "b' = snd (check_one_trailing_position env now t b)"
  shows "br_tables b' = br_tables b \<and>
    (\<forall>a q. (a, q) \<noteq> (tr_account_id t, tr_position_id t) \<longrightarrow> load_trailing_state a q (br_db b') = load_trailing_state a q (br_db b)) \<and>
    swept now b t (load_trailing_state (tr_account_id t) (tr_position_id t) (br_db b'))"
proof -
  obtain price b1 where b1: "current_position_price env (tr_account_id t) (tr_position_id t) b = (price, b1)" by fastforce
  have same: "same_trailing b b1" using price_same_trailing [of b env "tr_account_id t" "tr_position_id t"] by (simp add: b1)
  note load = same_trailing_load [OF same]
  have tab: "br_tables b1 = br_tables b" using same by (simp add: same_trailing_def)
  have row: "open_position_row a q b1 = open_position_row a q b" for a q by (rule open_position_row_tables [OF tab])
  have sw: "swept now b1 t x = swept now b t x" for x by (simp only: swept_def row)
  show ?thesis
  proof (cases price)
    case None
    then have "b' = (case tr_updated_at t of None \<Rightarrow> b1 | Some u \<Rightarrow> if ts_seconds (now - u) < TRAILING_STATE_STALE_AFTER_S then b1
        else on_br_db (delete_trailing_state (tr_account_id t) (tr_position_id t)) b1)"
      unfolding b'_def check_one_trailing_position_def b1 trailing_age_def by (cases "tr_updated_at t") simp_all
    then consider "b' = b1" | u where "tr_updated_at t = Some u" "TRAILING_STATE_STALE_AFTER_S \<le> ts_seconds (now - u)"
        "b' = on_br_db (delete_trailing_state (tr_account_id t) (tr_position_id t)) b1"
      by (cases "tr_updated_at t") (auto simp: not_less split: if_splits)
    then show ?thesis
    proof cases
      case 1
      with assms(1) show ?thesis by (simp add: load tab swept_def)
    next
      case 2
      then show ?thesis by (simp add: load_after_delete load tab swept_def)
    qed
  next
    case (Some pr)
    have t1: "load_trailing_state (tr_account_id t) (tr_position_id t) (br_db b1) = Some t" using assms(1) by (simp add: load)
    from Some consider "b' = b1" | p rule where "open_position_row (tr_account_id t) (tr_position_id t) b1 = Some p"
        "b' = snd (trail_position env now t pr p rule b1)"
      using b'_def by (auto simp: check_one_trailing_position_def b1 split: option.splits sum.splits if_splits)
    then show ?thesis
    proof cases
      case 1
      with assms(1) show ?thesis by (simp add: load tab swept_def)
    next
      case 2
      with trail_position_swept [OF t1 2(1), of env now pr rule] show ?thesis by (simp add: load tab sw)
    qed
  qed
qed

lemma sweep_swept:
  assumes "distinct (map (\<lambda>t. (tr_account_id t, tr_position_id t)) ts)"
    "\<And>t. t \<in> set ts \<Longrightarrow> load_trailing_state (tr_account_id t) (tr_position_id t) (br_db b) = Some t"
  shows "br_tables (fold (\<lambda>t b. snd (check_one_trailing_position env now t b)) ts b) = br_tables b \<and>
    (\<forall>a q. (a, q) \<notin> (\<lambda>t. (tr_account_id t, tr_position_id t)) ` set ts \<longrightarrow>
       load_trailing_state a q (br_db (fold (\<lambda>t b. snd (check_one_trailing_position env now t b)) ts b)) =
       load_trailing_state a q (br_db b)) \<and>
    (\<forall>t \<in> set ts. swept now b t (load_trailing_state (tr_account_id t) (tr_position_id t)
       (br_db (fold (\<lambda>t b. snd (check_one_trailing_position env now t b)) ts b))))"
  using assms
proof (induction ts arbitrary: b)
  case (Cons t ts)
  let ?b = "snd (check_one_trailing_position env now t b)"
  have t: "load_trailing_state (tr_account_id t) (tr_position_id t) (br_db b) = Some t" using Cons.prems(2) by simp
  note one = check_one_swept [OF t refl, of env now]
  have key: "(tr_account_id u, tr_position_id u) \<noteq> (tr_account_id t, tr_position_id t)" if "u \<in> set ts" for u
    using Cons.prems(1) imageI [OF that, of "\<lambda>t. (tr_account_id t, tr_position_id t)"] by auto
  have "load_trailing_state (tr_account_id u) (tr_position_id u) (br_db ?b) = Some u" if "u \<in> set ts" for u
    using one key [OF that] Cons.prems(2) [of u] that by simp
  from Cons.IH [OF _ this] Cons.prems(1)
  have rest: "br_tables (fold (\<lambda>t b. snd (check_one_trailing_position env now t b)) ts ?b) = br_tables ?b"
    "\<forall>a q. (a, q) \<notin> (\<lambda>t. (tr_account_id t, tr_position_id t)) ` set ts \<longrightarrow>
       load_trailing_state a q (br_db (fold (\<lambda>t b. snd (check_one_trailing_position env now t b)) ts ?b)) =
       load_trailing_state a q (br_db ?b)"
    "\<forall>t \<in> set ts. swept now ?b t (load_trailing_state (tr_account_id t) (tr_position_id t)
       (br_db (fold (\<lambda>t b. snd (check_one_trailing_position env now t b)) ts ?b)))"
    by simp_all
  have "open_position_row a q ?b = open_position_row a q b" for a q using one by (intro open_position_row_tables) blast
  then have "swept now ?b u x = swept now b u x" for u x by (simp only: swept_def)
  moreover have "(tr_account_id t, tr_position_id t) \<notin> (\<lambda>t. (tr_account_id t, tr_position_id t)) ` set ts"
    using Cons.prems(1) by simp
  ultimately show ?case using rest one by auto
qed simp


text \<open>
  Where two canonical names stand for one broker name, the rule of a position in that symbol cannot be read: its
  stop never moves, however often the sweep comes by.
\<close>

lemma shared_alias_stops_trailing:
  assumes "current_position_price env (tr_account_id t) (tr_position_id t) b = (Some price, b1)"
    "open_position_row (tr_account_id t) (tr_position_id t) b1 = Some p"
    "1 < length (filter (\<lambda>a. al_account a = tr_account_id t \<and> Some (al_broker a) = pr_symbol p) (mt_aliases (br_tables b1)))"
  shows "snd (check_one_trailing_position env now t b) = b1"
  using assms by (simp add: check_one_trailing_position_def load_risk_rule_for_position_def Let_def)

section \<open>Concrete runs\<close>

definition desk_symbol :: symbol_info where
  "desk_symbol = \<lparr>si_symbol_id = 1, si_name = ''EURUSD'', si_digits = 5, si_lot_size = 100, si_min_volume = 1, si_step_volume = 1\<rparr>"

definition desk_env :: order_env where
  "desk_env = \<lparr>oe_app = control_env, oe_quotes = (\<lambda>_. None), oe_master_symbols = (\<lambda>_. []), oe_reconcilers = (\<lambda>_. None),
     oe_position_price = (\<lambda>_ _ _. Some 130), oe_max_lots = Fin 10\<rparr>"

definition desk_app :: bridge where
  "desk_app = on_br_db (\<lambda>s. s\<lparr>db_trailing := [\<lparr>tr_account_id = 7, tr_position_id = 5, tr_best_price = 100, tr_current_stop = 90,
        tr_updated_at = Some 0\<rparr>],
      db_risk_rules := [\<lparr>rr_org_id = 2, rr_symbol = ''EURUSD'', rr_stop_points = None, rr_target_points = None,
        rr_trailing_enabled = True, rr_trail_start_points = Some 10, rr_trail_step_points = Some 5\<rparr>]\<rparr>)
     (control_app\<lparr>br_tables := (br_tables control_app)\<lparr>mt_symbol_cache := [(7, ''EURUSD'', desk_symbol)],
        mt_positions := [\<lparr>pr_account_id = 7, pr_position_id = 5, pr_org_id = Some 2, pr_symbol_id = 1, pr_symbol = Some ''EURUSD'',
          pr_side = ''BUY'', pr_volume = 100, pr_entry_price = 100, pr_stop_loss = None, pr_take_profit = None, pr_label = None,
          pr_status = ''open'', pr_closed_at = None\<rparr>]\<rparr>\<rparr>)"

definition desk_order :: "(string \<times> jv) list" where
  "desk_order = [(''account_id'', VInt 7), (''symbol'', VText ''EURUSD''), (''side'', VText ''buy''),
     (''order_type'', VText ''market''), (''volume_lots'', VFloat (Fin 2))]"



end
