(* ===== verification/Throttle.thy ===== *)
theory Throttle
  imports Rounding Simulation
begin

text \<open>
  The throttle every request to the broker passes (\<^verbatim>\<open>copier/engine/throttle.py\<close>): a token bucket with a
  queue. A caller is a number; \<open>acquire\<close> answers whether it got its token at once. Times are the
  clock's seconds, every float operation is one rounded operation. The delayed call that drains the
  queue is the time it is due at, \<open>None\<close> when there is none.

  The callbacks of a released caller run inside the drain; none of them comes back to the bucket before
  the drain is over (a failed send is retried through the clock).
\<close>

record bucket =
  bu_rate :: rat
  bu_capacity :: rat
  bu_tokens :: rat
  bu_last :: rat
  bu_waiters :: "nat list"
  bu_pending :: "rat option"

definition new_bucket :: "rat \<Rightarrow> rat \<Rightarrow> rat \<Rightarrow> bucket" where
  "new_bucket rate capacity now = \<lparr>bu_rate = rate, bu_capacity = capacity, bu_tokens = capacity, bu_last = now,
     bu_waiters = [], bu_pending = None\<rparr>"

definition schedule :: "rat \<Rightarrow> bucket \<Rightarrow> bucket" where
  "schedule now b =
     (if bu_pending b \<noteq> None then b
      else let time_until_next = max (fl (fl (bu_last b + fl (1 / bu_rate b)) - now)) 0
           in b\<lparr>bu_pending := Some (fl (now + time_until_next))\<rparr>)"

definition refill :: "rat \<Rightarrow> bucket \<Rightarrow> bucket" where
  "refill now b =
     (if bu_waiters b = []
      then b\<lparr>bu_tokens := min (bu_capacity b) (fl (bu_tokens b + fl (fl (now - bu_last b) * bu_rate b))), bu_last := now\<rparr>
      else b)"

definition acquire :: "nat \<Rightarrow> rat \<Rightarrow> bucket \<Rightarrow> bool \<times> bucket" where
  "acquire d now b =
     (let b1 = refill now b in
      if 1 \<le> bu_tokens b1 \<and> bu_waiters b1 = [] then (True, b1\<lparr>bu_tokens := fl (bu_tokens b1 - 1)\<rparr>)
      else (False, schedule now (b1\<lparr>bu_waiters := bu_waiters b1 @ [d]\<rparr>)))"

definition cancel_waiter :: "nat \<Rightarrow> bucket \<Rightarrow> bucket" where
  "cancel_waiter d b = b\<lparr>bu_waiters := remove1 d (bu_waiters b)\<rparr>"

text \<open>The loop of \<^verbatim>\<open>_drain\<close>: who is released, who stays, and the watermark after it.\<close>

fun release :: "rat \<Rightarrow> nat list \<Rightarrow> rat \<Rightarrow> rat \<Rightarrow> nat list \<times> nat list \<times> rat" where
  "release rate [] budget mark = ([], [], mark)"
| "release rate (w # ws) budget mark =
     (if 1 \<le> budget
      then let (out, rest, l) = release rate ws (fl (budget - 1)) (fl (mark + fl (1 / rate))) in (w # out, rest, l)
      else ([], w # ws, mark))"

definition drain :: "rat \<Rightarrow> bucket \<Rightarrow> nat list \<times> bucket" where
  "drain now b =
     (let budget = fl (fl (now - bu_last b) * bu_rate b);
          (out, rest, mark) = release (bu_rate b) (bu_waiters b) budget (bu_last b);
          b1 = b\<lparr>bu_pending := None, bu_waiters := rest, bu_last := mark\<rparr>
      in (out, if rest \<noteq> [] then schedule now b1 else b1))"

section \<open>Order of service\<close>

text \<open>
  The bucket with the history of its callers: numbered as they come, granted in the order they were
  served, cancelled ones apart.
\<close>

record served =
  sd_bucket :: bucket
  sd_next :: nat
  sd_granted :: "nat list"
  sd_cancelled :: "nat set"

inductive throttle_step :: "served \<Rightarrow> served \<Rightarrow> bool" where
  at_once: "acquire (sd_next s) now (sd_bucket s) = (True, b) \<Longrightarrow>
     throttle_step s (s\<lparr>sd_bucket := b, sd_next := Suc (sd_next s), sd_granted := sd_granted s @ [sd_next s]\<rparr>)"
| queued: "acquire (sd_next s) now (sd_bucket s) = (False, b) \<Longrightarrow>
     throttle_step s (s\<lparr>sd_bucket := b, sd_next := Suc (sd_next s)\<rparr>)"
| cancelled: "d \<in> set (bu_waiters (sd_bucket s)) \<Longrightarrow>
     throttle_step s (s\<lparr>sd_bucket := cancel_waiter d (sd_bucket s), sd_cancelled := insert d (sd_cancelled s)\<rparr>)"
| drained: "bu_pending (sd_bucket s) \<noteq> None \<Longrightarrow> drain now (sd_bucket s) = (out, b) \<Longrightarrow>
     throttle_step s (s\<lparr>sd_bucket := b, sd_granted := sd_granted s @ out\<rparr>)"

definition served_inv :: "served \<Rightarrow> bool" where
  "served_inv s \<longleftrightarrow>
     sorted_wrt (<) (sd_granted s @ bu_waiters (sd_bucket s)) \<and>
     set (sd_granted s) \<union> set (bu_waiters (sd_bucket s)) \<union> sd_cancelled s = {..< sd_next s} \<and>
     (set (sd_granted s) \<union> set (bu_waiters (sd_bucket s))) \<inter> sd_cancelled s = {} \<and>
     (bu_waiters (sd_bucket s) \<noteq> [] \<longrightarrow> bu_pending (sd_bucket s) \<noteq> None)"

lemma release_splits: "release rate ws budget mark = (out, rest, l) \<Longrightarrow> ws = out @ rest"
  by (induction rate ws budget mark arbitrary: out rest l rule: release.induct)
    (auto simp: Let_def split: if_splits prod.splits)

lemma schedule_simps [simp]:
  "bu_waiters (schedule now b) = bu_waiters b" "\<exists>y. bu_pending (schedule now b) = Some y"
  by (auto simp: schedule_def Let_def)

lemma refill_simps [simp]: "bu_waiters (refill now b) = bu_waiters b" "bu_pending (refill now b) = bu_pending b"
  by (simp_all add: refill_def)

lemma acquire_at_once: "acquire d now b = (True, b') \<Longrightarrow> bu_waiters b = [] \<and> bu_waiters b' = []"
  by (auto simp: acquire_def Let_def split: if_splits)

lemma acquire_queued: "acquire d now b = (False, b') \<Longrightarrow> bu_waiters b' = bu_waiters b @ [d] \<and> bu_pending b' \<noteq> None"
  by (auto simp: acquire_def Let_def split: if_splits)

lemma drain_splits:
  assumes "drain now b = (out, b')"
  shows "bu_waiters b = out @ bu_waiters b' \<and> (bu_waiters b' \<noteq> [] \<longrightarrow> bu_pending b' \<noteq> None)"
proof -
  obtain o1 rest l where r: "release (bu_rate b) (bu_waiters b) (fl (fl (now - bu_last b) * bu_rate b)) (bu_last b) = (o1, rest, l)"
    using prod_cases3 by blast
  with assms release_splits [OF r] show ?thesis by (auto simp: drain_def Let_def split: if_splits)
qed

lemma served_step: "throttle_step s t \<Longrightarrow> served_inv s \<Longrightarrow> served_inv t"
proof (induction rule: throttle_step.induct)
  case (at_once s now b)
  from acquire_at_once [OF at_once(1)] at_once(2) show ?case by (auto simp: served_inv_def sorted_wrt_append)
next
  case (queued s now b)
  have "x < sd_next s" if "x \<in> set (sd_granted s) \<union> set (bu_waiters (sd_bucket s)) \<union> sd_cancelled s" for x
    using queued(2) that by (simp only: served_inv_def lessThan_iff)
  with acquire_queued [OF queued(1)] queued(2) show ?case
    by (auto simp: served_inv_def sorted_wrt_append lessThan_Suc)
next
  case (cancelled d s)
  let ?w = "bu_waiters (sd_bucket s)"
  have w: "sorted_wrt (<) ?w" "sorted_wrt (<) (sd_granted s @ ?w)" using cancelled by (simp_all add: served_inv_def sorted_wrt_append)
  then have "distinct ?w" by (simp add: strict_sorted_iff)
  then have "remove1 d ?w = filter (\<lambda>x. x \<noteq> d) ?w"
    by (simp add: distinct_remove1_removeAll removeAll_filter_not_eq) (metis (mono_tags, lifting))
  moreover have "d \<notin> set (sd_granted s)" using w cancelled by (auto simp: sorted_wrt_append)
  ultimately show ?case
    using cancelled w by (auto simp: served_inv_def cancel_waiter_def sorted_wrt_append sorted_wrt_filter)
next
  case (drained s now out b)
  from drain_splits [OF drained(2)] drained(3) show ?case by (auto simp: served_inv_def sorted_wrt_append)
qed

interpretation throttle: bounded_machine "\<lambda>_ _. True" throttle_step served_inv "\<lambda>_. True"
  by unfold_locales (auto intro: served_step)

definition idle :: "rat \<Rightarrow> rat \<Rightarrow> rat \<Rightarrow> served" where
  "idle rate capacity now = \<lparr>sd_bucket = new_bucket rate capacity now, sd_next = 0, sd_granted = [], sd_cancelled = {}\<rparr>"

text \<open>
  C27. Whatever is asked of the throttle, at whatever times and with whatever cancellations, it serves in the
  order of arrival: a caller is granted at most once and never before an earlier one that still waits; nobody is
  forgotten (every caller was granted, waits, or cancelled); and as long as somebody waits, the call
  that will drain the queue is scheduled.
\<close>

theorem throttle_serves_in_order:
  assumes "throttle_step\<^sup>*\<^sup>* (idle rate capacity now) s"
  shows "sorted_wrt (<) (sd_granted s @ bu_waiters (sd_bucket s)) \<and>
    set (sd_granted s) \<union> set (bu_waiters (sd_bucket s)) \<union> sd_cancelled s = {..< sd_next s} \<and>
    (bu_waiters (sd_bucket s) \<noteq> [] \<longrightarrow> bu_pending (sd_bucket s) \<noteq> None)"
proof -
  have "served_inv (idle rate capacity now)" by (simp add: served_inv_def idle_def new_bucket_def)
  from throttle.run_keeps [OF assms this] show ?thesis by (simp add: served_inv_def)
qed

theorem throttle_serves_in_order_witness:
  "\<exists>s. throttle_step\<^sup>*\<^sup>* (idle 40 1 0) s \<and> sd_granted s = [0] \<and> bu_waiters (sd_bucket s) = [1] \<and> bu_pending (sd_bucket s) \<noteq> None"
proof -
  let ?b0 = "new_bucket 40 1 0"
  let ?b1 = "snd (acquire 0 0 ?b0)"
  let ?b2 = "snd (acquire 1 0 ?b1)"
  have "fl 1 = 1" by code_simp
  then have a: "fst (acquire 0 0 ?b0)" "\<not> fst (acquire 1 0 ?b1)"
    by (simp_all add: acquire_def refill_def new_bucket_def Let_def)
  let ?s1 = "\<lparr>sd_bucket = ?b1, sd_next = 1, sd_granted = [0], sd_cancelled = {}\<rparr>"
  let ?s2 = "\<lparr>sd_bucket = ?b2, sd_next = 2, sd_granted = [0], sd_cancelled = {}\<rparr>"
  have 1: "throttle_step (idle 40 1 0) ?s1"
    using throttle_step.at_once [of "idle 40 1 0" 0 ?b1] a(1) by (simp add: idle_def prod_eq_iff)
  have 2: "throttle_step ?s1 ?s2"
    using throttle_step.queued [of ?s1 0 ?b2] a(2) by (simp add: prod_eq_iff numeral_2_eq_2)
  have run: "throttle_step\<^sup>*\<^sup>* (idle 40 1 0) ?s2" using 1 2 by (meson r_into_rtranclp rtranclp_trans)
  have w: "bu_waiters ?b2 = [1]" using acquire_queued [of 1 0 ?b1 ?b2] acquire_at_once [of 0 0 ?b0 ?b1] a by (simp add: prod_eq_iff)
  from throttle_serves_in_order [OF run] run w show ?thesis by auto
qed

end
