(* ===== verification/Broker_Client.thy ===== *)
theory Broker_Client
  imports Dispatch_Laws Simulation
begin

text \<open>
  The client of a broker connection (\<^verbatim>\<open>copier/ctrader/client.py\<close>) and the function that hands it the
  dispatcher's requests (\<^verbatim>\<open>send_for_account\<close> in \<^verbatim>\<open>copier/main.py\<close>). A client keeps which accounts it
  shall authorise and which the broker has confirmed on the current connection; connections are
  numbered. The SDK under it is third-party code: what happens on the socket (a connection is made or
  lost, an answer to an authorisation arrives or does not) are the steps of the machine below. Two facts
  of it are used: \<^verbatim>\<open>whenConnected\<close> fires at once with the current connection when there is one and
  with the next one otherwise, and an answer to a request arrives on the connection the request went out on.
\<close>

section \<open>A client\<close>

record client =
  cn_connection :: "nat option"
  cn_next_connection :: nat
  cn_accounts :: "(ident, string) dict"
  cn_authed :: "ident list"
  cn_auth_errors :: "(ident, string) dict"
  cn_ready :: bool
  cn_heartbeat :: bool
  cn_passes :: "ident list list"
  cn_requested :: "ident list"

text \<open>
  \<open>cn_passes\<close> are the bulk authorisations under way: the accounts whose turn is still to come, the
  first of them being the one whose answer the pass waits for. \<open>cn_requested\<close> lists the authorisations asked for.
\<close>

definition new_client :: client where
  "new_client = \<lparr>cn_connection = None, cn_next_connection = 0, cn_accounts = [], cn_authed = [], cn_auth_errors = [],
     cn_ready = False, cn_heartbeat = False, cn_passes = [], cn_requested = []\<rparr>"

definition send_account_auth :: "ident \<Rightarrow> client \<Rightarrow> client" where
  "send_account_auth account_id c = c\<lparr>cn_requested := cn_requested c @ [account_id]\<rparr>"

definition authorize_account :: "ident \<Rightarrow> string \<Rightarrow> client \<Rightarrow> client" where
  "authorize_account account_id token c =
     send_account_auth account_id (c\<lparr>cn_accounts := AList.update account_id token (cn_accounts c)\<rparr>)"

definition deauthorize_account :: "ident \<Rightarrow> client \<Rightarrow> client" where
  "deauthorize_account account_id c =
     c\<lparr>cn_accounts := AList.delete account_id (cn_accounts c), cn_authed := removeAll account_id (cn_authed c),
       cn_auth_errors := AList.delete account_id (cn_auth_errors c)\<rparr>"

definition is_account_authed :: "ident \<Rightarrow> client \<Rightarrow> bool" where
  "is_account_authed account_id c \<longleftrightarrow> account_id \<in> set (cn_authed c)"

definition account_auth_error :: "ident \<Rightarrow> client \<Rightarrow> string option" where
  "account_auth_error account_id c = map_of (cn_auth_errors c) account_id"

definition on_connected :: "client \<Rightarrow> client" where
  "on_connected c = c\<lparr>cn_connection := Some (cn_next_connection c), cn_next_connection := Suc (cn_next_connection c)\<rparr>"

text \<open>
  One turn of \<^verbatim>\<open>_reauth_all\<close>: the next account's request, or the end, after which the client is ready. An
  account that was removed meanwhile has no token: the \<^verbatim>\<open>KeyError\<close> ends the pass, with whoever is behind it.
\<close>

definition reauth_turn :: "ident list \<Rightarrow> client \<Rightarrow> ident list option \<times> client" where
  "reauth_turn accounts c =
     (case accounts of
        [] \<Rightarrow> (None, c\<lparr>cn_ready := True\<rparr>)
      | a # _ \<Rightarrow> if map_of (cn_accounts c) a = None then (None, c\<lparr>cn_ready := True\<rparr>)
                else (Some accounts, send_account_auth a c))"

definition on_app_authed :: "client \<Rightarrow> client" where
  "on_app_authed c =
     (let (p, c1) = reauth_turn (map fst (cn_accounts c)) (c\<lparr>cn_heartbeat := True\<rparr>)
      in c1\<lparr>cn_passes := cn_passes c1 @ (case p of None \<Rightarrow> [] | Some accounts \<Rightarrow> [accounts])\<rparr>)"

datatype auth_answer = AuthAccepted | AuthError string | Undecodable | NoAnswer

definition ALREADY_LOGGED_IN :: string where "ALREADY_LOGGED_IN = ''ALREADY_LOGGED_IN''"

fun confirms :: "auth_answer \<Rightarrow> bool" where
  "confirms AuthAccepted = True"
| "confirms (AuthError code) = (code = ALREADY_LOGGED_IN)"
| "confirms _ = False"

definition on_account_auth_response :: "ident \<Rightarrow> auth_answer \<Rightarrow> client \<Rightarrow> client" where
  "on_account_auth_response account_id answer c =
     (if confirms answer
      then c\<lparr>cn_authed := List.insert account_id (cn_authed c), cn_auth_errors := AList.delete account_id (cn_auth_errors c)\<rparr>
      else case answer of
             AuthError code \<Rightarrow> c\<lparr>cn_auth_errors := AList.update account_id code (cn_auth_errors c)\<rparr>
           | _ \<Rightarrow> c)"

text \<open>An answer that a bulk pass waits for lets the pass go on.\<close>

definition auth_answered :: "nat option \<Rightarrow> ident \<Rightarrow> auth_answer \<Rightarrow> client \<Rightarrow> client" where
  "auth_answered pass account_id answer c =
     (let c1 = on_account_auth_response account_id answer c in
      case pass of
        None \<Rightarrow> c1
      | Some i \<Rightarrow>
          if i < length (cn_passes c1) \<and> cn_passes c1 ! i \<noteq> []
          then (let (p, c2) = reauth_turn (tl (cn_passes c1 ! i)) c1
                in c2\<lparr>cn_passes := take i (cn_passes c2) @ (case p of None \<Rightarrow> [] | Some q \<Rightarrow> [q]) @ drop (Suc i) (cn_passes c2)\<rparr>)
          else c1)"

definition on_disconnected :: "client \<Rightarrow> client" where
  "on_disconnected c = c\<lparr>cn_connection := None, cn_heartbeat := False, cn_authed := []\<rparr>"

section \<open>Handing over a request\<close>

text \<open>
  \<^verbatim>\<open>send_no_reply\<close> up to its first wait: the request is written in the same turn when there is a
  connection (unless the protocol refuses to encode it), else it waits for the next one or for its timeout.
\<close>

datatype handoff = Written nat | NotEncoded string | WaitsForConnection

definition send_no_reply :: "string option \<Rightarrow> client \<Rightarrow> handoff" where
  "send_no_reply refusal c =
     (case cn_connection c of
        None \<Rightarrow> WaitsForConnection
      | Some n \<Rightarrow> (case refusal of None \<Rightarrow> Written n | Some m \<Rightarrow> NotEncoded m))"

type_synonym shard = "bool \<times> int"

definition clients_by_account :: "db \<Rightarrow> (shard \<Rightarrow> client option) \<Rightarrow> int \<Rightarrow> ident \<Rightarrow> string + (shard \<times> client)" where
  "clients_by_account s clients shards account_id =
     (case find (\<lambda>a. a_account_id a = account_id) (db_accounts s) of
        None \<Rightarrow> Inl (''account '' @ str_int account_id @ '' not found'')
      | Some a \<Rightarrow>
          let k = (a_is_live a, account_id mod shards) in
          (case clients k of
             None \<Rightarrow> Inl (''no client for account '' @ str_int account_id @ '' (is_live='' @ (if a_is_live a then ''True'' else ''False'')
               @ '', shard='' @ str_int (account_id mod shards) @ '')'')
           | Some c \<Rightarrow> Inr (k, c)))"

definition auth_gate :: "ident \<Rightarrow> client \<Rightarrow> string option" where
  "auth_gate account_id c =
     (if \<not> cn_ready c then Some (''client for account '' @ str_int account_id @ '' not app-authed yet'')
      else if map_of (cn_accounts c) account_id = None
      then Some (''account '' @ str_int account_id @ '' not yet account-authed on its client'')
      else if \<not> is_account_authed account_id c
      then Some (''account '' @ str_int account_id @ '' auth not yet confirmed on the current connection'')
      else None)"

definition no_transport :: "ident \<Rightarrow> string \<Rightarrow> string" where
  "no_transport account_id m = ''account '' @ str_int account_id @ '': no connected transport for send: '' @ m"

datatype send_result = Sent shard nat | NotSent string | Waits shard

definition send_for_account ::
  "db \<Rightarrow> (shard \<Rightarrow> client option) \<Rightarrow> int \<Rightarrow> string option \<Rightarrow> ident \<Rightarrow> send_result" where
  "send_for_account s clients shards refusal account_id =
     (case clients_by_account s clients shards account_id of
        Inl m \<Rightarrow> NotSent m
      | Inr (k, c) \<Rightarrow>
          (case auth_gate account_id c of
             Some m \<Rightarrow> NotSent m
           | None \<Rightarrow>
               (case send_no_reply refusal c of
                  Written n \<Rightarrow> Sent k n
                | NotEncoded m \<Rightarrow> NotSent (no_transport account_id m)
                | WaitsForConnection \<Rightarrow> Waits k)))"

section \<open>Dispatcher and clients together\<close>

text \<open>
  The whole way of a request: started by the dispatcher, attempted when the throttle lets it, written to a
  connection, retried or given up. \<open>nt_confirmed\<close> are the authorisations the broker confirmed, by
  connection; \<open>nt_wire\<close> what was written, on which connection and for whom. \<open>nt_given_up\<close> are the
  requests the ladder abandoned unsent.
\<close>

record net =
  nt_engine :: engine
  nt_clients :: "shard \<Rightarrow> client option"
  nt_confirmed :: "(shard \<times> nat \<times> ident) set"
  nt_wire :: "(shard \<times> nat \<times> ident \<times> request) list"
  nt_started :: "(ident \<times> request) list"
  nt_given_up :: "(ident \<times> request) list"
  nt_waiting :: "(send_task \<times> shard) list"

definition on_client :: "shard \<Rightarrow> (client \<Rightarrow> client) \<Rightarrow> net \<Rightarrow> net" where
  "on_client k f s = s\<lparr>nt_clients := (nt_clients s)(k := map_option f (nt_clients s k))\<rparr>"

definition written :: "shard \<Rightarrow> nat \<Rightarrow> send_task \<Rightarrow> engine \<Rightarrow> net \<Rightarrow> net" where
  "written k n t e s = s\<lparr>nt_wire := nt_wire s @ [(k, n, st_account t, st_request t)], nt_engine := run_task t SendOk e\<rparr>"

definition not_attempted :: "string \<Rightarrow> send_task \<Rightarrow> engine \<Rightarrow> net \<Rightarrow> net" where
  "not_attempted m t e s =
     s\<lparr>nt_engine := run_task t (SendNotAttempted m) e,
       nt_given_up := nt_given_up s @ (if st_attempt t < 3 then [] else [task_key t])\<rparr>"

definition attempt :: "int \<Rightarrow> string option \<Rightarrow> send_task \<Rightarrow> engine \<Rightarrow> net \<Rightarrow> net" where
  "attempt shards refusal t e s =
     (case send_for_account (eng_db e) (nt_clients s) shards refusal (st_account t) of
        Sent k n \<Rightarrow> written k n t e s
      | NotSent m \<Rightarrow> not_attempted m t e s
      | Waits k \<Rightarrow> s\<lparr>nt_engine := e, nt_waiting := nt_waiting s @ [(t, k)]\<rparr>)"

text \<open>
  An attempt whose reading of the accounts raises is the ambiguous failure of the ladder: it is given up,
  and nothing was written.
\<close>

inductive net_step :: "int \<Rightarrow> net \<Rightarrow> net \<Rightarrow> bool" for shards :: int where
  start: "net_step shards s (s\<lparr>nt_engine := start_send a q (nt_engine s), nt_started := nt_started s @ [(a, q)]\<rparr>)"
| attempts: "eng_tasks (nt_engine s) = xs @ t # ys \<Longrightarrow>
     net_step shards s (attempt shards refusal t ((nt_engine s)\<lparr>eng_tasks := xs @ ys\<rparr>) s)"
| read_fails: "eng_tasks (nt_engine s) = xs @ t # ys \<Longrightarrow>
     net_step shards s (s\<lparr>nt_engine := run_task t (SendAmbiguous m) ((nt_engine s)\<lparr>eng_tasks := xs @ ys\<rparr>),
       nt_given_up := nt_given_up s @ [task_key t]\<rparr>)"
| late_connection: "nt_waiting s = us @ (t, k) # vs \<Longrightarrow> nt_clients s k = Some c \<Longrightarrow> cn_connection c = Some n \<Longrightarrow>
     net_step shards s (written k n t (nt_engine s) (s\<lparr>nt_waiting := us @ vs\<rparr>))"
| timed_out: "nt_waiting s = us @ (t, k) # vs \<Longrightarrow>
     net_step shards s (not_attempted (no_transport (st_account t) m) t (nt_engine s) (s\<lparr>nt_waiting := us @ vs\<rparr>))"
| database: "net_step shards s (s\<lparr>nt_engine := (nt_engine s)\<lparr>eng_db := d\<rparr>\<rparr>)"
| new_connection: "nt_clients s k = None \<Longrightarrow> net_step shards s (s\<lparr>nt_clients := (nt_clients s)(k \<mapsto> new_client)\<rparr>)"
| connected: "nt_clients s k = Some c \<Longrightarrow> cn_connection c = None \<Longrightarrow> net_step shards s (on_client k on_connected s)"
| app_authed: "nt_clients s k = Some c \<Longrightarrow> cn_connection c \<noteq> None \<Longrightarrow> net_step shards s (on_client k on_app_authed s)"
| answered: "nt_clients s k = Some c \<Longrightarrow> cn_connection c = Some n \<Longrightarrow>
     net_step shards s (on_client k (auth_answered pass a answer)
       (s\<lparr>nt_confirmed := nt_confirmed s \<union> (if confirms answer then {(k, n, a)} else {})\<rparr>))"
| unanswered: "nt_clients s k = Some c \<Longrightarrow> net_step shards s (on_client k (auth_answered pass a NoAnswer) s)"
| disconnected: "net_step shards s (on_client k on_disconnected s)"
| authorize: "net_step shards s (on_client k (authorize_account a token) s)"
| deauthorize: "net_step shards s (on_client k (deauthorize_account a) s)"

definition net_inv :: "net \<Rightarrow> bool" where
  "net_inv s \<longleftrightarrow>
     (\<forall>k c a. nt_clients s k = Some c \<longrightarrow> a \<in> set (cn_authed c) \<longrightarrow> (\<exists>n. cn_connection c = Some n \<and> (k, n, a) \<in> nt_confirmed s)) \<and>
     (\<forall>k n a q. (k, n, a, q) \<in> set (nt_wire s) \<longrightarrow> (k, n, a) \<in> nt_confirmed s) \<and>
     nt_waiting s = [] \<and>
     mset (map (\<lambda>(k, n, a, q). (a, q)) (nt_wire s)) + mset (nt_given_up s) + image_mset task_key (mset (eng_tasks (nt_engine s)))
       = mset (nt_started s)"

lemma net_inv_authed:
  "net_inv s \<Longrightarrow> nt_clients s k = Some c \<Longrightarrow> a \<in> set (cn_authed c) \<Longrightarrow> \<exists>n. cn_connection c = Some n \<and> (k, n, a) \<in> nt_confirmed s"
  unfolding net_inv_def by blast

text \<open>The gate lets a request through only where the account is confirmed on the connection that is up.\<close>

lemma gate_open:
  assumes "net_inv s" "clients_by_account d (nt_clients s) shards a = Inr (k, c)" "auth_gate a c = None"
  shows "\<exists>n. cn_connection c = Some n \<and> (k, n, a) \<in> nt_confirmed s"
proof -
  have "nt_clients s k = Some c" using assms(2) by (auto simp: clients_by_account_def Let_def split: option.splits)
  moreover have "a \<in> set (cn_authed c)" using assms(3) by (auto simp: auth_gate_def is_account_authed_def split: if_splits)
  ultimately show ?thesis by (rule net_inv_authed [OF assms(1)])
qed

lemma attempt_settles:
  assumes "net_inv s"
  shows "send_for_account d (nt_clients s) shards refusal a \<noteq> Waits k \<and>
    (send_for_account d (nt_clients s) shards refusal a = Sent k n \<longrightarrow> (k, n, a) \<in> nt_confirmed s)"
  using gate_open [OF assms]
  by (fastforce simp: send_for_account_def send_no_reply_def split: sum.splits option.splits prod.splits)

lemma attempt_inv:
  assumes "net_inv s" "eng_tasks (nt_engine s) = xs @ t # ys"
  shows "net_inv (attempt shards refusal t ((nt_engine s)\<lparr>eng_tasks := xs @ ys\<rparr>) s)"
proof -
  note ok = attempt_settles [OF assms(1), of "eng_db (nt_engine s)" shards refusal "st_account t"]
  show ?thesis
  proof (cases "send_for_account (eng_db (nt_engine s)) (nt_clients s) shards refusal (st_account t)")
    case (Sent k n)
    then have "(k, n, st_account t) \<in> nt_confirmed s" using ok by blast
    then show ?thesis using assms Sent
      by (auto simp: attempt_def written_def net_inv_def run_task_tasks task_key_def)
  next
    case (NotSent m)
    then show ?thesis using assms
      by (auto simp: attempt_def not_attempted_def net_inv_def run_task_tasks task_key_def)
  next
    case (Waits k)
    then show ?thesis using ok by blast
  qed
qed

text \<open>What an event of a client does to what it has confirmed.\<close>

lemma reauth_turn_frame:
  "cn_authed (snd (reauth_turn xs c)) = cn_authed c \<and> cn_connection (snd (reauth_turn xs c)) = cn_connection c"
  by (auto simp: reauth_turn_def send_account_auth_def split: list.split)

lemma auth_answered_frame:
  "set (cn_authed (auth_answered pass a answer c)) = set (cn_authed c) \<union> (if confirms answer then {a} else {}) \<and>
   cn_connection (auth_answered pass a answer c) = cn_connection c"
proof -
  have one: "set (cn_authed (on_account_auth_response a answer c)) = set (cn_authed c) \<union> (if confirms answer then {a} else {}) \<and>
      cn_connection (on_account_auth_response a answer c) = cn_connection c"
    by (cases answer) (auto simp: on_account_auth_response_def)
  show ?thesis
    using one reauth_turn_frame by (auto simp: auth_answered_def Let_def case_prod_beta split: option.split)
qed

lemma on_client_inv:
  assumes "net_inv s" "nt_confirmed s \<subseteq> nt_confirmed s'" "s' = s\<lparr>nt_confirmed := nt_confirmed s'\<rparr>"
    "\<And>c a. nt_clients s k = Some c \<Longrightarrow> a \<in> set (cn_authed (f c)) \<Longrightarrow>
       \<exists>n. cn_connection (f c) = Some n \<and> (k, n, a) \<in> nt_confirmed s'"
  shows "net_inv (on_client k f s')"
proof -
  have eq: "nt_clients s' = nt_clients s" "nt_wire s' = nt_wire s" "nt_waiting s' = nt_waiting s" "nt_engine s' = nt_engine s"
    "nt_given_up s' = nt_given_up s" "nt_started s' = nt_started s"
    by (subst assms(3), simp)+
  show ?thesis using assms(1,2,4) unfolding net_inv_def on_client_def eq by (simp add: eq) blast
qed

lemma on_app_authed_frame: "cn_authed (on_app_authed c) = cn_authed c" "cn_connection (on_app_authed c) = cn_connection c"
  using reauth_turn_frame [of "map fst (cn_accounts c)" "c\<lparr>cn_heartbeat := True\<rparr>"]
  by (simp_all add: on_app_authed_def Let_def case_prod_beta)

lemma net_inv_step: "net_step shards s t \<Longrightarrow> net_inv s \<Longrightarrow> net_inv t"
proof (induction rule: net_step.induct)
  case (attempts s xs t ys refusal)
  show ?case by (rule attempt_inv [OF attempts(2,1)])
next
  case (answered s k c n pass a answer)
  show ?case
  proof (rule on_client_inv [OF answered(3)])
    show "\<exists>m. cn_connection (auth_answered pass a answer c') = Some m \<and>
        (k, m, x) \<in> nt_confirmed (s\<lparr>nt_confirmed := nt_confirmed s \<union> (if confirms answer then {(k, n, a)} else {})\<rparr>)"
      if "nt_clients s k = Some c'" "x \<in> set (cn_authed (auth_answered pass a answer c'))" for c' x
      using that answered(1,2) net_inv_authed [OF answered(3), of k c' x] auth_answered_frame [of pass a answer c']
      by (auto split: if_splits)
  qed simp_all
next
  case (unanswered s k c pass a)
  then show ?case
    using auth_answered_frame [of pass a NoAnswer] net_inv_authed by (intro on_client_inv [where s = s]) auto
next
  case (connected s k c)
  then show ?case by (intro on_client_inv [where s = s]) (auto simp: on_connected_def dest: net_inv_authed)
next
  case (app_authed s k c)
  then show ?case by (intro on_client_inv [where s = s]) (auto simp: on_app_authed_frame dest: net_inv_authed)
next
  case (disconnected s k)
  then show ?case by (intro on_client_inv [where s = s]) (auto simp: on_disconnected_def)
next
  case (authorize s k a token)
  then show ?case by (intro on_client_inv [where s = s]) (auto simp: authorize_account_def send_account_auth_def dest: net_inv_authed)
next
  case (deauthorize s k a)
  then show ?case by (intro on_client_inv [where s = s]) (auto simp: deauthorize_account_def dest: net_inv_authed)
qed (auto simp: net_inv_def run_task_tasks task_key_def start_send_def new_client_def)

interpretation net: bounded_machine "\<lambda>_ _. True" "net_step shards" net_inv "\<lambda>_. True" for shards
  by unfold_locales (auto intro: net_inv_step)

definition quiet_net :: "engine \<Rightarrow> net" where
  "quiet_net e = \<lparr>nt_engine = e, nt_clients = Map.empty, nt_confirmed = {}, nt_wire = [], nt_started = map task_key (eng_tasks e),
     nt_given_up = [], nt_waiting = []\<rparr>"

text \<open>
  C14. From the dispatcher to the socket, through lost connections, refused and repeated authorisations,
  retries and reloads: every request the dispatcher starts is written at most once (what was written, what was
  given up unsent and what still waits are together exactly what was started); it is written only on a
  connection on which the broker has confirmed that account; and no request ever waits for a connection,
  so none is written late.
\<close>

theorem trades_written_once_on_authorised_connections:
  assumes "(net_step shards)\<^sup>*\<^sup>* (quiet_net e) s"
  shows "mset (map (\<lambda>(k, n, a, q). (a, q)) (nt_wire s)) + mset (nt_given_up s)
       + image_mset task_key (mset (eng_tasks (nt_engine s))) = mset (nt_started s) \<and>
    (\<forall>k n a q. (k, n, a, q) \<in> set (nt_wire s) \<longrightarrow> (k, n, a) \<in> nt_confirmed s) \<and> nt_waiting s = []"
proof -
  have "net_inv (quiet_net e)" by (simp add: net_inv_def quiet_net_def)
  from net.run_keeps [OF assms this] show ?thesis unfolding net_inv_def by blast
qed

text \<open>
  A pass meets an account that was removed while the pass ran: the accounts behind it are not asked for, although
  the pass is over.
\<close>

lemma removed_account_ends_the_pass:
  assumes "map_of (cn_accounts c) b = None" "cn_passes c = [a # b # rest]"
  shows "cn_passes (auth_answered (Some 0) a NoAnswer c) = [] \<and> cn_requested (auth_answered (Some 0) a NoAnswer c) = cn_requested c"
  using assms by (simp add: auth_answered_def on_account_auth_response_def reauth_turn_def)

theorem trades_written_once_on_authorised_connections_witness:
  "\<exists>s. (net_step 1)\<^sup>*\<^sup>* (quiet_net witness_ladder) s \<and> nt_wire s = [((False, 0), 0, 7, CancelOrderReq 7 5)] \<and>
     ((False, 0), 0, 7) \<in> nt_confirmed s \<and> eng_tasks (nt_engine s) = []"
proof -
  let ?k = "(False, 0) :: shard"
  let ?t = "\<lparr>st_account = 7, st_request = CancelOrderReq 7 5, st_attempt = 0\<rparr>"
  define s1 where "s1 = (quiet_net witness_ladder)\<lparr>nt_clients := [?k \<mapsto> new_client]\<rparr>"
  define s2 where "s2 = on_client ?k (authorize_account 7 ''token'') s1"
  define s3 where "s3 = on_client ?k on_connected s2"
  define s4 where "s4 = on_client ?k on_app_authed s3"
  define s5 where "s5 = on_client ?k (auth_answered (Some 0) 7 AuthAccepted) (s4\<lparr>nt_confirmed := nt_confirmed s4 \<union> {(?k, 0, 7)}\<rparr>)"
  define s6 where "s6 = attempt 1 None ?t ((nt_engine s5)\<lparr>eng_tasks := [] @ []\<rparr>) s5"
  note defs = s1_def s2_def s3_def s4_def s5_def quiet_net_def on_client_def
  have c4: "nt_clients s4 ?k = Some (on_app_authed (on_connected (authorize_account 7 ''token'' new_client)))" by (simp add: defs)
  have 1: "net_step 1 (quiet_net witness_ladder) s1"
    using net_step.new_connection [of "quiet_net witness_ladder" ?k 1] by (simp add: s1_def quiet_net_def)
  have 2: "net_step 1 s1 s2" unfolding s2_def by (rule net_step.authorize)
  have 3: "net_step 1 s2 s3"
    unfolding s3_def by (rule net_step.connected [of s2 ?k "authorize_account 7 ''token'' new_client"])
      (simp add: defs, simp add: authorize_account_def send_account_auth_def new_client_def)
  have 4: "net_step 1 s3 s4"
    unfolding s4_def by (rule net_step.app_authed [of s3 ?k "on_connected (authorize_account 7 ''token'' new_client)"])
      (simp add: defs, simp add: on_connected_def)
  have n4: "cn_connection (on_app_authed (on_connected (authorize_account 7 ''token'' new_client))) = Some 0" by code_simp
  have 5: "net_step 1 s4 s5"
    unfolding s5_def using net_step.answered [OF c4 n4, of 1 "Some 0" 7 AuthAccepted] by simp
  have tasks: "eng_tasks (nt_engine s5) = [] @ ?t # []"
    by (simp add: defs witness_ladder_def start_send_def witness_engine_def)
  have 6: "net_step 1 s5 s6" unfolding s6_def by (rule net_step.attempts [OF tasks])
  have run: "(net_step 1)\<^sup>*\<^sup>* (quiet_net witness_ladder) s6"
    using 1 2 3 4 5 6 by (meson converse_rtranclp_into_rtranclp r_into_rtranclp)
  define c5 where "c5 = auth_answered (Some 0) 7 AuthAccepted (on_app_authed (on_connected (authorize_account 7 ''token'' new_client)))"
  have c5: "nt_clients s5 ?k = Some c5" unfolding s5_def c5_def by (simp add: on_client_def c4)
  have g: "auth_gate 7 c5 = None" "send_no_reply None c5 = Written 0" unfolding c5_def by code_simp+
  have "find (\<lambda>a. a_account_id a = 7) (db_accounts (eng_db (nt_engine s5))) = Some \<lparr>a_account_id = 7, a_org_id = 2, a_connection_id = None,
      a_trader_login = 0, a_is_live = False, a_role = slave, a_enabled = True, a_multiplier = 1,
      a_status = OK, a_last_error = None, a_platform = ctrader\<rparr>"
    by (simp add: defs witness_ladder_def start_send_def witness_engine_def)
  then have "send_for_account (eng_db (nt_engine s5)) (nt_clients s5) 1 None 7 = Sent ?k 0"
    by (simp add: send_for_account_def clients_by_account_def c5 g)
  then have w: "nt_wire s6 = [(?k, 0, 7, CancelOrderReq 7 5)]" "eng_tasks (nt_engine s6) = []"
    by (simp_all add: s6_def attempt_def written_def run_task_tasks) (simp_all add: defs)
  from trades_written_once_on_authorised_connections [OF run] run w show ?thesis by auto
qed

end
