(* ===== verification/Spec2Isabelle.thy ===== *)
theory Spec2Isabelle
  imports Outbox_Laws Reconcile_Laws Service_Guarantees Mt5_Bridge_Laws Portal_Laws Webhook_Laws Operator_Order_Laws Throttle Broker_Client
begin

text \<open>
  A verification development of MirrorFleet, a forex copy-trading system. A workspace (organisation) has one
  master account and any number of slaves; what the master trades is copied to the slaves. Two Python programs
  share one PostgreSQL database: the copier (\<^verbatim>\<open>src/copier\<close>), which listens to brokers and sends orders, and
  the api (\<^verbatim>\<open>src/api\<close>), which serves operators, the client portal and TradingView's alerts.

  \<^bold>\<open>The parts and how they interact.\<close> A broker's execution event, from cTrader or from the report of an MT5
  terminal, is normalised to a master event (\<^verbatim>\<open>engine/normalize.py\<close>, \<^verbatim>\<open>mt5/ingress.py\<close>); the decision core
  turns it, with the mapping table and the slaves' sizing rules, into intents (\<^verbatim>\<open>domain/decision.py\<close>); the
  dispatcher sends each intent to cTrader with a retry ladder or queues it for an MT5 terminal
  (\<^verbatim>\<open>engine/dispatch.py\<close>, \<^verbatim>\<open>mt5/outbox.py\<close>); fills and acknowledgements of the slaves update the mappings
  (\<^verbatim>\<open>engine/service.py\<close>, the MT5 half of \<^verbatim>\<open>main.py\<close>); the reconciler compares the result with the brokers'
  books (\<^verbatim>\<open>engine/reconcile.py\<close>). An operator pauses, flattens, and trades by hand through the same process
  (the control methods of \<^verbatim>\<open>main.py\<close>). Everything for cTrader leaves through one queue per connection
  (\<^verbatim>\<open>engine/throttle.py\<close>, \<^verbatim>\<open>ctrader/client.py\<close>). TradingView alerts reach the copier as orders on the master
  (\<^verbatim>\<open>routes/webhooks.py\<close>). The portal keeps the clients' wallets (\<^verbatim>\<open>portal_ledger.py\<close>, \<^verbatim>\<open>portal_common.py\<close> and
  its routes).

  \<^bold>\<open>Theories and sources.\<close> Paths are under \<^verbatim>\<open>src/copier/src/copier\<close> unless they begin with \<^verbatim>\<open>api\<close>.
  \<^item> Prelude, Rounding, Simulation, Py_Values: exceptions as values, dictionaries, the pieces of \<^verbatim>\<open>str\<close> and
    \<^verbatim>\<open>int\<close>; correctly rounded decimal and binary arithmetic; the locales for frames, simulations and machines;
    values as \<^verbatim>\<open>json.loads\<close> makes them with their conversions.
  \<^item> Domain_Models, Sizing, Trailing, Decision: \<^verbatim>\<open>domain/\<close>.
  \<^item> Repo_State, Repo_Mappings, Mapping_Laws: \<^verbatim>\<open>db/repo.py\<close>; the tables as one record passed explicitly.
  \<^item> Normalize, Routing, Client_Orders, Dispatch, Dispatch_Laws: \<^verbatim>\<open>engine/normalize.py\<close>, \<^verbatim>\<open>routing.py\<close>, \<^verbatim>\<open>dispatch.py\<close>.
  \<^item> Service, Service_Laws, Isolation, Service_Guarantees: \<^verbatim>\<open>engine/service.py\<close>, every event handler.
  \<^item> Reconcile, Reconcile_Laws: \<^verbatim>\<open>engine/reconcile.py\<close>.
  \<^item> Mt5_Wire, Mt5_Outbox, Outbox_Laws, Mt5_Symbols, Mt5_Deals, Net_Ledger, Net_Ledger_Laws, Mt5_Ingress, Mt5_Registry,
    Mt5_Bridge, Mt5_Bridge_Laws: \<^verbatim>\<open>mt5/\<close> and the terminal side of \<^verbatim>\<open>main.py\<close>.
  \<^item> Operator_Control: the kill switch, pause, resume and dry run, the flattens of both lanes, closing everything;
    Operator_Orders: manual orders, closes, amendments and cancellations, the trailing sweep (\<^verbatim>\<open>main.py\<close>);
    Operator_Laws, Operator_Order_Laws: their guarantees.
  \<^item> Throttle: \<^verbatim>\<open>engine/throttle.py\<close>; Broker_Client: \<^verbatim>\<open>ctrader/client.py\<close>, the choice of a shard and the passes that
    authorise accounts (\<^verbatim>\<open>main.py\<close>).
  \<^item> Api_Access: \<^verbatim>\<open>api/auth.py\<close>, \<^verbatim>\<open>rbac.py\<close>, \<^verbatim>\<open>mpin_core.py\<close>.
  \<^item> Portal_Ledger, Portal_Store, Portal_Routes: \<^verbatim>\<open>api/portal_ledger.py\<close>, \<^verbatim>\<open>portal_common.py\<close>, the investor, desk and
    bonus routes; Portal_Books, Portal_Figures, Portal_Desk, Portal_Laws: the abstract books, exactness of the
    figures, the machine of overlapping requests, and the guarantees.
  \<^item> Hook_Alerts, Webhooks, Webhook_Door: \<^verbatim>\<open>api/tradingview_alerts.py\<close>, \<^verbatim>\<open>vt_bridge_alerts.py\<close>,
    \<^verbatim>\<open>routes/webhooks.py\<close>; Webhook_Talk, Webhook_Laws: what an alert says to the copier, and the guarantees.

  \<^bold>\<open>How the code is modelled.\<close> A Python integer is an \<open>int\<close>. A float is the rational it denotes, and every float
  operation of the source is followed by a rounding to 53 bits (\<open>fl\<close>); a \<^verbatim>\<open>Decimal\<close> operation by a rounding to
  28 digits (\<open>dec\<close>). Floats that arrive from outside may be infinite, NaN or subnormal (\<open>pyfloat\<close>). CRC-32 works on
  32-bit words. A dict is an association list in insertion order. An exception is an \<open>Inl\<close>; a handler that
  raises in the middle returns the state as it was left. SQL rows are lists, an UPDATE is \<open>update_where\<close>, times are
  arguments wherever the code or the database reads a clock, and the database's constraint violations are
  errors. What the source calls but does not contain is a parameter: brokers' answers, cookie signing, password
  hashing, SHA-256, the JSON parser, the copier as the api sees it.
  Loops are structural recursion except where a termination proof is given (probing for a symbol id, stripping a
  ticker's decorations, scrubbing secrets, printing numbers); there is no fuel. A flatten runs the source's own
  \<open>FLATTEN_ROUNDS\<close> rounds and then reports what it last measured.

  \<^bold>\<open>Ordering and overlap.\<close> The copier handles its events one after the other, so a handler is a function of the
  state. A request of the api that reads, awaits and then writes is split where another one can come in between:
  the portal's requests are launched and land later (Portal_Desk), an admitted alert flies and lands later or dies
  (Webhook_Laws), and closing everything pauses, flattens and restores with the other operator's commands in between
  (the settings machine of Operator_Laws). The lines of a connection, its confirmations and its losses are the steps of
  a machine in Broker_Client, the ticks and arrivals at a throttle those of one in Throttle. The transaction under an advisory lock is one step.

  \<^bold>\<open>What is shown.\<close>
  \<^item> Copying: an event stays inside its organisation; the intents go to exactly the enabled slaves; a full close
    closes what is left of a copy whatever fills it had; partial closes are the exact share; the mapping table's
    invariant holds whatever arrives; a copy that fills late is still protected and the memory for it is bounded;
    a trailing stop never loosens.
  \<^item> Sending: a request is on the wire at most once and never lost along the ladder, in at most four attempts; with
    copying switched off nothing is sent; a command is handed to a terminal at most three times.
  \<^item> Terminals: deals are ingested once, a deal settled by its acknowledgement is booked once, a repeated poll only
    delivers, the virtual positions of a netting account refine its net position and survive a restart, the pending
    orders' events follow their life cycle, symbol ids are unique and stable.
  \<^item> Reconciliation: drift items are what they claim to be, and a run never trades.
  \<^item> Portal: the ledger holds exactly the settlements the requests' statuses call for, however requests overlap;
    no wallet is overdrawn; rule bonuses are paid once; the tables stay well-typed. The bound of \<open>10\<^sup>1\<^sup>3\<close> rows
    (\<open>roomy\<close>) keeps every sum of amounts below \<open>10\<^sup>2\<^sup>6\<close> cents, where 28-digit decimals are exact.
  \<^item> Operators: both flattens meet one contract (the locale \<open>verified_flatten\<close>): they always end, count as closed
    only what a later measurement no longer shows, and name what is left; a terminal's flatten queues each close
    once; closing everything gives copying back exactly when nobody touched the settings meanwhile; a manual order
    that is sent passed every guard; a close never exceeds its position; the trailing sweep only tightens stops.
  \<^item> Connections: the throttle serves in order and forgets nobody, and a drain is scheduled while somebody waits; a trade is written at most once and
    only on a connection that has confirmed the account's authorisation.
  \<^item> Access: sessions, roles, rate limits and MPIN guesses.
  \<^item> Alerts: the same order is never placed twice within twenty seconds, an order that may exist is never answered so
    that TradingView resends it, every gate stands before the copier, a minute sees at most sixty orders, and no
    secret is stored.
  Theorems about gaps are part of it: the protection memory shared between organisations, the remaining volume
  repeated in a report's closes, a close that is half done and reported as failed, overlapping close-alls of which
  neither gives copying back, an alias shared by two accounts that stops the sweep.

  \<^bold>\<open>Not modelled, and why.\<close> The transport (cTrader's protobuf over TLS, heartbeats, HTTP, websockets, asyncio
  scheduling, the background writer: the model writes at once); the supervision and wiring in \<^verbatim>\<open>main.py\<close>; the
  dashboard's live state; reports, statistics,
  listings and other read-only endpoints, and columns that are only displayed; file bytes and identity forms; the
  JSON parsers and the line format of the MT5 protocol; the HTTP layer of the control surface; gaps a
  PostgreSQL sequence leaves after a rollback (only the order of ids is used); text outside ASCII.
\<close>

end
